(* ===== verification/Bot_Prelude.thy ===== *)
theory Bot_Prelude
  imports Main "HOL-Library.Word"
begin

text \<open>
  Shared vocabulary of the development: Go's error values (sentinels, formatted errors, wrapped
  errors and \<open>errors.Is\<close>), Go's \<open>time.Time\<close> on the millisecond grid that MySQL's
  \<open>DATETIME(3)\<close> keeps, the SQL primitives on tables kept as lists of rows, and the list lemmas
  that the component theories use. The collections \<open>go_simps\<close> and \<open>sql_simps\<close> gather the
  rewrite rules the component proofs hand to the simplifier.
\<close>

named_theorems go_simps
named_theorems sql_simps

section \<open>Go errors\<close>

text \<open>
  A Go \<open>error\<close> value: a package-level sentinel (compared by identity), an error made by
  \<open>fmt.Errorf\<close> or \<open>errors.New\<close> inside a function, or \<open>fmt.Errorf("text: %w", err)\<close>.
\<close>

datatype go_error =
    Sentinel string
  | Errorf string
  | Wrapf string go_error

fun errors_is :: "go_error \<Rightarrow> go_error \<Rightarrow> bool" where
  "errors_is (Wrapf s e) t = (Wrapf s e = t \<or> errors_is e t)"
| "errors_is (Sentinel s) t = (Sentinel s = t)"
| "errors_is (Errorf s) t = (Errorf s = t)"

fun error_text :: "go_error \<Rightarrow> string" where
  "error_text (Sentinel s) = s"
| "error_text (Errorf s) = s"
| "error_text (Wrapf s e) = s @ '': '' @ error_text e"

type_synonym 'a res = "go_error + 'a"

abbreviation ok_res :: "'a res \<Rightarrow> bool" where
  "ok_res r \<equiv> (\<exists>x. r = Inr x)"

text \<open>Errors of the driver: a lost connection, errors 1062 and 1452, and \<open>sql.ErrNoRows\<close>.\<close>

definition ErrDriver :: go_error where
  "ErrDriver = Sentinel ''driver: bad connection''"

definition ErrDuplicateKey :: go_error where
  "ErrDuplicateKey = Sentinel ''Error 1062: Duplicate entry''"

definition ErrForeignKey :: go_error where
  "ErrForeignKey = Sentinel ''Error 1452: Cannot add or update a child row''"

definition ErrNoRows :: go_error where
  "ErrNoRows = Sentinel ''sql: no rows in result set''"

lemma driver_error_distinct [simp]:
  "ErrDriver \<noteq> ErrDuplicateKey" "ErrDuplicateKey \<noteq> ErrDriver"
  "ErrDriver \<noteq> ErrNoRows" "ErrNoRows \<noteq> ErrDriver"
  "ErrDuplicateKey \<noteq> ErrNoRows" "ErrNoRows \<noteq> ErrDuplicateKey"
  "ErrForeignKey \<noteq> ErrDuplicateKey" "ErrDuplicateKey \<noteq> ErrForeignKey"
  by (simp_all add: ErrDriver_def ErrDuplicateKey_def ErrNoRows_def ErrForeignKey_def)

section \<open>Go times\<close>

text \<open>
  A \<open>time.Time\<close> is the number of milliseconds since the Unix epoch. The zero value of Go's
  \<open>time.Time\<close> is the first instant of year 1.
\<close>

type_synonym go_time = int

definition zero_time :: go_time where
  "zero_time = - 62135596800000"

definition is_zero_time :: "go_time \<Rightarrow> bool" where
  "is_zero_time t \<longleftrightarrow> t = zero_time"

abbreviation seconds :: "int \<Rightarrow> int" where
  "seconds n \<equiv> n * 1000"

abbreviation minutes :: "int \<Rightarrow> int" where
  "minutes n \<equiv> n * 60000"

section \<open>Tables as lists of rows\<close>

text \<open>
  \<open>UPDATE t SET f WHERE p\<close>: every row that satisfies \<open>p\<close> is replaced by \<open>f r\<close>. The affected
  count of MySQL (without \<open>clientFoundRows\<close>, as \<open>internal/config\<close> builds the DSN) counts the
  rows whose value really changed.
\<close>

definition sql_update :: "('r \<Rightarrow> bool) \<Rightarrow> ('r \<Rightarrow> 'r) \<Rightarrow> 'r list \<Rightarrow> 'r list" where
  "sql_update p f rows = map (\<lambda>r. if p r then f r else r) rows"

definition sql_affected :: "('r \<Rightarrow> bool) \<Rightarrow> ('r \<Rightarrow> 'r) \<Rightarrow> 'r list \<Rightarrow> nat" where
  "sql_affected p f rows = length (filter (\<lambda>r. p r \<and> f r \<noteq> r) rows)"

text \<open>\<open>SELECT \<dots> WHERE p\<close> with \<open>QueryRow\<close>: the first row that satisfies \<open>p\<close>.\<close>

definition sql_first :: "('r \<Rightarrow> bool) \<Rightarrow> 'r list \<Rightarrow> 'r option" where
  "sql_first p rows = List.find p rows"

text \<open>\<open>INSERT\<close>: refused with error 1062 when a row has the same value of some unique key.\<close>

definition sql_conflict :: "('r \<Rightarrow> 'r \<Rightarrow> bool) \<Rightarrow> 'r \<Rightarrow> 'r list \<Rightarrow> bool" where
  "sql_conflict dup r rows \<longleftrightarrow> (\<exists>r' \<in> set rows. dup r' r)"

lemma length_sql_update [simp]: "length (sql_update p f rows) = length rows"
  by (simp add: sql_update_def)

lemma set_sql_update: "set (sql_update p f rows) = (\<lambda>r. if p r then f r else r) ` set rows"
  by (simp add: sql_update_def)

lemma sql_update_Nil [simp]: "sql_update p f [] = []"
  by (simp add: sql_update_def)

lemma sql_update_Cons [simp]:
  "sql_update p f (r # rows) = (if p r then f r else r) # sql_update p f rows"
  by (simp add: sql_update_def)

lemma sql_affected_Nil [simp]: "sql_affected p f [] = 0"
  by (simp add: sql_affected_def)

lemma sql_affected_Cons [simp]:
  "sql_affected p f (r # rows) = (if p r \<and> f r \<noteq> r then 1 else 0) + sql_affected p f rows"
  by (simp add: sql_affected_def)

lemma sql_first_Nil [simp]: "sql_first p [] = None"
  by (simp add: sql_first_def)

lemma sql_first_Cons [simp]:
  "sql_first p (r # rows) = (if p r then Some r else sql_first p rows)"
  by (simp add: sql_first_def)

lemma sql_first_SomeD: "sql_first p rows = Some r \<Longrightarrow> r \<in> set rows \<and> p r"
  by (induction rows) (auto split: if_splits)

lemma sql_first_None: "sql_first p rows = None \<longleftrightarrow> (\<forall>r \<in> set rows. \<not> p r)"
  by (induction rows) auto

text \<open>An update that touches no row of a property's witness keeps it; a projection that the
  update does not write is unchanged.\<close>

lemma map_sql_update:
  "(\<And>r. p r \<Longrightarrow> g (f r) = g r) \<Longrightarrow> map g (sql_update p f rows) = map g rows"
  by (induction rows) auto

lemma sql_update_id: "(\<And>r. r \<in> set rows \<Longrightarrow> \<not> p r) \<Longrightarrow> sql_update p f rows = rows"
  by (induction rows) auto

lemma sql_affected_0_update: "sql_affected p f rows = 0 \<Longrightarrow> sql_update p f rows = rows"
  by (induction rows) (auto split: if_splits)

lemma sql_affected_0: "sql_affected p f rows = 0 \<longleftrightarrow> (\<forall>r \<in> set rows. p r \<longrightarrow> f r = r)"
  by (induction rows) auto

lemma sql_affected_pos_ex: "0 < sql_affected p f rows \<Longrightarrow> \<exists>r \<in> set rows. p r \<and> f r \<noteq> r"
  by (induction rows) (auto split: if_splits)

text \<open>With a key that determines the row, at most one row is affected.\<close>

lemma sql_affected_le1:
  assumes "distinct (map key rows)" and "\<And>r. r \<in> set rows \<Longrightarrow> p r \<Longrightarrow> key r = k"
  shows "sql_affected p f rows \<le> 1"
  using assms
proof (induction rows)
  case Nil
  then show ?case by simp
next
  case (Cons r rows)
  show ?case
  proof (cases "p r")
    case True
    with Cons.prems have "\<And>r'. r' \<in> set rows \<Longrightarrow> \<not> p r'"
      by (metis distinct.simps(2) image_eqI list.set_map list.simps(9) list.set_intros)
    then have "sql_affected p f rows = 0" by (simp add: sql_affected_0)
    then show ?thesis by simp
  next
    case False
    with Cons show ?thesis by simp
  qed
qed

lemma distinct_key_unique:
  "distinct (map key rows) \<Longrightarrow> r \<in> set rows \<Longrightarrow> r' \<in> set rows \<Longrightarrow> key r = key r' \<Longrightarrow> r = r'"
  by (metis distinct_map inj_on_eq_iff)

lemma sql_first_key:
  assumes "distinct (map key rows)" and "r \<in> set rows" and "p r"
    and "\<And>r'. r' \<in> set rows \<Longrightarrow> p r' \<Longrightarrow> key r' = key r"
  shows "sql_first p rows = Some r"
proof (cases "sql_first p rows")
  case None
  with assms(2,3) show ?thesis by (simp add: sql_first_None)
next
  case (Some r')
  then have "r' \<in> set rows" "p r'" by (auto dest: sql_first_SomeD)
  with assms have "r' = r" by (metis distinct_key_unique)
  with Some show ?thesis by simp
qed

text \<open>An update whose condition pins the key and is met changes exactly the row of that key.\<close>

lemma sql_update_key:
  assumes "distinct (map key rows)" and "x0 \<in> set rows" and "p x0" and "\<And>x. p x \<Longrightarrow> key x = k"
  shows "sql_update p f rows = map (\<lambda>x. if key x = k then f x else x) rows"
  unfolding sql_update_def
proof (rule map_cong [OF refl])
  fix x assume "x \<in> set rows"
  then have "key x = k \<Longrightarrow> x = x0" using assms by (metis distinct_key_unique)
  then show "(if p x then f x else x) = (if key x = k then f x else x)" using assms(3,4) by auto
qed

lemma sql_affected_key:
  assumes "distinct (map key rows)" and "\<And>x. p x \<Longrightarrow> key x = k" and "\<And>x. p x \<Longrightarrow> f x \<noteq> x"
  shows "sql_affected p f rows = (if \<exists>x \<in> set rows. p x then 1 else 0)"
proof (cases "\<exists>x \<in> set rows. p x")
  case True
  then have "sql_affected p f rows \<noteq> 0" using assms(3) by (auto simp: sql_affected_0)
  moreover have "sql_affected p f rows \<le> 1" by (rule sql_affected_le1 [OF assms(1)]) (rule assms(2))
  ultimately show ?thesis using True by simp
next
  case False
  then show ?thesis by (auto simp: sql_affected_0)
qed

section \<open>NULL\<close>

text \<open>An empty string is stored as NULL; \<open>COALESCE\<close>.\<close>

definition nullable :: "string \<Rightarrow> string option" where
  "nullable s = (if s = [] then None else Some s)"

definition coalesce :: "'a option \<Rightarrow> 'a option \<Rightarrow> 'a option" where
  "coalesce a b = (case a of None \<Rightarrow> b | Some x \<Rightarrow> Some x)"

end
