(* ===== verification/Go_Strings.thy ===== *)
theory Go_Strings
  imports Bot_Prelude
begin

text \<open>
  The part of Go's \<open>strings\<close>, \<open>unicode\<close> and \<open>unicode/utf8\<close> packages the program uses. A Go
  string is a sequence of bytes: here a list of 8-bit characters. A rune is a code point, a
  natural number; decoding an invalid byte gives U+FFFD with width 1. \<open>chunks\<close> cuts a string into
  its runes with the bytes each was decoded from; trimming, splitting into fields and counting runes
  are defined on it. The lemmas say that cutting loses no byte, that it is stable under taking a
  contiguous part, and that encoding followed by decoding is the identity on Unicode scalar values.
\<close>

section \<open>UTF-8\<close>

abbreviation rune_error :: nat where
  "rune_error \<equiv> 65533"

definition byte_val :: "char \<Rightarrow> nat" where
  "byte_val c = of_char c"

definition second_lo :: "nat \<Rightarrow> nat" where
  "second_lo b = (if b = 224 then 160 else if b = 240 then 144 else 128)"

definition second_hi :: "nat \<Rightarrow> nat" where
  "second_hi b = (if b = 237 then 159 else if b = 244 then 143 else 191)"

definition is_cont :: "nat \<Rightarrow> bool" where
  "is_cont b \<longleftrightarrow> 128 \<le> b \<and> b \<le> 191"

text \<open>\<open>utf8.DecodeRuneInString\<close>: the first rune and its width in bytes.\<close>

definition utf8_decode :: "string \<Rightarrow> nat \<times> nat" where
  "utf8_decode s = (case s of [] \<Rightarrow> (rune_error, 0) | c0 # t \<Rightarrow>
     (let b0 = byte_val c0 in
      if b0 < 128 then (b0, 1)
      else if b0 < 194 \<or> 244 < b0 then (rune_error, 1)
      else (case t of [] \<Rightarrow> (rune_error, 1) | c1 # t1 \<Rightarrow>
        (let b1 = byte_val c1 in
         if b1 < second_lo b0 \<or> second_hi b0 < b1 then (rune_error, 1)
         else if b0 < 224 then ((b0 - 192) * 64 + (b1 - 128), 2)
         else (case t1 of [] \<Rightarrow> (rune_error, 1) | c2 # t2 \<Rightarrow>
           (let b2 = byte_val c2 in
            if \<not> is_cont b2 then (rune_error, 1)
            else if b0 < 240 then ((b0 - 224) * 4096 + (b1 - 128) * 64 + (b2 - 128), 3)
            else (case t2 of [] \<Rightarrow> (rune_error, 1) | c3 # t3 \<Rightarrow>
              (let b3 = byte_val c3 in
               if \<not> is_cont b3 then (rune_error, 1)
               else ((b0 - 240) * 262144 + (b1 - 128) * 4096 + (b2 - 128) * 64 + (b3 - 128), 4)))))))))"

definition scalar :: "nat \<Rightarrow> bool" where
  "scalar r \<longleftrightarrow> r < 55296 \<or> 57344 \<le> r \<and> r \<le> 1114111"

definition mk_byte :: "nat \<Rightarrow> char" where
  "mk_byte n = char_of n"

text \<open>\<open>strings.Builder.WriteRune\<close>: a value that is no scalar is written as U+FFFD.\<close>

definition encode_rune :: "nat \<Rightarrow> string" where
  "encode_rune r0 = (let r = if scalar r0 then r0 else rune_error in
     if r < 128 then [mk_byte r]
     else if r < 2048 then [mk_byte (192 + r div 64), mk_byte (128 + r mod 64)]
     else if r < 65536 then
       [mk_byte (224 + r div 4096), mk_byte (128 + r div 64 mod 64), mk_byte (128 + r mod 64)]
     else [mk_byte (240 + r div 262144), mk_byte (128 + r div 4096 mod 64),
           mk_byte (128 + r div 64 mod 64), mk_byte (128 + r mod 64)])"

definition utf8 :: "nat list \<Rightarrow> string" where
  "utf8 rs = concat (map encode_rune rs)"

lemma byte_val_mk_byte [simp]: "byte_val (mk_byte n) = n mod 256"
  by (simp add: byte_val_def mk_byte_def)

lemma byte_val_less [simp]: "byte_val c < 256"
  by (simp add: byte_val_def)

lemma mk_byte_byte_val [simp]: "mk_byte (byte_val c) = c"
  by (simp add: byte_val_def mk_byte_def)

lemma utf8_decode_Nil [simp]: "utf8_decode [] = (rune_error, 0)"
  by (simp add: utf8_decode_def)

lemma utf8_decode_width_pos: "s \<noteq> [] \<Longrightarrow> 0 < snd (utf8_decode s)"
  by (auto simp: utf8_decode_def Let_def split: list.splits)

lemma utf8_decode_width_le: "snd (utf8_decode s) \<le> length s"
  by (auto simp: utf8_decode_def Let_def split: list.splits)

lemma utf8_decode_scalar: "s \<noteq> [] \<Longrightarrow> scalar (fst (utf8_decode s))"
  by (auto simp: utf8_decode_def Let_def scalar_def second_lo_def second_hi_def is_cont_def
      split: list.splits if_splits)

text \<open>Cutting the string after the first rune, or later, does not change the first rune.\<close>

lemma utf8_decode_take:
  "snd (utf8_decode s) \<le> k \<Longrightarrow> 0 < k \<Longrightarrow> utf8_decode (take k s) = utf8_decode s"
  by (auto simp: utf8_decode_def Let_def take_Cons' split: list.splits if_splits)

lemma utf8_decode_encode_rune:
  assumes "scalar r"
  shows "utf8_decode (encode_rune r @ s) = (r, length (encode_rune r))"
proof -
  consider "r < 128" | "128 \<le> r" "r < 2048" | "2048 \<le> r" "r < 65536" | "65536 \<le> r"
    by linarith
  then show ?thesis
  proof cases
    case 1
    then show ?thesis using assms by (simp add: encode_rune_def utf8_decode_def Let_def)
  next
    case 2
    then have "192 + r div 64 < 224" "194 \<le> 192 + r div 64" by linarith+
    then show ?thesis using 2 assms
      by (simp add: encode_rune_def utf8_decode_def Let_def second_lo_def second_hi_def)
  next
    case 3
    define q where "q = r div 64"
    have d: "r div 4096 = q div 64" by (simp add: q_def div_mult2_eq [of r 64 64, simplified])
    have q: "32 \<le> q" "q < 1024" unfolding q_def using 3 by linarith+
    have sur: "q < 864 \<or> 896 \<le> q" unfolding q_def using assms[unfolded scalar_def] by linarith
    have lo: "\<not> 128 + q mod 64 < second_lo (224 + q div 64)"
    proof (cases "q div 64 = 0")
      case True
      then have "q < 64" by (simp add: div_eq_0_iff)
      then show ?thesis using q(1) by (simp add: second_lo_def)
    next
      case False
      then show ?thesis using q(2) by (auto simp: second_lo_def)
    qed
    have hi: "\<not> second_hi (224 + q div 64) < 128 + q mod 64"
    proof (cases "q div 64 = 13")
      case True
      then have "q < 864" using sur by linarith
      with True have "q mod 64 < 32" by (simp add: minus_div_mult_eq_mod [symmetric])
      with True show ?thesis by (simp add: second_hi_def)
    next
      case False
      then show ?thesis using q(2) by (auto simp: second_hi_def)
    qed
    have "q div 64 * 4096 + q mod 64 * 64 + r mod 64 = r"
      using div_mult_mod_eq [of r 64] div_mult_mod_eq [of q 64] unfolding q_def by linarith
    then show ?thesis using lo hi q 3 assms
      by (simp add: encode_rune_def utf8_decode_def Let_def is_cont_def d flip: q_def)
  next
    case 4
    define q where "q = r div 64"
    define p where "p = q div 64"
    have d: "r div 4096 = p" "r div 262144 = p div 64"
      by (simp_all add: p_def q_def div_mult2_eq [of r 64 64, simplified] div_mult2_eq [of r 4096 64, simplified])
    have p: "16 \<le> p" "p \<le> 271" unfolding p_def q_def using 4 assms[unfolded scalar_def] by linarith+
    have lo: "\<not> 128 + p mod 64 < second_lo (240 + p div 64)"
    proof (cases "p div 64 = 0")
      case True
      then have "p < 64" by (simp add: div_eq_0_iff)
      then show ?thesis using p(1) by (simp add: second_lo_def)
    next
      case False
      then show ?thesis by (auto simp: second_lo_def)
    qed
    have hi: "\<not> second_hi (240 + p div 64) < 128 + p mod 64"
    proof (cases "p div 64 = 4")
      case True
      then have "p mod 64 = p - 256" by (simp add: minus_div_mult_eq_mod [symmetric])
      with True show ?thesis using p(2) by (simp add: second_hi_def)
    next
      case False
      then show ?thesis using p(2) by (auto simp: second_hi_def)
    qed
    have "p div 64 * 262144 + p mod 64 * 4096 + q mod 64 * 64 + r mod 64 = r"
      using div_mult_mod_eq [of r 64] div_mult_mod_eq [of q 64] div_mult_mod_eq [of p 64]
      unfolding p_def q_def by linarith
    moreover have "r mod 64 \<le> 63" "q mod 64 \<le> 63" "\<not> 4 < p div 64" "128 + p mod 64 < 256"
      using p(2) by linarith+
    ultimately show ?thesis using lo hi p 4 assms
      by (simp add: encode_rune_def utf8_decode_def Let_def is_cont_def d flip: q_def)
  qed
qed

lemma encode_rune_not_Nil [simp]: "encode_rune r \<noteq> []"
  by (simp add: encode_rune_def Let_def)

lemma utf8_simps [simp]: "utf8 [] = []" "utf8 (r # rs) = encode_rune r @ utf8 rs"
  by (simp_all add: utf8_def)

lemma utf8_append [simp]: "utf8 (rs @ ss) = utf8 rs @ utf8 ss"
  by (simp add: utf8_def)

section \<open>Cutting a string into runes\<close>

function chunks :: "string \<Rightarrow> (nat \<times> string) list" where
  "chunks s = (if s = [] then []
     else (fst (utf8_decode s), take (snd (utf8_decode s)) s) # chunks (drop (snd (utf8_decode s)) s))"
  by pat_completeness auto
termination
  by (relation "measure length") (auto simp: utf8_decode_width_pos)

declare chunks.simps [simp del]

lemma chunks_Nil [simp]: "chunks [] = []"
  by (simp add: chunks.simps)

lemma chunks_eq_Nil [simp]: "chunks s = [] \<longleftrightarrow> s = []"
  by (simp add: chunks.simps)

text \<open>Equations on the two shapes of a string, for evaluation.\<close>

lemma chunks_code [code]:
  "chunks [] = []"
  "chunks (c # t) = (case utf8_decode (c # t) of (r, n) \<Rightarrow> (r, take n (c # t)) # chunks (drop n (c # t)))"
  by (simp_all add: chunks.simps [of "c # t"] split: prod.split)

definition unchunk :: "(nat \<times> string) list \<Rightarrow> string" where
  "unchunk cs = concat (map snd cs)"

lemma unchunk_simps [simp]:
  "unchunk [] = []" "unchunk (c # cs) = snd c @ unchunk cs" "unchunk (cs @ ds) = unchunk cs @ unchunk ds"
  by (simp_all add: unchunk_def)

lemma unchunk_chunks [simp]: "unchunk (chunks s) = s"
proof (induction s rule: chunks.induct)
  case (1 s)
  show ?case
  proof (cases "s = []")
    case False
    with 1 show ?thesis by (simp add: chunks.simps [of s])
  qed simp
qed

definition runes :: "string \<Rightarrow> nat list" where
  "runes s = map fst (chunks s)"

definition rune_count :: "string \<Rightarrow> nat" where
  "rune_count s = length (chunks s)"

lemma length_runes [simp]: "length (runes s) = rune_count s"
  by (simp add: runes_def rune_count_def)

text \<open>A list of chunks is stable when cutting its bytes again gives it back.\<close>

definition stable :: "(nat \<times> string) list \<Rightarrow> bool" where
  "stable cs \<longleftrightarrow> chunks (unchunk cs) = cs"

lemma stable_chunks [simp]: "stable (chunks s)"
  by (simp add: stable_def)

lemma stable_Nil [simp]: "stable []"
  by (simp add: stable_def)

lemma chunks_ConsD:
  assumes "chunks s = c # cs"
  shows "s \<noteq> []" and "c = (fst (utf8_decode s), take (snd (utf8_decode s)) s)"
    and "cs = chunks (drop (snd (utf8_decode s)) s)"
  using assms by (auto simp: chunks.simps [of s] split: if_splits)

lemma stable_ConsD:
  assumes "stable (c # cs)"
  shows "stable cs" and "snd c \<noteq> []" and "scalar (fst c)"
    and "utf8_decode (snd c @ unchunk cs) = (fst c, length (snd c))"
proof -
  let ?s = "snd c @ unchunk cs"
  from assms have eq: "chunks ?s = c # cs" by (simp add: stable_def)
  note c = chunks_ConsD [OF eq]
  have len: "length (snd c) = snd (utf8_decode ?s)"
    using c(2) utf8_decode_width_le [of ?s] by (metis length_take min.absorb2 snd_conv)
  show "stable cs" using c(3) by (metis stable_chunks)
  show "snd c \<noteq> []" using len utf8_decode_width_pos [OF c(1)] by auto
  show "scalar (fst c)" using utf8_decode_scalar [OF c(1)] c(2) by (metis fst_conv)
  show "utf8_decode ?s = (fst c, length (snd c))" using c(2) len by (metis fst_conv prod.collapse)
qed

lemma stable_ConsI:
  assumes "stable cs" and "snd c \<noteq> []" and "utf8_decode (snd c @ unchunk cs) = (fst c, length (snd c))"
  shows "stable (c # cs)"
  using assms by (simp add: stable_def chunks.simps [of "snd c @ unchunk cs"])

lemma stable_suffix: "stable (cs @ ds) \<Longrightarrow> stable ds"
  by (induction cs) (auto dest: stable_ConsD(1))

lemma stable_prefix: "stable (cs @ ds) \<Longrightarrow> stable cs"
proof (induction cs)
  case (Cons c cs)
  have st: "stable (c # (cs @ ds))" using Cons.prems by simp
  let ?s = "snd c @ unchunk cs @ unchunk ds"
  have dec: "utf8_decode ?s = (fst c, length (snd c))"
    using stable_ConsD(4) [OF st] by simp
  have "utf8_decode (take (length (snd c @ unchunk cs)) ?s) = utf8_decode ?s"
    by (rule utf8_decode_take) (use dec stable_ConsD(2) [OF st] in auto)
  then have "utf8_decode (snd c @ unchunk cs) = (fst c, length (snd c))"
    using dec by simp
  with Cons.IH stable_ConsD(1,2) [OF st] show ?case by (simp add: stable_ConsI)
qed simp

lemma stable_part: "stable (cs @ ds @ es) \<Longrightarrow> stable ds"
  by (blast dest: stable_suffix stable_prefix)

lemma stable_scalar: "stable cs \<Longrightarrow> c \<in> set cs \<Longrightarrow> scalar (fst c) \<and> snd c \<noteq> []"
  by (induction cs) (auto dest: stable_ConsD)

lemma chunks_unchunk: "stable cs \<Longrightarrow> chunks (unchunk cs) = cs"
  by (simp add: stable_def)

lemma chunks_utf8: "(\<And>r. r \<in> set rs \<Longrightarrow> scalar r) \<Longrightarrow> chunks (utf8 rs) = map (\<lambda>r. (r, encode_rune r)) rs"
proof (induction rs)
  case (Cons r rs)
  then have "scalar r" by simp
  then have "utf8_decode (encode_rune r @ utf8 rs) = (r, length (encode_rune r))"
    by (rule utf8_decode_encode_rune)
  with Cons show ?case by (simp add: chunks.simps [of "encode_rune r @ utf8 rs"])
qed simp

lemma runes_scalar: "r \<in> set (runes s) \<Longrightarrow> scalar r"
  using stable_scalar [OF stable_chunks] by (auto simp: runes_def)

lemma runes_utf8: "(\<And>r. r \<in> set rs \<Longrightarrow> scalar r) \<Longrightarrow> runes (utf8 rs) = rs"
  by (simp add: runes_def chunks_utf8 comp_def)

lemma rune_count_utf8: "(\<And>r. r \<in> set rs \<Longrightarrow> scalar r) \<Longrightarrow> rune_count (utf8 rs) = length rs"
  by (simp add: rune_count_def chunks_utf8)

text \<open>\<open>utf8.ValidString\<close>: no byte decodes to the error rune with width 1.\<close>

definition valid_string :: "string \<Rightarrow> bool" where
  "valid_string s \<longleftrightarrow> (\<forall>c \<in> set (chunks s). \<not> (fst c = rune_error \<and> length (snd c) = 1))"

section \<open>White space, trimming and fields\<close>

definition is_space :: "nat \<Rightarrow> bool" where
  "is_space r \<longleftrightarrow> 9 \<le> r \<and> r \<le> 13 \<or> r = 32 \<or> r = 133 \<or> r = 160 \<or> r = 5760 \<or> 8192 \<le> r \<and> r \<le> 8202
     \<or> r = 8232 \<or> r = 8233 \<or> r = 8239 \<or> r = 8287 \<or> r = 12288"

definition strip_chunks :: "(nat \<times> string) list \<Rightarrow> (nat \<times> string) list" where
  "strip_chunks cs = rev (dropWhile (\<lambda>c. is_space (fst c)) (rev (dropWhile (\<lambda>c. is_space (fst c)) cs)))"

text \<open>\<open>strings.TrimSpace\<close>.\<close>

definition trim_space :: "string \<Rightarrow> string" where
  "trim_space s = unchunk (strip_chunks (chunks s))"

fun string_fields_acc :: "(nat \<times> string) list \<Rightarrow> string \<Rightarrow> string list" where
  "string_fields_acc [] cur = (if cur = [] then [] else [cur])"
| "string_fields_acc (c # cs) cur =
     (if is_space (fst c) then (if cur = [] then [] else [cur]) @ string_fields_acc cs []
      else string_fields_acc cs (cur @ snd c))"

text \<open>\<open>strings.Fields\<close>.\<close>

definition string_fields :: "string \<Rightarrow> string list" where
  "string_fields s = string_fields_acc (chunks s) []"

lemma strip_chunks_part: "\<exists>pre post. cs = pre @ strip_chunks cs @ post
    \<and> (\<forall>c \<in> set pre \<union> set post. is_space (fst c))"
proof -
  let ?P = "\<lambda>c. is_space (fst c)"
  let ?m = "dropWhile ?P cs"
  have 1: "cs = takeWhile ?P cs @ ?m" by simp
  have "rev ?m = takeWhile ?P (rev ?m) @ dropWhile ?P (rev ?m)" by simp
  then have "?m = rev (dropWhile ?P (rev ?m)) @ rev (takeWhile ?P (rev ?m))"
    by (metis rev_append rev_rev_ident)
  then have "cs = takeWhile ?P cs @ strip_chunks cs @ rev (takeWhile ?P (rev ?m))"
    using 1 by (simp add: strip_chunks_def)
  moreover have "\<forall>c \<in> set (takeWhile ?P cs) \<union> set (rev (takeWhile ?P (rev ?m))). ?P c"
    by (auto dest: set_takeWhileD)
  ultimately show ?thesis by blast
qed

lemma stable_strip_chunks: "stable cs \<Longrightarrow> stable (strip_chunks cs)"
  using strip_chunks_part [of cs] by (metis stable_part)

lemma chunks_trim_space: "chunks (trim_space s) = strip_chunks (chunks s)"
  by (simp add: trim_space_def chunks_unchunk stable_strip_chunks)

lemma dropWhile_snoc_False: "\<not> P x \<Longrightarrow> dropWhile P (xs @ [x]) = dropWhile P xs @ [x]"
  by (induction xs) auto

lemma dropWhile_rev_dropWhile:
  "dropWhile P (rev (dropWhile P (rev (dropWhile P xs)))) = rev (dropWhile P (rev (dropWhile P xs)))"
proof (cases "dropWhile P xs")
  case (Cons y ys)
  then have "\<not> P y" by (metis dropWhile_eq_Cons_conv)
  with Cons show ?thesis by (simp add: dropWhile_snoc_False)
next
  case Nil
  show ?thesis unfolding Nil by simp
qed

lemma strip_chunks_idem [simp]: "strip_chunks (strip_chunks cs) = strip_chunks cs"
  by (simp add: strip_chunks_def dropWhile_rev_dropWhile)

lemma trim_space_idem [simp]: "trim_space (trim_space s) = trim_space s"
proof -
  have "trim_space (trim_space s) = unchunk (strip_chunks (chunks (trim_space s)))"
    by (simp only: trim_space_def)
  also have "\<dots> = trim_space s" by (simp add: chunks_trim_space) (simp add: trim_space_def)
  finally show ?thesis .
qed

lemma length_strip_chunks_le: "length (strip_chunks cs) \<le> length cs"
  using strip_chunks_part [of cs] by (metis le_add1 le_add2 length_append order_trans)

lemma rune_count_trim_space_le: "rune_count (trim_space s) \<le> rune_count s"
  by (simp add: rune_count_def chunks_trim_space length_strip_chunks_le)

lemma strip_chunks_eq_Nil: "strip_chunks cs = [] \<longleftrightarrow> (\<forall>c \<in> set cs. is_space (fst c))"
proof
  assume "strip_chunks cs = []"
  with strip_chunks_part [of cs] show "\<forall>c \<in> set cs. is_space (fst c)" by auto
next
  assume "\<forall>c \<in> set cs. is_space (fst c)"
  then have "dropWhile (\<lambda>c. is_space (fst c)) cs = []" by simp
  then show "strip_chunks cs = []" by (simp only: strip_chunks_def) simp
qed

lemma trim_space_eq_Nil: "trim_space s = [] \<longleftrightarrow> (\<forall>r \<in> set (runes s). is_space r)"
proof -
  have "trim_space s = [] \<longleftrightarrow> chunks (trim_space s) = []" by simp
  also have "\<dots> \<longleftrightarrow> (\<forall>c \<in> set (chunks s). is_space (fst c))"
    by (simp only: chunks_trim_space strip_chunks_eq_Nil)
  finally show ?thesis by (simp add: runes_def)
qed

lemma trim_space_Nil [simp]: "trim_space [] = []"
  by (simp add: trim_space_def strip_chunks_def)

section \<open>Searching and splitting\<close>

definition has_prefix :: "string \<Rightarrow> string \<Rightarrow> bool" where
  "has_prefix s p \<longleftrightarrow> take (length p) s = p"

definition has_suffix :: "string \<Rightarrow> string \<Rightarrow> bool" where
  "has_suffix s p \<longleftrightarrow> length p \<le> length s \<and> drop (length s - length p) s = p"

definition trim_prefix :: "string \<Rightarrow> string \<Rightarrow> string" where
  "trim_prefix s p = (if has_prefix s p then drop (length p) s else s)"

text \<open>\<open>strings.Index\<close>, with \<open>None\<close> for -1.\<close>

fun index_of :: "string \<Rightarrow> string \<Rightarrow> nat option" where
  "index_of [] p = (if p = [] then Some 0 else None)"
| "index_of (c # s) p = (if has_prefix (c # s) p then Some 0 else map_option Suc (index_of s p))"

definition contains :: "string \<Rightarrow> string \<Rightarrow> bool" where
  "contains s p \<longleftrightarrow> index_of s p \<noteq> None"

lemma has_prefix_Nil [simp]: "has_prefix s []"
  by (simp add: has_prefix_def)

lemma has_prefix_append [simp]: "has_prefix (p @ s) p"
  by (simp add: has_prefix_def)

lemma has_prefix_iff: "has_prefix s p \<longleftrightarrow> (\<exists>t. s = p @ t)"
  unfolding has_prefix_def by (metis append_eq_conv_conj append_take_drop_id)

lemma index_of_Some:
  "index_of s p = Some i \<Longrightarrow> i + length p \<le> length s \<and> s = take i s @ p @ drop (i + length p) s"
proof (induction s arbitrary: i)
  case Nil
  then show ?case by (simp split: if_splits)
next
  case (Cons c s)
  show ?case
  proof (cases "has_prefix (c # s) p")
    case True
    then obtain t where "c # s = p @ t" by (auto simp: has_prefix_iff)
    moreover from True Cons.prems have "i = 0" by simp
    ultimately show ?thesis by simp
  next
    case False
    with Cons.prems obtain j where j: "index_of s p = Some j" "i = Suc j" by auto
    with Cons.IH [OF j(1)] show ?thesis by simp
  qed
qed

lemma index_of_None: "index_of s p = None \<Longrightarrow> s \<noteq> t @ p @ u"
proof (induction s arbitrary: t)
  case (Cons c s)
  show ?case
  proof (cases t)
    case Nil
    with Cons.prems show ?thesis by (auto simp: has_prefix_iff split: if_splits)
  next
    case (Cons d t')
    with Cons.IH [of t'] Cons.prems show ?thesis by (auto split: if_splits)
  qed
qed (simp split: if_splits)

lemma contains_iff: "contains s p \<longleftrightarrow> (\<exists>t u. s = t @ p @ u)"
  unfolding contains_def using index_of_Some index_of_None by (metis not_Some_eq)

text \<open>\<open>strings.ToLower\<close> on ASCII text.\<close>

definition lower_char :: "char \<Rightarrow> char" where
  "lower_char c = (if 65 \<le> byte_val c \<and> byte_val c \<le> 90 then mk_byte (byte_val c + 32) else c)"

definition lower_ascii :: "string \<Rightarrow> string" where
  "lower_ascii s = map lower_char s"

text \<open>\<open>encoding/hex\<close>: digits accepted by \<open>DecodeString\<close>, and lower-case encoding.\<close>

definition hex_digit :: "char \<Rightarrow> bool" where
  "hex_digit c \<longleftrightarrow> (let b = byte_val c in 48 \<le> b \<and> b \<le> 57 \<or> 97 \<le> b \<and> b \<le> 102 \<or> 65 \<le> b \<and> b \<le> 70)"

definition hex_ok :: "string \<Rightarrow> bool" where
  "hex_ok s \<longleftrightarrow> even (length s) \<and> list_all hex_digit s"

definition hex_char :: "nat \<Rightarrow> char" where
  "hex_char n = mk_byte (if n < 10 then 48 + n else 87 + n)"

definition hex_encode :: "string \<Rightarrow> string" where
  "hex_encode s = concat (map (\<lambda>c. [hex_char (byte_val c div 16), hex_char (byte_val c mod 16)]) s)"

lemma hex_char_digit: "n < 16 \<Longrightarrow> hex_digit (hex_char n) \<and> lower_char (hex_char n) = hex_char n"
  by (auto simp: hex_digit_def hex_char_def Let_def lower_char_def)

lemma hex_encode_ok:
  "hex_ok (hex_encode s)" "lower_ascii (hex_encode s) = hex_encode s" "length (hex_encode s) = 2 * length s"
proof -
  have d: "byte_val c div 16 < 16" for c using byte_val_less [of c] by linarith
  show "hex_ok (hex_encode s)" "lower_ascii (hex_encode s) = hex_encode s"
    "length (hex_encode s) = 2 * length s"
    by (induction s) (auto simp: hex_encode_def hex_ok_def lower_ascii_def hex_char_digit d)
qed

text \<open>Decimal rendering of a number (\<open>fmt.Sprint\<close>, \<open>%d\<close>).\<close>

fun digits :: "nat \<Rightarrow> string" where
  "digits n = (if n < 10 then [mk_byte (48 + n)] else digits (n div 10) @ [mk_byte (48 + n mod 10)])"

declare digits.simps [simp del]

lemma chunks_ascii: "list_all (\<lambda>c. byte_val c < 128) s \<Longrightarrow> chunks s = map (\<lambda>c. (byte_val c, [c])) s"
proof (induction s)
  case (Cons c s)
  then show ?case by (simp add: chunks_code(2) utf8_decode_def)
qed simp

text \<open>Evaluation of \<open>strings.TrimSpace\<close> on ASCII text.\<close>

lemma trim_space_ascii:
  assumes "list_all (\<lambda>c. byte_val c < 128) s" and "s \<noteq> []" and "\<not> is_space (byte_val (hd s))" and "\<not> is_space (byte_val (last s))"
  shows "trim_space s = s"
proof -
  have self: "xs \<noteq> [] \<Longrightarrow> \<not> P (hd xs) \<Longrightarrow> dropWhile P xs = xs" for P and xs :: "(nat \<times> string) list"
    by (cases xs) auto
  let ?m = "map (\<lambda>c. (byte_val c, [c])) s" and ?P = "\<lambda>c. is_space (fst c)"
  have 1: "dropWhile ?P ?m = ?m" using assms by (intro self) (auto simp: hd_map)
  have 2: "dropWhile ?P (rev ?m) = rev ?m" using assms by (intro self) (auto simp: hd_rev last_map)
  have "strip_chunks (chunks s) = chunks s"
    unfolding strip_chunks_def chunks_ascii [OF assms(1)] 1 2 by simp
  then show ?thesis by (simp add: trim_space_def)
qed

definition sprint_int :: "int \<Rightarrow> string" where
  "sprint_int n = (if n < 0 then CHR 0x2D # digits (nat (- n)) else digits (nat n))"

section \<open>Repairing and replacing\<close>

text \<open>\<open>strings.ToValidUTF8\<close>: each maximal run of invalid bytes becomes one replacement.\<close>

definition bad_chunk :: "nat \<times> string \<Rightarrow> bool" where
  "bad_chunk c \<longleftrightarrow> fst c = rune_error \<and> length (snd c) = 1"

fun to_valid_acc :: "string \<Rightarrow> bool \<Rightarrow> (nat \<times> string) list \<Rightarrow> string" where
  "to_valid_acc repl invalid [] = []"
| "to_valid_acc repl invalid (c # cs) =
     (if bad_chunk c then (if invalid then [] else repl) @ to_valid_acc repl True cs
      else snd c @ to_valid_acc repl False cs)"

definition to_valid_utf8 :: "string \<Rightarrow> string \<Rightarrow> string" where
  "to_valid_utf8 s repl = to_valid_acc repl False (chunks s)"

lemma to_valid_acc_length: "length (to_valid_acc [] b cs) \<le> length (unchunk cs)"
  by (induction cs arbitrary: b) (auto intro: le_trans [OF _ le_add2])

lemma to_valid_utf8_length: "length (to_valid_utf8 s []) \<le> length s"
  using to_valid_acc_length [of False "chunks s"] by (simp add: to_valid_utf8_def)

lemma to_valid_acc_id: "(\<forall>c \<in> set cs. \<not> bad_chunk c) \<Longrightarrow> to_valid_acc repl b cs = unchunk cs"
  by (induction cs arbitrary: b) auto

lemma to_valid_utf8_id: "valid_string s \<Longrightarrow> to_valid_utf8 s repl = s"
  by (simp add: to_valid_utf8_def to_valid_acc_id valid_string_def bad_chunk_def)

text \<open>\<open>strings.ReplaceAll\<close> with a non-empty pattern.\<close>

function replace_all :: "string \<Rightarrow> string \<Rightarrow> string \<Rightarrow> string" where
  "replace_all s old new = (if s = [] \<or> old = [] then s
     else if has_prefix s old then new @ replace_all (drop (length old) s) old new
     else hd s # replace_all (tl s) old new)"
  by pat_completeness auto
termination
  by (relation "measure (\<lambda>(s, _, _). length s)") auto

declare replace_all.simps [simp del]

lemma replace_all_Nil [simp]: "replace_all [] old new = []"
  by (simp add: replace_all.simps)

lemma replace_all_Cons:
  "old \<noteq> [] \<Longrightarrow> replace_all (c # s) old new = (if has_prefix (c # s) old
     then new @ replace_all (drop (length old) (c # s)) old new else c # replace_all s old new)"
  by (subst replace_all.simps) simp

lemma contains_Cons: "p \<noteq> [] \<Longrightarrow> contains (c # s) p \<longleftrightarrow> has_prefix (c # s) p \<or> contains s p"
  by (simp add: contains_def)

lemma contains_Nil: "contains [] p \<longleftrightarrow> p = []"
  by (simp add: contains_def)

text \<open>Runs of one character.\<close>

definition lead_run :: "'a \<Rightarrow> 'a list \<Rightarrow> nat" where
  "lead_run b s = length (takeWhile (\<lambda>c. c = b) s)"

lemma lead_run_simps [simp]: "lead_run b [] = 0" "lead_run b (c # s) = (if c = b then Suc (lead_run b s) else 0)"
  by (simp_all add: lead_run_def)

lemma has_prefix_run: "has_prefix s (replicate n b) \<longleftrightarrow> n \<le> lead_run b s"
proof (induction n arbitrary: s)
  case (Suc n)
  then show ?case by (cases s) (auto simp: has_prefix_def)
qed simp

end
