(* ===== verification/Bot_World.thy ===== *)
theory Bot_World
  imports Go_Strings
begin

text \<open>
  The state every component shares: the MySQL tables of \<open>migrations/*.sql\<close> as lists of rows, the
  server clock behind \<open>CURRENT_TIMESTAMP(3)\<close>, the log of external Feishu calls and the connection
  faults still to come. An operation of the program is a function from the world to a Go result and a
  new world. \<open>exec\<close> runs one statement on the connection, which may be lost before or after the
  server applied it; \<open>transaction\<close> is \<open>BeginTx\<close>, the body, \<open>defer tx.Rollback()\<close> and \<open>Commit\<close>.
  The locale \<open>world_relation\<close> carries the proofs that a relation between worlds holds across a whole
  operation; \<open>world_invariant\<close> and \<open>ledger_table\<close> give such relations from an invariant and from a
  table whose rows only move along a lifecycle.
\<close>

section \<open>Rows\<close>

record app_row =
  a_id :: string
  a_enabled :: bool
  a_workspace_dir :: string
  a_workspace_mode :: string
  a_model :: string
  a_effort :: string

datatype upgrade_state = Stable | ArchivePending | StartPending

record chat_group_row =
  g_id :: string
  g_app_id :: string
  g_chat_type :: string
  g_chat_id :: string
  g_thread_id :: "string option"
  g_toolset_version :: "string option"
  g_catalog_version :: string
  g_upgrade_state :: upgrade_state
  g_upgrade_from :: "string option"
  g_upgrade_target :: "string option"
  g_schedule_enabled :: bool
  g_last_message_at :: "go_time option"

datatype task_kind = TaskPrompt | TaskScript | TaskOther string

record task_row =
  t_id :: string
  t_app_id :: string
  t_chat_group_id :: string
  t_owner_hmac :: string
  t_owner_open_id :: string
  t_kind :: task_kind
  t_cron :: string
  t_timezone :: string
  t_payload :: string
  t_silent :: bool
  t_enabled :: bool
  t_version :: "64 word"
  t_next_run_at :: "go_time option"
  t_last_run_at :: "go_time option"
  t_updated_at :: go_time

datatype run_state = RunClaimed | RunQueued | RunRunning
  | RunSucceeded | RunFailed | RunCancelled | RunUnknown | RunSkipped

record run_row =
  r_id :: string
  r_trace_id :: "string option"
  r_task_id :: string
  r_scheduled_for :: go_time
  r_task_version :: "64 word"
  r_kind :: task_kind
  r_silent :: bool
  r_payload :: string
  r_state :: run_state
  r_claim_token :: "string option"
  r_lease_until :: "go_time option"
  r_started_at :: "go_time option"
  r_completed_at :: "go_time option"
  r_duration_ms :: "int option"
  r_error_code :: "string option"
  r_thread_id :: "string option"
  r_turn_id :: "string option"
  r_exit_code :: "int option"
  r_stdout_hmac :: "string option"
  r_stderr_hmac :: "string option"
  r_output_bytes :: "int option"
  r_output_truncated :: bool

datatype delivery_kind = DeliveryResultCard | DeliveryFallbackText
datatype delivery_stage = DeliveryPending | DeliveryInFlight
datatype delivery_outcome = DeliverySent | DeliveryRejected | DeliveryUnknown | DeliverySuppressed

record delivery_row =
  d_id :: string
  d_run_id :: string
  d_kind :: delivery_kind
  d_attempt :: nat
  d_stage :: "delivery_stage option"
  d_outcome :: "delivery_outcome option"
  d_message_hmac :: "string option"
  d_completed_at :: "go_time option"
  d_updated_at :: go_time

datatype tool_call_state = ToolCallClaimed | ToolCallInFlight | ToolCallSucceeded | ToolCallRejected

record tool_call_row =
  c_id :: string
  c_app_id :: string
  c_channel_key :: string
  c_chat_group_id :: string
  c_thread_id :: string
  c_turn_id :: string
  c_call_id :: string
  c_tool :: string
  c_arguments_hmac :: string
  c_state :: tool_call_state
  c_result :: "string option"
  c_error_code :: "string option"
  c_lease_until :: "go_time option"
  c_completed_at :: "go_time option"

datatype message_status = MsgReceived | MsgProcessing | MsgSucceeded | MsgFailed

record message_row =
  m_id :: string
  m_trace_id :: string
  m_chat_group_id :: string
  m_event_id :: string
  m_user_message_id :: string
  m_bot_message_id :: "string option"
  m_sender_open_id :: string
  m_user_content :: string
  m_received_at :: go_time
  m_command_kind :: "string option"
  m_command_sha256 :: "string option"
  m_command_bytes :: "nat option"
  m_effect_state :: "string option"
  m_reply_outcome :: "string option"
  m_assistant_content :: "string option"
  m_status :: message_status
  m_error_code :: "string option"
  m_batch_id :: "string option"
  m_delivery_started :: bool
  m_duration_ms :: "int option"
  m_completed_at :: "go_time option"

datatype attachment_state = AttStaged | AttProcessing | AttReady | AttFailed | AttDeleting | AttDeleted

record attachment_row =
  f_id :: string
  f_message_id :: string
  f_chat_group_id :: string
  f_kind :: string
  f_source_ref :: "string option"
  f_source_key_version :: "int option"
  f_source_message_id :: string
  f_original_name :: string
  f_declared_mime :: string
  f_observed_mime :: "string option"
  f_byte_size :: "int option"
  f_sha256 :: "string option"
  f_session_id :: "string option"
  f_relative_path :: "string option"
  f_state :: attachment_state
  f_error_code :: "string option"
  f_attempt_id :: "string option"
  f_lease_until :: "go_time option"
  f_retention_deadline :: "go_time option"
  f_deleted_at :: "go_time option"

datatype action_state = ActClaimed | ActInFlight | ActSucceeded | ActRejected | ActUnknown | ActCancelledBeforeSend

record action_row =
  x_id :: string
  x_app_id :: string
  x_channel_key :: string
  x_chat_group_id :: string
  x_thread_id :: string
  x_turn_id :: string
  x_call_id :: string
  x_tool :: string
  x_arguments_digest :: string
  x_state :: action_state
  x_result :: "string option"
  x_result_key_version :: "int option"
  x_object_digest :: "string option"
  x_completed_at :: "go_time option"

record usage =
  InputTokens :: int
  OutputTokens :: int
  CachedInputTokens :: int
  ReasoningOutputTokens :: int
  TotalTokens :: int

record turn_usage_row =
  u_trace_id :: string
  u_thread_id :: "string option"
  u_turn_id :: string
  u_usage :: usage

record thread_usage_row =
  s_app_id :: string
  s_chat_type :: string
  s_chat_id :: string
  s_thread_id :: string
  s_last_trace_id :: "string option"
  s_last_turn_id :: "string option"
  s_usage :: usage

record session_usage_row =
  q_app_id :: string
  q_chat_type :: string
  q_chat_id :: string
  q_usage :: usage
  q_completed :: int
  q_last_trace_id :: "string option"
  q_last_thread_id :: "string option"
  q_last_turn_id :: "string option"

section \<open>The world\<close>

datatype fault = Fine | Lost_Before | Lost_After

text \<open>
  One call of the Feishu client: on whose behalf it was made (the id of a run or message, kept only for
  the specification), the method, the receiver, its type and the text.
\<close>

datatype feishu_call = FeishuCall (on_behalf: string) (feishu_method: string) (receiver: string) (receiver_type: string) (feishu_text: string)

record world =
  faults :: "fault list"
  clock :: go_time
  apps :: "app_row list"
  chat_groups :: "chat_group_row list"
  scheduled_tasks :: "task_row list"
  scheduled_task_runs :: "run_row list"
  scheduled_task_deliveries :: "delivery_row list"
  scheduled_task_tool_calls :: "tool_call_row list"
  messages :: "message_row list"
  attachments :: "attachment_row list"
  feishu_action_calls :: "action_row list"
  turn_usage_ledger :: "turn_usage_row list"
  thread_usage_snapshots :: "thread_usage_row list"
  session_usage_totals :: "session_usage_row list"
  feishu_log :: "feishu_call list"

type_synonym 'a op = "world \<Rightarrow> 'a res \<times> world"

text \<open>An error-free world with empty tables, for concrete inputs.\<close>

definition empty_world :: world where
  "empty_world = \<lparr>faults = [], clock = 0, apps = [], chat_groups = [], scheduled_tasks = [],
     scheduled_task_runs = [], scheduled_task_deliveries = [], scheduled_task_tool_calls = [],
     messages = [], attachments = [], feishu_action_calls = [], turn_usage_ledger = [],
     thread_usage_snapshots = [], session_usage_totals = [], feishu_log = []\<rparr>"

section \<open>Operations\<close>

definition ret :: "'a \<Rightarrow> 'a op" where
  "ret x w = (Inr x, w)"

definition fail :: "go_error \<Rightarrow> 'a op" where
  "fail e w = (Inl e, w)"

text \<open>\<open>x, err := m; if err != nil { return wrap(err) }; k(x)\<close>\<close>

definition and_then :: "'a op \<Rightarrow> (go_error \<Rightarrow> go_error) \<Rightarrow> ('a \<Rightarrow> 'b op) \<Rightarrow> 'b op" where
  "and_then m wrap k w = (case m w of (Inl e, w1) \<Rightarrow> (Inl (wrap e), w1) | (Inr x, w1) \<Rightarrow> k x w1)"

text \<open>\<open>x, err := m\<close> where the code inspects \<open>err\<close> itself.\<close>

definition attempt :: "'a op \<Rightarrow> ('a res \<Rightarrow> 'b op) \<Rightarrow> 'b op" where
  "attempt m k w = (case m w of (r, w1) \<Rightarrow> k r w1)"

definition next_fault :: "world \<Rightarrow> fault" where
  "next_fault w = (case faults w of [] \<Rightarrow> Fine | f # _ \<Rightarrow> f)"

definition pop_fault :: "world \<Rightarrow> world" where
  "pop_fault w = w\<lparr>faults := tl (faults w)\<rparr>"

text \<open>One statement on the connection.\<close>

definition exec :: "'a op \<Rightarrow> 'a op" where
  "exec stmt w = (case next_fault w of
       Fine \<Rightarrow> stmt (pop_fault w)
     | Lost_Before \<Rightarrow> (Inl ErrDriver, pop_fault w)
     | Lost_After \<Rightarrow> (Inl ErrDriver, snd (stmt (pop_fault w))))"

definition query :: "(world \<Rightarrow> 'a) \<Rightarrow> 'a op" where
  "query f = exec (\<lambda>w. (Inr (f w), w))"

text \<open>
  \<open>BeginTx\<close>, the body and \<open>Commit\<close>. The body ends with an error, and the deferred rollback undoes
  its effects, or with the wrapper of a commit error and its result. A commit whose answer is
  lost may still have taken effect.
\<close>

definition transaction :: "(go_error \<Rightarrow> go_error) \<Rightarrow> ((go_error \<Rightarrow> go_error) \<times> 'a) op \<Rightarrow> 'a op" where
  "transaction begin_wrap body w = (case next_fault w of
       Fine \<Rightarrow> (case body (pop_fault w) of
           (Inl e, w2) \<Rightarrow> (Inl e, w\<lparr>faults := faults w2\<rparr>)
         | (Inr (commit_wrap, x), w2) \<Rightarrow> (case next_fault w2 of
               Fine \<Rightarrow> (Inr x, pop_fault w2)
             | Lost_Before \<Rightarrow> (Inl (commit_wrap ErrDriver), w\<lparr>faults := tl (faults w2)\<rparr>)
             | Lost_After \<Rightarrow> (Inl (commit_wrap ErrDriver), pop_fault w2)))
     | _ \<Rightarrow> (Inl (begin_wrap ErrDriver), pop_fault w))"

text \<open>\<open>for _, x := range xs { if err := body(x); err != nil { return err } }\<close>\<close>

fun for_each :: "('a \<Rightarrow> unit op) \<Rightarrow> 'a list \<Rightarrow> unit op" where
  "for_each body [] = ret ()"
| "for_each body (x # xs) = and_then (body x) id (\<lambda>_. for_each body xs)"

text \<open>One call of the Feishu client, recorded in the log.\<close>

definition call_feishu :: "feishu_call \<Rightarrow> unit op" where
  "call_feishu c w = (Inr (), w\<lparr>feishu_log := feishu_log w @ [c]\<rparr>)"

lemmas op_defs = ret_def fail_def and_then_def attempt_def

section \<open>Running operations\<close>

lemma pop_fault_faults_Nil [simp]: "faults w = [] \<Longrightarrow> pop_fault w = w"
  by (simp add: pop_fault_def)

lemma next_fault_Nil [simp]: "faults w = [] \<Longrightarrow> next_fault w = Fine"
  by (simp add: next_fault_def)

lemma exec_no_fault [simp]: "faults w = [] \<Longrightarrow> exec stmt w = stmt w"
  by (simp add: exec_def)

lemma query_no_fault [simp]: "faults w = [] \<Longrightarrow> query f w = (Inr (f w), w)"
  by (simp add: query_def)

lemma and_then_Inr_iff:
  "and_then m wrap k w = (Inr y, w') \<longleftrightarrow> (\<exists>x w1. m w = (Inr x, w1) \<and> k x w1 = (Inr y, w'))"
  by (auto simp: and_then_def split: prod.splits sum.splits)

lemma ret_Inr_iff [simp]: "ret x w = (Inr y, w') \<longleftrightarrow> y = x \<and> w' = w"
  by (auto simp: ret_def)

lemma fail_Inr_iff [simp]: "fail e w \<noteq> (Inr y, w')"
  by (simp add: fail_def)

lemma exec_Inr_iff:
  "exec stmt w = (Inr y, w') \<longleftrightarrow> next_fault w = Fine \<and> stmt (pop_fault w) = (Inr y, w')"
  by (auto simp: exec_def split: fault.splits)

lemma query_Inr_iff:
  "query f w = (Inr y, w') \<longleftrightarrow> next_fault w = Fine \<and> y = f (pop_fault w) \<and> w' = pop_fault w"
  by (auto simp: query_def exec_Inr_iff)

lemma transaction_Inr_iff:
  "transaction b body w = (Inr y, w') \<longleftrightarrow> next_fault w = Fine
     \<and> (\<exists>c w2. body (pop_fault w) = (Inr (c, y), w2) \<and> next_fault w2 = Fine \<and> w' = pop_fault w2)"
  by (auto simp: transaction_def split: fault.splits sum.splits prod.splits)

lemma attempt_Inr_iff:
  "attempt m k w = (Inr y, w') \<longleftrightarrow> (\<exists>r w1. m w = (r, w1) \<and> k r w1 = (Inr y, w'))"
  by (auto simp: attempt_def split: prod.splits)

lemma guard_Inr_iff: "(if c then fail e else m) w = (Inr y, w') \<longleftrightarrow> \<not> c \<and> m w = (Inr y, w')"
  by simp

lemma case_sum_Inr_iff:
  "(case v of Inl e \<Rightarrow> fail (g e) | Inr x \<Rightarrow> k x) w = (Inr y, w') \<longleftrightarrow> (\<exists>x. v = Inr x \<and> k x w = (Inr y, w'))"
  by (simp split: sum.split)

lemma case_option_Inr_iff:
  "(case v of None \<Rightarrow> fail e | Some x \<Rightarrow> k x) w = (Inr y, w') \<longleftrightarrow> (\<exists>x. v = Some x \<and> k x w = (Inr y, w'))"
  by (simp split: option.split)

lemmas op_Inr = and_then_Inr_iff exec_Inr_iff query_Inr_iff transaction_Inr_iff guard_Inr_iff
  case_sum_Inr_iff case_option_Inr_iff

text \<open>The world without its pending faults: two worlds that agree on it agree on every table.\<close>

definition quiet :: "world \<Rightarrow> world" where
  "quiet w = w\<lparr>faults := []\<rparr>"

lemma pop_fault_simps [simp]:
  "clock (pop_fault w) = clock w" "apps (pop_fault w) = apps w"
  "chat_groups (pop_fault w) = chat_groups w" "scheduled_tasks (pop_fault w) = scheduled_tasks w"
  "scheduled_task_runs (pop_fault w) = scheduled_task_runs w"
  "scheduled_task_deliveries (pop_fault w) = scheduled_task_deliveries w"
  "scheduled_task_tool_calls (pop_fault w) = scheduled_task_tool_calls w"
  "messages (pop_fault w) = messages w" "attachments (pop_fault w) = attachments w"
  "feishu_action_calls (pop_fault w) = feishu_action_calls w"
  "turn_usage_ledger (pop_fault w) = turn_usage_ledger w"
  "thread_usage_snapshots (pop_fault w) = thread_usage_snapshots w"
  "session_usage_totals (pop_fault w) = session_usage_totals w"
  "feishu_log (pop_fault w) = feishu_log w"
  by (simp_all add: pop_fault_def)

lemma quiet_pop_fault [simp]: "quiet (pop_fault w) = quiet w"
  by (simp add: quiet_def pop_fault_def)

lemma quiet_faults [simp]: "quiet (w\<lparr>faults := fs\<rparr>) = quiet w"
  by (simp add: quiet_def)

lemma quiet_updates [simp]:
  "quiet (w\<lparr>clock := x_clock\<rparr>) = (quiet w)\<lparr>clock := x_clock\<rparr>"
  "quiet (w\<lparr>apps := x_apps\<rparr>) = (quiet w)\<lparr>apps := x_apps\<rparr>"
  "quiet (w\<lparr>chat_groups := x_chat_groups\<rparr>) = (quiet w)\<lparr>chat_groups := x_chat_groups\<rparr>"
  "quiet (w\<lparr>scheduled_tasks := x_scheduled_tasks\<rparr>) = (quiet w)\<lparr>scheduled_tasks := x_scheduled_tasks\<rparr>"
  "quiet (w\<lparr>scheduled_task_runs := x_scheduled_task_runs\<rparr>) = (quiet w)\<lparr>scheduled_task_runs := x_scheduled_task_runs\<rparr>"
  "quiet (w\<lparr>scheduled_task_deliveries := x_scheduled_task_deliveries\<rparr>) = (quiet w)\<lparr>scheduled_task_deliveries := x_scheduled_task_deliveries\<rparr>"
  "quiet (w\<lparr>scheduled_task_tool_calls := x_scheduled_task_tool_calls\<rparr>) = (quiet w)\<lparr>scheduled_task_tool_calls := x_scheduled_task_tool_calls\<rparr>"
  "quiet (w\<lparr>messages := x_messages\<rparr>) = (quiet w)\<lparr>messages := x_messages\<rparr>"
  "quiet (w\<lparr>attachments := x_attachments\<rparr>) = (quiet w)\<lparr>attachments := x_attachments\<rparr>"
  "quiet (w\<lparr>feishu_action_calls := x_feishu_action_calls\<rparr>) = (quiet w)\<lparr>feishu_action_calls := x_feishu_action_calls\<rparr>"
  "quiet (w\<lparr>turn_usage_ledger := x_turn_usage_ledger\<rparr>) = (quiet w)\<lparr>turn_usage_ledger := x_turn_usage_ledger\<rparr>"
  "quiet (w\<lparr>thread_usage_snapshots := x_thread_usage_snapshots\<rparr>) = (quiet w)\<lparr>thread_usage_snapshots := x_thread_usage_snapshots\<rparr>"
  "quiet (w\<lparr>session_usage_totals := x_session_usage_totals\<rparr>) = (quiet w)\<lparr>session_usage_totals := x_session_usage_totals\<rparr>"
  "quiet (w\<lparr>feishu_log := x_feishu_log\<rparr>) = (quiet w)\<lparr>feishu_log := x_feishu_log\<rparr>"
  by (simp_all add: quiet_def)

lemma quiet_simps [simp]:
  "clock (quiet w) = clock w"
  "apps (quiet w) = apps w"
  "chat_groups (quiet w) = chat_groups w"
  "scheduled_tasks (quiet w) = scheduled_tasks w"
  "scheduled_task_runs (quiet w) = scheduled_task_runs w"
  "scheduled_task_deliveries (quiet w) = scheduled_task_deliveries w"
  "scheduled_task_tool_calls (quiet w) = scheduled_task_tool_calls w"
  "messages (quiet w) = messages w"
  "attachments (quiet w) = attachments w"
  "feishu_action_calls (quiet w) = feishu_action_calls w"
  "turn_usage_ledger (quiet w) = turn_usage_ledger w"
  "thread_usage_snapshots (quiet w) = thread_usage_snapshots w"
  "session_usage_totals (quiet w) = session_usage_totals w"
  "feishu_log (quiet w) = feishu_log w"
  by (simp_all add: quiet_def)

text \<open>A transaction that ends in an error before its commit leaves every table as it was.\<close>

lemma transaction_rollback:
  assumes "fst (transaction b body w) = Inl e"
    and "\<And>c x w2. body (pop_fault w) = (Inr (c, x), w2) \<Longrightarrow> next_fault w2 \<noteq> Lost_After"
  shows "quiet (snd (transaction b body w)) = quiet w"
  using assms by (auto simp: transaction_def split: fault.splits sum.splits prod.splits)

text \<open>All or nothing: either no table changed and the caller got an error, or the body ran to its
  end and its tables are the new ones.\<close>

lemma transaction_cases:
  obtains (unchanged) e where "quiet (snd (transaction b body w)) = quiet w" "fst (transaction b body w) = Inl e"
  | (committed) c x w2 where "body (pop_fault w) = (Inr (c, x), w2)"
      "quiet (snd (transaction b body w)) = quiet w2"
      "fst (transaction b body w) = Inr x \<or> fst (transaction b body w) = Inl (c ErrDriver)"
proof -
  obtain r w2 where body: "body (pop_fault w) = (r, w2)" by fastforce
  show thesis
  proof (cases "next_fault w = Fine \<and> (\<exists>y. r = Inr y) \<and> next_fault w2 \<noteq> Lost_Before")
    case True
    then obtain c x where "r = Inr (c, x)" by auto
    then show thesis using True body
      by (cases "next_fault w2") (auto simp: transaction_def intro!: committed [of c x w2])
  next
    case False
    then have "\<exists>e. fst (transaction b body w) = Inl e" "quiet (snd (transaction b body w)) = quiet w"
      using body by (auto simp: transaction_def split: fault.splits sum.splits)
    then show thesis using unchanged by blast
  qed
qed

section \<open>Relations kept by whole operations\<close>

definition preserves :: "(world \<Rightarrow> world \<Rightarrow> bool) \<Rightarrow> 'a op \<Rightarrow> bool" where
  "preserves R m \<longleftrightarrow> (\<forall>w. R w (snd (m w)))"

lemma preservesI: "(\<And>w. R w (snd (m w))) \<Longrightarrow> preserves R m"
  by (simp add: preserves_def)

lemma preservesD: "preserves R m \<Longrightarrow> R w (snd (m w))"
  by (simp add: preserves_def)

text \<open>
  The interface a relation between worlds has to offer so that it can be followed through an
  operation statement by statement.
\<close>

locale world_relation =
  fixes R :: "world \<Rightarrow> world \<Rightarrow> bool"
  assumes rel_refl: "R w w"
    and rel_trans: "R w1 w2 \<Longrightarrow> R w2 w3 \<Longrightarrow> R w1 w3"
    and rel_faults: "R w (w\<lparr>faults := fs\<rparr>)"
begin

lemma rel_pop: "R w (pop_fault w)"
  by (simp add: pop_fault_def rel_faults)

lemma preserves_ret: "preserves R (ret x)"
  by (rule preservesI) (simp add: ret_def rel_refl)

lemma preserves_fail: "preserves R (fail e)"
  by (rule preservesI) (simp add: fail_def rel_refl)

lemma preserves_attempt:
  assumes "preserves R m" and "\<And>r. preserves R (k r)"
  shows "preserves R (attempt m k)"
proof (rule preservesI)
  fix w
  obtain r w1 where m: "m w = (r, w1)" by fastforce
  have "R w w1" using preservesD [OF assms(1), of w] m by simp
  moreover have "R w1 (snd (k r w1))" by (rule preservesD [OF assms(2)])
  ultimately show "R w (snd (attempt m k w))" using m by (auto simp: attempt_def intro: rel_trans)
qed

lemma preserves_and_then:
  assumes "preserves R m" and "\<And>x. preserves R (k x)"
  shows "preserves R (and_then m wrap k)"
proof -
  have "and_then m wrap k = attempt m (\<lambda>r. case r of Inl e \<Rightarrow> fail (wrap e) | Inr x \<Rightarrow> k x)"
    by (auto simp: fun_eq_iff op_defs split: prod.splits sum.splits)
  moreover have "preserves R \<dots>"
    by (rule preserves_attempt) (auto simp: assms preserves_fail split: sum.splits)
  ultimately show ?thesis by simp
qed

lemma preserves_exec:
  assumes "preserves R stmt"
  shows "preserves R (exec stmt)"
proof (rule preservesI)
  fix w
  have "R w (snd (stmt (pop_fault w)))"
    using rel_pop preservesD [OF assms] by (rule rel_trans)
  then show "R w (snd (exec stmt w))" by (simp add: exec_def rel_pop split: fault.splits)
qed

lemma preserves_query: "preserves R (query f)"
  unfolding query_def by (rule preserves_exec) (simp add: preserves_def rel_refl)

lemma preserves_transaction:
  assumes "preserves R body"
  shows "preserves R (transaction b body)"
proof (rule preservesI)
  fix w
  obtain r w2 where body: "body (pop_fault w) = (r, w2)" by fastforce
  have "R (pop_fault w) w2" using preservesD [OF assms, of "pop_fault w"] body by simp
  with rel_pop have "R w w2" by (rule rel_trans)
  then have "R w (pop_fault w2)" using rel_pop by (rule rel_trans)
  then show "R w (snd (transaction b body w))"
    using body by (auto simp: transaction_def rel_faults rel_pop split: fault.splits sum.splits)
qed

lemma preserves_for_each: "(\<And>x. preserves R (body x)) \<Longrightarrow> preserves R (for_each body xs)"
  by (induction xs) (auto intro: preserves_ret preserves_and_then)

lemma preserves_If: "preserves R m \<Longrightarrow> preserves R n \<Longrightarrow> preserves R (if c then m else n)"
  by simp

lemma preserves_option:
  "preserves R m \<Longrightarrow> (\<And>x. preserves R (k x)) \<Longrightarrow> preserves R (case v of None \<Rightarrow> m | Some x \<Rightarrow> k x)"
  by (simp split: option.split)

lemma preserves_sum:
  "(\<And>x. preserves R (m x)) \<Longrightarrow> (\<And>x. preserves R (k x)) \<Longrightarrow> preserves R (case v of Inl x \<Rightarrow> m x | Inr x \<Rightarrow> k x)"
  by (simp split: sum.split)

lemma preserves_prod:
  "(\<And>x y. preserves R (k x y)) \<Longrightarrow> preserves R (case v of (x, y) \<Rightarrow> k x y)"
  by (simp split: prod.split)

lemmas preserves_intros = preserves_ret preserves_fail preserves_attempt preserves_and_then
  preserves_query preserves_transaction preserves_for_each preserves_If preserves_option
  preserves_sum preserves_prod

text \<open>A sequence of steps that each keep the relation keeps it.\<close>

lemma rel_rtranclp:
  assumes "\<And>w w'. step w w' \<Longrightarrow> R w w'" and "step\<^sup>*\<^sup>* w w'"
  shows "R w w'"
  using assms(2) by (induction rule: rtranclp_induct) (auto intro: rel_refl rel_trans assms(1))

end

locale world_invariant =
  fixes I :: "world \<Rightarrow> bool"
  assumes inv_faults: "I (w\<lparr>faults := fs\<rparr>) \<longleftrightarrow> I w"

sublocale world_invariant \<subseteq> inv_rel: world_relation "\<lambda>w w'. I w \<longrightarrow> I w'"
  by unfold_locales (auto simp: inv_faults)

section \<open>Triples\<close>

text \<open>
  \<open>triple P m Q E\<close>: started in a world with \<open>P\<close>, the operation ends with a result and a world related by
  \<open>Q\<close>, or with an error in a world with \<open>E\<close>.
\<close>

definition triple :: "(world \<Rightarrow> bool) \<Rightarrow> 'a op \<Rightarrow> ('a \<Rightarrow> world \<Rightarrow> bool) \<Rightarrow> (world \<Rightarrow> bool) \<Rightarrow> bool" where
  "triple P m Q E \<longleftrightarrow> (\<forall>w. P w \<longrightarrow> (case m w of (Inr x, w') \<Rightarrow> Q x w' | (Inl e, w') \<Rightarrow> E w'))"

lemma tripleI:
  "(\<And>w x w'. P w \<Longrightarrow> m w = (Inr x, w') \<Longrightarrow> Q x w') \<Longrightarrow> (\<And>w e w'. P w \<Longrightarrow> m w = (Inl e, w') \<Longrightarrow> E w') \<Longrightarrow> triple P m Q E"
  by (auto simp: triple_def split: prod.splits sum.splits)

lemma triple_and_then:
  assumes "triple P m Q E" and "\<And>x. triple (Q x) (k x) R E"
  shows "triple P (and_then m wrap k) R E"
proof (unfold triple_def, intro allI impI)
  fix w assume "P w"
  with assms(1) have m: "case m w of (Inr x, w') \<Rightarrow> Q x w' | (Inl e, w') \<Rightarrow> E w'" by (simp add: triple_def)
  obtain v w1 where v: "m w = (v, w1)" by fastforce
  show "case and_then m wrap k w of (Inr x, w') \<Rightarrow> R x w' | (Inl e, w') \<Rightarrow> E w'"
  proof (cases v)
    case (Inl e)
    then show ?thesis using m v by (simp add: and_then_def)
  next
    case (Inr x)
    then have "Q x w1" using m v by simp
    then show ?thesis using assms(2) [of x] v Inr by (simp add: and_then_def triple_def)
  qed
qed

lemma triple_ret: "(\<And>w. P w \<Longrightarrow> Q x w) \<Longrightarrow> triple P (ret x) Q E"
  by (simp add: triple_def ret_def)

lemma triple_fail: "(\<And>w. P w \<Longrightarrow> E w) \<Longrightarrow> triple P (fail e) Q E"
  by (simp add: triple_def fail_def)

lemma triple_If: "(c \<Longrightarrow> triple P m Q E) \<Longrightarrow> (\<not> c \<Longrightarrow> triple P n Q E) \<Longrightarrow> triple P (if c then m else n) Q E"
  by simp

lemma triple_snd_iff: "triple P m (\<lambda>_. E) E \<longleftrightarrow> (\<forall>w. P w \<longrightarrow> E (snd (m w)))"
proof -
  have "(case m w of (Inr x, w') \<Rightarrow> E w' | (Inl e, w') \<Rightarrow> E w') = E (snd (m w))" for w
    by (simp split: prod.split sum.split)
  then show ?thesis by (simp add: triple_def)
qed

lemma triple_weaken: "triple P m Q E \<Longrightarrow> (\<And>w. P' w \<Longrightarrow> P w) \<Longrightarrow> (\<And>x w. Q x w \<Longrightarrow> Q' x w) \<Longrightarrow> triple P' m Q' E"
  by (fastforce simp: triple_def split: prod.splits sum.splits)

section \<open>Tables whose rows follow a lifecycle\<close>

text \<open>
  \<open>evolves moves xs ys\<close>: every row of \<open>xs\<close> is still there, at its place, having moved along
  \<open>moves\<close>; further rows may have been appended.
\<close>

definition evolves :: "('r \<Rightarrow> 'r \<Rightarrow> bool) \<Rightarrow> 'r list \<Rightarrow> 'r list \<Rightarrow> bool" where
  "evolves moves xs ys \<longleftrightarrow> length xs \<le> length ys \<and> (\<forall>i < length xs. moves (xs ! i) (ys ! i))"

locale ledger =
  fixes moves :: "'r \<Rightarrow> 'r \<Rightarrow> bool" and final :: "'r \<Rightarrow> bool"
  assumes moves_refl: "moves r r"
    and moves_trans: "moves r1 r2 \<Longrightarrow> moves r2 r3 \<Longrightarrow> moves r1 r3"
    and final_moves: "final r \<Longrightarrow> moves r r' \<Longrightarrow> r' = r"
begin

lemma evolves_refl: "evolves moves xs xs"
  by (simp add: evolves_def moves_refl)

lemma evolves_trans: "evolves moves xs ys \<Longrightarrow> evolves moves ys zs \<Longrightarrow> evolves moves xs zs"
  unfolding evolves_def by (metis moves_trans order.strict_trans2 order.trans)

lemma evolves_update:
  "(\<And>r. r \<in> set xs \<Longrightarrow> p r \<Longrightarrow> moves r (f r)) \<Longrightarrow> evolves moves xs (sql_update p f xs)"
  by (auto simp: evolves_def sql_update_def moves_refl)

lemma evolves_append: "evolves moves xs (xs @ ys)"
  by (simp add: evolves_def nth_append moves_refl)

lemma evolves_moves:
  "evolves moves xs ys \<Longrightarrow> r \<in> set xs \<Longrightarrow> \<exists>r' \<in> set ys. moves r r'"
  unfolding evolves_def by (metis in_set_conv_nth order.strict_trans2)

lemma evolves_final:
  "evolves moves xs ys \<Longrightarrow> r \<in> set xs \<Longrightarrow> final r \<Longrightarrow> r \<in> set ys"
  by (metis evolves_moves final_moves)

end

locale ledger_table = ledger moves final
  for moves :: "'r \<Rightarrow> 'r \<Rightarrow> bool" and final :: "'r \<Rightarrow> bool" +
  fixes table :: "world \<Rightarrow> 'r list"
  assumes table_faults: "table (w\<lparr>faults := fs\<rparr>) = table w"

sublocale ledger_table \<subseteq> tab: world_relation "\<lambda>w w'. evolves moves (table w) (table w')"
  by unfold_locales (auto simp: table_faults evolves_refl intro: evolves_trans)

context ledger_table begin

text \<open>A row in a final state survives, unchanged, any sequence of steps that respect the lifecycle.\<close>

lemma final_survives:
  assumes "\<And>w w'. step w w' \<Longrightarrow> evolves moves (table w) (table w')"
    and "step\<^sup>*\<^sup>* w w'" and "r \<in> set (table w)" and "final r"
  shows "r \<in> set (table w')"
  using tab.rel_rtranclp [OF assms(1,2)] assms(3,4) by (rule evolves_final)

lemma row_moves:
  assumes "\<And>w w'. step w w' \<Longrightarrow> evolves moves (table w) (table w')"
    and "step\<^sup>*\<^sup>* w w'" and "r \<in> set (table w)"
  shows "\<exists>r' \<in> set (table w'). moves r r'"
  using tab.rel_rtranclp [OF assms(1,2)] assms(3) by (rule evolves_moves)

end

end
