(* ===== verification/Schedule_Base.thy ===== *)
theory Schedule_Base
  imports Bot_World
begin

text \<open>
  \<open>internal/schedule/contract.go\<close>, \<open>cron.go\<close>, the key handling of \<open>crypto.go\<close> and the
  identifiers of \<open>store.go\<close>: owners, the keyring behind owner indexes, the guards around the cron
  parser, trace identifiers. The cron library, the keyed hash and the JSON text of an owner are
  parameters of the \<open>Repository\<close>.
\<close>

section \<open>Owners and keys\<close>

record Owner =
  AppID :: string
  ChatGroupID :: string
  OpenID :: string

definition Owner_Validate :: "Owner \<Rightarrow> unit res" where
  "Owner_Validate o1 =
     (if trim_space (AppID o1) = [] then Inl (Errorf ''schedule owner app id is required'')
      else if trim_space (ChatGroupID o1) = [] then Inl (Errorf ''schedule owner chat group id is required'')
      else if trim_space (OpenID o1) = [] then Inl (Errorf ''schedule owner actor is required'')
      else Inr ())"

record Key =
  Version :: int
  Material :: string

record Keyring =
  keys :: "int \<rightharpoonup> string"
  active :: int

fun NewKeyring_loop :: "Key list \<Rightarrow> Keyring \<Rightarrow> Keyring res" where
  "NewKeyring_loop [] keyring = Inr keyring"
| "NewKeyring_loop (entry # entries) keyring =
     (if Version entry < 1 \<or> length (Material entry) \<noteq> 32 then Inl (Errorf ''schedule key is invalid'')
      else if keys keyring (Version entry) \<noteq> None
        then Inl (Errorf (''schedule key version '' @ sprint_int (Version entry) @ '' is duplicated''))
      else NewKeyring_loop entries
        \<lparr>keys = (keys keyring)(Version entry \<mapsto> Material entry),
         active = (if active keyring = 0 then Version entry else active keyring)\<rparr>)"

definition NewKeyring :: "Key list \<Rightarrow> Keyring res" where
  "NewKeyring entries = (case NewKeyring_loop entries \<lparr>keys = Map.empty, active = 0\<rparr> of
       Inl e \<Rightarrow> Inl e
     | Inr keyring \<Rightarrow> if active keyring = 0 then Inl (Errorf ''schedule keyring is empty'') else Inr keyring)"

text \<open>A Go map lookup of a missing key gives the empty slice.\<close>

definition key_bytes :: "Keyring \<Rightarrow> int \<Rightarrow> string" where
  "key_bytes k v = (case keys k v of None \<Rightarrow> [] | Some m \<Rightarrow> m)"

definition activeKey :: "Keyring \<Rightarrow> (string \<times> int) res" where
  "activeKey k = (if length (key_bytes k (active k)) \<noteq> 32
     then Inl (Errorf ''schedule active key is unavailable'')
     else Inr (key_bytes k (active k), active k))"

definition Keyring_key :: "Keyring \<Rightarrow> int \<Rightarrow> string res" where
  "Keyring_key k version = (if length (key_bytes k version) \<noteq> 32
     then Inl (Errorf (''schedule key version '' @ sprint_int version @ '' is unavailable''))
     else Inr (key_bytes k version))"

text \<open>\<open>Keyring.HMAC\<close>; \<open>mac key text\<close> is the hexadecimal HMAC-SHA256.\<close>

definition Keyring_HMAC :: "(string \<Rightarrow> string \<Rightarrow> string) \<Rightarrow> Keyring \<Rightarrow> string \<Rightarrow> (string \<times> int) res" where
  "Keyring_HMAC mac k plaintext = (case activeKey k of
       Inl e \<Rightarrow> Inl e
     | Inr (key, version) \<Rightarrow> Inr (mac key plaintext, version))"

section \<open>The repository and its parameters\<close>

text \<open>
  \<open>has_DB\<close> is \<open>r.DB != nil\<close>. \<open>mac\<close> is the keyed hash, \<open>owner_json\<close> the JSON text of an owner,
  \<open>load_location\<close> the error of \<open>time.LoadLocation\<close> if any, and \<open>cron_parse\<close> the parser of
  \<open>robfig/cron\<close>, whose result is the schedule's \<open>Next\<close> function on instants.
\<close>

record Repository =
  has_DB :: bool
  Owners :: Keyring
  mac :: "string \<Rightarrow> string \<Rightarrow> string"
  owner_json :: "Owner \<Rightarrow> string"
  load_location :: "go_error option"
  cron_parse :: "string \<Rightarrow> (go_time \<Rightarrow> go_time) res"
  MaxEnabledTasksPerOwner :: int
  MaxEnabledTasksPerApp :: int

definition OwnerHMAC :: "Repository \<Rightarrow> Owner \<Rightarrow> string res" where
  "OwnerHMAC r owner = (case Owner_Validate owner of
       Inl e \<Rightarrow> Inl e
     | Inr _ \<Rightarrow> (case activeKey (Owners r) of
           Inl e \<Rightarrow> Inl e
         | Inr (key, _) \<Rightarrow> Inr (mac r key (owner_json r owner))))"

definition timezone :: string where
  "timezone = ''Asia/Shanghai''"

type_synonym Cron = "go_time \<Rightarrow> go_time"

definition ParseCron :: "Repository \<Rightarrow> string \<Rightarrow> Cron res" where
  "ParseCron r expression = (let trimmed = trim_space expression in
     if trimmed = [] then Inl (Errorf ''schedule cron expression is required'')
     else if has_prefix trimmed ''@'' \<or> contains trimmed ''TZ='' \<or> contains trimmed ''CRON_TZ=''
       then Inl (Errorf (''schedule cron expression must use five fields in '' @ timezone))
     else if length (string_fields trimmed) \<noteq> 5 then Inl (Errorf ''schedule cron expression must have five fields'')
     else (case load_location r of
         Some e \<Rightarrow> Inl (Wrapf (''load '' @ timezone) e)
       | None \<Rightarrow> (case cron_parse r trimmed of
             Inl e \<Rightarrow> Inl (Wrapf ''parse schedule cron'' e)
           | Inr next \<Rightarrow> Inr next)))"

text \<open>
  \<open>newTraceID\<close>: \<open>gen\<close> is the result of the configured \<open>NewTraceID\<close>, \<open>None\<close> when the field is nil;
  \<open>raw\<close> is the outcome of \<open>crypto/rand.Read\<close> on 16 bytes.
\<close>

definition newTraceID :: "string res option \<Rightarrow> string res \<Rightarrow> string res" where
  "newTraceID gen raw = (case gen of
       Some (Inl e) \<Rightarrow> Inl (Wrapf ''generate scheduled trace id'' e)
     | Some (Inr traceID) \<Rightarrow>
         if length traceID \<noteq> 32 then Inl (Errorf ''generate scheduled trace id: must be 32 hex characters'')
         else if \<not> hex_ok traceID then Inl (Errorf ''generate scheduled trace id: must be 32 hex characters'')
         else if traceID \<noteq> lower_ascii traceID
           then Inl (Errorf ''generate scheduled trace id: must be lowercase canonical hex'')
         else Inr traceID
     | None \<Rightarrow> (case raw of
           Inl e \<Rightarrow> Inl (Wrapf ''generate scheduled trace id'' e)
         | Inr bytes \<Rightarrow> Inr (hex_encode bytes)))"

section \<open>Properties\<close>

text \<open>A keyring that was built selects the first configured version and can always use it.\<close>

lemma NewKeyring_loop_inv:
  assumes "NewKeyring_loop entries k = Inr k'"
    and "active k = 0 \<or> (\<exists>m. keys k (active k) = Some m \<and> length m = 32)"
  shows "(active k' = 0 \<or> (\<exists>m. keys k' (active k') = Some m \<and> length m = 32))
    \<and> (\<forall>v m. keys k v = Some m \<longrightarrow> keys k' v = Some m)
    \<and> (active k \<noteq> 0 \<longrightarrow> active k' = active k)
    \<and> (\<forall>e \<in> set entries. keys k' (Version e) = Some (Material e))
    \<and> (active k = 0 \<longrightarrow> entries \<noteq> [] \<longrightarrow> active k' = Version (hd entries))"
  using assms
proof (induction entries arbitrary: k)
  case (Cons e es)
  let ?k = "\<lparr>keys = (keys k)(Version e \<mapsto> Material e),
    active = (if active k = 0 then Version e else active k)\<rparr>"
  from Cons.prems(1) have g: "\<not> Version e < 1" "length (Material e) = 32" "keys k (Version e) = None"
    and loop: "NewKeyring_loop es ?k = Inr k'"
    by (auto split: if_splits)
  have "active ?k = 0 \<or> (\<exists>m. keys ?k (active ?k) = Some m \<and> length m = 32)"
    using g Cons.prems(2) by auto
  note IH = Cons.IH [OF loop this]
  have keep: "keys k' v = Some m" if "keys k v = Some m" for v m
    using that IH g(3) by (metis (no_types, lifting) Keyring.select_convs(1) map_upd_Some_unfold option.distinct(1))
  have "active ?k \<noteq> 0" using g(1) by auto
  with IH keep show ?case by auto
qed simp

lemma NewKeyring_Inr:
  assumes "NewKeyring entries = Inr k"
  shows "entries \<noteq> []" and "active k = Version (hd entries)"
    and "\<forall>e \<in> set entries. keys k (Version e) = Some (Material e)"
    and "\<exists>m. activeKey k = Inr (m, active k) \<and> length m = 32"
proof -
  let ?k0 = "\<lparr>keys = Map.empty, active = 0\<rparr>"
  from assms have l: "NewKeyring_loop entries ?k0 = Inr k" and nz: "active k \<noteq> 0"
    by (auto simp: NewKeyring_def split: sum.splits if_splits)
  note inv = NewKeyring_loop_inv [OF l, simplified]
  show ne: "entries \<noteq> []" using l nz by auto
  show "active k = Version (hd entries)" using inv ne by simp
  show "\<forall>e \<in> set entries. keys k (Version e) = Some (Material e)" using inv by simp
  show "\<exists>m. activeKey k = Inr (m, active k) \<and> length m = 32"
    using inv nz by (auto simp: activeKey_def key_bytes_def)
qed

lemma newTraceID_Inr:
  assumes "newTraceID gen raw = Inr t" and "\<And>b. raw = Inr b \<Longrightarrow> length b = 16"
  shows "length t = 32 \<and> hex_ok t \<and> lower_ascii t = t"
  using assms hex_encode_ok by (auto simp: newTraceID_def split: option.splits sum.splits if_splits)

lemma ParseCron_Inr:
  assumes "ParseCron r e = Inr next"
  shows "cron_parse r (trim_space e) = Inr next" and "length (string_fields (trim_space e)) = 5"
    and "trim_space e \<noteq> []"
  using assms by (auto simp: ParseCron_def Let_def split: if_splits option.splits sum.splits)

text \<open>Parsing looks at the trimmed expression only.\<close>

lemma ParseCron_trim [simp]: "ParseCron r (trim_space e) = ParseCron r e"
  by (simp add: ParseCron_def)

end
