(* ===== verification/Schedule_Tasks.thy ===== *)
theory Schedule_Tasks
  imports Schedule_Base "HOL-Library.List_Lexorder" "HOL-Library.Char_ord" "HOL-Library.Product_Lexorder"
begin

text \<open>
  The task half of \<open>internal/schedule/store.go\<close>: creating, patching, listing and reading scheduled
  tasks. \<open>now\<close> is the value of the repository's clock during the call. Every read and write is scoped
  by the owner triple (application, chat group, owner index); a patch is a compare-and-set on the
  64-bit version. Rows are listed in the order of the key (\<open>updated_at\<close>, \<open>id\<close>), strings being
  compared byte by byte.
\<close>

section \<open>Errors and data\<close>

definition ErrTaskNotFound :: go_error where
  "ErrTaskNotFound = Sentinel ''schedule task not found''"

definition ErrVersionConflict :: go_error where
  "ErrVersionConflict = Sentinel ''schedule task version conflict''"

definition ErrDueClaimConflict :: go_error where
  "ErrDueClaimConflict = Sentinel ''schedule due claim conflict''"

definition ErrTaskQuota :: go_error where
  "ErrTaskQuota = Sentinel ''schedule enabled task quota exceeded''"

definition ErrNoDB :: go_error where
  "ErrNoDB = Errorf ''schedule store database is required''"

record Task =
  Task_ID :: string
  Task_Kind :: task_kind
  Task_CronExpression :: string
  Task_Timezone :: string
  Task_Silent :: bool
  Task_Enabled :: bool
  Task_Version :: "64 word"
  Task_NextRunAt :: go_time

record OwnedTask =
  Owned_Task :: Task
  Owned_Payload :: string
  Owned_UpdatedAt :: go_time

record CursorPosition =
  Cursor_UpdatedAt :: go_time
  Cursor_TaskID :: string

record TaskPage =
  Page_Tasks :: "OwnedTask list"
  Page_Next :: "CursorPosition option"

record TaskDraft =
  Draft_ID :: string
  Draft_Owner :: Owner
  Draft_Kind :: task_kind
  Draft_CronExpression :: string
  Draft_Payload :: string
  Draft_Silent :: bool

record TaskPatch =
  Patch_TaskID :: string
  Patch_Owner :: Owner
  Patch_ExpectedVersion :: "64 word"
  Patch_CronExpression :: "string option"
  Patch_Payload :: "string option"
  Patch_Silent :: "bool option"
  Patch_Enabled :: "bool option"

section \<open>Statements on scheduled_tasks\<close>

definition owned_by :: "string \<Rightarrow> string \<Rightarrow> string \<Rightarrow> task_row \<Rightarrow> bool" where
  "owned_by app grp hmac t \<longleftrightarrow> t_app_id t = app \<and> t_chat_group_id t = grp \<and> t_owner_hmac t = hmac"

definition insert_task :: "task_row \<Rightarrow> unit op" where
  "insert_task t w =
     (if sql_conflict (\<lambda>a b. t_id a = t_id b) t (scheduled_tasks w) then (Inl ErrDuplicateKey, w)
      else if \<not> list_ex (\<lambda>a. a_id a = t_app_id t) (apps w)
        \<or> \<not> list_ex (\<lambda>g. g_id g = t_chat_group_id t) (chat_groups w) then (Inl ErrForeignKey, w)
      else (Inr (), w\<lparr>scheduled_tasks := scheduled_tasks w @ [t]\<rparr>))"

text \<open>\<open>UPDATE scheduled_tasks\<close>: \<open>updated_at\<close> follows the server clock in the rows that change.\<close>

definition touch_task :: "go_time \<Rightarrow> (task_row \<Rightarrow> task_row) \<Rightarrow> task_row \<Rightarrow> task_row" where
  "touch_task now f t = (if f t = t then t else (f t)\<lparr>t_updated_at := now\<rparr>)"

definition update_tasks :: "(task_row \<Rightarrow> bool) \<Rightarrow> (task_row \<Rightarrow> task_row) \<Rightarrow> nat op" where
  "update_tasks p f w = (Inr (sql_affected p f (scheduled_tasks w)),
     w\<lparr>scheduled_tasks := sql_update p (touch_task (clock w) f) (scheduled_tasks w)\<rparr>)"

section \<open>Creating\<close>

definition createTaskExec :: "Repository \<Rightarrow> go_time \<Rightarrow> TaskDraft \<Rightarrow> Task op" where
  "createTaskExec r now draft =
     (if trim_space (Draft_ID draft) = [] then fail (Errorf ''schedule task id is required'')
      else (case Owner_Validate (Draft_Owner draft) of Inl e \<Rightarrow> fail e | Inr _ \<Rightarrow>
        if Draft_Kind draft \<noteq> TaskPrompt \<and> Draft_Kind draft \<noteq> TaskScript
          then fail (Errorf ''schedule task kind is invalid'')
        else if Draft_Payload draft = [] then fail (Errorf ''schedule task payload is required'')
        else (case ParseCron r (Draft_CronExpression draft) of Inl e \<Rightarrow> fail e | Inr cron \<Rightarrow>
          (case OwnerHMAC r (Draft_Owner draft) of
             Inl e \<Rightarrow> fail (Wrapf ''index schedule owner'' e)
           | Inr ownerHMAC \<Rightarrow>
             (let nextRunAt = cron now in
              if is_zero_time nextRunAt then fail (Errorf ''compute schedule next run'')
              else and_then
                (exec (\<lambda>w. insert_task
                  \<lparr>t_id = Draft_ID draft, t_app_id = AppID (Draft_Owner draft),
                   t_chat_group_id = ChatGroupID (Draft_Owner draft), t_owner_hmac = ownerHMAC,
                   t_owner_open_id = OpenID (Draft_Owner draft), t_kind = Draft_Kind draft,
                   t_cron = trim_space (Draft_CronExpression draft), t_timezone = timezone,
                   t_payload = Draft_Payload draft, t_silent = Draft_Silent draft, t_enabled = True,
                   t_version = 1, t_next_run_at = Some nextRunAt, t_last_run_at = None,
                   t_updated_at = clock w\<rparr> w))
                (Wrapf ''insert scheduled task'')
                (\<lambda>_. ret \<lparr>Task_ID = Draft_ID draft, Task_Kind = Draft_Kind draft,
                   Task_CronExpression = trim_space (Draft_CronExpression draft),
                   Task_Timezone = timezone, Task_Silent = Draft_Silent draft, Task_Enabled = True,
                   Task_Version = 1, Task_NextRunAt = nextRunAt\<rparr>))))))"

definition CreateTask :: "Repository \<Rightarrow> go_time \<Rightarrow> TaskDraft \<Rightarrow> Task op" where
  "CreateTask r now draft = (if \<not> has_DB r then fail ErrNoDB else createTaskExec r now draft)"

definition enabled_of_owner :: "Owner \<Rightarrow> string \<Rightarrow> task_row list \<Rightarrow> nat" where
  "enabled_of_owner owner hmac rows =
     length (filter (\<lambda>t. owned_by (AppID owner) (ChatGroupID owner) hmac t \<and> t_enabled t) rows)"

definition enabled_of_app :: "string \<Rightarrow> task_row list \<Rightarrow> nat" where
  "enabled_of_app app rows = length (filter (\<lambda>t. t_app_id t = app \<and> t_enabled t) rows)"

definition checkCreateQuotaTx :: "Repository \<Rightarrow> Owner \<Rightarrow> unit op" where
  "checkCreateQuotaTx r owner =
     (if MaxEnabledTasksPerOwner r \<le> 0 \<and> MaxEnabledTasksPerApp r \<le> 0 then ret ()
      else (case Owner_Validate owner of Inl e \<Rightarrow> fail e | Inr _ \<Rightarrow>
        (case OwnerHMAC r owner of
           Inl e \<Rightarrow> fail (Wrapf ''index schedule owner quota'' e)
         | Inr ownerHMAC \<Rightarrow>
           and_then
             (if MaxEnabledTasksPerOwner r > 0
              then and_then (query (\<lambda>w. enabled_of_owner owner ownerHMAC (scheduled_tasks w)))
                     (Wrapf ''count owner schedule quota'')
                     (\<lambda>count. if int count \<ge> MaxEnabledTasksPerOwner r then fail ErrTaskQuota else ret ())
              else ret ())
             id
             (\<lambda>_. if MaxEnabledTasksPerApp r > 0
              then and_then (query (\<lambda>w. enabled_of_app (AppID owner) (scheduled_tasks w)))
                     (Wrapf ''count app schedule quota'')
                     (\<lambda>count. if int count \<ge> MaxEnabledTasksPerApp r then fail ErrTaskQuota else ret ())
              else ret ()))))"

section \<open>Patching\<close>

text \<open>\<open>updateTaskTx\<close> once the row is loaded and locked (from line 255).\<close>

definition updateStoredTask :: "Repository \<Rightarrow> go_time \<Rightarrow> TaskPatch \<Rightarrow> string \<Rightarrow> task_row \<Rightarrow> Task op" where
  "updateStoredTask r now patch ownerHMAC stored =
     (if t_version stored \<noteq> Patch_ExpectedVersion patch then fail ErrVersionConflict
      else if t_kind stored \<noteq> TaskPrompt \<and> t_kind stored \<noteq> TaskScript
        then fail (Errorf ''stored schedule task kind is invalid'')
      else (let cronExpression = (case Patch_CronExpression patch of
              None \<Rightarrow> t_cron stored | Some c \<Rightarrow> trim_space c) in
        (case ParseCron r cronExpression of Inl e \<Rightarrow> fail e | Inr cron \<Rightarrow>
          if Patch_Payload patch = None \<and> trim_space (t_payload stored) = []
            then fail (Errorf ''stored schedule payload is missing'')
          else (let payload = (case Patch_Payload patch of None \<Rightarrow> t_payload stored | Some p \<Rightarrow> p);
                    silent = (case Patch_Silent patch of None \<Rightarrow> t_silent stored | Some b \<Rightarrow> b);
                    enabled = (case Patch_Enabled patch of None \<Rightarrow> t_enabled stored | Some b \<Rightarrow> b);
                    nextRunAt = (if enabled
                      then (case t_next_run_at stored of None \<Rightarrow> cron now
                        | Some slot \<Rightarrow> if \<not> t_enabled stored \<or> Patch_CronExpression patch \<noteq> None
                            then cron now else slot)
                      else zero_time);
                    nextVersion = t_version stored + 1;
                    nextRunAtValue = (if is_zero_time nextRunAt then None else Some nextRunAt) in
            and_then
              (exec (update_tasks
                (\<lambda>t. t_id t = Patch_TaskID patch \<and> owned_by (AppID (Patch_Owner patch))
                   (ChatGroupID (Patch_Owner patch)) ownerHMAC t \<and> t_version t = t_version stored)
                (\<lambda>t. t\<lparr>t_cron := cronExpression, t_payload := payload, t_silent := silent,
                   t_enabled := enabled, t_version := nextVersion,
                   t_next_run_at := nextRunAtValue\<rparr>)))
              (Wrapf ''update scheduled task'')
              (\<lambda>changed. if changed \<noteq> 1 then fail ErrVersionConflict
                else ret \<lparr>Task_ID = Patch_TaskID patch, Task_Kind = t_kind stored,
                  Task_CronExpression = cronExpression, Task_Timezone = timezone,
                  Task_Silent = silent, Task_Enabled = enabled,
                  Task_Version = nextVersion, Task_NextRunAt = nextRunAt\<rparr>)))))"

definition updateTaskTx :: "Repository \<Rightarrow> go_time \<Rightarrow> TaskPatch \<Rightarrow> Task op" where
  "updateTaskTx r now patch =
     (if trim_space (Patch_TaskID patch) = [] \<or> Patch_ExpectedVersion patch = 0
        then fail (Errorf ''schedule task id and version are required'')
      else if Patch_CronExpression patch = None \<and> Patch_Payload patch = None
          \<and> Patch_Silent patch = None \<and> Patch_Enabled patch = None
        then fail (Errorf ''schedule task update is empty'')
      else if Patch_Payload patch = Some [] then fail (Errorf ''schedule task payload is required'')
      else (case Owner_Validate (Patch_Owner patch) of Inl e \<Rightarrow> fail e | Inr _ \<Rightarrow>
        (case OwnerHMAC r (Patch_Owner patch) of
           Inl e \<Rightarrow> fail (Wrapf ''index schedule owner'' e)
         | Inr ownerHMAC \<Rightarrow>
            and_then (query (\<lambda>w. sql_first (\<lambda>t. t_id t = Patch_TaskID patch
                \<and> owned_by (AppID (Patch_Owner patch)) (ChatGroupID (Patch_Owner patch)) ownerHMAC t)
                (scheduled_tasks w)))
              (Wrapf ''load schedule task for update'')
              (\<lambda>found. case found of
                  None \<Rightarrow> fail ErrTaskNotFound
                | Some stored \<Rightarrow> updateStoredTask r now patch ownerHMAC stored))))"

definition UpdateTask :: "Repository \<Rightarrow> go_time \<Rightarrow> TaskPatch \<Rightarrow> Task op" where
  "UpdateTask r now patch =
     (if \<not> has_DB r then fail ErrNoDB
      else transaction (Wrapf ''begin schedule task update'')
        (and_then (updateTaskTx r now patch) id
          (\<lambda>task. ret (Wrapf ''commit schedule task update'', task))))"

section \<open>Reading\<close>

definition row_task :: "task_row \<Rightarrow> OwnedTask" where
  "row_task t = \<lparr>Owned_Task = \<lparr>Task_ID = t_id t, Task_Kind = t_kind t, Task_CronExpression = t_cron t,
      Task_Timezone = t_timezone t, Task_Silent = t_silent t, Task_Enabled = t_enabled t,
      Task_Version = t_version t,
      Task_NextRunAt = (case t_next_run_at t of None \<Rightarrow> zero_time | Some n \<Rightarrow> n)\<rparr>,
    Owned_Payload = t_payload t, Owned_UpdatedAt = t_updated_at t\<rparr>"

definition page_key :: "task_row \<Rightarrow> go_time \<times> string" where
  "page_key t = (t_updated_at t, t_id t)"

text \<open>\<open>SELECT \<dots> WHERE owner AND (updated_at > ? OR (updated_at = ? AND id > ?)) ORDER BY updated_at,id\<close>\<close>

definition owned_rows :: "Owner \<Rightarrow> string \<Rightarrow> CursorPosition option \<Rightarrow> task_row list \<Rightarrow> task_row list" where
  "owned_rows owner hmac after rows = sort_key page_key
     (filter (\<lambda>t. owned_by (AppID owner) (ChatGroupID owner) hmac t
        \<and> (case after of None \<Rightarrow> True | Some c \<Rightarrow>
             t_updated_at t > Cursor_UpdatedAt c
             \<or> (t_updated_at t = Cursor_UpdatedAt c \<and> t_id t > Cursor_TaskID c))) rows)"

fun scan_tasks :: "task_row list \<Rightarrow> OwnedTask list res" where
  "scan_tasks [] = Inr []"
| "scan_tasks (t # ts) =
     (if t_kind t \<noteq> TaskPrompt \<and> t_kind t \<noteq> TaskScript then Inl (Errorf ''stored schedule task kind is invalid'')
      else if trim_space (t_payload t) = [] then Inl (Errorf ''owner schedule task payload is missing'')
      else (case scan_tasks ts of Inl e \<Rightarrow> Inl e | Inr os \<Rightarrow> Inr (row_task t # os)))"

definition listOwnedTasksQuery :: "Repository \<Rightarrow> Owner \<Rightarrow> CursorPosition option \<Rightarrow> int \<Rightarrow> TaskPage op" where
  "listOwnedTasksQuery r owner after pageSize =
     (case Owner_Validate owner of Inl e \<Rightarrow> fail e | Inr _ \<Rightarrow>
        if pageSize < 1 \<or> pageSize > 100 then fail (Errorf ''schedule page size is invalid'')
        else (case OwnerHMAC r owner of
           Inl e \<Rightarrow> fail (Wrapf ''index schedule owner'' e)
         | Inr ownerHMAC \<Rightarrow>
           if (case after of None \<Rightarrow> False | Some c \<Rightarrow>
                 is_zero_time (Cursor_UpdatedAt c) \<or> trim_space (Cursor_TaskID c) = [])
             then fail (Errorf ''schedule cursor position is invalid'')
           else and_then
             (query (\<lambda>w. take (nat (pageSize + 1)) (owned_rows owner ownerHMAC after (scheduled_tasks w))))
             (Wrapf ''list owner schedule tasks'')
             (\<lambda>rows. case scan_tasks rows of Inl e \<Rightarrow> fail e | Inr tasks \<Rightarrow>
                if length tasks > nat pageSize
                then (let kept = take (nat pageSize) tasks; l = last kept in
                  ret \<lparr>Page_Tasks = kept,
                    Page_Next = Some \<lparr>Cursor_UpdatedAt = Owned_UpdatedAt l,
                                     Cursor_TaskID = Task_ID (Owned_Task l)\<rparr>\<rparr>)
                else ret \<lparr>Page_Tasks = tasks, Page_Next = None\<rparr>)))"

definition ListOwnedTasks :: "Repository \<Rightarrow> Owner \<Rightarrow> CursorPosition option \<Rightarrow> int \<Rightarrow> TaskPage op" where
  "ListOwnedTasks r owner after pageSize =
     (if \<not> has_DB r then fail ErrNoDB else listOwnedTasksQuery r owner after pageSize)"

definition GetOwnedTask :: "Repository \<Rightarrow> Owner \<Rightarrow> string \<Rightarrow> OwnedTask op" where
  "GetOwnedTask r owner taskID =
     (if \<not> has_DB r then fail ErrNoDB
      else if Owner_Validate owner \<noteq> Inr () \<or> trim_space taskID = [] then fail ErrTaskNotFound
      else (case OwnerHMAC r owner of
         Inl e \<Rightarrow> fail (Wrapf ''index schedule owner'' e)
       | Inr ownerHMAC \<Rightarrow>
         and_then (query (\<lambda>w. sql_first (\<lambda>t. t_id t = taskID
             \<and> owned_by (AppID owner) (ChatGroupID owner) ownerHMAC t) (scheduled_tasks w)))
           (Wrapf ''get owner schedule task'')
           (\<lambda>found. case found of None \<Rightarrow> fail ErrTaskNotFound | Some t \<Rightarrow>
              if t_kind t \<noteq> TaskPrompt \<and> t_kind t \<noteq> TaskScript
                then fail (Errorf ''stored schedule task kind is invalid'')
              else if trim_space (t_payload t) = [] then fail (Errorf ''owner schedule task payload is missing'')
              else ret (row_task t))))"

section \<open>What a patch does\<close>

lemma task_error_distinct [simp]:
  "ErrTaskNotFound \<noteq> ErrVersionConflict" "ErrVersionConflict \<noteq> ErrTaskNotFound"
  by (simp_all add: ErrTaskNotFound_def ErrVersionConflict_def)

text \<open>The row a patch promises, as a function of the old row.\<close>

definition patch_row :: "Cron \<Rightarrow> go_time \<Rightarrow> TaskPatch \<Rightarrow> task_row \<Rightarrow> task_row" where
  "patch_row cron now patch t =
     (let on = (case Patch_Enabled patch of None \<Rightarrow> t_enabled t | Some b \<Rightarrow> b);
          keep = (t_enabled t \<and> Patch_CronExpression patch = None);
          slot = (case t_next_run_at t of Some s \<Rightarrow> if keep then s else cron now | None \<Rightarrow> cron now) in
      t\<lparr>t_cron := (case Patch_CronExpression patch of None \<Rightarrow> t_cron t | Some c \<Rightarrow> trim_space c),
        t_payload := (case Patch_Payload patch of None \<Rightarrow> t_payload t | Some p \<Rightarrow> p),
        t_silent := (case Patch_Silent patch of None \<Rightarrow> t_silent t | Some b \<Rightarrow> b),
        t_enabled := on, t_version := t_version t + 1,
        t_next_run_at := (if on \<and> \<not> is_zero_time slot then Some slot else None)\<rparr>)"

lemma patch_row_simps [simp]:
  "t_id (patch_row cron now p t) = t_id t" "t_app_id (patch_row cron now p t) = t_app_id t"
  "t_chat_group_id (patch_row cron now p t) = t_chat_group_id t"
  "t_owner_hmac (patch_row cron now p t) = t_owner_hmac t"
  "t_owner_open_id (patch_row cron now p t) = t_owner_open_id t"
  "t_kind (patch_row cron now p t) = t_kind t" "t_version (patch_row cron now p t) = t_version t + 1"
  by (simp_all add: patch_row_def Let_def)

lemma version_succ_neq [simp]: "(v::64 word) + 1 \<noteq> v" "v \<noteq> v + 1"
  by simp_all

lemma patch_row_neq: "patch_row cron now p t \<noteq> t"
  by (metis patch_row_simps(7) version_succ_neq(1))

text \<open>A committed update statement sets exactly the promised row.\<close>

lemma updateStoredTask_Inr:
  assumes "updateStoredTask r now patch hmac stored w = (Inr task, w')"
    and "t_version stored = Patch_ExpectedVersion patch"
  obtains cron f where
    "ParseCron r (t_cron (patch_row cron now patch stored)) = Inr cron"
    "f stored = patch_row cron now patch stored" "\<And>t. t_version (f t) = Patch_ExpectedVersion patch + 1"
    "sql_affected (\<lambda>t. t_id t = Patch_TaskID patch \<and> owned_by (AppID (Patch_Owner patch))
       (ChatGroupID (Patch_Owner patch)) hmac t \<and> t_version t = Patch_ExpectedVersion patch) f (scheduled_tasks w) = 1"
    "w' = (pop_fault w)\<lparr>scheduled_tasks := sql_update
       (\<lambda>t. t_id t = Patch_TaskID patch \<and> owned_by (AppID (Patch_Owner patch))
         (ChatGroupID (Patch_Owner patch)) hmac t \<and> t_version t = Patch_ExpectedVersion patch)
       (touch_task (clock w) f) (scheduled_tasks w)\<rparr>"
    "task = Owned_Task (row_task ((patch_row cron now patch stored)\<lparr>t_id := Patch_TaskID patch, t_timezone := timezone\<rparr>))"
proof -
  define ce where "ce = (case Patch_CronExpression patch of None \<Rightarrow> t_cron stored | Some c \<Rightarrow> trim_space c)"
  from assms(1,2) obtain cron where cron: "ParseCron r ce = Inr cron"
    by (auto simp: updateStoredTask_def Let_def op_Inr simp flip: ce_def)
  let ?row = "patch_row cron now patch stored"
  let ?on = "case Patch_Enabled patch of None \<Rightarrow> t_enabled stored | Some b \<Rightarrow> b"
  let ?next = "if ?on then case t_next_run_at stored of None \<Rightarrow> cron now
     | Some slot \<Rightarrow> if \<not> t_enabled stored \<or> Patch_CronExpression patch \<noteq> None then cron now else slot else zero_time"
  have row: "t_cron ?row = ce" "t_payload ?row = (case Patch_Payload patch of None \<Rightarrow> t_payload stored | Some p \<Rightarrow> p)"
    "t_silent ?row = (case Patch_Silent patch of None \<Rightarrow> t_silent stored | Some b \<Rightarrow> b)" "t_enabled ?row = ?on"
    "t_next_run_at ?row = (if is_zero_time ?next then None else Some ?next)"
    by (auto simp: patch_row_def Let_def ce_def is_zero_time_def split: option.split)
  define f :: "task_row \<Rightarrow> task_row" where "f = (\<lambda>t. t\<lparr>t_cron := t_cron ?row, t_payload := t_payload ?row, t_silent := t_silent ?row,
     t_enabled := t_enabled ?row, t_version := Patch_ExpectedVersion patch + 1, t_next_run_at := t_next_run_at ?row\<rparr>)"
  show thesis
  proof (rule that [of cron f])
    show "ParseCron r (t_cron ?row) = Inr cron" using cron by (simp add: row)
    show "f stored = ?row" by (simp add: f_def assms(2) [symmetric] patch_row_def Let_def)
    show "t_version (f t) = Patch_ExpectedVersion patch + 1" for t by (simp add: f_def)
  qed (use assms cron in \<open>simp_all add: updateStoredTask_def Let_def op_Inr update_tasks_def f_def row row_task_def is_zero_time_def
        flip: ce_def\<close>)
qed

text \<open>What a committed patch leaves behind: the one row of that id, which the owner holds and whose
  version is the expected one, replaced by the promised row.\<close>

definition patched :: "Repository \<Rightarrow> go_time \<Rightarrow> TaskPatch \<Rightarrow> world \<Rightarrow> world \<Rightarrow> bool" where
  "patched r now patch w w' \<longleftrightarrow> (\<exists>hmac cron stored.
     OwnerHMAC r (Patch_Owner patch) = Inr hmac \<and> stored \<in> set (scheduled_tasks w)
     \<and> t_id stored = Patch_TaskID patch
     \<and> owned_by (AppID (Patch_Owner patch)) (ChatGroupID (Patch_Owner patch)) hmac stored
     \<and> t_version stored = Patch_ExpectedVersion patch
     \<and> ParseCron r (t_cron (patch_row cron now patch stored)) = Inr cron
     \<and> quiet w' = (quiet w)\<lparr>scheduled_tasks := map (\<lambda>t. if t_id t = Patch_TaskID patch
          then (patch_row cron now patch stored)\<lparr>t_updated_at := clock w\<rparr> else t) (scheduled_tasks w)\<rparr>)"

lemma updateTaskTx_Inr:
  assumes "updateTaskTx r now patch w = (Inr task, w')" and ids: "distinct (map t_id (scheduled_tasks w))"
  shows "patched r now patch w w'" and "Task_ID task = Patch_TaskID patch"
    and "Task_Version task = Patch_ExpectedVersion patch + 1" and "Patch_ExpectedVersion patch \<noteq> 0"
proof -
  let ?own = "\<lambda>hmac. owned_by (AppID (Patch_Owner patch)) (ChatGroupID (Patch_Owner patch)) hmac"
  from assms(1) obtain hmac stored where nz: "Patch_ExpectedVersion patch \<noteq> 0"
    and hmac: "OwnerHMAC r (Patch_Owner patch) = Inr hmac"
    and first: "sql_first (\<lambda>t. t_id t = Patch_TaskID patch \<and> ?own hmac t) (scheduled_tasks w) = Some stored"
    and upd: "updateStoredTask r now patch hmac stored (pop_fault w) = (Inr task, w')"
    by (auto simp: updateTaskTx_def op_Inr)
  from upd have ver: "t_version stored = Patch_ExpectedVersion patch"
    by (simp add: updateStoredTask_def op_Inr)
  from first have st: "stored \<in> set (scheduled_tasks w)" "t_id stored = Patch_TaskID patch" "?own hmac stored"
    by (auto dest: sql_first_SomeD)
  obtain cron f where
    cron: "ParseCron r (t_cron (patch_row cron now patch stored)) = Inr cron"
    and f: "f stored = patch_row cron now patch stored"
    and "\<And>t. t_version (f t) = Patch_ExpectedVersion patch + 1"
    and "sql_affected (\<lambda>t. t_id t = Patch_TaskID patch \<and> ?own hmac t
       \<and> t_version t = Patch_ExpectedVersion patch) f (scheduled_tasks w) = 1"
    and w': "w' = (pop_fault (pop_fault w))\<lparr>scheduled_tasks := sql_update
       (\<lambda>t. t_id t = Patch_TaskID patch \<and> ?own hmac t \<and> t_version t = Patch_ExpectedVersion patch)
       (touch_task (clock w) f) (scheduled_tasks w)\<rparr>"
    and task: "task = Owned_Task (row_task ((patch_row cron now patch stored)\<lparr>t_id := Patch_TaskID patch, t_timezone := timezone\<rparr>))"
    by (rule updateStoredTask_Inr [OF upd ver, unfolded pop_fault_simps]) (rule that)
  have "sql_update (\<lambda>t. t_id t = Patch_TaskID patch \<and> ?own hmac t \<and> t_version t = Patch_ExpectedVersion patch)
       (touch_task (clock w) f) (scheduled_tasks w)
     = map (\<lambda>t. if t_id t = Patch_TaskID patch
          then (patch_row cron now patch stored)\<lparr>t_updated_at := clock w\<rparr> else t) (scheduled_tasks w)"
    unfolding sql_update_def
  proof (rule map_cong [OF refl])
    fix t assume t: "t \<in> set (scheduled_tasks w)"
    show "(if t_id t = Patch_TaskID patch \<and> ?own hmac t \<and> t_version t = Patch_ExpectedVersion patch
        then touch_task (clock w) f t else t)
      = (if t_id t = Patch_TaskID patch then (patch_row cron now patch stored)\<lparr>t_updated_at := clock w\<rparr> else t)"
    proof (cases "t_id t = Patch_TaskID patch")
      case True
      then have "t = stored" using distinct_key_unique [OF ids t st(1)] st(2) by simp
      then show ?thesis using st ver f patch_row_neq by (simp add: touch_task_def)
    qed simp
  qed
  then show "patched r now patch w w'"
    unfolding patched_def using hmac st ver cron w'
    by (intro exI [of _ hmac] exI [of _ cron] exI [of _ stored]) simp
  show "Task_ID task = Patch_TaskID patch" "Task_Version task = Patch_ExpectedVersion patch + 1"
    using task ver by (simp_all add: row_task_def)
  show "Patch_ExpectedVersion patch \<noteq> 0" by (rule nz)
qed

lemma patched_pop: "patched r now patch (pop_fault w) w' \<longleftrightarrow> patched r now patch w w'"
  unfolding patched_def pop_fault_simps quiet_pop_fault by (rule refl)

lemma patched_quiet: "quiet w' = quiet w'' \<Longrightarrow> patched r now patch w w' \<longleftrightarrow> patched r now patch w w''"
  by (simp add: patched_def)

lemma UpdateTask_effect:
  assumes ids: "distinct (map t_id (scheduled_tasks w))"
  shows "fst (UpdateTask r now patch w) = Inr task \<Longrightarrow> patched r now patch w (snd (UpdateTask r now patch w))"
    and "quiet (snd (UpdateTask r now patch w)) = quiet w \<or> patched r now patch w (snd (UpdateTask r now patch w))"
proof -
  let ?body = "and_then (updateTaskTx r now patch) id (\<lambda>task. ret (Wrapf ''commit schedule task update'', task))"
  let ?t = "transaction (Wrapf ''begin schedule task update'') ?body w"
  have eff: "patched r now patch w (snd ?t)" if b: "?body (pop_fault w) = (Inr (c, x), w2)" and q: "quiet (snd ?t) = quiet w2" for c x w2
  proof -
    from b have "updateTaskTx r now patch (pop_fault w) = (Inr x, w2)" by (auto simp: op_Inr)
    then have "patched r now patch w w2" using updateTaskTx_Inr(1) [of r now patch "pop_fault w"] ids
      by (simp add: patched_pop)
    then show ?thesis using patched_quiet [OF q] by simp
  qed
  show "quiet (snd (UpdateTask r now patch w)) = quiet w \<or> patched r now patch w (snd (UpdateTask r now patch w))"
  proof (cases "has_DB r")
    case True
    then show ?thesis unfolding UpdateTask_def by (cases rule: transaction_cases [of _ ?body w]) (auto intro: eff)
  qed (simp add: UpdateTask_def fail_def)
  show "patched r now patch w (snd (UpdateTask r now patch w))" if "fst (UpdateTask r now patch w) = Inr task"
  proof (cases "has_DB r")
    case True
    with that show ?thesis unfolding UpdateTask_def by (cases rule: transaction_cases [of _ ?body w]) (auto intro: eff)
  qed (use that in \<open>simp add: UpdateTask_def fail_def\<close>)
qed

lemma UpdateTask_version:
  assumes "UpdateTask r now patch w = (Inr task, w')" and "distinct (map t_id (scheduled_tasks w))"
  shows "Task_ID task = Patch_TaskID patch \<and> Task_Version task = Patch_ExpectedVersion patch + 1"
  using assms updateTaskTx_Inr(2,3) [of r now patch "pop_fault w"] by (auto simp: UpdateTask_def op_Inr)

text \<open>After a patch no row of that id has the version the patch expected.\<close>

lemma patched_version:
  assumes "patched r now patch w w'"
  shows "\<forall>t \<in> set (scheduled_tasks w'). t_id t = Patch_TaskID patch \<longrightarrow> t_version t = Patch_ExpectedVersion patch + 1"
    and "map t_id (scheduled_tasks w') = map t_id (scheduled_tasks w)"
proof -
  from assms obtain row where row: "t_id row = Patch_TaskID patch" "t_version row = Patch_ExpectedVersion patch + 1"
    and w': "quiet w' = (quiet w)\<lparr>scheduled_tasks := map (\<lambda>t. if t_id t = Patch_TaskID patch then row else t) (scheduled_tasks w)\<rparr>"
    unfolding patched_def
    apply (elim exE conjE)
    subgoal for hmac cron stored
      by (rule that [of "(patch_row cron now patch stored)\<lparr>t_updated_at := clock w\<rparr>"]) auto
    done
  have "scheduled_tasks w' = map (\<lambda>t. if t_id t = Patch_TaskID patch then row else t) (scheduled_tasks w)"
    using arg_cong [OF w', of scheduled_tasks] by simp
  then show "\<forall>t \<in> set (scheduled_tasks w'). t_id t = Patch_TaskID patch \<longrightarrow> t_version t = Patch_ExpectedVersion patch + 1"
    "map t_id (scheduled_tasks w') = map t_id (scheduled_tasks w)"
    using row by auto
qed

section \<open>Owner isolation\<close>

text \<open>Two worlds look the same to an owner: the same rows under the owner's index, in the same order,
  and the same connection behaviour.\<close>

definition same_view :: "Owner \<Rightarrow> string \<Rightarrow> world \<Rightarrow> world \<Rightarrow> bool" where
  "same_view owner hmac w1 w2 \<longleftrightarrow> faults w1 = faults w2
     \<and> filter (owned_by (AppID owner) (ChatGroupID owner) hmac) (scheduled_tasks w1)
       = filter (owned_by (AppID owner) (ChatGroupID owner) hmac) (scheduled_tasks w2)"

lemma same_view_pop: "same_view owner hmac w1 w2 \<Longrightarrow> same_view owner hmac (pop_fault w1) (pop_fault w2)"
  by (simp add: same_view_def pop_fault_def)

lemma same_view_fault: "same_view owner hmac w1 w2 \<Longrightarrow> next_fault w1 = next_fault w2"
  by (simp add: same_view_def next_fault_def)

lemma sql_first_filter: "sql_first (\<lambda>t. p t \<and> q t) rows = sql_first p (filter q rows)"
  by (induction rows) auto

lemma sql_affected_filter:
  "sql_affected (\<lambda>t. p t \<and> q t \<and> p' t) f rows = sql_affected (\<lambda>t. p t \<and> p' t) f (filter q rows)"
  by (induction rows) auto

lemma fst_and_then_query:
  "fst (and_then (query f) wrap k w)
     = (if next_fault w = Fine then fst (k (f (pop_fault w)) (pop_fault w)) else Inl (wrap ErrDriver))"
  by (auto simp: and_then_def query_def exec_def split: fault.splits)

lemma fst_if_op: "fst ((if c then m else n) w) = (if c then fst (m w) else fst (n w))"
  by simp

lemma fst_ret_fail [simp]: "fst (ret x w) = Inr x" "fst (fail e w) = Inl e"
  by (simp_all add: op_defs)

lemma GetOwnedTask_view:
  assumes "OwnerHMAC r owner = Inr hmac" and "same_view owner hmac w1 w2"
  shows "fst (GetOwnedTask r owner taskID w1) = fst (GetOwnedTask r owner taskID w2)"
  using assms same_view_fault [OF assms(2)]
  by (auto simp: GetOwnedTask_def fst_and_then_query sql_first_filter same_view_def split: option.splits)

lemma owned_rows_filter:
  "owned_rows owner hmac after rows
     = owned_rows owner hmac after (filter (owned_by (AppID owner) (ChatGroupID owner) hmac) rows)"
  by (simp add: owned_rows_def conj_commute)

lemma listOwnedTasksQuery_view:
  assumes "OwnerHMAC r owner = Inr hmac" and "same_view owner hmac w1 w2"
  shows "fst (listOwnedTasksQuery r owner after n w1) = fst (listOwnedTasksQuery r owner after n w2)"
proof -
  have "owned_rows owner hmac after (scheduled_tasks w1) = owned_rows owner hmac after (scheduled_tasks w2)"
    using assms(2) by (simp add: owned_rows_filter [of _ _ _ "scheduled_tasks _"] same_view_def)
  then show ?thesis using assms same_view_fault [OF assms(2)]
    by (auto simp: listOwnedTasksQuery_def fst_and_then_query Let_def split: sum.splits)
qed

lemma update_tasks_view:
  assumes "faults w1 = faults w2"
    and "sql_affected p f (scheduled_tasks w1) = sql_affected p f (scheduled_tasks w2)"
  shows "fst (and_then (exec (update_tasks p f)) wrap (\<lambda>changed. if changed \<noteq> 1 then fail e else ret x) w1)
       = fst (and_then (exec (update_tasks p f)) wrap (\<lambda>changed. if changed \<noteq> 1 then fail e else ret x) w2)"
    and "faults (snd (and_then (exec (update_tasks p f)) wrap (\<lambda>changed. if changed \<noteq> 1 then fail e else ret x) w1))
       = faults (snd (and_then (exec (update_tasks p f)) wrap (\<lambda>changed. if changed \<noteq> 1 then fail e else ret x) w2))"
  using assms by (simp_all add: op_defs exec_def update_tasks_def next_fault_def pop_fault_def split: list.split fault.split)

lemma updateStoredTask_view:
  assumes "same_view (Patch_Owner patch) hmac w1 w2"
  shows "fst (updateStoredTask r now patch hmac stored w1) = fst (updateStoredTask r now patch hmac stored w2)"
    and "faults (snd (updateStoredTask r now patch hmac stored w1)) = faults (snd (updateStoredTask r now patch hmac stored w2))"
proof -
  have aff: "sql_affected (\<lambda>t. t_id t = i \<and> owned_by (AppID (Patch_Owner patch)) (ChatGroupID (Patch_Owner patch)) hmac t \<and> t_version t = v) f (scheduled_tasks w1)
     = sql_affected (\<lambda>t. t_id t = i \<and> owned_by (AppID (Patch_Owner patch)) (ChatGroupID (Patch_Owner patch)) hmac t \<and> t_version t = v) f (scheduled_tasks w2)" for i v f
    unfolding sql_affected_filter using assms by (simp add: same_view_def)
  have f: "faults w1 = faults w2" using assms by (simp add: same_view_def)
  show "fst (updateStoredTask r now patch hmac stored w1) = fst (updateStoredTask r now patch hmac stored w2)"
    "faults (snd (updateStoredTask r now patch hmac stored w1)) = faults (snd (updateStoredTask r now patch hmac stored w2))"
    unfolding updateStoredTask_def Let_def
    by (simp_all add: f fail_def update_tasks_view [OF f aff] split: sum.split del: One_nat_def)
qed

lemma updateTaskTx_view:
  assumes "OwnerHMAC r (Patch_Owner patch) = Inr hmac" and v: "same_view (Patch_Owner patch) hmac w1 w2"
  shows "fst (updateTaskTx r now patch w1) = fst (updateTaskTx r now patch w2)"
    and "faults (snd (updateTaskTx r now patch w1)) = faults (snd (updateTaskTx r now patch w2))"
proof -
  note upd = updateStoredTask_view [OF same_view_pop [OF v]]
  have f: "next_fault w1 = next_fault w2" "faults w1 = faults w2" "faults (pop_fault w1) = faults (pop_fault w2)"
    using v same_view_fault [OF v] by (simp_all add: same_view_def pop_fault_def)
  have first: "sql_first (\<lambda>t. t_id t = Patch_TaskID patch \<and> owned_by (AppID (Patch_Owner patch)) (ChatGroupID (Patch_Owner patch)) hmac t) (scheduled_tasks w1)
    = sql_first (\<lambda>t. t_id t = Patch_TaskID patch \<and> owned_by (AppID (Patch_Owner patch)) (ChatGroupID (Patch_Owner patch)) hmac t) (scheduled_tasks w2)"
    using v by (simp add: sql_first_filter same_view_def)
  show "fst (updateTaskTx r now patch w1) = fst (updateTaskTx r now patch w2)"
    "faults (snd (updateTaskTx r now patch w1)) = faults (snd (updateTaskTx r now patch w2))"
    using assms(1) upd f unfolding updateTaskTx_def
    by (simp_all add: op_defs query_def exec_def first split: sum.split option.split fault.split)
qed

lemma UpdateTask_view:
  assumes "OwnerHMAC r (Patch_Owner patch) = Inr hmac" and v: "same_view (Patch_Owner patch) hmac w1 w2"
  shows "fst (UpdateTask r now patch w1) = fst (UpdateTask r now patch w2)"
proof -
  note tx = updateTaskTx_view [OF assms(1) same_view_pop [OF v]]
  have f: "next_fault w1 = next_fault w2" by (rule same_view_fault [OF v])
  obtain r1 v1 where 1: "updateTaskTx r now patch (pop_fault w1) = (r1, v1)" by fastforce
  obtain r2 v2 where 2: "updateTaskTx r now patch (pop_fault w2) = (r2, v2)" by fastforce
  have "r1 = r2" "next_fault v1 = next_fault v2" using tx [of now] 1 2 by (simp_all add: next_fault_def)
  then show ?thesis using 1 2 f
    by (auto simp: UpdateTask_def transaction_def op_defs split: sum.split fault.split)
qed

section \<open>Pages\<close>

text \<open>A client that follows the returned cursor until there is none.\<close>

fun all_pages :: "nat \<Rightarrow> Repository \<Rightarrow> Owner \<Rightarrow> int \<Rightarrow> CursorPosition option \<Rightarrow> world \<Rightarrow> OwnedTask list res" where
  "all_pages 0 r owner n after w = Inl (Errorf ''too many pages'')"
| "all_pages (Suc fuel) r owner n after w = (case ListOwnedTasks r owner after n w of
       (Inl e, _) \<Rightarrow> Inl e
     | (Inr page, w1) \<Rightarrow> (case Page_Next page of
           None \<Rightarrow> Inr (Page_Tasks page)
         | Some c \<Rightarrow> (case all_pages fuel r owner n (Some c) w1 of
               Inl e \<Rightarrow> Inl e
             | Inr rest \<Rightarrow> Inr (Page_Tasks page @ rest))))"

definition listable :: "task_row \<Rightarrow> bool" where
  "listable t \<longleftrightarrow> (t_kind t = TaskPrompt \<or> t_kind t = TaskScript) \<and> trim_space (t_payload t) \<noteq> []
     \<and> trim_space (t_id t) \<noteq> [] \<and> \<not> is_zero_time (t_updated_at t)"

lemma scan_tasks_ok: "(\<And>t. t \<in> set ts \<Longrightarrow> listable t) \<Longrightarrow> scan_tasks ts = Inr (map row_task ts)"
  by (induction ts) (auto simp: listable_def)

text \<open>In a list sorted strictly by a key, the elements beyond the n-th are those with a larger key.\<close>

lemma filter_beyond:
  assumes "sorted (map k xs)" and "distinct (map k xs)" and "0 < n" and "n \<le> length xs"
  shows "filter (\<lambda>x. k x > k (last (take n xs))) xs = drop n xs"
proof -
  let ?l = "last (take n xs)"
  have last: "?l = xs ! (n - 1)" using assms(3,4) by (subst last_conv_nth) auto
  have lt: "i < j \<Longrightarrow> j < length xs \<Longrightarrow> k (xs ! i) < k (xs ! j)" for i j
    using assms(1,2) sorted_wrt_nth_less [of "(<)" "map k xs" i j] by (simp add: strict_sorted_iff)
  have "filter (\<lambda>x. k x > k ?l) (take n xs) = []"
  proof (rule filter_False, rule)
    fix x assume "x \<in> set (take n xs)"
    then obtain i where i: "x = xs ! i" "i < n" "i < length xs" by (auto simp: in_set_conv_nth)
    then have "i = n - 1 \<or> i < n - 1" by linarith
    then have "k x \<le> k ?l" using i lt [of i "n - 1"] assms(3,4) last by fastforce
    then show "\<not> k ?l < k x" by simp
  qed
  moreover have "filter (\<lambda>x. k x > k ?l) (drop n xs) = drop n xs"
  proof (rule filter_True, rule)
    fix x assume "x \<in> set (drop n xs)"
    then obtain i where "x = xs ! (n + i)" "n + i < length xs" by (auto simp: in_set_conv_nth)
    then show "k ?l < k x" using lt [of "n - 1" "n + i"] assms(3) last by simp
  qed
  ultimately show ?thesis by (metis append_Nil append_take_drop_id filter_append)
qed

lemma owned_rows_key: "owned_rows owner hmac (Some c) rows
    = filter (\<lambda>t. page_key t > (Cursor_UpdatedAt c, Cursor_TaskID c)) (owned_rows owner hmac None rows)"
proof -
  have "page_key t > (Cursor_UpdatedAt c, Cursor_TaskID c) \<longleftrightarrow> t_updated_at t > Cursor_UpdatedAt c
             \<or> (t_updated_at t = Cursor_UpdatedAt c \<and> t_id t > Cursor_TaskID c)" for t
    by (auto simp: page_key_def less_prod_def less_le)
  then show ?thesis by (simp add: owned_rows_def filter_sort conj_commute)
qed

lemma owned_rows_sorted:
  assumes "distinct (map t_id rows)"
  shows "sorted (map page_key (owned_rows owner hmac after rows))"
    and "distinct (map page_key (owned_rows owner hmac after rows))"
    and "set (owned_rows owner hmac None rows) = {t \<in> set rows. owned_by (AppID owner) (ChatGroupID owner) hmac t}"
proof -
  show "sorted (map page_key (owned_rows owner hmac after rows))" by (simp add: owned_rows_def)
  show "set (owned_rows owner hmac None rows) = {t \<in> set rows. owned_by (AppID owner) (ChatGroupID owner) hmac t}"
    by (auto simp: owned_rows_def)
  let ?f = "filter (\<lambda>t. owned_by (AppID owner) (ChatGroupID owner) hmac t
        \<and> (case after of None \<Rightarrow> True | Some c \<Rightarrow> t_updated_at t > Cursor_UpdatedAt c
             \<or> (t_updated_at t = Cursor_UpdatedAt c \<and> t_id t > Cursor_TaskID c))) rows"
  have "distinct (map t_id ?f)" using assms by (rule distinct_map_filter)
  then have "distinct ?f" "inj_on page_key (set ?f)"
    by (auto simp: distinct_map inj_on_def page_key_def)
  then show "distinct (map page_key (owned_rows owner hmac after rows))"
    by (simp add: owned_rows_def distinct_map)
qed

text \<open>The rows after the cursor a page returns are the rows after that page.\<close>

lemma owned_rows_next:
  assumes ids: "distinct (map t_id rows)" and n: "0 < n" "n < length (owned_rows owner hmac after rows)"
  defines "l \<equiv> last (take n (owned_rows owner hmac after rows))"
  shows "owned_rows owner hmac (Some \<lparr>Cursor_UpdatedAt = t_updated_at l, Cursor_TaskID = t_id l\<rparr>) rows
    = drop n (owned_rows owner hmac after rows)"
proof -
  let ?S = "owned_rows owner hmac after rows"
  have "take n ?S \<noteq> []" using n by auto
  then have l: "l \<in> set ?S" unfolding l_def by (meson in_set_takeD last_in_set)
  have after: "filter (\<lambda>t. page_key t > page_key l) ?S = filter (\<lambda>t. page_key t > page_key l) (owned_rows owner hmac None rows)"
  proof (cases after)
    case (Some c)
    then have "page_key l > (Cursor_UpdatedAt c, Cursor_TaskID c)" using l by (simp add: owned_rows_key)
    then show ?thesis unfolding Some owned_rows_key filter_filter
      by (intro filter_cong) (auto intro: less_trans)
  qed simp
  have "filter (\<lambda>t. page_key t > page_key l) ?S = drop n ?S"
    unfolding l_def using owned_rows_sorted(1,2) [OF ids] n by (intro filter_beyond) auto
  then show ?thesis unfolding after owned_rows_key by (simp add: page_key_def)
qed

lemma all_pages_from:
  assumes w: "faults w = []" and db: "has_DB r" and own: "Owner_Validate owner = Inr ()"
    and hmac: "OwnerHMAC r owner = Inr hmac" and n: "1 \<le> n" "n \<le> 100"
    and ids: "distinct (map t_id (scheduled_tasks w))"
    and ok: "\<And>t. t \<in> set (scheduled_tasks w) \<Longrightarrow> owned_by (AppID owner) (ChatGroupID owner) hmac t \<Longrightarrow> listable t"
    and cur: "after = None \<or> (\<exists>t. listable t \<and> after = Some \<lparr>Cursor_UpdatedAt = t_updated_at t, Cursor_TaskID = t_id t\<rparr>)"
    and fuel: "length (owned_rows owner hmac after (scheduled_tasks w)) < fuel"
  shows "all_pages fuel r owner n after w = Inr (map row_task (owned_rows owner hmac after (scheduled_tasks w)))"
  using cur fuel
proof (induction fuel arbitrary: after)
  case (Suc fuel)
  let ?S = "owned_rows owner hmac after (scheduled_tasks w)"
  have sub: "t \<in> set ?S \<Longrightarrow> listable t" for t
    using ok by (cases after) (auto simp: owned_rows_def)
  have scan: "scan_tasks (take (nat (n + 1)) ?S) = Inr (map row_task (take (nat (n + 1)) ?S))"
    by (rule scan_tasks_ok) (meson in_set_takeD sub)
  have guard: "(case after of None \<Rightarrow> False | Some c \<Rightarrow> is_zero_time (Cursor_UpdatedAt c) \<or> trim_space (Cursor_TaskID c) = []) = False"
    using Suc.prems(1) by (auto simp: listable_def)
  have list: "ListOwnedTasks r owner after n w
     = (if length ?S > nat n then
          (let l = last (take (nat n) ?S) in
           (Inr \<lparr>Page_Tasks = map row_task (take (nat n) ?S),
                 Page_Next = Some \<lparr>Cursor_UpdatedAt = t_updated_at l, Cursor_TaskID = t_id l\<rparr>\<rparr>, w))
        else (Inr \<lparr>Page_Tasks = map row_task ?S, Page_Next = None\<rparr>, w))"
  proof -
    have "take (nat n) ?S \<noteq> []" if "nat n < length ?S" using that n by auto
    then show ?thesis
      using w db own hmac n scan guard
      by (simp add: ListOwnedTasks_def listOwnedTasksQuery_def op_defs take_map last_map row_task_def
          min_def Let_def nat_add_distrib)
  qed
  show ?case
  proof (cases "length ?S > nat n")
    case True
    let ?l = "last (take (nat n) ?S)"
    let ?c = "\<lparr>Cursor_UpdatedAt = t_updated_at ?l, Cursor_TaskID = t_id ?l\<rparr>"
    have nxt: "owned_rows owner hmac (Some ?c) (scheduled_tasks w) = drop (nat n) ?S"
      using owned_rows_next [OF ids _ True] n by simp
    have "take (nat n) ?S \<noteq> []" using True n by auto
    then have "?l \<in> set ?S" by (meson in_set_takeD last_in_set)
    then have "listable ?l" by (rule sub)
    moreover have "length (drop (nat n) ?S) < fuel" using Suc.prems(2) True n by simp
    ultimately have "all_pages fuel r owner n (Some ?c) w = Inr (map row_task (drop (nat n) ?S))"
      using Suc.IH [of "Some ?c"] by (auto simp: nxt)
    then show ?thesis using True list by (simp add: Let_def flip: map_append)
  next
    case False
    then show ?thesis using list by simp
  qed
qed simp

section \<open>A concrete setting\<close>

definition ex_owner :: Owner where
  "ex_owner = \<lparr>AppID = ''app'', ChatGroupID = ''grp'', OpenID = ''ou1''\<rparr>"

definition ex_repo :: Repository where
  "ex_repo = \<lparr>has_DB = True, Owners = \<lparr>keys = [1 \<mapsto> replicate 32 CHR ''k''], active = 1\<rparr>,
     mac = (\<lambda>k t. t), owner_json = (\<lambda>o1. AppID o1 @ ''/'' @ ChatGroupID o1 @ ''/'' @ OpenID o1),
     load_location = None, cron_parse = (\<lambda>e. Inr (\<lambda>t. t + 60000)),
     MaxEnabledTasksPerOwner = 2, MaxEnabledTasksPerApp = 5\<rparr>"

definition ex_app :: app_row where
  "ex_app = \<lparr>a_id = ''app'', a_enabled = True, a_workspace_dir = ''/ws'', a_workspace_mode = ''work'',
     a_model = ''m'', a_effort = ''low''\<rparr>"

definition ex_group :: chat_group_row where
  "ex_group = \<lparr>g_id = ''grp'', g_app_id = ''app'', g_chat_type = ''group'', g_chat_id = ''oc1'',
     g_thread_id = None, g_toolset_version = None, g_catalog_version = ''v1'', g_upgrade_state = Stable,
     g_upgrade_from = None, g_upgrade_target = None, g_schedule_enabled = True, g_last_message_at = None\<rparr>"

definition ex_task :: "string \<Rightarrow> task_row" where
  "ex_task i = \<lparr>t_id = i, t_app_id = ''app'', t_chat_group_id = ''grp'', t_owner_hmac = ''app/grp/ou1'',
     t_owner_open_id = ''ou1'', t_kind = TaskPrompt, t_cron = ''* * * * *'', t_timezone = timezone,
     t_payload = ''go'', t_silent = False, t_enabled = True, t_version = 1, t_next_run_at = Some 60000,
     t_last_run_at = None, t_updated_at = 10\<rparr>"

definition ex_world :: world where
  "ex_world = empty_world\<lparr>clock := 70000, apps := [ex_app], chat_groups := [ex_group],
     scheduled_tasks := [ex_task ''t2'', ex_task ''t1'']\<rparr>"

definition ex_patch :: TaskPatch where
  "ex_patch = \<lparr>Patch_TaskID = ''t1'', Patch_Owner = ex_owner, Patch_ExpectedVersion = 1,
     Patch_CronExpression = None, Patch_Payload = Some ''stop'', Patch_Silent = None, Patch_Enabled = None\<rparr>"

lemma ex_owner_simps [simp]: "AppID ex_owner = ''app''" "ChatGroupID ex_owner = ''grp''" "OpenID ex_owner = ''ou1''"
  by (simp_all add: ex_owner_def)

lemma ex_repo_simps [simp]: "has_DB ex_repo" "MaxEnabledTasksPerOwner ex_repo = 2" "MaxEnabledTasksPerApp ex_repo = 5"
  by (simp_all add: ex_repo_def)

lemma ex_app_simps [simp]: "a_id ex_app = ''app''" "a_enabled ex_app"
  by (simp_all add: ex_app_def)

lemma ex_group_simps [simp]: "g_id ex_group = ''grp''" "g_schedule_enabled ex_group" "g_chat_type ex_group = ''group''"
    "g_chat_id ex_group = ''oc1''"
  by (simp_all add: ex_group_def)

lemma ex_task_simps [simp]:
  "t_id (ex_task i) = i" "t_app_id (ex_task i) = ''app''" "t_chat_group_id (ex_task i) = ''grp''"
  "t_owner_hmac (ex_task i) = ''app/grp/ou1''" "t_owner_open_id (ex_task i) = ''ou1''" "t_kind (ex_task i) = TaskPrompt"
  "t_cron (ex_task i) = ''* * * * *''" "t_payload (ex_task i) = ''go''" "\<not> t_silent (ex_task i)"
  "t_enabled (ex_task i)" "t_version (ex_task i) = 1" "t_next_run_at (ex_task i) = Some 60000"
  "t_updated_at (ex_task i) = 10" "t_timezone (ex_task i) = timezone" "t_last_run_at (ex_task i) = None"
  by (simp_all add: ex_task_def)

lemma ex_world_simps [simp]:
  "faults ex_world = []" "clock ex_world = 70000" "apps ex_world = [ex_app]" "chat_groups ex_world = [ex_group]"
  "scheduled_tasks ex_world = [ex_task ''t2'', ex_task ''t1'']" "scheduled_task_runs ex_world = []"
  "scheduled_task_deliveries ex_world = []" "scheduled_task_tool_calls ex_world = []" "feishu_log ex_world = []"
  by (simp_all add: ex_world_def empty_world_def)

lemma ex_patch_simps [simp]:
  "Patch_TaskID ex_patch = ''t1''" "Patch_Owner ex_patch = ex_owner" "Patch_ExpectedVersion ex_patch = 1"
  "Patch_CronExpression ex_patch = None" "Patch_Payload ex_patch = Some ''stop''" "Patch_Silent ex_patch = None"
  "Patch_Enabled ex_patch = None"
  by (simp_all add: ex_patch_def)

text \<open>Trimming the literals of the examples.\<close>

lemmas trim_eval = trim_space_ascii byte_val_def is_space_def

lemma ex_eval [simp]:
  "Owner_Validate ex_owner = Inr ()" "OwnerHMAC ex_repo ex_owner = Inr ''app/grp/ou1''"
  "ParseCron ex_repo ''* * * * *'' = Inr (\<lambda>t. t + 60000)" "owned_by ''app'' ''grp'' ''app/grp/ou1'' (ex_task i)"
proof -
  show v: "Owner_Validate ex_owner = Inr ()" by (simp add: Owner_Validate_def trim_eval)
  show "OwnerHMAC ex_repo ex_owner = Inr ''app/grp/ou1''"
    by (simp add: OwnerHMAC_def v activeKey_def key_bytes_def) (simp add: ex_repo_def)
  have "length (string_fields ''* * * * *'') = 5" by (simp add: string_fields_def chunks_ascii trim_eval)
  then show "ParseCron ex_repo ''* * * * *'' = Inr (\<lambda>t. t + 60000)"
    by (simp add: ParseCron_def trim_eval contains_def has_prefix_def ex_repo_def)
  show "owned_by ''app'' ''grp'' ''app/grp/ou1'' (ex_task i)" by (simp add: owned_by_def)
qed

lemma ex_update: "\<exists>task w'. UpdateTask ex_repo 0 ex_patch ex_world = (Inr task, w')"
  by (simp add: UpdateTask_def transaction_def updateTaskTx_def updateStoredTask_def op_defs Let_def
      trim_eval update_tasks_def sql_affected_def is_zero_time_def zero_time_def) (simp add: ex_task_def)

section \<open>Properties of the task store\<close>

text \<open>
  C1: A patch is a compare-and-set. When a patch of a task committed, its answer carries the expected
  version plus one (modulo \<open>2^64\<close>), and any other patch of the same task that expects the same version,
  by whatever owner and at whatever time, is refused: of two patches based on the same observation only
  one can take effect.
\<close>

theorem update_task_cas:
  assumes "distinct (map t_id (scheduled_tasks w))"
    and "UpdateTask r now p w = (Inr task, w')"
    and "Patch_TaskID q = Patch_TaskID p" and "Patch_ExpectedVersion q = Patch_ExpectedVersion p"
  shows "Task_Version task = Patch_ExpectedVersion p + 1 \<and> (\<forall>task'. fst (UpdateTask r' now' q w') \<noteq> Inr task')"
proof -
  have p: "patched r now p w w'" using UpdateTask_effect(1) [OF assms(1)] assms(2) by (metis fst_conv snd_conv)
  have ids: "distinct (map t_id (scheduled_tasks w'))" using assms(1) patched_version(2) [OF p] by simp
  have False if "fst (UpdateTask r' now' q w') = Inr task'" for task'
  proof -
    from UpdateTask_effect(1) [OF ids that] obtain stored where "stored \<in> set (scheduled_tasks w')"
      "t_id stored = Patch_TaskID q" "t_version stored = Patch_ExpectedVersion q"
      unfolding patched_def by blast
    then show False using patched_version(1) [OF p] assms(3,4) by force
  qed
  then show ?thesis using UpdateTask_version [OF assms(2,1)] by blast
qed

theorem update_task_cas_witness:
  "\<forall>task'. fst (UpdateTask ex_repo 5 ex_patch (snd (UpdateTask ex_repo 0 ex_patch ex_world))) \<noteq> Inr task'"
proof -
  obtain task w' where u: "UpdateTask ex_repo 0 ex_patch ex_world = (Inr task, w')" using ex_update by blast
  show ?thesis using update_task_cas [OF _ u refl refl, of ex_repo 5] u by simp
qed

text \<open>
  A patch is atomic and local, also when the connection is lost at any statement or at the commit.
  Either no table changed, or the only change is that the row of that id, which belongs to the patching
  owner and had the expected version, was replaced by the patched row. A patch that reported success is in
  the second case.
\<close>

lemma update_task_atomic:
  assumes "distinct (map t_id (scheduled_tasks w))"
  shows "(quiet (snd (UpdateTask r now patch w)) = quiet w
           \<or> patched r now patch w (snd (UpdateTask r now patch w)))
       \<and> ((\<exists>task. fst (UpdateTask r now patch w) = Inr task)
           \<longrightarrow> patched r now patch w (snd (UpdateTask r now patch w)))"
  using UpdateTask_effect [OF assms] by blast

lemma update_task_atomic_witness:
  "patched ex_repo 0 ex_patch ex_world (snd (UpdateTask ex_repo 0 ex_patch ex_world))"
  using update_task_atomic [of ex_world ex_repo 0 ex_patch] ex_update by (auto simp: fst_def split: prod.splits)

text \<open>
  C2: Owners cannot see each other. The answers of reading, listing and patching depend only on the rows
  under the caller's own index: in two worlds that agree on those rows the same call gives the same answer,
  whatever tasks other owners have, including a task of the requested id.
\<close>

theorem owner_isolation:
  assumes "OwnerHMAC r owner = Inr hmac" and "same_view owner hmac w1 w2"
  shows "fst (GetOwnedTask r owner taskID w1) = fst (GetOwnedTask r owner taskID w2)
    \<and> fst (ListOwnedTasks r owner after n w1) = fst (ListOwnedTasks r owner after n w2)
    \<and> (Patch_Owner patch = owner \<longrightarrow> fst (UpdateTask r now patch w1) = fst (UpdateTask r now patch w2))"
  using GetOwnedTask_view [OF assms] listOwnedTasksQuery_view [OF assms] UpdateTask_view [of r patch hmac w1 w2 now] assms
  by (auto simp: ListOwnedTasks_def)

theorem owner_isolation_witness:
  "fst (GetOwnedTask ex_repo ex_owner ''t9'' ex_world)
     = fst (GetOwnedTask ex_repo ex_owner ''t9''
         (ex_world\<lparr>scheduled_tasks := (ex_task ''t9'')\<lparr>t_owner_hmac := ''other''\<rparr> # scheduled_tasks ex_world\<rparr>))"
  using owner_isolation [of ex_repo ex_owner "''app/grp/ou1''" ex_world
      "ex_world\<lparr>scheduled_tasks := (ex_task ''t9'')\<lparr>t_owner_hmac := ''other''\<rparr> # scheduled_tasks ex_world\<rparr>" "''t9''"]
  by (simp add: same_view_def owned_by_def)

text \<open>
  C3: Cursor pagination is complete and duplicate free. Following the returned cursors page by page, for
  any page size from 1 to 100, ends after at most one page per task plus one and yields every task of the
  owner exactly once, in the order of (\<open>updated_at\<close>, \<open>id\<close>).
\<close>

theorem pages_enumerate_owned_tasks:
  assumes "faults w = []" and "has_DB r" and "Owner_Validate owner = Inr ()" and "OwnerHMAC r owner = Inr hmac"
    and "1 \<le> n" and "n \<le> 100" and "distinct (map t_id (scheduled_tasks w))"
    and "\<forall>t \<in> set (scheduled_tasks w). owned_by (AppID owner) (ChatGroupID owner) hmac t \<longrightarrow> listable t"
  shows "\<exists>rows. all_pages (Suc (length (scheduled_tasks w))) r owner n None w = Inr (map row_task rows)
    \<and> set rows = {t \<in> set (scheduled_tasks w). owned_by (AppID owner) (ChatGroupID owner) hmac t}
    \<and> sorted (map page_key rows) \<and> distinct rows"
proof (intro exI conjI)
  let ?rows = "owned_rows owner hmac None (scheduled_tasks w)"
  have "length ?rows < Suc (length (scheduled_tasks w))" by (simp add: owned_rows_def less_Suc_eq_le)
  then show "all_pages (Suc (length (scheduled_tasks w))) r owner n None w = Inr (map row_task ?rows)"
    using assms by (intro all_pages_from) auto
qed (use owned_rows_sorted [OF assms(7)] distinct_map in blast)+

theorem pages_enumerate_owned_tasks_witness:
  "\<exists>rows. all_pages 3 ex_repo ex_owner 1 None ex_world = Inr (map row_task rows)
     \<and> set rows = {ex_task ''t1'', ex_task ''t2''} \<and> distinct rows"
proof -
  have "{t. (t = ex_task ''t2'' \<or> t = ex_task ''t1'') \<and> owned_by ''app'' ''grp'' ''app/grp/ou1'' t} = {ex_task ''t1'', ex_task ''t2''}"
    by auto
  then show ?thesis
    using pages_enumerate_owned_tasks [of ex_world ex_repo ex_owner "''app/grp/ou1''" 1]
    by (simp add: listable_def trim_eval is_zero_time_def zero_time_def numeral_3_eq_3) blast
qed

end
