(* ===== verification/Schedule_Runs.thy ===== *)
theory Schedule_Runs
  imports Schedule_Tasks
begin

text \<open>
  Runs of scheduled tasks: the due-slot operations of \<open>internal/schedule/store.go\<close> (\<open>ClaimDue\<close>,
  \<open>SkipMisfire\<close>, \<open>FailRouteRevoked\<close>), the state transitions of \<open>run_state.go\<close> and
  \<open>reconcile.go\<close>, the prompt route of \<open>prompt_route.go\<close> and the run transitions of
  \<open>internal/storage/scheduled_runs.go\<close>. A run row moves claimed, queued, running and then into one of
  five terminal states; every transition carries the claim token that was handed out with the row.
  Identifiers drawn from \<open>NewID\<close> and the clock are arguments.
\<close>

section \<open>Data\<close>

record DueTask =
  Due_ID :: string
  Due_Version :: "64 word"
  Due_NextRunAt :: go_time
  Due_Kind :: task_kind
  Due_RouteRevoked :: bool

record DueClaim =
  Claim_TaskID :: string
  Claim_ObservedVersion :: "64 word"
  Claim_ObservedSlot :: go_time
  Claim_Lease :: int

record ClaimedRun =
  Run_ID :: string
  Run_TraceID :: string
  Run_TaskID :: string
  Run_AppID :: string
  Run_ChatGroupID :: string
  Run_ClaimToken :: string
  Run_TaskVersion :: "64 word"
  Run_Kind :: task_kind
  Run_Silent :: bool
  Run_ScheduledFor :: go_time
  Run_LeaseUntil :: go_time
  Run_Payload :: string

record RunCompletion =
  Done_RunID :: string
  Done_ClaimToken :: string
  Done_State :: run_state
  Done_ErrorCode :: string
  Done_StartedAt :: go_time
  Done_DurationMS :: int
  Done_ThreadID :: string
  Done_TurnID :: string

record ScriptRunMetadata =
  Meta_ExitCode :: int
  Meta_StdoutHMAC :: string
  Meta_StderrHMAC :: string
  Meta_OutputBytes :: int
  Meta_Truncated :: bool

record PromptRoute =
  Route_AppID :: string
  Route_WorkspaceDir :: string
  Route_WorkspaceMode :: string
  Route_Model :: string
  Route_Effort :: string
  Route_ChatGroupID :: string
  Route_ChatType :: string
  Route_ChatID :: string
  Route_OwnerOpenID :: string

definition ErrRunClaimLost :: go_error where
  "ErrRunClaimLost = Sentinel ''schedule run claim is no longer active''"

fun terminal :: "run_state \<Rightarrow> bool" where
  "terminal RunSucceeded = True"
| "terminal RunFailed = True"
| "terminal RunCancelled = True"
| "terminal RunUnknown = True"
| "terminal RunSkipped = True"
| "terminal _ = False"

section \<open>Statements\<close>

text \<open>\<open>scheduled_tasks t JOIN apps a JOIN chat_groups cg WHERE t.id=?\<close>\<close>

definition joined_task :: "string \<Rightarrow> world \<Rightarrow> (task_row \<times> app_row \<times> chat_group_row) option" where
  "joined_task taskID w = (case sql_first (\<lambda>t. t_id t = taskID) (scheduled_tasks w) of None \<Rightarrow> None | Some t \<Rightarrow>
     (case sql_first (\<lambda>a. a_id a = t_app_id t) (apps w) of None \<Rightarrow> None | Some a \<Rightarrow>
       (case sql_first (\<lambda>g. g_id g = t_chat_group_id t) (chat_groups w) of None \<Rightarrow> None | Some g \<Rightarrow>
         Some (t, a, g))))"

text \<open>The unique keys of \<open>scheduled_task_runs\<close>: id, (task, slot) and the trace id where it is not NULL.\<close>

definition run_clash :: "run_row \<Rightarrow> run_row \<Rightarrow> bool" where
  "run_clash a b \<longleftrightarrow> r_id a = r_id b
     \<or> (r_task_id a = r_task_id b \<and> r_scheduled_for a = r_scheduled_for b)
     \<or> (r_trace_id a \<noteq> None \<and> r_trace_id a = r_trace_id b)"

definition insert_run :: "run_row \<Rightarrow> unit op" where
  "insert_run x w =
     (if sql_conflict run_clash x (scheduled_task_runs w) then (Inl ErrDuplicateKey, w)
      else (Inr (), w\<lparr>scheduled_task_runs := scheduled_task_runs w @ [x]\<rparr>))"

definition update_runs :: "(run_row \<Rightarrow> bool) \<Rightarrow> (run_row \<Rightarrow> run_row) \<Rightarrow> nat op" where
  "update_runs p f w = (Inr (sql_affected p f (scheduled_task_runs w)),
     w\<lparr>scheduled_task_runs := sql_update p f (scheduled_task_runs w)\<rparr>)"

text \<open>A fresh row with the columns an INSERT leaves at their defaults.\<close>

definition new_run :: "string \<Rightarrow> string option \<Rightarrow> string \<Rightarrow> go_time \<Rightarrow> task_row \<Rightarrow> run_state \<Rightarrow> run_row" where
  "new_run runID trace taskID slot t st = \<lparr>r_id = runID, r_trace_id = trace, r_task_id = taskID,
     r_scheduled_for = slot, r_task_version = t_version t, r_kind = t_kind t, r_silent = t_silent t,
     r_payload = t_payload t, r_state = st, r_claim_token = None, r_lease_until = None,
     r_started_at = None, r_completed_at = None, r_duration_ms = None, r_error_code = None,
     r_thread_id = None, r_turn_id = None, r_exit_code = None, r_stdout_hmac = None,
     r_stderr_hmac = None, r_output_bytes = None, r_output_truncated = False\<rparr>"

text \<open>\<open>UPDATE scheduled_tasks SET next_run_at=?,last_run_at=? WHERE id=? AND version=? AND next_run_at=?\<close>\<close>

definition advance_task :: "string \<Rightarrow> 64 word \<Rightarrow> go_time \<Rightarrow> go_time \<Rightarrow> go_time \<Rightarrow> nat op" where
  "advance_task taskID version slot next now = update_tasks
     (\<lambda>t. t_id t = taskID \<and> t_version t = version \<and> t_next_run_at t = Some slot)
     (\<lambda>t. t\<lparr>t_next_run_at := Some next, t_last_run_at := Some now\<rparr>)"

section \<open>Claiming a due slot\<close>

text \<open>\<open>ClaimDue\<close> inside its transaction (lines 452 to 519).\<close>

definition claimDueTx :: "Repository \<Rightarrow> go_time \<Rightarrow> string \<Rightarrow> string \<Rightarrow> string res option \<Rightarrow> string res \<Rightarrow> int \<Rightarrow> DueClaim \<Rightarrow> ((go_error \<Rightarrow> go_error) \<times> ClaimedRun) op" where
  "claimDueTx r now runID claimToken gen raw lease claim =
          and_then (query (joined_task (Claim_TaskID claim))) (Wrapf ''lock scheduled task due claim'')
            (\<lambda>found. case found of None \<Rightarrow> fail ErrDueClaimConflict | Some (t, a, g) \<Rightarrow>
              if \<not> t_enabled t \<or> \<not> a_enabled a \<or> \<not> g_schedule_enabled g
                 \<or> t_version t \<noteq> Claim_ObservedVersion claim
                 \<or> t_next_run_at t \<noteq> Some (Claim_ObservedSlot claim)
                then fail ErrDueClaimConflict
              else if t_kind t \<noteq> TaskPrompt \<and> t_kind t \<noteq> TaskScript
                then fail (Errorf ''stored schedule task kind is invalid'')
              else if trim_space (t_payload t) = [] then fail (Errorf ''claimed schedule payload is missing'')
              else (case ParseCron r (t_cron t) of
                  Inl e \<Rightarrow> fail (Wrapf ''parse claimed schedule cron'' e)
                | Inr cron \<Rightarrow> (let nextRunAt = cron (Claim_ObservedSlot claim) in
                  if is_zero_time nextRunAt then fail (Errorf ''compute claimed schedule next run'')
                  else if trim_space runID = [] \<or> trim_space claimToken = []
                    then fail (Errorf ''generate schedule run identity'')
                  else (case newTraceID gen raw of Inl e \<Rightarrow> fail e | Inr traceID \<Rightarrow>
                    (let leaseUntil = now + lease in
                     and_then
                       (exec (insert_run ((new_run runID (Some traceID) (Claim_TaskID claim)
                           (Claim_ObservedSlot claim) t RunClaimed)
                          \<lparr>r_claim_token := Some claimToken, r_lease_until := Some leaseUntil\<rparr>)))
                       (Wrapf ''insert scheduled task run claim'')
                       (\<lambda>_. and_then
                         (exec (advance_task (Claim_TaskID claim) (t_version t) (Claim_ObservedSlot claim) nextRunAt now))
                         (Wrapf ''advance scheduled task after claim'')
                         (\<lambda>changed. if changed \<noteq> 1 then fail ErrDueClaimConflict
                           else ret (Wrapf ''commit schedule due claim'',
                             \<lparr>Run_ID = runID, Run_TraceID = traceID, Run_TaskID = Claim_TaskID claim,
                              Run_AppID = t_app_id t, Run_ChatGroupID = t_chat_group_id t,
                              Run_ClaimToken = claimToken, Run_TaskVersion = t_version t,
                              Run_Kind = t_kind t, Run_Silent = t_silent t,
                              Run_ScheduledFor = Claim_ObservedSlot claim, Run_LeaseUntil = leaseUntil,
                              Run_Payload = t_payload t\<rparr>))))))))"

definition ClaimDue :: "Repository \<Rightarrow> go_time \<Rightarrow> string \<Rightarrow> string \<Rightarrow> string res option \<Rightarrow> string res \<Rightarrow> DueClaim \<Rightarrow> ClaimedRun op" where
  "ClaimDue r now runID claimToken gen raw claim =
     (if \<not> has_DB r then fail ErrNoDB
      else if trim_space (Claim_TaskID claim) = [] \<or> Claim_ObservedVersion claim = 0
          \<or> is_zero_time (Claim_ObservedSlot claim)
        then fail (Errorf ''schedule due claim is incomplete'')
      else (let lease = (if Claim_Lease claim \<le> 0 then seconds 30 else Claim_Lease claim) in
        transaction (Wrapf ''begin schedule due claim'')
          (claimDueTx r now runID claimToken gen raw lease claim)))"

text \<open>\<open>SkipMisfire\<close> inside its transaction (lines 563 to 615).\<close>

definition skipMisfireTx :: "Repository \<Rightarrow> string \<Rightarrow> DueTask \<Rightarrow> go_time \<Rightarrow> ((go_error \<Rightarrow> go_error) \<times> unit) op" where
  "skipMisfireTx r runID due now =
        and_then (query (joined_task (Due_ID due))) (Wrapf ''lock schedule misfire'')
          (\<lambda>found. case found of None \<Rightarrow> fail ErrDueClaimConflict | Some (t, a, g) \<Rightarrow>
            if \<not> t_enabled t \<or> \<not> a_enabled a \<or> \<not> g_schedule_enabled g \<or> t_version t \<noteq> Due_Version due
               \<or> t_next_run_at t \<noteq> Some (Due_NextRunAt due) \<or> t_kind t \<noteq> Due_Kind due
              then fail ErrDueClaimConflict
            else (case ParseCron r (t_cron t) of
                Inl e \<Rightarrow> fail (Wrapf ''parse schedule misfire cron'' e)
              | Inr cron \<Rightarrow> (let next = cron now in
                if is_zero_time next then fail (Errorf ''compute next schedule misfire slot'')
                else if trim_space runID = [] then fail (Errorf ''generate schedule misfire run id'')
                else and_then
                  (exec (insert_run ((new_run runID None (Due_ID due) (Due_NextRunAt due) t RunSkipped)
                     \<lparr>r_error_code := Some ''skipped_misfire'', r_completed_at := Some now\<rparr>)))
                  (Wrapf ''insert skipped schedule run'')
                  (\<lambda>_. and_then
                    (exec (advance_task (Due_ID due) (t_version t) (Due_NextRunAt due) next now))
                    (Wrapf ''advance skipped schedule task'')
                    (\<lambda>count. if count \<noteq> 1 then fail ErrDueClaimConflict
                      else ret (Wrapf ''commit schedule misfire'', ()))))))"

definition SkipMisfire :: "Repository \<Rightarrow> string \<Rightarrow> DueTask \<Rightarrow> go_time \<Rightarrow> unit op" where
  "SkipMisfire r runID due now =
     (if \<not> has_DB r then fail ErrNoDB
      else if trim_space (Due_ID due) = [] \<or> Due_Version due = 0 \<or> is_zero_time (Due_NextRunAt due) \<or> is_zero_time now
        then fail (Errorf ''schedule misfire is invalid'')
      else transaction (Wrapf ''begin schedule misfire'')
        (skipMisfireTx r runID due now))"

text \<open>\<open>FailRouteRevoked\<close> inside its transaction (lines 635 to 687).\<close>

definition failRouteRevokedTx :: "Repository \<Rightarrow> string \<Rightarrow> DueTask \<Rightarrow> go_time \<Rightarrow> ((go_error \<Rightarrow> go_error) \<times> unit) op" where
  "failRouteRevokedTx r runID due now =
        and_then (query (joined_task (Due_ID due))) (Wrapf ''lock schedule route revoke'')
          (\<lambda>found. case found of None \<Rightarrow> fail ErrDueClaimConflict | Some (t, a, g) \<Rightarrow>
            if \<not> t_enabled t \<or> (a_enabled a \<and> g_schedule_enabled g) \<or> t_version t \<noteq> Due_Version due
               \<or> t_next_run_at t \<noteq> Some (Due_NextRunAt due) \<or> t_kind t \<noteq> Due_Kind due
              then fail ErrDueClaimConflict
            else (case ParseCron r (t_cron t) of
                Inl e \<Rightarrow> fail (Wrapf ''parse schedule route revoke cron'' e)
              | Inr cron \<Rightarrow> (let next = cron now in
                if is_zero_time next then fail (Errorf ''compute next schedule route revoke slot'')
                else if trim_space runID = [] then fail (Errorf ''generate schedule route revoke run id'')
                else and_then
                  (exec (insert_run ((new_run runID None (Due_ID due) (Due_NextRunAt due) t RunFailed)
                     \<lparr>r_error_code := Some ''failed_route_revoked'', r_completed_at := Some now\<rparr>)))
                  (Wrapf ''insert route revoked schedule run'')
                  (\<lambda>_. and_then
                    (exec (advance_task (Due_ID due) (t_version t) (Due_NextRunAt due) next now))
                    (Wrapf ''advance route revoked schedule task'')
                    (\<lambda>count. if count \<noteq> 1 then fail ErrDueClaimConflict
                      else ret (Wrapf ''commit schedule route revoke'', ()))))))"

definition FailRouteRevoked :: "Repository \<Rightarrow> string \<Rightarrow> DueTask \<Rightarrow> go_time \<Rightarrow> unit op" where
  "FailRouteRevoked r runID due now =
     (if \<not> has_DB r then fail ErrNoDB
      else if trim_space (Due_ID due) = [] \<or> Due_Version due = 0 \<or> is_zero_time (Due_NextRunAt due) \<or> is_zero_time now
        then fail (Errorf ''schedule route revoke is invalid'')
      else transaction (Wrapf ''begin schedule route revoke'')
        (failRouteRevokedTx r runID due now))"

section \<open>Transitions of a run\<close>

definition MarkRunQueued :: "Repository \<Rightarrow> string \<Rightarrow> string \<Rightarrow> unit op" where
  "MarkRunQueued r runID claimToken =
     (if \<not> has_DB r then fail ErrNoDB
      else if trim_space runID = [] \<or> trim_space claimToken = []
        then fail (Errorf ''schedule queued run identity is invalid'')
      else and_then
        (exec (update_runs
          (\<lambda>x. r_id x = runID \<and> r_claim_token x = Some claimToken \<and> r_state x = RunClaimed)
          (\<lambda>x. x\<lparr>r_state := RunQueued\<rparr>)))
        (Wrapf ''mark scheduled run queued'')
        (\<lambda>count. if count \<noteq> 1 then fail ErrRunClaimLost else ret ()))"

definition active_run :: "run_row \<Rightarrow> bool" where
  "active_run x \<longleftrightarrow> r_state x = RunClaimed \<or> r_state x = RunQueued \<or> r_state x = RunRunning"

text \<open>The duration a completion records: the given one, or the time since the start.\<close>

definition completion_duration :: "go_time \<Rightarrow> RunCompletion \<Rightarrow> int" where
  "completion_duration now c =
     (if Done_DurationMS c = 0 \<and> \<not> is_zero_time (Done_StartedAt c) \<and> \<not> now < Done_StartedAt c
      then now - Done_StartedAt c else Done_DurationMS c)"

definition CompleteRun :: "Repository \<Rightarrow> go_time \<Rightarrow> RunCompletion \<Rightarrow> unit op" where
  "CompleteRun r now c =
     (if \<not> has_DB r then fail ErrNoDB
      else if trim_space (Done_RunID c) = [] \<or> trim_space (Done_ClaimToken c) = [] \<or> \<not> terminal (Done_State c)
        then fail (Errorf ''schedule run completion is invalid'')
      else if Done_State c = RunSucceeded \<and> Done_ErrorCode c \<noteq> []
        then fail (Errorf ''successful schedule run cannot have an error code'')
      else if Done_DurationMS c < 0 then fail (Errorf ''schedule run duration is invalid'')
      else and_then
        (exec (update_runs
          (\<lambda>x. r_id x = Done_RunID c \<and> r_claim_token x = Some (Done_ClaimToken c) \<and> active_run x)
          (\<lambda>x. x\<lparr>r_state := Done_State c, r_error_code := nullable (Done_ErrorCode c), r_lease_until := None,
              r_completed_at := Some now, r_duration_ms := Some (completion_duration now c),
              r_thread_id := coalesce (nullable (Done_ThreadID c)) (r_thread_id x),
              r_turn_id := coalesce (nullable (Done_TurnID c)) (r_turn_id x)\<rparr>)))
        (Wrapf ''complete scheduled task run'')
        (\<lambda>changed. if changed \<noteq> 1 then fail ErrRunClaimLost else ret ()))"

definition CompleteScriptRun :: "Repository \<Rightarrow> go_time \<Rightarrow> RunCompletion \<Rightarrow> ScriptRunMetadata \<Rightarrow> unit op" where
  "CompleteScriptRun r now c md =
     (if \<not> has_DB r then fail ErrNoDB
      else if trim_space (Done_RunID c) = [] \<or> trim_space (Done_ClaimToken c) = [] \<or> \<not> terminal (Done_State c)
          \<or> Meta_OutputBytes md < 0 \<or> trim_space (Meta_StdoutHMAC md) = [] \<or> trim_space (Meta_StderrHMAC md) = []
        then fail (Errorf ''schedule script run completion is invalid'')
      else if Done_State c = RunSucceeded \<and> Done_ErrorCode c \<noteq> []
        then fail (Errorf ''successful schedule run cannot have an error code'')
      else if Done_DurationMS c < 0 then fail (Errorf ''schedule run duration is invalid'')
      else and_then
        (exec (update_runs
          (\<lambda>x. r_id x = Done_RunID c \<and> r_claim_token x = Some (Done_ClaimToken c) \<and> active_run x)
          (\<lambda>x. x\<lparr>r_state := Done_State c, r_error_code := nullable (Done_ErrorCode c), r_lease_until := None,
              r_completed_at := Some now, r_duration_ms := Some (completion_duration now c),
              r_exit_code := Some (Meta_ExitCode md), r_stdout_hmac := Some (Meta_StdoutHMAC md),
              r_stderr_hmac := Some (Meta_StderrHMAC md), r_output_bytes := Some (Meta_OutputBytes md),
              r_output_truncated := Meta_Truncated md\<rparr>)))
        (Wrapf ''complete scheduled script run'')
        (\<lambda>changed. if changed \<noteq> 1 then fail ErrRunClaimLost else ret ()))"

definition MarkRunRunning :: "Repository \<Rightarrow> go_time \<Rightarrow> string \<Rightarrow> string \<Rightarrow> int \<Rightarrow> unit op" where
  "MarkRunRunning r now runID claimToken lease =
     (if \<not> has_DB r \<or> trim_space runID = [] \<or> trim_space claimToken = [] \<or> lease \<le> 0
        then fail (Errorf ''schedule running run identity is invalid'')
      else and_then
        (exec (update_runs
          (\<lambda>x. r_id x = runID \<and> r_claim_token x = Some claimToken \<and> r_state x = RunQueued)
          (\<lambda>x. x\<lparr>r_state := RunRunning, r_started_at := coalesce (r_started_at x) (Some now),
              r_lease_until := Some (now + lease)\<rparr>)))
        (Wrapf ''mark scheduled run running'')
        (\<lambda>count. if count \<noteq> 1 then fail ErrRunClaimLost else ret ()))"

definition ReconcileInterruptedRuns :: "Repository \<Rightarrow> go_time \<Rightarrow> nat op" where
  "ReconcileInterruptedRuns r now =
     (if \<not> has_DB r then fail ErrNoDB
      else if is_zero_time now then fail (Errorf ''schedule reconcile time is required'')
      else and_then
        (exec (update_runs active_run
          (\<lambda>x. x\<lparr>r_state := RunUnknown, r_error_code := Some ''unknown_interrupted'', r_lease_until := None,
              r_completed_at := Some now\<rparr>)))
        (Wrapf ''reconcile interrupted schedule runs'') ret)"

text \<open>\<open>internal/storage/scheduled_runs.go\<close>, on the server's clock.\<close>

definition Store_MarkScheduledRunning :: "string \<Rightarrow> string \<Rightarrow> unit op" where
  "Store_MarkScheduledRunning runID claimToken =
     (if trim_space runID = [] \<or> trim_space claimToken = [] then fail (Errorf ''scheduled run identity is invalid'')
      else and_then
        (exec (\<lambda>w. update_runs
          (\<lambda>x. r_id x = runID \<and> r_claim_token x = Some claimToken \<and> r_state x = RunQueued)
          (\<lambda>x. x\<lparr>r_state := RunRunning, r_started_at := coalesce (r_started_at x) (Some (clock w)),
              r_lease_until := Some (clock w + seconds 330)\<rparr>) w))
        (Wrapf ''mark scheduled run running'')
        (\<lambda>count. if count \<noteq> 1 then fail (Errorf ''scheduled run claim is no longer active'') else ret ()))"

definition Store_CompleteScheduledRun :: "string \<Rightarrow> string \<Rightarrow> bool \<Rightarrow> string \<Rightarrow> int \<Rightarrow> unit op" where
  "Store_CompleteScheduledRun runID claimToken succeeded code durationMS =
     (if trim_space runID = [] \<or> trim_space claimToken = [] then fail (Errorf ''scheduled run identity is invalid'')
      else and_then
        (exec (\<lambda>w. update_runs
          (\<lambda>x. r_id x = runID \<and> r_claim_token x = Some claimToken \<and> (r_state x = RunQueued \<or> r_state x = RunRunning))
          (\<lambda>x. x\<lparr>r_state := (if succeeded then RunSucceeded else RunFailed),
              r_error_code := nullable (if succeeded then [] else code), r_lease_until := None,
              r_completed_at := Some (clock w), r_duration_ms := Some durationMS\<rparr>) w))
        (Wrapf ''complete scheduled run'')
        (\<lambda>count. if count \<noteq> 1 then fail (Errorf ''scheduled run claim is no longer active'') else ret ()))"

section \<open>The route of a claimed prompt\<close>

definition LoadPromptRoute :: "Repository \<Rightarrow> ClaimedRun \<Rightarrow> PromptRoute op" where
  "LoadPromptRoute r run =
     (if \<not> has_DB r then fail ErrNoDB
      else if Run_ID run = [] \<or> Run_TaskID run = [] \<or> Run_Kind run \<noteq> TaskPrompt \<or> Run_TaskVersion run = 0
        then fail (Errorf ''scheduled prompt run identity is invalid'')
      else and_then
        (query (\<lambda>w. case sql_first (\<lambda>x. r_id x = Run_ID run \<and> r_task_id x = Run_TaskID run
               \<and> r_task_version x = Run_TaskVersion run \<and> r_kind x = TaskPrompt
               \<and> r_claim_token x = Some (Run_ClaimToken run) \<and> active_run x) (scheduled_task_runs w) of
             None \<Rightarrow> None
           | Some x \<Rightarrow> (case joined_task (r_task_id x) w of None \<Rightarrow> None | Some (t, a, g) \<Rightarrow>
               if a_enabled a \<and> g_schedule_enabled g then Some (t, a, g) else None)))
        (Wrapf ''load scheduled prompt route'')
        (\<lambda>found. case found of None \<Rightarrow> fail ErrRunClaimLost | Some (t, a, g) \<Rightarrow>
           if t_owner_open_id t = [] then fail (Errorf ''scheduled prompt owner is missing'')
           else ret \<lparr>Route_AppID = a_id a, Route_WorkspaceDir = a_workspace_dir a,
             Route_WorkspaceMode = a_workspace_mode a, Route_Model = a_model a, Route_Effort = a_effort a,
             Route_ChatGroupID = g_id g, Route_ChatType = g_chat_type g, Route_ChatID = g_chat_id g,
             Route_OwnerOpenID = t_owner_open_id t\<rparr>))"

section \<open>The lifecycle of a run\<close>

fun run_rank :: "run_state \<Rightarrow> nat" where
  "run_rank RunClaimed = 0"
| "run_rank RunQueued = 1"
| "run_rank RunRunning = 2"
| "run_rank _ = 3"

text \<open>What a run keeps for ever: identity, slot, the snapshot of the task and the claim token.\<close>

definition run_snapshot :: "run_row \<Rightarrow> string \<times> string option \<times> string \<times> go_time \<times> 64 word \<times> task_kind \<times> bool \<times> string \<times> string option" where
  "run_snapshot x = (r_id x, r_trace_id x, r_task_id x, r_scheduled_for x, r_task_version x, r_kind x,
     r_silent x, r_payload x, r_claim_token x)"

definition run_moves :: "run_row \<Rightarrow> run_row \<Rightarrow> bool" where
  "run_moves x y \<longleftrightarrow> y = x \<or> (run_snapshot y = run_snapshot x \<and> \<not> terminal (r_state x)
     \<and> run_rank (r_state x) < run_rank (r_state y))"

lemma terminal_iff: "terminal s \<longleftrightarrow> run_rank s = 3"
  by (cases s) auto

lemma run_rank_le: "run_rank s \<le> 3"
  by (cases s) auto

lemma active_run_iff: "active_run x \<longleftrightarrow> \<not> terminal (r_state x)"
  by (cases "r_state x") (auto simp: active_run_def)

interpretation runs: ledger_table run_moves "\<lambda>x. terminal (r_state x)" scheduled_task_runs
  by unfold_locales (auto simp: run_moves_def)

abbreviation runs_rel :: "world \<Rightarrow> world \<Rightarrow> bool" where
  "runs_rel w w' \<equiv> evolves run_moves (scheduled_task_runs w) (scheduled_task_runs w')"

lemma runs_rel_same: "scheduled_task_runs w' = scheduled_task_runs w \<Longrightarrow> runs_rel w w'"
  by (simp add: runs.evolves_refl)

lemma runs_rel_insert: "preserves runs_rel (insert_run x)"
  by (rule preservesI) (simp add: insert_run_def runs.evolves_refl runs.evolves_append)

lemma runs_rel_update: "(\<And>x. p x \<Longrightarrow> run_moves x (f x)) \<Longrightarrow> preserves runs_rel (update_runs p f)"
  by (rule preservesI) (simp add: update_runs_def runs.evolves_update)

lemma runs_rel_tasks: "preserves runs_rel (update_tasks p f)" "preserves runs_rel (insert_task t)"
    "preserves runs_rel (advance_task i v s n m)"
  by (rule preservesI, simp add: update_tasks_def insert_task_def advance_task_def runs.evolves_refl)+

lemmas runs_rel_intros = runs.tab.preserves_intros runs.tab.preserves_exec runs_rel_insert runs_rel_tasks

lemma runs_rel_exec_update:
  assumes "\<And>w x. p w x \<Longrightarrow> run_moves x (f w x)"
  shows "preserves runs_rel (exec (\<lambda>w. update_runs (p w) (f w) w))"
  by (rule runs.tab.preserves_exec, rule preservesI)
    (use assms in \<open>simp add: update_runs_def runs.evolves_update\<close>)

lemma preserves_ClaimDue: "preserves runs_rel (ClaimDue r now i k gen raw c)"
  unfolding ClaimDue_def claimDueTx_def Let_def by (intro runs_rel_intros)

lemma preserves_SkipMisfire: "preserves runs_rel (SkipMisfire r i due now)"
  unfolding SkipMisfire_def skipMisfireTx_def Let_def by (intro runs_rel_intros)

lemma preserves_FailRouteRevoked: "preserves runs_rel (FailRouteRevoked r i due now)"
  unfolding FailRouteRevoked_def failRouteRevokedTx_def Let_def by (intro runs_rel_intros)

lemma runs_rel_exec_static:
  "(\<And>x. p x \<Longrightarrow> run_moves x (f x)) \<Longrightarrow> preserves runs_rel (exec (update_runs p f))"
  using runs_rel_exec_update [of "\<lambda>_. p" "\<lambda>_. f"] by simp

lemma active_run_moves:
  "active_run x \<Longrightarrow> run_snapshot y = run_snapshot x \<Longrightarrow> terminal (r_state y) \<Longrightarrow> run_moves x y"
  using run_rank_le [of "r_state x"] by (auto simp: run_moves_def active_run_iff terminal_iff)

lemma preserves_MarkRunQueued: "preserves runs_rel (MarkRunQueued r i k)"
  unfolding MarkRunQueued_def
  by (intro runs.tab.preserves_intros runs_rel_exec_static) (auto simp: run_moves_def run_snapshot_def)

lemma preserves_MarkRunRunning: "preserves runs_rel (MarkRunRunning r now i k l)"
  unfolding MarkRunRunning_def
  by (intro runs.tab.preserves_intros runs_rel_exec_static) (auto simp: run_moves_def run_snapshot_def)

lemma preserves_CompleteRun: "preserves runs_rel (CompleteRun r now c)"
proof (cases "terminal (Done_State c)")
  case True
  then show ?thesis unfolding CompleteRun_def
    by (intro runs.tab.preserves_intros runs_rel_exec_static) (auto intro!: active_run_moves simp: run_snapshot_def)
qed (simp add: CompleteRun_def runs.tab.preserves_fail)

lemma preserves_CompleteScriptRun: "preserves runs_rel (CompleteScriptRun r now c md)"
proof (cases "terminal (Done_State c)")
  case True
  then show ?thesis unfolding CompleteScriptRun_def
    by (intro runs.tab.preserves_intros runs_rel_exec_static) (auto intro!: active_run_moves simp: run_snapshot_def)
qed (simp add: CompleteScriptRun_def runs.tab.preserves_fail)

lemma preserves_ReconcileInterruptedRuns: "preserves runs_rel (ReconcileInterruptedRuns r now)"
  unfolding ReconcileInterruptedRuns_def
  by (intro runs.tab.preserves_intros runs_rel_exec_static) (auto intro!: active_run_moves simp: run_snapshot_def)

lemma preserves_Store_MarkScheduledRunning: "preserves runs_rel (Store_MarkScheduledRunning i k)"
  unfolding Store_MarkScheduledRunning_def
  by (intro runs.tab.preserves_intros runs_rel_exec_update) (auto simp: run_moves_def run_snapshot_def)

lemma preserves_Store_CompleteScheduledRun: "preserves runs_rel (Store_CompleteScheduledRun i k b code n)"
  unfolding Store_CompleteScheduledRun_def
  by (intro runs.tab.preserves_intros runs_rel_exec_update)
    (auto intro!: active_run_moves simp: run_snapshot_def active_run_def)

lemma preserves_LoadPromptRoute: "preserves runs_rel (LoadPromptRoute r run)"
  unfolding LoadPromptRoute_def by (intro runs.tab.preserves_intros)

lemmas preserves_run_ops = preserves_ClaimDue preserves_SkipMisfire preserves_FailRouteRevoked
  preserves_MarkRunQueued preserves_MarkRunRunning preserves_CompleteRun preserves_CompleteScriptRun
  preserves_ReconcileInterruptedRuns preserves_Store_MarkScheduledRunning
  preserves_Store_CompleteScheduledRun preserves_LoadPromptRoute

section \<open>Unique slots\<close>

text \<open>The unique keys of the table hold: ids and (task, slot) pairs do not repeat.\<close>

definition runs_unique :: "run_row list \<Rightarrow> bool" where
  "runs_unique rows \<longleftrightarrow> distinct (map r_id rows) \<and> distinct (map (\<lambda>x. (r_task_id x, r_scheduled_for x)) rows)"

interpretation slots: world_invariant "\<lambda>w. runs_unique (scheduled_task_runs w)"
  by unfold_locales simp

abbreviation slots_rel :: "world \<Rightarrow> world \<Rightarrow> bool" where
  "slots_rel w w' \<equiv> runs_unique (scheduled_task_runs w) \<longrightarrow> runs_unique (scheduled_task_runs w')"

lemma slots_insert: "preserves slots_rel (insert_run x)"
  by (rule preservesI) (auto simp: insert_run_def runs_unique_def sql_conflict_def run_clash_def)

lemma slots_update:
  assumes "\<And>x. run_snapshot (f x) = run_snapshot x"
  shows "preserves slots_rel (update_runs p f)"
proof (rule preservesI)
  fix w
  have "r_id (f x) = r_id x" "r_task_id (f x) = r_task_id x" "r_scheduled_for (f x) = r_scheduled_for x" for x
    using assms [of x] by (simp_all add: run_snapshot_def)
  then have "runs_unique (sql_update p f rows) = runs_unique rows" for rows
    unfolding runs_unique_def by (simp add: map_sql_update)
  then show "slots_rel w (snd (update_runs p f w))" by (simp add: update_runs_def)
qed

lemma slots_tasks: "preserves slots_rel (update_tasks p f)" "preserves slots_rel (insert_task t)"
    "preserves slots_rel (advance_task i v s n m)"
  by (rule preservesI, simp add: update_tasks_def insert_task_def advance_task_def)+

lemma slots_exec_update:
  assumes "\<And>w x. run_snapshot (f w x) = run_snapshot x"
  shows "preserves slots_rel (exec (\<lambda>w. update_runs (p w) (f w) w))"
proof (rule slots.inv_rel.preserves_exec, rule preservesI)
  fix w show "slots_rel w (snd (update_runs (p w) (f w) w))"
    using preservesD [OF slots_update [of "f w" "p w"], of w] assms by blast
qed

lemma slots_exec_static:
  "(\<And>x. run_snapshot (f x) = run_snapshot x) \<Longrightarrow> preserves slots_rel (exec (update_runs p f))"
  using slots_exec_update [of "\<lambda>_. f" "\<lambda>_. p"] by simp

lemmas slots_intros = slots.inv_rel.preserves_intros slots.inv_rel.preserves_exec slots_insert slots_tasks
lemmas slots_update_intros = slots.inv_rel.preserves_intros slots_exec_static slots_exec_update

lemma slots_due_ops:
  "preserves slots_rel (ClaimDue r now i k gen raw c)" "preserves slots_rel (SkipMisfire r i due now)"
  "preserves slots_rel (FailRouteRevoked r i due now)" "preserves slots_rel (LoadPromptRoute r run)"
  unfolding ClaimDue_def SkipMisfire_def FailRouteRevoked_def claimDueTx_def skipMisfireTx_def
    failRouteRevokedTx_def LoadPromptRoute_def Let_def
  by (intro slots_intros)+

lemma slots_transitions:
  "preserves slots_rel (MarkRunQueued r i k)" "preserves slots_rel (CompleteRun r now c)"
  "preserves slots_rel (CompleteScriptRun r now c md)" "preserves slots_rel (MarkRunRunning r now i k l)"
  "preserves slots_rel (ReconcileInterruptedRuns r now)" "preserves slots_rel (Store_MarkScheduledRunning i k)"
  "preserves slots_rel (Store_CompleteScheduledRun i k b code n)"
  unfolding MarkRunQueued_def CompleteRun_def CompleteScriptRun_def MarkRunRunning_def
    ReconcileInterruptedRuns_def Store_MarkScheduledRunning_def Store_CompleteScheduledRun_def
  by (intro slots_update_intros; simp add: run_snapshot_def)+

lemmas slots_run_ops = slots_due_ops slots_transitions

section \<open>What a claim does\<close>

text \<open>The row and the answer of a claim of slot \<open>slot\<close> of task \<open>t\<close>.\<close>

definition claim_row :: "go_time \<Rightarrow> string \<Rightarrow> string \<Rightarrow> string \<Rightarrow> DueClaim \<Rightarrow> task_row \<Rightarrow> run_row" where
  "claim_row now runID token trace claim t =
     (new_run runID (Some trace) (Claim_TaskID claim) (Claim_ObservedSlot claim) t RunClaimed)
       \<lparr>r_claim_token := Some token,
        r_lease_until := Some (now + (if Claim_Lease claim \<le> 0 then 30000 else Claim_Lease claim))\<rparr>"

text \<open>A slot was consumed: one row was appended to the runs and the task moved on to its next slot.\<close>

definition consumed :: "Repository \<Rightarrow> string \<Rightarrow> go_time \<Rightarrow> go_time \<Rightarrow> go_time \<Rightarrow> run_row \<Rightarrow> world \<Rightarrow> world \<Rightarrow> bool" where
  "consumed r taskID slot from now x w w' \<longleftrightarrow> (\<exists>t a g cron.
     joined_task taskID w = Some (t, a, g) \<and> t_enabled t \<and> t_next_run_at t = Some slot
     \<and> ParseCron r (t_cron t) = Inr cron \<and> \<not> is_zero_time (cron from)
     \<and> \<not> sql_conflict run_clash x (scheduled_task_runs w)
     \<and> r_task_id x = taskID \<and> r_scheduled_for x = slot \<and> r_task_version x = t_version t
     \<and> r_kind x = t_kind t \<and> r_silent x = t_silent t \<and> r_payload x = t_payload t
     \<and> quiet w' = (quiet w)\<lparr>scheduled_task_runs := scheduled_task_runs w @ [x],
          scheduled_tasks := sql_update
            (\<lambda>t'. t_id t' = taskID \<and> t_version t' = t_version t \<and> t_next_run_at t' = Some slot)
            (touch_task (clock w) (\<lambda>t'. t'\<lparr>t_next_run_at := Some (cron from), t_last_run_at := Some now\<rparr>))
            (scheduled_tasks w)\<rparr>)"

lemma joined_task_pop [simp]: "joined_task i (pop_fault w) = joined_task i w"
  unfolding joined_task_def pop_fault_simps by (rule refl)

lemma consumed_pop: "consumed r i s f n x (pop_fault w) w' \<longleftrightarrow> consumed r i s f n x w w'"
  unfolding consumed_def joined_task_def pop_fault_simps quiet_pop_fault by (rule refl)

lemma consumed_quiet: "quiet w' = quiet w'' \<Longrightarrow> consumed r i s f n x w w' \<longleftrightarrow> consumed r i s f n x w w''"
  by (simp add: consumed_def)

lemma consumed_runs: "consumed r i s f n x w w' \<Longrightarrow> scheduled_task_runs w' = scheduled_task_runs w @ [x]"
  unfolding consumed_def by (elim exE conjE, drule arg_cong [of _ _ scheduled_task_runs]) simp

lemma consume_Inr:
  assumes "and_then (exec (insert_run x)) e1 (\<lambda>_. and_then (exec (advance_task i v s n now)) e2
      (\<lambda>c. if c \<noteq> 1 then fail e3 else ret y)) w = (Inr y', w')"
  shows "y' = y" "\<not> sql_conflict run_clash x (scheduled_task_runs w)"
    "quiet w' = (quiet w)\<lparr>scheduled_task_runs := scheduled_task_runs w @ [x],
        scheduled_tasks := sql_update
          (\<lambda>t'. t_id t' = i \<and> t_version t' = v \<and> t_next_run_at t' = Some s)
          (touch_task (clock w) (\<lambda>t'. t'\<lparr>t_next_run_at := Some n, t_last_run_at := Some now\<rparr>))
          (scheduled_tasks w)\<rparr>"
proof -
  from assms have c: "\<not> sql_conflict run_clash x (scheduled_task_runs w)"
    by (auto simp: op_Inr insert_run_def split: if_splits)
  with assms show "y' = y" "\<not> sql_conflict run_clash x (scheduled_task_runs w)"
    "quiet w' = (quiet w)\<lparr>scheduled_task_runs := scheduled_task_runs w @ [x],
        scheduled_tasks := sql_update
          (\<lambda>t'. t_id t' = i \<and> t_version t' = v \<and> t_next_run_at t' = Some s)
          (touch_task (clock w) (\<lambda>t'. t'\<lparr>t_next_run_at := Some n, t_last_run_at := Some now\<rparr>))
          (scheduled_tasks w)\<rparr>"
    by (auto simp: op_Inr insert_run_def advance_task_def update_tasks_def)
qed

lemma claimDueTx_Inr:
  assumes "claimDueTx r now runID token gen raw lease claim w = (Inr (cw, run), w')"
    and "lease = (if Claim_Lease claim \<le> 0 then 30000 else Claim_Lease claim)"
  obtains t a g trace where "newTraceID gen raw = Inr trace" "joined_task (Claim_TaskID claim) w = Some (t, a, g)"
    "a_enabled a" "g_schedule_enabled g" "t_version t = Claim_ObservedVersion claim"
    "consumed r (Claim_TaskID claim) (Claim_ObservedSlot claim) (Claim_ObservedSlot claim) now
       (claim_row now runID token trace claim t) w w'"
    "run = \<lparr>Run_ID = runID, Run_TraceID = trace, Run_TaskID = Claim_TaskID claim, Run_AppID = t_app_id t,
       Run_ChatGroupID = t_chat_group_id t, Run_ClaimToken = token, Run_TaskVersion = t_version t,
       Run_Kind = t_kind t, Run_Silent = t_silent t, Run_ScheduledFor = Claim_ObservedSlot claim,
       Run_LeaseUntil = now + lease, Run_Payload = t_payload t\<rparr>"
proof -
  from assms(1) obtain t a g cron trace where
    j: "joined_task (Claim_TaskID claim) (pop_fault w) = Some (t, a, g)"
    and guards: "t_enabled t" "a_enabled a" "g_schedule_enabled g" "t_version t = Claim_ObservedVersion claim"
      "t_next_run_at t = Some (Claim_ObservedSlot claim)"
    and cron: "ParseCron r (t_cron t) = Inr cron" "\<not> is_zero_time (cron (Claim_ObservedSlot claim))"
    and trace: "newTraceID gen raw = Inr trace"
    and rest: "and_then (exec (insert_run ((new_run runID (Some trace) (Claim_TaskID claim)
                           (Claim_ObservedSlot claim) t RunClaimed)
                          \<lparr>r_claim_token := Some token, r_lease_until := Some (now + lease)\<rparr>)))
        (Wrapf ''insert scheduled task run claim'')
        (\<lambda>_. and_then (exec (advance_task (Claim_TaskID claim) (t_version t) (Claim_ObservedSlot claim)
              (cron (Claim_ObservedSlot claim)) now)) (Wrapf ''advance scheduled task after claim'')
          (\<lambda>changed. if changed \<noteq> 1 then fail ErrDueClaimConflict
             else ret (Wrapf ''commit schedule due claim'',
               \<lparr>Run_ID = runID, Run_TraceID = trace, Run_TaskID = Claim_TaskID claim, Run_AppID = t_app_id t,
                Run_ChatGroupID = t_chat_group_id t, Run_ClaimToken = token, Run_TaskVersion = t_version t,
                Run_Kind = t_kind t, Run_Silent = t_silent t, Run_ScheduledFor = Claim_ObservedSlot claim,
                Run_LeaseUntil = now + lease, Run_Payload = t_payload t\<rparr>))) (pop_fault w) = (Inr (cw, run), w')"
    unfolding claimDueTx_def Let_def and_then_Inr_iff [of "query _"] query_Inr_iff case_option_Inr_iff
      split_paired_Ex prod.case guard_Inr_iff case_sum_Inr_iff by blast
  note c = consume_Inr [OF rest]
  have j': "joined_task (Claim_TaskID claim) w = Some (t, a, g)" using j by simp
  show thesis
  proof (rule that [OF trace j' guards(2,3,4)])
    show "consumed r (Claim_TaskID claim) (Claim_ObservedSlot claim) (Claim_ObservedSlot claim) now
       (claim_row now runID token trace claim t) w w'"
      unfolding consumed_def using j' guards cron c(2,3) assms(2)
      by (intro exI [of _ t] exI [of _ a] exI [of _ g] exI [of _ cron]) (simp add: claim_row_def new_run_def)
  qed (use c(1) in simp)
qed

text \<open>The rows written for a slot that is not executed.\<close>

definition misfire_row :: "string \<Rightarrow> DueTask \<Rightarrow> go_time \<Rightarrow> task_row \<Rightarrow> run_row" where
  "misfire_row runID due now t = (new_run runID None (Due_ID due) (Due_NextRunAt due) t RunSkipped)
     \<lparr>r_error_code := Some ''skipped_misfire'', r_completed_at := Some now\<rparr>"

definition revoked_row :: "string \<Rightarrow> DueTask \<Rightarrow> go_time \<Rightarrow> task_row \<Rightarrow> run_row" where
  "revoked_row runID due now t = (new_run runID None (Due_ID due) (Due_NextRunAt due) t RunFailed)
     \<lparr>r_error_code := Some ''failed_route_revoked'', r_completed_at := Some now\<rparr>"

lemma skipMisfireTx_Inr:
  assumes "skipMisfireTx r runID due now w = (Inr (cw, u), w')"
  obtains t a g where "joined_task (Due_ID due) w = Some (t, a, g)" "a_enabled a \<and> g_schedule_enabled g"
    "consumed r (Due_ID due) (Due_NextRunAt due) now now (misfire_row runID due now t) w w'"
proof -
  from assms obtain t a g cron where
    j: "joined_task (Due_ID due) (pop_fault w) = Some (t, a, g)"
    and guards: "t_enabled t" "a_enabled a" "g_schedule_enabled g" "t_next_run_at t = Some (Due_NextRunAt due)"
    and cron: "ParseCron r (t_cron t) = Inr cron" "\<not> is_zero_time (cron now)"
    and rest: "and_then (exec (insert_run ((new_run runID None (Due_ID due) (Due_NextRunAt due) t RunSkipped)
                     \<lparr>r_error_code := Some ''skipped_misfire'', r_completed_at := Some now\<rparr>)))
        (Wrapf ''insert skipped schedule run'')
        (\<lambda>_. and_then (exec (advance_task (Due_ID due) (t_version t) (Due_NextRunAt due) (cron now) now))
          (Wrapf ''advance skipped schedule task'')
          (\<lambda>count. if count \<noteq> 1 then fail ErrDueClaimConflict
             else ret (Wrapf ''commit schedule misfire'', ()))) (pop_fault w) = (Inr (cw, u), w')"
    unfolding skipMisfireTx_def Let_def and_then_Inr_iff [of "query _"] query_Inr_iff case_option_Inr_iff
      split_paired_Ex prod.case guard_Inr_iff case_sum_Inr_iff by blast
  note c = consume_Inr [OF rest]
  show thesis
  proof (rule that [of t a g])
    show "consumed r (Due_ID due) (Due_NextRunAt due) now now (misfire_row runID due now t) w w'"
      unfolding consumed_def using j guards cron c(2,3)
      by (intro exI [of _ t] exI [of _ a] exI [of _ g] exI [of _ cron]) (simp add: misfire_row_def new_run_def)
  qed (use j guards in simp_all)
qed

lemma failRouteRevokedTx_Inr:
  assumes "failRouteRevokedTx r runID due now w = (Inr (cw, u), w')"
  obtains t a g where "joined_task (Due_ID due) w = Some (t, a, g)" "\<not> (a_enabled a \<and> g_schedule_enabled g)"
    "consumed r (Due_ID due) (Due_NextRunAt due) now now (revoked_row runID due now t) w w'"
proof -
  from assms obtain t a g cron where
    j: "joined_task (Due_ID due) (pop_fault w) = Some (t, a, g)"
    and guards: "t_enabled t" "\<not> (a_enabled a \<and> g_schedule_enabled g)" "t_next_run_at t = Some (Due_NextRunAt due)"
    and cron: "ParseCron r (t_cron t) = Inr cron" "\<not> is_zero_time (cron now)"
    and rest: "and_then (exec (insert_run ((new_run runID None (Due_ID due) (Due_NextRunAt due) t RunFailed)
                     \<lparr>r_error_code := Some ''failed_route_revoked'', r_completed_at := Some now\<rparr>)))
        (Wrapf ''insert route revoked schedule run'')
        (\<lambda>_. and_then (exec (advance_task (Due_ID due) (t_version t) (Due_NextRunAt due) (cron now) now))
          (Wrapf ''advance route revoked schedule task'')
          (\<lambda>count. if count \<noteq> 1 then fail ErrDueClaimConflict
             else ret (Wrapf ''commit schedule route revoke'', ()))) (pop_fault w) = (Inr (cw, u), w')"
    unfolding failRouteRevokedTx_def Let_def and_then_Inr_iff [of "query _"] query_Inr_iff case_option_Inr_iff
      split_paired_Ex prod.case guard_Inr_iff case_sum_Inr_iff by blast
  note c = consume_Inr [OF rest]
  show thesis
  proof (rule that [of t a g])
    show "consumed r (Due_ID due) (Due_NextRunAt due) now now (revoked_row runID due now t) w w'"
      unfolding consumed_def using j guards cron c(2,3)
      by (intro exI [of _ t] exI [of _ a] exI [of _ g] exI [of _ cron]) (simp add: revoked_row_def new_run_def)
  qed (use j guards in simp_all)
qed

text \<open>What the three due-slot operations may have done to the world.\<close>

definition claimed :: "Repository \<Rightarrow> go_time \<Rightarrow> string \<Rightarrow> string \<Rightarrow> string \<Rightarrow> DueClaim \<Rightarrow> world \<Rightarrow> world \<Rightarrow> ClaimedRun \<Rightarrow> bool" where
  "claimed r now runID token trace claim w w' run \<longleftrightarrow> (\<exists>t a g.
     joined_task (Claim_TaskID claim) w = Some (t, a, g) \<and> a_enabled a \<and> g_schedule_enabled g
     \<and> t_version t = Claim_ObservedVersion claim
     \<and> consumed r (Claim_TaskID claim) (Claim_ObservedSlot claim) (Claim_ObservedSlot claim) now
          (claim_row now runID token trace claim t) w w'
     \<and> run = \<lparr>Run_ID = runID, Run_TraceID = trace, Run_TaskID = Claim_TaskID claim, Run_AppID = t_app_id t,
       Run_ChatGroupID = t_chat_group_id t, Run_ClaimToken = token, Run_TaskVersion = t_version t,
       Run_Kind = t_kind t, Run_Silent = t_silent t, Run_ScheduledFor = Claim_ObservedSlot claim,
       Run_LeaseUntil = now + (if Claim_Lease claim \<le> 0 then 30000 else Claim_Lease claim),
       Run_Payload = t_payload t\<rparr>)"

lemma ClaimDue_cases:
  obtains (unchanged) e where "fst (ClaimDue r now runID token gen raw claim w) = Inl e"
      "quiet (snd (ClaimDue r now runID token gen raw claim w)) = quiet w"
  | (committed) trace run where "newTraceID gen raw = Inr trace"
      "claimed r now runID token trace claim w (snd (ClaimDue r now runID token gen raw claim w)) run"
      "fst (ClaimDue r now runID token gen raw claim w) = Inr run
       \<or> (\<exists>e. fst (ClaimDue r now runID token gen raw claim w) = Inl e)"
proof (cases "\<not> has_DB r \<or> trim_space (Claim_TaskID claim) = [] \<or> Claim_ObservedVersion claim = 0
          \<or> is_zero_time (Claim_ObservedSlot claim)")
  case True
  then have "\<exists>e. ClaimDue r now runID token gen raw claim w = (Inl e, w)" by (auto simp: ClaimDue_def fail_def)
  then show thesis using unchanged by auto
next
  case False
  define lease where "lease = (if Claim_Lease claim \<le> 0 then 30000 else Claim_Lease claim)"
  have eq: "ClaimDue r now runID token gen raw claim
    = transaction (Wrapf ''begin schedule due claim'') (claimDueTx r now runID token gen raw lease claim)"
    using False by (simp add: ClaimDue_def lease_def)
  show thesis
  proof (cases rule: transaction_cases [of "Wrapf ''begin schedule due claim''" "claimDueTx r now runID token gen raw lease claim" w])
    case (unchanged e)
    then show thesis using that(1) by (simp add: eq)
  next
    case (committed cw run w2)
    from committed(1) lease_def show thesis
    proof (rule claimDueTx_Inr)
      fix t a g trace
      assume "newTraceID gen raw = Inr trace" "joined_task (Claim_TaskID claim) (pop_fault w) = Some (t, a, g)"
        "a_enabled a" "g_schedule_enabled g" "t_version t = Claim_ObservedVersion claim"
        and c: "consumed r (Claim_TaskID claim) (Claim_ObservedSlot claim) (Claim_ObservedSlot claim) now
          (claim_row now runID token trace claim t) (pop_fault w) w2"
        and "run = \<lparr>Run_ID = runID, Run_TraceID = trace, Run_TaskID = Claim_TaskID claim, Run_AppID = t_app_id t,
          Run_ChatGroupID = t_chat_group_id t, Run_ClaimToken = token, Run_TaskVersion = t_version t,
          Run_Kind = t_kind t, Run_Silent = t_silent t, Run_ScheduledFor = Claim_ObservedSlot claim,
          Run_LeaseUntil = now + lease, Run_Payload = t_payload t\<rparr>"
      then show thesis using committed(2,3) c consumed_quiet [OF committed(2)]
        by (intro that(2) [of trace run]) (auto simp: eq claimed_def lease_def consumed_pop)
    qed
  qed
qed

lemma SkipMisfire_cases:
  obtains (unchanged) e where "fst (SkipMisfire r runID due now w) = Inl e"
      "quiet (snd (SkipMisfire r runID due now w)) = quiet w"
  | (committed) t a g where "joined_task (Due_ID due) w = Some (t, a, g)" "a_enabled a \<and> g_schedule_enabled g"
      "consumed r (Due_ID due) (Due_NextRunAt due) now now (misfire_row runID due now t) w
         (snd (SkipMisfire r runID due now w))"
proof (cases "\<not> has_DB r \<or> trim_space (Due_ID due) = [] \<or> Due_Version due = 0 \<or> is_zero_time (Due_NextRunAt due) \<or> is_zero_time now")
  case True
  then have "\<exists>e. SkipMisfire r runID due now w = (Inl e, w)" by (auto simp: SkipMisfire_def fail_def)
  then show thesis using unchanged by auto
next
  case False
  then have eq: "SkipMisfire r runID due now
    = transaction (Wrapf ''begin schedule misfire'') (skipMisfireTx r runID due now)"
    by (simp add: SkipMisfire_def)
  show thesis
  proof (cases rule: transaction_cases [of "Wrapf ''begin schedule misfire''" "skipMisfireTx r runID due now" w])
    case (unchanged e)
    then show thesis using that(1) by (simp add: eq)
  next
    case (committed cw u w2)
    from committed(1) show thesis
      by (rule skipMisfireTx_Inr) (use committed(2) consumed_quiet [OF committed(2)] in \<open>auto intro: that(2) simp: eq consumed_pop\<close>)
  qed
qed

lemma FailRouteRevoked_cases:
  obtains (unchanged) e where "fst (FailRouteRevoked r runID due now w) = Inl e"
      "quiet (snd (FailRouteRevoked r runID due now w)) = quiet w"
  | (committed) t a g where "joined_task (Due_ID due) w = Some (t, a, g)" "\<not> (a_enabled a \<and> g_schedule_enabled g)"
      "consumed r (Due_ID due) (Due_NextRunAt due) now now (revoked_row runID due now t) w
         (snd (FailRouteRevoked r runID due now w))"
proof (cases "\<not> has_DB r \<or> trim_space (Due_ID due) = [] \<or> Due_Version due = 0 \<or> is_zero_time (Due_NextRunAt due) \<or> is_zero_time now")
  case True
  then have "\<exists>e. FailRouteRevoked r runID due now w = (Inl e, w)" by (auto simp: FailRouteRevoked_def fail_def)
  then show thesis using unchanged by auto
next
  case False
  then have eq: "FailRouteRevoked r runID due now
    = transaction (Wrapf ''begin schedule route revoke'') (failRouteRevokedTx r runID due now)"
    by (simp add: FailRouteRevoked_def)
  show thesis
  proof (cases rule: transaction_cases [of "Wrapf ''begin schedule route revoke''" "failRouteRevokedTx r runID due now" w])
    case (unchanged e)
    then show thesis using that(1) by (simp add: eq)
  next
    case (committed cw u w2)
    from committed(1) show thesis
      by (rule failRouteRevokedTx_Inr) (use committed(2) consumed_quiet [OF committed(2)] in \<open>auto intro: that(2) simp: eq consumed_pop\<close>)
  qed
qed

section \<open>Conditional transitions\<close>

text \<open>
  A completion takes effect exactly when the claim is still active: with unique run ids and a working
  connection it succeeds iff a row with that id and claim token is in an active state; otherwise it answers
  \<open>ErrRunClaimLost\<close> and changes nothing.
\<close>

lemma CompleteRun_exact:
  assumes "faults w = []" and "has_DB r" and "distinct (map r_id (scheduled_task_runs w))"
    and "trim_space (Done_RunID c) \<noteq> []" and "trim_space (Done_ClaimToken c) \<noteq> []" and "terminal (Done_State c)"
    and "Done_State c = RunSucceeded \<longrightarrow> Done_ErrorCode c = []" and "0 \<le> Done_DurationMS c"
  shows "CompleteRun r now c w =
    (if \<exists>x \<in> set (scheduled_task_runs w). r_id x = Done_RunID c \<and> r_claim_token x = Some (Done_ClaimToken c) \<and> active_run x
     then (Inr (), w\<lparr>scheduled_task_runs := map (\<lambda>x. if r_id x = Done_RunID c
       then x\<lparr>r_state := Done_State c, r_error_code := nullable (Done_ErrorCode c), r_lease_until := None,
              r_completed_at := Some now, r_duration_ms := Some (completion_duration now c),
              r_thread_id := coalesce (nullable (Done_ThreadID c)) (r_thread_id x),
              r_turn_id := coalesce (nullable (Done_TurnID c)) (r_turn_id x)\<rparr> else x) (scheduled_task_runs w)\<rparr>)
     else (Inl ErrRunClaimLost, w))"
proof -
  let ?p = "\<lambda>x. r_id x = Done_RunID c \<and> r_claim_token x = Some (Done_ClaimToken c) \<and> active_run x"
  let ?f = "\<lambda>x. x\<lparr>r_state := Done_State c, r_error_code := nullable (Done_ErrorCode c), r_lease_until := None,
              r_completed_at := Some now, r_duration_ms := Some (completion_duration now c),
              r_thread_id := coalesce (nullable (Done_ThreadID c)) (r_thread_id x),
              r_turn_id := coalesce (nullable (Done_TurnID c)) (r_turn_id x)\<rparr>"
  have "r_state (?f x) \<noteq> r_state x" if "?p x" for x using that assms(6) by (auto simp: active_run_iff)
  then have "?f x \<noteq> x" if "?p x" for x using that by metis
  then have aff: "sql_affected ?p ?f (scheduled_task_runs w) = (if \<exists>x \<in> set (scheduled_task_runs w). ?p x then 1 else 0)"
    by (intro sql_affected_key [OF assms(3), of _ "Done_RunID c"]) auto
  have upd: "sql_update ?p ?f (scheduled_task_runs w) = map (\<lambda>x. if r_id x = Done_RunID c then ?f x else x) (scheduled_task_runs w)"
    if "\<exists>x \<in> set (scheduled_task_runs w). ?p x"
    using that by (elim bexE) (rule sql_update_key [OF assms(3)], auto)
  have run: "CompleteRun r now c w = (case update_runs ?p ?f w of (Inl e, w1) \<Rightarrow> (Inl (Wrapf ''complete scheduled task run'' e), w1)
     | (Inr n, w1) \<Rightarrow> (if n \<noteq> 1 then fail ErrRunClaimLost else ret ()) w1)"
    using assms by (cases "Done_State c = RunSucceeded") (simp_all add: CompleteRun_def and_then_def del: One_nat_def)
  show ?thesis
  proof (cases "\<exists>x \<in> set (scheduled_task_runs w). ?p x")
    case True
    then show ?thesis unfolding run update_runs_def using upd [OF True] aff by (simp add: op_defs)
  next
    case False
    then have "sql_update ?p ?f (scheduled_task_runs w) = scheduled_task_runs w"
      by (intro sql_update_id) auto
    then show ?thesis unfolding run update_runs_def if_not_P [OF False]
      using aff [unfolded if_not_P [OF False]] by (simp add: op_defs)
  qed
qed

section \<open>A concrete setting for runs\<close>

definition ex_claim :: DueClaim where
  "ex_claim = \<lparr>Claim_TaskID = ''t1'', Claim_ObservedVersion = 1, Claim_ObservedSlot = 60000, Claim_Lease = 0\<rparr>"

definition ex_raw :: "string res" where
  "ex_raw = Inr (replicate 16 CHR ''x'')"

lemma ex_claim_simps [simp]:
  "Claim_TaskID ex_claim = ''t1''" "Claim_ObservedVersion ex_claim = 1" "Claim_ObservedSlot ex_claim = 60000"
  "Claim_Lease ex_claim = 0"
  by (simp_all add: ex_claim_def)

lemma ex_joined: "joined_task ''t1'' ex_world = Some (ex_task ''t1'', ex_app, ex_group)"
  by (simp add: joined_task_def)

lemma ex_claim_ok: "\<exists>run w'. ClaimDue ex_repo 61000 ''run1'' ''tok1'' None ex_raw ex_claim ex_world = (Inr run, w')
    \<and> faults w' = [] \<and> map r_id (scheduled_task_runs w') = [''run1''] \<and> map r_state (scheduled_task_runs w') = [RunClaimed]
    \<and> map r_claim_token (scheduled_task_runs w') = [Some ''tok1'']"
  by (simp add: ClaimDue_def transaction_def claimDueTx_def op_defs Let_def ex_joined trim_eval is_zero_time_def
      zero_time_def newTraceID_def ex_raw_def insert_run_def sql_conflict_def advance_task_def update_tasks_def
      sql_affected_def new_run_def) (simp add: ex_task_def)

section \<open>Properties of the run store\<close>

text \<open>
  C4: Claiming a due slot is atomic. Whatever faults the connection has, the claim either changed no table
  and answered an error, or it found the task enabled on an enabled route with the observed version and
  slot, appended exactly one claimed run (whose slot and id were free) carrying the snapshot of version,
  kind, silence and payload, and moved the task to the cron occurrence after the claimed slot; when it
  answers a run, it is that snapshot.
\<close>

theorem claim_due_atomic:
  "(\<exists>e. fst (ClaimDue r now runID token gen raw claim w) = Inl e
      \<and> quiet (snd (ClaimDue r now runID token gen raw claim w)) = quiet w)
   \<or> (\<exists>trace run. newTraceID gen raw = Inr trace
      \<and> claimed r now runID token trace claim w (snd (ClaimDue r now runID token gen raw claim w)) run
      \<and> (fst (ClaimDue r now runID token gen raw claim w) = Inr run
         \<or> (\<exists>e. fst (ClaimDue r now runID token gen raw claim w) = Inl e)))"
  by (cases rule: ClaimDue_cases [of r now runID token gen raw claim w]) auto

text \<open>
  A missed or revoked slot never becomes dispatchable. Skipping a misfire and failing a revoked route
  are atomic too; what they append is a run in a terminal state without claim token or lease, so no
  transition that presents a token can ever move it, and the task continues at the first occurrence after
  the current time. The misfire path requires an enabled route, the revoke path a disabled one.
\<close>

lemma unexecuted_slots_terminal:
  "(quiet (snd (SkipMisfire r runID due now w)) = quiet w
      \<or> (\<exists>t a g. joined_task (Due_ID due) w = Some (t, a, g) \<and> a_enabled a \<and> g_schedule_enabled g
          \<and> consumed r (Due_ID due) (Due_NextRunAt due) now now (misfire_row runID due now t) w
              (snd (SkipMisfire r runID due now w))))
   \<and> (quiet (snd (FailRouteRevoked r runID due now w)) = quiet w
      \<or> (\<exists>t a g. joined_task (Due_ID due) w = Some (t, a, g) \<and> \<not> (a_enabled a \<and> g_schedule_enabled g)
          \<and> consumed r (Due_ID due) (Due_NextRunAt due) now now (revoked_row runID due now t) w
              (snd (FailRouteRevoked r runID due now w))))
   \<and> terminal (r_state (misfire_row runID due now t)) \<and> terminal (r_state (revoked_row runID due now t))
   \<and> r_claim_token (misfire_row runID due now t) = None \<and> r_claim_token (revoked_row runID due now t) = None
   \<and> r_lease_until (misfire_row runID due now t) = None \<and> r_lease_until (revoked_row runID due now t) = None"
proof (intro conjI)
  show "quiet (snd (SkipMisfire r runID due now w)) = quiet w
      \<or> (\<exists>t a g. joined_task (Due_ID due) w = Some (t, a, g) \<and> a_enabled a \<and> g_schedule_enabled g
          \<and> consumed r (Due_ID due) (Due_NextRunAt due) now now (misfire_row runID due now t) w
              (snd (SkipMisfire r runID due now w)))"
    by (cases rule: SkipMisfire_cases [of r runID due now w]) auto
  show "quiet (snd (FailRouteRevoked r runID due now w)) = quiet w
      \<or> (\<exists>t a g. joined_task (Due_ID due) w = Some (t, a, g) \<and> \<not> (a_enabled a \<and> g_schedule_enabled g)
          \<and> consumed r (Due_ID due) (Due_NextRunAt due) now now (revoked_row runID due now t) w
              (snd (FailRouteRevoked r runID due now w)))"
    by (cases rule: FailRouteRevoked_cases [of r runID due now w]) auto
qed (simp_all add: misfire_row_def revoked_row_def new_run_def)

text \<open>
  C5: Completing a run is conditional on its claim. With unique ids and a working connection a valid
  completion succeeds exactly when a row with that id and that claim token is still active, and then only
  that row changes; otherwise it answers \<open>ErrRunClaimLost\<close> and no row changes. So a stale worker cannot
  overwrite a decision that was made under another token or after a terminal state.
\<close>

theorem complete_run_conditional:
  assumes "faults w = []" and "has_DB r" and "distinct (map r_id (scheduled_task_runs w))"
    and "trim_space (Done_RunID c) \<noteq> []" and "trim_space (Done_ClaimToken c) \<noteq> []" and "terminal (Done_State c)"
    and "Done_State c = RunSucceeded \<longrightarrow> Done_ErrorCode c = []" and "0 \<le> Done_DurationMS c"
  shows "(fst (CompleteRun r now c w) = Inr () \<longleftrightarrow>
      (\<exists>x \<in> set (scheduled_task_runs w). r_id x = Done_RunID c
         \<and> r_claim_token x = Some (Done_ClaimToken c) \<and> \<not> terminal (r_state x)))
    \<and> (fst (CompleteRun r now c w) \<noteq> Inr () \<longrightarrow> CompleteRun r now c w = (Inl ErrRunClaimLost, w))
    \<and> (\<forall>x \<in> set (scheduled_task_runs w). r_id x \<noteq> Done_RunID c
         \<longrightarrow> x \<in> set (scheduled_task_runs (snd (CompleteRun r now c w))))
    \<and> (fst (CompleteRun r now c w) = Inr () \<longrightarrow>
         (\<forall>x \<in> set (scheduled_task_runs (snd (CompleteRun r now c w))). r_id x = Done_RunID c
            \<longrightarrow> r_state x = Done_State c \<and> r_completed_at x = Some now \<and> r_lease_until x = None))"
  unfolding CompleteRun_exact [OF assms] active_run_iff by (auto simp: image_iff)

definition ex_done :: RunCompletion where
  "ex_done = \<lparr>Done_RunID = ''run1'', Done_ClaimToken = ''stale'', Done_State = RunSucceeded, Done_ErrorCode = [],
     Done_StartedAt = zero_time, Done_DurationMS = 0, Done_ThreadID = [], Done_TurnID = []\<rparr>"

theorem complete_run_conditional_witness:
  "fst (CompleteRun ex_repo 5 ex_done (snd (ClaimDue ex_repo 61000 ''run1'' ''tok1'' None ex_raw ex_claim ex_world)))
     \<noteq> Inr ()"
proof -
  obtain run w' where c: "ClaimDue ex_repo 61000 ''run1'' ''tok1'' None ex_raw ex_claim ex_world = (Inr run, w')"
    and w': "faults w' = []" "map r_id (scheduled_task_runs w') = [''run1'']"
      "map r_state (scheduled_task_runs w') = [RunClaimed]" "map r_claim_token (scheduled_task_runs w') = [Some ''tok1'']"
    using ex_claim_ok by (elim exE conjE) (rule that)
  have d: "Done_RunID ex_done = ''run1''" "Done_ClaimToken ex_done = ''stale''" "Done_State ex_done = RunSucceeded"
    "Done_ErrorCode ex_done = []" "Done_DurationMS ex_done = 0"
    by (simp_all add: ex_done_def)
  have "fst (CompleteRun ex_repo 5 ex_done w') = Inr () \<longleftrightarrow> False"
    using complete_run_conditional [of w' ex_repo ex_done 5] w' by (auto simp: d trim_eval)
  then show ?thesis using c by simp
qed

end
