(* ===== verification/Worker_Types.thy ===== *)
theory Worker_Types
  imports Bot_World
begin

text \<open>
  The data of \<open>internal/worker/manager.go\<close> that other components build: channel keys, reply targets,
  runtimes and messages, and the errors a worker answers.
\<close>

definition ErrQueueFull :: go_error where
  "ErrQueueFull = Sentinel ''worker queue full''"

definition ErrPoolSaturated :: go_error where
  "ErrPoolSaturated = Sentinel ''worker pool saturated''"

definition ErrClosed :: go_error where
  "ErrClosed = Sentinel ''worker manager closed''"

definition ErrStopping :: go_error where
  "ErrStopping = Sentinel ''worker stopping''"

definition ErrControlInProgress :: go_error where
  "ErrControlInProgress = Sentinel ''channel control in progress''"

definition ErrCommandDeliveryRejected :: go_error where
  "ErrCommandDeliveryRejected = Sentinel ''command delivery rejected''"

definition ErrCommandDeliveryUnknown :: go_error where
  "ErrCommandDeliveryUnknown = Sentinel ''command delivery unknown''"

record Key =
  Key_Kind :: string
  Key_Peer :: string
  Key_AppID :: string

definition GroupKey :: "string \<Rightarrow> string \<Rightarrow> Key" where
  "GroupKey chatID appID = \<lparr>Key_Kind = ''group'', Key_Peer = chatID, Key_AppID = appID\<rparr>"

definition P2PKey :: "string \<Rightarrow> string \<Rightarrow> Key" where
  "P2PKey openID appID = \<lparr>Key_Kind = ''p2p'', Key_Peer = openID, Key_AppID = appID\<rparr>"

definition Key_String :: "Key \<Rightarrow> string" where
  "Key_String k = Key_Kind k @ '':'' @ Key_Peer k @ '':'' @ Key_AppID k"

record ReplyTarget =
  Reply_ID :: string
  Reply_Type :: string

record AppRuntime =
  Runtime_ID :: string
  Runtime_WorkspaceDir :: string
  Runtime_WorkspaceMode :: string
  Runtime_Model :: string
  Runtime_Effort :: string

record Message =
  Msg_ID :: string
  Msg_TraceID :: string
  Msg_ChatGroupID :: string
  Msg_ChatType :: string
  Msg_ChatID :: string
  Msg_Key :: Key
  Msg_Runtime :: AppRuntime
  Msg_Reply :: ReplyTarget
  Msg_ActorOpenID :: string
  Msg_Query :: string
  Msg_ReceivedAt :: go_time
  Msg_HasRequiredAttachment :: bool
  Msg_AttachmentIDs :: "string list"
  Msg_AttachmentOutboxDir :: string
  Msg_Goal :: bool
  Msg_ScheduledTaskID :: string
  Msg_ScheduledTaskRunID :: string
  Msg_ScheduledClaimToken :: string

record Batch =
  Batch_ID :: string
  Batch_Key :: Key
  Batch_Runtime :: AppRuntime
  Batch_Messages :: "Message list"
  Batch_Goal :: bool
  Batch_ScheduledTaskID :: string
  Batch_ScheduledTaskRunID :: string
  Batch_ScheduledClaimToken :: string

definition Queries :: "Batch \<Rightarrow> string list" where
  "Queries b = map Msg_Query (Batch_Messages b)"

text \<open>The string of a key determines it when no part contains the separator.\<close>

lemma append_sep_inject:
  "c \<notin> set a \<Longrightarrow> c \<notin> set a' \<Longrightarrow> a @ c # b = a' @ c # b' \<longleftrightarrow> a = a' \<and> b = b'"
proof (induction a arbitrary: a')
  case Nil
  then show ?case by (cases a') auto
next
  case (Cons x a)
  then show ?case by (cases a') auto
qed

lemma Key_String_inject:
  assumes "CHR '':'' \<notin> set (Key_Kind k)" and "CHR '':'' \<notin> set (Key_Kind k')"
    and "CHR '':'' \<notin> set (Key_Peer k)" and "CHR '':'' \<notin> set (Key_Peer k')"
  shows "Key_String k = Key_String k' \<longleftrightarrow> k = k'"
  using assms by (auto simp: Key_String_def append_sep_inject)

end
