(* ===== verification/Schedule_Delivery.thy ===== *)
theory Schedule_Delivery
  imports Schedule_Runs Worker_Types
begin

text \<open>
  Result delivery: the outbox table of \<open>internal/schedule/delivery.go\<close> and the dispatcher of
  \<open>delivery_dispatcher.go\<close> between it and Feishu. A delivery intent is created for a terminal run,
  claimed as the last durable step before the external call, and completed with the classified
  outcome; a text fallback follows only an explicitly rejected card. The answers of the Feishu client are
  parameters of the dispatcher; every call is appended to the log of the world.
\<close>

section \<open>Data\<close>

record DeliveryIntent =
  Intent_ID :: string
  Intent_RunID :: string
  Intent_Kind :: "delivery_kind option"
  Intent_Attempt :: nat
  Intent_Stage :: "delivery_stage option"
  Intent_Outcome :: "delivery_outcome option"

definition no_intent :: DeliveryIntent where
  "no_intent = \<lparr>Intent_ID = [], Intent_RunID = [], Intent_Kind = None, Intent_Attempt = 0,
     Intent_Stage = None, Intent_Outcome = None\<rparr>"

record DeliveryRoute =
  Dest_RunID :: string
  Dest_AppID :: string
  Dest_ReplyID :: string
  Dest_ReplyType :: string
  Dest_Kind :: task_kind
  Dest_Silent :: bool

record ResultPresentation =
  Pres_Succeeded :: bool
  Pres_ErrorCode :: string
  Pres_FinalText :: string
  Pres_ScriptConsole :: string
  Pres_ExitCode :: int
  Pres_Truncated :: bool

definition ErrDeliveryCompletionLost :: go_error where
  "ErrDeliveryCompletionLost = Sentinel ''scheduled delivery completion was not persisted''"

section \<open>The outbox table\<close>

definition delivery_clash :: "delivery_row \<Rightarrow> delivery_row \<Rightarrow> bool" where
  "delivery_clash a b \<longleftrightarrow> d_id a = d_id b
     \<or> (d_run_id a = d_run_id b \<and> d_kind a = d_kind b \<and> d_attempt a = d_attempt b)"

definition update_deliveries :: "(delivery_row \<Rightarrow> bool) \<Rightarrow> (delivery_row \<Rightarrow> delivery_row) \<Rightarrow> nat op" where
  "update_deliveries p f w = (Inr (sql_affected p f (scheduled_task_deliveries w)),
     w\<lparr>scheduled_task_deliveries := sql_update p f (scheduled_task_deliveries w)\<rparr>)"

text \<open>\<open>INSERT \<dots> SELECT\<close>: the selected rows are inserted, refused as a whole on a duplicate key.\<close>

definition insert_deliveries :: "(world \<Rightarrow> delivery_row list) \<Rightarrow> nat op" where
  "insert_deliveries sel w =
     (if list_ex (\<lambda>x. sql_conflict delivery_clash x (scheduled_task_deliveries w)) (sel w)
         \<or> \<not> sorted_wrt (\<lambda>a b. \<not> delivery_clash a b) (sel w)
      then (Inl ErrDuplicateKey, w)
      else (Inr (length (sel w)), w\<lparr>scheduled_task_deliveries := scheduled_task_deliveries w @ sel w\<rparr>))"

definition result_row :: "string \<Rightarrow> go_time \<Rightarrow> go_time \<Rightarrow> run_row \<Rightarrow> delivery_row" where
  "result_row deliveryID now stamp x = \<lparr>d_id = deliveryID, d_run_id = r_id x, d_kind = DeliveryResultCard,
     d_attempt = 1, d_stage = (if r_silent x then None else Some DeliveryPending),
     d_outcome = (if r_silent x then Some DeliverySuppressed else None), d_message_hmac = None,
     d_completed_at = (if r_silent x then Some now else None), d_updated_at = stamp\<rparr>"

definition fallback_row :: "string \<Rightarrow> go_time \<Rightarrow> delivery_row \<Rightarrow> delivery_row" where
  "fallback_row deliveryID stamp d = \<lparr>d_id = deliveryID, d_run_id = d_run_id d, d_kind = DeliveryFallbackText,
     d_attempt = 1, d_stage = Some DeliveryPending, d_outcome = None, d_message_hmac = None,
     d_completed_at = None, d_updated_at = stamp\<rparr>"

definition loadDelivery :: "string \<Rightarrow> delivery_kind \<Rightarrow> nat \<Rightarrow> DeliveryIntent op" where
  "loadDelivery runID kind at =
     and_then (query (\<lambda>w. sql_first (\<lambda>d. d_run_id d = runID \<and> d_kind d = kind \<and> d_attempt d = at)
         (scheduled_task_deliveries w)))
       (Wrapf ''load schedule delivery'')
       (\<lambda>found. case found of None \<Rightarrow> fail (Wrapf ''load schedule delivery'' ErrNoRows) | Some d \<Rightarrow>
          ret \<lparr>Intent_ID = d_id d, Intent_RunID = d_run_id d, Intent_Kind = Some (d_kind d),
            Intent_Attempt = d_attempt d, Intent_Stage = d_stage d, Intent_Outcome = d_outcome d\<rparr>)"

definition CreateResultDelivery :: "Repository \<Rightarrow> go_time \<Rightarrow> string \<Rightarrow> string \<Rightarrow> DeliveryIntent op" where
  "CreateResultDelivery r now newID runID =
     (if \<not> has_DB r \<or> trim_space runID = [] then fail (Errorf ''schedule result delivery identity is invalid'')
      else if trim_space newID = [] then fail (Errorf ''schedule delivery id is required'')
      else attempt
        (exec (insert_deliveries (\<lambda>w. map (result_row newID now (clock w))
           (filter (\<lambda>x. r_id x = runID \<and> terminal (r_state x)) (scheduled_task_runs w)))))
        (\<lambda>result. case result of
            Inr count \<Rightarrow> if count \<noteq> 1 then fail ErrRunClaimLost else loadDelivery runID DeliveryResultCard 1
          | Inl err \<Rightarrow> if err \<noteq> ErrDuplicateKey then fail (Wrapf ''create schedule result delivery'' err)
              else loadDelivery runID DeliveryResultCard 1))"

definition ClaimDelivery :: "Repository \<Rightarrow> string \<Rightarrow> bool op" where
  "ClaimDelivery r deliveryID =
     (if \<not> has_DB r \<or> trim_space deliveryID = [] then fail (Errorf ''schedule delivery identity is invalid'')
      else and_then
        (exec (\<lambda>w. update_deliveries
          (\<lambda>d. d_id d = deliveryID \<and> d_stage d = Some DeliveryPending \<and> d_outcome d = None)
          (\<lambda>d. d\<lparr>d_stage := Some DeliveryInFlight, d_updated_at := clock w\<rparr>) w))
        (Wrapf ''claim schedule delivery'')
        (\<lambda>count. ret (count = 1)))"

definition CompleteDelivery :: "Repository \<Rightarrow> go_time \<Rightarrow> string \<Rightarrow> delivery_outcome \<Rightarrow> string \<Rightarrow> bool op" where
  "CompleteDelivery r now deliveryID outcome messageIDHMAC =
     (if \<not> has_DB r \<or> trim_space deliveryID = [] then fail (Errorf ''schedule delivery identity is invalid'')
      else if outcome \<noteq> DeliverySent \<and> outcome \<noteq> DeliveryRejected \<and> outcome \<noteq> DeliveryUnknown
        then fail (Errorf ''schedule delivery outcome is invalid'')
      else and_then
        (exec (update_deliveries
          (\<lambda>d. d_id d = deliveryID \<and> d_stage d = Some DeliveryInFlight \<and> d_outcome d = None)
          (\<lambda>d. d\<lparr>d_stage := None, d_outcome := Some outcome, d_message_hmac := nullable messageIDHMAC,
              d_completed_at := Some now\<rparr>)))
        (Wrapf ''complete schedule delivery'')
        (\<lambda>count. ret (count = 1)))"

definition CreateFallbackAfterRejected :: "Repository \<Rightarrow> string \<Rightarrow> string \<Rightarrow> DeliveryIntent op" where
  "CreateFallbackAfterRejected r newID runID =
     (if \<not> has_DB r \<or> trim_space runID = [] then fail (Errorf ''schedule fallback delivery identity is invalid'')
      else if trim_space newID = [] then fail (Errorf ''schedule fallback delivery id is required'')
      else attempt
        (exec (insert_deliveries (\<lambda>w. map (fallback_row newID (clock w))
           (filter (\<lambda>d. d_run_id d = runID \<and> d_kind d = DeliveryResultCard \<and> d_attempt d = 1
              \<and> d_stage d = None \<and> d_outcome d = Some DeliveryRejected) (scheduled_task_deliveries w)))))
        (\<lambda>result. case result of
            Inl err \<Rightarrow> if err \<noteq> ErrDuplicateKey then fail (Wrapf ''create schedule fallback delivery'' err)
              else loadDelivery runID DeliveryFallbackText 1
          | Inr count \<Rightarrow> if count \<noteq> 1 then ret no_intent
              else ret \<lparr>Intent_ID = newID, Intent_RunID = runID, Intent_Kind = Some DeliveryFallbackText,
                Intent_Attempt = 1, Intent_Stage = Some DeliveryPending, Intent_Outcome = None\<rparr>))"

definition ReconcileInFlightDeliveries :: "Repository \<Rightarrow> go_time \<Rightarrow> nat op" where
  "ReconcileInFlightDeliveries r now =
     (if \<not> has_DB r \<or> is_zero_time now then fail (Errorf ''schedule delivery reconciliation is invalid'')
      else and_then
        (exec (update_deliveries
          (\<lambda>d. d_stage d = Some DeliveryInFlight \<and> d_outcome d = None)
          (\<lambda>d. d\<lparr>d_stage := None, d_outcome := Some DeliveryUnknown, d_completed_at := Some now\<rparr>)))
        (Wrapf ''reconcile in-flight schedule deliveries'') ret)"

definition LoadDeliveryRoute :: "Repository \<Rightarrow> string \<Rightarrow> DeliveryRoute op" where
  "LoadDeliveryRoute r runID =
     (if \<not> has_DB r \<or> trim_space runID = [] then fail (Errorf ''schedule delivery route identity is invalid'')
      else and_then
        (query (\<lambda>w. case sql_first (\<lambda>x. r_id x = runID \<and> terminal (r_state x)) (scheduled_task_runs w) of
            None \<Rightarrow> None
          | Some x \<Rightarrow> (case joined_task (r_task_id x) w of None \<Rightarrow> None | Some (t, a, g) \<Rightarrow>
              if a_enabled a \<and> g_schedule_enabled g then Some (x, t, g) else None)))
        (Wrapf ''load schedule delivery route'')
        (\<lambda>found. case found of None \<Rightarrow> fail ErrRunClaimLost | Some (x, t, g) \<Rightarrow>
           if t_kind t \<noteq> TaskPrompt \<and> t_kind t \<noteq> TaskScript
             then fail (Errorf ''stored schedule delivery kind is invalid'')
           else if t_owner_open_id t = [] then fail (Errorf ''schedule delivery owner is missing'')
           else (let reply = (if g_chat_type g = ''group'' then (g_chat_id g, ''chat_id'') else (t_owner_open_id t, ''open_id'')) in
             if fst reply = [] \<or> snd reply = [] then fail (Errorf ''schedule delivery reply route is invalid'')
             else ret \<lparr>Dest_RunID = runID, Dest_AppID = t_app_id t, Dest_ReplyID = fst reply,
               Dest_ReplyType = snd reply, Dest_Kind = t_kind t, Dest_Silent = r_silent x\<rparr>)))"

text \<open>The digest of an external message id, under the domain prefix of the source.\<close>

definition MessageIDHMAC :: "Repository \<Rightarrow> string \<Rightarrow> string res" where
  "MessageIDHMAC r messageID =
     (if trim_space messageID = [] then Inl (Errorf ''schedule delivery message id is required'')
      else (case Keyring_HMAC (mac r) (Owners r) (''scheduled_delivery_message_id'' @ [mk_byte 0] @ messageID) of
          Inl e \<Rightarrow> Inl (Wrapf ''digest schedule delivery message id'' e)
        | Inr (digest, _) \<Rightarrow> Inr digest))"

section \<open>The dispatcher\<close>

text \<open>
  \<open>has_store\<close>: \<open>d.Store != nil\<close>; \<open>has_sender\<close>: a sender or a sender factory is configured;
  \<open>sender_for\<close>: the application has a sender; \<open>card_answer\<close> and \<open>text_answer\<close>: what the Feishu
  client answers to a card or text for a receiver (the message id, or an error).
\<close>

record ResultDeliveryDispatcher =
  has_store :: bool
  has_sender :: bool
  sender_for :: "string \<Rightarrow> bool"
  card_answer :: "string \<Rightarrow> string \<Rightarrow> string \<Rightarrow> string res"
  text_answer :: "string \<Rightarrow> string \<Rightarrow> string \<Rightarrow> string res"

definition classifyDeliveryError :: "string res \<Rightarrow> delivery_outcome" where
  "classifyDeliveryError answer = (case answer of
       Inr _ \<Rightarrow> DeliverySent
     | Inl e \<Rightarrow> if errors_is e ErrCommandDeliveryRejected then DeliveryRejected else DeliveryUnknown)"

definition renderResultCard :: "task_kind \<Rightarrow> ResultPresentation \<Rightarrow> string" where
  "renderResultCard kind p =
     (if kind = TaskScript then
        (let status = (if Pres_Succeeded p then utf8 [25104, 21151] else utf8 [22833, 36133]);
             truncated = (if Pres_Truncated p then utf8 [26159] else utf8 [21542]);
             console0 = trim_space (Pres_ScriptConsole p);
             console = (if console0 = [] then utf8 [65288, 26080, 36755, 20986, 65289] else console0) in
         utf8 [35745, 21010, 33050, 26412, 25191, 34892] @ status @ utf8 [10] @ ''exit_code: ''
           @ sprint_int (Pres_ExitCode p) @ utf8 [10, 36755, 20986, 24050, 25130, 26029] @ '': '' @ truncated
           @ utf8 [10, 10] @ console)
      else if Pres_Succeeded p then
        (let text = trim_space (Pres_FinalText p) in
         if text \<noteq> [] then text else utf8 [35745, 21010, 20219, 21153, 24050, 23436, 25104, 12290])
      else utf8 [35745, 21010, 20219, 21153, 25191, 34892, 22833, 36133, 12290])"

definition fallback_text :: string where
  "fallback_text = utf8 [35745, 21010, 20219, 21153, 24050, 32467, 26463, 65292, 20294, 32467, 26524, 21345,
     26410, 34987, 24179, 21488, 25509, 21463, 12290]"

text \<open>The shared end of \<open>Deliver\<close> and \<open>sendFallback\<close>: the outcome and digest that are recorded.\<close>

definition sent_outcome :: "Repository \<Rightarrow> string res \<Rightarrow> delivery_outcome \<times> string" where
  "sent_outcome r answer = (case answer of
       Inr messageID \<Rightarrow> (case MessageIDHMAC r messageID of
           Inl _ \<Rightarrow> (DeliveryUnknown, [])
         | Inr h \<Rightarrow> (DeliverySent, h))
     | Inl _ \<Rightarrow> (classifyDeliveryError answer, []))"

definition sendFallback :: "Repository \<Rightarrow> ResultDeliveryDispatcher \<Rightarrow> go_time \<Rightarrow> string \<Rightarrow> DeliveryRoute \<Rightarrow> string \<Rightarrow> unit op" where
  "sendFallback r d now newID route runID =
     and_then (CreateFallbackAfterRejected r newID runID) id (\<lambda>intent.
       if Intent_ID intent = [] then ret ()
       else and_then (ClaimDelivery r (Intent_ID intent)) id (\<lambda>got.
         if \<not> got then ret ()
         else if \<not> sender_for d (Dest_AppID route) then fail (Errorf ''scheduled result sender is unavailable'')
         else and_then (call_feishu (FeishuCall runID ''SendCommandText'' (Dest_ReplyID route) (Dest_ReplyType route) fallback_text)) id
           (\<lambda>_. (let (outcome, messageHMAC) = sent_outcome r (text_answer d (Dest_ReplyID route) (Dest_ReplyType route) fallback_text) in
             and_then (CompleteDelivery r now (Intent_ID intent) outcome messageHMAC) id
               (\<lambda>completed. if \<not> completed then fail ErrDeliveryCompletionLost else ret ())))))"

definition Deliver :: "Repository \<Rightarrow> ResultDeliveryDispatcher \<Rightarrow> go_time \<Rightarrow> string \<Rightarrow> string \<Rightarrow> string \<Rightarrow> ResultPresentation \<Rightarrow> unit op" where
  "Deliver r d now newID fallbackID runID presentation =
     (if \<not> has_store d \<or> trim_space runID = [] then fail (Errorf ''scheduled result delivery is not configured'')
      else and_then (CreateResultDelivery r now newID runID) id (\<lambda>intent.
        if Intent_Outcome intent = Some DeliverySuppressed \<or> Intent_ID intent = [] then ret ()
        else if \<not> has_sender d then fail (Errorf ''scheduled result sender is unavailable'')
        else and_then (LoadDeliveryRoute r runID) id (\<lambda>route.
          and_then (ClaimDelivery r (Intent_ID intent)) id (\<lambda>got.
            if \<not> got then ret ()
            else if \<not> sender_for d (Dest_AppID route) then fail (Errorf ''scheduled result sender is unavailable'')
            else (let card = renderResultCard (Dest_Kind route) presentation in
              and_then (call_feishu (FeishuCall runID ''SendStaticCard'' (Dest_ReplyID route) (Dest_ReplyType route) card)) id
                (\<lambda>_. (let (outcome, messageHMAC) = sent_outcome r (card_answer d (Dest_ReplyID route) (Dest_ReplyType route) card) in
                  and_then (CompleteDelivery r now (Intent_ID intent) outcome messageHMAC) id
                    (\<lambda>completed. if \<not> completed then fail ErrDeliveryCompletionLost
                      else if outcome \<noteq> DeliveryRejected then ret ()
                      else sendFallback r d now fallbackID route runID))))))))"

section \<open>The lifecycle of a delivery\<close>

definition delivery_rank :: "delivery_row \<Rightarrow> nat" where
  "delivery_rank d = (if d_outcome d = None \<and> d_stage d = Some DeliveryPending then 0
     else if d_outcome d = None \<and> d_stage d = Some DeliveryInFlight then 1 else 2)"

definition delivery_identity :: "delivery_row \<Rightarrow> string \<times> string \<times> delivery_kind \<times> nat" where
  "delivery_identity d = (d_id d, d_run_id d, d_kind d, d_attempt d)"

text \<open>A move goes from pending to in flight or from in flight to an outcome other than suppressed.\<close>

definition delivery_moves :: "delivery_row \<Rightarrow> delivery_row \<Rightarrow> bool" where
  "delivery_moves x y \<longleftrightarrow> y = x \<or> (delivery_identity y = delivery_identity x
     \<and> delivery_rank x < delivery_rank y \<and> d_outcome y \<noteq> Some DeliverySuppressed)"

interpretation deliveries: ledger_table delivery_moves "\<lambda>d. delivery_rank d = 2" scheduled_task_deliveries
proof
  show "y = x" if "delivery_rank x = 2" "delivery_moves x y" for x y
    using that by (auto simp: delivery_moves_def delivery_rank_def split: if_splits)
  show "delivery_moves x z" if "delivery_moves x y" "delivery_moves y z" for x y z
    using that by (auto simp: delivery_moves_def)
qed (auto simp: delivery_moves_def)

abbreviation deliveries_rel :: "world \<Rightarrow> world \<Rightarrow> bool" where
  "deliveries_rel w w' \<equiv> evolves delivery_moves (scheduled_task_deliveries w) (scheduled_task_deliveries w')"

lemma deliveries_rel_same: "scheduled_task_deliveries w' = scheduled_task_deliveries w \<Longrightarrow> deliveries_rel w w'"
  by (simp add: deliveries.evolves_refl)

lemma deliveries_rel_insert: "preserves deliveries_rel (insert_deliveries sel)"
  by (rule preservesI) (simp add: insert_deliveries_def deliveries.evolves_refl deliveries.evolves_append)

lemma deliveries_rel_exec_update:
  assumes "\<And>w x. p w x \<Longrightarrow> delivery_moves x (f w x)"
  shows "preserves deliveries_rel (exec (\<lambda>w. update_deliveries (p w) (f w) w))"
  by (rule deliveries.tab.preserves_exec, rule preservesI)
    (use assms in \<open>simp add: update_deliveries_def deliveries.evolves_update\<close>)

lemma deliveries_rel_exec_static:
  "(\<And>x. p x \<Longrightarrow> delivery_moves x (f x)) \<Longrightarrow> preserves deliveries_rel (exec (update_deliveries p f))"
  using deliveries_rel_exec_update [of "\<lambda>_. p" "\<lambda>_. f"] by simp

lemma deliveries_rel_call: "preserves deliveries_rel (call_feishu c)"
  by (rule preservesI) (simp add: call_feishu_def deliveries.evolves_refl)

lemma deliveries_rel_exec_insert: "preserves deliveries_rel (exec (insert_deliveries sel))"
  by (rule deliveries.tab.preserves_exec) (rule deliveries_rel_insert)

lemma deliveries_loadDelivery: "preserves deliveries_rel (loadDelivery i k n)"
  unfolding loadDelivery_def by (intro deliveries.tab.preserves_intros)

lemma deliveries_CreateResultDelivery: "preserves deliveries_rel (CreateResultDelivery r now i runID)"
  unfolding CreateResultDelivery_def
  by (intro deliveries.tab.preserves_intros deliveries_rel_exec_insert deliveries_loadDelivery)

lemma deliveries_CreateFallback: "preserves deliveries_rel (CreateFallbackAfterRejected r i runID)"
  unfolding CreateFallbackAfterRejected_def
  by (intro deliveries.tab.preserves_intros deliveries_rel_exec_insert deliveries_loadDelivery)

lemma deliveries_ClaimDelivery: "preserves deliveries_rel (ClaimDelivery r i)"
  unfolding ClaimDelivery_def
  by (intro deliveries.tab.preserves_intros deliveries_rel_exec_update)
    (auto simp: delivery_moves_def delivery_rank_def delivery_identity_def)

lemma deliveries_CompleteDelivery: "preserves deliveries_rel (CompleteDelivery r now i out h)"
proof (cases "out = DeliverySuppressed")
  case False
  then show ?thesis unfolding CompleteDelivery_def
    by (intro deliveries.tab.preserves_intros deliveries_rel_exec_static)
      (auto simp: delivery_moves_def delivery_rank_def delivery_identity_def)
qed (simp add: CompleteDelivery_def deliveries.tab.preserves_fail)

lemma deliveries_Reconcile: "preserves deliveries_rel (ReconcileInFlightDeliveries r now)"
  unfolding ReconcileInFlightDeliveries_def
  by (intro deliveries.tab.preserves_intros deliveries_rel_exec_static)
    (auto simp: delivery_moves_def delivery_rank_def delivery_identity_def)

lemma deliveries_LoadDeliveryRoute: "preserves deliveries_rel (LoadDeliveryRoute r i)"
  unfolding LoadDeliveryRoute_def Let_def by (intro deliveries.tab.preserves_intros)

lemmas deliveries_store_ops = deliveries_CreateResultDelivery deliveries_CreateFallback deliveries_ClaimDelivery
  deliveries_CompleteDelivery deliveries_Reconcile deliveries_LoadDeliveryRoute

lemma deliveries_sendFallback: "preserves deliveries_rel (sendFallback r d now i route runID)"
  unfolding sendFallback_def Let_def
  by (intro deliveries.tab.preserves_intros deliveries_store_ops deliveries_rel_call)

lemma deliveries_Deliver: "preserves deliveries_rel (Deliver r d now i j runID p)"
  unfolding Deliver_def Let_def
  by (intro deliveries.tab.preserves_intros deliveries_store_ops deliveries_rel_call deliveries_sendFallback)

section \<open>Invariant of the outbox\<close>

text \<open>
  Ids and (run, kind, attempt) are unique; only the first attempt exists; a card belongs to a terminal run
  and is suppressed exactly when the run is silent; a fallback text belongs to a rejected card; a row has a
  stage exactly as long as it has no outcome.
\<close>

definition outbox_ok :: "world \<Rightarrow> bool" where
  "outbox_ok w \<longleftrightarrow> distinct (map d_id (scheduled_task_deliveries w))
     \<and> distinct (map (\<lambda>d. (d_run_id d, d_kind d, d_attempt d)) (scheduled_task_deliveries w))
     \<and> (\<forall>d \<in> set (scheduled_task_deliveries w). d_attempt d = 1 \<and> (d_stage d = None \<longleftrightarrow> d_outcome d \<noteq> None))
     \<and> (\<forall>d \<in> set (scheduled_task_deliveries w). d_kind d = DeliveryResultCard \<longrightarrow>
          (\<exists>x \<in> set (scheduled_task_runs w). r_id x = d_run_id d \<and> terminal (r_state x)
             \<and> (r_silent x \<longleftrightarrow> d_outcome d = Some DeliverySuppressed)))
     \<and> (\<forall>d \<in> set (scheduled_task_deliveries w). d_kind d = DeliveryFallbackText \<longrightarrow>
          d_outcome d \<noteq> Some DeliverySuppressed
          \<and> (\<exists>c \<in> set (scheduled_task_deliveries w). d_run_id c = d_run_id d \<and> d_kind c = DeliveryResultCard
               \<and> d_outcome c = Some DeliveryRejected))"

interpretation outbox: world_invariant outbox_ok
  by unfold_locales (simp add: outbox_ok_def)

abbreviation outbox_rel :: "world \<Rightarrow> world \<Rightarrow> bool" where
  "outbox_rel w w' \<equiv> outbox_ok w \<longrightarrow> outbox_ok w'"

lemma outbox_cardD:
  assumes "outbox_ok w" and "d \<in> set (scheduled_task_deliveries w)" and "d_kind d = DeliveryResultCard"
  obtains x where "x \<in> set (scheduled_task_runs w)" "r_id x = d_run_id d" "terminal (r_state x)"
    "r_silent x \<longleftrightarrow> d_outcome d = Some DeliverySuppressed"
  using assms unfolding outbox_ok_def by blast

lemma outbox_fallbackD:
  assumes "outbox_ok w" and "d \<in> set (scheduled_task_deliveries w)" and "d_kind d = DeliveryFallbackText"
  shows "d_outcome d \<noteq> Some DeliverySuppressed"
    and "\<exists>c \<in> set (scheduled_task_deliveries w). d_run_id c = d_run_id d \<and> d_kind c = DeliveryResultCard
       \<and> d_outcome c = Some DeliveryRejected"
  using assms unfolding outbox_ok_def by blast+

text \<open>The outbox invariant survives any change of the runs along their lifecycle.\<close>

lemma outbox_ok_runs:
  assumes "outbox_ok w" and "runs_rel w w'" and "scheduled_task_deliveries w' = scheduled_task_deliveries w"
  shows "outbox_ok w'"
proof -
  have "x \<in> set (scheduled_task_runs w')" if "x \<in> set (scheduled_task_runs w)" "terminal (r_state x)" for x
    using runs.evolves_final [OF assms(2) that] .
  then show ?thesis using assms(1,3) unfolding outbox_ok_def by (auto 0 4)
qed

text \<open>Moving rows that keep identity, stage discipline and the verdicts suppressed and rejected.\<close>

lemma outbox_ok_update:
  assumes ok: "outbox_ok w"
    and f: "\<And>d. p d \<Longrightarrow> delivery_identity (f d) = delivery_identity d \<and> (d_stage (f d) = None \<longleftrightarrow> d_outcome (f d) \<noteq> None)
        \<and> d_outcome d = None \<and> d_outcome (f d) \<noteq> Some DeliverySuppressed"
    and w': "scheduled_task_deliveries w' = sql_update p f (scheduled_task_deliveries w)"
      "scheduled_task_runs w' = scheduled_task_runs w"
  shows "outbox_ok w'"
proof -
  let ?g = "\<lambda>d. if p d then f d else d"
  have id: "d_id (f d) = d_id d" "d_run_id (f d) = d_run_id d" "d_kind (f d) = d_kind d" "d_attempt (f d) = d_attempt d"
    if "p d" for d using f [OF that] by (simp_all add: delivery_identity_def)
  have keys: "map d_id (scheduled_task_deliveries w') = map d_id (scheduled_task_deliveries w)"
    "map (\<lambda>d. (d_run_id d, d_kind d, d_attempt d)) (scheduled_task_deliveries w')
      = map (\<lambda>d. (d_run_id d, d_kind d, d_attempt d)) (scheduled_task_deliveries w)"
    unfolding w' by (rule map_sql_update, simp add: id)+
  have set': "set (scheduled_task_deliveries w') = ?g ` set (scheduled_task_deliveries w)"
    unfolding w' by (rule set_sql_update)
  have rej: "\<exists>c \<in> set (scheduled_task_deliveries w'). d_run_id c = i \<and> d_kind c = DeliveryResultCard \<and> d_outcome c = Some DeliveryRejected"
    if "\<exists>c \<in> set (scheduled_task_deliveries w). d_run_id c = i \<and> d_kind c = DeliveryResultCard \<and> d_outcome c = Some DeliveryRejected" for i
    using that f unfolding set' by (metis (mono_tags, lifting) image_eqI option.distinct(1))
  have A: "d_attempt (?g d) = 1 \<and> (d_stage (?g d) = None \<longleftrightarrow> d_outcome (?g d) \<noteq> None)"
    if "d \<in> set (scheduled_task_deliveries w)" for d
    using ok f id that by (auto simp: outbox_ok_def)
  have B: "\<exists>x \<in> set (scheduled_task_runs w'). r_id x = d_run_id (?g d) \<and> terminal (r_state x)
             \<and> (r_silent x \<longleftrightarrow> d_outcome (?g d) = Some DeliverySuppressed)"
    if d: "d \<in> set (scheduled_task_deliveries w)" "d_kind (?g d) = DeliveryResultCard" for d
  proof -
    have "d_kind d = DeliveryResultCard" using d(2) id by (cases "p d") auto
    with ok d(1) show ?thesis by (rule outbox_cardD) (use f id in \<open>cases "p d"; auto simp: w'(2)\<close>)
  qed
  have C: "d_outcome (?g d) \<noteq> Some DeliverySuppressed
      \<and> (\<exists>c \<in> set (scheduled_task_deliveries w'). d_run_id c = d_run_id (?g d) \<and> d_kind c = DeliveryResultCard
           \<and> d_outcome c = Some DeliveryRejected)"
    if d: "d \<in> set (scheduled_task_deliveries w)" "d_kind (?g d) = DeliveryFallbackText" for d
  proof -
    have "d_kind d = DeliveryFallbackText" using d(2) id by (cases "p d") auto
    note o1 = outbox_fallbackD [OF ok d(1) this]
    show ?thesis using o1(1) rej [OF o1(2)] f id by (cases "p d") auto
  qed
  have ex: "\<exists>d \<in> set (scheduled_task_deliveries w). d' = ?g d" if "d' \<in> set (scheduled_task_deliveries w')" for d'
    using that unfolding set' by blast
  show ?thesis unfolding outbox_ok_def
  proof (intro conjI ballI impI)
    show "distinct (map d_id (scheduled_task_deliveries w'))"
      "distinct (map (\<lambda>d. (d_run_id d, d_kind d, d_attempt d)) (scheduled_task_deliveries w'))"
      using ok unfolding keys outbox_ok_def by blast+
  next
    fix d' assume "d' \<in> set (scheduled_task_deliveries w')"
    then obtain d where d: "d \<in> set (scheduled_task_deliveries w)" "d' = ?g d" using ex by blast
    show "d_attempt d' = 1" "(d_stage d' = None) = (d_outcome d' \<noteq> None)"
      using A [OF d(1)] unfolding d(2) by blast+
    show "\<exists>x \<in> set (scheduled_task_runs w'). r_id x = d_run_id d' \<and> terminal (r_state x)
             \<and> (r_silent x \<longleftrightarrow> d_outcome d' = Some DeliverySuppressed)" if "d_kind d' = DeliveryResultCard"
      using B [OF d(1)] that unfolding d(2) by blast
    show "d_outcome d' \<noteq> Some DeliverySuppressed" "\<exists>c \<in> set (scheduled_task_deliveries w'). d_run_id c = d_run_id d'
           \<and> d_kind c = DeliveryResultCard \<and> d_outcome c = Some DeliveryRejected" if "d_kind d' = DeliveryFallbackText"
      using C [OF d(1)] that unfolding d(2) by blast+
  qed
qed

text \<open>Appending the selected rows.\<close>

lemma outbox_ok_append:
  assumes ok: "outbox_ok w" and free: "\<not> sql_conflict delivery_clash x (scheduled_task_deliveries w)"
    and x: "d_attempt x = 1" "d_stage x = None \<longleftrightarrow> d_outcome x \<noteq> None"
    and card: "d_kind x = DeliveryResultCard \<Longrightarrow> \<exists>y \<in> set (scheduled_task_runs w). r_id y = d_run_id x
        \<and> terminal (r_state y) \<and> (r_silent y \<longleftrightarrow> d_outcome x = Some DeliverySuppressed)"
    and fall: "d_kind x = DeliveryFallbackText \<Longrightarrow> d_outcome x \<noteq> Some DeliverySuppressed
        \<and> (\<exists>c \<in> set (scheduled_task_deliveries w). d_run_id c = d_run_id x
             \<and> d_kind c = DeliveryResultCard \<and> d_outcome c = Some DeliveryRejected)"
  shows "outbox_ok (w\<lparr>scheduled_task_deliveries := scheduled_task_deliveries w @ [x]\<rparr>)"
proof -
  have "distinct (map d_id (scheduled_task_deliveries w @ [x]))"
    "distinct (map (\<lambda>d. (d_run_id d, d_kind d, d_attempt d)) (scheduled_task_deliveries w @ [x]))"
    using ok free by (auto simp: outbox_ok_def sql_conflict_def delivery_clash_def)
  moreover have "\<forall>d \<in> set (scheduled_task_deliveries w @ [x]). d_kind d = DeliveryResultCard \<longrightarrow>
          (\<exists>y \<in> set (scheduled_task_runs w). r_id y = d_run_id d \<and> terminal (r_state y)
             \<and> (r_silent y \<longleftrightarrow> d_outcome d = Some DeliverySuppressed))"
    using ok card by (auto elim: outbox_cardD)
  moreover have "\<forall>d \<in> set (scheduled_task_deliveries w @ [x]). d_kind d = DeliveryFallbackText \<longrightarrow>
          d_outcome d \<noteq> Some DeliverySuppressed
          \<and> (\<exists>c \<in> set (scheduled_task_deliveries w @ [x]). d_run_id c = d_run_id d \<and> d_kind c = DeliveryResultCard
               \<and> d_outcome c = Some DeliveryRejected)"
    using fall outbox_fallbackD [OF ok] by fastforce
  moreover have "\<forall>d \<in> set (scheduled_task_deliveries w @ [x]). d_attempt d = 1 \<and> (d_stage d = None \<longleftrightarrow> d_outcome d \<noteq> None)"
    using ok x by (auto simp: outbox_ok_def)
  ultimately show ?thesis unfolding outbox_ok_def by simp
qed

text \<open>Rows that all carry the one new id are inserted only when there is at most one of them.\<close>

lemma insert_deliveries_Inr:
  assumes "insert_deliveries sel w = (Inr n, w')" and "\<And>x. x \<in> set (sel w) \<Longrightarrow> d_id x = i"
  obtains "sel w = []" "n = 0" "w' = w"
  | x where "sel w = [x]" "n = 1" "\<not> sql_conflict delivery_clash x (scheduled_task_deliveries w)"
      "w' = w\<lparr>scheduled_task_deliveries := scheduled_task_deliveries w @ [x]\<rparr>"
proof -
  from assms(1) have ok: "\<not> list_ex (\<lambda>x. sql_conflict delivery_clash x (scheduled_task_deliveries w)) (sel w)"
    "sorted_wrt (\<lambda>a b. \<not> delivery_clash a b) (sel w)" "n = length (sel w)"
    "w' = w\<lparr>scheduled_task_deliveries := scheduled_task_deliveries w @ sel w\<rparr>"
    by (auto simp: insert_deliveries_def split: if_splits)
  show thesis
  proof (cases "sel w")
    case Nil
    then show thesis using ok that(1) by simp
  next
    case (Cons x xs)
    have "xs = []"
    proof (rule ccontr)
      assume "xs \<noteq> []"
      then obtain y ys where sel: "sel w = x # y # ys" using Cons by (cases xs) auto
      then have "d_id x = d_id y" using assms(2) [of x] assms(2) [of y] by simp
      then show False using ok(2) unfolding sel by (simp add: delivery_clash_def)
    qed
    then show thesis using ok Cons that(2) [of x] by simp
  qed
qed

lemma outbox_insert:
  assumes "\<And>w x. x \<in> set (sel w) \<Longrightarrow> d_id x = i"
    and "\<And>w x. outbox_ok w \<Longrightarrow> x \<in> set (sel w) \<Longrightarrow> \<not> sql_conflict delivery_clash x (scheduled_task_deliveries w)
      \<Longrightarrow> outbox_ok (w\<lparr>scheduled_task_deliveries := scheduled_task_deliveries w @ [x]\<rparr>)"
  shows "preserves outbox_rel (exec (insert_deliveries sel))"
proof (rule outbox.inv_rel.preserves_exec, rule preservesI, rule impI)
  fix w assume ok: "outbox_ok w"
  show "outbox_ok (snd (insert_deliveries sel w))"
  proof (cases "insert_deliveries sel w")
    case (Pair v w')
    show ?thesis
    proof (cases v)
      case (Inl e)
      then show ?thesis using Pair ok by (auto simp: insert_deliveries_def split: if_splits)
    next
      case (Inr n)
      with Pair have "insert_deliveries sel w = (Inr n, w')" by simp
      then show ?thesis using assms(1)
        by (rule insert_deliveries_Inr) (use ok Pair assms(2) in auto)
    qed
  qed
qed

lemma outbox_exec_update:
  assumes "\<And>w d. p w d \<Longrightarrow> delivery_identity (f w d) = delivery_identity d
      \<and> (d_stage (f w d) = None \<longleftrightarrow> d_outcome (f w d) \<noteq> None) \<and> d_outcome d = None
      \<and> d_outcome (f w d) \<noteq> Some DeliverySuppressed"
  shows "preserves outbox_rel (exec (\<lambda>w. update_deliveries (p w) (f w) w))"
proof (rule outbox.inv_rel.preserves_exec, rule preservesI, rule impI)
  fix w assume "outbox_ok w"
  then show "outbox_ok (snd (update_deliveries (p w) (f w) w))"
    by (rule outbox_ok_update [of w "p w" "f w"]) (use assms in \<open>auto simp: update_deliveries_def\<close>)
qed

lemma outbox_exec_static:
  "(\<And>d. p d \<Longrightarrow> delivery_identity (f d) = delivery_identity d
      \<and> (d_stage (f d) = None \<longleftrightarrow> d_outcome (f d) \<noteq> None) \<and> d_outcome d = None
      \<and> d_outcome (f d) \<noteq> Some DeliverySuppressed) \<Longrightarrow> preserves outbox_rel (exec (update_deliveries p f))"
  using outbox_exec_update [of "\<lambda>_. p" "\<lambda>_. f"] by simp

lemma outbox_loadDelivery: "preserves outbox_rel (loadDelivery i k n)"
  unfolding loadDelivery_def by (intro outbox.inv_rel.preserves_intros)

lemma outbox_CreateResultDelivery: "preserves outbox_rel (CreateResultDelivery r now i runID)"
proof -
  have "preserves outbox_rel (exec (insert_deliveries (\<lambda>w. map (result_row i now (clock w))
           (filter (\<lambda>x. r_id x = runID \<and> terminal (r_state x)) (scheduled_task_runs w)))))"
    by (rule outbox_insert [of _ i]) (auto simp: result_row_def intro!: outbox_ok_append split: if_splits)
  then show ?thesis unfolding CreateResultDelivery_def
    by (intro outbox.inv_rel.preserves_intros outbox_loadDelivery)
qed

lemma outbox_CreateFallback: "preserves outbox_rel (CreateFallbackAfterRejected r i runID)"
proof -
  have "preserves outbox_rel (exec (insert_deliveries (\<lambda>w. map (fallback_row i (clock w))
           (filter (\<lambda>d. d_run_id d = runID \<and> d_kind d = DeliveryResultCard \<and> d_attempt d = 1
              \<and> d_stage d = None \<and> d_outcome d = Some DeliveryRejected) (scheduled_task_deliveries w)))))"
    by (rule outbox_insert [of _ i]) (auto simp: fallback_row_def intro!: outbox_ok_append)
  then show ?thesis unfolding CreateFallbackAfterRejected_def
    by (intro outbox.inv_rel.preserves_intros outbox_loadDelivery)
qed

lemma outbox_ClaimDelivery: "preserves outbox_rel (ClaimDelivery r i)"
  unfolding ClaimDelivery_def
  by (intro outbox.inv_rel.preserves_intros outbox_exec_update) (auto simp: delivery_identity_def)

lemma outbox_CompleteDelivery: "preserves outbox_rel (CompleteDelivery r now i out h)"
proof (cases "out = DeliverySuppressed")
  case False
  then show ?thesis unfolding CompleteDelivery_def
    by (intro outbox.inv_rel.preserves_intros outbox_exec_static) (auto simp: delivery_identity_def)
qed (simp add: CompleteDelivery_def outbox.inv_rel.preserves_fail)

lemma outbox_Reconcile: "preserves outbox_rel (ReconcileInFlightDeliveries r now)"
  unfolding ReconcileInFlightDeliveries_def
  by (intro outbox.inv_rel.preserves_intros outbox_exec_static) (auto simp: delivery_identity_def)

lemma outbox_LoadDeliveryRoute: "preserves outbox_rel (LoadDeliveryRoute r i)"
  unfolding LoadDeliveryRoute_def Let_def by (intro outbox.inv_rel.preserves_intros)

section \<open>External calls\<close>

fun send_method :: "delivery_kind \<Rightarrow> string" where
  "send_method DeliveryResultCard = ''SendStaticCard''"
| "send_method DeliveryFallbackText = ''SendCommandText''"

text \<open>How many calls of a kind were made on behalf of a run.\<close>

definition sends :: "string \<Rightarrow> delivery_kind \<Rightarrow> world \<Rightarrow> nat" where
  "sends runID kind w = length (filter (\<lambda>c. on_behalf c = runID \<and> feishu_method c = send_method kind) (feishu_log w))"

text \<open>The delivery of that kind has left the state pending and was not suppressed.\<close>

definition started :: "string \<Rightarrow> delivery_kind \<Rightarrow> world \<Rightarrow> bool" where
  "started runID kind w \<longleftrightarrow> (\<exists>d \<in> set (scheduled_task_deliveries w). d_run_id d = runID \<and> d_kind d = kind
     \<and> 1 \<le> delivery_rank d \<and> d_outcome d \<noteq> Some DeliverySuppressed)"

definition sends_ok :: "world \<Rightarrow> bool" where
  "sends_ok w \<longleftrightarrow> outbox_ok w \<and> (\<forall>runID kind. sends runID kind w \<le> (if started runID kind w then 1 else 0))"

lemma sends_okD: "sends_ok w \<Longrightarrow> sends i k w \<le> (if started i k w then 1 else 0)"
  unfolding sends_ok_def by blast

lemma started_mono:
  assumes "deliveries_rel w w'" and "started i k w"
  shows "started i k w'"
proof -
  from assms(2) obtain d where d: "d \<in> set (scheduled_task_deliveries w)" "d_run_id d = i" "d_kind d = k"
    "1 \<le> delivery_rank d" "d_outcome d \<noteq> Some DeliverySuppressed" by (auto simp: started_def)
  from deliveries.evolves_moves [OF assms(1) d(1)] obtain d' where "d' \<in> set (scheduled_task_deliveries w')"
    "delivery_moves d d'" by blast
  with d show ?thesis by (force simp: started_def delivery_moves_def delivery_identity_def)
qed

lemma sends_ok_quiet_step:
  assumes "sends_ok w" and "outbox_ok w'" and "deliveries_rel w w'" and "feishu_log w' = feishu_log w"
  shows "sends_ok w'"
  unfolding sends_ok_def
proof (intro conjI allI)
  fix i k
  have "sends i k w' \<le> (if started i k w then 1 else 0)" using assms(1,4) by (simp add: sends_ok_def sends_def)
  then show "sends i k w' \<le> (if started i k w' then 1 else 0)"
    using started_mono [OF assms(3), of i k] by (auto split: if_splits)
qed (rule assms(2))

text \<open>Operations of the outbox make no external call.\<close>

abbreviation log_rel :: "world \<Rightarrow> world \<Rightarrow> bool" where
  "log_rel w w' \<equiv> feishu_log w' = feishu_log w"

interpretation log: world_relation log_rel
  by unfold_locales auto

lemma log_update: "preserves log_rel (exec (\<lambda>w. update_deliveries (p w) (f w) w))"
    "preserves log_rel (exec (update_deliveries p' f'))" "preserves log_rel (exec (insert_deliveries sel))"
  by (rule log.preserves_exec, simp add: preserves_def update_deliveries_def insert_deliveries_def)+

lemma log_loadDelivery: "preserves log_rel (loadDelivery i k n)"
  unfolding loadDelivery_def by (intro log.preserves_intros)

lemma log_store_ops:
  "preserves log_rel (CreateResultDelivery r now i runID)" "preserves log_rel (CreateFallbackAfterRejected r i runID)"
  "preserves log_rel (ClaimDelivery r i)" "preserves log_rel (CompleteDelivery r now i out h)"
  "preserves log_rel (ReconcileInFlightDeliveries r now)" "preserves log_rel (LoadDeliveryRoute r i)"
  unfolding CreateResultDelivery_def CreateFallbackAfterRejected_def ClaimDelivery_def CompleteDelivery_def
    ReconcileInFlightDeliveries_def LoadDeliveryRoute_def Let_def
  by (intro log.preserves_intros log_update log_loadDelivery)+

lemma sends_ok_op:
  assumes "preserves outbox_rel m" and "preserves deliveries_rel m" and "preserves log_rel m" and "sends_ok w"
  shows "sends_ok (snd (m w))"
  using assms(4) by (rule sends_ok_quiet_step)
    (use assms in \<open>auto simp: sends_ok_def preserves_def\<close>)

lemmas outbox_store_ops = outbox_CreateResultDelivery outbox_CreateFallback outbox_ClaimDelivery
  outbox_CompleteDelivery outbox_Reconcile outbox_LoadDeliveryRoute

text \<open>The row a loaded intent points at.\<close>

definition intent_row :: "string \<Rightarrow> string \<Rightarrow> delivery_kind \<Rightarrow> world \<Rightarrow> bool" where
  "intent_row i runID kind w \<longleftrightarrow> (\<exists>d \<in> set (scheduled_task_deliveries w). d_id d = i \<and> d_run_id d = runID \<and> d_kind d = kind)"

lemma intent_row_mono:
  assumes "deliveries_rel w w'" and "intent_row i runID k w"
  shows "intent_row i runID k w'"
proof -
  from assms(2) obtain d where d: "d \<in> set (scheduled_task_deliveries w)" "d_id d = i" "d_run_id d = runID" "d_kind d = k"
    by (auto simp: intent_row_def)
  from deliveries.evolves_moves [OF assms(1) d(1)] d show ?thesis
    by (fastforce simp: intent_row_def delivery_moves_def delivery_identity_def)
qed

lemma loadDelivery_Inr:
  "loadDelivery runID k n w = (Inr intent, w') \<Longrightarrow> intent_row (Intent_ID intent) runID k w'"
  by (auto simp: loadDelivery_def op_Inr intent_row_def dest!: sql_first_SomeD)

lemma CreateResultDelivery_Inr:
  assumes "CreateResultDelivery r now i runID w = (Inr intent, w')"
  shows "intent_row (Intent_ID intent) runID DeliveryResultCard w'"
proof -
  from assms obtain v :: "nat res" and w1 where
    "(case v of Inr count \<Rightarrow> if count \<noteq> 1 then fail ErrRunClaimLost else loadDelivery runID DeliveryResultCard 1
          | Inl err \<Rightarrow> if err \<noteq> ErrDuplicateKey then fail (Wrapf ''create schedule result delivery'' err)
              else loadDelivery runID DeliveryResultCard 1) w1 = (Inr intent, w')"
    unfolding CreateResultDelivery_def guard_Inr_iff attempt_Inr_iff by blast
  then have "loadDelivery runID DeliveryResultCard 1 w1 = (Inr intent, w')"
    by (cases v) (simp_all add: guard_Inr_iff)
  then show ?thesis by (rule loadDelivery_Inr)
qed

lemma CreateFallback_Inr:
  assumes "CreateFallbackAfterRejected r i runID w = (Inr intent, w')" and "Intent_ID intent \<noteq> []"
  shows "intent_row (Intent_ID intent) runID DeliveryFallbackText w'"
proof -
  let ?sel = "\<lambda>w. map (fallback_row i (clock w))
           (filter (\<lambda>d. d_run_id d = runID \<and> d_kind d = DeliveryResultCard \<and> d_attempt d = 1
              \<and> d_stage d = None \<and> d_outcome d = Some DeliveryRejected) (scheduled_task_deliveries w))"
  from assms(1) obtain v w1 where ins: "exec (insert_deliveries ?sel) w = (v, w1)"
    and k: "(case v of Inl err \<Rightarrow> if err \<noteq> ErrDuplicateKey then fail (Wrapf ''create schedule fallback delivery'' err)
              else loadDelivery runID DeliveryFallbackText 1
          | Inr count \<Rightarrow> if count \<noteq> 1 then ret no_intent
              else ret \<lparr>Intent_ID = i, Intent_RunID = runID, Intent_Kind = Some DeliveryFallbackText,
                Intent_Attempt = 1, Intent_Stage = Some DeliveryPending, Intent_Outcome = None\<rparr>) w1 = (Inr intent, w')"
    unfolding CreateFallbackAfterRejected_def by (auto simp: guard_Inr_iff attempt_Inr_iff simp del: One_nat_def)
  show ?thesis
  proof (cases v)
    case (Inl e)
    then show ?thesis using k by (auto simp: op_Inr loadDelivery_Inr split: if_splits)
  next
    case (Inr n)
    with ins have ins': "insert_deliveries ?sel (pop_fault w) = (Inr n, w1)" by (simp add: exec_Inr_iff)
    have n: "n = 1" "intent = \<lparr>Intent_ID = i, Intent_RunID = runID, Intent_Kind = Some DeliveryFallbackText,
                Intent_Attempt = 1, Intent_Stage = Some DeliveryPending, Intent_Outcome = None\<rparr>" "w' = w1"
      using k Inr assms(2) by (auto simp: no_intent_def split: if_splits)
    from ins' show ?thesis
    proof (rule insert_deliveries_Inr [of ?sel "pop_fault w" n w1 i])
      show "\<And>x. x \<in> set (?sel (pop_fault w)) \<Longrightarrow> d_id x = i" by (auto simp: fallback_row_def)
    next
      fix x assume x: "?sel (pop_fault w) = [x]"
        and w1: "w1 = (pop_fault w)\<lparr>scheduled_task_deliveries := scheduled_task_deliveries (pop_fault w) @ [x]\<rparr>"
      have "x \<in> set (?sel (pop_fault w))" unfolding x by simp
      then have "d_id x = i" "d_run_id x = runID" "d_kind x = DeliveryFallbackText" by (auto simp: fallback_row_def)
      then show ?thesis using n w1 by (simp add: intent_row_def)
    qed (use n in simp)
  qed
qed

text \<open>A successful claim starts a delivery that had not been started.\<close>

lemma ClaimDelivery_True:
  assumes ok: "outbox_ok w" and row: "intent_row i runID kind w" and c: "ClaimDelivery r i w = (Inr True, w')"
  shows "\<not> started runID kind w" and "started runID kind w'"
proof -
  let ?p = "\<lambda>d. d_id d = i \<and> d_stage d = Some DeliveryPending \<and> d_outcome d = None"
  from c have aff: "sql_affected ?p (\<lambda>d. d\<lparr>d_stage := Some DeliveryInFlight, d_updated_at := clock w\<rparr>) (scheduled_task_deliveries w) = 1"
    and w': "scheduled_task_deliveries w' = sql_update ?p (\<lambda>d. d\<lparr>d_stage := Some DeliveryInFlight, d_updated_at := clock w\<rparr>) (scheduled_task_deliveries w)"
    by (auto simp: ClaimDelivery_def op_Inr update_deliveries_def)
  have "0 < sql_affected ?p (\<lambda>d. d\<lparr>d_stage := Some DeliveryInFlight, d_updated_at := clock w\<rparr>) (scheduled_task_deliveries w)"
    using aff by linarith
  from sql_affected_pos_ex [OF this] obtain d where d: "d \<in> set (scheduled_task_deliveries w)" "?p d" by blast
  from row obtain e where e: "e \<in> set (scheduled_task_deliveries w)" "d_id e = i" "d_run_id e = runID" "d_kind e = kind"
    by (auto simp: intent_row_def)
  have ids: "distinct (map d_id (scheduled_task_deliveries w))"
    and keys: "distinct (map (\<lambda>d. (d_run_id d, d_kind d, d_attempt d)) (scheduled_task_deliveries w))"
    and one: "\<And>d. d \<in> set (scheduled_task_deliveries w) \<Longrightarrow> d_attempt d = 1"
    using ok by (auto simp: outbox_ok_def)
  have "d = e" using distinct_key_unique [OF ids d(1) e(1)] d(2) e(2) by simp
  then have d': "d_run_id d = runID" "d_kind d = kind" using e by auto
  show "\<not> started runID kind w"
  proof
    assume "started runID kind w"
    then obtain s where s: "s \<in> set (scheduled_task_deliveries w)" "d_run_id s = runID" "d_kind s = kind" "1 \<le> delivery_rank s"
      by (auto simp: started_def)
    then have "s = d" using distinct_key_unique [OF keys s(1) d(1)] d' one [OF s(1)] one [OF d(1)] by simp
    then show False using s(4) d(2) by (simp add: delivery_rank_def)
  qed
  have "d\<lparr>d_stage := Some DeliveryInFlight, d_updated_at := clock w\<rparr> \<in> set (scheduled_task_deliveries w')"
    using d unfolding w' set_sql_update by (auto simp: image_iff)
  then show "started runID kind w'" unfolding started_def using d' d(2)
    by (intro bexI [of _ "d\<lparr>d_stage := Some DeliveryInFlight, d_updated_at := clock w\<rparr>"]) (auto simp: delivery_rank_def)
qed

text \<open>Between a successful claim and the call.\<close>

definition may_send :: "string \<Rightarrow> delivery_kind \<Rightarrow> world \<Rightarrow> bool" where
  "may_send runID kind w \<longleftrightarrow> sends_ok w \<and> started runID kind w \<and> sends runID kind w = 0"

lemma may_send_ok: "may_send i k w \<Longrightarrow> sends_ok w"
  by (simp add: may_send_def)

lemma claim_triple:
  "triple (\<lambda>w. sends_ok w \<and> intent_row i runID kind w) (ClaimDelivery r i)
     (\<lambda>got w. if got then may_send runID kind w else sends_ok w) sends_ok"
proof (rule tripleI)
  fix w e w' assume w: "sends_ok w \<and> intent_row i runID kind w" and c: "ClaimDelivery r i w = (Inl e, w')"
  show "sends_ok w'" using sends_ok_op [OF outbox_ClaimDelivery deliveries_ClaimDelivery log_store_ops(3), of w r i] w c by simp
next
  fix w got w' assume w: "sends_ok w \<and> intent_row i runID kind w" and c: "ClaimDelivery r i w = (Inr got, w')"
  have ok': "sends_ok w'" using sends_ok_op [OF outbox_ClaimDelivery deliveries_ClaimDelivery log_store_ops(3), of w r i] w c by simp
  have "feishu_log w' = feishu_log w" using preservesD [OF log_store_ops(3), of r i w] c by simp
  moreover have "got \<Longrightarrow> sends runID kind w = 0"
    using ClaimDelivery_True(1) [of w i runID kind r w'] w c sends_okD [of w runID kind] by (simp add: sends_ok_def)
  moreover have "got \<Longrightarrow> started runID kind w'"
    using ClaimDelivery_True(2) [of w i runID kind r w'] w c by (simp add: sends_ok_def)
  ultimately show "if got then may_send runID kind w' else sends_ok w'"
    using ok' by (simp add: may_send_def sends_def)
qed

lemma call_triple:
  "triple (may_send runID kind) (call_feishu (FeishuCall runID (send_method kind) a b c)) (\<lambda>_. sends_ok) sends_ok"
proof (rule tripleI)
  fix w u w' assume m: "may_send runID kind w" and c: "call_feishu (FeishuCall runID (send_method kind) a b c) w = (Inr u, w')"
  then have w': "w' = w\<lparr>feishu_log := feishu_log w @ [FeishuCall runID (send_method kind) a b c]\<rparr>" by (simp add: call_feishu_def)
  have inj: "send_method k = send_method kind \<longleftrightarrow> k = kind" for k by (cases k; cases kind) auto
  have "sends i k w' = sends i k w + (if i = runID \<and> k = kind then 1 else 0)" for i k
    by (auto simp: w' sends_def inj) (metis inj)
  moreover have "started i k w' = started i k w" for i k by (simp add: w' started_def)
  moreover have "outbox_ok w'" using m by (simp add: w' outbox_ok_def may_send_def sends_ok_def)
  moreover have "sends i k w + (if i = runID \<and> k = kind then 1 else 0) \<le> (if started i k w then 1 else 0)" for i k
    using m sends_okD [of w i k] by (cases "i = runID \<and> k = kind") (auto simp: may_send_def)
  ultimately show "sends_ok w'" by (simp add: sends_ok_def)
qed (simp add: call_feishu_def)

lemma store_triple:
  assumes "preserves outbox_rel m" and "preserves deliveries_rel m" and "preserves log_rel m"
  shows "triple sends_ok m (\<lambda>_. sends_ok) sends_ok"
  unfolding triple_snd_iff using sends_ok_op [OF assms] by blast

lemma store_triple_row:
  assumes "preserves outbox_rel m" and "preserves deliveries_rel m" and "preserves log_rel m"
  shows "triple (\<lambda>w. sends_ok w \<and> intent_row i runID k w) m (\<lambda>_ w. sends_ok w \<and> intent_row i runID k w) sends_ok"
proof (rule tripleI)
  fix w x w' assume w: "sends_ok w \<and> intent_row i runID k w" and m: "m w = (Inr x, w')"
  have "sends_ok w'" using sends_ok_op [OF assms, of w] w m by simp
  moreover have "deliveries_rel w w'" using preservesD [OF assms(2), of w] m by simp
  ultimately show "sends_ok w' \<and> intent_row i runID k w'" using w intent_row_mono by blast
next
  fix w e w' assume "sends_ok w \<and> intent_row i runID k w" and "m w = (Inl e, w')"
  then show "sends_ok w'" using sends_ok_op [OF assms, of w] by simp
qed

lemma create_triple:
  "triple sends_ok (CreateResultDelivery r now i runID)
     (\<lambda>intent w. sends_ok w \<and> intent_row (Intent_ID intent) runID DeliveryResultCard w) sends_ok"
  "triple sends_ok (CreateFallbackAfterRejected r i runID)
     (\<lambda>intent w. sends_ok w \<and> (Intent_ID intent \<noteq> [] \<longrightarrow> intent_row (Intent_ID intent) runID DeliveryFallbackText w)) sends_ok"
proof -
  note c = sends_ok_op [OF outbox_CreateResultDelivery deliveries_CreateResultDelivery log_store_ops(1)]
  show "triple sends_ok (CreateResultDelivery r now i runID)
     (\<lambda>intent w. sends_ok w \<and> intent_row (Intent_ID intent) runID DeliveryResultCard w) sends_ok"
    by (rule tripleI) (metis CreateResultDelivery_Inr c snd_conv)+
  note f = sends_ok_op [OF outbox_CreateFallback deliveries_CreateFallback log_store_ops(2)]
  show "triple sends_ok (CreateFallbackAfterRejected r i runID)
     (\<lambda>intent w. sends_ok w \<and> (Intent_ID intent \<noteq> [] \<longrightarrow> intent_row (Intent_ID intent) runID DeliveryFallbackText w)) sends_ok"
    by (rule tripleI) (metis CreateFallback_Inr f snd_conv)+
qed

lemmas complete_triple = store_triple [OF outbox_CompleteDelivery deliveries_CompleteDelivery log_store_ops(4)]
lemmas call_text_triple = call_triple [where kind = DeliveryFallbackText, simplified]
lemmas call_card_triple = call_triple [where kind = DeliveryResultCard, simplified]

lemma sendFallback_triple: "triple sends_ok (sendFallback r d now i route runID) (\<lambda>_. sends_ok) sends_ok"
  unfolding sendFallback_def
proof (intro triple_and_then [OF create_triple(2)] triple_If)
  fix intent :: DeliveryIntent
  show "triple (\<lambda>w. sends_ok w \<and> (Intent_ID intent \<noteq> [] \<longrightarrow> intent_row (Intent_ID intent) runID DeliveryFallbackText w))
      (ret ()) (\<lambda>_. sends_ok) sends_ok" by (rule triple_ret) simp
  assume id: "Intent_ID intent \<noteq> []"
  show "triple (\<lambda>w. sends_ok w \<and> (Intent_ID intent \<noteq> [] \<longrightarrow> intent_row (Intent_ID intent) runID DeliveryFallbackText w))
     (and_then (ClaimDelivery r (Intent_ID intent)) id (\<lambda>got.
         if \<not> got then ret ()
         else if \<not> sender_for d (Dest_AppID route) then fail (Errorf ''scheduled result sender is unavailable'')
         else and_then (call_feishu (FeishuCall runID ''SendCommandText'' (Dest_ReplyID route) (Dest_ReplyType route) fallback_text)) id
           (\<lambda>_. (let (outcome, messageHMAC) = sent_outcome r (text_answer d (Dest_ReplyID route) (Dest_ReplyType route) fallback_text) in
             and_then (CompleteDelivery r now (Intent_ID intent) outcome messageHMAC) id
               (\<lambda>completed. if \<not> completed then fail ErrDeliveryCompletionLost else ret ())))))
     (\<lambda>_. sends_ok) sends_ok" (is "triple _ (and_then ?c id ?k) _ _")
  proof (rule triple_and_then)
    show "triple (\<lambda>w. sends_ok w \<and> (Intent_ID intent \<noteq> [] \<longrightarrow> intent_row (Intent_ID intent) runID DeliveryFallbackText w)) ?c
       (\<lambda>got w. if got then may_send runID DeliveryFallbackText w else sends_ok w) sends_ok"
      by (rule triple_weaken [OF claim_triple]) (use id in simp_all)
    show "triple (\<lambda>w. if got then may_send runID DeliveryFallbackText w else sends_ok w) (?k got) (\<lambda>_. sends_ok) sends_ok" for got
      by (cases got) (auto intro!: triple_ret triple_fail triple_and_then [OF call_text_triple]
          triple_and_then [OF complete_triple] dest: may_send_ok split: prod.split)
  qed
qed

lemma Deliver_triple: "triple sends_ok (Deliver r d now i j runID p) (\<lambda>_. sends_ok) sends_ok"
  unfolding Deliver_def Let_def
proof (intro triple_If triple_and_then [OF create_triple(1)])
  show "triple sends_ok (fail (Errorf ''scheduled result delivery is not configured'')) (\<lambda>_. sends_ok) sends_ok"
    by (rule triple_fail)
  fix intent :: DeliveryIntent
  let ?P = "\<lambda>w. sends_ok w \<and> intent_row (Intent_ID intent) runID DeliveryResultCard w"
  show "triple ?P (ret ()) (\<lambda>_. sends_ok) sends_ok" by (rule triple_ret) simp
  show "triple ?P (fail (Errorf ''scheduled result sender is unavailable'')) (\<lambda>_. sends_ok) sends_ok" by (rule triple_fail) simp
  note route = store_triple_row [OF outbox_LoadDeliveryRoute deliveries_LoadDeliveryRoute log_store_ops(6)]
  show "triple ?P (and_then (LoadDeliveryRoute r runID) id (\<lambda>route.
          and_then (ClaimDelivery r (Intent_ID intent)) id (\<lambda>got.
            if \<not> got then ret ()
            else if \<not> sender_for d (Dest_AppID route) then fail (Errorf ''scheduled result sender is unavailable'')
            else and_then (call_feishu (FeishuCall runID ''SendStaticCard'' (Dest_ReplyID route) (Dest_ReplyType route) (renderResultCard (Dest_Kind route) p))) id
                (\<lambda>_. case sent_outcome r (card_answer d (Dest_ReplyID route) (Dest_ReplyType route) (renderResultCard (Dest_Kind route) p)) of
                  (outcome, messageHMAC) \<Rightarrow>
                  and_then (CompleteDelivery r now (Intent_ID intent) outcome messageHMAC) id
                    (\<lambda>completed. if \<not> completed then fail ErrDeliveryCompletionLost
                      else if outcome \<noteq> DeliveryRejected then ret ()
                      else sendFallback r d now j route runID))))) (\<lambda>_. sends_ok) sends_ok"
  proof (intro triple_and_then [OF route] triple_and_then [OF claim_triple])
    fix route got
    show "triple (\<lambda>w. if got then may_send runID DeliveryResultCard w else sends_ok w)
       (if \<not> got then ret ()
            else if \<not> sender_for d (Dest_AppID route) then fail (Errorf ''scheduled result sender is unavailable'')
            else and_then (call_feishu (FeishuCall runID ''SendStaticCard'' (Dest_ReplyID route) (Dest_ReplyType route) (renderResultCard (Dest_Kind route) p))) id
                (\<lambda>_. case sent_outcome r (card_answer d (Dest_ReplyID route) (Dest_ReplyType route) (renderResultCard (Dest_Kind route) p)) of
                  (outcome, messageHMAC) \<Rightarrow>
                  and_then (CompleteDelivery r now (Intent_ID intent) outcome messageHMAC) id
                    (\<lambda>completed. if \<not> completed then fail ErrDeliveryCompletionLost
                      else if outcome \<noteq> DeliveryRejected then ret ()
                      else sendFallback r d now j route runID))) (\<lambda>_. sends_ok) sends_ok"
      by (cases got) (auto intro!: triple_ret triple_fail triple_and_then [OF call_card_triple]
          triple_and_then [OF complete_triple] sendFallback_triple dest: may_send_ok split: prod.split)
  qed
qed

section \<open>What the invariants say\<close>

text \<open>A silent run is never announced, and a fallback text implies a rejected card.\<close>

lemma silent_no_send:
  assumes ok: "sends_ok w" and ids: "distinct (map r_id (scheduled_task_runs w))"
    and x: "x \<in> set (scheduled_task_runs w)" "r_silent x"
  shows "sends (r_id x) k w = 0"
proof -
  have o: "outbox_ok w" using ok by (simp add: sends_ok_def)
  have card: False if d: "d \<in> set (scheduled_task_deliveries w)" "d_run_id d = r_id x" "d_kind d = DeliveryResultCard"
      "d_outcome d \<noteq> Some DeliverySuppressed" for d
  proof (rule outbox_cardD [OF o d(1,3)])
    fix y assume y: "y \<in> set (scheduled_task_runs w)" "r_id y = d_run_id d" "r_silent y \<longleftrightarrow> d_outcome d = Some DeliverySuppressed"
    have "y = x" using distinct_key_unique [OF ids y(1) x(1)] y(2) d(2) by simp
    then show False using y(3) x(2) d(4) by simp
  qed
  have "\<not> started (r_id x) k w"
  proof
    assume "started (r_id x) k w"
    then obtain d where d: "d \<in> set (scheduled_task_deliveries w)" "d_run_id d = r_id x" "d_kind d = k"
      "d_outcome d \<noteq> Some DeliverySuppressed" by (auto simp: started_def)
    show False
    proof (cases k)
      case DeliveryResultCard
      then show False using card d by blast
    next
      case DeliveryFallbackText
      then obtain c where "c \<in> set (scheduled_task_deliveries w)" "d_run_id c = d_run_id d" "d_kind c = DeliveryResultCard"
        "d_outcome c = Some DeliveryRejected" using outbox_fallbackD(2) [OF o d(1)] d(3) by blast
      then show False using card [of c] d(2) by simp
    qed
  qed
  then show ?thesis using sends_okD [OF ok, of "r_id x" k] by simp
qed

lemma fallback_after_rejected:
  assumes ok: "sends_ok w" and "0 < sends runID DeliveryFallbackText w"
  shows "\<exists>c \<in> set (scheduled_task_deliveries w). d_run_id c = runID \<and> d_kind c = DeliveryResultCard
     \<and> d_outcome c = Some DeliveryRejected"
proof -
  have "started runID DeliveryFallbackText w" using sends_okD [OF ok, of runID DeliveryFallbackText] assms(2)
    by (cases "started runID DeliveryFallbackText w") auto
  then obtain d where "d \<in> set (scheduled_task_deliveries w)" "d_run_id d = runID" "d_kind d = DeliveryFallbackText"
    by (auto simp: started_def)
  then show ?thesis using outbox_fallbackD(2) [of w d] ok by (auto simp: sends_ok_def)
qed

end
