(* ===== verification/Schedule_Tools.thy ===== *)
theory Schedule_Tools
  imports Schedule_Delivery
begin

text \<open>
  The durable ledger of dynamic tool calls (\<open>internal/schedule/tool_calls.go\<close>): a call of the App Server
  is claimed by its identity, runs its task mutation and records its answer in one transaction, and is
  answered from the ledger when it is repeated. Encoders of answers are parameters.
\<close>

section \<open>Data\<close>

record ToolCallIdentity =
  Call_AppID :: string
  Call_ChannelKey :: string
  Call_ChatGroupID :: string
  Call_ThreadID :: string
  Call_TurnID :: string
  Call_CallID :: string
  Call_Tool :: string

record ToolCallInput =
  Input_ID :: string
  Input_Identity :: ToolCallIdentity
  Input_ArgumentsHMAC :: string
  Input_Lease :: int

record ToolCallExecution =
  Exec_Payload :: string
  Exec_Success :: bool
  Exec_ErrorCode :: string
  Exec_Replay :: bool

datatype ToolCallClaimKind = ToolCallNew | ToolCallReplay | ToolCallConflict | ToolCallBusy

record ToolCallClaim =
  TC_Kind :: ToolCallClaimKind
  TC_Payload :: string
  TC_State :: "tool_call_state option"
  TC_ErrorCode :: string

definition ErrToolCallConflict :: go_error where
  "ErrToolCallConflict = Sentinel ''schedule tool call arguments conflict''"

definition ErrToolCallBusy :: go_error where
  "ErrToolCallBusy = Sentinel ''schedule tool call is already in flight''"

definition no_execution :: ToolCallExecution where
  "no_execution = \<lparr>Exec_Payload = [], Exec_Success = False, Exec_ErrorCode = [], Exec_Replay = False\<rparr>"

definition identity_valid :: "ToolCallIdentity \<Rightarrow> bool" where
  "identity_valid i \<longleftrightarrow> trim_space (Call_AppID i) \<noteq> [] \<and> trim_space (Call_ChannelKey i) \<noteq> []
     \<and> trim_space (Call_ChatGroupID i) \<noteq> [] \<and> trim_space (Call_ThreadID i) \<noteq> []
     \<and> trim_space (Call_TurnID i) \<noteq> [] \<and> trim_space (Call_CallID i) \<noteq> [] \<and> trim_space (Call_Tool i) \<noteq> []"

section \<open>The ledger table\<close>

definition same_call :: "ToolCallIdentity \<Rightarrow> tool_call_row \<Rightarrow> bool" where
  "same_call i c \<longleftrightarrow> c_app_id c = Call_AppID i \<and> c_thread_id c = Call_ThreadID i
     \<and> c_turn_id c = Call_TurnID i \<and> c_call_id c = Call_CallID i"

definition call_clash :: "tool_call_row \<Rightarrow> tool_call_row \<Rightarrow> bool" where
  "call_clash a b \<longleftrightarrow> c_id a = c_id b \<or> (c_app_id a = c_app_id b \<and> c_thread_id a = c_thread_id b
     \<and> c_turn_id a = c_turn_id b \<and> c_call_id a = c_call_id b)"

definition insert_tool_call :: "tool_call_row \<Rightarrow> unit op" where
  "insert_tool_call c w =
     (if sql_conflict call_clash c (scheduled_task_tool_calls w) then (Inl ErrDuplicateKey, w)
      else if \<not> list_ex (\<lambda>a. a_id a = c_app_id c) (apps w)
        \<or> \<not> list_ex (\<lambda>g. g_id g = c_chat_group_id c) (chat_groups w) then (Inl ErrForeignKey, w)
      else (Inr (), w\<lparr>scheduled_task_tool_calls := scheduled_task_tool_calls w @ [c]\<rparr>))"

definition update_tool_calls :: "(tool_call_row \<Rightarrow> bool) \<Rightarrow> (tool_call_row \<Rightarrow> tool_call_row) \<Rightarrow> nat op" where
  "update_tool_calls p f w = (Inr (sql_affected p f (scheduled_task_tool_calls w)),
     w\<lparr>scheduled_task_tool_calls := sql_update p f (scheduled_task_tool_calls w)\<rparr>)"

definition claim_call_row :: "ToolCallInput \<Rightarrow> go_time \<Rightarrow> tool_call_row" where
  "claim_call_row input now = \<lparr>c_id = Input_ID input, c_app_id = Call_AppID (Input_Identity input),
     c_channel_key = Call_ChannelKey (Input_Identity input), c_chat_group_id = Call_ChatGroupID (Input_Identity input),
     c_thread_id = Call_ThreadID (Input_Identity input), c_turn_id = Call_TurnID (Input_Identity input),
     c_call_id = Call_CallID (Input_Identity input), c_tool = Call_Tool (Input_Identity input),
     c_arguments_hmac = Input_ArgumentsHMAC input, c_state = ToolCallClaimed, c_result = None,
     c_error_code = None, c_lease_until = Some (now + Input_Lease input), c_completed_at = None\<rparr>"

definition text_of :: "string option \<Rightarrow> string" where
  "text_of s = (case s of None \<Rightarrow> [] | Some t \<Rightarrow> t)"

text \<open>The duplicate gate inside a transaction: \<open>True\<close> for a new call, otherwise the answer to repeat.\<close>

definition claimToolCallTx :: "ToolCallInput \<Rightarrow> go_time \<Rightarrow> (bool \<times> ToolCallExecution) op" where
  "claimToolCallTx input now = attempt (exec (insert_tool_call (claim_call_row input now))) (\<lambda>result. case result of
       Inr _ \<Rightarrow> ret (True, no_execution)
     | Inl err \<Rightarrow> if err \<noteq> ErrDuplicateKey then fail (Wrapf ''claim schedule tool call'' err)
         else and_then (query (\<lambda>w. sql_first (same_call (Input_Identity input)) (scheduled_task_tool_calls w)))
           (Wrapf ''load claimed schedule tool call'')
           (\<lambda>found. case found of None \<Rightarrow> fail (Wrapf ''load claimed schedule tool call'' ErrNoRows) | Some stored \<Rightarrow>
              if c_arguments_hmac stored \<noteq> Input_ArgumentsHMAC input then fail ErrToolCallConflict
              else if c_state stored = ToolCallSucceeded
                then ret (False, \<lparr>Exec_Payload = text_of (c_result stored), Exec_Success = True, Exec_ErrorCode = [], Exec_Replay = True\<rparr>)
              else if c_state stored = ToolCallRejected
                then ret (False, \<lparr>Exec_Payload = [], Exec_Success = False, Exec_ErrorCode = text_of (c_error_code stored), Exec_Replay = True\<rparr>)
              else fail ErrToolCallBusy))"

definition completeToolCallTx :: "ToolCallIdentity \<Rightarrow> string \<Rightarrow> go_time \<Rightarrow> unit op" where
  "completeToolCallTx i payload now =
     and_then (exec (update_tool_calls (\<lambda>c. same_call i c \<and> c_state c = ToolCallClaimed)
         (\<lambda>c. c\<lparr>c_state := ToolCallSucceeded, c_result := Some payload, c_lease_until := None, c_completed_at := Some now\<rparr>)))
       (Wrapf ''complete schedule tool call'')
       (\<lambda>changed. if changed \<noteq> 1 then fail ErrToolCallBusy else ret ())"

section \<open>Calls\<close>

text \<open>The defaults of the lease and of the row id.\<close>

definition fill_input :: "string \<Rightarrow> ToolCallInput \<Rightarrow> ToolCallInput" where
  "fill_input newID input = input\<lparr>Input_Lease := (if Input_Lease input \<le> 0 then seconds 30 else Input_Lease input),
     Input_ID := (if trim_space (Input_ID input) = [] then newID else Input_ID input)\<rparr>"

definition createToolTx :: "Repository \<Rightarrow> go_time \<Rightarrow> go_time \<Rightarrow> ToolCallInput \<Rightarrow> TaskDraft \<Rightarrow> (Task \<Rightarrow> string res) \<Rightarrow> ((go_error \<Rightarrow> go_error) \<times> ToolCallExecution) op" where
  "createToolTx r now now2 input draft encode =
     and_then (claimToolCallTx input now) id (\<lambda>(inserted, replay).
       if \<not> inserted then ret (Wrapf ''commit schedule tool replay'', replay)
       else and_then (checkCreateQuotaTx r (Draft_Owner draft)) id (\<lambda>_.
         and_then (createTaskExec r now2 draft) id (\<lambda>task.
           case encode task of Inl e \<Rightarrow> fail (Wrapf ''encode schedule tool result'' e) | Inr payload \<Rightarrow>
             and_then (completeToolCallTx (Input_Identity input) payload now) id (\<lambda>_.
               ret (Wrapf ''commit schedule tool call'',
                 \<lparr>Exec_Payload = payload, Exec_Success = True, Exec_ErrorCode = [], Exec_Replay = False\<rparr>)))))"

definition CreateTaskForToolCall :: "Repository \<Rightarrow> go_time \<Rightarrow> go_time \<Rightarrow> string \<Rightarrow> ToolCallInput \<Rightarrow> TaskDraft \<Rightarrow> (Task \<Rightarrow> string res) option \<Rightarrow> ToolCallExecution op" where
  "CreateTaskForToolCall r now now2 newID input draft enc =
     (if \<not> has_DB r then fail ErrNoDB
      else (case enc of None \<Rightarrow> fail (Errorf ''schedule tool result encoder is required'') | Some encode \<Rightarrow>
        if \<not> identity_valid (Input_Identity input) \<or> trim_space (Input_ArgumentsHMAC input) = []
          then fail (Errorf ''schedule tool call input is invalid'')
        else if trim_space (Input_ID (fill_input newID input)) = [] then fail (Errorf ''schedule tool call id is required'')
        else transaction (Wrapf ''begin schedule tool call'')
          (createToolTx r now now2 (fill_input newID input) draft encode)))"

definition listToolTx :: "Repository \<Rightarrow> go_time \<Rightarrow> ToolCallInput \<Rightarrow> Owner \<Rightarrow> CursorPosition option \<Rightarrow> int \<Rightarrow> (TaskPage \<Rightarrow> string res) \<Rightarrow> ((go_error \<Rightarrow> go_error) \<times> ToolCallExecution) op" where
  "listToolTx r now input owner after pageSize encode =
     and_then (claimToolCallTx input now) id (\<lambda>(inserted, replay).
       if \<not> inserted then ret (Wrapf ''commit schedule tool replay'', replay)
       else and_then (listOwnedTasksQuery r owner after pageSize) id (\<lambda>page.
         case encode page of Inl e \<Rightarrow> fail (Wrapf ''encode schedule tool result'' e) | Inr payload \<Rightarrow>
           and_then (completeToolCallTx (Input_Identity input) payload now) id (\<lambda>_.
             ret (Wrapf ''commit schedule tool list'',
               \<lparr>Exec_Payload = payload, Exec_Success = True, Exec_ErrorCode = [], Exec_Replay = False\<rparr>))))"

definition ListOwnedTasksForToolCall :: "Repository \<Rightarrow> go_time \<Rightarrow> string \<Rightarrow> ToolCallInput \<Rightarrow> Owner \<Rightarrow> CursorPosition option \<Rightarrow> int \<Rightarrow> (TaskPage \<Rightarrow> string res) option \<Rightarrow> ToolCallExecution op" where
  "ListOwnedTasksForToolCall r now newID input owner after pageSize enc =
     (if \<not> has_DB r then fail ErrNoDB
      else (case enc of None \<Rightarrow> fail (Errorf ''schedule tool result encoder is required'') | Some encode \<Rightarrow>
        if \<not> identity_valid (Input_Identity input) \<or> trim_space (Input_ArgumentsHMAC input) = []
          then fail (Errorf ''schedule tool call input is invalid'')
        else transaction (Wrapf ''begin schedule tool list'')
          (listToolTx r now (fill_input newID input) owner after pageSize encode)))"

definition updateToolTx :: "Repository \<Rightarrow> go_time \<Rightarrow> go_time \<Rightarrow> ToolCallInput \<Rightarrow> TaskPatch \<Rightarrow> (Task \<Rightarrow> string res) \<Rightarrow> ((go_error \<Rightarrow> go_error) \<times> ToolCallExecution) op" where
  "updateToolTx r now now2 input patch encode =
     and_then (claimToolCallTx input now) id (\<lambda>(inserted, replay).
       if \<not> inserted then ret (Wrapf ''commit schedule tool replay'', replay)
       else and_then (updateTaskTx r now2 patch) id (\<lambda>task.
         case encode task of Inl e \<Rightarrow> fail (Wrapf ''encode schedule tool result'' e) | Inr payload \<Rightarrow>
           and_then (completeToolCallTx (Input_Identity input) payload now) id (\<lambda>_.
             ret (Wrapf ''commit schedule tool update'',
               \<lparr>Exec_Payload = payload, Exec_Success = True, Exec_ErrorCode = [], Exec_Replay = False\<rparr>))))"

definition UpdateTaskForToolCall :: "Repository \<Rightarrow> go_time \<Rightarrow> go_time \<Rightarrow> string \<Rightarrow> ToolCallInput \<Rightarrow> TaskPatch \<Rightarrow> (Task \<Rightarrow> string res) option \<Rightarrow> ToolCallExecution op" where
  "UpdateTaskForToolCall r now now2 newID input patch enc =
     (if \<not> has_DB r then fail ErrNoDB
      else (case enc of None \<Rightarrow> fail (Errorf ''schedule tool result encoder is required'') | Some encode \<Rightarrow>
        if \<not> identity_valid (Input_Identity input) \<or> trim_space (Input_ArgumentsHMAC input) = []
          then fail (Errorf ''schedule tool call input is invalid'')
        else transaction (Wrapf ''begin schedule tool update'')
          (updateToolTx r now now2 (fill_input newID input) patch encode)))"

definition ClaimToolCall :: "Repository \<Rightarrow> go_time \<Rightarrow> string \<Rightarrow> ToolCallInput \<Rightarrow> ToolCallClaim op" where
  "ClaimToolCall r now newID input =
     (if \<not> has_DB r then fail ErrNoDB
      else if \<not> identity_valid (Input_Identity input) \<or> trim_space (Input_ArgumentsHMAC input) = []
        then fail (Errorf ''schedule tool call input is invalid'')
      else if trim_space (Input_ID (fill_input newID input)) = [] then fail (Errorf ''schedule tool call id is required'')
      else attempt (exec (insert_tool_call (claim_call_row (fill_input newID input) now))) (\<lambda>result. case result of
           Inr _ \<Rightarrow> ret \<lparr>TC_Kind = ToolCallNew, TC_Payload = [], TC_State = None, TC_ErrorCode = []\<rparr>
         | Inl err \<Rightarrow> if err \<noteq> ErrDuplicateKey then fail (Wrapf ''claim schedule tool call'' err)
             else and_then (query (\<lambda>w. sql_first (same_call (Input_Identity input)) (scheduled_task_tool_calls w)))
               (Wrapf ''load claimed schedule tool call'')
               (\<lambda>found. case found of None \<Rightarrow> fail (Wrapf ''load claimed schedule tool call'' ErrNoRows) | Some stored \<Rightarrow>
                  if c_arguments_hmac stored \<noteq> Input_ArgumentsHMAC input
                    then ret \<lparr>TC_Kind = ToolCallConflict, TC_Payload = [], TC_State = None, TC_ErrorCode = []\<rparr>
                  else if c_state stored = ToolCallSucceeded \<or> c_state stored = ToolCallRejected
                    then ret \<lparr>TC_Kind = ToolCallReplay, TC_Payload = text_of (c_result stored),
                      TC_State = Some (c_state stored), TC_ErrorCode = text_of (c_error_code stored)\<rparr>
                  else ret \<lparr>TC_Kind = ToolCallBusy, TC_Payload = [], TC_State = None, TC_ErrorCode = []\<rparr>)))"

definition ReconcileExpiredToolCalls :: "Repository \<Rightarrow> go_time \<Rightarrow> nat op" where
  "ReconcileExpiredToolCalls r now =
     (if \<not> has_DB r then fail ErrNoDB
      else if is_zero_time now then fail (Errorf ''schedule tool-call reconcile time is required'')
      else and_then
        (exec (update_tool_calls
          (\<lambda>c. (c_state c = ToolCallClaimed \<or> c_state c = ToolCallInFlight)
             \<and> (case c_lease_until c of None \<Rightarrow> False | Some l \<Rightarrow> l < now))
          (\<lambda>c. c\<lparr>c_state := ToolCallRejected, c_error_code := Some ''tool_call_lease_expired'',
              c_lease_until := None, c_completed_at := Some now\<rparr>)))
        (Wrapf ''reconcile expired schedule tool calls'') ret)"

section \<open>The lifecycle of a call\<close>

definition call_final :: "tool_call_row \<Rightarrow> bool" where
  "call_final c \<longleftrightarrow> c_state c = ToolCallSucceeded \<or> c_state c = ToolCallRejected"

definition call_key :: "tool_call_row \<Rightarrow> string \<times> string \<times> string \<times> string \<times> string \<times> string" where
  "call_key c = (c_id c, c_app_id c, c_thread_id c, c_turn_id c, c_call_id c, c_arguments_hmac c)"

definition call_moves :: "tool_call_row \<Rightarrow> tool_call_row \<Rightarrow> bool" where
  "call_moves x y \<longleftrightarrow> y = x \<or> (call_key y = call_key x \<and> \<not> call_final x \<and> call_final y)"

interpretation calls: ledger_table call_moves call_final scheduled_task_tool_calls
  by unfold_locales (auto simp: call_moves_def)

abbreviation calls_rel :: "world \<Rightarrow> world \<Rightarrow> bool" where
  "calls_rel w w' \<equiv> evolves call_moves (scheduled_task_tool_calls w) (scheduled_task_tool_calls w')"

lemma calls_rel_stmts:
  "preserves calls_rel (exec (insert_tool_call c))" "preserves calls_rel (exec (insert_task t))"
  "preserves calls_rel (exec (update_tasks p f))" "preserves calls_rel (exec (\<lambda>w. insert_task (g w) w))"
  by (rule calls.tab.preserves_exec, rule preservesI,
      simp add: insert_tool_call_def insert_task_def update_tasks_def calls.evolves_refl calls.evolves_append)+

lemma calls_rel_update:
  assumes "\<And>c. q c \<Longrightarrow> call_moves c (f c)"
  shows "preserves calls_rel (exec (update_tool_calls q f))"
  by (rule calls.tab.preserves_exec, rule preservesI)
    (use assms in \<open>simp add: update_tool_calls_def calls.evolves_update\<close>)

lemma calls_completeToolCallTx: "preserves calls_rel (completeToolCallTx i p n)"
  unfolding completeToolCallTx_def
  by (intro calls.tab.preserves_intros calls_rel_update) (auto simp: call_moves_def call_key_def call_final_def)

lemma calls_claimToolCallTx: "preserves calls_rel (claimToolCallTx input now)"
  unfolding claimToolCallTx_def by (intro calls.tab.preserves_intros calls_rel_stmts)

lemma calls_task_ops:
  "preserves calls_rel (checkCreateQuotaTx r owner)" "preserves calls_rel (createTaskExec r n d)"
  "preserves calls_rel (updateStoredTask r n patch h stored)" "preserves calls_rel (listOwnedTasksQuery r owner a k)"
  unfolding checkCreateQuotaTx_def createTaskExec_def updateStoredTask_def listOwnedTasksQuery_def Let_def
  by (intro calls.tab.preserves_intros calls_rel_stmts)+

lemma calls_updateTaskTx: "preserves calls_rel (updateTaskTx r n patch)"
  unfolding updateTaskTx_def by (intro calls.tab.preserves_intros calls_task_ops)

lemmas calls_tx_ops = calls_claimToolCallTx calls_completeToolCallTx calls_task_ops calls_updateTaskTx

lemma calls_tool_ops:
  "preserves calls_rel (CreateTaskForToolCall r now now2 i input draft e1)"
  "preserves calls_rel (ListOwnedTasksForToolCall r now i input owner a n e2)"
  "preserves calls_rel (UpdateTaskForToolCall r now now2 i input patch e3)"
  "preserves calls_rel (ClaimToolCall r now i input)"
  unfolding CreateTaskForToolCall_def ListOwnedTasksForToolCall_def UpdateTaskForToolCall_def ClaimToolCall_def
    createToolTx_def listToolTx_def updateToolTx_def
  by (intro calls.tab.preserves_intros calls_tx_ops calls_rel_stmts)+

lemma calls_Reconcile: "preserves calls_rel (ReconcileExpiredToolCalls r now)"
  unfolding ReconcileExpiredToolCalls_def
  by (intro calls.tab.preserves_intros calls_rel_update) (auto simp: call_moves_def call_key_def call_final_def)

section \<open>Unique call identities\<close>

definition calls_unique :: "tool_call_row list \<Rightarrow> bool" where
  "calls_unique rows \<longleftrightarrow> distinct (map (\<lambda>c. (c_app_id c, c_thread_id c, c_turn_id c, c_call_id c)) rows)"

interpretation ucalls: world_invariant "\<lambda>w. calls_unique (scheduled_task_tool_calls w)"
  by unfold_locales simp

abbreviation ucalls_rel :: "world \<Rightarrow> world \<Rightarrow> bool" where
  "ucalls_rel w w' \<equiv> calls_unique (scheduled_task_tool_calls w) \<longrightarrow> calls_unique (scheduled_task_tool_calls w')"

lemma ucalls_stmts:
  "preserves ucalls_rel (exec (insert_tool_call c))" "preserves ucalls_rel (exec (insert_task t))"
  "preserves ucalls_rel (exec (update_tasks p f))" "preserves ucalls_rel (exec (\<lambda>w. insert_task (g w) w))"
  by (rule ucalls.inv_rel.preserves_exec, rule preservesI,
      force simp: insert_tool_call_def insert_task_def update_tasks_def calls_unique_def sql_conflict_def call_clash_def)+

lemma ucalls_update:
  assumes "\<And>c. call_key (f c) = call_key c"
  shows "preserves ucalls_rel (exec (update_tool_calls q f))"
proof (rule ucalls.inv_rel.preserves_exec, rule preservesI)
  fix w
  have "map (\<lambda>c. (c_app_id c, c_thread_id c, c_turn_id c, c_call_id c)) (sql_update q f rows)
    = map (\<lambda>c. (c_app_id c, c_thread_id c, c_turn_id c, c_call_id c)) rows" for rows
    by (rule map_sql_update) (use assms in \<open>simp add: call_key_def\<close>)
  then show "ucalls_rel w (snd (update_tool_calls q f w))" by (simp add: update_tool_calls_def calls_unique_def)
qed

lemma ucalls_tx_ops:
  "preserves ucalls_rel (claimToolCallTx input now)" "preserves ucalls_rel (completeToolCallTx i p n)"
  "preserves ucalls_rel (checkCreateQuotaTx r owner)" "preserves ucalls_rel (createTaskExec r n d)"
  "preserves ucalls_rel (updateStoredTask r n patch h stored)" "preserves ucalls_rel (listOwnedTasksQuery r owner a k)"
  "preserves ucalls_rel (updateTaskTx r n patch)"
  unfolding claimToolCallTx_def completeToolCallTx_def checkCreateQuotaTx_def createTaskExec_def updateTaskTx_def
    updateStoredTask_def listOwnedTasksQuery_def Let_def
  by (intro ucalls.inv_rel.preserves_intros ucalls_stmts ucalls_update; simp add: call_key_def)+

lemma ucalls_tool_ops:
  "preserves ucalls_rel (CreateTaskForToolCall r now now2 i input draft e1)"
  "preserves ucalls_rel (ListOwnedTasksForToolCall r now i input owner a n e2)"
  "preserves ucalls_rel (UpdateTaskForToolCall r now now2 i input patch e3)"
  "preserves ucalls_rel (ClaimToolCall r now i input)"
  unfolding CreateTaskForToolCall_def ListOwnedTasksForToolCall_def UpdateTaskForToolCall_def ClaimToolCall_def
    createToolTx_def listToolTx_def updateToolTx_def
  by (intro ucalls.inv_rel.preserves_intros ucalls_tx_ops ucalls_stmts)+

lemma ucalls_Reconcile: "preserves ucalls_rel (ReconcileExpiredToolCalls r now)"
  unfolding ReconcileExpiredToolCalls_def
  by (intro ucalls.inv_rel.preserves_intros ucalls_update) (simp add: call_key_def)

section \<open>What a call does\<close>

definition replay_of :: "tool_call_row \<Rightarrow> ToolCallExecution" where
  "replay_of c = (if c_state c = ToolCallSucceeded
     then \<lparr>Exec_Payload = text_of (c_result c), Exec_Success = True, Exec_ErrorCode = [], Exec_Replay = True\<rparr>
     else \<lparr>Exec_Payload = [], Exec_Success = False, Exec_ErrorCode = text_of (c_error_code c), Exec_Replay = True\<rparr>)"

lemma exec_insert_duplicate:
  "exec (insert_tool_call c) w = (Inl ErrDuplicateKey, w1) \<Longrightarrow> w1 = pop_fault w"
  by (auto simp: exec_def insert_tool_call_def split: fault.splits if_splits)

text \<open>A claim that passes the gate either appended its row or found a finished call with the same arguments.\<close>

lemma claimToolCallTx_Inr:
  assumes "claimToolCallTx input now w = (Inr (inserted, ex), w')"
  obtains (fresh) "inserted" "\<not> sql_conflict call_clash (claim_call_row input now) (scheduled_task_tool_calls w)"
      "quiet w' = (quiet w)\<lparr>scheduled_task_tool_calls := scheduled_task_tool_calls w @ [claim_call_row input now]\<rparr>"
  | (found) c where "\<not> inserted" "sql_first (same_call (Input_Identity input)) (scheduled_task_tool_calls w) = Some c"
      "c_arguments_hmac c = Input_ArgumentsHMAC input" "call_final c" "ex = replay_of c" "quiet w' = quiet w"
proof -
  from assms obtain v w1 where ins: "exec (insert_tool_call (claim_call_row input now)) w = (v, w1)"
    and k: "(case v of
       Inr _ \<Rightarrow> ret (True, no_execution)
     | Inl err \<Rightarrow> if err \<noteq> ErrDuplicateKey then fail (Wrapf ''claim schedule tool call'' err)
         else and_then (query (\<lambda>w. sql_first (same_call (Input_Identity input)) (scheduled_task_tool_calls w)))
           (Wrapf ''load claimed schedule tool call'')
           (\<lambda>found. case found of None \<Rightarrow> fail (Wrapf ''load claimed schedule tool call'' ErrNoRows) | Some stored \<Rightarrow>
              if c_arguments_hmac stored \<noteq> Input_ArgumentsHMAC input then fail ErrToolCallConflict
              else if c_state stored = ToolCallSucceeded
                then ret (False, \<lparr>Exec_Payload = text_of (c_result stored), Exec_Success = True, Exec_ErrorCode = [], Exec_Replay = True\<rparr>)
              else if c_state stored = ToolCallRejected
                then ret (False, \<lparr>Exec_Payload = [], Exec_Success = False, Exec_ErrorCode = text_of (c_error_code stored), Exec_Replay = True\<rparr>)
              else fail ErrToolCallBusy)) w1 = (Inr (inserted, ex), w')"
    unfolding claimToolCallTx_def attempt_Inr_iff by blast
  show thesis
  proof (cases v)
    case (Inr u)
    then have "insert_tool_call (claim_call_row input now) (pop_fault w) = (Inr u, w')" "inserted"
      using ins k by (auto simp: exec_Inr_iff)
    then show thesis using that(1) by (auto simp: insert_tool_call_def split: if_splits)
  next
    case (Inl e)
    then have dup: "e = ErrDuplicateKey" using k by (simp split: if_splits)
    then have w1: "w1 = pop_fault w" using ins Inl by (auto dest: exec_insert_duplicate)
    from k Inl dup obtain c where c: "sql_first (same_call (Input_Identity input)) (scheduled_task_tool_calls w1) = Some c"
      and args: "c_arguments_hmac c = Input_ArgumentsHMAC input"
      and rest: "(if c_state c = ToolCallSucceeded
                then ret (False, \<lparr>Exec_Payload = text_of (c_result c), Exec_Success = True, Exec_ErrorCode = [], Exec_Replay = True\<rparr>)
              else if c_state c = ToolCallRejected
                then ret (False, \<lparr>Exec_Payload = [], Exec_Success = False, Exec_ErrorCode = text_of (c_error_code c), Exec_Replay = True\<rparr>)
              else fail ErrToolCallBusy) (pop_fault w1) = (Inr (inserted, ex), w')"
      by (simp add: op_Inr) blast
    have "\<not> inserted" "call_final c" "ex = replay_of c" "w' = pop_fault w1"
      using rest by (auto simp: call_final_def replay_of_def split: if_splits)
    then show thesis using that(2) [of c] c args w1 by simp
  qed
qed

lemma completeToolCallTx_Inr:
  assumes "completeToolCallTx i payload now w = (Inr u, w')"
  shows "quiet w' = (quiet w)\<lparr>scheduled_task_tool_calls := sql_update (\<lambda>c. same_call i c \<and> c_state c = ToolCallClaimed)
         (\<lambda>c. c\<lparr>c_state := ToolCallSucceeded, c_result := Some payload, c_lease_until := None, c_completed_at := Some now\<rparr>)
         (scheduled_task_tool_calls w)\<rparr>"
  using assms by (auto simp: completeToolCallTx_def op_Inr update_tool_calls_def)

lemma createTaskExec_Inr:
  assumes "createTaskExec r now draft w = (Inr task, w')"
  obtains t hmac where "OwnerHMAC r (Draft_Owner draft) = Inr hmac"
    "owned_by (AppID (Draft_Owner draft)) (ChatGroupID (Draft_Owner draft)) hmac t" "t_id t = Draft_ID draft"
    "t_enabled t" "t_version t = 1" "\<forall>t' \<in> set (scheduled_tasks w). t_id t' \<noteq> t_id t"
    "quiet w' = (quiet w)\<lparr>scheduled_tasks := scheduled_tasks w @ [t]\<rparr>" "task = Owned_Task (row_task t)"
proof -
  from assms obtain hmac cron where h: "OwnerHMAC r (Draft_Owner draft) = Inr hmac"
    and ins: "insert_task \<lparr>t_id = Draft_ID draft, t_app_id = AppID (Draft_Owner draft),
                   t_chat_group_id = ChatGroupID (Draft_Owner draft), t_owner_hmac = hmac,
                   t_owner_open_id = OpenID (Draft_Owner draft), t_kind = Draft_Kind draft,
                   t_cron = trim_space (Draft_CronExpression draft), t_timezone = timezone,
                   t_payload = Draft_Payload draft, t_silent = Draft_Silent draft, t_enabled = True,
                   t_version = 1, t_next_run_at = Some (cron now), t_last_run_at = None,
                   t_updated_at = clock w\<rparr> (pop_fault w) = (Inr (), w')"
    and task: "task = \<lparr>Task_ID = Draft_ID draft, Task_Kind = Draft_Kind draft,
                   Task_CronExpression = trim_space (Draft_CronExpression draft),
                   Task_Timezone = timezone, Task_Silent = Draft_Silent draft, Task_Enabled = True,
                   Task_Version = 1, Task_NextRunAt = cron now\<rparr>"
    by (auto simp: createTaskExec_def op_Inr Let_def)
  show thesis
    by (rule that [OF h, where t = "\<lparr>t_id = Draft_ID draft, t_app_id = AppID (Draft_Owner draft),
                   t_chat_group_id = ChatGroupID (Draft_Owner draft), t_owner_hmac = hmac,
                   t_owner_open_id = OpenID (Draft_Owner draft), t_kind = Draft_Kind draft,
                   t_cron = trim_space (Draft_CronExpression draft), t_timezone = timezone,
                   t_payload = Draft_Payload draft, t_silent = Draft_Silent draft, t_enabled = True,
                   t_version = 1, t_next_run_at = Some (cron now), t_last_run_at = None,
                   t_updated_at = clock w\<rparr>"])
      (use ins task in \<open>auto simp: owned_by_def insert_task_def sql_conflict_def row_task_def split: if_splits\<close>)
qed

text \<open>The quota check passes only below both limits.\<close>

lemma checkCreateQuotaTx_Inr:
  assumes "checkCreateQuotaTx r owner w = (Inr u, w')"
  shows "quiet w' = quiet w"
    and "0 < MaxEnabledTasksPerOwner r \<Longrightarrow> OwnerHMAC r owner = Inr hmac
      \<Longrightarrow> int (enabled_of_owner owner hmac (scheduled_tasks w)) < MaxEnabledTasksPerOwner r"
    and "0 < MaxEnabledTasksPerApp r \<Longrightarrow> int (enabled_of_app (AppID owner) (scheduled_tasks w)) < MaxEnabledTasksPerApp r"
  using assms by (auto simp: checkCreateQuotaTx_def op_Inr split: if_splits sum.splits)

definition done_call_row :: "ToolCallInput \<Rightarrow> go_time \<Rightarrow> string \<Rightarrow> tool_call_row" where
  "done_call_row input now payload = (claim_call_row input now)
     \<lparr>c_state := ToolCallSucceeded, c_result := Some payload, c_lease_until := None, c_completed_at := Some now\<rparr>"

lemma complete_own_row:
  assumes "\<not> sql_conflict call_clash (claim_call_row input now) rows"
  shows "sql_update (\<lambda>c. same_call (Input_Identity input) c \<and> c_state c = ToolCallClaimed)
      (\<lambda>c. c\<lparr>c_state := ToolCallSucceeded, c_result := Some payload, c_lease_until := None, c_completed_at := Some now\<rparr>)
      (rows @ [claim_call_row input now]) = rows @ [done_call_row input now payload]"
proof -
  have "sql_update (\<lambda>c. same_call (Input_Identity input) c \<and> c_state c = ToolCallClaimed) f rows = rows" for f
    using assms by (intro sql_update_id) (auto simp: sql_conflict_def call_clash_def same_call_def claim_call_row_def)
  then show ?thesis by (simp add: sql_update_def done_call_row_def same_call_def claim_call_row_def)
qed

text \<open>What a committed create call left behind.\<close>

definition created_by_call :: "Repository \<Rightarrow> go_time \<Rightarrow> ToolCallInput \<Rightarrow> TaskDraft \<Rightarrow> string \<Rightarrow> world \<Rightarrow> world \<Rightarrow> bool" where
  "created_by_call r now input draft payload w w' \<longleftrightarrow> (\<exists>t hmac.
     OwnerHMAC r (Draft_Owner draft) = Inr hmac
     \<and> owned_by (AppID (Draft_Owner draft)) (ChatGroupID (Draft_Owner draft)) hmac t
     \<and> t_id t = Draft_ID draft \<and> t_enabled t \<and> t_version t = 1
     \<and> (\<forall>t' \<in> set (scheduled_tasks w). t_id t' \<noteq> t_id t)
     \<and> (0 < MaxEnabledTasksPerOwner r \<longrightarrow>
          int (enabled_of_owner (Draft_Owner draft) hmac (scheduled_tasks w)) < MaxEnabledTasksPerOwner r)
     \<and> (0 < MaxEnabledTasksPerApp r \<longrightarrow>
          int (enabled_of_app (AppID (Draft_Owner draft)) (scheduled_tasks w)) < MaxEnabledTasksPerApp r)
     \<and> \<not> sql_conflict call_clash (claim_call_row input now) (scheduled_task_tool_calls w)
     \<and> quiet w' = (quiet w)\<lparr>scheduled_tasks := scheduled_tasks w @ [t],
          scheduled_task_tool_calls := scheduled_task_tool_calls w @ [done_call_row input now payload]\<rparr>)"

lemma created_by_call_pop: "created_by_call r now input draft p (pop_fault w) w' \<longleftrightarrow> created_by_call r now input draft p w w'"
  unfolding created_by_call_def pop_fault_simps quiet_pop_fault by (rule refl)

lemma created_by_call_quiet:
  "quiet w' = quiet w'' \<Longrightarrow> created_by_call r now input draft p w w' \<longleftrightarrow> created_by_call r now input draft p w w''"
  by (simp add: created_by_call_def)

lemma quiet_eq_tables:
  assumes "quiet w = quiet w'"
  shows "scheduled_tasks w = scheduled_tasks w'" "scheduled_task_tool_calls w = scheduled_task_tool_calls w'"
    "scheduled_task_runs w = scheduled_task_runs w'" "scheduled_task_deliveries w = scheduled_task_deliveries w'"
    "apps w = apps w'" "chat_groups w = chat_groups w'" "feishu_log w = feishu_log w'" "messages w = messages w'"
  using arg_cong [OF assms, of scheduled_tasks] arg_cong [OF assms, of scheduled_task_tool_calls]
    arg_cong [OF assms, of scheduled_task_runs] arg_cong [OF assms, of scheduled_task_deliveries]
    arg_cong [OF assms, of apps] arg_cong [OF assms, of chat_groups] arg_cong [OF assms, of feishu_log]
    arg_cong [OF assms, of messages]
  by simp_all

lemma createToolTx_Inr:
  assumes "createToolTx r now now2 input draft encode w = (Inr (cw, ex), w')"
  obtains (fresh) payload where "created_by_call r now input draft payload w w'"
      "ex = \<lparr>Exec_Payload = payload, Exec_Success = True, Exec_ErrorCode = [], Exec_Replay = False\<rparr>"
  | (found) c where "sql_first (same_call (Input_Identity input)) (scheduled_task_tool_calls w) = Some c"
      "c_arguments_hmac c = Input_ArgumentsHMAC input" "call_final c" "ex = replay_of c" "quiet w' = quiet w"
proof -
  from assms obtain inserted replay w1 where cl: "claimToolCallTx input now w = (Inr (inserted, replay), w1)"
    and k: "(if \<not> inserted then ret (Wrapf ''commit schedule tool replay'', replay)
       else and_then (checkCreateQuotaTx r (Draft_Owner draft)) id (\<lambda>_.
         and_then (createTaskExec r now2 draft) id (\<lambda>task.
           case encode task of Inl e \<Rightarrow> fail (Wrapf ''encode schedule tool result'' e) | Inr payload \<Rightarrow>
             and_then (completeToolCallTx (Input_Identity input) payload now) id (\<lambda>_.
               ret (Wrapf ''commit schedule tool call'',
                 \<lparr>Exec_Payload = payload, Exec_Success = True, Exec_ErrorCode = [], Exec_Replay = False\<rparr>))))) w1 = (Inr (cw, ex), w')"
    unfolding createToolTx_def and_then_Inr_iff [of "claimToolCallTx _ _"] by auto
  from cl show thesis
  proof (cases rule: claimToolCallTx_Inr)
    case (found c)
    then show thesis using k that(2) [of c] by simp
  next
    case fresh
    with k obtain w2 w3 task payload where q: "checkCreateQuotaTx r (Draft_Owner draft) w1 = (Inr (), w2)"
      and t: "createTaskExec r now2 draft w2 = (Inr task, w3)"
      and c: "completeToolCallTx (Input_Identity input) payload now w3 = (Inr (), w')"
      and ex: "ex = \<lparr>Exec_Payload = payload, Exec_Success = True, Exec_ErrorCode = [], Exec_Replay = False\<rparr>"
      by (auto simp: op_Inr)
    note quota = checkCreateQuotaTx_Inr [OF q]
    have w2: "quiet w2 = (quiet w)\<lparr>scheduled_task_tool_calls := scheduled_task_tool_calls w @ [claim_call_row input now]\<rparr>"
      using quota(1) fresh(3) by simp
    have tasks: "scheduled_tasks w1 = scheduled_tasks w" using arg_cong [OF fresh(3), of scheduled_tasks] by simp
    have tasks2: "scheduled_tasks w2 = scheduled_tasks w" using arg_cong [OF w2, of scheduled_tasks] by simp
    from t show thesis
    proof (rule createTaskExec_Inr)
      fix row hmac
      assume h: "OwnerHMAC r (Draft_Owner draft) = Inr hmac"
        and row: "owned_by (AppID (Draft_Owner draft)) (ChatGroupID (Draft_Owner draft)) hmac row"
          "t_id row = Draft_ID draft" "t_enabled row" "t_version row = 1" "\<forall>t' \<in> set (scheduled_tasks w2). t_id t' \<noteq> t_id row"
        and w3: "quiet w3 = (quiet w2)\<lparr>scheduled_tasks := scheduled_tasks w2 @ [row]\<rparr>"
      have calls3: "scheduled_task_tool_calls w3 = scheduled_task_tool_calls w @ [claim_call_row input now]"
        using arg_cong [OF w3 [unfolded w2], of scheduled_task_tool_calls] by simp
      have "quiet w' = (quiet w)\<lparr>scheduled_tasks := scheduled_tasks w @ [row],
          scheduled_task_tool_calls := scheduled_task_tool_calls w @ [done_call_row input now payload]\<rparr>"
        using completeToolCallTx_Inr [OF c] unfolding calls3 complete_own_row [OF fresh(2)] w3 w2 tasks2 by simp
      then have "created_by_call r now input draft payload w w'"
        unfolding created_by_call_def using h row quota(2,3) fresh(2) by (auto simp: tasks tasks2)
      then show thesis using ex that(1) by blast
    qed
  qed
qed

lemma CreateTaskForToolCall_cases:
  obtains (unchanged) e where "fst (CreateTaskForToolCall r now now2 newID input draft enc w) = Inl e"
      "quiet (snd (CreateTaskForToolCall r now now2 newID input draft enc w)) = quiet w"
  | (fresh) payload where
      "created_by_call r now (fill_input newID input) draft payload w (snd (CreateTaskForToolCall r now now2 newID input draft enc w))"
      "fst (CreateTaskForToolCall r now now2 newID input draft enc w)
         = Inr \<lparr>Exec_Payload = payload, Exec_Success = True, Exec_ErrorCode = [], Exec_Replay = False\<rparr>
       \<or> (\<exists>e. fst (CreateTaskForToolCall r now now2 newID input draft enc w) = Inl e)"
  | (replayed) c where "sql_first (same_call (Input_Identity input)) (scheduled_task_tool_calls w) = Some c"
      "c_arguments_hmac c = Input_ArgumentsHMAC input" "call_final c"
      "fst (CreateTaskForToolCall r now now2 newID input draft enc w) = Inr (replay_of c)
       \<or> (\<exists>e. fst (CreateTaskForToolCall r now now2 newID input draft enc w) = Inl e)"
      "quiet (snd (CreateTaskForToolCall r now now2 newID input draft enc w)) = quiet w"
proof -
  let ?call = "CreateTaskForToolCall r now now2 newID input draft enc w"
  consider (guard) e where "?call = (Inl e, w)"
    | (tx) encode where "CreateTaskForToolCall r now now2 newID input draft enc
        = transaction (Wrapf ''begin schedule tool call'') (createToolTx r now now2 (fill_input newID input) draft encode)"
  proof (cases "\<not> has_DB r \<or> enc = None \<or> \<not> identity_valid (Input_Identity input)
      \<or> trim_space (Input_ArgumentsHMAC input) = [] \<or> trim_space (Input_ID (fill_input newID input)) = []")
    case True
    then have "\<exists>e. ?call = (Inl e, w)" by (cases enc) (auto simp: CreateTaskForToolCall_def fail_def)
    then show thesis using that(1) by blast
  next
    case False
    then obtain encode where "enc = Some encode" by auto
    then show thesis using False that(2) [of encode] by (simp add: CreateTaskForToolCall_def)
  qed
  then show thesis
  proof cases
    case guard
    then show thesis using unchanged by simp
  next
    case tx
    show thesis
    proof (cases rule: transaction_cases [of "Wrapf ''begin schedule tool call''" "createToolTx r now now2 (fill_input newID input) draft encode" w])
      case (unchanged e)
      then show thesis using that(1) by (simp add: tx)
    next
      case (committed cw ex w2)
      from committed(1) show thesis
      proof (cases rule: createToolTx_Inr)
        case (fresh payload)
        then show thesis using committed(2,3) that(2) [of payload] created_by_call_quiet [OF committed(2)]
          by (auto simp: tx created_by_call_pop)
      next
        case (found c)
        then show thesis using committed(2,3) that(3) [of c] by (auto simp: tx fill_input_def)
      qed
    qed
  qed
qed

text \<open>A repeated call finds its row: the insert always collides with it.\<close>

lemma claim_row_conflict:
  assumes "sql_first (same_call (Input_Identity input)) rows = Some c"
  shows "sql_conflict call_clash (claim_call_row input now) rows"
  using sql_first_SomeD [OF assms]
  by (force simp: sql_conflict_def call_clash_def claim_call_row_def same_call_def list_ex_iff)

lemma same_call_fill [simp]: "Input_Identity (fill_input newID input) = Input_Identity input"
  "Input_ArgumentsHMAC (fill_input newID input) = Input_ArgumentsHMAC input"
  by (simp_all add: fill_input_def)

section \<open>A concrete setting for tool calls\<close>

definition ex_identity :: ToolCallIdentity where
  "ex_identity = \<lparr>Call_AppID = ''app'', Call_ChannelKey = ''ch'', Call_ChatGroupID = ''grp'', Call_ThreadID = ''th'',
     Call_TurnID = ''tu'', Call_CallID = ''c1'', Call_Tool = ''create''\<rparr>"

definition ex_input :: ToolCallInput where
  "ex_input = \<lparr>Input_ID = ''id1'', Input_Identity = ex_identity, Input_ArgumentsHMAC = ''h1'', Input_Lease = 0\<rparr>"

definition ex_draft :: TaskDraft where
  "ex_draft = \<lparr>Draft_ID = ''t3'', Draft_Owner = ex_owner, Draft_Kind = TaskPrompt, Draft_CronExpression = ''* * * * *'',
     Draft_Payload = ''walk'', Draft_Silent = False\<rparr>"

lemma ex_input_simps [simp]:
  "Input_Identity ex_input = ex_identity" "Input_ArgumentsHMAC ex_input = ''h1''" "Input_ID ex_input = ''id1''"
  "Input_Lease ex_input = 0"
  by (simp_all add: ex_input_def)

lemma ex_identity_simps [simp]:
  "Call_AppID ex_identity = ''app''" "Call_ChannelKey ex_identity = ''ch''" "Call_ChatGroupID ex_identity = ''grp''"
  "Call_ThreadID ex_identity = ''th''" "Call_TurnID ex_identity = ''tu''" "Call_CallID ex_identity = ''c1''"
  "Call_Tool ex_identity = ''create''"
  by (simp_all add: ex_identity_def)

lemma ex_draft_simps [simp]:
  "Draft_ID ex_draft = ''t3''" "Draft_Owner ex_draft = ex_owner" "Draft_Kind ex_draft = TaskPrompt"
  "Draft_CronExpression ex_draft = ''* * * * *''" "Draft_Payload ex_draft = ''walk''" "\<not> Draft_Silent ex_draft"
  by (simp_all add: ex_draft_def)

section \<open>Properties of tool calls\<close>

text \<open>
  C6: A create call is executed at most once and as a whole. It either changed nothing, or, in one
  transaction, appended one enabled task of the drafting owner (with a free id, below both quotas) together
  with the finished ledger row of this call that holds the answer. An answer marked as a replay comes from a
  finished row of the same identity and the same arguments and changes nothing; an answer that is not a
  replay is the one the ledger now holds. This is so under every pattern of connection losses.
\<close>

theorem create_call_all_or_nothing:
  fixes r now now2 newID input draft enc w
  defines "call \<equiv> CreateTaskForToolCall r now now2 newID input draft enc w"
  shows "case fst call of
     Inr ex \<Rightarrow>
       (\<exists>c. sql_first (same_call (Input_Identity input)) (scheduled_task_tool_calls w) = Some c
          \<and> c_arguments_hmac c = Input_ArgumentsHMAC input \<and> call_final c
          \<and> ex = replay_of c \<and> quiet (snd call) = quiet w)
       \<or> (\<exists>payload. created_by_call r now (fill_input newID input) draft payload w (snd call)
          \<and> ex = \<lparr>Exec_Payload = payload, Exec_Success = True, Exec_ErrorCode = [], Exec_Replay = False\<rparr>)
   | Inl e \<Rightarrow> quiet (snd call) = quiet w
       \<or> (\<exists>payload. created_by_call r now (fill_input newID input) draft payload w (snd call))"
  unfolding call_def
  by (cases rule: CreateTaskForToolCall_cases [of r now now2 newID input draft enc w]) (auto split: sum.split)

text \<open>
  Creating through a tool call never lifts the number of enabled tasks above a configured quota: after
  the call the owner's count and the App's count are at most the larger of the limit and the count before.
\<close>

lemma create_call_within_quota:
  assumes "OwnerHMAC r (Draft_Owner draft) = Inr hmac"
    and "0 < MaxEnabledTasksPerOwner r" and "0 < MaxEnabledTasksPerApp r"
  shows "int (enabled_of_owner (Draft_Owner draft) hmac
            (scheduled_tasks (snd (CreateTaskForToolCall r now now2 newID input draft enc w))))
          \<le> max (MaxEnabledTasksPerOwner r) (int (enabled_of_owner (Draft_Owner draft) hmac (scheduled_tasks w)))
    \<and> int (enabled_of_app (AppID (Draft_Owner draft))
            (scheduled_tasks (snd (CreateTaskForToolCall r now now2 newID input draft enc w))))
          \<le> max (MaxEnabledTasksPerApp r) (int (enabled_of_app (AppID (Draft_Owner draft)) (scheduled_tasks w)))"
    (is "?owner (snd ?call) \<and> ?app (snd ?call)")
proof -
  have same: "?owner w' \<and> ?app w'" if "quiet w' = quiet w" for w'
    using quiet_eq_tables(1) [OF that] by simp
  have grown: "?owner w' \<and> ?app w'" if c: "created_by_call r now i draft p w w'" for w' i p
  proof -
    from c obtain t where q: "quiet w' = (quiet w)\<lparr>scheduled_tasks := scheduled_tasks w @ [t],
          scheduled_task_tool_calls := scheduled_task_tool_calls w @ [done_call_row i now p]\<rparr>"
      and below: "int (enabled_of_owner (Draft_Owner draft) hmac (scheduled_tasks w)) < MaxEnabledTasksPerOwner r"
        "int (enabled_of_app (AppID (Draft_Owner draft)) (scheduled_tasks w)) < MaxEnabledTasksPerApp r"
      using assms by (auto simp: created_by_call_def)
    have "scheduled_tasks w' = scheduled_tasks w @ [t]" using arg_cong [OF q, of scheduled_tasks] by simp
    then show ?thesis using below
      by (auto simp: enabled_of_owner_def enabled_of_app_def)
  qed
  show ?thesis by (cases rule: CreateTaskForToolCall_cases [of r now now2 newID input draft enc w]) (auto dest: same grown)
qed

lemma create_call_within_quota_witness:
  "int (enabled_of_owner ex_owner ''app/grp/ou1''
     (scheduled_tasks (snd (CreateTaskForToolCall ex_repo 5 6 [] ex_input ex_draft (Some (\<lambda>t. Inr (Task_ID t))) ex_world)))) \<le> 2"
  using create_call_within_quota [of ex_repo ex_draft "''app/grp/ou1''" 5 6 "[]" ex_input "Some (\<lambda>t. Inr (Task_ID t))" ex_world]
  by (simp add: enabled_of_owner_def)

text \<open>
  The quota guards creation only: enabling a disabled task again is not counted, so an owner at the limit
  of two ends with three enabled tasks.
\<close>

definition ex_full_world :: world where
  "ex_full_world = ex_world\<lparr>scheduled_tasks := [ex_task ''t3'', ex_task ''t2'', (ex_task ''t1'')\<lparr>t_enabled := False\<rparr>]\<rparr>"

lemma reenable_exceeds_quota:
  "enabled_of_owner ex_owner ''app/grp/ou1'' (scheduled_tasks ex_full_world) = 2
   \<and> MaxEnabledTasksPerOwner ex_repo = 2
   \<and> (\<exists>task. fst (UpdateTask ex_repo 0 (ex_patch\<lparr>Patch_Enabled := Some True\<rparr>) ex_full_world) = Inr task)
   \<and> enabled_of_owner ex_owner ''app/grp/ou1''
       (scheduled_tasks (snd (UpdateTask ex_repo 0 (ex_patch\<lparr>Patch_Enabled := Some True\<rparr>) ex_full_world))) = 3"
  by (simp add: ex_full_world_def UpdateTask_def transaction_def updateTaskTx_def updateStoredTask_def op_defs Let_def
      trim_eval update_tasks_def sql_affected_def sql_update_def is_zero_time_def zero_time_def enabled_of_owner_def
      touch_task_def owned_by_def) (simp add: ex_task_def)

text \<open>A repeated call, with a working connection, is answered from its row and changes nothing.\<close>

definition repeat_answer :: "ToolCallInput \<Rightarrow> tool_call_row \<Rightarrow> ToolCallExecution res" where
  "repeat_answer input c = (if c_arguments_hmac c \<noteq> Input_ArgumentsHMAC input then Inl ErrToolCallConflict
     else if call_final c then Inr (replay_of c) else Inl ErrToolCallBusy)"

lemma claimToolCallTx_repeat:
  assumes "faults w = []" and "sql_first (same_call (Input_Identity input)) (scheduled_task_tool_calls w) = Some c"
  shows "claimToolCallTx input now w
    = ((case repeat_answer input c of Inl e \<Rightarrow> Inl e | Inr ex \<Rightarrow> Inr (False, ex)), w)"
  using assms claim_row_conflict [OF assms(2)]
  by (simp add: claimToolCallTx_def op_defs insert_tool_call_def repeat_answer_def call_final_def replay_of_def)

lemma tool_repeat:
  assumes "faults w = []" and "sql_first (same_call (Input_Identity input)) (scheduled_task_tool_calls w) = Some c"
    and "has_DB r" and "identity_valid (Input_Identity input)" and "trim_space (Input_ArgumentsHMAC input) \<noteq> []"
    and "trim_space (Input_ID (fill_input newID input)) \<noteq> []"
  shows "CreateTaskForToolCall r now now2 newID input draft (Some e1) w = (repeat_answer input c, w)"
    and "ListOwnedTasksForToolCall r now newID input owner after n (Some e2) w = (repeat_answer input c, w)"
    and "UpdateTaskForToolCall r now now2 newID input patch (Some e1) w = (repeat_answer input c, w)"
proof -
  have "claimToolCallTx (fill_input newID input) now w
    = ((case repeat_answer input c of Inl e \<Rightarrow> Inl e | Inr ex \<Rightarrow> Inr (False, ex)), w)"
    using claimToolCallTx_repeat [of w "fill_input newID input" c now] assms(1,2) by (simp add: repeat_answer_def)
  then show "CreateTaskForToolCall r now now2 newID input draft (Some e1) w = (repeat_answer input c, w)"
    and "ListOwnedTasksForToolCall r now newID input owner after n (Some e2) w = (repeat_answer input c, w)"
    and "UpdateTaskForToolCall r now now2 newID input patch (Some e1) w = (repeat_answer input c, w)"
    using assms by (cases "repeat_answer input c";
      simp add: CreateTaskForToolCall_def ListOwnedTasksForToolCall_def UpdateTaskForToolCall_def transaction_def
        createToolTx_def listToolTx_def updateToolTx_def op_defs)+
qed

end
