(* ===== verification/Script_Executor.thy ===== *)
theory Script_Executor
  imports Schedule_Tools
begin

text \<open>
  Scheduled scripts: the bounded capture of a command's output and the execution of a claimed script run
  (\<open>internal/schedule/script_executor.go\<close>), and the part of the dispatcher that runs them
  (\<open>internal/schedule/dispatch.go\<close>). The operating system's answer to starting and waiting for the command
  is a parameter; a Go panic is the value \<open>Panicked\<close>.
\<close>

section \<open>Bounded output capture\<close>

record scriptOutputCapture =
  capture_limit :: int
  capture_used :: int
  capture_stdout :: string
  capture_stderr :: string
  capture_fullStdout :: string
  capture_fullStderr :: string
  capture_truncated :: bool

definition newScriptOutputCapture :: "int \<Rightarrow> scriptOutputCapture" where
  "newScriptOutputCapture limit = \<lparr>capture_limit = (if limit < 1 then 1 else limit), capture_used = 0,
     capture_stdout = [], capture_stderr = [], capture_fullStdout = [], capture_fullStderr = [],
     capture_truncated = False\<rparr>"

text \<open>One \<open>Write\<close> of the writer for stderr (\<open>True\<close>) or stdout; it always reports all bytes as written.\<close>

definition capture_write :: "bool \<Rightarrow> string \<Rightarrow> scriptOutputCapture \<Rightarrow> nat \<times> scriptOutputCapture" where
  "capture_write to_stderr data c0 =
     (let c = (if to_stderr then c0\<lparr>capture_fullStderr := capture_fullStderr c0 @ data\<rparr>
               else c0\<lparr>capture_fullStdout := capture_fullStdout c0 @ data\<rparr>);
          remain = capture_limit c - capture_used c in
      if remain \<le> 0 then (length data, c\<lparr>capture_truncated := True\<rparr>)
      else (let accepted = (if int (length data) > remain then take (nat remain) data else data);
                c1 = (if int (length data) > remain then c\<lparr>capture_truncated := True\<rparr> else c);
                c2 = (if to_stderr then c1\<lparr>capture_stderr := capture_stderr c1 @ accepted\<rparr>
                      else c1\<lparr>capture_stdout := capture_stdout c1 @ accepted\<rparr>) in
        (length data, c2\<lparr>capture_used := capture_used c2 + int (length accepted)\<rparr>)))"

definition FullSnapshot :: "scriptOutputCapture \<Rightarrow> string \<times> string" where
  "FullSnapshot c = (capture_fullStdout c, capture_fullStderr c)"

definition Snapshot :: "scriptOutputCapture \<Rightarrow> string \<times> string \<times> string \<times> bool" where
  "Snapshot c = (capture_stdout c, capture_stderr c,
     capture_stdout c @ (if capture_stdout c \<noteq> [] \<and> capture_stderr c \<noteq> [] then utf8 [10] else []) @ capture_stderr c,
     capture_truncated c)"

fun capture_writes :: "(bool \<times> string) list \<Rightarrow> scriptOutputCapture \<Rightarrow> scriptOutputCapture" where
  "capture_writes [] c = c"
| "capture_writes ((e, data) # ws) c = capture_writes ws (snd (capture_write e data c))"

section \<open>Execution of a claimed script\<close>

record ScriptExecutionResult =
  Result_ExitCode :: int
  Result_Stdout :: string
  Result_Stderr :: string
  Result_Output :: string
  Result_Truncated :: bool

definition no_result :: ScriptExecutionResult where
  "no_result = \<lparr>Result_ExitCode = 0, Result_Stdout = [], Result_Stderr = [], Result_Output = [], Result_Truncated = False\<rparr>"

text \<open>
  What \<open>cmd.Wait\<close> reports: success, an \<open>exec.ExitError\<close> with its exit code and whether the deadline had
  passed, or another error.
\<close>

datatype wait_answer = WaitOk | WaitExit int bool | WaitError go_error

text \<open>What the system does with the command: it does not start, the code panics, or it writes and ends.\<close>

datatype command_answer = StartError go_error | CommandPanics | Ran "(bool \<times> string) list" wait_answer

datatype 'a go_call = Panicked | Returned 'a

record ScriptExecutor =
  Executor_Repository :: "Repository option"
  Executor_Payloads :: Keyring
  Executor_ShellPath :: string
  Executor_Timeout :: int
  Executor_MaxOutputBytes :: int
  run_command :: "string \<Rightarrow> string \<Rightarrow> string \<Rightarrow> int \<Rightarrow> command_answer"

definition ErrNoScriptRepository :: go_error where
  "ErrNoScriptRepository = Errorf ''scheduled script repository is unavailable''"

definition Executor_MarkRunRunning :: "ScriptExecutor \<Rightarrow> go_time \<Rightarrow> string \<Rightarrow> string \<Rightarrow> unit op" where
  "Executor_MarkRunRunning e now runID claimToken = (case Executor_Repository e of
       None \<Rightarrow> fail ErrNoScriptRepository
     | Some r \<Rightarrow> and_then (MarkRunQueued r runID claimToken) (Wrapf ''queue scheduled script run'') (\<lambda>_.
         (let lease = Executor_Timeout e + seconds 30 in
          MarkRunRunning r now runID claimToken (if lease \<le> seconds 30 then seconds 330 else lease))))"

definition Executor_CompleteScriptRun :: "ScriptExecutor \<Rightarrow> go_time \<Rightarrow> RunCompletion \<Rightarrow> ScriptRunMetadata \<Rightarrow> unit op" where
  "Executor_CompleteScriptRun e now completion metadata = (case Executor_Repository e of
       None \<Rightarrow> fail ErrNoScriptRepository
     | Some r \<Rightarrow> CompleteScriptRun r now completion metadata)"

definition simple_completion :: "string \<Rightarrow> string \<Rightarrow> run_state \<Rightarrow> string \<Rightarrow> RunCompletion" where
  "simple_completion runID claimToken st code = \<lparr>Done_RunID = runID, Done_ClaimToken = claimToken, Done_State = st,
     Done_ErrorCode = code, Done_StartedAt = zero_time, Done_DurationMS = 0, Done_ThreadID = [], Done_TurnID = []\<rparr>"

definition FailBeforeExecution :: "ScriptExecutor \<Rightarrow> go_time \<Rightarrow> string \<Rightarrow> string \<Rightarrow> string \<Rightarrow> unit op" where
  "FailBeforeExecution e now runID claimToken code = (case Executor_Repository e of
       None \<Rightarrow> fail ErrNoScriptRepository
     | Some r \<Rightarrow> CompleteRun r now (simple_completion runID claimToken RunFailed code))"

definition Metadata :: "ScriptExecutor \<Rightarrow> ScriptExecutionResult \<Rightarrow> ScriptRunMetadata res" where
  "Metadata e result = (case Executor_Repository e of
       None \<Rightarrow> Inl ErrNoScriptRepository
     | Some r \<Rightarrow> (case Keyring_HMAC (mac r) (Executor_Payloads e) (''scheduled_script_stdout'' @ [mk_byte 0] @ Result_Stdout result) of
           Inl err \<Rightarrow> Inl (Wrapf ''digest scheduled script stdout'' err)
         | Inr (stdoutHMAC, _) \<Rightarrow> (case Keyring_HMAC (mac r) (Executor_Payloads e) (''scheduled_script_stderr'' @ [mk_byte 0] @ Result_Stderr result) of
               Inl err \<Rightarrow> Inl (Wrapf ''digest scheduled script stderr'' err)
             | Inr (stderrHMAC, _) \<Rightarrow> Inr \<lparr>Meta_ExitCode = Result_ExitCode result, Meta_StdoutHMAC = stdoutHMAC,
                 Meta_StderrHMAC = stderrHMAC, Meta_OutputBytes = int (length (Result_Stdout result) + length (Result_Stderr result)),
                 Meta_Truncated = Result_Truncated result\<rparr>)))"

text \<open>The result after the command has been begun (from line 149).\<close>

definition finish_command :: "int \<Rightarrow> (bool \<times> string) list \<Rightarrow> wait_answer \<Rightarrow> ScriptExecutionResult \<times> go_error option" where
  "finish_command maxBytes writes answer =
     (let (stdoutBytes, stderrBytes, output, truncated) = Snapshot (capture_writes writes (newScriptOutputCapture maxBytes));
          result = \<lparr>Result_ExitCode = 0, Result_Stdout = stdoutBytes, Result_Stderr = stderrBytes,
            Result_Output = output, Result_Truncated = truncated\<rparr> in
      (case answer of
         WaitExit code deadline \<Rightarrow> (result\<lparr>Result_ExitCode := (if deadline then 124 else code)\<rparr>, None)
       | WaitError err \<Rightarrow> (result, Some (Wrapf ''wait scheduled script command'' err))
       | WaitOk \<Rightarrow> (result, None)))"

text \<open>The query on a nil \<open>DB\<close> panics.\<close>

definition Execute :: "ScriptExecutor \<Rightarrow> ClaimedRun \<Rightarrow> (ScriptExecutionResult \<times> go_error option) go_call op" where
  "Execute e run = (case Executor_Repository e of
       None \<Rightarrow> ret (Returned (no_result, Some (Errorf ''scheduled script executor identity is invalid'')))
     | Some r \<Rightarrow>
         if Run_Kind run \<noteq> TaskScript \<or> Run_Payload run = []
           then ret (Returned (no_result, Some (Errorf ''scheduled script executor identity is invalid'')))
         else if Executor_ShellPath e = []
           then ret (Returned (no_result, Some (Errorf ''scheduled script executor is not configured'')))
         else if \<not> has_DB r then ret Panicked
         else attempt
           (query (\<lambda>w. case sql_first (\<lambda>x. r_id x = Run_ID run \<and> r_claim_token x = Some (Run_ClaimToken run)
                  \<and> r_state x = RunRunning \<and> r_kind x = TaskScript) (scheduled_task_runs w) of
                None \<Rightarrow> None
              | Some x \<Rightarrow> map_option (\<lambda>(t, a, g). a_workspace_dir a) (joined_task (r_task_id x) w)))
           (\<lambda>found. case found of
               Inl err \<Rightarrow> ret (Returned (no_result, Some (Wrapf ''load claimed script workspace'' err)))
             | Inr None \<Rightarrow> ret (Returned (no_result, Some (Errorf ''claimed scheduled script is no longer runnable'')))
             | Inr (Some workspace) \<Rightarrow>
                 (let maxBytes = (if Executor_MaxOutputBytes e \<le> 0 then 24 * 1024 else Executor_MaxOutputBytes e);
                      timeout = (if Executor_Timeout e \<le> 0 then seconds 300 else Executor_Timeout e) in
                  case run_command e (Executor_ShellPath e) workspace (Run_Payload run) timeout of
                    StartError err \<Rightarrow> ret (Returned (no_result, Some (Wrapf ''start scheduled script command'' err)))
                  | CommandPanics \<Rightarrow> ret Panicked
                  | Ran writes answer \<Rightarrow> ret (Returned (finish_command maxBytes writes answer)))))"

section \<open>Rendering the console\<close>

definition fence :: string where
  "fence = replicate 3 (mk_byte 96)"

definition maxScriptConsoleCardBytes :: nat where
  "maxScriptConsoleCardBytes = 12 * 1024"

definition guard_fences :: "string \<Rightarrow> string" where
  "guard_fences text = replace_all text fence (utf8 [96, 96, 8203, 96])"

definition console_text :: "string \<Rightarrow> string" where
  "console_text output = guard_fences (to_valid_utf8 output (utf8 [65533]))"

definition safeScriptConsole :: "string \<Rightarrow> string \<times> bool" where
  "safeScriptConsole output =
     (let text = console_text output;
          truncated = length text > maxScriptConsoleCardBytes;
          shown = (if truncated then to_valid_utf8 (take maxScriptConsoleCardBytes text) [] else text) in
      (fence @ ''text'' @ utf8 [10] @ shown @ utf8 [10] @ fence, truncated))"

section \<open>Running a script\<close>

text \<open>
  The dispatcher of claimed runs; \<open>None\<close> is nil. \<open>mux_delivery_ids\<close> gives the time and the two fresh ids
  that delivering the result of a run draws. The prompt dispatcher is a function here (see
  \<open>Scheduler_Tick\<close>, which provides it).
\<close>

record DispatcherMux =
  mux_Prompts :: "(ClaimedRun \<Rightarrow> unit op) option"
  mux_Scripts :: "ScriptExecutor option"
  mux_ScriptSlots :: bool
  mux_Delivery :: "(Repository \<times> ResultDeliveryDispatcher) option"
  mux_delivery_ids :: "string \<Rightarrow> go_time \<times> string \<times> string"

definition presentation :: "bool \<Rightarrow> string \<Rightarrow> int \<Rightarrow> ResultPresentation" where
  "presentation succeeded code exitCode = \<lparr>Pres_Succeeded = succeeded, Pres_ErrorCode = code, Pres_FinalText = [],
     Pres_ScriptConsole = [], Pres_ExitCode = exitCode, Pres_Truncated = False\<rparr>"

definition deliver_opt :: "DispatcherMux \<Rightarrow> string \<Rightarrow> ResultPresentation \<Rightarrow> unit op" where
  "deliver_opt d runID p = (case mux_Delivery d of None \<Rightarrow> ret () | Some (r, dd) \<Rightarrow>
     (case mux_delivery_ids d runID of (now, newID, fallbackID) \<Rightarrow> Deliver r dd now newID fallbackID runID p))"

definition failScript :: "DispatcherMux \<Rightarrow> go_time \<Rightarrow> ClaimedRun \<Rightarrow> string \<Rightarrow> unit op" where
  "failScript d now run code = (case mux_Scripts d of
       None \<Rightarrow> fail (Errorf ''scheduled script executor is unavailable'')
     | Some e \<Rightarrow> and_then (FailBeforeExecution e now (Run_ID run) (Run_ClaimToken run) code)
         (Wrapf ''finalize scheduled script'') (\<lambda>_.
           and_then (deliver_opt d (Run_ID run) (presentation False code 0))
             (Wrapf ''deliver failed scheduled script'') ret))"

text \<open>\<open>executeScript\<close> once the command has ended (from line 74).\<close>

definition finishScript :: "DispatcherMux \<Rightarrow> ScriptExecutor \<Rightarrow> go_time \<Rightarrow> go_time \<Rightarrow> ClaimedRun \<Rightarrow> ScriptExecutionResult \<Rightarrow> go_error option \<Rightarrow> unit op" where
  "finishScript d e begun now run result err = (case Metadata e result of
       Inl metadataErr \<Rightarrow> and_then (failScript d now run ''failed_script_metadata'')
         (\<lambda>_. Wrapf ''metadata scheduled script'' metadataErr) (\<lambda>_. fail (Wrapf ''metadata scheduled script'' metadataErr))
     | Inr metadata \<Rightarrow> (case err of
           Some execErr \<Rightarrow>
             and_then (Executor_CompleteScriptRun e now
                 ((simple_completion (Run_ID run) (Run_ClaimToken run) RunFailed ''failed_script_executor'')
                    \<lparr>Done_StartedAt := begun\<rparr>) metadata)
               (Wrapf ''complete failed scheduled script'') (\<lambda>_.
                 attempt (deliver_opt d (Run_ID run) (presentation False ''failed_script_executor'' (Result_ExitCode result)))
                   (\<lambda>_. fail (Wrapf ''execute scheduled script'' execErr)))
         | None \<Rightarrow>
             (let code = (if Result_ExitCode result = 0 then [] else if Result_ExitCode result = 124 then ''script_timeout'' else ''script_exit'');
                  st = (if Result_ExitCode result = 0 then RunSucceeded else RunFailed) in
              and_then (Executor_CompleteScriptRun e now
                  ((simple_completion (Run_ID run) (Run_ClaimToken run) st code)\<lparr>Done_StartedAt := begun\<rparr>) metadata) id (\<lambda>_.
                (let (console, displayTruncated) = safeScriptConsole (Result_Output result) in
                 and_then (deliver_opt d (Run_ID run)
                     ((presentation (st = RunSucceeded) code (Result_ExitCode result))
                        \<lparr>Pres_ScriptConsole := console, Pres_Truncated := Result_Truncated result \<or> displayTruncated\<rparr>))
                   (Wrapf ''deliver scheduled script result'') ret)))))"

definition executeScript :: "DispatcherMux \<Rightarrow> go_time \<Rightarrow> go_time \<Rightarrow> go_time \<Rightarrow> ClaimedRun \<Rightarrow> unit go_call op" where
  "executeScript d now begun now2 run = (case mux_Scripts d of
       None \<Rightarrow> fail (Errorf ''scheduled script executor is unavailable'')
     | Some e \<Rightarrow> and_then (Executor_MarkRunRunning e now (Run_ID run) (Run_ClaimToken run)) id (\<lambda>_.
         and_then (Execute e run) id (\<lambda>outcome. case outcome of
             Panicked \<Rightarrow> ret Panicked
           | Returned (result, err) \<Rightarrow> and_then (finishScript d e begun now2 run result err) id (\<lambda>_. ret (Returned ())))))"

text \<open>The goroutine of a dispatched script: errors are logged, a panic fails the run (lines 34 to 47).\<close>

definition script_goroutine :: "DispatcherMux \<Rightarrow> go_time \<Rightarrow> go_time \<Rightarrow> go_time \<Rightarrow> ClaimedRun \<Rightarrow> unit op" where
  "script_goroutine d now begun now2 run =
     attempt (executeScript d now begun now2 run) (\<lambda>answer. case answer of
         Inr Panicked \<Rightarrow> attempt (failScript d now2 run ''failed_executor_panic'') (\<lambda>_. ret ())
       | _ \<Rightarrow> ret ())"

section \<open>What the capture keeps\<close>

text \<open>
  The two kept streams are prefixes of what was written to each stream, together they have as many bytes
  as were written up to the limit, and \<open>used\<close> counts them.
\<close>

definition capture_ok :: "scriptOutputCapture \<Rightarrow> bool" where
  "capture_ok c \<longleftrightarrow> 1 \<le> capture_limit c
     \<and> capture_used c = int (length (capture_stdout c) + length (capture_stderr c))
     \<and> capture_used c = min (capture_limit c) (int (length (capture_fullStdout c) + length (capture_fullStderr c)))
     \<and> has_prefix (capture_fullStdout c) (capture_stdout c) \<and> has_prefix (capture_fullStderr c) (capture_stderr c)
     \<and> (capture_used c < capture_limit c \<longrightarrow>
          capture_stdout c = capture_fullStdout c \<and> capture_stderr c = capture_fullStderr c)"

lemma capture_ok_new: "capture_ok (newScriptOutputCapture limit)"
  by (simp add: capture_ok_def newScriptOutputCapture_def)

lemma has_prefix_extend: "has_prefix s p \<Longrightarrow> has_prefix (s @ t) p"
  by (auto simp: has_prefix_iff)

lemma has_prefix_take: "has_prefix (s @ t) (s @ take n t)"
  unfolding has_prefix_iff by (metis append.assoc append_take_drop_id)

text \<open>One write, with the accepted part as the first bytes that still fit.\<close>

lemma capture_write_eq:
  "snd (capture_write e data c) = c\<lparr>
     capture_fullStdout := capture_fullStdout c @ (if e then [] else data),
     capture_fullStderr := capture_fullStderr c @ (if e then data else []),
     capture_stdout := capture_stdout c @ (if e then [] else take (nat (capture_limit c - capture_used c)) data),
     capture_stderr := capture_stderr c @ (if e then take (nat (capture_limit c - capture_used c)) data else []),
     capture_used := capture_used c + int (min (nat (capture_limit c - capture_used c)) (length data)),
     capture_truncated := capture_truncated c \<or> capture_limit c - capture_used c \<le> 0
       \<or> capture_limit c - capture_used c < int (length data)\<rparr>"
proof -
  consider (full) "capture_limit c - capture_used c \<le> 0"
    | (cut) "0 < capture_limit c - capture_used c" "capture_limit c - capture_used c < int (length data)"
    | (fits) "0 < capture_limit c - capture_used c" "int (length data) \<le> capture_limit c - capture_used c" by linarith
  then show ?thesis
  proof cases
    case full
    then show ?thesis by (simp add: capture_write_def Let_def)
  next
    case cut
    then have "min (nat (capture_limit c - capture_used c)) (length data) = nat (capture_limit c - capture_used c)" by linarith
    then show ?thesis using cut by (simp add: capture_write_def Let_def)
  next
    case fits
    then have "length data \<le> nat (capture_limit c - capture_used c)" by linarith
    then show ?thesis using fits by (simp add: capture_write_def Let_def min_def)
  qed
qed

text \<open>The arithmetic of the shared budget, for \<open>u\<close> bytes used of \<open>l\<close>, \<open>t\<close> written so far and \<open>d\<close> more.\<close>

lemma budget:
  assumes "u = min l t" and "0 \<le> t" and "1 \<le> l"
  shows "u + int (min (nat (l - u)) d) = min l (t + int d)"
    and "u + int (min (nat (l - u)) d) < l \<Longrightarrow> u < l \<and> d \<le> nat (l - u)"
    and "0 < d \<Longrightarrow> (l < t \<or> l - u \<le> 0 \<or> l - u < int d) \<longleftrightarrow> l < t + int d"
  using assms by (auto simp: min_def nat_le_iff split: if_splits)

lemma capture_ok_budget:
  assumes "capture_ok c"
  shows "capture_used c = min (capture_limit c) (int (length (capture_fullStdout c) + length (capture_fullStderr c)))"
    and "0 \<le> int (length (capture_fullStdout c) + length (capture_fullStderr c))" and "1 \<le> capture_limit c"
  using assms unfolding capture_ok_def by (blast, simp, blast)

lemma capture_ok_write:
  assumes "capture_ok c"
  shows "capture_ok (snd (capture_write e data c))"
proof -
  let ?n = "nat (capture_limit c - capture_used c)"
  note ok = assms [unfolded capture_ok_def]
  note b = budget [OF capture_ok_budget [OF assms], of "length data"]
  have full: "take ?n data = data" "capture_stdout c = capture_fullStdout c" "capture_stderr c = capture_fullStderr c"
    if "capture_used c + int (min ?n (length data)) < capture_limit c"
    using take_all [OF conjunct2 [OF b(2) [OF that]]] conjunct1 [OF b(2) [OF that]] ok by blast+
  have prefix: "has_prefix (capture_fullStdout c @ data) (capture_stdout c @ take ?n data)"
    "has_prefix (capture_fullStderr c @ data) (capture_stderr c @ take ?n data)"
  proof -
    have "?n = 0 \<or> capture_stdout c = capture_fullStdout c \<and> capture_stderr c = capture_fullStderr c"
      using ok by (cases "capture_used c < capture_limit c") (blast, simp)
    moreover have "has_prefix (capture_fullStdout c) (capture_stdout c)" "has_prefix (capture_fullStderr c) (capture_stderr c)"
      using ok by blast+
    ultimately show "has_prefix (capture_fullStdout c @ data) (capture_stdout c @ take ?n data)"
      "has_prefix (capture_fullStderr c @ data) (capture_stderr c @ take ?n data)"
      by (auto simp: has_prefix_take has_prefix_extend)
  qed
  have kept: "has_prefix (capture_fullStdout c) (capture_stdout c)" "has_prefix (capture_fullStderr c) (capture_stderr c)"
    "1 \<le> capture_limit c" "capture_used c = int (length (capture_stdout c) + length (capture_stderr c))"
    using ok by blast+
  have len: "capture_used c + int (min ?n (length data)) = int (length (capture_stdout c) + length (capture_stderr c) + length (take ?n data))"
    unfolding length_take min.commute [of "length data"] of_nat_add [of "length _ + length _"] kept(4) [symmetric] ..
  show ?thesis unfolding capture_ok_def capture_write_eq
    using kept(1-3) full prefix b(1) len
    by (cases e) (simp_all only: if_True if_False append_Nil2 scriptOutputCapture.simps scriptOutputCapture.surjective, auto)
qed

lemma capture_ok_writes: "capture_ok c \<Longrightarrow> capture_ok (capture_writes ws c)"
  by (induction ws c rule: capture_writes.induct) (auto intro: capture_ok_write)

lemma capture_write_full:
  "FullSnapshot (snd (capture_write e data c))
     = (capture_fullStdout c @ (if e then [] else data), capture_fullStderr c @ (if e then data else []))"
  "capture_limit (snd (capture_write e data c)) = capture_limit c"
  by (simp_all add: capture_write_eq FullSnapshot_def)

definition stream :: "bool \<Rightarrow> (bool \<times> string) list \<Rightarrow> string" where
  "stream e ws = concat (map snd (filter (\<lambda>x. fst x = e) ws))"

lemma capture_writes_full:
  "FullSnapshot (capture_writes ws c) = (capture_fullStdout c @ stream False ws, capture_fullStderr c @ stream True ws)"
  "capture_limit (capture_writes ws c) = capture_limit c"
  by (induction ws c rule: capture_writes.induct)
    (auto simp: stream_def FullSnapshot_def capture_write_full capture_write_full(1) [unfolded FullSnapshot_def prod.inject])

text \<open>The truncation flag, for writers that never write an empty slice.\<close>

lemma capture_truncated_write:
  assumes "capture_ok c" and "data \<noteq> []"
    and "capture_truncated c \<longleftrightarrow> capture_limit c < int (length (capture_fullStdout c) + length (capture_fullStderr c))"
  shows "capture_truncated (snd (capture_write e data c))
    \<longleftrightarrow> capture_limit c < int (length (fst (FullSnapshot (snd (capture_write e data c)))) + length (snd (FullSnapshot (snd (capture_write e data c)))))"
proof -
  let ?t = "int (length (capture_fullStdout c) + length (capture_fullStderr c))"
  have "capture_truncated (snd (capture_write e data c)) \<longleftrightarrow> capture_limit c < ?t + int (length data)"
    using budget(3) [OF capture_ok_budget [OF assms(1)], of "length data"] assms(2,3) by (simp add: capture_write_eq)
  then show ?thesis by (simp add: capture_write_full ac_simps)
qed

lemma capture_truncated_writes:
  assumes "capture_ok c" and "\<forall>x \<in> set ws. snd x \<noteq> []"
    and "capture_truncated c \<longleftrightarrow> capture_limit c < int (length (capture_fullStdout c) + length (capture_fullStderr c))"
  shows "capture_truncated (capture_writes ws c) \<longleftrightarrow> capture_limit c
    < int (length (capture_fullStdout (capture_writes ws c)) + length (capture_fullStderr (capture_writes ws c)))"
  using assms
proof (induction ws c rule: capture_writes.induct)
  case (2 e data ws c)
  have "capture_truncated (snd (capture_write e data c)) \<longleftrightarrow> capture_limit (snd (capture_write e data c))
    < int (length (capture_fullStdout (snd (capture_write e data c))) + length (capture_fullStderr (snd (capture_write e data c))))"
    using capture_truncated_write [OF 2(2) _ 2(4), of data e] 2(3) by (simp add: FullSnapshot_def capture_write_full(2))
  then show ?case using 2 capture_ok_write [OF 2(2)] by (simp add: capture_write_full(2))
qed simp

section \<open>The console is fenced\<close>

abbreviation tick :: char where
  "tick \<equiv> mk_byte 96"

lemma zero_width: "utf8 [96, 96, 8203, 96] = [tick, tick] @ map mk_byte [226, 128, 139] @ [tick]"
  by (simp add: encode_rune_def scalar_def)

lemma tick_bytes [simp]: "mk_byte 226 \<noteq> tick" "mk_byte 128 \<noteq> tick" "mk_byte 139 \<noteq> tick"
proof -
  have "n < 256 \<Longrightarrow> m < 256 \<Longrightarrow> n \<noteq> m \<Longrightarrow> mk_byte n \<noteq> mk_byte m" for n m
    by (metis byte_val_mk_byte mod_less)
  then show "mk_byte 226 \<noteq> tick" "mk_byte 128 \<noteq> tick" "mk_byte 139 \<noteq> tick" by simp_all
qed

lemma fence_simps [simp]: "fence \<noteq> []" "length fence = 3" "has_prefix s fence \<longleftrightarrow> 3 \<le> lead_run tick s"
  by (simp_all add: fence_def has_prefix_run)

lemma guard_fences_Cons:
  "guard_fences (c # s) = (if 3 \<le> lead_run tick (c # s)
     then [tick, tick, mk_byte 226, mk_byte 128, mk_byte 139, tick] @ guard_fences (drop 2 s) else c # guard_fences s)"
  using replace_all_Cons [of fence c s "utf8 [96, 96, 8203, 96]"] unfolding guard_fences_def zero_width by simp

lemma guard_fences_Nil [simp]: "guard_fences [] = []"
  by (simp add: guard_fences_def)

lemma lead_guard: "lead_run tick (guard_fences s) = min 2 (lead_run tick s)"
  by (induction s) (auto simp: guard_fences_Cons)

lemma lead_drop: "n \<le> lead_run b s \<Longrightarrow> lead_run b (drop n s) = lead_run b s - n"
  by (induction s arbitrary: n) (auto simp: drop_Cons split: if_splits nat.splits)

lemma contains_drop: "contains (drop n s) p \<Longrightarrow> contains s p"
  by (metis append.assoc append_take_drop_id contains_iff)

lemma five_prefix: "\<not> contains s (replicate 5 tick) \<Longrightarrow> lead_run tick s \<le> 4"
  using has_prefix_run [of s 5 tick] by (cases "5 \<le> lead_run tick s") (auto simp: has_prefix_iff contains_iff)

lemma guard_fences_inert:
  assumes "\<not> contains s (replicate 5 tick)"
  shows "\<not> contains (guard_fences s) fence"
  using assms
proof (induction s rule: length_induct)
  case (1 s)
  show ?case
  proof (cases s)
    case Nil
    then show ?thesis by (simp add: contains_Nil)
  next
    case (Cons c t)
    have sub: "\<not> contains (guard_fences (drop n t)) fence" for n
      using 1 contains_drop [of "Suc n" s] Cons by (metis drop_Suc_Cons length_Cons length_drop less_Suc_eq_le diff_le_self)
    have lead: "lead_run tick s \<le> 4" using 1(2) by (rule five_prefix)
    show ?thesis
    proof (cases "3 \<le> lead_run tick s")
      case True
      then have "c = tick" "2 \<le> lead_run tick t" using Cons by (auto split: if_splits)
      then have "lead_run tick (drop 2 t) \<le> 1" using lead lead_drop [of 2 tick t] Cons by simp
      then show ?thesis using True sub [of 2] Cons by (simp add: guard_fences_Cons contains_Cons lead_guard)
    next
      case False
      then show ?thesis using sub [of 0] Cons by (auto simp: guard_fences_Cons contains_Cons lead_guard)
    qed
  qed
qed

section \<open>A claim on the way to its end\<close>

text \<open>
  \<open>held i k S w\<close>: the connection works, run ids are unique, and the run of that id is held under that claim
  token in one of the states \<open>S\<close>.
\<close>

definition held :: "string \<Rightarrow> string \<Rightarrow> run_state set \<Rightarrow> world \<Rightarrow> bool" where
  "held i k S w \<longleftrightarrow> faults w = [] \<and> distinct (map r_id (scheduled_task_runs w))
     \<and> (\<exists>x \<in> set (scheduled_task_runs w). r_id x = i \<and> r_claim_token x = Some k \<and> r_state x \<in> S)"

definition finalised :: "string \<Rightarrow> string \<Rightarrow> world \<Rightarrow> bool" where
  "finalised i k w \<longleftrightarrow> (\<exists>x \<in> set (scheduled_task_runs w). r_id x = i \<and> r_claim_token x = Some k \<and> terminal (r_state x))"

lemma held_update:
  assumes "held i k S w" and "\<And>x. r_state x \<in> S \<Longrightarrow> Q x"
    and "\<And>x. Q x \<Longrightarrow> r_id (f x) = r_id x \<and> r_claim_token (f x) = r_claim_token x \<and> r_state (f x) = st \<and> r_state x \<noteq> st"
  shows "\<exists>w'. update_runs (\<lambda>x. r_id x = i \<and> r_claim_token x = Some k \<and> Q x) f w = (Inr 1, w') \<and> held i k {st} w'"
proof -
  let ?p = "\<lambda>x. r_id x = i \<and> r_claim_token x = Some k \<and> Q x"
  from assms(1) obtain x where x: "x \<in> set (scheduled_task_runs w)" "r_id x = i" "r_claim_token x = Some k" "r_state x \<in> S"
    and d: "distinct (map r_id (scheduled_task_runs w))" and fw: "faults w = []" by (auto simp: held_def)
  have px: "?p x" using x assms(2) by blast
  have "f y \<noteq> y" if "?p y" for y using assms(3) that by metis
  then have "sql_affected ?p f (scheduled_task_runs w) = (if \<exists>y \<in> set (scheduled_task_runs w). ?p y then 1 else 0)"
    by (intro sql_affected_key [OF d, of _ i]) auto
  then have aff: "sql_affected ?p f (scheduled_task_runs w) = 1" using x(1) px by auto
  have upd: "sql_update ?p f (scheduled_task_runs w) = map (\<lambda>y. if r_id y = i then f y else y) (scheduled_task_runs w)"
    by (rule sql_update_key [OF d x(1)]) (use px in auto)
  have ids: "map r_id (sql_update ?p f (scheduled_task_runs w)) = map r_id (scheduled_task_runs w)"
    by (rule map_sql_update) (use assms(3) in auto)
  have "f x \<in> set (sql_update ?p f (scheduled_task_runs w))" unfolding upd using x by force
  then show ?thesis using aff ids d fw assms(3) [of x] px by (auto simp: update_runs_def held_def)
qed

lemma triple_held_update:
  assumes "\<And>x. r_state x \<in> S \<Longrightarrow> Q x"
    and "\<And>x. Q x \<Longrightarrow> r_id (f x) = r_id x \<and> r_claim_token (f x) = r_claim_token x \<and> r_state (f x) = st \<and> r_state x \<noteq> st"
  shows "triple (held i k S) (and_then (exec (update_runs (\<lambda>x. r_id x = i \<and> r_claim_token x = Some k \<and> Q x) f)) wrap
      (\<lambda>count. if count \<noteq> 1 then fail err else ret ())) (\<lambda>_. held i k {st}) E"
proof -
  have "triple (held i k S) (exec (update_runs (\<lambda>x. r_id x = i \<and> r_claim_token x = Some k \<and> Q x) f))
      (\<lambda>n w. n = 1 \<and> held i k {st} w) E"
    unfolding triple_def
  proof (intro allI impI)
    fix w assume h: "held i k S w"
    then obtain w' where "update_runs (\<lambda>x. r_id x = i \<and> r_claim_token x = Some k \<and> Q x) f w = (Inr 1, w')" "held i k {st} w'"
      using held_update [where Q = Q and f = f and st = st, OF h] assms by blast
    then show "case exec (update_runs (\<lambda>x. r_id x = i \<and> r_claim_token x = Some k \<and> Q x) f) w of
        (Inl e, w') \<Rightarrow> E w' | (Inr n, w') \<Rightarrow> n = 1 \<and> held i k {st} w'"
      using h by (simp add: held_def)
  qed
  then show ?thesis
    by (rule triple_and_then) (auto simp: triple_def ret_def)
qed

lemma triple_MarkRunQueued:
  assumes "has_DB r" and "trim_space i \<noteq> []" and "trim_space k \<noteq> []"
  shows "triple (held i k {RunClaimed}) (MarkRunQueued r i k) (\<lambda>_. held i k {RunQueued}) E"
  using assms unfolding MarkRunQueued_def by (simp del: One_nat_def) (rule triple_held_update; simp)

lemma triple_MarkRunRunning:
  assumes "has_DB r" and "trim_space i \<noteq> []" and "trim_space k \<noteq> []" and "0 < lease"
  shows "triple (held i k {RunQueued}) (MarkRunRunning r now i k lease) (\<lambda>_. held i k {RunRunning}) E"
  using assms unfolding MarkRunRunning_def by (simp del: One_nat_def) (rule triple_held_update; simp)

lemma held_finalised: "held i k S w \<Longrightarrow> \<forall>s \<in> S. terminal s \<Longrightarrow> finalised i k w"
  by (auto simp: held_def finalised_def)

abbreviation active_states :: "run_state set" where
  "active_states \<equiv> {RunClaimed, RunQueued, RunRunning}"

lemma triple_CompleteRun:
  assumes "has_DB r" and "trim_space (Done_RunID c) \<noteq> []" and "trim_space (Done_ClaimToken c) \<noteq> []" and "terminal (Done_State c)"
    and "Done_State c = RunSucceeded \<longrightarrow> Done_ErrorCode c = []" and "0 \<le> Done_DurationMS c"
  shows "triple (held (Done_RunID c) (Done_ClaimToken c) active_states) (CompleteRun r now c)
    (\<lambda>_. finalised (Done_RunID c) (Done_ClaimToken c)) E"
proof (rule triple_weaken [OF _ _ held_finalised])
  have "CompleteRun r now c = and_then
        (exec (update_runs
          (\<lambda>x. r_id x = Done_RunID c \<and> r_claim_token x = Some (Done_ClaimToken c) \<and> active_run x)
          (\<lambda>x. x\<lparr>r_state := Done_State c, r_error_code := nullable (Done_ErrorCode c), r_lease_until := None,
              r_completed_at := Some now, r_duration_ms := Some (completion_duration now c),
              r_thread_id := coalesce (nullable (Done_ThreadID c)) (r_thread_id x),
              r_turn_id := coalesce (nullable (Done_TurnID c)) (r_turn_id x)\<rparr>)))
        (Wrapf ''complete scheduled task run'')
        (\<lambda>changed. if changed \<noteq> 1 then fail ErrRunClaimLost else ret ())"
    using assms by (auto simp: CompleteRun_def)
  then show "triple (held (Done_RunID c) (Done_ClaimToken c) active_states) (CompleteRun r now c)
    (\<lambda>_. held (Done_RunID c) (Done_ClaimToken c) {Done_State c}) E"
    by (simp only:) (rule triple_held_update; use assms(4) in \<open>auto simp: active_run_def\<close>)
qed (use assms(4) in auto)

lemma triple_CompleteScriptRun:
  assumes "has_DB r" and "trim_space (Done_RunID c) \<noteq> []" and "trim_space (Done_ClaimToken c) \<noteq> []" and "terminal (Done_State c)"
    and "Done_State c = RunSucceeded \<longrightarrow> Done_ErrorCode c = []" and "0 \<le> Done_DurationMS c"
    and "0 \<le> Meta_OutputBytes md" and "trim_space (Meta_StdoutHMAC md) \<noteq> []" and "trim_space (Meta_StderrHMAC md) \<noteq> []"
  shows "triple (held (Done_RunID c) (Done_ClaimToken c) active_states) (CompleteScriptRun r now c md)
    (\<lambda>_. finalised (Done_RunID c) (Done_ClaimToken c)) E"
proof (rule triple_weaken [OF _ _ held_finalised])
  have "CompleteScriptRun r now c md = and_then
        (exec (update_runs
          (\<lambda>x. r_id x = Done_RunID c \<and> r_claim_token x = Some (Done_ClaimToken c) \<and> active_run x)
          (\<lambda>x. x\<lparr>r_state := Done_State c, r_error_code := nullable (Done_ErrorCode c), r_lease_until := None,
              r_completed_at := Some now, r_duration_ms := Some (completion_duration now c),
              r_exit_code := Some (Meta_ExitCode md), r_stdout_hmac := Some (Meta_StdoutHMAC md),
              r_stderr_hmac := Some (Meta_StderrHMAC md), r_output_bytes := Some (Meta_OutputBytes md),
              r_output_truncated := Meta_Truncated md\<rparr>)))
        (Wrapf ''complete scheduled script run'')
        (\<lambda>changed. if changed \<noteq> 1 then fail ErrRunClaimLost else ret ())"
    using assms by (auto simp: CompleteScriptRun_def)
  then show "triple (held (Done_RunID c) (Done_ClaimToken c) active_states) (CompleteScriptRun r now c md)
    (\<lambda>_. held (Done_RunID c) (Done_ClaimToken c) {Done_State c}) E"
    by (simp only:) (rule triple_held_update; use assms(4) in \<open>auto simp: active_run_def\<close>)
qed (use assms(4) in auto)

section \<open>Every dispatched script ends\<close>

lemma deliver_keeps_runs: "preserves runs_rel (Deliver r d now i j runID p)"
proof -
  have stmts: "preserves runs_rel (exec (\<lambda>w. update_deliveries (q w) (f w) w))" "preserves runs_rel (exec (update_deliveries q' f'))"
    "preserves runs_rel (exec (insert_deliveries sel))" "preserves runs_rel (call_feishu c)" for q f q' f' sel c
    by (intro runs.tab.preserves_exec; simp add: preserves_def update_deliveries_def insert_deliveries_def runs.evolves_refl)+
       (simp add: preserves_def call_feishu_def runs.evolves_refl)
  show ?thesis
    unfolding Deliver_def sendFallback_def CreateResultDelivery_def ClaimDelivery_def CompleteDelivery_def
      CreateFallbackAfterRejected_def loadDelivery_def LoadDeliveryRoute_def Let_def
    by (intro runs.tab.preserves_intros stmts)
qed

lemma finalised_runs_rel: "runs_rel w w' \<Longrightarrow> finalised i k w \<Longrightarrow> finalised i k w'"
  unfolding finalised_def using runs.evolves_final by blast

lemma triple_deliver_opt: "triple (finalised i k) (deliver_opt d j p) (\<lambda>_. finalised i k) (finalised i k)"
proof -
  have "preserves runs_rel (deliver_opt d j p)"
    unfolding deliver_opt_def by (intro runs.tab.preserves_intros deliver_keeps_runs)
  then show ?thesis unfolding triple_snd_iff using finalised_runs_rel preservesD by blast
qed

lemma triple_attempt:
  assumes "triple P m (\<lambda>_. Q) Q" and "\<And>v. triple Q (k v) R E"
  shows "triple P (attempt m k) R E"
proof (unfold triple_def, intro allI impI)
  fix w assume "P w"
  then have "Q (snd (m w))" using assms(1) by (simp add: triple_snd_iff)
  then show "case attempt m k w of (Inl e, w') \<Rightarrow> E w' | (Inr x, w') \<Rightarrow> R x w'"
    using assms(2) by (cases "m w") (auto simp: attempt_def triple_def)
qed

text \<open>The facts about the configuration that a script run needs.\<close>

definition script_ready :: "DispatcherMux \<Rightarrow> ScriptExecutor \<Rightarrow> Repository \<Rightarrow> ClaimedRun \<Rightarrow> bool" where
  "script_ready d e r run \<longleftrightarrow> mux_Scripts d = Some e \<and> Executor_Repository e = Some r \<and> has_DB r
     \<and> trim_space (Run_ID run) \<noteq> [] \<and> trim_space (Run_ClaimToken run) \<noteq> []"

lemma triple_failScript:
  assumes "script_ready d e r run" and "code \<noteq> []"
  shows "triple (held (Run_ID run) (Run_ClaimToken run) active_states) (failScript d now run code)
    (\<lambda>_. finalised (Run_ID run) (Run_ClaimToken run)) (finalised (Run_ID run) (Run_ClaimToken run))"
proof -
  have "triple (held (Run_ID run) (Run_ClaimToken run) active_states)
      (CompleteRun r now (simple_completion (Run_ID run) (Run_ClaimToken run) RunFailed code))
      (\<lambda>_. finalised (Run_ID run) (Run_ClaimToken run)) (finalised (Run_ID run) (Run_ClaimToken run))"
    using triple_CompleteRun [of r "simple_completion (Run_ID run) (Run_ClaimToken run) RunFailed code"] assms
    by (simp add: simple_completion_def script_ready_def)
  then show ?thesis using assms unfolding failScript_def script_ready_def
    by (auto simp: FailBeforeExecution_def intro!: triple_and_then triple_deliver_opt triple_ret)
qed

lemma Metadata_Inr:
  assumes "Metadata e result = Inr md" and "Executor_Repository e = Some r" and "\<And>key t. trim_space (mac r key t) \<noteq> []"
  shows "0 \<le> Meta_OutputBytes md" and "trim_space (Meta_StdoutHMAC md) \<noteq> []" and "trim_space (Meta_StderrHMAC md) \<noteq> []"
  using assms by (auto simp: Metadata_def Keyring_HMAC_def split: sum.splits prod.splits)

lemma triple_finishScript:
  assumes ready: "script_ready d e r run" and macs: "\<And>key t. trim_space (mac r key t) \<noteq> []"
  shows "triple (held (Run_ID run) (Run_ClaimToken run) active_states) (finishScript d e begun now run result err)
    (\<lambda>_. finalised (Run_ID run) (Run_ClaimToken run)) (finalised (Run_ID run) (Run_ClaimToken run))"
proof (cases "Metadata e result")
  case (Inl e)
  then show ?thesis unfolding finishScript_def
    by (simp) (intro triple_and_then [OF triple_failScript [OF ready]] triple_fail, auto)
next
  case (Inr md)
  let ?P = "held (Run_ID run) (Run_ClaimToken run) active_states" and ?F = "finalised (Run_ID run) (Run_ClaimToken run)"
  have complete: "triple ?P (Executor_CompleteScriptRun e now
      ((simple_completion (Run_ID run) (Run_ClaimToken run) st code)\<lparr>Done_StartedAt := begun\<rparr>) md) (\<lambda>_. ?F) ?F"
    if "terminal st" "st = RunSucceeded \<longrightarrow> code = []" for st code
    using that ready Metadata_Inr [OF Inr _ macs]
      triple_CompleteScriptRun [of r "(simple_completion (Run_ID run) (Run_ClaimToken run) st code)\<lparr>Done_StartedAt := begun\<rparr>" md]
    by (simp add: script_ready_def Executor_CompleteScriptRun_def simple_completion_def)
  show ?thesis
  proof (cases err)
    case None
    then show ?thesis using Inr unfolding finishScript_def Let_def
      by (auto intro!: triple_and_then [OF complete] triple_and_then [OF triple_deliver_opt] triple_ret split: prod.split)
  next
    case (Some execErr)
    then show ?thesis using Inr unfolding finishScript_def
      by (auto intro!: triple_and_then [OF complete] triple_attempt [OF triple_deliver_opt] triple_fail)
  qed
qed

lemma triple_Execute:
  "triple (held i k S) (Execute e run) (\<lambda>_. held i k S) E"
proof -
  have q: "triple (held i k S) (attempt (query f) g) (\<lambda>_. held i k S) E"
    if "\<And>v. triple (held i k S) (g v) (\<lambda>_. held i k S) E" for f :: "world \<Rightarrow> string option"
      and g :: "string option res \<Rightarrow> (ScriptExecutionResult \<times> go_error option) go_call op"
    using that by (auto simp: triple_def attempt_def held_def split: prod.splits)
  show ?thesis unfolding Execute_def Let_def
    by (auto intro!: q triple_ret split: option.split sum.split command_answer.split)
qed

text \<open>A panic in the command: the states the run may then be in.\<close>

lemma triple_goroutine:
  assumes ready: "script_ready d e r run" and macs: "\<And>key t. trim_space (mac r key t) \<noteq> []"
  shows "triple (held (Run_ID run) (Run_ClaimToken run) {RunClaimed}) (script_goroutine d now begun now2 run)
    (\<lambda>_. finalised (Run_ID run) (Run_ClaimToken run)) (\<lambda>_. False)"
proof -
  let ?H = "held (Run_ID run) (Run_ClaimToken run)" and ?F = "finalised (Run_ID run) (Run_ClaimToken run)"
  let ?Q = "\<lambda>v w. if v = Panicked then ?H active_states w else ?F w"
  have mark: "triple (?H {RunClaimed}) (Executor_MarkRunRunning e now (Run_ID run) (Run_ClaimToken run)) (\<lambda>_. ?H active_states) ?F"
    using ready unfolding Executor_MarkRunRunning_def script_ready_def Let_def
    by (auto intro!: triple_and_then triple_MarkRunQueued triple_weaken [OF triple_MarkRunRunning] simp: held_def)
  have exec: "triple (?H {RunClaimed}) (executeScript d now begun now2 run) ?Q ?F"
    unfolding executeScript_def using ready
    by (auto simp: script_ready_def intro!: triple_and_then [OF mark] triple_and_then [OF triple_Execute]
        triple_and_then [OF triple_finishScript [OF ready macs]] triple_ret split: go_call.split prod.split)
  show ?thesis
  proof (unfold triple_def, intro allI impI)
    fix w assume "?H {RunClaimed} w"
    then have x: "case executeScript d now begun now2 run w of (Inr v, w') \<Rightarrow> ?Q v w' | (Inl e, w') \<Rightarrow> ?F w'"
      using exec by (simp add: triple_def)
    have fin: "?F (snd (failScript d now2 run ''failed_executor_panic'' w'))" if "?H active_states w'" for w'
      using triple_failScript [OF ready, of "''failed_executor_panic''" now2] that by (simp add: triple_snd_iff)
    obtain v w' where "executeScript d now begun now2 run w = (v, w')" by fastforce
    then show "case script_goroutine d now begun now2 run w of (Inl e, w') \<Rightarrow> False | (Inr x, w') \<Rightarrow> ?F w'"
      using x fin [of w'] unfolding script_goroutine_def
      by (auto simp: attempt_def ret_def split: sum.splits go_call.splits prod.splits if_splits)
  qed
qed

section \<open>Properties of script runs\<close>


definition ex_executor :: ScriptExecutor where
  "ex_executor = \<lparr>Executor_Repository = Some (ex_repo\<lparr>mac := \<lambda>k t. ''digest''\<rparr>), Executor_Payloads = Owners ex_repo,
     Executor_ShellPath = ''/bin/sh'', Executor_Timeout = 0, Executor_MaxOutputBytes = 4,
     run_command = (\<lambda>_ _ _ _. CommandPanics)\<rparr>"

definition ex_mux :: DispatcherMux where
  "ex_mux = \<lparr>mux_Prompts = None, mux_Scripts = Some ex_executor, mux_ScriptSlots = True, mux_Delivery = None,
     mux_delivery_ids = (\<lambda>_. (0, ''d1'', ''d2''))\<rparr>"

definition ex_run :: ClaimedRun where
  "ex_run = \<lparr>Run_ID = ''run1'', Run_TraceID = ''tr'', Run_TaskID = ''t1'', Run_AppID = ''app'', Run_ChatGroupID = ''grp'',
     Run_ClaimToken = ''tok1'', Run_TaskVersion = 1, Run_Kind = TaskScript, Run_Silent = False,
     Run_ScheduledFor = 60000, Run_LeaseUntil = 0, Run_Payload = ''ls''\<rparr>"


text \<open>
  The captured output is bounded and honest. Whatever interleaving of writes to the two streams the
  command makes, the kept streams are prefixes of what was written to each, together they hold exactly the
  smaller of the limit and the number of bytes written, nothing is missing below the limit, and (writers
  never write empty slices) the truncation flag is set exactly when more than the limit was written.
\<close>

lemma script_capture_bounded:
  assumes "\<forall>x \<in> set ws. snd x \<noteq> []" and "1 \<le> limit"
    and "Snapshot (capture_writes ws (newScriptOutputCapture limit)) = (out, err, both, truncated)"
  shows "has_prefix (stream False ws) out \<and> has_prefix (stream True ws) err
    \<and> int (length out + length err) = min limit (int (length (stream False ws) + length (stream True ws)))
    \<and> (truncated \<longleftrightarrow> limit < int (length (stream False ws) + length (stream True ws)))
    \<and> (\<not> truncated \<longrightarrow> out = stream False ws \<and> err = stream True ws)
    \<and> length both \<le> nat limit + 1"
proof -
  let ?fresh = "newScriptOutputCapture limit"
  let ?c = "capture_writes ws ?fresh"
  have ok: "capture_ok ?c" by (rule capture_ok_writes [OF capture_ok_new])
  have lim: "capture_limit ?c = limit" "capture_limit ?fresh = limit"
    using assms(2) by (simp_all add: capture_writes_full(2) newScriptOutputCapture_def)
  have full: "capture_fullStdout ?c = stream False ws" "capture_fullStderr ?c = stream True ws"
    using capture_writes_full(1) [of ws ?fresh] unfolding FullSnapshot_def prod.inject
    by (simp_all add: newScriptOutputCapture_def)
  have trunc: "capture_truncated ?c \<longleftrightarrow> limit < int (length (stream False ws) + length (stream True ws))"
    using capture_truncated_writes [OF capture_ok_new assms(1), of limit] assms(2) unfolding full lim
    by (simp add: newScriptOutputCapture_def)
  have out: "out = capture_stdout ?c" "err = capture_stderr ?c" "truncated = capture_truncated ?c"
    "length both \<le> length out + length err + 1"
    using assms(3) by (auto simp: Snapshot_def encode_rune_def scalar_def)
  note facts = ok [unfolded capture_ok_def full lim, folded out(1,2)]
  have used: "capture_used ?c = int (length out + length err)"
    "capture_used ?c = min limit (int (length (stream False ws) + length (stream True ws)))"
    using facts by blast+
  have len: "int (length out + length err) = min limit (int (length (stream False ws) + length (stream True ws)))"
    using used(1) [symmetric] used(2) by (rule trans)
  have pre: "has_prefix (stream False ws) out" "has_prefix (stream True ws) err" using facts by blast+
  have all: "out = stream False ws \<and> err = stream True ws" if "\<not> truncated"
  proof -
    have "length out + length err = length (stream False ws) + length (stream True ws)"
      using len that trunc out(3) by linarith
    moreover obtain a b where "stream False ws = out @ a" "stream True ws = err @ b" using pre by (auto simp: has_prefix_iff)
    ultimately show ?thesis by simp
  qed
  have "length both \<le> nat limit + 1" using len out(4) by linarith
  then show ?thesis using pre len trunc out(3) all by blast
qed

lemma script_capture_bounded_witness:
  "has_prefix (stream False [(False, ''abc''), (True, ''de''), (False, ''f'')])
     (fst (Snapshot (capture_writes [(False, ''abc''), (True, ''de''), (False, ''f'')] (newScriptOutputCapture 4))))"
  using script_capture_bounded [of "[(False, ''abc''), (True, ''de''), (False, ''f'')]" 4]
  by (cases "Snapshot (capture_writes [(False, ''abc''), (True, ''de''), (False, ''f'')] (newScriptOutputCapture 4))") auto

lemma valid_ticks: "to_valid_utf8 (replicate n tick) repl = replicate n tick"
proof (rule to_valid_utf8_id)
  have "chunks (replicate n tick) = map (\<lambda>c. (byte_val c, [c])) (replicate n tick)"
    by (rule chunks_ascii) (simp add: list_all_iff)
  then show "valid_string (replicate n tick)" by (simp add: valid_string_def)
qed

text \<open>
  The console block is bounded, and inert for output without five back-ticks in a row. The block is the
  opening fence, a body of at most 12 KiB and the closing fence; when the output has no run of five
  back-ticks and is shown whole, no fence occurs in the body, so the output cannot end the block early.
\<close>

lemma console_bounded_and_inert:
  assumes "\<not> contains (to_valid_utf8 output (utf8 [65533])) (replicate 5 tick)"
  shows "\<exists>body. fst (safeScriptConsole output) = fence @ ''text'' @ utf8 [10] @ body @ utf8 [10] @ fence
    \<and> length body \<le> maxScriptConsoleCardBytes
    \<and> (snd (safeScriptConsole output) \<or> body = console_text output \<and> \<not> contains body fence)"
proof (cases "length (console_text output) > maxScriptConsoleCardBytes")
  case True
  have "length (to_valid_utf8 (take maxScriptConsoleCardBytes (console_text output)) []) \<le> maxScriptConsoleCardBytes"
    using to_valid_utf8_length [of "take maxScriptConsoleCardBytes (console_text output)"] by (simp add: min_def split: if_splits)
  then show ?thesis using True by (simp add: safeScriptConsole_def Let_def)
next
  case False
  then show ?thesis using guard_fences_inert [OF assms] by (simp add: safeScriptConsole_def Let_def console_text_def)
qed

lemma console_bounded_and_inert_witness:
  "\<not> contains (to_valid_utf8 (replicate 4 tick) (utf8 [65533])) (replicate 5 tick)
   \<and> (\<exists>body. fst (safeScriptConsole (replicate 4 tick)) = fence @ ''text'' @ utf8 [10] @ body @ utf8 [10] @ fence)"
proof -
  have "\<not> contains (to_valid_utf8 (replicate 4 tick) (utf8 [65533])) (replicate 5 tick)"
    unfolding valid_ticks contains_iff by (auto dest: arg_cong [where f = length])
  then show ?thesis using console_bounded_and_inert [of "replicate 4 tick"] by blast
qed

text \<open>Five back-ticks do come through: the replacement of the first three ends in one that joins the rest.\<close>

lemma console_five_ticks: "contains (console_text (replicate 5 tick)) fence"
proof -
  have five: "replicate 5 tick = [tick, tick, tick, tick, tick]"
  proof -
    have "(5::nat) = Suc (Suc (Suc (Suc (Suc 0))))" by simp
    then show ?thesis by (simp only: replicate.simps)
  qed
  have "console_text (replicate 5 tick) = [tick, tick, mk_byte 226, mk_byte 128, mk_byte 139, tick, tick, tick]"
    unfolding console_text_def valid_ticks unfolding five by (simp add: guard_fences_Cons)
  then show ?thesis by (simp add: contains_Cons)
qed

end
