(* ===== verification/Scheduler_Tick.thy ===== *)
theory Scheduler_Tick
  imports Script_Executor Worker_Types
begin

text \<open>
  The scheduler loop and the dispatch of claimed runs (\<open>internal/schedule/scheduler.go\<close>,
  \<open>prompt_dispatcher.go\<close>, \<open>prompt_lifecycle.go\<close> and the prompt side of \<open>dispatch.go\<close>). The store a scheduler
  works on is an interface; the repository provides it. Values drawn during a tick (run ids, claim tokens,
  trace ids, times) are given per position of the scanned list.
\<close>

section \<open>The due scan\<close>

definition due_slot :: "task_row \<Rightarrow> go_time" where
  "due_slot t = (case t_next_run_at t of None \<Rightarrow> zero_time | Some n \<Rightarrow> n)"

definition due_rows :: "go_time \<Rightarrow> world \<Rightarrow> (task_row \<times> app_row \<times> chat_group_row) list" where
  "due_rows now w = sort_key (\<lambda>(t, a, g). (due_slot t, t_id t))
     (List.map_filter (\<lambda>t. case sql_first (\<lambda>a. a_id a = t_app_id t) (apps w) of None \<Rightarrow> None | Some a \<Rightarrow>
         (case sql_first (\<lambda>g. g_id g = t_chat_group_id t) (chat_groups w) of None \<Rightarrow> None | Some g \<Rightarrow> Some (t, a, g)))
       (filter (\<lambda>t. t_enabled t \<and> (case t_next_run_at t of None \<Rightarrow> False | Some n \<Rightarrow> n \<le> now)) (scheduled_tasks w)))"

fun scan_due :: "(task_row \<times> app_row \<times> chat_group_row) list \<Rightarrow> DueTask list res" where
  "scan_due [] = Inr []"
| "scan_due ((t, a, g) # rows) =
     (if t_kind t \<noteq> TaskPrompt \<and> t_kind t \<noteq> TaskScript then Inl (Errorf ''stored due schedule task kind is invalid'')
      else (case scan_due rows of Inl e \<Rightarrow> Inl e | Inr due \<Rightarrow>
        Inr (\<lparr>Due_ID = t_id t, Due_Version = t_version t,
               Due_NextRunAt = due_slot t,
               Due_Kind = t_kind t, Due_RouteRevoked = \<not> a_enabled a \<or> \<not> g_schedule_enabled g\<rparr> # due)))"

definition ListDue :: "Repository \<Rightarrow> go_time \<Rightarrow> int \<Rightarrow> DueTask list op" where
  "ListDue r now limit =
     (if \<not> has_DB r then fail ErrNoDB
      else if is_zero_time now \<or> limit < 1 \<or> limit > 1000 then fail (Errorf ''schedule due scan is invalid'')
      else and_then (query (\<lambda>w. take (nat limit) (due_rows now w))) (Wrapf ''list due schedule tasks'')
        (\<lambda>rows. case scan_due rows of Inl e \<Rightarrow> fail e | Inr due \<Rightarrow> ret due))"

section \<open>The tick\<close>

record DueStore =
  store_ListDue :: "go_time \<Rightarrow> int \<Rightarrow> DueTask list op"
  store_ClaimDue :: "nat \<Rightarrow> DueClaim \<Rightarrow> ClaimedRun op"
  store_SkipMisfire :: "nat \<Rightarrow> DueTask \<Rightarrow> go_time \<Rightarrow> unit op"
  store_FailRouteRevoked :: "nat \<Rightarrow> DueTask \<Rightarrow> go_time \<Rightarrow> unit op"

record Scheduler =
  Scheduler_Store :: "DueStore option"
  Scheduler_Dispatch :: "(nat \<Rightarrow> ClaimedRun \<Rightarrow> unit op) option"
  ScanLimit :: int
  MisfireGrace :: int
  ClaimLease :: int
  MaxPromptDispatch :: int

text \<open>The loop over the scanned tasks (lines 136 to 168); \<open>n\<close> is the position in the list.\<close>

fun tick_loop :: "DueStore \<Rightarrow> (nat \<Rightarrow> ClaimedRun \<Rightarrow> unit op) \<Rightarrow> go_time \<Rightarrow> int \<Rightarrow> int \<Rightarrow> int \<Rightarrow> nat \<Rightarrow> int \<Rightarrow> DueTask list \<Rightarrow> unit op" where
  "tick_loop st dispatch now grace lease maxPrompts n promptCount [] = ret ()"
| "tick_loop st dispatch now grace lease maxPrompts n promptCount (task # tasks) =
     (if Due_ID task = [] \<or> Due_Version task = 0 \<or> is_zero_time (Due_NextRunAt task)
        then tick_loop st dispatch now grace lease maxPrompts (Suc n) promptCount tasks
      else if Due_RouteRevoked task
        then attempt (store_FailRouteRevoked st n task now) (\<lambda>answer.
          case answer of
            Inl err \<Rightarrow> if err \<noteq> ErrDueClaimConflict then fail (Wrapf ''record schedule route revoke'' err)
              else tick_loop st dispatch now grace lease maxPrompts (Suc n) promptCount tasks
          | Inr _ \<Rightarrow> tick_loop st dispatch now grace lease maxPrompts (Suc n) promptCount tasks)
      else if Due_NextRunAt task < now - grace
        then and_then (store_SkipMisfire st n task now) (Wrapf ''skip schedule misfire'') (\<lambda>_.
          tick_loop st dispatch now grace lease maxPrompts (Suc n) promptCount tasks)
      else if Due_Kind task = TaskPrompt \<and> promptCount \<ge> maxPrompts
        then tick_loop st dispatch now grace lease maxPrompts (Suc n) promptCount tasks
      else attempt (store_ClaimDue st n \<lparr>Claim_TaskID = Due_ID task, Claim_ObservedVersion = Due_Version task,
            Claim_ObservedSlot = Due_NextRunAt task, Claim_Lease = lease\<rparr>) (\<lambda>answer.
          case answer of
            Inl err \<Rightarrow> if err = ErrDueClaimConflict
              then tick_loop st dispatch now grace lease maxPrompts (Suc n) promptCount tasks
              else fail (Wrapf ''claim due schedule task'' err)
          | Inr run \<Rightarrow> and_then (dispatch n run) (Wrapf ''dispatch claimed schedule run'') (\<lambda>_.
              tick_loop st dispatch now grace lease maxPrompts (Suc n)
                (if Due_Kind task = TaskPrompt then promptCount + 1 else promptCount) tasks)))"

definition default_to :: "int \<Rightarrow> int \<Rightarrow> int" where
  "default_to d v = (if v \<le> 0 then d else v)"

definition Tick :: "Scheduler \<Rightarrow> go_time \<Rightarrow> unit op" where
  "Tick s now = (case Scheduler_Store s of
       None \<Rightarrow> fail (Errorf ''schedule store and dispatcher are required'')
     | Some st \<Rightarrow> (case Scheduler_Dispatch s of
           None \<Rightarrow> fail (Errorf ''schedule store and dispatcher are required'')
         | Some dispatch \<Rightarrow> and_then (store_ListDue st now (default_to 100 (ScanLimit s)))
             (Wrapf ''list due schedule tasks'') (\<lambda>due.
               tick_loop st dispatch now (default_to (minutes 1) (MisfireGrace s)) (default_to (seconds 30) (ClaimLease s))
                 (default_to 20 (MaxPromptDispatch s)) 0 0 due)))"

text \<open>The repository as the store of a scheduler. The values drawn by the n-th claim or insert.\<close>

record drawn =
  drawn_run_id :: string
  drawn_token :: string
  drawn_trace :: "string res"
  drawn_now :: go_time

definition repository_store :: "Repository \<Rightarrow> string res option \<Rightarrow> (nat \<Rightarrow> drawn) \<Rightarrow> DueStore" where
  "repository_store r gen draw = \<lparr>store_ListDue = ListDue r,
     store_ClaimDue = (\<lambda>n. ClaimDue r (drawn_now (draw n)) (drawn_run_id (draw n)) (drawn_token (draw n)) gen (drawn_trace (draw n))),
     store_SkipMisfire = (\<lambda>n. SkipMisfire r (drawn_run_id (draw n))),
     store_FailRouteRevoked = (\<lambda>n. FailRouteRevoked r (drawn_run_id (draw n)))\<rparr>"

section \<open>Dispatching prompts\<close>

text \<open>The worker pool answers \<open>Accept\<close>; what it then does with the message is modelled with the pool.\<close>

record PromptDispatcher =
  pd_Repository :: "Repository option"
  pd_Accept :: "(Message \<Rightarrow> unit res) option"

definition promptWorkerRoute :: "PromptRoute \<Rightarrow> Key \<times> ReplyTarget" where
  "promptWorkerRoute route =
     (if Route_ChatType route = ''group''
      then (GroupKey (Route_ChatID route) (Route_AppID route), \<lparr>Reply_ID = Route_ChatID route, Reply_Type = ''chat_id''\<rparr>)
      else (P2PKey (Route_OwnerOpenID route) (Route_AppID route), \<lparr>Reply_ID = Route_OwnerOpenID route, Reply_Type = ''open_id''\<rparr>))"

definition prompt_message :: "string \<Rightarrow> go_time \<Rightarrow> ClaimedRun \<Rightarrow> PromptRoute \<Rightarrow> Message" where
  "prompt_message msgID now run route = \<lparr>Msg_ID = msgID, Msg_TraceID = Run_TraceID run,
     Msg_ChatGroupID = Route_ChatGroupID route, Msg_ChatType = Route_ChatType route, Msg_ChatID = Route_ChatID route,
     Msg_Key = fst (promptWorkerRoute route),
     Msg_Runtime = \<lparr>Runtime_ID = Route_AppID route, Runtime_WorkspaceDir = Route_WorkspaceDir route,
       Runtime_WorkspaceMode = Route_WorkspaceMode route, Runtime_Model = Route_Model route, Runtime_Effort = Route_Effort route\<rparr>,
     Msg_Reply = snd (promptWorkerRoute route), Msg_ActorOpenID = Route_OwnerOpenID route, Msg_Query = Run_Payload run,
     Msg_ReceivedAt = now, Msg_HasRequiredAttachment = False, Msg_AttachmentIDs = [], Msg_AttachmentOutboxDir = [],
     Msg_Goal = False, Msg_ScheduledTaskID = Run_TaskID run, Msg_ScheduledTaskRunID = Run_ID run,
     Msg_ScheduledClaimToken = Run_ClaimToken run\<rparr>"

definition PromptDispatcher_Dispatch :: "PromptDispatcher \<Rightarrow> string \<Rightarrow> go_time \<Rightarrow> go_time \<Rightarrow> ClaimedRun \<Rightarrow> unit op" where
  "PromptDispatcher_Dispatch d msgID now now2 run = (case pd_Repository d of
       None \<Rightarrow> fail (Errorf ''scheduled prompt dispatcher is not configured'')
     | Some r \<Rightarrow> (case pd_Accept d of
         None \<Rightarrow> fail (Errorf ''scheduled prompt dispatcher is not configured'')
       | Some accept \<Rightarrow>
           if Run_Kind run \<noteq> TaskPrompt then fail (Errorf ''scheduled prompt dispatcher received another kind'')
           else and_then (LoadPromptRoute r run) id (\<lambda>route.
             if Run_Payload run = [] then fail (Errorf ''scheduled prompt payload is missing'')
             else and_then (MarkRunQueued r (Run_ID run) (Run_ClaimToken run)) (Wrapf ''mark scheduled prompt queued'') (\<lambda>_.
               case accept (prompt_message msgID now run route) of
                 Inr _ \<Rightarrow> ret ()
               | Inl err \<Rightarrow> attempt (CompleteRun r now2 (simple_completion (Run_ID run) (Run_ClaimToken run) RunFailed ''failed_enqueue''))
                   (\<lambda>_. fail (Wrapf ''enqueue scheduled prompt'' err))))))"

text \<open>
  The mux: a prompt goes to the prompt dispatcher; a script starts a goroutine (\<open>script_goroutine\<close>) when a
  slot of the bounded channel is free, and is failed with its result delivered when none is. The goroutine
  runs on its own: starting it changes nothing here.
\<close>

definition DispatcherMux_Dispatch :: "DispatcherMux \<Rightarrow> bool \<Rightarrow> go_time \<Rightarrow> ClaimedRun \<Rightarrow> unit op" where
  "DispatcherMux_Dispatch d slot_free now run =
     (if Run_Kind run = TaskPrompt then (case mux_Prompts d of
          None \<Rightarrow> fail (Errorf ''scheduled prompt dispatcher is unavailable'')
        | Some dispatch \<Rightarrow> dispatch run)
      else if Run_Kind run = TaskScript then (case mux_Scripts d of
          None \<Rightarrow> fail (Errorf ''scheduled script capacity is unavailable'')
        | Some e \<Rightarrow>
            if \<not> mux_ScriptSlots d then fail (Errorf ''scheduled script capacity is unavailable'')
            else if slot_free then ret ()
            else and_then (FailBeforeExecution e now (Run_ID run) (Run_ClaimToken run) ''failed_capacity'')
              (Wrapf ''fail capacity-limited scheduled script'') (\<lambda>_.
                attempt (deliver_opt d (Run_ID run) (presentation False ''failed_capacity'' 0)) (\<lambda>_. ret ())))
      else fail (Errorf ''scheduled run kind is invalid''))"

section \<open>The lifecycle the workers call\<close>

record PromptRunLifecycle =
  lc_Runs :: "Repository option"
  lc_Delivery :: "(Repository \<times> ResultDeliveryDispatcher) option"
  lc_RunningLease :: int

definition ErrNoRunStore :: go_error where
  "ErrNoRunStore = Errorf ''scheduled prompt run store is unavailable''"

definition MarkScheduledRunning :: "PromptRunLifecycle \<Rightarrow> go_time \<Rightarrow> string \<Rightarrow> string \<Rightarrow> unit op" where
  "MarkScheduledRunning l now runID claimToken = (case lc_Runs l of
       None \<Rightarrow> fail ErrNoRunStore
     | Some r \<Rightarrow> MarkRunRunning r now runID claimToken (default_to (seconds 330) (lc_RunningLease l)))"

definition DiscardScheduledRun :: "PromptRunLifecycle \<Rightarrow> go_time \<Rightarrow> string \<Rightarrow> string \<Rightarrow> string \<Rightarrow> unit op" where
  "DiscardScheduledRun l now runID claimToken code = (case lc_Runs l of
       None \<Rightarrow> fail ErrNoRunStore
     | Some r \<Rightarrow> CompleteRun r now (simple_completion runID claimToken RunCancelled code))"

text \<open>The completion a finished prompt reports.\<close>

definition result_completion :: "string \<Rightarrow> string \<Rightarrow> bool \<Rightarrow> string \<Rightarrow> int \<Rightarrow> string \<Rightarrow> string \<Rightarrow> RunCompletion" where
  "result_completion runID claimToken succeeded code durationMS threadID turnID =
     \<lparr>Done_RunID = runID, Done_ClaimToken = claimToken, Done_State = (if succeeded then RunSucceeded else RunFailed),
      Done_ErrorCode = (if succeeded then [] else code), Done_StartedAt = zero_time, Done_DurationMS = durationMS,
      Done_ThreadID = threadID, Done_TurnID = turnID\<rparr>"

definition CompleteScheduledRunResult :: "PromptRunLifecycle \<Rightarrow> go_time \<Rightarrow> go_time \<times> string \<times> string \<Rightarrow> string \<Rightarrow> string \<Rightarrow> bool \<Rightarrow> string \<Rightarrow> int \<Rightarrow> string \<Rightarrow> string \<Rightarrow> string \<Rightarrow> unit op" where
  "CompleteScheduledRunResult l now ids runID claimToken succeeded code durationMS finalText threadID turnID = (case lc_Runs l of
       None \<Rightarrow> fail ErrNoRunStore
     | Some r \<Rightarrow> and_then (CompleteRun r now (result_completion runID claimToken succeeded code durationMS threadID turnID)) id (\<lambda>_.
         case lc_Delivery l of
           None \<Rightarrow> fail (Errorf ''scheduled prompt result delivery is unavailable'')
         | Some (r', dd) \<Rightarrow> (case ids of (now', newID, fallbackID) \<Rightarrow> Deliver r' dd now' newID fallbackID runID
             \<lparr>Pres_Succeeded = succeeded, Pres_ErrorCode = (if succeeded then [] else code), Pres_FinalText = finalText,
              Pres_ScriptConsole = [], Pres_ExitCode = 0, Pres_Truncated = False\<rparr>)))"

definition CompleteScheduledRun :: "PromptRunLifecycle \<Rightarrow> go_time \<Rightarrow> go_time \<times> string \<times> string \<Rightarrow> string \<Rightarrow> string \<Rightarrow> bool \<Rightarrow> string \<Rightarrow> int \<Rightarrow> unit op" where
  "CompleteScheduledRun l now ids runID claimToken succeeded code durationMS =
     CompleteScheduledRunResult l now ids runID claimToken succeeded code durationMS [] [] []"

text \<open>The dispatcher of the running service: the mux over the prompt dispatcher, with the values drawn by the n-th dispatch.\<close>

record dispatch_drawn =
  dd_message_id :: string
  dd_now :: go_time
  dd_now2 :: go_time
  dd_slot_free :: bool

definition service_dispatch :: "DispatcherMux \<Rightarrow> PromptDispatcher \<Rightarrow> (nat \<Rightarrow> dispatch_drawn) \<Rightarrow> nat \<Rightarrow> ClaimedRun \<Rightarrow> unit op" where
  "service_dispatch d pd draw n = DispatcherMux_Dispatch
     (d\<lparr>mux_Prompts := Some (PromptDispatcher_Dispatch pd (dd_message_id (draw n)) (dd_now (draw n)) (dd_now2 (draw n)))\<rparr>)
     (dd_slot_free (draw n)) (dd_now (draw n))"

section \<open>What a dispatch keeps\<close>

text \<open>
  The interface the dispatcher relies on: the run operations and the delivery of a result keep a relation.
  Then so does a dispatch.
\<close>

locale run_relation = world_relation R for R :: "world \<Rightarrow> world \<Rightarrow> bool" +
  assumes queued_keeps: "preserves R (MarkRunQueued r i k)"
    and complete_keeps: "preserves R (CompleteRun r now c)"
    and route_keeps: "preserves R (LoadPromptRoute r run)"
    and deliver_keeps: "preserves R (Deliver r dd now i j runID p)"
begin

lemma prompt_keeps: "preserves R (PromptDispatcher_Dispatch d msgID now now2 run)"
  unfolding PromptDispatcher_Dispatch_def by (intro preserves_intros queued_keeps complete_keeps route_keeps)

lemma mux_keeps:
  assumes "\<And>f run. mux_Prompts d = Some f \<Longrightarrow> preserves R (f run)"
  shows "preserves R (DispatcherMux_Dispatch d free now run)"
proof -
  have prompts: "preserves R (case mux_Prompts d of None \<Rightarrow> fail e | Some dispatch \<Rightarrow> dispatch run)" for e
    using assms by (auto split: option.split intro: preserves_fail)
  show ?thesis unfolding DispatcherMux_Dispatch_def FailBeforeExecution_def deliver_opt_def
    by (rule preserves_If [OF prompts]) (intro preserves_intros complete_keeps deliver_keeps)
qed

lemma service_keeps: "preserves R (service_dispatch d pd draw n run)"
  unfolding service_dispatch_def by (rule mux_keeps) (auto intro: prompt_keeps)

end

section \<open>What a tick keeps\<close>

text \<open>The interface of a store and a dispatcher that keep a relation; a tick over them keeps it too.\<close>

locale tick_relation = world_relation R for R :: "world \<Rightarrow> world \<Rightarrow> bool" +
  fixes st :: DueStore and dispatch :: "nat \<Rightarrow> ClaimedRun \<Rightarrow> unit op"
  assumes list_keeps: "preserves R (store_ListDue st now limit)"
    and claim_keeps: "preserves R (store_ClaimDue st n claim)"
    and skip_keeps: "preserves R (store_SkipMisfire st n due now)"
    and revoke_keeps: "preserves R (store_FailRouteRevoked st n due now)"
    and dispatch_keeps: "preserves R (dispatch n run)"
begin

lemma tick_loop_keeps: "preserves R (tick_loop st dispatch now grace lease maxPrompts n pc tasks)"
proof (induction tasks arbitrary: n pc)
  case Nil
  then show ?case by (simp add: preserves_ret)
next
  case (Cons task tasks)
  show ?case unfolding tick_loop.simps
    by (intro preserves_intros Cons.IH claim_keeps skip_keeps revoke_keeps dispatch_keeps)
qed

lemma tick_keeps:
  assumes "Scheduler_Store s = Some st" and "Scheduler_Dispatch s = Some dispatch"
  shows "preserves R (Tick s now)"
  using assms unfolding Tick_def
  by (simp add: preserves_and_then [OF list_keeps tick_loop_keeps])

end

text \<open>
  The interface for counting: \<open>meter\<close> grows by at most one with the claim of a prompt (of a task whose
  observation still agrees with the table) and with nothing else.
\<close>

locale prompt_meter =
  fixes st :: DueStore and dispatch :: "nat \<Rightarrow> ClaimedRun \<Rightarrow> unit op"
    and meter :: "world \<Rightarrow> nat" and agrees :: "world \<Rightarrow> DueTask \<Rightarrow> bool"
  assumes claim_meter: "agrees w task \<Longrightarrow> Claim_TaskID claim = Due_ID task
      \<Longrightarrow> meter (snd (store_ClaimDue st n claim w)) \<le> meter w + (if Due_Kind task = TaskPrompt then 1 else 0)"
    and claim_conflict: "fst (store_ClaimDue st n claim w) = Inl ErrDueClaimConflict \<Longrightarrow> meter (snd (store_ClaimDue st n claim w)) \<le> meter w"
    and skip_meter: "meter (snd (store_SkipMisfire st n due now w)) \<le> meter w"
    and revoke_meter: "meter (snd (store_FailRouteRevoked st n due now w)) \<le> meter w"
    and dispatch_meter: "meter (snd (dispatch n run w)) \<le> meter w"
    and claim_agrees: "agrees w task \<Longrightarrow> agrees (snd (store_ClaimDue st n claim w)) task"
    and skip_agrees: "agrees w task \<Longrightarrow> agrees (snd (store_SkipMisfire st n due now w)) task"
    and revoke_agrees: "agrees w task \<Longrightarrow> agrees (snd (store_FailRouteRevoked st n due now w)) task"
    and dispatch_agrees: "agrees w task \<Longrightarrow> agrees (snd (dispatch n run w)) task"
begin

lemma tick_loop_meter:
  assumes "\<forall>task \<in> set tasks. agrees w task"
  shows "int (meter (snd (tick_loop st dispatch now grace lease maxPrompts n pc tasks w))) \<le> int (meter w) + max 0 (maxPrompts - pc)"
  using assms
proof (induction tasks arbitrary: n pc w)
  case Nil
  then show ?case by (simp add: ret_def)
next
  case (Cons task tasks)
  let ?loop = "tick_loop st dispatch now grace lease maxPrompts (Suc n)"
  let ?claim = "\<lparr>Claim_TaskID = Due_ID task, Claim_ObservedVersion = Due_Version task,
    Claim_ObservedSlot = Due_NextRunAt task, Claim_Lease = lease\<rparr>"
  obtain fv fw where f: "store_FailRouteRevoked st n task now w = (fv, fw)" by fastforce
  obtain sv sw where s: "store_SkipMisfire st n task now w = (sv, sw)" by fastforce
  obtain cv cw where c: "store_ClaimDue st n ?claim w = (cv, cw)" by fastforce
  have fw: "meter fw \<le> meter w" "\<forall>t \<in> set tasks. agrees fw t"
    using revoke_meter [of n task now w] revoke_agrees [of w _ n task now] f Cons.prems by auto
  have sw: "meter sw \<le> meter w" "\<forall>t \<in> set tasks. agrees sw t"
    using skip_meter [of n task now w] skip_agrees [of w _ n task now] s Cons.prems by auto
  have cw: "meter cw \<le> meter w + (if Due_Kind task = TaskPrompt then 1 else 0)" "\<forall>t \<in> set tasks. agrees cw t"
    "cv = Inl ErrDueClaimConflict \<Longrightarrow> meter cw \<le> meter w"
    using claim_meter [of w task ?claim n] claim_agrees [of w _ n ?claim] claim_conflict [of n ?claim w] c Cons.prems by auto
  have same: "int (meter (snd (?loop pc tasks w))) \<le> int (meter w) + max 0 (maxPrompts - pc)"
    using Cons.IH Cons.prems by simp
  have dispatched: "int (meter (snd (and_then (dispatch n run) wrap (\<lambda>_. ?loop pc' tasks) cw))) \<le> int (meter cw) + max 0 (maxPrompts - pc')"
    for run wrap pc'
  proof -
    obtain dv dw where d: "dispatch n run cw = (dv, dw)" by fastforce
    have "meter dw \<le> meter cw" "\<forall>t \<in> set tasks. agrees dw t"
      using dispatch_meter [of n run cw] dispatch_agrees [of cw _ n run] cw(2) d by auto
    then show ?thesis using Cons.IH [of dw "Suc n" pc'] d by (cases dv) (auto simp: and_then_def)
  qed
  show ?case
  proof (cases "Due_ID task = [] \<or> Due_Version task = 0 \<or> is_zero_time (Due_NextRunAt task)")
    case True
    then show ?thesis using same by simp
  next
    case known: False
    consider (revoked) "Due_RouteRevoked task" | (misfire) "\<not> Due_RouteRevoked task" "Due_NextRunAt task < now - grace"
      | (capped) "\<not> Due_RouteRevoked task" "\<not> Due_NextRunAt task < now - grace" "Due_Kind task = TaskPrompt" "maxPrompts \<le> pc"
      | (claim) "\<not> Due_RouteRevoked task" "\<not> Due_NextRunAt task < now - grace" "Due_Kind task = TaskPrompt \<Longrightarrow> pc < maxPrompts"
      by linarith
    then show ?thesis
    proof cases
      case revoked
      then show ?thesis using known f fw(1) Cons.IH [OF fw(2), of "Suc n" pc]
        by (cases fv) (auto simp: attempt_def fail_def)
    next
      case misfire
      then show ?thesis using known s sw(1) Cons.IH [OF sw(2), of "Suc n" pc]
        by (cases sv) (auto simp: and_then_def)
    next
      case capped
      then show ?thesis using known same by simp
    next
      case claim
      have capped: "\<not> (Due_Kind task = TaskPrompt \<and> maxPrompts \<le> pc)" using claim(3) by auto
      show ?thesis
      proof (cases cv)
        case (Inl err)
        then show ?thesis using known claim(1,2) capped c cw(1,3) Cons.IH [OF cw(2), of "Suc n" pc]
          by (auto simp: attempt_def fail_def split: if_splits)
      next
        case (Inr run)
        then have "tick_loop st dispatch now grace lease maxPrompts n pc (task # tasks) w
          = and_then (dispatch n run) (Wrapf ''dispatch claimed schedule run'')
              (\<lambda>_. ?loop (if Due_Kind task = TaskPrompt then pc + 1 else pc) tasks) cw"
          using known claim(1,2) capped c by (auto simp: attempt_def)
        then show ?thesis using cw(1) claim(3)
            dispatched [of run "Wrapf ''dispatch claimed schedule run''" "if Due_Kind task = TaskPrompt then pc + 1 else pc"]
          by (cases "Due_Kind task = TaskPrompt") auto
      qed
    qed
  qed
qed

end

section \<open>The repository under a tick\<close>

definition claimed_prompts :: "world \<Rightarrow> nat" where
  "claimed_prompts w = length (filter (\<lambda>x. r_kind x = TaskPrompt \<and> r_claim_token x \<noteq> None) (scheduled_task_runs w))"

definition kind_agrees :: "world \<Rightarrow> DueTask \<Rightarrow> bool" where
  "kind_agrees w task \<longleftrightarrow> (\<forall>t \<in> set (scheduled_tasks w). t_id t = Due_ID task \<longrightarrow> t_kind t = Due_Kind task)"

text \<open>Nothing but the three slot operations appends runs, and no operation changes the kind of a row.\<close>

abbreviation steady :: "world \<Rightarrow> world \<Rightarrow> bool" where
  "steady w w' \<equiv> map (\<lambda>x. (r_kind x, r_claim_token x)) (scheduled_task_runs w') = map (\<lambda>x. (r_kind x, r_claim_token x)) (scheduled_task_runs w)
     \<and> map (\<lambda>t. (t_id t, t_kind t)) (scheduled_tasks w') = map (\<lambda>t. (t_id t, t_kind t)) (scheduled_tasks w)"

interpretation steady: world_relation steady
  by unfold_locales auto

lemma steady_prompts:
  assumes "steady w w'"
  shows "claimed_prompts w' = claimed_prompts w"
proof -
  have eq: "claimed_prompts v = length (filter (\<lambda>(k, c). k = TaskPrompt \<and> c \<noteq> None)
      (map (\<lambda>x. (r_kind x, r_claim_token x)) (scheduled_task_runs v)))" for v
    by (simp add: claimed_prompts_def filter_map comp_def)
  show ?thesis unfolding eq conjunct1 [OF assms] ..
qed

lemma kind_agrees_iff:
  "kind_agrees w task \<longleftrightarrow> (\<forall>p \<in> set (map (\<lambda>t. (t_id t, t_kind t)) (scheduled_tasks w)). fst p = Due_ID task \<longrightarrow> snd p = Due_Kind task)"
  by (auto simp: kind_agrees_def)

lemma steady_agrees: "steady w w' \<Longrightarrow> kind_agrees w' task \<longleftrightarrow> kind_agrees w task"
  unfolding kind_agrees_iff by simp

lemma steady_update:
  assumes "\<And>w x. p w x \<Longrightarrow> r_kind (f w x) = r_kind x \<and> r_claim_token (f w x) = r_claim_token x"
  shows "preserves steady (exec (\<lambda>w. update_runs (p w) (f w) w))"
  by (rule steady.preserves_exec, rule preservesI)
    (use assms in \<open>auto simp: update_runs_def intro!: map_sql_update\<close>)

lemma steady_update_static:
  "(\<And>x. p x \<Longrightarrow> r_kind (f x) = r_kind x \<and> r_claim_token (f x) = r_claim_token x) \<Longrightarrow> preserves steady (exec (update_runs p f))"
  using steady_update [of "\<lambda>_. p" "\<lambda>_. f"] by simp

lemma steady_stmts:
  "preserves steady (exec (\<lambda>w. update_deliveries (q w) (g w) w))" "preserves steady (exec (update_deliveries q' g'))"
  "preserves steady (exec (insert_deliveries sel))" "preserves steady (call_feishu c)"
  by (intro steady.preserves_exec; simp add: preserves_def update_deliveries_def insert_deliveries_def)+
    (simp add: preserves_def call_feishu_def)

lemma steady_runs:
  "preserves steady (MarkRunQueued r i k)" "preserves steady (CompleteRun r now c)" "preserves steady (LoadPromptRoute r run)"
  unfolding MarkRunQueued_def CompleteRun_def LoadPromptRoute_def
  by (intro steady.preserves_intros steady_update_static; simp)+

lemma steady_Deliver: "preserves steady (Deliver r d now i j runID p)"
  unfolding Deliver_def sendFallback_def CreateResultDelivery_def ClaimDelivery_def CompleteDelivery_def
    CreateFallbackAfterRejected_def loadDelivery_def LoadDeliveryRoute_def Let_def
  by (intro steady.preserves_intros steady_stmts)

interpretation steady_runs: run_relation steady
  by unfold_locales (rule steady_runs steady_Deliver)+

lemma consumed_tasks:
  assumes "consumed r i slot from now x w w'"
  shows "map (\<lambda>t. (t_id t, t_kind t)) (scheduled_tasks w') = map (\<lambda>t. (t_id t, t_kind t)) (scheduled_tasks w)"
proof -
  from assms obtain t :: task_row and cron where q: "quiet w' = (quiet w)\<lparr>scheduled_task_runs := scheduled_task_runs w @ [x],
          scheduled_tasks := sql_update
            (\<lambda>t'. t_id t' = i \<and> t_version t' = t_version t \<and> t_next_run_at t' = Some slot)
            (touch_task (clock w) (\<lambda>t'. t'\<lparr>t_next_run_at := Some (cron from), t_last_run_at := Some now\<rparr>))
            (scheduled_tasks w)\<rparr>" unfolding consumed_def by (elim exE conjE) (rule that)
  show ?thesis using arg_cong [OF q, of scheduled_tasks] by (simp add: touch_task_def map_sql_update)
qed

lemma consumed_agrees: "consumed r i slot from now x w w' \<Longrightarrow> kind_agrees w' task \<longleftrightarrow> kind_agrees w task"
  unfolding kind_agrees_iff by (simp only: consumed_tasks)

lemma consumed_prompts:
  "consumed r i slot from now x w w' \<Longrightarrow> claimed_prompts w'
    = claimed_prompts w + (if r_kind x = TaskPrompt \<and> r_claim_token x \<noteq> None then 1 else 0)"
  by (simp add: claimed_prompts_def consumed_runs)

lemma quiet_prompts: "quiet w' = quiet w \<Longrightarrow> claimed_prompts w' = claimed_prompts w \<and> (kind_agrees w' task \<longleftrightarrow> kind_agrees w task)"
  using quiet_eq_tables(1,3) [of w' w] by (simp add: claimed_prompts_def kind_agrees_def)

lemma joined_task_mem: "joined_task i w = Some (t, a, g) \<Longrightarrow> t \<in> set (scheduled_tasks w) \<and> t_id t = i"
  by (auto simp: joined_task_def dest: sql_first_SomeD split: option.splits)

lemma claim_prompt_count:
  assumes "kind_agrees w task" and "Claim_TaskID claim = Due_ID task"
  shows "claimed_prompts (snd (ClaimDue r now i k gen raw claim w)) \<le> claimed_prompts w + (if Due_Kind task = TaskPrompt then 1 else 0)"
proof (cases rule: ClaimDue_cases [of r now i k gen raw claim w])
  case (unchanged e)
  then show ?thesis using quiet_prompts [OF unchanged(2)] by simp
next
  case (committed trace run)
  then obtain t a g where j: "joined_task (Claim_TaskID claim) w = Some (t, a, g)"
    and c: "consumed r (Claim_TaskID claim) (Claim_ObservedSlot claim) (Claim_ObservedSlot claim) now
          (claim_row now i k trace claim t) w (snd (ClaimDue r now i k gen raw claim w))"
    unfolding claimed_def by (elim exE conjE) (rule that)
  have "t_kind t = Due_Kind task" using joined_task_mem [OF j] assms by (auto simp: kind_agrees_def)
  then show ?thesis unfolding consumed_prompts [OF c] by (simp add: claim_row_def new_run_def)
qed

text \<open>A conflict is answered before the commit, so it has changed nothing.\<close>

lemma ClaimDue_conflict_unchanged:
  assumes "fst (ClaimDue r now i k gen raw claim w) = Inl ErrDueClaimConflict"
  shows "quiet (snd (ClaimDue r now i k gen raw claim w)) = quiet w"
proof (cases "\<not> has_DB r \<or> trim_space (Claim_TaskID claim) = [] \<or> Claim_ObservedVersion claim = 0 \<or> is_zero_time (Claim_ObservedSlot claim)")
  case True
  then have "\<exists>e. ClaimDue r now i k gen raw claim w = (Inl e, w)" by (auto simp: ClaimDue_def fail_def)
  then show ?thesis by auto
next
  case False
  define lease where "lease = (if Claim_Lease claim \<le> 0 then 30000 else Claim_Lease claim)"
  have eq: "ClaimDue r now i k gen raw claim
    = transaction (Wrapf ''begin schedule due claim'') (claimDueTx r now i k gen raw lease claim)"
    using False by (simp add: ClaimDue_def lease_def)
  show ?thesis unfolding eq
  proof (cases rule: transaction_cases [of "Wrapf ''begin schedule due claim''" "claimDueTx r now i k gen raw lease claim" w])
    case (committed cw run w2)
    have "cw = Wrapf ''commit schedule due claim''" using committed(1) by (auto simp: claimDueTx_def op_Inr Let_def)
    then show "quiet (snd (transaction (Wrapf ''begin schedule due claim'') (claimDueTx r now i k gen raw lease claim) w)) = quiet w"
      using committed(3) assms eq by (auto simp: ErrDueClaimConflict_def)
  qed
qed

lemma claim_agrees_kept: "kind_agrees w task \<Longrightarrow> kind_agrees (snd (ClaimDue r now i k gen raw claim w)) task"
  by (cases rule: ClaimDue_cases [of r now i k gen raw claim w])
    (auto simp: claimed_def consumed_agrees dest: quiet_prompts [of _ _ task])

lemma skip_kept:
  "claimed_prompts (snd (SkipMisfire r i due now w)) = claimed_prompts w"
  "kind_agrees (snd (SkipMisfire r i due now w)) task \<longleftrightarrow> kind_agrees w task"
  by (cases rule: SkipMisfire_cases [of r i due now w];
      auto simp: consumed_prompts consumed_agrees misfire_row_def new_run_def dest: quiet_prompts [of _ _ task])+

lemma revoke_kept:
  "claimed_prompts (snd (FailRouteRevoked r i due now w)) = claimed_prompts w"
  "kind_agrees (snd (FailRouteRevoked r i due now w)) task \<longleftrightarrow> kind_agrees w task"
  by (cases rule: FailRouteRevoked_cases [of r i due now w];
      auto simp: consumed_prompts consumed_agrees revoked_row_def new_run_def dest: quiet_prompts [of _ _ task])+

interpretation metered: prompt_meter "repository_store r gen draw" "service_dispatch d pd ddraw" claimed_prompts kind_agrees
  for r gen draw d pd ddraw
  by unfold_locales
    (simp_all add: repository_store_def claim_prompt_count claim_agrees_kept skip_kept revoke_kept
      steady_prompts [OF preservesD [OF steady_runs.service_keeps]] steady_agrees [OF preservesD [OF steady_runs.service_keeps]]
      ClaimDue_conflict_unchanged [THEN quiet_prompts, THEN conjunct1])

lemma scan_due_mem:
  "scan_due rows = Inr due \<Longrightarrow> task \<in> set due \<Longrightarrow> \<exists>t a g. (t, a, g) \<in> set rows \<and> Due_ID task = t_id t \<and> Due_Kind task = t_kind t"
proof (induction rows arbitrary: due rule: scan_due.induct)
  case (2 t a g rows)
  then obtain due' where "scan_due rows = Inr due'"
    and "task = \<lparr>Due_ID = t_id t, Due_Version = t_version t, Due_NextRunAt = due_slot t, Due_Kind = t_kind t,
      Due_RouteRevoked = \<not> a_enabled a \<or> \<not> g_schedule_enabled g\<rparr> \<or> task \<in> set due'"
    by (auto split: if_splits sum.splits)
  then show ?case using 2(1) [of due'] 2(2) by (fastforce split: if_splits)
qed simp

lemma due_rows_mem: "(t, a, g) \<in> set (due_rows now w) \<Longrightarrow> t \<in> set (scheduled_tasks w)"
  by (auto simp: due_rows_def List.map_filter_def split: option.splits)

lemma ListDue_agrees:
  assumes "ListDue r now limit w = (Inr due, w1)" and "distinct (map t_id (scheduled_tasks w))"
  shows "\<forall>task \<in> set due. kind_agrees w1 task" and "quiet w1 = quiet w"
proof -
  from assms(1) have rows: "scan_due (take (nat limit) (due_rows now (pop_fault w))) = Inr due" and w1: "w1 = pop_fault w"
    by (auto simp: ListDue_def op_Inr)
  show "quiet w1 = quiet w" using w1 by simp
  show "\<forall>task \<in> set due. kind_agrees w1 task"
  proof
    fix task assume "task \<in> set due"
    from scan_due_mem [OF rows this] obtain t a g where "(t, a, g) \<in> set (take (nat limit) (due_rows now (pop_fault w)))"
      and task: "Due_ID task = t_id t" "Due_Kind task = t_kind t" by blast
    then have "t \<in> set (scheduled_tasks w)" by (auto dest!: in_set_takeD due_rows_mem)
    then show "kind_agrees w1 task"
      using assms(2) task w1 by (auto simp: kind_agrees_def dest: distinct_key_unique [OF assms(2)])
  qed
qed

section \<open>Properties of the scheduler\<close>

text \<open>
  C8: One tick claims at most \<open>MaxPromptDispatch\<close> (default 20) prompt slots, whatever the table holds, however
  the connection fails and whatever the workers answer: the number of prompt runs that carry a claim token
  grows by at most that bound.
\<close>

theorem tick_prompt_bound:
  assumes "Scheduler_Store s = Some (repository_store r gen draw)"
    and "Scheduler_Dispatch s = Some (service_dispatch d pd ddraw)"
    and "distinct (map t_id (scheduled_tasks w))"
  shows "int (claimed_prompts (snd (Tick s now w))) \<le> int (claimed_prompts w) + default_to 20 (MaxPromptDispatch s)"
proof -
  let ?limit = "default_to 100 (ScanLimit s)"
  obtain v w1 where l: "ListDue r now ?limit w = (v, w1)" by fastforce
  have pos: "0 \<le> default_to 20 (MaxPromptDispatch s)" by (simp add: default_to_def)
  have tick: "Tick s now w = (case v of Inl e \<Rightarrow> (Inl (Wrapf ''list due schedule tasks'' e), w1)
      | Inr due \<Rightarrow> tick_loop (repository_store r gen draw) (service_dispatch d pd ddraw) now (default_to (minutes 1) (MisfireGrace s))
          (default_to (seconds 30) (ClaimLease s)) (default_to 20 (MaxPromptDispatch s)) 0 0 due w1)"
    using assms(1,2) l by (simp add: Tick_def and_then_def repository_store_def split: sum.split)
  show ?thesis
  proof (cases v)
    case (Inr due)
    have a: "\<forall>task \<in> set due. kind_agrees w1 task" "quiet w1 = quiet w"
      using ListDue_agrees [OF l [unfolded Inr] assms(3)] by blast+
    show ?thesis using metered.tick_loop_meter [OF a(1)] quiet_prompts [OF a(2)] pos unfolding tick Inr
      by (simp add: max_def) (smt (verit, best))
  next
    case (Inl e)
    have "preserves (\<lambda>w w'. claimed_prompts w' = claimed_prompts w) (ListDue r now ?limit)"
      by (auto simp: preserves_def ListDue_def and_then_def query_def exec_def fail_def ret_def claimed_prompts_def
          split: fault.splits sum.splits prod.splits)
    then have "claimed_prompts w1 = claimed_prompts w" using l by (auto simp: preserves_def dest: spec [of _ w])
    then show ?thesis using pos unfolding tick Inl by simp
  qed
qed

definition ex_scheduler :: Scheduler where
  "ex_scheduler = \<lparr>Scheduler_Store = Some (repository_store ex_repo None (\<lambda>n. \<lparr>drawn_run_id = ''run1'', drawn_token = ''tok1'',
       drawn_trace = ex_raw, drawn_now = 61000\<rparr>)),
     Scheduler_Dispatch = Some (service_dispatch ex_mux \<lparr>pd_Repository = None, pd_Accept = None\<rparr>
       (\<lambda>n. \<lparr>dd_message_id = ''m'', dd_now = 1, dd_now2 = 2, dd_slot_free = True\<rparr>)),
     ScanLimit = 0, MisfireGrace = 0, ClaimLease = 0, MaxPromptDispatch = 1\<rparr>"

theorem tick_prompt_bound_witness: "claimed_prompts (snd (Tick ex_scheduler 61000 ex_world)) \<le> 1"
proof -
  have s: "Scheduler_Store ex_scheduler = Some (repository_store ex_repo None (\<lambda>n. \<lparr>drawn_run_id = ''run1'', drawn_token = ''tok1'',
       drawn_trace = ex_raw, drawn_now = 61000\<rparr>))"
    "Scheduler_Dispatch ex_scheduler = Some (service_dispatch ex_mux \<lparr>pd_Repository = None, pd_Accept = None\<rparr>
       (\<lambda>n. \<lparr>dd_message_id = ''m'', dd_now = 1, dd_now2 = 2, dd_slot_free = True\<rparr>))"
    "MaxPromptDispatch ex_scheduler = 1" by (simp_all add: ex_scheduler_def)
  have "distinct (map t_id (scheduled_tasks ex_world))" by (simp add: ex_task_def)
  from tick_prompt_bound [OF s(1,2) this, of 61000] show ?thesis
    by (simp add: s(3) default_to_def claimed_prompts_def)
qed

text \<open>
  Delivery follows execution. Discarding a queued prompt sends nothing and creates no delivery. A result
  whose completion is refused (a lost claim, a lost connection) is not delivered either: the answer is the
  error of the completion, and neither the outbox nor the log of sent messages changed.
\<close>

lemma delivery_only_after_completion:
  "scheduled_task_deliveries (snd (DiscardScheduledRun l now runID token code w)) = scheduled_task_deliveries w
   \<and> feishu_log (snd (DiscardScheduledRun l now runID token code w)) = feishu_log w
   \<and> (case lc_Runs l of
        None \<Rightarrow> CompleteScheduledRunResult l now ids runID token succeeded code ms final thread turn w = (Inl ErrNoRunStore, w)
      | Some r \<Rightarrow> (case CompleteRun r now (result_completion runID token succeeded code ms thread turn) w of
          (Inl e, w') \<Rightarrow> CompleteScheduledRunResult l now ids runID token succeeded code ms final thread turn w = (Inl e, w')
            \<and> scheduled_task_deliveries w' = scheduled_task_deliveries w \<and> feishu_log w' = feishu_log w
        | (Inr u, w') \<Rightarrow> (lc_Delivery l = None \<or> finalised runID token w')))"
proof -
  have keeps: "preserves (\<lambda>w w'. scheduled_task_deliveries w' = scheduled_task_deliveries w \<and> feishu_log w' = feishu_log w) (CompleteRun r now c)" for r c
    by (auto simp: preserves_def CompleteRun_def and_then_def exec_def update_runs_def fail_def ret_def split: fault.splits sum.splits prod.splits)
  have fin: "finalised runID token w'" if "CompleteRun r now (result_completion runID token succeeded code ms thread turn) w = (Inr u, w')" for r u w'
  proof -
    let ?c = "result_completion runID token succeeded code ms thread turn"
    let ?p = "\<lambda>x. r_id x = runID \<and> r_claim_token x = Some token \<and> active_run x"
    from that obtain f where f: "w' = (pop_fault w)\<lparr>scheduled_task_runs := sql_update ?p f (scheduled_task_runs w)\<rparr>"
      "sql_affected ?p f (scheduled_task_runs w) = 1"
      "\<And>x. r_id (f x) = r_id x \<and> r_claim_token (f x) = r_claim_token x \<and> r_state (f x) = Done_State ?c"
      by (auto simp: CompleteRun_def op_Inr update_runs_def result_completion_def)
    have "0 < sql_affected ?p f (scheduled_task_runs w)" using f(2) by simp
    then obtain x where "x \<in> set (scheduled_task_runs w)" "?p x" using sql_affected_pos_ex by blast
    then have "f x \<in> set (sql_update ?p f (scheduled_task_runs w))" by (force simp: sql_update_def)
    then show ?thesis using f \<open>?p x\<close> unfolding finalised_def
      by (intro bexI [of _ "f x"]) (auto simp: result_completion_def)
  qed
  show ?thesis using preservesD [OF keeps] fin
    by (auto simp: DiscardScheduledRun_def CompleteScheduledRunResult_def fail_def and_then_def split: option.split sum.splits prod.splits)
       (metis snd_conv)+
qed

text \<open>
  Two answers end a tick before the rest of the scanned tasks is looked at: a claim conflict on the misfire
  path (which the two other paths pass over) and a prompt that the worker pool refuses.
\<close>

lemma misfire_conflict_aborts_tick:
  assumes "Due_ID task \<noteq> []" and "Due_Version task \<noteq> 0" and "\<not> is_zero_time (Due_NextRunAt task)" and "\<not> Due_RouteRevoked task"
    and "Due_NextRunAt task < now - grace" and "store_SkipMisfire st n task now w = (Inl ErrDueClaimConflict, w')"
  shows "tick_loop st dispatch now grace lease maxPrompts n pc (task # tasks) w
    = (Inl (Wrapf ''skip schedule misfire'' ErrDueClaimConflict), w')"
  using assms by (simp add: and_then_def)

lemma refused_prompt_fails_dispatch:
  assumes "pd_Repository d = Some r" and "pd_Accept d = Some accept" and "Run_Kind run = TaskPrompt" and "Run_Payload run \<noteq> []"
    and "LoadPromptRoute r run w = (Inr route, w1)" and "MarkRunQueued r (Run_ID run) (Run_ClaimToken run) w1 = (Inr (), w2)"
    and "accept (prompt_message msgID now run route) = Inl err"
  shows "fst (PromptDispatcher_Dispatch d msgID now now2 run w) = Inl (Wrapf ''enqueue scheduled prompt'' err)"
  using assms by (simp add: PromptDispatcher_Dispatch_def and_then_def attempt_def fail_def split: prod.splits)

end
