(* ===== verification/Schedule_System.thy ===== *)
theory Schedule_System
  imports Scheduler_Tick
begin

text \<open>
  The scheduled-task subsystem as a whole: a step is one call of any operation of the store, the tool ledger,
  the delivery dispatcher, the script executor, the worker-facing lifecycle or one tick of the scheduler, with
  any arguments and any connection faults, or a change of the environment (clock, faults, routes). The
  invariants of the tables hold along every sequence of steps.
\<close>

section \<open>What every operation keeps\<close>

definition sched_inv :: "world \<Rightarrow> bool" where
  "sched_inv w \<longleftrightarrow> runs_unique (scheduled_task_runs w) \<and> calls_unique (scheduled_task_tool_calls w) \<and> sends_ok w"

abbreviation sched_rel :: "world \<Rightarrow> world \<Rightarrow> bool" where
  "sched_rel w w' \<equiv> runs_rel w w' \<and> deliveries_rel w w' \<and> calls_rel w w' \<and> (sched_inv w \<longrightarrow> sched_inv w')"

interpretation sched: world_relation sched_rel
proof
  fix w w1 w2 w3 fs
  show "sched_rel w w" by (simp add: runs.evolves_refl deliveries.evolves_refl calls.evolves_refl)
  show "sched_rel w (w\<lparr>faults := fs\<rparr>)"
    by (simp add: runs.evolves_refl deliveries.evolves_refl calls.evolves_refl sched_inv_def sends_ok_def outbox_ok_def
        sends_def started_def)
  show "sched_rel w1 w3" if "sched_rel w1 w2" "sched_rel w2 w3"
    using that runs.evolves_trans deliveries.evolves_trans calls.evolves_trans by blast
qed

text \<open>Footprints: which tables a group of operations leaves alone.\<close>

abbreviation keeps_but_tasks :: "world \<Rightarrow> world \<Rightarrow> bool" where
  "keeps_but_tasks w w' \<equiv> scheduled_task_runs w' = scheduled_task_runs w \<and> scheduled_task_deliveries w' = scheduled_task_deliveries w
     \<and> scheduled_task_tool_calls w' = scheduled_task_tool_calls w \<and> feishu_log w' = feishu_log w"

abbreviation keeps_but_runs :: "world \<Rightarrow> world \<Rightarrow> bool" where
  "keeps_but_runs w w' \<equiv> scheduled_task_deliveries w' = scheduled_task_deliveries w
     \<and> scheduled_task_tool_calls w' = scheduled_task_tool_calls w \<and> feishu_log w' = feishu_log w"

abbreviation keeps_but_calls :: "world \<Rightarrow> world \<Rightarrow> bool" where
  "keeps_but_calls w w' \<equiv> scheduled_task_runs w' = scheduled_task_runs w \<and> scheduled_task_deliveries w' = scheduled_task_deliveries w
     \<and> feishu_log w' = feishu_log w"

abbreviation keeps_but_outbox :: "world \<Rightarrow> world \<Rightarrow> bool" where
  "keeps_but_outbox w w' \<equiv> scheduled_task_runs w' = scheduled_task_runs w
     \<and> scheduled_task_tool_calls w' = scheduled_task_tool_calls w"

interpretation but_tasks: world_relation keeps_but_tasks by unfold_locales auto
interpretation but_runs: world_relation keeps_but_runs by unfold_locales auto
interpretation but_calls: world_relation keeps_but_calls by unfold_locales auto
interpretation but_outbox: world_relation keeps_but_outbox by unfold_locales auto

lemma sched_of_tasks: "preserves keeps_but_tasks m \<Longrightarrow> preserves sched_rel m"
  by (fastforce simp: preserves_def runs.evolves_refl deliveries.evolves_refl calls.evolves_refl sched_inv_def sends_ok_def
      outbox_ok_def sends_def started_def)

lemma sched_of_runs:
  assumes "preserves runs_rel m" and "preserves slots_rel m" and "preserves keeps_but_runs m"
  shows "preserves sched_rel m"
proof (rule preservesI)
  fix w
  have k: "runs_rel w (snd (m w))" "slots_rel w (snd (m w))" "keeps_but_runs w (snd (m w))"
    using assms by (blast dest: preservesD)+
  have d: "deliveries_rel w (snd (m w))" "calls_rel w (snd (m w))"
    using k(3) by (simp_all add: deliveries.evolves_refl calls.evolves_refl)
  have "sends_ok (snd (m w))" if "sends_ok w"
    using that outbox_ok_runs [OF _ k(1)] k(3) d(1) by (intro sends_ok_quiet_step [OF that]) (auto simp: sends_ok_def)
  then show "sched_rel w (snd (m w))" using k d by (auto simp: sched_inv_def)
qed

lemma sched_of_calls:
  assumes "preserves calls_rel m" and "preserves ucalls_rel m" and "preserves keeps_but_calls m"
  shows "preserves sched_rel m"
proof (rule preservesI)
  fix w
  have k: "calls_rel w (snd (m w))" "ucalls_rel w (snd (m w))" "keeps_but_calls w (snd (m w))"
    using assms by (blast dest: preservesD)+
  then have "sends_ok (snd (m w)) \<longleftrightarrow> sends_ok w" by (simp add: sends_ok_def outbox_ok_def sends_def started_def)
  then show "sched_rel w (snd (m w))" using k by (auto simp: sched_inv_def runs.evolves_refl deliveries.evolves_refl)
qed

lemma sched_of_outbox:
  assumes "preserves deliveries_rel m" and "preserves keeps_but_outbox m" and "\<And>w. sends_ok w \<Longrightarrow> sends_ok (snd (m w))"
  shows "preserves sched_rel m"
proof (rule preservesI)
  fix w
  have "deliveries_rel w (snd (m w))" "keeps_but_outbox w (snd (m w))" using assms by (blast dest: preservesD)+
  then show "sched_rel w (snd (m w))" using assms(3) [of w] by (auto simp: sched_inv_def runs.evolves_refl calls.evolves_refl)
qed

section \<open>The operations\<close>

lemma keeps_task_stmts:
  "preserves keeps_but_tasks (exec (update_tasks p f))" "preserves keeps_but_tasks (exec (\<lambda>w. insert_task (g w) w))"
  "preserves keeps_but_calls (exec (update_tasks p f))" "preserves keeps_but_calls (exec (\<lambda>w. insert_task (g w) w))"
  "preserves keeps_but_calls (exec (insert_tool_call c))" "preserves keeps_but_calls (exec (update_tool_calls q h))"
  "preserves keeps_but_runs (exec (advance_task i v s n n'))" "preserves keeps_but_runs (exec (insert_run x))"
  by (rule but_tasks.preserves_exec but_calls.preserves_exec but_runs.preserves_exec,
      simp add: preserves_def update_tasks_def insert_task_def insert_tool_call_def update_tool_calls_def advance_task_def insert_run_def)+

lemma keeps_run_stmts:
  "preserves keeps_but_runs (exec (update_runs p f))" "preserves keeps_but_runs (exec (\<lambda>w. update_runs (p' w) (f' w) w))"
  by (rule but_runs.preserves_exec, simp add: preserves_def update_runs_def)+

lemma sched_task_ops:
  "preserves sched_rel (CreateTask r now draft)" "preserves sched_rel (UpdateTask r now patch)"
  unfolding CreateTask_def UpdateTask_def updateTaskTx_def createTaskExec_def updateStoredTask_def Let_def
  by (intro sched_of_tasks but_tasks.preserves_intros keeps_task_stmts)+

lemma keeps_run_ops:
  "preserves keeps_but_runs (ClaimDue r now i k gen raw c)" "preserves keeps_but_runs (SkipMisfire r i due now)"
  "preserves keeps_but_runs (FailRouteRevoked r i due now)" "preserves keeps_but_runs (MarkRunQueued r i k)"
  "preserves keeps_but_runs (MarkRunRunning r now i k l)" "preserves keeps_but_runs (CompleteRun r now cc)"
  "preserves keeps_but_runs (CompleteScriptRun r now cc md)" "preserves keeps_but_runs (ReconcileInterruptedRuns r now)"
  "preserves keeps_but_runs (Store_MarkScheduledRunning i k)" "preserves keeps_but_runs (Store_CompleteScheduledRun i k b code n)"
  "preserves keeps_but_runs (LoadPromptRoute r run)"
  unfolding ClaimDue_def claimDueTx_def SkipMisfire_def skipMisfireTx_def FailRouteRevoked_def failRouteRevokedTx_def MarkRunQueued_def
    MarkRunRunning_def CompleteRun_def CompleteScriptRun_def ReconcileInterruptedRuns_def Store_MarkScheduledRunning_def
    Store_CompleteScheduledRun_def LoadPromptRoute_def Let_def
  by (intro but_runs.preserves_intros keeps_task_stmts keeps_run_stmts)+

lemma sched_run_ops:
  "preserves sched_rel (ClaimDue r now i k gen raw c)" "preserves sched_rel (SkipMisfire r i due now)"
  "preserves sched_rel (FailRouteRevoked r i due now)" "preserves sched_rel (MarkRunQueued r i k)"
  "preserves sched_rel (MarkRunRunning r now i k l)" "preserves sched_rel (CompleteRun r now cc)"
  "preserves sched_rel (CompleteScriptRun r now cc md)" "preserves sched_rel (ReconcileInterruptedRuns r now)"
  "preserves sched_rel (Store_MarkScheduledRunning i k)" "preserves sched_rel (Store_CompleteScheduledRun i k b code n)"
  "preserves sched_rel (LoadPromptRoute r run)"
  by (rule sched_of_runs, (rule preserves_run_ops slots_run_ops keeps_run_ops)+)+

lemma keeps_call_ops:
  "preserves keeps_but_calls (CreateTaskForToolCall r now now2 i input draft e1)"
  "preserves keeps_but_calls (ListOwnedTasksForToolCall r now i input owner a n e2)"
  "preserves keeps_but_calls (UpdateTaskForToolCall r now now2 i input patch e3)"
  "preserves keeps_but_calls (ClaimToolCall r now i input)" "preserves keeps_but_calls (ReconcileExpiredToolCalls r now)"
  unfolding CreateTaskForToolCall_def ListOwnedTasksForToolCall_def UpdateTaskForToolCall_def ClaimToolCall_def ReconcileExpiredToolCalls_def
    createToolTx_def listToolTx_def updateToolTx_def claimToolCallTx_def completeToolCallTx_def checkCreateQuotaTx_def createTaskExec_def
    updateTaskTx_def updateStoredTask_def listOwnedTasksQuery_def Let_def
  by (intro but_calls.preserves_intros keeps_task_stmts)+

lemma sched_call_ops:
  "preserves sched_rel (CreateTaskForToolCall r now now2 i input draft e1)"
  "preserves sched_rel (ListOwnedTasksForToolCall r now i input owner a n e2)"
  "preserves sched_rel (UpdateTaskForToolCall r now now2 i input patch e3)"
  "preserves sched_rel (ClaimToolCall r now i input)" "preserves sched_rel (ReconcileExpiredToolCalls r now)"
  by (rule sched_of_calls, (rule calls_tool_ops calls_Reconcile ucalls_tool_ops ucalls_Reconcile keeps_call_ops)+)+

lemma keeps_outbox_ops:
  "preserves keeps_but_outbox (Deliver r d now i j runID p)" "preserves keeps_but_outbox (ReconcileInFlightDeliveries r now)"
proof -
  have stmts: "preserves keeps_but_outbox (exec (\<lambda>w. update_deliveries (q w) (f w) w))" "preserves keeps_but_outbox (exec (update_deliveries q' f'))"
    "preserves keeps_but_outbox (exec (insert_deliveries sel))" "preserves keeps_but_outbox (call_feishu c)" for q f q' f' sel c
    by (intro but_outbox.preserves_exec; simp add: preserves_def update_deliveries_def insert_deliveries_def)+
      (simp add: preserves_def call_feishu_def)
  show "preserves keeps_but_outbox (Deliver r d now i j runID p)" "preserves keeps_but_outbox (ReconcileInFlightDeliveries r now)"
    unfolding Deliver_def sendFallback_def CreateResultDelivery_def ClaimDelivery_def CompleteDelivery_def ReconcileInFlightDeliveries_def
      CreateFallbackAfterRejected_def loadDelivery_def LoadDeliveryRoute_def Let_def
    by (intro but_outbox.preserves_intros stmts)+
qed

lemma sched_outbox_ops:
  "preserves sched_rel (Deliver r d now i j runID p)" "preserves sched_rel (ReconcileInFlightDeliveries r now)"
proof -
  have "sends_ok w \<Longrightarrow> sends_ok (snd (Deliver r d now i j runID p w))" for w
    using Deliver_triple [of r d now i j runID p] by (simp add: triple_snd_iff)
  then show "preserves sched_rel (Deliver r d now i j runID p)"
    by (rule sched_of_outbox [OF deliveries_Deliver keeps_outbox_ops(1)])
  show "preserves sched_rel (ReconcileInFlightDeliveries r now)"
    by (rule sched_of_outbox [OF deliveries_Reconcile keeps_outbox_ops(2)])
      (rule sends_ok_op [OF outbox_Reconcile deliveries_Reconcile log_store_ops(5)])
qed

lemmas sched_ops = sched_task_ops sched_run_ops sched_call_ops sched_outbox_ops

section \<open>The composed operations\<close>

lemma sched_cases:
  "preserves sched_rel m \<Longrightarrow> (\<And>x. preserves sched_rel (k x)) \<Longrightarrow> preserves sched_rel (case v of Panicked \<Rightarrow> m | Returned x \<Rightarrow> k x)"
  "(\<And>e. preserves sched_rel (f e)) \<Longrightarrow> preserves sched_rel g \<Longrightarrow> (\<And>ws a. preserves sched_rel (h ws a))
     \<Longrightarrow> preserves sched_rel (case c of StartError e \<Rightarrow> f e | CommandPanics \<Rightarrow> g | Ran ws a \<Rightarrow> h ws a)"
  by (cases v; simp) (cases c; simp)

lemma sched_script: "preserves sched_rel (script_goroutine d now begun now2 run)"
  unfolding script_goroutine_def executeScript_def finishScript_def failScript_def FailBeforeExecution_def deliver_opt_def
    Executor_MarkRunRunning_def Executor_CompleteScriptRun_def Execute_def Let_def
  by (intro sched.preserves_intros sched_ops sched_cases)

interpretation sched_runs: run_relation sched_rel
  by unfold_locales (rule sched_ops)+

lemma sched_lifecycle:
  "preserves sched_rel (MarkScheduledRunning l now i k)" "preserves sched_rel (DiscardScheduledRun l now i k code)"
  "preserves sched_rel (CompleteScheduledRunResult l now ids i k ok code ms final thread turn)"
  unfolding MarkScheduledRunning_def DiscardScheduledRun_def CompleteScheduledRunResult_def
  by (intro sched.preserves_intros sched_ops)+

interpretation ticks: tick_relation sched_rel "repository_store r gen draw" "service_dispatch d pd ddraw"
  for r gen draw d pd ddraw
  by unfold_locales
    (simp_all only: repository_store_def DueStore.simps sched_ops sched_runs.service_keeps,
     auto simp: ListDue_def intro!: sched.preserves_intros)

section \<open>Steps\<close>

text \<open>Everything outside the subsystem: clock, faults, routes and other tables may change at any time.\<close>

definition environment :: "world \<Rightarrow> world \<Rightarrow> bool" where
  "environment w w' \<longleftrightarrow> scheduled_tasks w' = scheduled_tasks w \<and> keeps_but_tasks w w'"

inductive sched_step :: "world \<Rightarrow> world \<Rightarrow> bool" where
  env: "environment w w' \<Longrightarrow> sched_step w w'"
| create: "sched_step w (snd (CreateTask r now draft w))"
| update: "sched_step w (snd (UpdateTask r now patch w))"
| tool_create: "sched_step w (snd (CreateTaskForToolCall r now now2 newID input draft enc w))"
| tool_list: "sched_step w (snd (ListOwnedTasksForToolCall r now newID input owner after n enc' w))"
| tool_update: "sched_step w (snd (UpdateTaskForToolCall r now now2 newID input patch enc w))"
| tool_claim: "sched_step w (snd (ClaimToolCall r now newID input w))"
| tool_reconcile: "sched_step w (snd (ReconcileExpiredToolCalls r now w))"
| tick: "Scheduler_Store s = Some (repository_store r gen draw) \<Longrightarrow> Scheduler_Dispatch s = Some (service_dispatch d pd ddraw)
    \<Longrightarrow> sched_step w (snd (Tick s now w))"
| claim: "sched_step w (snd (ClaimDue r now runID token gen raw c w))"
| skip: "sched_step w (snd (SkipMisfire r runID due now w))"
| revoke: "sched_step w (snd (FailRouteRevoked r runID due now w))"
| script: "sched_step w (snd (script_goroutine mux now begun now2 run w))"
| mark_running: "sched_step w (snd (MarkScheduledRunning l now runID token w))"
| discard: "sched_step w (snd (DiscardScheduledRun l now runID token code w))"
| complete: "sched_step w (snd (CompleteScheduledRunResult l now ids runID token ok code ms final thread turn w))"
| store_mark: "sched_step w (snd (Store_MarkScheduledRunning runID token w))"
| store_complete: "sched_step w (snd (Store_CompleteScheduledRun runID token ok code ms w))"
| deliver: "sched_step w (snd (Deliver r dd now newID fallbackID runID p w))"
| reconcile_runs: "sched_step w (snd (ReconcileInterruptedRuns r now w))"
| reconcile_deliveries: "sched_step w (snd (ReconcileInFlightDeliveries r now w))"

lemma step_rel: "sched_step w w' \<Longrightarrow> sched_rel w w'"
proof (induction rule: sched_step.induct)
  case (env w w')
  then show ?case
    by (auto simp: environment_def runs.evolves_refl deliveries.evolves_refl calls.evolves_refl sched_inv_def sends_ok_def outbox_ok_def sends_def started_def)
qed (rule preservesD [OF ticks.tick_keeps] preservesD [OF sched_script] preservesD [OF sched_lifecycle(1)] preservesD [OF sched_lifecycle(2)]
  preservesD [OF sched_lifecycle(3)] sched_ops [THEN preservesD]; assumption?)+

lemmas steps_rel = sched.rel_rtranclp [OF step_rel]

lemma steps_inv: "sched_step\<^sup>*\<^sup>* w w' \<Longrightarrow> sched_inv w \<Longrightarrow> sched_inv w'"
  using steps_rel by blast

lemma sched_invD:
  assumes "sched_inv w"
  shows "distinct (map r_id (scheduled_task_runs w))"
    and "distinct (map (\<lambda>x. (r_task_id x, r_scheduled_for x)) (scheduled_task_runs w))"
    and "distinct (map (\<lambda>c. (c_app_id c, c_thread_id c, c_turn_id c, c_call_id c)) (scheduled_task_tool_calls w))"
    and "sends_ok w"
  using assms by (simp_all add: sched_inv_def runs_unique_def calls_unique_def)

lemma ex_world_inv: "sched_inv ex_world"
  by (simp add: sched_inv_def runs_unique_def calls_unique_def sends_ok_def outbox_ok_def sends_def)

section \<open>Properties of the subsystem\<close>

text \<open>
  C9: Execution truth is final. A run that has reached a terminal state is still in the table, unchanged in
  every column, after any sequence of steps: no late worker, delivery, restart or tick rewrites it.
\<close>

theorem terminal_run_final:
  assumes "sched_step\<^sup>*\<^sup>* w w'" and "x \<in> set (scheduled_task_runs w)" and "terminal (r_state x)"
  shows "x \<in> set (scheduled_task_runs w')"
  using runs.final_survives [of sched_step w w' x] step_rel assms by blast

definition ex_ended :: run_row where
  "ex_ended = new_run ''run0'' None ''t1'' 0 (ex_task ''t1'') RunFailed"

theorem terminal_run_final_witness:
  "ex_ended \<in> set (scheduled_task_runs (snd (ReconcileInterruptedRuns ex_repo 5 (ex_world\<lparr>scheduled_task_runs := [ex_ended]\<rparr>))))"
  using terminal_run_final [of "ex_world\<lparr>scheduled_task_runs := [ex_ended]\<rparr>"
      "snd (ReconcileInterruptedRuns ex_repo 5 (ex_world\<lparr>scheduled_task_runs := [ex_ended]\<rparr>))" ex_ended]
    sched_step.reconcile_runs by (auto simp: ex_ended_def new_run_def)

text \<open>
  C10: A slot is consumed at most once. After any sequence of steps from a state with unique keys there is at
  most one run per task and scheduled time, and no run has been lost or had its snapshot (task, slot, version,
  kind, silence, payload, trace) changed.
\<close>

theorem slot_consumed_once:
  assumes "sched_inv w" and "sched_step\<^sup>*\<^sup>* w w'"
  shows "(\<forall>x \<in> set (scheduled_task_runs w'). \<forall>y \<in> set (scheduled_task_runs w').
      r_task_id x = r_task_id y \<and> r_scheduled_for x = r_scheduled_for y \<longrightarrow> x = y)
    \<and> (\<forall>x \<in> set (scheduled_task_runs w). \<exists>y \<in> set (scheduled_task_runs w'). run_snapshot y = run_snapshot x)"
proof (intro conjI ballI impI)
  fix x y assume xy: "x \<in> set (scheduled_task_runs w')" "y \<in> set (scheduled_task_runs w')"
    "r_task_id x = r_task_id y \<and> r_scheduled_for x = r_scheduled_for y"
  show "x = y"
    using distinct_key_unique [OF sched_invD(2) [OF steps_inv [OF assms(2,1)]] xy(1,2)] xy(3) by simp
next
  fix x assume "x \<in> set (scheduled_task_runs w)"
  then obtain y where "y \<in> set (scheduled_task_runs w')" "run_moves x y"
    using runs.row_moves [of sched_step w w' x] step_rel assms(2) by blast
  then show "\<exists>y \<in> set (scheduled_task_runs w'). run_snapshot y = run_snapshot x" by (auto simp: run_moves_def)
qed

theorem slot_consumed_once_witness:
  "\<not> (\<exists>x \<in> set (scheduled_task_runs (snd (ClaimDue ex_repo 61000 ''run1'' ''tok1'' None ex_raw ex_claim ex_world))).
   \<exists>y \<in> set (scheduled_task_runs (snd (ClaimDue ex_repo 61000 ''run1'' ''tok1'' None ex_raw ex_claim ex_world))).
     r_task_id x = r_task_id y \<and> r_scheduled_for x = r_scheduled_for y \<and> x \<noteq> y)"
  using slot_consumed_once [OF ex_world_inv r_into_rtranclp [of sched_step, OF sched_step.claim]] by blast

text \<open>
  C11: Results are announced at most once. After any sequence of steps at most one result card and at most
  one fallback text were sent for a run (also across restarts and repeated deliveries), nothing was sent for
  a silent run, and a fallback was sent only where the platform had rejected the card.
\<close>

theorem announced_at_most_once:
  assumes "sched_inv w" and "sched_step\<^sup>*\<^sup>* w w'"
  shows "sends runID kind w' \<le> 1
    \<and> (\<forall>x \<in> set (scheduled_task_runs w'). r_silent x \<longrightarrow> sends (r_id x) kind w' = 0)
    \<and> (0 < sends runID DeliveryFallbackText w' \<longrightarrow> (\<exists>c \<in> set (scheduled_task_deliveries w').
         d_run_id c = runID \<and> d_kind c = DeliveryResultCard \<and> d_outcome c = Some DeliveryRejected))"
proof (intro conjI ballI impI)
  have inv: "sched_inv w'" using steps_inv assms by blast
  show "sends runID kind w' \<le> 1" using sends_okD [OF sched_invD(4) [OF inv], of runID kind] by (simp split: if_splits)
  show "sends (r_id x) kind w' = 0" if "x \<in> set (scheduled_task_runs w')" "r_silent x" for x
    by (rule silent_no_send [OF sched_invD(4,1) [OF inv] that])
  show "\<exists>c \<in> set (scheduled_task_deliveries w').
         d_run_id c = runID \<and> d_kind c = DeliveryResultCard \<and> d_outcome c = Some DeliveryRejected"
    if "0 < sends runID DeliveryFallbackText w'"
    by (rule fallback_after_rejected [OF sched_invD(4) [OF inv] that])
qed

theorem announced_at_most_once_witness:
  "sends ''run1'' DeliveryResultCard (snd (Tick ex_scheduler 61000 ex_world)) \<le> 1"
proof -
  have "sched_step ex_world (snd (Tick ex_scheduler 61000 ex_world))"
    by (rule sched_step.tick) (simp_all add: ex_scheduler_def)
  then show ?thesis using announced_at_most_once [OF ex_world_inv r_into_rtranclp] by blast
qed

text \<open>
  C12: A finished tool call keeps its answer. Whatever happened in between, a repetition of a finished call is
  answered from the ledger: with the same arguments by the recorded answer, with other arguments by
  \<open>ErrToolCallConflict\<close>, and it changes nothing, be it a create, list or update.
\<close>

theorem tool_answer_stable:
  assumes "sched_inv w" and "sched_step\<^sup>*\<^sup>* w w'" and "c \<in> set (scheduled_task_tool_calls w)" and "call_final c"
    and "same_call (Input_Identity input) c" and "faults w' = []" and "has_DB r" and "identity_valid (Input_Identity input)"
    and "trim_space (Input_ArgumentsHMAC input) \<noteq> []" and "trim_space (Input_ID (fill_input newID input)) \<noteq> []"
  shows "CreateTaskForToolCall r now now2 newID input draft (Some e1) w' = (repeat_answer input c, w')
    \<and> ListOwnedTasksForToolCall r now newID input owner after n (Some e2) w' = (repeat_answer input c, w')
    \<and> UpdateTaskForToolCall r now now2 newID input patch (Some e1) w' = (repeat_answer input c, w')"
proof -
  have mem: "c \<in> set (scheduled_task_tool_calls w')"
    using calls.final_survives [of sched_step w w' c] step_rel assms(2-4) by blast
  have d: "distinct (map (\<lambda>c. (c_app_id c, c_thread_id c, c_turn_id c, c_call_id c)) (scheduled_task_tool_calls w'))"
    by (rule sched_invD(3) [OF steps_inv [OF assms(2,1)]])
  have "sql_first (same_call (Input_Identity input)) (scheduled_task_tool_calls w') = Some c"
    by (rule sql_first_key [where p = "same_call (Input_Identity input)", OF d mem assms(5)])
      (use assms(5) in \<open>simp add: same_call_def\<close>)
  note answers = tool_repeat [OF assms(6) this assms(7-10)]
  show ?thesis by (intro conjI answers)
qed

definition ex_done_world :: world where
  "ex_done_world = ex_world\<lparr>scheduled_task_tool_calls := [done_call_row ex_input 5 ''answer'']\<rparr>"

theorem tool_answer_stable_witness:
  "CreateTaskForToolCall ex_repo 7 8 [] ex_input ex_draft (Some (\<lambda>t. Inr [])) ex_done_world
     = (Inr \<lparr>Exec_Payload = ''answer'', Exec_Success = True, Exec_ErrorCode = [], Exec_Replay = True\<rparr>, ex_done_world)"
proof -
  let ?c = "done_call_row ex_input 5 ''answer''"
  have "sched_inv ex_done_world"
    by (simp add: ex_done_world_def sched_inv_def runs_unique_def calls_unique_def sends_ok_def outbox_ok_def sends_def)
  moreover have "call_final ?c" "same_call (Input_Identity ex_input) ?c"
    "repeat_answer ex_input ?c = Inr \<lparr>Exec_Payload = ''answer'', Exec_Success = True, Exec_ErrorCode = [], Exec_Replay = True\<rparr>"
    by (simp_all add: done_call_row_def claim_call_row_def call_final_def same_call_def repeat_answer_def replay_of_def text_of_def)
  ultimately show ?thesis
    using tool_answer_stable [of ex_done_world ex_done_world ?c ex_input ex_repo "[]" 7 8 ex_draft "\<lambda>t. Inr []"]
    by (simp add: identity_valid_def trim_eval fill_input_def) (simp add: ex_done_world_def)
qed

text \<open>
  Restart leaves nothing in doubt. The two startup reconciliations, with a working connection, succeed and
  leave no run in an active state and no delivery in flight; they turn exactly those into unknown outcomes.
\<close>

lemma restart_reconciles:
  assumes "faults w = []" and "has_DB r" and "\<not> is_zero_time now"
  shows "(\<exists>n. fst (ReconcileInterruptedRuns r now w) = Inr n)
    \<and> (\<forall>x \<in> set (scheduled_task_runs (snd (ReconcileInterruptedRuns r now w))). terminal (r_state x))
    \<and> (\<exists>n. fst (ReconcileInFlightDeliveries r now w) = Inr n)
    \<and> (\<forall>d \<in> set (scheduled_task_deliveries (snd (ReconcileInFlightDeliveries r now w))). \<not> (d_stage d = Some DeliveryInFlight \<and> d_outcome d = None))"
  using assms by (auto simp: ReconcileInterruptedRuns_def ReconcileInFlightDeliveries_def op_defs update_runs_def update_deliveries_def
      sql_update_def active_run_iff)

lemma restart_reconciles_witness:
  "\<not> (\<exists>x \<in> set (scheduled_task_runs (snd (ReconcileInterruptedRuns ex_repo 5
     (ex_world\<lparr>scheduled_task_runs := [ex_ended\<lparr>r_state := RunRunning\<rparr>]\<rparr>)))). \<not> terminal (r_state x))"
  using restart_reconciles [of "ex_world\<lparr>scheduled_task_runs := [ex_ended\<lparr>r_state := RunRunning\<rparr>]\<rparr>" ex_repo 5]
  by (simp add: is_zero_time_def zero_time_def)

end
