(* ===== verification/Message_Store.thy ===== *)
theory Message_Store
  imports Bot_World
begin

text \<open>
  Ingress and message lifecycle (\<open>internal/storage/messages.go\<close>): chat groups, deduplicated ingress with
  staged attachments, and the batch transitions the workers drive. A batch transition is one transaction
  over all its messages. The answers of commands use the two unconditional updates at the end.
\<close>

section \<open>Data\<close>

record AttachmentInput =
  In_ID :: string
  In_Kind :: string
  In_SourceResourceRefEnc :: string
  In_SourceRefKeyVersion :: int
  In_SourceMessageID :: string
  In_OriginalNameSafe :: string
  In_DeclaredMIME :: string

record MessageInput =
  MI_ID :: string
  MI_TraceID :: string
  MI_ChatGroupID :: string
  MI_FeishuEventID :: string
  MI_FeishuUserMessageID :: string
  MI_SenderOpenID :: string
  MI_UserContent :: string
  MI_ReceivedAt :: go_time
  MI_CommandKind :: string
  MI_CommandPayloadSHA256 :: string
  MI_CommandPayloadBytes :: int
  MI_Attachments :: "AttachmentInput list"

record MessageRecord =
  MR_ID :: string
  MR_TraceID :: string
  MR_ChatGroupID :: string

definition no_record :: MessageRecord where
  "no_record = \<lparr>MR_ID = [], MR_TraceID = [], MR_ChatGroupID = []\<rparr>"

record CompanionDeliverySummary =
  CD_BatchID :: string
  CD_FirstMessageID :: string
  CD_Content :: string
  CD_ErrorCode :: string
  CD_DurationMS :: int

section \<open>Statements\<close>

definition same_chat :: "string \<Rightarrow> string \<Rightarrow> string \<Rightarrow> chat_group_row \<Rightarrow> bool" where
  "same_chat appID chatType chatID g \<longleftrightarrow> g_app_id g = appID \<and> g_chat_type g = chatType \<and> g_chat_id g = chatID"

definition new_group :: "string \<Rightarrow> string \<Rightarrow> string \<Rightarrow> string \<Rightarrow> chat_group_row" where
  "new_group groupID appID chatType chatID = \<lparr>g_id = groupID, g_app_id = appID, g_chat_type = chatType, g_chat_id = chatID,
     g_thread_id = None, g_toolset_version = None, g_catalog_version = ''s05-feishu-v2'', g_upgrade_state = Stable, g_upgrade_from = None,
     g_upgrade_target = None, g_schedule_enabled = True, g_last_message_at = None\<rparr>"

text \<open>\<open>INSERT INTO chat_groups \<dots> ON DUPLICATE KEY UPDATE last_message_at\<close>; \<open>groupID\<close> is the server's UUID.\<close>

definition upsert_group :: "string \<Rightarrow> string \<Rightarrow> string \<Rightarrow> string \<Rightarrow> unit op" where
  "upsert_group groupID appID chatType chatID w =
     (if list_ex (\<lambda>g. g_id g = groupID \<or> same_chat appID chatType chatID g) (chat_groups w)
      then (Inr (), w\<lparr>chat_groups := sql_update (\<lambda>g. g_id g = groupID \<or> same_chat appID chatType chatID g)
          (\<lambda>g. g\<lparr>g_last_message_at := Some (clock w)\<rparr>) (chat_groups w)\<rparr>)
      else if \<not> list_ex (\<lambda>a. a_id a = appID) (apps w) then (Inl ErrForeignKey, w)
      else (Inr (), w\<lparr>chat_groups := chat_groups w @ [new_group groupID appID chatType chatID]\<rparr>))"

definition message_clash :: "message_row \<Rightarrow> message_row \<Rightarrow> bool" where
  "message_clash a b \<longleftrightarrow> m_id a = m_id b \<or> m_trace_id a = m_trace_id b
     \<or> (m_chat_group_id a = m_chat_group_id b \<and> m_event_id a = m_event_id b)
     \<or> (m_chat_group_id a = m_chat_group_id b \<and> m_user_message_id a = m_user_message_id b)"

definition insert_message :: "message_row \<Rightarrow> unit op" where
  "insert_message m w =
     (if sql_conflict message_clash m (messages w) then (Inl ErrDuplicateKey, w)
      else if \<not> list_ex (\<lambda>g. g_id g = m_chat_group_id m) (chat_groups w) then (Inl ErrForeignKey, w)
      else (Inr (), w\<lparr>messages := messages w @ [m]\<rparr>))"

definition update_messages :: "(message_row \<Rightarrow> bool) \<Rightarrow> (message_row \<Rightarrow> message_row) \<Rightarrow> nat op" where
  "update_messages p f w = (Inr (sql_affected p f (messages w)), w\<lparr>messages := sql_update p f (messages w)\<rparr>)"

definition insert_attachment :: "attachment_row \<Rightarrow> unit op" where
  "insert_attachment a w =
     (if sql_conflict (\<lambda>x y. f_id x = f_id y) a (attachments w) then (Inl ErrDuplicateKey, w)
      else if \<not> list_ex (\<lambda>m. m_id m = f_message_id a) (messages w)
        \<or> \<not> list_ex (\<lambda>g. g_id g = f_chat_group_id a) (chat_groups w) then (Inl ErrForeignKey, w)
      else (Inr (), w\<lparr>attachments := attachments w @ [a]\<rparr>))"

definition update_groups :: "(chat_group_row \<Rightarrow> bool) \<Rightarrow> (chat_group_row \<Rightarrow> chat_group_row) \<Rightarrow> nat op" where
  "update_groups p f w = (Inr (sql_affected p f (chat_groups w)), w\<lparr>chat_groups := sql_update p f (chat_groups w)\<rparr>)"

section \<open>Chat groups\<close>

definition GetOrCreateChatGroup :: "string \<Rightarrow> string \<Rightarrow> string \<Rightarrow> string \<Rightarrow> string op" where
  "GetOrCreateChatGroup groupID appID chatType chatID =
     and_then (exec (upsert_group groupID appID chatType chatID)) (Wrapf ''upsert chat group'') (\<lambda>_.
       and_then (query (\<lambda>w. sql_first (same_chat appID chatType chatID) (chat_groups w))) (Wrapf ''select chat group'')
         (\<lambda>found. case found of None \<Rightarrow> fail (Wrapf ''select chat group'' ErrNoRows) | Some g \<Rightarrow> ret (g_id g)))"

definition GetChatGroupThread :: "string \<Rightarrow> string op" where
  "GetChatGroupThread groupID =
     and_then (query (\<lambda>w. sql_first (\<lambda>g. g_id g = groupID) (chat_groups w))) (Wrapf ''get chat group thread'')
       (\<lambda>found. case found of None \<Rightarrow> fail (Wrapf ''get chat group thread'' ErrNoRows)
          | Some g \<Rightarrow> ret (case g_thread_id g of None \<Rightarrow> [] | Some t \<Rightarrow> t))"

definition GetChatGroupToolset :: "string \<Rightarrow> string op" where
  "GetChatGroupToolset groupID =
     and_then (query (\<lambda>w. sql_first (\<lambda>g. g_id g = groupID) (chat_groups w))) (Wrapf ''get chat group toolset'')
       (\<lambda>found. case found of None \<Rightarrow> fail (Wrapf ''get chat group toolset'' ErrNoRows)
          | Some g \<Rightarrow> ret (case g_toolset_version g of None \<Rightarrow> [] | Some v \<Rightarrow> v))"

definition SetChatGroupToolset :: "string \<Rightarrow> string \<Rightarrow> unit op" where
  "SetChatGroupToolset groupID version =
     and_then (exec (update_groups (\<lambda>g. g_id g = groupID) (\<lambda>g. g\<lparr>g_toolset_version := nullable version\<rparr>)))
       (Wrapf ''set chat group toolset'') (\<lambda>_. ret ())"

text \<open>
  A compare-and-set on the thread of a group. The statement also sets \<open>updated_at\<close>, so a row that matches
  counts as changed.
\<close>

definition set_threads :: "string \<Rightarrow> string \<Rightarrow> string \<Rightarrow> nat op" where
  "set_threads groupID expected replacement w =
     (Inr (length (filter (\<lambda>g. g_id g = groupID \<and> g_thread_id g = nullable expected) (chat_groups w))),
      w\<lparr>chat_groups := sql_update (\<lambda>g. g_id g = groupID \<and> g_thread_id g = nullable expected)
        (\<lambda>g. g\<lparr>g_thread_id := nullable replacement\<rparr>) (chat_groups w)\<rparr>)"

definition SetThreadIfExpected :: "string \<Rightarrow> string \<Rightarrow> string \<Rightarrow> bool op" where
  "SetThreadIfExpected groupID expected replacement =
     and_then (exec (set_threads groupID expected replacement)) (Wrapf ''set chat group thread'') (\<lambda>changed. ret (changed = 1))"

section \<open>Ingress\<close>

definition incoming_row :: "string \<Rightarrow> go_time \<Rightarrow> MessageInput \<Rightarrow> message_row" where
  "incoming_row groupID now input = \<lparr>m_id = MI_ID input, m_trace_id = MI_TraceID input, m_chat_group_id = groupID,
     m_event_id = MI_FeishuEventID input, m_user_message_id = MI_FeishuUserMessageID input, m_bot_message_id = None,
     m_sender_open_id = MI_SenderOpenID input, m_user_content = MI_UserContent input,
     m_received_at = (if is_zero_time (MI_ReceivedAt input) then now else MI_ReceivedAt input),
     m_command_kind = nullable (MI_CommandKind input), m_command_sha256 = nullable (MI_CommandPayloadSHA256 input),
     m_command_bytes = (if MI_CommandPayloadBytes input > 0 then Some (nat (MI_CommandPayloadBytes input)) else None),
     m_effect_state = (if MI_CommandKind input \<noteq> [] then Some ''pending'' else None),
     m_reply_outcome = (if MI_CommandKind input \<noteq> [] then Some ''pending'' else None),
     m_assistant_content = None, m_status = MsgReceived, m_error_code = None, m_batch_id = None,
     m_delivery_started = False, m_duration_ms = None, m_completed_at = None\<rparr>"

definition staged_row :: "string \<Rightarrow> string \<Rightarrow> AttachmentInput \<Rightarrow> attachment_row" where
  "staged_row messageID groupID a = \<lparr>f_id = In_ID a, f_message_id = messageID, f_chat_group_id = groupID, f_kind = In_Kind a,
     f_source_ref = Some (In_SourceResourceRefEnc a), f_source_key_version = Some (In_SourceRefKeyVersion a),
     f_source_message_id = In_SourceMessageID a, f_original_name = In_OriginalNameSafe a, f_declared_mime = In_DeclaredMIME a,
     f_observed_mime = None, f_byte_size = None, f_sha256 = None, f_session_id = None, f_relative_path = None,
     f_state = AttStaged, f_error_code = None, f_attempt_id = None, f_lease_until = None, f_retention_deadline = None,
     f_deleted_at = None\<rparr>"

text \<open>
  The body of the ingress transaction. A duplicate message ends it with the bare duplicate-key error: the
  caller answers "duplicate" and the deferred rollback undoes the group's insert.
\<close>

definition persistTx :: "string \<Rightarrow> go_time \<Rightarrow> string \<Rightarrow> string \<Rightarrow> string \<Rightarrow> MessageInput \<Rightarrow> ((go_error \<Rightarrow> go_error) \<times> MessageRecord) op" where
  "persistTx groupID now appID chatType chatID input =
     and_then (exec (upsert_group groupID appID chatType chatID)) id (\<lambda>_.
       and_then (query (\<lambda>w. sql_first (same_chat appID chatType chatID) (chat_groups w))) id (\<lambda>found.
         case found of None \<Rightarrow> fail ErrNoRows | Some g \<Rightarrow>
           and_then (exec (insert_message (incoming_row (g_id g) now input))) id (\<lambda>_.
             and_then (for_each (\<lambda>a. and_then (exec (insert_attachment (staged_row (MI_ID input) (g_id g) a))) (Wrapf ''stage attachment'') ret)
                 (MI_Attachments input)) id (\<lambda>_.
               ret (id, \<lparr>MR_ID = MI_ID input, MR_TraceID = MI_TraceID input, MR_ChatGroupID = g_id g\<rparr>)))))"

definition PersistIncoming :: "string \<Rightarrow> go_time \<Rightarrow> string \<Rightarrow> string \<Rightarrow> string \<Rightarrow> MessageInput \<Rightarrow> (MessageRecord \<times> bool) op" where
  "PersistIncoming groupID now appID chatType chatID input =
     attempt (transaction id (persistTx groupID now appID chatType chatID input)) (\<lambda>answer. case answer of
         Inr record \<Rightarrow> ret (record, False)
       | Inl err \<Rightarrow> if err = ErrDuplicateKey then ret (no_record, True) else fail err)"

definition CreateMessage :: "go_time \<Rightarrow> MessageInput \<Rightarrow> (MessageRecord \<times> bool) op" where
  "CreateMessage stamp input =
     attempt (exec (insert_message ((incoming_row (MI_ChatGroupID input) stamp
         (input\<lparr>MI_ReceivedAt := stamp, MI_CommandKind := [], MI_CommandPayloadSHA256 := [], MI_CommandPayloadBytes := 0\<rparr>)))))
       (\<lambda>answer. case answer of
         Inr _ \<Rightarrow> ret (\<lparr>MR_ID = MI_ID input, MR_TraceID = MI_TraceID input, MR_ChatGroupID = []\<rparr>, False)
       | Inl err \<Rightarrow> if err = ErrDuplicateKey then ret (no_record, True) else fail (Wrapf ''insert message'' err))"

section \<open>Transitions of a batch\<close>

text \<open>One guarded update of each message in turn.\<close>

definition move_one :: "string \<Rightarrow> (message_row \<Rightarrow> bool) \<Rightarrow> (go_time \<Rightarrow> message_row \<Rightarrow> message_row) \<Rightarrow> string \<Rightarrow> unit op" where
  "move_one what p f i =
     and_then (exec (\<lambda>w. update_messages (\<lambda>m. m_id m = i \<and> p m) (f (clock w)) w)) (Wrapf what)
       (\<lambda>changed. if changed \<noteq> 1 then fail (Errorf (what @ '': invalid state'')) else ret ())"

definition MarkMessagesProcessing :: "string list \<Rightarrow> unit op" where
  "MarkMessagesProcessing ids =
     for_each (move_one ''mark message processing'' (\<lambda>m. m_status m = MsgReceived) (\<lambda>_ m. m\<lparr>m_status := MsgProcessing\<rparr>)) ids"

definition batch_tx :: "string \<Rightarrow> string \<Rightarrow> string \<Rightarrow> (message_row \<Rightarrow> bool) \<Rightarrow> (go_time \<Rightarrow> message_row \<Rightarrow> message_row) \<Rightarrow> string list \<Rightarrow> unit op" where
  "batch_tx begin_text what commit_text p f ids = transaction (Wrapf begin_text)
     (and_then (for_each (move_one what p f) ids) id (\<lambda>_. ret (Wrapf commit_text, ())))"

definition complete_row :: "string \<Rightarrow> string \<Rightarrow> int \<Rightarrow> go_time \<Rightarrow> message_row \<Rightarrow> message_row" where
  "complete_row cardID content ms now m = m\<lparr>m_status := MsgSucceeded, m_bot_message_id := Some cardID,
     m_assistant_content := Some content, m_duration_ms := Some ms, m_completed_at := Some now\<rparr>"

definition CompleteBatch :: "string list \<Rightarrow> string \<Rightarrow> string \<Rightarrow> int \<Rightarrow> unit op" where
  "CompleteBatch ids cardID content durationMS =
     (if ids = [] then fail (Errorf ''complete batch: ids are required'')
      else batch_tx ''begin complete batch'' ''complete batch message'' ''commit complete batch''
        (\<lambda>m. m_status m = MsgProcessing) (complete_row cardID content durationMS) ids)"

definition start_row :: "string \<Rightarrow> go_time \<Rightarrow> message_row \<Rightarrow> message_row" where
  "start_row batchID now m = m\<lparr>m_batch_id := Some batchID, m_delivery_started := True\<rparr>"

definition MarkCompanionDeliveryStarted :: "string list \<Rightarrow> string \<Rightarrow> unit op" where
  "MarkCompanionDeliveryStarted ids batchID =
     (if ids = [] \<or> batchID = [] then fail (Errorf ''mark companion delivery started: ids and batch id are required'')
      else batch_tx ''begin companion delivery marker'' ''mark companion delivery message'' ''commit companion delivery marker''
        (\<lambda>m. m_status m = MsgProcessing \<and> m_batch_id m = None \<and> \<not> m_delivery_started m) (start_row batchID) ids)"

definition in_delivery :: "string \<Rightarrow> message_row \<Rightarrow> bool" where
  "in_delivery batchID m \<longleftrightarrow> m_batch_id m = Some batchID \<and> m_status m = MsgProcessing \<and> m_delivery_started m"

definition companion_failed :: "string \<Rightarrow> string \<Rightarrow> int \<Rightarrow> go_time \<Rightarrow> message_row \<Rightarrow> message_row" where
  "companion_failed code safeContent ms now m = m\<lparr>m_status := MsgFailed, m_error_code := Some code,
     m_assistant_content := Some safeContent, m_duration_ms := Some ms, m_completed_at := Some now, m_delivery_started := False\<rparr>"

definition FailCompanionDelivery :: "string list \<Rightarrow> string \<Rightarrow> string \<Rightarrow> string \<Rightarrow> int \<Rightarrow> unit op" where
  "FailCompanionDelivery ids batchID code safeContent durationMS =
     (if ids = [] \<or> batchID = [] \<or> code = [] then fail (Errorf ''fail companion delivery: ids, batch id, and code are required'')
      else batch_tx ''begin companion delivery failure'' ''fail companion delivery message'' ''commit companion delivery failure''
        (in_delivery batchID) (companion_failed code safeContent durationMS) ids)"

definition companion_done :: "CompanionDeliverySummary \<Rightarrow> go_time \<Rightarrow> message_row \<Rightarrow> message_row" where
  "companion_done s now m = m\<lparr>m_status := MsgSucceeded, m_bot_message_id := Some (CD_FirstMessageID s),
     m_assistant_content := Some (CD_Content s), m_duration_ms := Some (CD_DurationMS s), m_error_code := nullable (CD_ErrorCode s),
     m_completed_at := Some now, m_delivery_started := False\<rparr>"

definition CompleteCompanionDelivery :: "string list \<Rightarrow> CompanionDeliverySummary \<Rightarrow> unit op" where
  "CompleteCompanionDelivery ids summary =
     (if ids = [] \<or> CD_BatchID summary = [] then fail (Errorf ''complete companion delivery: ids and batch id are required'')
      else batch_tx ''begin companion delivery completion'' ''complete companion delivery message''
        ''commit companion delivery completion'' (in_delivery (CD_BatchID summary)) (companion_done summary) ids)"

definition failed_batch_text :: string where
  "failed_batch_text = utf8 [26412, 25209, 22788, 29702, 22833, 36133, 65292, 35831, 37325, 26032, 21457, 36865, 12290]"

definition failed_row :: "string \<Rightarrow> int \<Rightarrow> go_time \<Rightarrow> message_row \<Rightarrow> message_row" where
  "failed_row code ms now m = m\<lparr>m_status := MsgFailed, m_error_code := Some code, m_assistant_content := Some failed_batch_text,
     m_duration_ms := Some ms, m_completed_at := Some now\<rparr>"

definition FailBatch :: "string list \<Rightarrow> string \<Rightarrow> int \<Rightarrow> unit op" where
  "FailBatch ids code durationMS =
     (if ids = [] then fail (Errorf ''fail batch: ids are required'')
      else batch_tx ''begin fail batch'' ''fail batch message'' ''commit fail batch''
        (\<lambda>m. m_status m = MsgReceived \<or> m_status m = MsgProcessing) (failed_row code durationMS) ids)"

section \<open>Restart\<close>

definition abandoned_text :: string where
  "abandoned_text = utf8 [26412, 25209, 22788, 29702, 22312, 21457, 36865, 36807, 31243, 20013, 20013, 26029, 65292, 35831, 37325, 26032, 21457, 36865, 12290]"

definition abandoned_row :: "go_time \<Rightarrow> message_row \<Rightarrow> message_row" where
  "abandoned_row now m = m\<lparr>m_status := MsgFailed, m_error_code := Some ''companion_delivery_abandoned'',
     m_assistant_content := Some abandoned_text, m_completed_at := Some now, m_delivery_started := False\<rparr>"

definition abandoned_batches :: "world \<Rightarrow> string list" where
  "abandoned_batches w = remdups (List.map_filter m_batch_id (filter (\<lambda>m. m_status m = MsgProcessing \<and> m_delivery_started m) (messages w)))"

definition abandonTx :: "string \<Rightarrow> unit op" where
  "abandonTx batchID = transaction (Wrapf ''begin abandoned companion delivery reconciliation'')
     (and_then (exec (\<lambda>w. update_messages (in_delivery batchID) (abandoned_row (clock w)) w)) (Wrapf ''reconcile abandoned companion delivery'')
       (\<lambda>changed. if changed = 0 then fail (Errorf ''reconcile abandoned companion delivery: invalid state'')
         else ret (Wrapf ''commit abandoned companion delivery reconciliation'', ())))"

definition ReconcileAbandonedCompanionDeliveries :: "nat op" where
  "ReconcileAbandonedCompanionDeliveries =
     and_then (query abandoned_batches) (Wrapf ''query abandoned companion deliveries'') (\<lambda>batchIDs.
       and_then (for_each abandonTx batchIDs) id (\<lambda>_. ret (length batchIDs)))"

section \<open>Answers of commands\<close>

definition CompleteMessage :: "string \<Rightarrow> string \<Rightarrow> string \<Rightarrow> int \<Rightarrow> unit op" where
  "CompleteMessage i botMessageID content durationMS =
     and_then (exec (\<lambda>w. update_messages (\<lambda>m. m_id m = i)
         (\<lambda>m. m\<lparr>m_status := MsgSucceeded, m_bot_message_id := Some botMessageID, m_assistant_content := Some content,
            m_duration_ms := Some durationMS, m_completed_at := Some (clock w),
            m_effect_state := (if m_command_kind m = None then m_effect_state m else Some ''succeeded''),
            m_reply_outcome := (if m_command_kind m = None then m_reply_outcome m
              else if botMessageID = [] then Some ''rejected'' else Some ''sent'')\<rparr>) w))
       (Wrapf ''complete message'') (\<lambda>_. ret ())"

definition FailMessage :: "string \<Rightarrow> string \<Rightarrow> string \<Rightarrow> int \<Rightarrow> unit op" where
  "FailMessage i errorCode safeError durationMS =
     and_then (exec (\<lambda>w. update_messages (\<lambda>m. m_id m = i)
         (\<lambda>m. m\<lparr>m_status := MsgFailed, m_error_code := Some errorCode, m_assistant_content := Some safeError,
            m_duration_ms := Some durationMS, m_completed_at := Some (clock w),
            m_effect_state := (if m_command_kind m = None then m_effect_state m
              else if errorCode = ''command_reply_unknown'' \<or> errorCode = ''command_reply_rejected'' then Some ''succeeded'' else Some ''failed''),
            m_reply_outcome := (if m_command_kind m = None then m_reply_outcome m
              else if errorCode = ''command_reply_unknown'' then Some ''unknown''
              else if errorCode = ''command_reply_rejected'' then Some ''rejected'' else Some ''sent'')\<rparr>) w))
       (Wrapf ''fail message'') (\<lambda>_. ret ())"

definition RecordCommandReplyFailure :: "string \<Rightarrow> string \<Rightarrow> string \<Rightarrow> string \<Rightarrow> unit op" where
  "RecordCommandReplyFailure i effect outcome safeError =
     (if effect \<noteq> ''succeeded'' \<and> effect \<noteq> ''failed'' \<or> outcome \<noteq> ''unknown'' \<and> outcome \<noteq> ''rejected''
        then fail (Errorf ''invalid command reply outcome'')
      else and_then (exec (\<lambda>w. update_messages (\<lambda>m. m_id m = i \<and> m_command_kind m \<noteq> None)
         (\<lambda>m. m\<lparr>m_status := MsgFailed, m_error_code := Some (''command_reply_'' @ outcome), m_assistant_content := Some safeError,
            m_completed_at := Some (clock w), m_effect_state := Some effect, m_reply_outcome := Some outcome\<rparr>) w))
       (Wrapf ''record command reply failure'') (\<lambda>_. ret ()))"

section \<open>The lifecycle handed to the workers\<close>

text \<open>\<open>BatchLifecycle\<close> exposes the batch transitions to the workers; \<open>worker.CompanionDeliverySummary\<close> has the same fields.\<close>

definition MarkProcessing :: "string list \<Rightarrow> unit op" where
  "MarkProcessing ids = MarkMessagesProcessing ids"

definition Complete :: "string list \<Rightarrow> string \<Rightarrow> string \<Rightarrow> int \<Rightarrow> unit op" where
  "Complete ids cardID content durationMS = CompleteBatch ids cardID content durationMS"

definition Fail :: "string list \<Rightarrow> string \<Rightarrow> int \<Rightarrow> unit op" where
  "Fail ids code durationMS = FailBatch ids code durationMS"

section \<open>What a batch transition does\<close>

text \<open>All messages of the batch were in the required state and moved together; no other message changed.\<close>

definition batch_moved :: "(message_row \<Rightarrow> bool) \<Rightarrow> (go_time \<Rightarrow> message_row \<Rightarrow> message_row) \<Rightarrow> string list \<Rightarrow> world \<Rightarrow> world \<Rightarrow> bool" where
  "batch_moved p f ids w w' \<longleftrightarrow> distinct ids \<and> (\<forall>i \<in> set ids. \<exists>m \<in> set (messages w). m_id m = i \<and> p m)
     \<and> quiet w' = (quiet w)\<lparr>messages := map (\<lambda>m. if m_id m \<in> set ids then f (clock w) m else m) (messages w)\<rparr>"

locale batch_move =
  fixes p :: "message_row \<Rightarrow> bool" and f :: "go_time \<Rightarrow> message_row \<Rightarrow> message_row"
  assumes keeps_id: "m_id (f t m) = m_id m" and leaves: "p m \<Longrightarrow> \<not> p (f t m)"
begin

lemma move_one_Inr:
  assumes "move_one what p f i w = (Inr u, w')" and "distinct (map m_id (messages w))"
  shows "\<exists>m \<in> set (messages w). m_id m = i \<and> p m"
    and "quiet w' = (quiet w)\<lparr>messages := map (\<lambda>m. if m_id m = i then f (clock w) m else m) (messages w)\<rparr>"
proof -
  let ?p = "\<lambda>m. m_id m = i \<and> p m"
  from assms(1) have a: "sql_affected ?p (f (clock w)) (messages w) = 1"
    and w': "w' = (pop_fault w)\<lparr>messages := sql_update ?p (f (clock w)) (messages w)\<rparr>"
    by (auto simp: move_one_def op_Inr update_messages_def)
  have "0 < sql_affected ?p (f (clock w)) (messages w)" using a by simp
  then show ex: "\<exists>m \<in> set (messages w). m_id m = i \<and> p m" using sql_affected_pos_ex by blast
  then obtain m where "m \<in> set (messages w)" "?p m" by blast
  then have "sql_update ?p (f (clock w)) (messages w) = map (\<lambda>m. if m_id m = i then f (clock w) m else m) (messages w)"
    by (rule sql_update_key [OF assms(2)]) auto
  then show "quiet w' = (quiet w)\<lparr>messages := map (\<lambda>m. if m_id m = i then f (clock w) m else m) (messages w)\<rparr>"
    using w' by simp
qed

lemma moves_Inr:
  assumes "for_each (move_one what p f) ids w = (Inr u, w')" and "distinct (map m_id (messages w))"
  shows "batch_moved p f ids w w'"
  using assms
proof (induction ids arbitrary: w)
  case Nil
  then show ?case by (simp add: batch_moved_def quiet_def)
next
  case (Cons i ids)
  from Cons.prems(1) obtain v w1 where one: "move_one what p f i w = (Inr v, w1)"
    and rest: "for_each (move_one what p f) ids w1 = (Inr u, w')" by (auto simp: and_then_Inr_iff)
  note m = move_one_Inr [OF one Cons.prems(2)]
  have msgs: "messages w1 = map (\<lambda>m. if m_id m = i then f (clock w) m else m) (messages w)"
    using arg_cong [OF m(2), of messages] by simp
  have clk: "clock w1 = clock w" using arg_cong [OF m(2), of clock] by simp
  have ids1: "map m_id (messages w1) = map m_id (messages w)" by (simp add: msgs keeps_id)
  have IH: "batch_moved p f ids w1 w'" using Cons.IH [OF rest] Cons.prems(2) ids1 by simp
  have old: "\<exists>m \<in> set (messages w). m_id m = j \<and> p m \<and> j \<noteq> i" if "j \<in> set ids" for j
  proof -
    from IH that obtain y where "y \<in> set (messages w1)" "m_id y = j" "p y" by (auto simp: batch_moved_def)
    then obtain x where x: "x \<in> set (messages w)" "y = (if m_id x = i then f (clock w) x else x)" using msgs by auto
    show ?thesis
    proof (cases "m_id x = i")
      case True
      obtain z where z: "z \<in> set (messages w)" "m_id z = i" "p z" using m(1) by blast
      then have "z = x" using distinct_key_unique [OF Cons.prems(2)] x(1) True by blast
      then show ?thesis using z(3) x(2) True \<open>p y\<close> leaves by auto
    next
      case False
      then show ?thesis using x \<open>m_id y = j\<close> \<open>p y\<close> by auto
    qed
  qed
  have both: "quiet w' = (quiet w)\<lparr>messages := map (\<lambda>m. if m_id m \<in> set ids then f (clock w) m else m) (messages w1)\<rparr>"
    using IH m(2) by (simp add: batch_moved_def clk)
  have "map (\<lambda>m. if m_id m \<in> set ids then f (clock w) m else m) (messages w1)
      = map (\<lambda>m. if m_id m \<in> set (i # ids) then f (clock w) m else m) (messages w)"
    using old by (auto simp: msgs keeps_id)
  then show ?case using IH old m(1) both unfolding batch_moved_def by auto
qed

lemma batch_tx_cases:
  assumes "distinct (map m_id (messages w))"
  obtains (unchanged) e where "fst (batch_tx b what c p f ids w) = Inl e" "quiet (snd (batch_tx b what c p f ids w)) = quiet w"
  | (moved) "batch_moved p f ids w (snd (batch_tx b what c p f ids w))"
proof -
  let ?body = "and_then (for_each (move_one what p f) ids) id (\<lambda>_. ret (Wrapf c, ()))"
  show thesis
  proof (cases rule: transaction_cases [of "Wrapf b" ?body w])
    case (unchanged e)
    then show thesis using that(1) by (simp add: batch_tx_def)
  next
    case (committed cw x w2)
    then obtain u where "for_each (move_one what p f) ids (pop_fault w) = (Inr u, w2)" by (auto simp: and_then_Inr_iff)
    then have "batch_moved p f ids (pop_fault w) w2" using moves_Inr assms by simp
    then show thesis using that(2) committed(2) by (simp add: batch_moved_def batch_tx_def)
  qed
qed

end

interpretation completed: batch_move "\<lambda>m. m_status m = MsgProcessing" "complete_row cardID content ms" for cardID content ms
  by unfold_locales (auto simp: complete_row_def)

interpretation begun: batch_move "\<lambda>m. m_status m = MsgProcessing \<and> m_batch_id m = None \<and> \<not> m_delivery_started m" "start_row batchID" for batchID
  by unfold_locales (auto simp: start_row_def)

interpretation companion_failing: batch_move "in_delivery batchID" "companion_failed code safe ms" for batchID code safe ms
  by unfold_locales (auto simp: companion_failed_def in_delivery_def)

interpretation companion_ending: batch_move "in_delivery batchID" "companion_done s" for batchID s
  by unfold_locales (auto simp: companion_done_def in_delivery_def)

interpretation failing: batch_move "\<lambda>m. m_status m = MsgReceived \<or> m_status m = MsgProcessing" "failed_row code ms" for code ms
  by unfold_locales (auto simp: failed_row_def)

section \<open>The lifecycle of a message\<close>

definition message_rank :: "message_row \<Rightarrow> nat" where
  "message_rank m = (case m_status m of MsgReceived \<Rightarrow> 0
     | MsgProcessing \<Rightarrow> (if m_delivery_started m \<or> m_batch_id m \<noteq> None then 2 else 1)
     | _ \<Rightarrow> 3)"

definition message_identity :: "message_row \<Rightarrow> string \<times> string \<times> string \<times> string \<times> string \<times> string \<times> string" where
  "message_identity m = (m_id m, m_trace_id m, m_chat_group_id m, m_event_id m, m_user_message_id m, m_sender_open_id m, m_user_content m)"

definition message_moves :: "message_row \<Rightarrow> message_row \<Rightarrow> bool" where
  "message_moves x y \<longleftrightarrow> y = x \<or> (message_identity y = message_identity x \<and> message_rank x < message_rank y)"

interpretation msgs: ledger_table message_moves "\<lambda>m. message_rank m = 3" messages
proof
  fix x y z :: message_row and w :: world and fs
  show "message_moves x x" by (simp add: message_moves_def)
  show "message_moves x z" if "message_moves x y" "message_moves y z" using that by (auto simp: message_moves_def)
  show "y = x" if "message_rank x = 3" "message_moves x y"
  proof -
    have "message_rank y \<le> 3" by (simp add: message_rank_def split: message_status.split)
    then show ?thesis using that by (auto simp: message_moves_def)
  qed
  show "messages (w\<lparr>faults := fs\<rparr>) = messages w" by simp
qed

abbreviation msgs_rel :: "world \<Rightarrow> world \<Rightarrow> bool" where
  "msgs_rel w w' \<equiv> evolves message_moves (messages w) (messages w')"

lemma msgs_update:
  assumes "\<And>w m. p w m \<Longrightarrow> message_moves m (f w m)"
  shows "preserves msgs_rel (exec (\<lambda>w. update_messages (p w) (f w) w))"
  by (rule msgs.tab.preserves_exec, rule preservesI) (use assms in \<open>simp add: update_messages_def msgs.evolves_update\<close>)

lemma msgs_stmts:
  "preserves msgs_rel (exec (upsert_group g a t c))" "preserves msgs_rel (exec (insert_message m))"
  "preserves msgs_rel (exec (insert_attachment x))" "preserves msgs_rel (exec (update_groups q h))"
  "preserves msgs_rel (exec (set_threads i e r))"
  by (rule msgs.tab.preserves_exec, rule preservesI,
      simp add: upsert_group_def insert_message_def insert_attachment_def update_groups_def set_threads_def msgs.evolves_refl msgs.evolves_append)+

lemma msgs_move_one:
  assumes "\<And>t m. p m \<Longrightarrow> message_moves m (f t m)"
  shows "preserves msgs_rel (move_one what p f i)"
  unfolding move_one_def by (intro msgs.tab.preserves_intros msgs_update) (use assms in blast)

lemma msgs_batch:
  assumes "\<And>t m. p m \<Longrightarrow> message_moves m (f t m)"
  shows "preserves msgs_rel (batch_tx b what c p f ids)"
  unfolding batch_tx_def by (intro msgs.tab.preserves_intros msgs_move_one assms)

lemmas row_defs = complete_row_def start_row_def companion_failed_def companion_done_def failed_row_def abandoned_row_def in_delivery_def

lemma msgs_ops:
  "preserves msgs_rel (PersistIncoming g now a t c input)" "preserves msgs_rel (CreateMessage now input)"
  "preserves msgs_rel (MarkMessagesProcessing ids)" "preserves msgs_rel (CompleteBatch ids cid content ms)"
  "preserves msgs_rel (MarkCompanionDeliveryStarted ids b)" "preserves msgs_rel (FailCompanionDelivery ids b code safe ms)"
  "preserves msgs_rel (CompleteCompanionDelivery ids s)" "preserves msgs_rel (FailBatch ids code ms)"
  "preserves msgs_rel ReconcileAbandonedCompanionDeliveries"
  unfolding PersistIncoming_def persistTx_def CreateMessage_def MarkMessagesProcessing_def CompleteBatch_def MarkCompanionDeliveryStarted_def
    FailCompanionDelivery_def CompleteCompanionDelivery_def FailBatch_def ReconcileAbandonedCompanionDeliveries_def abandonTx_def
  by (intro msgs.tab.preserves_intros msgs_stmts msgs_batch msgs_move_one msgs_update;
      auto simp: message_moves_def message_identity_def message_rank_def row_defs)+

lemma msgs_groups:
  "preserves msgs_rel (GetOrCreateChatGroup g a t c)" "preserves msgs_rel (SetChatGroupToolset g v)"
  "preserves msgs_rel (SetThreadIfExpected g e r)"
  unfolding GetOrCreateChatGroup_def SetChatGroupToolset_def SetThreadIfExpected_def
  by (intro msgs.tab.preserves_intros msgs_stmts)+

section \<open>Unique keys\<close>

text \<open>The unique keys of \<open>messages\<close> and of \<open>chat_groups\<close>.\<close>

definition chat_of :: "chat_group_row \<Rightarrow> string \<times> string \<times> string" where
  "chat_of g = (g_app_id g, g_chat_type g, g_chat_id g)"

definition ingress_inv :: "world \<Rightarrow> bool" where
  "ingress_inv w \<longleftrightarrow> sorted_wrt (\<lambda>x y. \<not> message_clash x y) (messages w)
     \<and> distinct (map g_id (chat_groups w)) \<and> distinct (map chat_of (chat_groups w))"

definition same_message :: "message_row \<Rightarrow> message_row \<Rightarrow> bool" where
  "same_message x y \<longleftrightarrow> message_identity y = message_identity x"

definition same_group :: "chat_group_row \<Rightarrow> chat_group_row \<Rightarrow> bool" where
  "same_group x y \<longleftrightarrow> g_id y = g_id x \<and> chat_of y = chat_of x"

interpretation kept_messages: ledger same_message "\<lambda>_. False"
  by unfold_locales (auto simp: same_message_def)

interpretation kept_groups: ledger same_group "\<lambda>_. False"
  by unfold_locales (auto simp: same_group_def)

text \<open>The keys stay unique, and no message or group is lost or given another identity.\<close>

abbreviation ingress_rel :: "world \<Rightarrow> world \<Rightarrow> bool" where
  "ingress_rel w w' \<equiv> (ingress_inv w \<longrightarrow> ingress_inv w') \<and> evolves same_message (messages w) (messages w')
     \<and> evolves same_group (chat_groups w) (chat_groups w')"

interpretation ingress: world_relation ingress_rel
  by unfold_locales (auto simp: ingress_inv_def kept_messages.evolves_refl kept_groups.evolves_refl
      intro: kept_messages.evolves_trans kept_groups.evolves_trans)

lemma message_clash_identity:
  "message_identity x' = message_identity x \<Longrightarrow> message_identity y' = message_identity y \<Longrightarrow> message_clash x' y' = message_clash x y"
  by (simp add: message_identity_def message_clash_def)

lemma unique_update:
  assumes "\<And>m. p m \<Longrightarrow> message_identity (f m) = message_identity m"
  shows "sorted_wrt (\<lambda>x y. \<not> message_clash x y) (sql_update p f ms) = sorted_wrt (\<lambda>x y. \<not> message_clash x y) ms"
proof -
  have "message_clash (if p x then f x else x) (if p y then f y else y) = message_clash x y" for x y
    by (rule message_clash_identity) (simp_all add: assms)
  then show ?thesis by (simp add: sql_update_def sorted_wrt_map)
qed

lemma ingress_update:
  assumes "\<And>w m. p w m \<Longrightarrow> message_identity (f w m) = message_identity m"
  shows "preserves ingress_rel (exec (\<lambda>w. update_messages (p w) (f w) w))"
  by (rule ingress.preserves_exec, rule preservesI)
    (simp add: update_messages_def ingress_inv_def unique_update assms kept_groups.evolves_refl kept_messages.evolves_update same_message_def)

lemma ingress_stmts:
  "preserves ingress_rel (exec (upsert_group g a t c))" "preserves ingress_rel (exec (insert_message m))"
  "preserves ingress_rel (exec (insert_attachment x))" "preserves ingress_rel (exec (set_threads i e r))"
  "preserves ingress_rel (exec (update_groups q (\<lambda>y. y\<lparr>g_toolset_version := v\<rparr>)))"
proof -
  have keep: "map g_id (sql_update q h gs) = map g_id gs \<and> map chat_of (sql_update q h gs) = map chat_of gs
      \<and> evolves same_group gs (sql_update q h gs)"
    if "\<And>g. g_id (h g) = g_id g \<and> chat_of (h g) = chat_of g" for q h gs
    by (simp add: map_sql_update that kept_groups.evolves_update same_group_def)
  note refls = kept_messages.evolves_refl kept_groups.evolves_refl kept_messages.evolves_append kept_groups.evolves_append ingress_inv_def
  show "preserves ingress_rel (exec (insert_message m))"
    by (rule ingress.preserves_exec, rule preservesI) (auto simp: insert_message_def refls sorted_wrt_append sql_conflict_def)
  show "preserves ingress_rel (exec (insert_attachment x))"
    by (rule ingress.preserves_exec, rule preservesI) (simp add: insert_attachment_def refls)
  show "preserves ingress_rel (exec (upsert_group g a t c))"
    by (rule ingress.preserves_exec, rule preservesI)
      (auto simp: upsert_group_def refls keep chat_of_def new_group_def list_ex_iff same_chat_def)
  show "preserves ingress_rel (exec (set_threads i e r))"
    by (rule ingress.preserves_exec, rule preservesI) (simp add: set_threads_def refls keep chat_of_def)
  show "preserves ingress_rel (exec (update_groups q (\<lambda>y. y\<lparr>g_toolset_version := v\<rparr>)))"
    by (rule ingress.preserves_exec, rule preservesI) (simp add: update_groups_def refls keep chat_of_def)
qed

lemma ingress_move_one:
  assumes "\<And>t m. p m \<Longrightarrow> message_identity (f t m) = message_identity m"
  shows "preserves ingress_rel (move_one what p f i)"
  unfolding move_one_def by (intro ingress.preserves_intros ingress_update) (use assms in blast)

lemma ingress_batch:
  assumes "\<And>t m. p m \<Longrightarrow> message_identity (f t m) = message_identity m"
  shows "preserves ingress_rel (batch_tx b what c p f ids)"
  unfolding batch_tx_def by (intro ingress.preserves_intros ingress_move_one assms)

lemma ingress_ops:
  "preserves ingress_rel (PersistIncoming g now a t c input)" "preserves ingress_rel (CreateMessage now input)"
  "preserves ingress_rel (GetOrCreateChatGroup g a t c)" "preserves ingress_rel (SetChatGroupToolset g v)"
  "preserves ingress_rel (SetThreadIfExpected g e r)"
  "preserves ingress_rel (MarkMessagesProcessing ids)" "preserves ingress_rel (CompleteBatch ids cid content ms)"
  "preserves ingress_rel (MarkCompanionDeliveryStarted ids b)" "preserves ingress_rel (FailCompanionDelivery ids b code safe ms)"
  "preserves ingress_rel (CompleteCompanionDelivery ids s)" "preserves ingress_rel (FailBatch ids code ms)"
  "preserves ingress_rel ReconcileAbandonedCompanionDeliveries"
  "preserves ingress_rel (CompleteMessage i botID content ms)" "preserves ingress_rel (FailMessage i code safe ms)"
  "preserves ingress_rel (RecordCommandReplyFailure i effect outcome safe)"
  unfolding PersistIncoming_def persistTx_def CreateMessage_def MarkMessagesProcessing_def CompleteBatch_def MarkCompanionDeliveryStarted_def
    FailCompanionDelivery_def CompleteCompanionDelivery_def FailBatch_def ReconcileAbandonedCompanionDeliveries_def abandonTx_def
    GetOrCreateChatGroup_def SetChatGroupToolset_def SetThreadIfExpected_def CompleteMessage_def FailMessage_def RecordCommandReplyFailure_def
  by (intro ingress.preserves_intros ingress_stmts ingress_batch ingress_move_one ingress_update;
      simp add: message_identity_def row_defs)+

section \<open>Steps\<close>

text \<open>Ingress, the transitions the workers drive, the restart and everything that touches other tables.\<close>

inductive batch_step :: "world \<Rightarrow> world \<Rightarrow> bool" where
  elsewhere: "messages w' = messages w \<Longrightarrow> chat_groups w' = chat_groups w \<Longrightarrow> batch_step w w'"
| group: "batch_step w (snd (GetOrCreateChatGroup g a t c w))"
| toolset: "batch_step w (snd (SetChatGroupToolset g v w))"
| thread: "batch_step w (snd (SetThreadIfExpected g e r w))"
| persist: "batch_step w (snd (PersistIncoming g now a t c input w))"
| create: "batch_step w (snd (CreateMessage now input w))"
| processing: "batch_step w (snd (MarkMessagesProcessing ids w))"
| complete: "batch_step w (snd (CompleteBatch ids cid content ms w))"
| failure: "batch_step w (snd (FailBatch ids code ms w))"
| started: "batch_step w (snd (MarkCompanionDeliveryStarted ids b w))"
| companion_failure: "batch_step w (snd (FailCompanionDelivery ids b code safe ms w))"
| companion_complete: "batch_step w (snd (CompleteCompanionDelivery ids s w))"
| restart: "batch_step w (snd (ReconcileAbandonedCompanionDeliveries w))"

text \<open>With the answers of commands, whose updates are unconditional.\<close>

inductive message_step :: "world \<Rightarrow> world \<Rightarrow> bool" where
  batch: "batch_step w w' \<Longrightarrow> message_step w w'"
| complete_message: "message_step w (snd (CompleteMessage i botID content ms w))"
| fail_message: "message_step w (snd (FailMessage i code safe ms w))"
| reply_failure: "message_step w (snd (RecordCommandReplyFailure i effect outcome safe w))"

lemma batch_step_moves: "batch_step w w' \<Longrightarrow> msgs_rel w w'"
  by (induction rule: batch_step.induct)
    (simp add: msgs.evolves_refl, (rule msgs_ops [THEN preservesD] msgs_groups [THEN preservesD])+)

lemma batch_step_inv: "batch_step w w' \<Longrightarrow> ingress_rel w w'"
  by (induction rule: batch_step.induct) (simp add: ingress_inv_def kept_messages.evolves_refl kept_groups.evolves_refl, (rule ingress_ops [THEN preservesD])+)

lemma message_step_inv: "message_step w w' \<Longrightarrow> ingress_rel w w'"
  by (induction rule: message_step.induct) (erule batch_step_inv, (rule ingress_ops [THEN preservesD])+)

lemma unique_ids: "sorted_wrt (\<lambda>x y. \<not> message_clash x y) ms \<Longrightarrow> distinct (map m_id ms)"
  by (induction ms) (auto simp: message_clash_def)

lemma ingress_inv_ids: "ingress_inv w \<Longrightarrow> distinct (map m_id (messages w))"
  by (simp add: ingress_inv_def unique_ids)

lemma unique_message:
  assumes "ingress_inv w" and "x \<in> set (messages w)" and "y \<in> set (messages w)" and "message_clash x y"
  shows "x = y"
proof -
  obtain i j where ij: "i < length (messages w)" "j < length (messages w)" "x = messages w ! i" "y = messages w ! j"
    using assms(2,3) by (auto simp: in_set_conv_nth)
  have "message_clash y x" using assms(4) by (auto simp: message_clash_def)
  then show ?thesis using assms(1,4) ij
    by (cases i j rule: linorder_cases) (auto simp: ingress_inv_def sorted_wrt_iff_nth_less)
qed

section \<open>Ingress\<close>

lemma stage_Inr:
  assumes "for_each (\<lambda>a. and_then (exec (insert_attachment (staged_row i g a))) wrap ret) xs w = (Inr u, w')"
  shows "quiet w' = (quiet w)\<lparr>attachments := attachments w @ map (staged_row i g) xs\<rparr>"
  using assms
proof (induction xs arbitrary: w)
  case Nil
  then show ?case by (simp add: quiet_def)
next
  case (Cons a xs)
  then obtain w1 where "exec (insert_attachment (staged_row i g a)) w = (Inr (), w1)"
    and rest: "for_each (\<lambda>a. and_then (exec (insert_attachment (staged_row i g a))) wrap ret) xs w1 = (Inr u, w')"
    by (auto simp: and_then_Inr_iff)
  then have q: "quiet w1 = (quiet w)\<lparr>attachments := attachments w @ [staged_row i g a]\<rparr>"
    by (auto simp: exec_Inr_iff insert_attachment_def split: if_splits)
  have "attachments w1 = attachments w @ [staged_row i g a]" using arg_cong [OF q, of attachments] by simp
  with Cons.IH [OF rest] q show ?case by simp
qed

text \<open>What an accepted message leaves behind: its row and all its staged attachments.\<close>

definition ingested :: "go_time \<Rightarrow> string \<Rightarrow> string \<Rightarrow> string \<Rightarrow> MessageInput \<Rightarrow> string \<Rightarrow> world \<Rightarrow> world \<Rightarrow> bool" where
  "ingested now appID chatType chatID input gid w w' \<longleftrightarrow>
     (\<exists>g \<in> set (chat_groups w'). g_id g = gid \<and> same_chat appID chatType chatID g)
     \<and> messages w' = messages w @ [incoming_row gid now input]
     \<and> attachments w' = attachments w @ map (staged_row (MI_ID input) gid) (MI_Attachments input)
     \<and> \<not> sql_conflict message_clash (incoming_row gid now input) (messages w)"

lemma upsert_Inr:
  "exec (upsert_group groupID a t c) w = (Inr u, w1) \<Longrightarrow> messages w1 = messages w \<and> attachments w1 = attachments w"
  by (auto simp: exec_Inr_iff upsert_group_def split: if_splits)

lemma persistTx_Inr:
  assumes "persistTx groupID now a t c input w = (Inr (cw, rec), w')"
  shows "rec = \<lparr>MR_ID = MI_ID input, MR_TraceID = MI_TraceID input, MR_ChatGroupID = MR_ChatGroupID rec\<rparr>"
    and "ingested now a t c input (MR_ChatGroupID rec) w w'"
proof -
  from assms obtain u w1 g w2 w3 v where up: "exec (upsert_group groupID a t c) w = (Inr u, w1)"
    and sel: "w2 = pop_fault w1" "sql_first (same_chat a t c) (chat_groups w1) = Some g"
    and ins: "exec (insert_message (incoming_row (g_id g) now input)) w2 = (Inr (), w3)"
    and stage: "for_each (\<lambda>x. and_then (exec (insert_attachment (staged_row (MI_ID input) (g_id g) x))) (Wrapf ''stage attachment'') ret)
          (MI_Attachments input) w3 = (Inr v, w')"
    and rec: "rec = \<lparr>MR_ID = MI_ID input, MR_TraceID = MI_TraceID input, MR_ChatGroupID = g_id g\<rparr>"
    by (auto simp: persistTx_def and_then_Inr_iff query_Inr_iff split: option.splits)
  show "rec = \<lparr>MR_ID = MI_ID input, MR_TraceID = MI_TraceID input, MR_ChatGroupID = MR_ChatGroupID rec\<rparr>" using rec by simp
  note q = stage_Inr [OF stage]
  have m: "messages w' = messages w3" "attachments w' = attachments w3 @ map (staged_row (MI_ID input) (g_id g)) (MI_Attachments input)"
    "chat_groups w' = chat_groups w3"
    using arg_cong [OF q, of messages] arg_cong [OF q, of attachments] arg_cong [OF q, of chat_groups] by simp_all
  have i: "messages w3 = messages w1 @ [incoming_row (g_id g) now input]" "attachments w3 = attachments w1"
    "chat_groups w3 = chat_groups w1" "\<not> sql_conflict message_clash (incoming_row (g_id g) now input) (messages w1)"
    using ins sel(1) by (auto simp: exec_Inr_iff insert_message_def split: if_splits)
  show "ingested now a t c input (MR_ChatGroupID rec) w w'"
    using m i upsert_Inr [OF up] sql_first_SomeD [OF sel(2)] rec unfolding ingested_def by auto
qed

lemma persist_cases:
  obtains (refused) "quiet (snd (PersistIncoming groupID now a t c input w)) = quiet w"
      "fst (PersistIncoming groupID now a t c input w) = Inr (no_record, True) \<or> (\<exists>e. fst (PersistIncoming groupID now a t c input w) = Inl e)"
  | (accepted) gid where "ingested now a t c input gid w (snd (PersistIncoming groupID now a t c input w))"
      "fst (PersistIncoming groupID now a t c input w)
         = Inr (\<lparr>MR_ID = MI_ID input, MR_TraceID = MI_TraceID input, MR_ChatGroupID = gid\<rparr>, False)
       \<or> (\<exists>e. fst (PersistIncoming groupID now a t c input w) = Inl e)"
proof (cases rule: transaction_cases [of id "persistTx groupID now a t c input" w])
  case (unchanged e)
  then obtain w' where "transaction id (persistTx groupID now a t c input) w = (Inl e, w')" "quiet w' = quiet w"
    by (metis prod.collapse)
  then show thesis using refused by (auto simp: PersistIncoming_def op_defs)
next
  case (committed cw rec w2)
  note tx = persistTx_Inr [OF committed(1)]
  obtain r w' where out: "transaction id (persistTx groupID now a t c input) w = (r, w')" by fastforce
  have cw: "cw = id" using committed(1) by (auto simp: persistTx_def and_then_Inr_iff split: option.splits)
  have q: "quiet w' = quiet w2" using committed(2) out by simp
  have "ingested now a t c input (MR_ChatGroupID rec) w w'"
    using tx(2) arg_cong [OF q, of messages] arg_cong [OF q, of attachments] arg_cong [OF q, of chat_groups] by (simp add: ingested_def)
  moreover have "r = Inr rec \<or> r = Inl ErrDriver" using committed(3) out cw by simp
  ultimately show thesis using accepted [of "MR_ChatGroupID rec"] tx(1) out by (auto simp: PersistIncoming_def op_defs)
qed

section \<open>Concrete inputs\<close>

definition ex_app :: app_row where
  "ex_app = \<lparr>a_id = ''app'', a_enabled = True, a_workspace_dir = ''/ws'', a_workspace_mode = ''shared'', a_model = [], a_effort = []\<rparr>"

definition ex_message :: "string \<Rightarrow> MessageInput" where
  "ex_message i = \<lparr>MI_ID = i, MI_TraceID = i, MI_ChatGroupID = [], MI_FeishuEventID = i, MI_FeishuUserMessageID = i,
     MI_SenderOpenID = ''ou'', MI_UserContent = ''hi'', MI_ReceivedAt = 5, MI_CommandKind = [], MI_CommandPayloadSHA256 = [],
     MI_CommandPayloadBytes = 0, MI_Attachments = []\<rparr>"

definition ex_row :: "string \<Rightarrow> message_row" where
  "ex_row i = (incoming_row ''g'' 5 (ex_message i))\<lparr>m_status := MsgProcessing\<rparr>"

definition ex_store :: world where
  "ex_store = empty_world\<lparr>apps := [ex_app], chat_groups := [new_group ''g'' ''app'' ''p2p'' ''c''], messages := [ex_row ''m1'', ex_row ''m2'']\<rparr>"

lemma ex_store_simps [simp]:
  "faults ex_store = []" "messages ex_store = [ex_row ''m1'', ex_row ''m2'']" "clock ex_store = 0" "apps ex_store = [ex_app]"
  "chat_groups ex_store = [new_group ''g'' ''app'' ''p2p'' ''c'']" "attachments ex_store = []"
  by (simp_all add: ex_store_def empty_world_def)

lemma ex_row_simps [simp]:
  "m_id (ex_row i) = i" "m_event_id (ex_row i) = i" "m_chat_group_id (ex_row i) = ''g''" "m_trace_id (ex_row i) = i"
  "m_user_message_id (ex_row i) = i" "m_status (ex_row i) = MsgProcessing"
  by (simp_all add: ex_row_def incoming_row_def ex_message_def)

lemma ex_store_inv: "ingress_inv ex_store"
  by (simp add: ingress_inv_def message_clash_def)

section \<open>Properties\<close>

text \<open>Either the caller got an error and nothing changed, or the whole batch moved.\<close>

definition all_or_nothing :: "(message_row \<Rightarrow> bool) \<Rightarrow> (go_time \<Rightarrow> message_row \<Rightarrow> message_row) \<Rightarrow> string list \<Rightarrow> world \<Rightarrow> 'a res \<times> world \<Rightarrow> bool" where
  "all_or_nothing p f ids w out \<longleftrightarrow> ((\<exists>e. fst out = Inl e) \<and> quiet (snd out) = quiet w) \<or> batch_moved p f ids w (snd out)"

context batch_move begin

lemma batch_tx_atomic:
  "distinct (map m_id (messages w)) \<Longrightarrow> all_or_nothing p f ids w (batch_tx b what c p f ids w)"
  by (cases rule: batch_tx_cases [of w b what c ids]) (auto simp: all_or_nothing_def)

end

lemma guarded_atomic:
  "all_or_nothing p f ids w (m w) \<Longrightarrow> all_or_nothing p f ids w ((if c then fail e else m) w)"
  by (simp add: all_or_nothing_def fail_def)

text \<open>
  C13: The transitions of a batch are all or nothing. Completing or failing a batch, starting a companion
  delivery and ending one either report an error and leave the database as it was, or every message of the
  batch was in the state the transition requires and all of them moved, and no other row of any table did.
  This holds when the connection is lost at any statement.
\<close>

theorem batch_all_or_nothing:
  assumes "ingress_inv w"
  shows "all_or_nothing (\<lambda>m. m_status m = MsgProcessing) (complete_row cid content ms) ids w (CompleteBatch ids cid content ms w)
    \<and> all_or_nothing (\<lambda>m. m_status m = MsgReceived \<or> m_status m = MsgProcessing) (failed_row code ms) ids w (FailBatch ids code ms w)
    \<and> all_or_nothing (\<lambda>m. m_status m = MsgProcessing \<and> m_batch_id m = None \<and> \<not> m_delivery_started m) (start_row b) ids w
        (MarkCompanionDeliveryStarted ids b w)
    \<and> all_or_nothing (in_delivery b) (companion_failed code safe ms) ids w (FailCompanionDelivery ids b code safe ms w)
    \<and> all_or_nothing (in_delivery (CD_BatchID s)) (companion_done s) ids w (CompleteCompanionDelivery ids s w)"
  unfolding CompleteBatch_def FailBatch_def MarkCompanionDeliveryStarted_def FailCompanionDelivery_def CompleteCompanionDelivery_def
  using ingress_inv_ids [OF assms]
  by (intro conjI guarded_atomic completed.batch_tx_atomic failing.batch_tx_atomic begun.batch_tx_atomic
      companion_failing.batch_tx_atomic companion_ending.batch_tx_atomic)

theorem batch_all_or_nothing_witness:
  "all_or_nothing (\<lambda>m. m_status m = MsgProcessing) (complete_row ''card'' ''text'' 7) [''m1'', ''m2''] ex_store
     (CompleteBatch [''m1'', ''m2''] ''card'' ''text'' 7 ex_store)
   \<and> messages (snd (CompleteBatch [''m1'', ''m2''] ''card'' ''text'' 7 ex_store))
      = [complete_row ''card'' ''text'' 7 0 (ex_row ''m1''), complete_row ''card'' ''text'' 7 0 (ex_row ''m2'')]"
proof
  show "all_or_nothing (\<lambda>m. m_status m = MsgProcessing) (complete_row ''card'' ''text'' 7) [''m1'', ''m2''] ex_store
     (CompleteBatch [''m1'', ''m2''] ''card'' ''text'' 7 ex_store)" using batch_all_or_nothing [OF ex_store_inv] by blast
  show "messages (snd (CompleteBatch [''m1'', ''m2''] ''card'' ''text'' 7 ex_store))
      = [complete_row ''card'' ''text'' 7 0 (ex_row ''m1''), complete_row ''card'' ''text'' 7 0 (ex_row ''m2'')]"
    by (simp add: CompleteBatch_def batch_tx_def transaction_def move_one_def op_defs update_messages_def complete_row_def)
      (simp add: ex_row_def incoming_row_def)
qed

text \<open>
  The outcome of a message is final for the workers. A message that has succeeded or failed is still in the table, unchanged
  in every column, after any sequence of ingress, batch transitions, companion deliveries and restarts.
\<close>

lemma terminal_message_final:
  assumes "batch_step\<^sup>*\<^sup>* w w'" and "m \<in> set (messages w)" and "m_status m = MsgSucceeded \<or> m_status m = MsgFailed"
  shows "m \<in> set (messages w')"
  using msgs.final_survives [of batch_step w w' m] batch_step_moves assms by (auto simp: message_rank_def)

lemma terminal_message_final_witness:
  "complete_row ''card'' ''a'' 1 0 (ex_row ''m3'')
     \<in> set (messages (snd (FailBatch [''m3''] ''late'' 9 (ex_store\<lparr>messages := [complete_row ''card'' ''a'' 1 0 (ex_row ''m3'')]\<rparr>))))"
  using terminal_message_final [OF r_into_rtranclp [of batch_step, OF batch_step.failure]] by (simp add: complete_row_def)

lemma redelivery_refused:
  assumes "ingress_inv w" and "message_step\<^sup>*\<^sup>* w w'" and "m \<in> set (messages w)" and "g \<in> set (chat_groups w)"
    and "m_chat_group_id m = g_id g" and "same_chat a t c g"
    and "MI_FeishuEventID input = m_event_id m \<or> MI_FeishuUserMessageID input = m_user_message_id m"
  shows "quiet (snd (PersistIncoming groupID now a t c input w')) = quiet w'
    \<and> (fst (PersistIncoming groupID now a t c input w') = Inr (no_record, True)
       \<or> (\<exists>e. fst (PersistIncoming groupID now a t c input w') = Inl e))"
proof -
  have rel: "ingress_rel w w'" using ingress.rel_rtranclp [OF message_step_inv assms(2)] .
  obtain m' where m': "m' \<in> set (messages w')" "same_message m m'" using kept_messages.evolves_moves rel assms(3) by blast
  obtain g' where g': "g' \<in> set (chat_groups w')" "same_group g g'" using kept_groups.evolves_moves rel assms(4) by blast
  let ?out = "snd (PersistIncoming groupID now a t c input w')"
  show ?thesis
  proof (cases rule: persist_cases [of groupID now a t c input w'])
    case (accepted gid)
    then obtain h where h: "h \<in> set (chat_groups ?out)" "g_id h = gid" "same_chat a t c h" by (auto simp: ingested_def)
    have out: "ingress_rel w' ?out" using ingress_ops(1) by (rule preservesD)
    then obtain g'' where g'': "g'' \<in> set (chat_groups ?out)" "same_group g' g''" using kept_groups.evolves_moves g'(1) by blast
    have "chat_of g'' = chat_of h" using g'' g'(2) h(3) assms(6) by (simp add: same_group_def chat_of_def same_chat_def)
    moreover have "distinct (map chat_of (chat_groups ?out))" using out rel assms(1) by (simp add: ingress_inv_def)
    ultimately have "g'' = h" using g''(1) h(1) distinct_key_unique [of chat_of "chat_groups ?out"] by blast
    then have "gid = m_chat_group_id m'" using h(2) g''(2) g'(2) m'(2) assms(5) by (simp add: same_group_def same_message_def message_identity_def)
    then have "message_clash m' (incoming_row gid now input)"
      using m'(2) assms(7) by (auto simp: message_clash_def incoming_row_def same_message_def message_identity_def)
    then show ?thesis using accepted(1) m'(1) by (auto simp: ingested_def sql_conflict_def)
  qed simp
qed

text \<open>
  An event is ingested once. If the platform's event (or its message) is already stored for the chat, then after any
  sequence of steps a redelivery of it, to the same chat, changes no table and is answered as a duplicate, or as
  an error when the connection fails; it is never accepted again.
\<close>

lemma redelivered_event_ignored:
  assumes "ingress_inv w" and "message_step\<^sup>*\<^sup>* w w'" and "m \<in> set (messages w)" and "g \<in> set (chat_groups w)"
    and "m_chat_group_id m = g_id g" and "same_chat a t c g"
    and "MI_FeishuEventID input = m_event_id m \<or> MI_FeishuUserMessageID input = m_user_message_id m"
  shows "quiet (snd (PersistIncoming groupID now a t c input w')) = quiet w'
    \<and> (fst (PersistIncoming groupID now a t c input w') = Inr (no_record, True)
       \<or> (\<exists>e. fst (PersistIncoming groupID now a t c input w') = Inl e))"
  using assms by (rule redelivery_refused)

lemma redelivered_event_ignored_witness:
  "quiet (snd (PersistIncoming ''new'' 9 ''app'' ''p2p'' ''c'' (ex_message ''m1'') ex_store)) = quiet ex_store"
  using redelivered_event_ignored [OF ex_store_inv, of ex_store "ex_row ''m1''" "new_group ''g'' ''app'' ''p2p'' ''c''" "''app''" "''p2p''" "''c''" "ex_message ''m1''" "''new''" 9]
  by (simp add: new_group_def same_chat_def) (simp add: ex_message_def)

text \<open>
  Ingress is atomic. An accepted message is stored with all its staged attachments, under the group of its
  chat, with the answered identity; otherwise nothing is stored. An error leaves one of these two states, and a duplicate is
  answered only where nothing changed.
\<close>

lemma ingress_atomic:
  "(quiet (snd (PersistIncoming groupID now a t c input w)) = quiet w
      \<and> (fst (PersistIncoming groupID now a t c input w) = Inr (no_record, True)
         \<or> (\<exists>e. fst (PersistIncoming groupID now a t c input w) = Inl e)))
    \<or> (\<exists>gid. ingested now a t c input gid w (snd (PersistIncoming groupID now a t c input w))
      \<and> (fst (PersistIncoming groupID now a t c input w)
            = Inr (\<lparr>MR_ID = MI_ID input, MR_TraceID = MI_TraceID input, MR_ChatGroupID = gid\<rparr>, False)
         \<or> (\<exists>e. fst (PersistIncoming groupID now a t c input w) = Inl e)))"
  by (cases rule: persist_cases [of groupID now a t c input w]) blast+

section \<open>Restart\<close>

lemma abandon_one:
  assumes "faults w = []" and "m \<in> set (messages w)" and "in_delivery b m"
  shows "abandonTx b w = (Inr (), w\<lparr>messages := sql_update (in_delivery b) (abandoned_row (clock w)) (messages w)\<rparr>)"
proof -
  have "abandoned_row (clock w) m \<noteq> m" using assms(3) by (auto simp: abandoned_row_def in_delivery_def dest: arg_cong [of _ _ m_status])
  then have "sql_affected (in_delivery b) (abandoned_row (clock w)) (messages w) \<noteq> 0"
    using assms(2,3) by (auto simp: sql_affected_0)
  then show ?thesis using assms(1) by (simp add: abandonTx_def transaction_def op_defs update_messages_def)
qed

lemma abandon_all:
  assumes "faults w = []" and "distinct bs" and "\<forall>b \<in> set bs. \<exists>m \<in> set (messages w). in_delivery b m"
  shows "for_each abandonTx bs w = (Inr (), w\<lparr>messages := sql_update (\<lambda>m. \<exists>b \<in> set bs. in_delivery b m) (abandoned_row (clock w)) (messages w)\<rparr>)"
  using assms
proof (induction bs arbitrary: w)
  case Nil
  then show ?case by (simp add: ret_def sql_update_def)
next
  case (Cons b bs)
  let ?w = "w\<lparr>messages := sql_update (in_delivery b) (abandoned_row (clock w)) (messages w)\<rparr>"
  have one: "abandonTx b w = (Inr (), ?w)" using Cons.prems by (auto intro: abandon_one)
  have other: "in_delivery b' m \<Longrightarrow> b' \<noteq> b \<Longrightarrow> \<not> in_delivery b m" for b' m by (auto simp: in_delivery_def)
  have "\<forall>b' \<in> set bs. \<exists>m \<in> set (messages ?w). in_delivery b' m"
  proof
    fix b' assume b': "b' \<in> set bs"
    then obtain m where "m \<in> set (messages w)" "in_delivery b' m" using Cons.prems(3) by auto
    moreover have "b' \<noteq> b" using b' Cons.prems(2) by auto
    ultimately show "\<exists>m \<in> set (messages ?w). in_delivery b' m" using other by (force simp: set_sql_update)
  qed
  then have rest: "for_each abandonTx bs ?w = (Inr (), ?w\<lparr>messages := sql_update (\<lambda>m. \<exists>b \<in> set bs. in_delivery b m) (abandoned_row (clock ?w)) (messages ?w)\<rparr>)"
    using Cons.prems by (intro Cons.IH) simp_all
  have "\<not> in_delivery b' (abandoned_row t m)" for b' t m by (simp add: in_delivery_def abandoned_row_def)
  then have "sql_update (\<lambda>m. \<exists>b \<in> set bs. in_delivery b m) (abandoned_row (clock w)) (messages ?w)
      = sql_update (\<lambda>m. \<exists>b \<in> set (b # bs). in_delivery b m) (abandoned_row (clock w)) (messages w)"
    by (auto simp: sql_update_def)
  then show ?case using one rest by (simp add: op_defs)
qed

text \<open>
  A restart resolves every interrupted companion delivery. With a working connection the reconciliation succeeds,
  counts the batches, turns exactly the messages whose delivery had started into the documented failure, and
  leaves every other message as it was; no message is left in delivery.
\<close>

lemma restart_abandons_deliveries:
  assumes "faults w = []"
  shows "ReconcileAbandonedCompanionDeliveries w = (Inr (length (abandoned_batches w)),
      w\<lparr>messages := map (\<lambda>m. if \<exists>b. in_delivery b m then abandoned_row (clock w) m else m) (messages w)\<rparr>)
    \<and> abandoned_batches (snd (ReconcileAbandonedCompanionDeliveries w)) = []"
proof -
  have mem: "b \<in> set (abandoned_batches w) \<longleftrightarrow> (\<exists>m \<in> set (messages w). in_delivery b m)" for b and w :: world
    by (force simp: abandoned_batches_def in_delivery_def map_filter_def)
  have "for_each abandonTx (abandoned_batches w) w
      = (Inr (), w\<lparr>messages := sql_update (\<lambda>m. \<exists>b \<in> set (abandoned_batches w). in_delivery b m) (abandoned_row (clock w)) (messages w)\<rparr>)"
    using assms by (intro abandon_all) (simp, simp add: abandoned_batches_def, simp add: mem)
  moreover have "sql_update (\<lambda>m. \<exists>b \<in> set (abandoned_batches w). in_delivery b m) (abandoned_row (clock w)) (messages w)
      = map (\<lambda>m. if \<exists>b. in_delivery b m then abandoned_row (clock w) m else m) (messages w)"
    by (auto simp: sql_update_def mem)
  ultimately have eq: "ReconcileAbandonedCompanionDeliveries w = (Inr (length (abandoned_batches w)),
      w\<lparr>messages := map (\<lambda>m. if \<exists>b. in_delivery b m then abandoned_row (clock w) m else m) (messages w)\<rparr>)"
    using assms by (simp add: ReconcileAbandonedCompanionDeliveries_def op_defs)
  have "b \<notin> set (abandoned_batches (snd (ReconcileAbandonedCompanionDeliveries w)))" for b
    by (auto simp: mem eq in_delivery_def abandoned_row_def)
  then have "abandoned_batches (snd (ReconcileAbandonedCompanionDeliveries w)) = []" by (metis last_in_set)
  with eq show ?thesis by simp
qed

lemma restart_abandons_deliveries_witness:
  "fst (ReconcileAbandonedCompanionDeliveries (ex_store\<lparr>messages := [start_row ''b'' 0 (ex_row ''m1''), ex_row ''m2'']\<rparr>)) = Inr 1"
  using restart_abandons_deliveries [of "ex_store\<lparr>messages := [start_row ''b'' 0 (ex_row ''m1''), ex_row ''m2'']\<rparr>"]
  by (simp add: abandoned_batches_def start_row_def map_filter_def) (simp add: ex_row_def incoming_row_def)

text \<open>A command's answer overwrites an outcome that was already recorded.\<close>

lemma command_answer_overwrites:
  "map m_status (messages (snd (FailMessage ''m1'' ''late'' ''late'' 1 (ex_store\<lparr>messages := [complete_row ''card'' ''a'' 1 0 (ex_row ''m1'')]\<rparr>)))) = [MsgFailed]"
  by (simp add: FailMessage_def op_defs update_messages_def complete_row_def)

end
