(* ===== verification/Attachment_Store.thy ===== *)
theory Attachment_Store
  imports Message_Store
begin

text \<open>
  Attachments and the ledger of Feishu actions (\<open>internal/storage/attachments.go\<close>). An attachment moves
  from staged through processing to ready or failed, and from there through deleting to deleted; the ledger gives
  every action call of a turn one claim, one start and one recorded result.
\<close>

section \<open>Data\<close>

record AttachmentCompletion =
  AC_ID :: string
  AC_AttemptID :: string
  AC_ObservedMIME :: string
  AC_SHA256 :: string
  AC_SessionID :: string
  AC_RelativePath :: string
  AC_ByteSize :: int
  AC_RetentionDeadline :: go_time

record ExpiredAttachment =
  EA_ID :: string
  EA_State :: string
  EA_WorkspaceDir :: string
  EA_RelativePath :: string
  EA_SessionID :: string
  EA_OriginalNameSafe :: string

record AttachmentRecord =
  AR_ID :: string
  AR_SourceMessageID :: string
  AR_OriginalNameSafe :: string
  AR_DeclaredMIME :: string
  AR_Kind :: string
  AR_SourceResourceRefEnc :: string
  AR_SourceRefKeyVersion :: int

record ActionCall =
  Act_ID :: string
  Act_AppID :: string
  Act_ChannelKey :: string
  Act_ChatGroupID :: string
  Act_ThreadID :: string
  Act_TurnID :: string
  Act_CallID :: string
  Act_Tool :: string
  Act_ArgumentsDigest :: string

datatype ActionClaim = ActionClaimed | ActionConflict

text \<open>\<open>ActionState\<close> is a string type with four constants.\<close>

definition ActionSucceeded :: string where "ActionSucceeded = ''succeeded''"
definition ActionRejected :: string where "ActionRejected = ''rejected''"
definition ActionUnknown :: string where "ActionUnknown = ''unknown''"
definition ActionCancelledBeforeSend :: string where "ActionCancelledBeforeSend = ''cancelled_before_send''"

lemmas ActionState_defs = ActionSucceeded_def ActionRejected_def ActionUnknown_def ActionCancelledBeforeSend_def

definition ActionState_terminal :: "string \<Rightarrow> bool" where
  "ActionState_terminal s \<longleftrightarrow> s = ActionSucceeded \<or> s = ActionRejected \<or> s = ActionUnknown \<or> s = ActionCancelledBeforeSend"

text \<open>The column \<open>state\<close> as the text that is written and read.\<close>

fun action_text :: "action_state \<Rightarrow> string" where
  "action_text ActClaimed = ''claimed''"
| "action_text ActInFlight = ''in_flight''"
| "action_text ActSucceeded = ActionSucceeded"
| "action_text ActRejected = ActionRejected"
| "action_text ActUnknown = ActionUnknown"
| "action_text ActCancelledBeforeSend = ActionCancelledBeforeSend"

definition stored_action :: "string \<Rightarrow> action_state" where
  "stored_action s = (if s = ActionSucceeded then ActSucceeded else if s = ActionRejected then ActRejected
     else if s = ActionCancelledBeforeSend then ActCancelledBeforeSend else ActUnknown)"

lemma action_text_stored: "ActionState_terminal s \<Longrightarrow> action_text (stored_action s) = s"
  by (auto simp: ActionState_terminal_def stored_action_def ActionState_defs)

record ActionResult =
  Res_AppID :: string
  Res_ThreadID :: string
  Res_TurnID :: string
  Res_CallID :: string
  Res_ObjectDigest :: string
  Res_ResultEnc :: string
  Res_ResultKeyVersion :: int
  Res_State :: string

record CompletedAction =
  CA_Tool :: string
  CA_ArgumentsDigest :: string
  CA_ResultEnc :: string
  CA_ResultKeyVersion :: int
  CA_State :: string

definition no_action :: CompletedAction where
  "no_action = \<lparr>CA_Tool = [], CA_ArgumentsDigest = [], CA_ResultEnc = [], CA_ResultKeyVersion = 0, CA_State = []\<rparr>"

section \<open>Statements\<close>

definition update_attachments :: "(attachment_row \<Rightarrow> bool) \<Rightarrow> (attachment_row \<Rightarrow> attachment_row) \<Rightarrow> nat op" where
  "update_attachments p f w = (Inr (sql_affected p f (attachments w)), w\<lparr>attachments := sql_update p f (attachments w)\<rparr>)"

definition update_actions :: "(action_row \<Rightarrow> bool) \<Rightarrow> (action_row \<Rightarrow> action_row) \<Rightarrow> nat op" where
  "update_actions p f w = (Inr (sql_affected p f (feishu_action_calls w)), w\<lparr>feishu_action_calls := sql_update p f (feishu_action_calls w)\<rparr>)"

fun attachment_text :: "attachment_state \<Rightarrow> string" where
  "attachment_text AttStaged = ''staged''"
| "attachment_text AttProcessing = ''processing''"
| "attachment_text AttReady = ''ready''"
| "attachment_text AttFailed = ''failed''"
| "attachment_text AttDeleting = ''deleting''"
| "attachment_text AttDeleted = ''deleted''"

section \<open>Retention\<close>

definition expired :: "go_time \<Rightarrow> attachment_row \<Rightarrow> bool" where
  "expired now a \<longleftrightarrow> (f_state a = AttReady \<or> f_state a = AttFailed)
     \<and> (case f_retention_deadline a of None \<Rightarrow> False | Some d \<Rightarrow> d \<le> now)
     \<and> (case f_lease_until a of None \<Rightarrow> True | Some l \<Rightarrow> l < now)"

text \<open>The join with the group and its app: the workspace of the attachment.\<close>

definition attachment_workspace :: "world \<Rightarrow> attachment_row \<Rightarrow> string option" where
  "attachment_workspace w a = (case sql_first (\<lambda>g. g_id g = f_chat_group_id a) (chat_groups w) of None \<Rightarrow> None
     | Some g \<Rightarrow> (case sql_first (\<lambda>x. a_id x = g_app_id g) (apps w) of None \<Rightarrow> None | Some x \<Rightarrow> Some (a_workspace_dir x)))"

definition expired_record :: "attachment_row \<Rightarrow> string \<Rightarrow> ExpiredAttachment" where
  "expired_record a dir = \<lparr>EA_ID = f_id a, EA_State = attachment_text (f_state a), EA_WorkspaceDir = dir,
     EA_RelativePath = (case f_relative_path a of None \<Rightarrow> [] | Some p \<Rightarrow> p),
     EA_SessionID = (case f_session_id a of None \<Rightarrow> [] | Some s \<Rightarrow> s), EA_OriginalNameSafe = f_original_name a\<rparr>"

definition expired_rows :: "world \<Rightarrow> ExpiredAttachment list" where
  "expired_rows w = List.map_filter (\<lambda>a. map_option (expired_record a) (attachment_workspace w a))
     (sort_key (\<lambda>a. case f_retention_deadline a of None \<Rightarrow> 0 | Some d \<Rightarrow> d) (filter (expired (clock w)) (attachments w)))"

definition ListExpiredAttachments :: "int \<Rightarrow> ExpiredAttachment list op" where
  "ListExpiredAttachments limit =
     (if limit < 1 then fail (Errorf ''expired attachment limit is invalid'')
      else and_then (query (\<lambda>w. take (nat limit) (expired_rows w))) (Wrapf ''list expired attachments'') ret)"

definition ClaimAttachmentDeletion :: "string \<Rightarrow> bool op" where
  "ClaimAttachmentDeletion i =
     and_then (exec (\<lambda>w. update_attachments (\<lambda>a. f_id a = i \<and> expired (clock w) a)
         (\<lambda>a. a\<lparr>f_state := AttDeleting, f_attempt_id := None, f_lease_until := None\<rparr>) w))
       (Wrapf ''claim attachment deletion'') (\<lambda>changed. ret (changed = 1))"

definition CompleteAttachmentDeletion :: "string \<Rightarrow> unit op" where
  "CompleteAttachmentDeletion i =
     and_then (exec (\<lambda>w. update_attachments (\<lambda>a. f_id a = i \<and> f_state a = AttDeleting)
         (\<lambda>a. a\<lparr>f_state := AttDeleted, f_deleted_at := Some (clock w), f_lease_until := None\<rparr>) w))
       (Wrapf ''complete attachment deletion'')
       (\<lambda>changed. if changed \<noteq> 1 then fail (Errorf ''complete attachment deletion: invalid state'') else ret ())"

definition RestoreAttachmentDeletion :: "string \<Rightarrow> string \<Rightarrow> unit op" where
  "RestoreAttachmentDeletion i state =
     (if state \<noteq> ''ready'' \<and> state \<noteq> ''failed'' then fail (Errorf ''restore attachment deletion: invalid state'')
      else and_then (exec (update_attachments (\<lambda>a. f_id a = i \<and> f_state a = AttDeleting)
         (\<lambda>a. a\<lparr>f_state := (if state = ''ready'' then AttReady else AttFailed), f_lease_until := None\<rparr>)))
       (Wrapf ''restore attachment deletion'')
       (\<lambda>changed. if changed \<noteq> 1 then fail (Errorf ''restore attachment deletion: invalid state'') else ret ()))"

section \<open>Actions\<close>

definition same_action :: "string \<Rightarrow> string \<Rightarrow> string \<Rightarrow> string \<Rightarrow> action_row \<Rightarrow> bool" where
  "same_action appID threadID turnID callID x \<longleftrightarrow> x_app_id x = appID \<and> x_thread_id x = threadID \<and> x_turn_id x = turnID \<and> x_call_id x = callID"

definition claimed_action :: "ActionCall \<Rightarrow> action_row" where
  "claimed_action call = \<lparr>x_id = Act_ID call, x_app_id = Act_AppID call, x_channel_key = Act_ChannelKey call,
     x_chat_group_id = Act_ChatGroupID call, x_thread_id = Act_ThreadID call, x_turn_id = Act_TurnID call, x_call_id = Act_CallID call,
     x_tool = Act_Tool call, x_arguments_digest = Act_ArgumentsDigest call, x_state = ActClaimed, x_result = None,
     x_result_key_version = None, x_object_digest = None, x_completed_at = None\<rparr>"

definition action_clash :: "action_row \<Rightarrow> action_row \<Rightarrow> bool" where
  "action_clash x y \<longleftrightarrow> x_id x = x_id y \<or> same_action (x_app_id y) (x_thread_id y) (x_turn_id y) (x_call_id y) x"

definition insert_action :: "action_row \<Rightarrow> unit op" where
  "insert_action x w =
     (if sql_conflict action_clash x (feishu_action_calls w) then (Inl ErrDuplicateKey, w)
      else if \<not> list_ex (\<lambda>a. a_id a = x_app_id x) (apps w) \<or> \<not> list_ex (\<lambda>g. g_id g = x_chat_group_id x) (chat_groups w)
        then (Inl ErrForeignKey, w)
      else (Inr (), w\<lparr>feishu_action_calls := feishu_action_calls w @ [x]\<rparr>))"

definition ClaimAction :: "ActionCall \<Rightarrow> ActionClaim op" where
  "ClaimAction call = attempt (exec (insert_action (claimed_action call))) (\<lambda>answer. case answer of
       Inr _ \<Rightarrow> ret ActionClaimed
     | Inl err \<Rightarrow> if err = ErrDuplicateKey then ret ActionConflict else fail (Wrapf ''claim feishu action'' err))"

definition StartAction :: "string \<Rightarrow> string \<Rightarrow> string \<Rightarrow> string \<Rightarrow> bool op" where
  "StartAction appID threadID turnID callID =
     and_then (exec (update_actions (\<lambda>x. same_action appID threadID turnID callID x \<and> x_state x = ActClaimed) (\<lambda>x. x\<lparr>x_state := ActInFlight\<rparr>)))
       (Wrapf ''start feishu action'') (\<lambda>changed. ret (changed = 1))"

definition open_action :: "action_row \<Rightarrow> bool" where
  "open_action x \<longleftrightarrow> x_state x = ActClaimed \<or> x_state x = ActInFlight"

text \<open>Scanning a NULL key version into an \<open>int\<close> is an error; a NULL result is the empty slice.\<close>

definition GetCompletedAction :: "string \<Rightarrow> string \<Rightarrow> string \<Rightarrow> string \<Rightarrow> (CompletedAction \<times> bool) op" where
  "GetCompletedAction appID threadID turnID callID =
     and_then (query (\<lambda>w. sql_first (\<lambda>x. same_action appID threadID turnID callID x \<and> \<not> open_action x) (feishu_action_calls w)))
       (Wrapf ''get completed feishu action'') (\<lambda>found. case found of
           None \<Rightarrow> ret (no_action, False)
         | Some x \<Rightarrow> (case x_result_key_version x of
               None \<Rightarrow> fail (Wrapf ''get completed feishu action'' (Errorf ''sql: converting NULL to int is unsupported''))
             | Some v \<Rightarrow> ret (\<lparr>CA_Tool = x_tool x, CA_ArgumentsDigest = x_arguments_digest x,
                 CA_ResultEnc = (case x_result x of None \<Rightarrow> [] | Some r \<Rightarrow> r), CA_ResultKeyVersion = v, CA_State = action_text (x_state x)\<rparr>, True)))"

definition finished_action :: "ActionResult \<Rightarrow> go_time \<Rightarrow> action_row \<Rightarrow> action_row" where
  "finished_action result now x = x\<lparr>x_state := stored_action (Res_State result), x_result := Some (Res_ResultEnc result),
     x_result_key_version := Some (Res_ResultKeyVersion result), x_object_digest := nullable (Res_ObjectDigest result), x_completed_at := Some now\<rparr>"

definition CompleteAction :: "ActionResult \<Rightarrow> unit op" where
  "CompleteAction result0 =
     (let result = (if Res_State result0 = [] then result0\<lparr>Res_State := ActionSucceeded\<rparr> else result0) in
      if \<not> ActionState_terminal (Res_State result) then fail (Errorf ''complete feishu action: invalid terminal state'')
      else and_then (exec (\<lambda>w. update_actions
          (\<lambda>x. same_action (Res_AppID result) (Res_ThreadID result) (Res_TurnID result) (Res_CallID result) x \<and> open_action x)
          (finished_action result (clock w)) w)) (Wrapf ''complete feishu action'')
        (\<lambda>changed. if changed \<noteq> 1 then fail (Errorf ''complete feishu action: invalid state'') else ret ()))"

section \<open>Downloads\<close>

definition unfinished :: "attachment_row \<Rightarrow> bool" where
  "unfinished a \<longleftrightarrow> f_state a = AttStaged \<or> f_state a = AttProcessing"

definition GetAttachmentForWorker :: "string \<Rightarrow> AttachmentRecord op" where
  "GetAttachmentForWorker i =
     and_then (query (\<lambda>w. sql_first (\<lambda>a. f_id a = i \<and> unfinished a) (attachments w))) (Wrapf ''get attachment for worker'')
       (\<lambda>found. case found of None \<Rightarrow> fail (Wrapf ''get attachment for worker'' ErrNoRows)
          | Some a \<Rightarrow> (case f_source_key_version a of
                None \<Rightarrow> fail (Wrapf ''get attachment for worker'' (Errorf ''sql: converting NULL to int is unsupported''))
              | Some v \<Rightarrow> ret \<lparr>AR_ID = f_id a, AR_SourceMessageID = f_source_message_id a, AR_OriginalNameSafe = f_original_name a,
                  AR_DeclaredMIME = f_declared_mime a, AR_Kind = f_kind a,
                  AR_SourceResourceRefEnc = (case f_source_ref a of None \<Rightarrow> [] | Some r \<Rightarrow> r), AR_SourceRefKeyVersion = v\<rparr>))"

definition ClaimAttachment :: "string \<Rightarrow> string \<Rightarrow> go_time \<Rightarrow> bool op" where
  "ClaimAttachment i attemptID leaseUntil =
     and_then (exec (update_attachments (\<lambda>a. f_id a = i \<and> f_state a = AttStaged)
         (\<lambda>a. a\<lparr>f_state := AttProcessing, f_attempt_id := Some attemptID, f_lease_until := Some leaseUntil, f_error_code := None\<rparr>)))
       (Wrapf ''claim attachment'') (\<lambda>changed. ret (changed = 1))"

definition attempt_of :: "string \<Rightarrow> string \<Rightarrow> attachment_row \<Rightarrow> bool" where
  "attempt_of i attemptID a \<longleftrightarrow> f_id a = i \<and> f_attempt_id a = Some attemptID \<and> f_state a = AttProcessing"

definition ready_row :: "AttachmentCompletion \<Rightarrow> attachment_row \<Rightarrow> attachment_row" where
  "ready_row c a = a\<lparr>f_state := AttReady, f_observed_mime := Some (AC_ObservedMIME c), f_byte_size := Some (AC_ByteSize c),
     f_sha256 := Some (AC_SHA256 c), f_session_id := Some (AC_SessionID c), f_relative_path := Some (AC_RelativePath c),
     f_retention_deadline := Some (AC_RetentionDeadline c), f_source_ref := None, f_source_key_version := None, f_lease_until := None\<rparr>"

text \<open>The unique key on session and path refuses an update that would repeat a stored path.\<close>

definition update_ready :: "AttachmentCompletion \<Rightarrow> nat op" where
  "update_ready c w =
     (if list_ex (attempt_of (AC_ID c) (AC_AttemptID c)) (attachments w)
        \<and> list_ex (\<lambda>a. f_id a \<noteq> AC_ID c \<and> f_session_id a = Some (AC_SessionID c) \<and> f_relative_path a = Some (AC_RelativePath c)) (attachments w)
      then (Inl ErrDuplicateKey, w)
      else update_attachments (attempt_of (AC_ID c) (AC_AttemptID c)) (ready_row c) w)"

definition CompleteAttachment :: "AttachmentCompletion \<Rightarrow> unit op" where
  "CompleteAttachment completion =
     and_then (exec (update_ready completion)) (Wrapf ''complete attachment'')
       (\<lambda>changed. if changed \<noteq> 1 then fail (Errorf ''complete attachment: invalid state'') else ret ())"

definition FailAttachment :: "string \<Rightarrow> string \<Rightarrow> string \<Rightarrow> go_time \<Rightarrow> unit op" where
  "FailAttachment i attemptID code retentionDeadline =
     and_then (exec (update_attachments (attempt_of i attemptID)
         (\<lambda>a. a\<lparr>f_state := AttFailed, f_error_code := Some code, f_retention_deadline := Some retentionDeadline,
            f_source_ref := None, f_source_key_version := None, f_lease_until := None\<rparr>))) (Wrapf ''fail attachment'')
       (\<lambda>changed. if changed \<noteq> 1 then fail (Errorf ''fail attachment: invalid state'') else ret ())"

definition ReconcileInterruptedAttachments :: "go_time \<Rightarrow> nat op" where
  "ReconcileInterruptedAttachments retentionDeadline =
     (if is_zero_time retentionDeadline then fail (Errorf ''reconcile interrupted attachments: retention deadline is required'')
      else and_then (exec (update_attachments unfinished
         (\<lambda>a. a\<lparr>f_state := AttFailed, f_error_code := Some ''attachment_interrupted'',
            f_retention_deadline := coalesce (f_retention_deadline a) (Some retentionDeadline),
            f_lease_until := None, f_source_ref := None, f_source_key_version := None\<rparr>))) (Wrapf ''reconcile abandoned attachments'') ret)"

section \<open>The lifecycle of an attachment\<close>

definition phase :: "attachment_row \<Rightarrow> nat" where
  "phase a = (case f_state a of AttStaged \<Rightarrow> 0 | AttProcessing \<Rightarrow> 1 | AttDeleted \<Rightarrow> 3 | _ \<Rightarrow> 2)"

definition att_identity :: "attachment_row \<Rightarrow> string \<times> string \<times> string \<times> string \<times> string \<times> string \<times> string" where
  "att_identity a = (f_id a, f_message_id a, f_chat_group_id a, f_kind a, f_source_message_id a, f_original_name a, f_declared_mime a)"

definition stored_content :: "attachment_row \<Rightarrow> string option \<times> int option \<times> string option \<times> string option \<times> string option \<times> go_time option" where
  "stored_content a = (f_observed_mime a, f_byte_size a, f_sha256 a, f_session_id a, f_relative_path a, f_retention_deadline a)"

text \<open>
  A download is attempted once: from staged and processing the phase only grows. What was stored stays until
  deletion, although a failed removal puts the row back to ready or failed; a deleted row is final.
\<close>

definition att_moves :: "attachment_row \<Rightarrow> attachment_row \<Rightarrow> bool" where
  "att_moves x y \<longleftrightarrow> y = x \<or> (att_identity y = att_identity x \<and> phase x < 3 \<and> phase x \<le> phase y
     \<and> (phase x < 2 \<longrightarrow> phase x < phase y) \<and> (2 \<le> phase x \<longrightarrow> stored_content y = stored_content x)
     \<and> (1 \<le> phase x \<longrightarrow> f_attempt_id y = f_attempt_id x \<or> f_attempt_id y = None))"

interpretation atts: ledger_table att_moves "\<lambda>a. phase a = 3" attachments
proof
  fix x y z :: attachment_row and w :: world and fs
  show "att_moves x x" by (simp add: att_moves_def)
  show "att_moves x z" if "att_moves x y" "att_moves y z"
  proof (cases "y = x \<or> z = y")
    case False
    then have xy: "att_identity y = att_identity x" "phase x < 3" "phase x \<le> phase y" "phase x < 2 \<Longrightarrow> phase x < phase y"
        "2 \<le> phase x \<Longrightarrow> stored_content y = stored_content x" "1 \<le> phase x \<Longrightarrow> f_attempt_id y = f_attempt_id x \<or> f_attempt_id y = None"
      and yz: "att_identity z = att_identity y" "phase y < 3" "phase y \<le> phase z"
        "2 \<le> phase y \<Longrightarrow> stored_content z = stored_content y" "1 \<le> phase y \<Longrightarrow> f_attempt_id z = f_attempt_id y \<or> f_attempt_id z = None"
      using that by (simp_all add: att_moves_def)
    have "f_attempt_id z = f_attempt_id x \<or> f_attempt_id z = None" if "1 \<le> phase x"
      using xy(6) [OF that] yz(5) xy(3) that by force
    moreover have "stored_content z = stored_content x" if "2 \<le> phase x" using xy(3,5) yz(4) that by simp
    moreover have "phase x \<le> phase z" "phase x < 2 \<Longrightarrow> phase x < phase z" using xy(3,4) yz(3) by linarith+
    ultimately show ?thesis unfolding att_moves_def using xy(1,2) yz(1) by (metis (full_types))
  qed (use that in auto)
  show "y = x" if "phase x = 3" "att_moves x y" using that by (auto simp: att_moves_def)
  show "attachments (w\<lparr>faults := fs\<rparr>) = attachments w" by simp
qed

section \<open>The lifecycle of an action\<close>

definition action_rank :: "action_row \<Rightarrow> nat" where
  "action_rank x = (case x_state x of ActClaimed \<Rightarrow> 0 | ActInFlight \<Rightarrow> 1 | _ \<Rightarrow> 2)"

definition action_identity :: "action_row \<Rightarrow> string \<times> string \<times> string \<times> string \<times> string \<times> string \<times> string \<times> string \<times> string" where
  "action_identity x = (x_id x, x_app_id x, x_channel_key x, x_chat_group_id x, x_thread_id x, x_turn_id x, x_call_id x, x_tool x, x_arguments_digest x)"

definition action_moves :: "action_row \<Rightarrow> action_row \<Rightarrow> bool" where
  "action_moves x y \<longleftrightarrow> y = x \<or> (action_identity y = action_identity x \<and> action_rank x < action_rank y)"

interpretation acts: ledger_table action_moves "\<lambda>x. \<not> open_action x" feishu_action_calls
proof
  fix x y z :: action_row and w :: world and fs
  show "action_moves x x" by (simp add: action_moves_def)
  show "action_moves x z" if "action_moves x y" "action_moves y z" using that by (auto simp: action_moves_def)
  show "y = x" if "\<not> open_action x" "action_moves x y"
    using that by (auto simp: action_moves_def open_action_def action_rank_def split: action_state.splits)
  show "feishu_action_calls (w\<lparr>faults := fs\<rparr>) = feishu_action_calls w" by simp
qed

section \<open>Keys and the erasure of references\<close>

text \<open>
  The download reference of an attachment is kept only while it is staged or processing; every other row has a
  retention deadline, so the cleaner finds it. Ids are unique, and so are stored paths.
\<close>

definition att_row_ok :: "attachment_row \<Rightarrow> bool" where
  "att_row_ok a \<longleftrightarrow> (if unfinished a then f_session_id a = None else f_source_ref a = None \<and> f_source_key_version a = None \<and> f_retention_deadline a \<noteq> None)"

definition paths_unique :: "attachment_row list \<Rightarrow> bool" where
  "paths_unique as \<longleftrightarrow> (\<forall>x \<in> set as. \<forall>y \<in> set as. f_session_id x \<noteq> None \<and> f_relative_path x \<noteq> None
     \<and> f_session_id x = f_session_id y \<and> f_relative_path x = f_relative_path y \<longrightarrow> f_id x = f_id y)"

definition att_inv :: "world \<Rightarrow> bool" where
  "att_inv w \<longleftrightarrow> distinct (map f_id (attachments w)) \<and> (\<forall>a \<in> set (attachments w). att_row_ok a) \<and> paths_unique (attachments w)
     \<and> distinct (map x_id (feishu_action_calls w))
     \<and> distinct (map (\<lambda>x. (x_app_id x, x_thread_id x, x_turn_id x, x_call_id x)) (feishu_action_calls w))"

abbreviation att_rel :: "world \<Rightarrow> world \<Rightarrow> bool" where
  "att_rel w w' \<equiv> evolves att_moves (attachments w) (attachments w') \<and> evolves action_moves (feishu_action_calls w) (feishu_action_calls w')
     \<and> (att_inv w \<longrightarrow> att_inv w')"

interpretation att: world_relation att_rel
proof
  fix w w1 w2 w3 :: world and fs
  show "att_rel w w" by (simp add: atts.evolves_refl acts.evolves_refl)
  show "att_rel w1 w3" if "att_rel w1 w2" "att_rel w2 w3" using that atts.evolves_trans acts.evolves_trans by blast
  show "att_rel w (w\<lparr>faults := fs\<rparr>)" by (simp add: att_inv_def atts.evolves_refl acts.evolves_refl)
qed

lemmas evolves_refls = atts.evolves_refl acts.evolves_refl

lemma att_keep:
  assumes "\<And>w. attachments (snd (m w)) = attachments w \<and> feishu_action_calls (snd (m w)) = feishu_action_calls w"
  shows "preserves att_rel m"
  by (rule preservesI) (simp add: assms evolves_refls att_inv_def)

text \<open>An update of attachments that follows the lifecycle and writes no path.\<close>

lemma att_update:
  assumes "\<And>w a. p w a \<Longrightarrow> att_moves a (f w a)" and "\<And>w a. p w a \<Longrightarrow> att_row_ok a \<Longrightarrow> att_row_ok (f w a)"
    and "\<And>w a. p w a \<Longrightarrow> f_session_id (f w a) = f_session_id a \<and> f_relative_path (f w a) = f_relative_path a"
  shows "preserves att_rel (exec (\<lambda>w. update_attachments (p w) (f w) w))"
proof (rule att.preserves_exec, rule preservesI)
  fix w
  let ?u = "\<lambda>a. if p w a then f w a else a"
  have ids: "f_id (f w a) = f_id a" if "p w a" for a using assms(1) [OF that] by (auto simp: att_moves_def att_identity_def)
  have u: "f_id (?u a) = f_id a" "f_session_id (?u a) = f_session_id a" "f_relative_path (?u a) = f_relative_path a" for a
    using assms(3) ids by simp_all
  have "paths_unique (sql_update (p w) (f w) as) = paths_unique as" for as
    unfolding paths_unique_def set_sql_update by (simp only: ball_simps u)
  then have "att_inv w \<Longrightarrow> att_inv (snd (update_attachments (p w) (f w) w))"
    using assms(2) by (auto simp: att_inv_def update_attachments_def map_sql_update ids set_sql_update)
  then show "att_rel w (snd (update_attachments (p w) (f w) w))"
    by (simp add: update_attachments_def evolves_refls atts.evolves_update assms(1))
qed

lemma att_actions:
  assumes "\<And>w x. p w x \<Longrightarrow> action_moves x (f w x)"
  shows "preserves att_rel (exec (\<lambda>w. update_actions (p w) (f w) w))"
proof (rule att.preserves_exec, rule preservesI)
  fix w
  have "action_identity (f w x) = action_identity x" if "p w x" for x using assms [OF that] by (auto simp: action_moves_def)
  then show "att_rel w (snd (update_actions (p w) (f w) w))"
    by (simp add: update_actions_def evolves_refls acts.evolves_update assms att_inv_def map_sql_update action_identity_def)
qed

lemma att_ready: "preserves att_rel (exec (update_ready c))"
proof (rule att.preserves_exec, rule preservesI)
  fix w
  let ?p = "attempt_of (AC_ID c) (AC_AttemptID c)"
  show "att_rel w (snd (update_ready c w))"
  proof (cases "list_ex ?p (attachments w)
      \<and> list_ex (\<lambda>a. f_id a \<noteq> AC_ID c \<and> f_session_id a = Some (AC_SessionID c) \<and> f_relative_path a = Some (AC_RelativePath c)) (attachments w)")
    case True
    then show ?thesis by (simp add: update_ready_def evolves_refls)
  next
    case False
    then have out: "snd (update_ready c w) = w\<lparr>attachments := sql_update ?p (ready_row c) (attachments w)\<rparr>"
      by (auto simp: update_ready_def update_attachments_def)
    have free: "f_id b = AC_ID c" if "a \<in> set (attachments w)" "?p a" "b \<in> set (attachments w)"
      "f_session_id b = Some (AC_SessionID c)" "f_relative_path b = Some (AC_RelativePath c)" for a b
      using False that by (auto simp: list_ex_iff)
    have "paths_unique (sql_update ?p (ready_row c) (attachments w))" if pu: "paths_unique (attachments w)"
      unfolding paths_unique_def set_sql_update
    proof (intro ballI impI, elim imageE)
      fix x y a b
      assume ab: "a \<in> set (attachments w)" "b \<in> set (attachments w)" and xy: "x = (if ?p a then ready_row c a else a)"
        "y = (if ?p b then ready_row c b else b)"
        and same: "f_session_id x \<noteq> None \<and> f_relative_path x \<noteq> None \<and> f_session_id x = f_session_id y \<and> f_relative_path x = f_relative_path y"
      have ready: "f_id (ready_row c z) = f_id z" "f_session_id (ready_row c z) = Some (AC_SessionID c)"
        "f_relative_path (ready_row c z) = Some (AC_RelativePath c)" for z by (simp_all add: ready_row_def)
      have id: "?p z \<Longrightarrow> f_id z = AC_ID c" for z by (simp add: attempt_of_def)
      show "f_id x = f_id y"
      proof (cases "?p a"; cases "?p b")
        assume "\<not> ?p a" "\<not> ?p b"
        then show ?thesis using pu ab xy same by (auto simp: paths_unique_def)
      qed (use ab xy same free id ready in simp_all)
    qed
    moreover have "map f_id (sql_update ?p (ready_row c) (attachments w)) = map f_id (attachments w)"
      by (rule map_sql_update) (simp add: ready_row_def)
    moreover have "att_row_ok (ready_row c a)" for a by (simp add: att_row_ok_def ready_row_def unfinished_def)
    moreover have "att_moves a (ready_row c a)" if "?p a" for a
      using that by (simp add: att_moves_def ready_row_def attempt_of_def att_identity_def phase_def)
    ultimately show ?thesis by (auto simp: out att_inv_def evolves_refls atts.evolves_update set_sql_update)
  qed
qed

lemma att_insert_action: "preserves att_rel (exec (insert_action x))"
  by (rule att.preserves_exec, rule preservesI)
    (auto simp: insert_action_def evolves_refls acts.evolves_append att_inv_def sql_conflict_def action_clash_def same_action_def)

text \<open>A staged attachment has no session yet, so it repeats no path.\<close>

lemma att_insert_staged: "preserves att_rel (exec (insert_attachment (staged_row i g a)))"
proof (rule att.preserves_exec, rule preservesI)
  fix w :: world
  have "paths_unique (attachments w) \<Longrightarrow> paths_unique (attachments w @ [staged_row i g a])"
    by (auto simp: paths_unique_def staged_row_def)
  moreover have "att_row_ok (staged_row i g a)" by (simp add: att_row_ok_def unfinished_def staged_row_def)
  ultimately show "att_rel w (snd (insert_attachment (staged_row i g a) w))"
    by (auto simp: insert_attachment_def evolves_refls atts.evolves_append att_inv_def sql_conflict_def staged_row_def)
qed

lemma att_other_stmts: "preserves att_rel (exec (upsert_group g a t c))" "preserves att_rel (exec (insert_message m))"
  by (rule att.preserves_exec, rule att_keep, simp add: upsert_group_def insert_message_def)+

lemma att_updates:
  assumes "\<And>a. p a \<Longrightarrow> att_moves a (f a)" and "\<And>a. p a \<Longrightarrow> att_row_ok a \<Longrightarrow> att_row_ok (f a)"
    and "\<And>a. p a \<Longrightarrow> f_session_id (f a) = f_session_id a \<and> f_relative_path (f a) = f_relative_path a"
  shows "preserves att_rel (exec (update_attachments p f))"
  using att_update [of "\<lambda>_. p" "\<lambda>_. f"] assms by simp

lemma att_action_updates:
  assumes "\<And>x. p x \<Longrightarrow> action_moves x (f x)"
  shows "preserves att_rel (exec (update_actions p f))"
  using att_actions [of "\<lambda>_. p" "\<lambda>_. f"] assms by simp

lemmas att_row_simps = att_moves_def att_identity_def stored_content_def phase_def att_row_ok_def unfinished_def attempt_of_def expired_def coalesce_def

lemma att_ops:
  "preserves att_rel (PersistIncoming g now a t c input)" "preserves att_rel (ListExpiredAttachments limit)"
  "preserves att_rel (ClaimAttachmentDeletion i)" "preserves att_rel (CompleteAttachmentDeletion i)"
  "preserves att_rel (RestoreAttachmentDeletion i state)"
  "preserves att_rel (GetAttachmentForWorker i)" "preserves att_rel (ClaimAttachment i k l)" "preserves att_rel (CompleteAttachment done_now)"
  "preserves att_rel (FailAttachment i k code d)" "preserves att_rel (ReconcileInterruptedAttachments d)"
  unfolding PersistIncoming_def persistTx_def ListExpiredAttachments_def ClaimAttachmentDeletion_def CompleteAttachmentDeletion_def
    RestoreAttachmentDeletion_def GetAttachmentForWorker_def ClaimAttachment_def CompleteAttachment_def FailAttachment_def
    ReconcileInterruptedAttachments_def
  by (intro att.preserves_intros att_update att_updates att_ready att_insert_staged att_other_stmts;
      auto simp: att_row_simps split: option.splits)+

lemma action_ops:
  "preserves att_rel (ClaimAction call)" "preserves att_rel (StartAction a t u c)" "preserves att_rel (GetCompletedAction a t u c)"
  "preserves att_rel (CompleteAction result)"
  unfolding ClaimAction_def StartAction_def GetCompletedAction_def CompleteAction_def Let_def
  by (intro att.preserves_intros att_actions att_action_updates att_insert_action;
      auto simp: action_moves_def action_identity_def action_rank_def finished_action_def open_action_def stored_action_def)+

section \<open>Steps\<close>

inductive att_step :: "world \<Rightarrow> world \<Rightarrow> bool" where
  elsewhere: "attachments w' = attachments w \<Longrightarrow> feishu_action_calls w' = feishu_action_calls w \<Longrightarrow> att_step w w'"
| persist: "att_step w (snd (PersistIncoming g now a t c input w))"
| claim_deletion: "att_step w (snd (ClaimAttachmentDeletion i w))"
| complete_deletion: "att_step w (snd (CompleteAttachmentDeletion i w))"
| restore_deletion: "att_step w (snd (RestoreAttachmentDeletion i state w))"
| claim: "att_step w (snd (ClaimAttachment i k l w))"
| complete: "att_step w (snd (CompleteAttachment done_now w))"
| failure: "att_step w (snd (FailAttachment i k code d w))"
| restart: "att_step w (snd (ReconcileInterruptedAttachments d w))"
| claim_action: "att_step w (snd (ClaimAction call w))"
| start_action: "att_step w (snd (StartAction a t u c w))"
| complete_action: "att_step w (snd (CompleteAction result w))"

lemma att_step_rel: "att_step w w' \<Longrightarrow> att_rel w w'"
  by (induction rule: att_step.induct)
    (simp add: evolves_refls att_inv_def, (rule att_ops [THEN preservesD] action_ops [THEN preservesD])+)

lemma att_steps_rel: "att_step\<^sup>*\<^sup>* w w' \<Longrightarrow> att_rel w w'"
  by (rule att.rel_rtranclp [of att_step]) (rule att_step_rel)

section \<open>Answers of the guarded updates\<close>

lemma claim_attachment_True:
  assumes "ClaimAttachment i k l w = (Inr True, w')"
  obtains a where "a \<in> set (attachments w')" "f_id a = i" "phase a = 1" "f_attempt_id a = Some k"
proof -
  let ?f = "\<lambda>a. a\<lparr>f_state := AttProcessing, f_attempt_id := Some k, f_lease_until := Some l, f_error_code := None\<rparr>"
  from assms have "0 < sql_affected (\<lambda>a. f_id a = i \<and> f_state a = AttStaged) ?f (attachments w)"
    and w': "attachments w' = sql_update (\<lambda>a. f_id a = i \<and> f_state a = AttStaged) ?f (attachments w)"
    by (auto simp: ClaimAttachment_def op_Inr update_attachments_def)
  from sql_affected_pos_ex [OF this(1)] obtain a where "a \<in> set (attachments w)" "f_id a = i" "f_state a = AttStaged" by blast
  then have "?f a \<in> set (attachments w')" by (auto simp: w' set_sql_update intro!: image_eqI [of _ _ a])
  then show thesis using that [of "?f a"] \<open>f_id a = i\<close> by (simp add: phase_def)
qed

text \<open>A guarded update that no row meets changes nothing and is reported, whatever the connection does.\<close>

lemma unmet_attachments:
  "(\<And>a. a \<in> set (attachments w) \<Longrightarrow> \<not> p a) \<Longrightarrow> update_attachments p f (pop_fault w) = (Inr 0, pop_fault w)"
  by (simp add: update_attachments_def sql_update_id sql_affected_0)

lemma unmet_actions:
  "(\<And>x. x \<in> set (feishu_action_calls w) \<Longrightarrow> \<not> p x) \<Longrightarrow> update_actions p f (pop_fault w) = (Inr 0, pop_fault w)"
  by (simp add: update_actions_def sql_update_id sql_affected_0)

lemma refused_claim:
  assumes "stmt (pop_fault w) = (Inr (0::nat), pop_fault w)"
  shows "quiet (snd (and_then (exec stmt) wrap (\<lambda>n. ret (n = 1)) w)) = quiet w" "fst (and_then (exec stmt) wrap (\<lambda>n. ret (n = 1)) w) \<noteq> Inr True"
  by (simp_all add: exec_def assms op_defs split: fault.split)

lemma refused_update:
  assumes "stmt (pop_fault w) = (Inr (0::nat), pop_fault w)"
  shows "quiet (snd (and_then (exec stmt) wrap (\<lambda>n. if n \<noteq> 1 then fail err else ret ()) w)) = quiet w"
    "\<exists>e. fst (and_then (exec stmt) wrap (\<lambda>n. if n \<noteq> 1 then fail err else ret ()) w) = Inl e"
  by (simp_all add: exec_def assms op_defs split: fault.split)

section \<open>Concrete inputs\<close>

definition ex_attachment :: attachment_row where
  "ex_attachment = staged_row ''m1'' ''g'' \<lparr>In_ID = ''f1'', In_Kind = ''file'', In_SourceResourceRefEnc = ''enc'', In_SourceRefKeyVersion = 1,
     In_SourceMessageID = ''om'', In_OriginalNameSafe = ''a.txt'', In_DeclaredMIME = ''text/plain''\<rparr>"

definition ex_files :: world where
  "ex_files = ex_store\<lparr>attachments := [ex_attachment]\<rparr>"

definition ex_action :: ActionCall where
  "ex_action = \<lparr>Act_ID = ''x1'', Act_AppID = ''app'', Act_ChannelKey = ''k'', Act_ChatGroupID = ''g'', Act_ThreadID = ''t'', Act_TurnID = ''u'',
     Act_CallID = ''c'', Act_Tool = ''tool'', Act_ArgumentsDigest = ''d''\<rparr>"

lemma ex_files_simps [simp]:
  "attachments ex_files = [ex_attachment]" "feishu_action_calls ex_files = []" "faults ex_files = []" "clock ex_files = 0"
  "f_id ex_attachment = ''f1''" "f_state ex_attachment = AttStaged"
  by (simp_all add: ex_files_def ex_store_def empty_world_def ex_attachment_def staged_row_def)

lemma ex_files_inv: "att_inv ex_files"
  by (simp add: att_inv_def att_row_ok_def paths_unique_def unfinished_def) (simp add: ex_attachment_def staged_row_def)

section \<open>Properties\<close>

text \<open>
  C14: One attempt owns a download. Once a claim of an attachment has succeeded, then after any sequence of steps
  every further claim is refused and changes nothing, and a completion or failure reported by another attempt is an
  error that changes nothing.
\<close>

theorem attachment_claimed_once:
  assumes "att_inv w" and "ClaimAttachment i k l w = (Inr True, w1)" and "att_step\<^sup>*\<^sup>* w1 w2" and "k' \<noteq> k"
  shows "fst (ClaimAttachment i k'' l' w2) \<noteq> Inr True \<and> quiet (snd (ClaimAttachment i k'' l' w2)) = quiet w2
    \<and> (\<exists>e. fst (FailAttachment i k' code d w2) = Inl e) \<and> quiet (snd (FailAttachment i k' code d w2)) = quiet w2
    \<and> (AC_ID c = i \<and> AC_AttemptID c = k' \<longrightarrow>
        (\<exists>e. fst (CompleteAttachment c w2) = Inl e) \<and> quiet (snd (CompleteAttachment c w2)) = quiet w2)"
proof -
  obtain a where a: "a \<in> set (attachments w1)" "f_id a = i" "phase a = 1" "f_attempt_id a = Some k"
    using claim_attachment_True [OF assms(2)] .
  have inv: "att_inv w2" using att_steps_rel [OF assms(3)] preservesD [OF att_ops(7) [of i k l], of w] assms(1,2) by simp
  obtain b where b: "b \<in> set (attachments w2)" "att_moves a b" using atts.evolves_moves att_steps_rel [OF assms(3)] a(1) by blast
  then have b': "f_id b = i" "1 \<le> phase b" "f_attempt_id b = Some k \<or> f_attempt_id b = None"
    using a by (auto simp: att_moves_def att_identity_def)
  have only: "x = b" if "x \<in> set (attachments w2)" "f_id x = i" for x
    using distinct_key_unique [of f_id "attachments w2"] inv that b(1) b'(1) by (simp add: att_inv_def)
  have not_staged: "\<not> (f_id x = i \<and> f_state x = AttStaged)" if "x \<in> set (attachments w2)" for x
    using only [OF that] b'(2) by (auto simp: phase_def)
  have not_other: "\<not> attempt_of i k' x" if "x \<in> set (attachments w2)" for x
    using only [OF that] b'(3) assms(4) by (auto simp: attempt_of_def)
  have ready: "update_ready c (pop_fault w2) = (Inr 0, pop_fault w2)" if "AC_ID c = i" "AC_AttemptID c = k'"
    using not_other unmet_attachments [of w2 "attempt_of i k'"] that by (auto simp: update_ready_def list_ex_iff)
  show ?thesis unfolding ClaimAttachment_def FailAttachment_def CompleteAttachment_def
    by (intro conjI impI; (elim conjE)?; intro refused_claim refused_update unmet_attachments ready not_staged not_other; assumption?)
qed

theorem attachment_claimed_once_witness:
  "fst (ClaimAttachment ''f1'' ''k2'' 9 (snd (ClaimAttachment ''f1'' ''k1'' 5 ex_files))) \<noteq> Inr True"
proof -
  have "fst (ClaimAttachment ''f1'' ''k1'' 5 ex_files) = Inr True"
    by (simp add: ClaimAttachment_def op_defs update_attachments_def) (simp add: ex_attachment_def staged_row_def)
  then have "ClaimAttachment ''f1'' ''k1'' 5 ex_files = (Inr True, snd (ClaimAttachment ''f1'' ''k1'' 5 ex_files))" by (metis prod.collapse)
  from attachment_claimed_once [OF ex_files_inv this rtranclp.rtrancl_refl [of att_step], of "''k2''"] show ?thesis by simp
qed

text \<open>
  C15: References are erased and files are never forgotten. After any sequence of steps every attachment that is no longer
  waiting for its download has lost its encrypted download reference and has a retention deadline, and no two
  attachments are stored at the same path of a session.
\<close>

theorem references_erased:
  assumes "att_inv w" and "att_step\<^sup>*\<^sup>* w w'"
  shows "(\<forall>a \<in> set (attachments w'). \<not> unfinished a \<longrightarrow> f_source_ref a = None \<and> f_source_key_version a = None \<and> f_retention_deadline a \<noteq> None)
    \<and> (\<forall>a \<in> set (attachments w'). \<forall>b \<in> set (attachments w'). f_session_id a = f_session_id b \<and> f_relative_path a = f_relative_path b
        \<and> f_session_id a \<noteq> None \<and> f_relative_path a \<noteq> None \<longrightarrow> a = b)"
proof -
  have inv: "att_inv w'" using att_steps_rel [OF assms(2)] assms(1) by blast
  then have only: "a = b" if "a \<in> set (attachments w')" "b \<in> set (attachments w')" "f_id a = f_id b" for a b
    using distinct_key_unique [of f_id "attachments w'"] that by (simp add: att_inv_def)
  have paths: "paths_unique (attachments w')" and rows: "\<forall>a \<in> set (attachments w'). att_row_ok a" using inv by (simp_all add: att_inv_def)
  show ?thesis
  proof (intro conjI ballI impI)
    fix a assume "a \<in> set (attachments w')" "\<not> unfinished a"
    then show "f_source_ref a = None" "f_source_key_version a = None" "f_retention_deadline a \<noteq> None"
      using rows by (auto simp: att_row_ok_def)
  next
    fix a b assume ab: "a \<in> set (attachments w')" "b \<in> set (attachments w')"
      and same: "f_session_id a = f_session_id b \<and> f_relative_path a = f_relative_path b \<and> f_session_id a \<noteq> None \<and> f_relative_path a \<noteq> None"
    have "f_id a = f_id b" using paths ab same unfolding paths_unique_def by blast
    then show "a = b" by (rule only [OF ab])
  qed
qed

theorem references_erased_witness:
  "\<not> (\<exists>a \<in> set (attachments (snd (ReconcileInterruptedAttachments 9 ex_files))). \<not> unfinished a \<and> f_source_ref a \<noteq> None)"
proof -
  have "att_step ex_files (snd (ReconcileInterruptedAttachments 9 ex_files))" by (rule att_step.restart)
  note r = conjunct1 [OF references_erased [OF ex_files_inv r_into_rtranclp [of att_step, OF this]]]
  show ?thesis
  proof (rule notI, elim bexE conjE)
    fix a assume a: "a \<in> set (attachments (snd (ReconcileInterruptedAttachments 9 ex_files)))" "\<not> unfinished a" "f_source_ref a \<noteq> None"
    have "f_source_ref a = None" by (rule conjunct1 [OF mp [OF bspec [OF r a(1)] a(2)]])
    with a(3) show False by (rule notE)
  qed
qed

text \<open>After the start of a claimed call has succeeded, no further start of that call succeeds or changes anything.\<close>

lemma started_once:
  assumes "att_inv w" and "StartAction a t u c w = (Inr True, w1)" and "att_step\<^sup>*\<^sup>* w1 w2"
  shows "fst (StartAction a t u c w2) \<noteq> Inr True \<and> quiet (snd (StartAction a t u c w2)) = quiet w2"
proof -
  let ?p = "\<lambda>x. same_action a t u c x \<and> x_state x = ActClaimed"
  from assms(2) have "0 < sql_affected ?p (\<lambda>x. x\<lparr>x_state := ActInFlight\<rparr>) (feishu_action_calls w)"
    and w1: "feishu_action_calls w1 = sql_update ?p (\<lambda>x. x\<lparr>x_state := ActInFlight\<rparr>) (feishu_action_calls w)"
    by (auto simp: StartAction_def op_Inr update_actions_def)
  from sql_affected_pos_ex [OF this(1)] obtain x where x: "x \<in> set (feishu_action_calls w)" "?p x" by blast
  have x1: "x\<lparr>x_state := ActInFlight\<rparr> \<in> set (feishu_action_calls w1)"
    using x by (auto simp: w1 set_sql_update intro!: image_eqI [of _ _ x])
  have inv: "att_inv w2" using att_steps_rel [OF assms(3)] preservesD [OF action_ops(2) [of a t u c], of w] assms(1,2) by simp
  obtain y where y: "y \<in> set (feishu_action_calls w2)" "action_moves (x\<lparr>x_state := ActInFlight\<rparr>) y"
    using acts.evolves_moves att_steps_rel [OF assms(3)] x1 by blast
  then have y': "same_action a t u c y" "x_state y \<noteq> ActClaimed"
    using x(2) by (auto simp: action_moves_def action_identity_def same_action_def action_rank_def split: action_state.splits)
  have "z = y" if "z \<in> set (feishu_action_calls w2)" "same_action a t u c z" for z
    using distinct_key_unique [of "\<lambda>x. (x_app_id x, x_thread_id x, x_turn_id x, x_call_id x)" "feishu_action_calls w2"] inv that y(1) y'(1)
    by (simp add: att_inv_def same_action_def)
  then have none: "\<not> ?p z" if "z \<in> set (feishu_action_calls w2)" for z using that y'(2) by blast
  show ?thesis unfolding StartAction_def by (intro conjI refused_claim unmet_actions none)
qed

text \<open>
  Once a call has a result, the lookup answers exactly that result and state, and a further completion is refused and changes nothing.
\<close>

lemma completed_action_final:
  assumes "att_inv w" and "x \<in> set (feishu_action_calls w)" and "same_action a t u c x" and "\<not> open_action x"
    and "x_result_key_version x = Some v" and "x_result x = Some enc" and "att_step\<^sup>*\<^sup>* w w'"
    and "Res_AppID res = a \<and> Res_ThreadID res = t \<and> Res_TurnID res = u \<and> Res_CallID res = c"
  shows "(faults w' = [] \<longrightarrow> GetCompletedAction a t u c w' = (Inr (\<lparr>CA_Tool = x_tool x, CA_ArgumentsDigest = x_arguments_digest x,
        CA_ResultEnc = enc, CA_ResultKeyVersion = v, CA_State = action_text (x_state x)\<rparr>, True), w'))
    \<and> (\<exists>e. fst (CompleteAction res w') = Inl e) \<and> quiet (snd (CompleteAction res w')) = quiet w'"
proof -
  have mem: "x \<in> set (feishu_action_calls w')" using acts.evolves_final att_steps_rel [OF assms(7)] assms(2,4) by blast
  have d: "distinct (map (\<lambda>x. (x_app_id x, x_thread_id x, x_turn_id x, x_call_id x)) (feishu_action_calls w'))"
    using att_steps_rel [OF assms(7)] assms(1) by (simp add: att_inv_def)
  have only: "y = x" if "y \<in> set (feishu_action_calls w')" "same_action a t u c y" for y
    using distinct_key_unique [OF d that(1) mem] that(2) assms(3) by (simp add: same_action_def)
  have "sql_first (\<lambda>y. same_action a t u c y \<and> \<not> open_action y) (feishu_action_calls w') = Some x"
    by (rule sql_first_key [where p = "\<lambda>y. same_action a t u c y \<and> \<not> open_action y", OF d mem]) (use assms(3,4) only in auto)
  then have get: "faults w' = [] \<longrightarrow> GetCompletedAction a t u c w' = (Inr (\<lparr>CA_Tool = x_tool x, CA_ArgumentsDigest = x_arguments_digest x,
        CA_ResultEnc = enc, CA_ResultKeyVersion = v, CA_State = action_text (x_state x)\<rparr>, True), w')"
    using assms(5,6) by (simp add: GetCompletedAction_def op_defs)
  have none: "\<not> (same_action a t u c y \<and> open_action y)" if "y \<in> set (feishu_action_calls w')" for y using only [OF that] assms(4) by blast
  have refused: "quiet (snd (CompleteAction res w')) = quiet w' \<and> (\<exists>e. fst (CompleteAction res w') = Inl e)"
  proof (cases "ActionState_terminal (if Res_State res = [] then ActionSucceeded else Res_State res)")
    case True
    have "(\<lambda>w. update_actions (\<lambda>y. same_action a t u c y \<and> open_action y) (g (clock w)) w) (pop_fault w') = (Inr 0, pop_fault w')" for g
      using unmet_actions [of w' "\<lambda>y. same_action a t u c y \<and> open_action y", OF none] by simp
    then show ?thesis using True assms(8) by (auto simp: CompleteAction_def Let_def simp del: One_nat_def intro!: refused_update)
  next
    case False
    then show ?thesis by (simp add: CompleteAction_def Let_def fail_def if_distrib)
  qed
  show ?thesis using get refused by blast
qed

text \<open>
  A restart settles every download. With a working connection the reconciliation answers how many attachments were
  still waiting, turns exactly those into the documented failure with a retention deadline and without their
  reference, and leaves none waiting.
\<close>

lemma restart_settles_attachments:
  assumes "faults w = []" and "\<not> is_zero_time d"
  shows "fst (ReconcileInterruptedAttachments d w) = Inr (length (filter unfinished (attachments w)))
    \<and> (\<forall>a \<in> set (attachments (snd (ReconcileInterruptedAttachments d w))). \<not> unfinished a)
    \<and> (\<forall>a \<in> set (attachments w). \<not> unfinished a \<longrightarrow> a \<in> set (attachments (snd (ReconcileInterruptedAttachments d w))))"
proof -
  let ?f = "\<lambda>a. a\<lparr>f_state := AttFailed, f_error_code := Some ''attachment_interrupted'',
     f_retention_deadline := coalesce (f_retention_deadline a) (Some d), f_lease_until := None, f_source_ref := None, f_source_key_version := None\<rparr>"
  have moved: "\<not> unfinished (?f a)" for a :: attachment_row by (simp add: unfinished_def)
  then have "unfinished a \<Longrightarrow> ?f a \<noteq> a" for a by metis
  then have "sql_affected unfinished ?f (attachments w) = length (filter unfinished (attachments w))"
    by (simp add: sql_affected_def cong: conj_cong)
  then show ?thesis using assms moved
    by (auto simp: ReconcileInterruptedAttachments_def op_defs update_attachments_def set_sql_update image_iff)
qed

lemma restart_settles_attachments_witness:
  "fst (ReconcileInterruptedAttachments 9 ex_files) = Inr 1"
  using restart_settles_attachments [of ex_files 9] by (simp add: is_zero_time_def zero_time_def unfinished_def)

end
