(* ===== verification/Key_Protectors.thy ===== *)
theory Key_Protectors
  imports Go_Strings
begin

text \<open>
  The two keyrings that seal short-lived secrets: \<open>ReferenceProtector\<close> (\<open>internal/attachment/reference.go\<close>,
  Feishu resource keys) and \<open>ResultProtector\<close> (\<open>internal/feishuaction/crypto.go\<close>, action results). AES-GCM
  and the random nonce are parameters: \<open>aead_correct\<close> states that GCM opens what it sealed under the
  same key, nonce and additional data.
\<close>

section \<open>AES-GCM\<close>

record aead =
  gcm_seal :: "string \<Rightarrow> string \<Rightarrow> string \<Rightarrow> string \<Rightarrow> string"
  gcm_open :: "string \<Rightarrow> string \<Rightarrow> string \<Rightarrow> string \<Rightarrow> string option"

definition aead_correct :: "aead \<Rightarrow> bool" where
  "aead_correct g \<longleftrightarrow> (\<forall>key nonce text data. gcm_open g key nonce (gcm_seal g key nonce text data) data = Some text)"

abbreviation NonceSize :: nat where
  "NonceSize \<equiv> 12"

text \<open>\<open>aes.NewCipher\<close> accepts keys of 16, 24 and 32 bytes.\<close>

definition NewCipher :: "string \<Rightarrow> string res" where
  "NewCipher key = (if length key = 16 \<or> length key = 24 \<or> length key = 32 then Inr key
     else Inl (Errorf (''crypto/aes: invalid key size '' @ digits (length key))))"

text \<open>\<open>io.ReadFull(rand.Reader, nonce)\<close> fills the nonce or fails.\<close>

type_synonym nonce_source = "string res"

definition nonce_ok :: "nonce_source \<Rightarrow> bool" where
  "nonce_ok r \<longleftrightarrow> (case r of Inl _ \<Rightarrow> True | Inr n \<Rightarrow> length n = NonceSize)"

record KeyConfig =
  KC_Version :: int
  KC_Key :: string

type_synonym key_map = "int \<Rightarrow> string option"

text \<open>A missing entry of a Go map reads as the empty slice.\<close>

definition key_of :: "key_map \<Rightarrow> int \<Rightarrow> string" where
  "key_of ks v = (case ks v of None \<Rightarrow> [] | Some k \<Rightarrow> k)"

section \<open>Resource references\<close>

record ReferenceProtector =
  RP_keys :: key_map
  RP_activeVersion :: int

fun reference_keys :: "KeyConfig list \<Rightarrow> ReferenceProtector \<Rightarrow> ReferenceProtector res" where
  "reference_keys [] p = Inr p"
| "reference_keys (e # es) p =
     (if KC_Version e < 1 \<or> length (KC_Key e) \<noteq> 32
        then Inl (Errorf (''invalid attachment reference key version '' @ sprint_int (KC_Version e)))
      else if RP_keys p (KC_Version e) \<noteq> None
        then Inl (Errorf (''duplicate attachment reference key version '' @ sprint_int (KC_Version e)))
      else reference_keys es \<lparr>RP_keys = (RP_keys p)(KC_Version e \<mapsto> KC_Key e),
        RP_activeVersion = (if KC_Version e > RP_activeVersion p then KC_Version e else RP_activeVersion p)\<rparr>)"

definition NewReferenceProtector :: "KeyConfig list \<Rightarrow> ReferenceProtector res" where
  "NewReferenceProtector keyring =
     (if keyring = [] then Inl (Errorf ''attachment reference keyring is empty'')
      else reference_keys keyring \<lparr>RP_keys = Map.empty, RP_activeVersion = 0\<rparr>)"

definition referenceAAD :: "string \<Rightarrow> string \<Rightarrow> string \<Rightarrow> string" where
  "referenceAAD appID attachmentID sourceMessageID = appID @ ''|'' @ attachmentID @ ''|'' @ sourceMessageID"

definition Reference_Seal :: "aead \<Rightarrow> nonce_source \<Rightarrow> ReferenceProtector \<Rightarrow> string \<Rightarrow> string \<Rightarrow> string \<Rightarrow> string \<Rightarrow> (string \<times> int) res" where
  "Reference_Seal g rand p appID attachmentID sourceMessageID resourceKey =
     (if resourceKey = [] then Inl (Errorf ''resource key is required'')
      else case NewCipher (key_of (RP_keys p) (RP_activeVersion p)) of
        Inl err \<Rightarrow> Inl (Wrapf ''create reference cipher'' err)
      | Inr key \<Rightarrow> (case rand of Inl err \<Rightarrow> Inl (Wrapf ''generate reference nonce'' err)
          | Inr nonce \<Rightarrow> Inr (nonce @ gcm_seal g key nonce resourceKey (referenceAAD appID attachmentID sourceMessageID), RP_activeVersion p)))"

definition Reference_Open :: "aead \<Rightarrow> ReferenceProtector \<Rightarrow> string \<Rightarrow> string \<Rightarrow> string \<Rightarrow> string \<Rightarrow> int \<Rightarrow> string res" where
  "Reference_Open g p appID attachmentID sourceMessageID ciphertext version =
     (let key = key_of (RP_keys p) version in
      if length key \<noteq> 32 then Inl (Errorf (''attachment reference key version '' @ sprint_int version @ '' is unavailable''))
      else if length ciphertext < NonceSize then Inl (Errorf ''attachment reference ciphertext is malformed'')
      else case gcm_open g key (take NonceSize ciphertext) (drop NonceSize ciphertext) (referenceAAD appID attachmentID sourceMessageID) of
        None \<Rightarrow> Inl (Wrapf ''decrypt attachment reference'' (Sentinel ''cipher: message authentication failed''))
      | Some plaintext \<Rightarrow> Inr plaintext)"

section \<open>Action results\<close>

record ResultProtector =
  SP_keys :: key_map
  SP_active :: int

fun result_keys :: "KeyConfig list \<Rightarrow> ResultProtector \<Rightarrow> ResultProtector res" where
  "result_keys [] p = Inr p"
| "result_keys (e # es) p =
     (if KC_Version e < 1 \<or> length (KC_Key e) \<noteq> 32 then Inl (Errorf ''invalid action result key'')
      else if SP_keys p (KC_Version e) \<noteq> None then Inl (Errorf ''duplicate action result key'')
      else result_keys es \<lparr>SP_keys = (SP_keys p)(KC_Version e \<mapsto> KC_Key e),
        SP_active = (if KC_Version e > SP_active p then KC_Version e else SP_active p)\<rparr>)"

definition NewResultProtector :: "KeyConfig list \<Rightarrow> ResultProtector res" where
  "NewResultProtector entries = (case result_keys entries \<lparr>SP_keys = Map.empty, SP_active = 0\<rparr> of
       Inl err \<Rightarrow> Inl err
     | Inr p \<Rightarrow> if SP_active p = 0 then Inl (Errorf ''action result keyring is empty'') else Inr p)"

definition resultAAD :: "string \<Rightarrow> string \<Rightarrow> string \<Rightarrow> string \<Rightarrow> string \<Rightarrow> string" where
  "resultAAD app thread turn callID tool = app @ ''|'' @ thread @ ''|'' @ turn @ ''|'' @ callID @ ''|'' @ tool"

definition Result_Seal :: "aead \<Rightarrow> nonce_source \<Rightarrow> ResultProtector \<Rightarrow> string \<Rightarrow> string \<Rightarrow> string \<Rightarrow> string \<Rightarrow> string \<Rightarrow> string \<Rightarrow> (string \<times> int) res" where
  "Result_Seal g rand p app thread turn callID tool plaintext = (case NewCipher (key_of (SP_keys p) (SP_active p)) of
       Inl err \<Rightarrow> Inl err
     | Inr key \<Rightarrow> (case rand of Inl err \<Rightarrow> Inl err
         | Inr nonce \<Rightarrow> Inr (nonce @ gcm_seal g key nonce plaintext (resultAAD app thread turn callID tool), SP_active p)))"

definition Result_Open :: "aead \<Rightarrow> ResultProtector \<Rightarrow> string \<Rightarrow> string \<Rightarrow> string \<Rightarrow> string \<Rightarrow> string \<Rightarrow> string \<Rightarrow> int \<Rightarrow> string res" where
  "Result_Open g p app thread turn callID tool ciphertext version = (case NewCipher (key_of (SP_keys p) version) of
       Inl err \<Rightarrow> Inl err
     | Inr key \<Rightarrow> if length ciphertext < NonceSize then Inl (Errorf ''malformed action result'')
         else (case gcm_open g key (take NonceSize ciphertext) (drop NonceSize ciphertext) (resultAAD app thread turn callID tool) of
             None \<Rightarrow> Inl (Sentinel ''cipher: message authentication failed'')
           | Some plaintext \<Rightarrow> Inr plaintext))"

section \<open>Keyrings\<close>

text \<open>What the loops of both constructors do with one entry.\<close>

locale keyring =
  fixes load :: "KeyConfig list \<Rightarrow> 'p \<Rightarrow> 'p res" and ring_keys :: "'p \<Rightarrow> key_map" and active :: "'p \<Rightarrow> int"
  assumes load_Nil: "load [] p = Inr q \<Longrightarrow> q = p"
    and load_Cons: "load (e # es) p = Inr q \<Longrightarrow> 1 \<le> KC_Version e \<and> length (KC_Key e) = 32 \<and> ring_keys p (KC_Version e) = None
      \<and> (\<exists>p'. load es p' = Inr q \<and> ring_keys p' = (ring_keys p)(KC_Version e \<mapsto> KC_Key e) \<and> active p' = max (KC_Version e) (active p))"
begin

lemma load_keys:
  "load es p = Inr q \<Longrightarrow> ring_keys q v = Some k \<longleftrightarrow> ring_keys p v = Some k \<or> (\<exists>e \<in> set es. KC_Version e = v \<and> KC_Key e = k)"
proof (induction es arbitrary: p)
  case Nil
  then show ?case using load_Nil by auto
next
  case (Cons e es)
  from load_Cons [OF Cons.prems] obtain p' where p': "ring_keys p (KC_Version e) = None"
      "ring_keys p' = (ring_keys p)(KC_Version e \<mapsto> KC_Key e)" "load es p' = Inr q" by blast
  from Cons.IH [OF p'(3)] p'(1,2) show ?case by auto
qed

lemma load_lengths: "load es p = Inr q \<Longrightarrow> e \<in> set es \<Longrightarrow> length (KC_Key e) = 32"
proof (induction es arbitrary: p)
  case (Cons x es)
  from load_Cons [OF Cons.prems(1)] Cons.IH Cons.prems(2) show ?case by auto
qed simp

lemma load_active:
  "load es p = Inr q \<Longrightarrow> active p \<le> active q \<and> (active q = active p \<or> (\<exists>e \<in> set es. KC_Version e = active q)) \<and> (\<forall>e \<in> set es. 1 \<le> KC_Version e \<and> KC_Version e \<le> active q)"
proof (induction es arbitrary: p)
  case Nil
  then show ?case using load_Nil by auto
next
  case (Cons e es)
  from load_Cons [OF Cons.prems] obtain p' where p': "1 \<le> KC_Version e" "active p' = max (KC_Version e) (active p)" "load es p' = Inr q" by blast
  from Cons.IH [OF p'(3)] p'(1,2) show ?case by (auto simp: max_def split: if_splits)
qed

text \<open>A ring loaded from nothing: its keys are the entries, and its active version has a key of 32 bytes.\<close>

lemma fresh_entry: "load es p = Inr q \<Longrightarrow> e \<in> set es \<Longrightarrow> key_of (ring_keys q) (KC_Version e) = KC_Key e \<and> length (KC_Key e) = 32"
  using load_keys [of es p q "KC_Version e" "KC_Key e"] load_lengths by (auto simp: key_of_def)

lemma fresh_active:
  assumes "load es p = Inr q" and "active p = 0" and "es \<noteq> []"
  shows "\<exists>e \<in> set es. KC_Version e = active q"
proof -
  obtain e where "e \<in> set es" using assms(3) by (cases es) auto
  then have "1 \<le> active q" using load_active [OF assms(1)] by force
  then show ?thesis using load_active [OF assms(1)] assms(2) by auto
qed

end

interpretation refs: keyring reference_keys RP_keys RP_activeVersion
  by unfold_locales (simp, force simp: max_def split: if_splits)

interpretation results: keyring result_keys SP_keys SP_active
  by unfold_locales (simp, force simp: max_def split: if_splits)

lemma NewCipher_32: "length key = 32 \<Longrightarrow> NewCipher key = Inr key"
  by (simp add: NewCipher_def)

section \<open>Round trips\<close>

lemma reference_roundtrip:
  assumes "aead_correct g" and "nonce_ok rand" and "set entries \<subseteq> set entries'"
    and p: "NewReferenceProtector entries = Inr p" "NewReferenceProtector entries' = Inr p'"
    and seal: "Reference_Seal g rand p appID attachmentID messageID secret = Inr (sealed, version)"
  shows "Reference_Open g p' appID attachmentID messageID sealed version = Inr secret"
proof -
  from p have load: "reference_keys entries \<lparr>RP_keys = Map.empty, RP_activeVersion = 0\<rparr> = Inr p" "entries \<noteq> []"
    "reference_keys entries' \<lparr>RP_keys = Map.empty, RP_activeVersion = 0\<rparr> = Inr p'" by (auto simp: NewReferenceProtector_def split: if_splits)
  obtain e where e: "e \<in> set entries" "KC_Version e = RP_activeVersion p" using refs.fresh_active [OF load(1) _ load(2)] by auto
  have k: "key_of (RP_keys p) (RP_activeVersion p) = KC_Key e" "key_of (RP_keys p') (RP_activeVersion p) = KC_Key e" "length (KC_Key e) = 32"
    using refs.fresh_entry [OF load(1) e(1)] refs.fresh_entry [OF load(3) subsetD [OF assms(3) e(1)]] e(2) by simp_all
  from seal k obtain nonce where n: "rand = Inr nonce" and v: "version = RP_activeVersion p"
    "sealed = nonce @ gcm_seal g (KC_Key e) nonce secret (referenceAAD appID attachmentID messageID)"
    by (auto simp: Reference_Seal_def NewCipher_32 split: if_splits sum.splits)
  have "length nonce = NonceSize" using assms(2) n by (simp add: nonce_ok_def)
  then show ?thesis using assms(1) k v by (simp add: Reference_Open_def Let_def aead_correct_def)
qed

lemma result_roundtrip:
  assumes "aead_correct g" and "nonce_ok rand" and "set entries \<subseteq> set entries'"
    and s: "NewResultProtector entries = Inr s" "NewResultProtector entries' = Inr s'"
    and seal: "Result_Seal g rand s app thread turn callID tool text = Inr (sealed, version)"
  shows "Result_Open g s' app thread turn callID tool sealed version = Inr text"
proof -
  from s have load: "result_keys entries \<lparr>SP_keys = Map.empty, SP_active = 0\<rparr> = Inr s" "SP_active s \<noteq> 0"
    "result_keys entries' \<lparr>SP_keys = Map.empty, SP_active = 0\<rparr> = Inr s'" by (auto simp: NewResultProtector_def split: if_splits sum.splits)
  then have "entries \<noteq> []" by auto
  then obtain e where e: "e \<in> set entries" "KC_Version e = SP_active s" using results.fresh_active [OF load(1)] by auto
  have k: "key_of (SP_keys s) (SP_active s) = KC_Key e" "key_of (SP_keys s') (SP_active s) = KC_Key e" "length (KC_Key e) = 32"
    using results.fresh_entry [OF load(1) e(1)] results.fresh_entry [OF load(3) subsetD [OF assms(3) e(1)]] e(2) by simp_all
  from seal k obtain nonce where n: "rand = Inr nonce" and v: "version = SP_active s"
    "sealed = nonce @ gcm_seal g (KC_Key e) nonce text (resultAAD app thread turn callID tool)"
    by (auto simp: Result_Seal_def NewCipher_32 split: if_splits sum.splits)
  have "length nonce = NonceSize" using assms(2) n by (simp add: nonce_ok_def)
  then show ?thesis using assms(1) k v by (simp add: Result_Open_def NewCipher_32 aead_correct_def)
qed

section \<open>Properties\<close>

text \<open>
  C16: Sealed secrets survive key rotation. What a keyring seals, every keyring that still has those entries, with
  whatever further versions, opens again to the same text under the same identifiers; this holds for resource
  references and for action results.
\<close>

theorem sealed_opens_after_rotation:
  assumes "aead_correct g" and "nonce_ok rand" and "set entries \<subseteq> set entries'"
  shows "(NewReferenceProtector entries = Inr p \<and> NewReferenceProtector entries' = Inr p'
      \<and> Reference_Seal g rand p appID attachmentID messageID secret = Inr (sealed, version)
      \<longrightarrow> Reference_Open g p' appID attachmentID messageID sealed version = Inr secret)
    \<and> (NewResultProtector entries = Inr s \<and> NewResultProtector entries' = Inr s'
      \<and> Result_Seal g rand s app thread turn callID tool text = Inr (sealed', version')
      \<longrightarrow> Result_Open g s' app thread turn callID tool sealed' version' = Inr text)"
  using reference_roundtrip [OF assms] result_roundtrip [OF assms] by blast

text \<open>A transparent cipher, for concrete inputs.\<close>

definition ex_aead :: aead where
  "ex_aead = \<lparr>gcm_seal = (\<lambda>key nonce text data. text), gcm_open = (\<lambda>key nonce text data. Some text)\<rparr>"

definition ex_keys :: "KeyConfig list" where
  "ex_keys = [\<lparr>KC_Version = 1, KC_Key = replicate 32 CHR ''k''\<rparr>]"

definition ex_protector :: ReferenceProtector where
  "ex_protector = \<lparr>RP_keys = [1 \<mapsto> replicate 32 CHR ''k''], RP_activeVersion = 1\<rparr>"

lemma ex_aead_correct: "aead_correct ex_aead"
  by (simp add: aead_correct_def ex_aead_def)

theorem sealed_opens_after_rotation_witness:
  "NewReferenceProtector ex_keys = Inr ex_protector
   \<and> Reference_Open ex_aead ex_protector ''app'' ''f'' ''om'' (replicate 12 CHR ''n'' @ ''secret'') 1 = Inr ''secret''"
proof
  show new: "NewReferenceProtector ex_keys = Inr ex_protector"
    by (simp add: NewReferenceProtector_def ex_keys_def ex_protector_def)
  have "Reference_Seal ex_aead (Inr (replicate 12 CHR ''n'')) ex_protector ''app'' ''f'' ''om'' ''secret'' = Inr (replicate 12 CHR ''n'' @ ''secret'', 1)"
    by (simp add: Reference_Seal_def ex_protector_def key_of_def NewCipher_def ex_aead_def)
  moreover have "nonce_ok (Inr (replicate 12 CHR ''n''))" by (simp add: nonce_ok_def)
  ultimately show "Reference_Open ex_aead ex_protector ''app'' ''f'' ''om'' (replicate 12 CHR ''n'' @ ''secret'') 1 = Inr ''secret''"
    using sealed_opens_after_rotation [OF ex_aead_correct, of "Inr (replicate 12 CHR ''n'')" ex_keys ex_keys] new by blast
qed

end
