(* ===== verification/Go_Filepath.thy ===== *)
theory Go_Filepath
  imports Go_Strings
begin

text \<open>
  The lexical functions of Go's \<open>path/filepath\<close> on Unix that the program uses (\<open>Clean\<close>, \<open>Join\<close>, \<open>Base\<close>,
  \<open>Dir\<close>, \<open>Ext\<close>, \<open>IsAbs\<close>, \<open>Rel\<close>) and \<open>strings.Map\<close> with a mapping that only drops runes. A path is
  the list of its components between slashes.
\<close>

abbreviation slash :: char where
  "slash \<equiv> CHR ''/''"

fun split_path :: "string \<Rightarrow> string list" where
  "split_path [] = [[]]"
| "split_path (c # s) = (if c = slash then [] # split_path s
     else (case split_path s of [] \<Rightarrow> [[c]] | x # xs \<Rightarrow> (c # x) # xs))"

fun join_path :: "string list \<Rightarrow> string" where
  "join_path [] = []"
| "join_path [x] = x"
| "join_path (x # y # xs) = x @ slash # join_path (y # xs)"

definition IsAbs :: "string \<Rightarrow> bool" where
  "IsAbs p \<longleftrightarrow> has_prefix p ''/''"

text \<open>\<open>Clean\<close>: drop empty and \<open>.\<close> components and resolve \<open>..\<close> against the components before it.\<close>

fun clean_parts :: "bool \<Rightarrow> string list \<Rightarrow> string list \<Rightarrow> string list" where
  "clean_parts rooted out [] = rev out"
| "clean_parts rooted out (c # cs) =
     (if c = [] \<or> c = ''.'' then clean_parts rooted out cs
      else if c = ''..'' then
        (case out of [] \<Rightarrow> clean_parts rooted (if rooted then [] else [''..'']) cs
         | prev # rest \<Rightarrow> if prev = ''..'' then clean_parts rooted (''..'' # out) cs else clean_parts rooted rest cs)
      else clean_parts rooted (c # out) cs)"

definition parts :: "string \<Rightarrow> string list" where
  "parts p = clean_parts (IsAbs p) [] (split_path p)"

definition Clean :: "string \<Rightarrow> string" where
  "Clean p = (if IsAbs p then slash # join_path (parts p) else if parts p = [] then ''.'' else join_path (parts p))"

text \<open>\<open>Join\<close> skips leading empty elements.\<close>

fun Join :: "string list \<Rightarrow> string" where
  "Join [] = []"
| "Join (x # xs) = (if x = [] then Join xs else Clean (join_path (x # xs)))"

definition Base :: "string \<Rightarrow> string" where
  "Base p = (if p = [] then ''.'' else
     let q = rev (dropWhile (\<lambda>c. c = slash) (rev p)) in if q = [] then ''/'' else last (split_path q))"

text \<open>\<open>Dir\<close> cleans everything up to and including the last slash.\<close>

definition Dir :: "string \<Rightarrow> string" where
  "Dir p = Clean (rev (dropWhile (\<lambda>c. c \<noteq> slash) (rev p)))"

definition Ext :: "string \<Rightarrow> string" where
  "Ext p = (let leaf = last (split_path p) in
     if CHR ''.'' \<in> set leaf then CHR ''.'' # rev (takeWhile (\<lambda>c. c \<noteq> CHR ''.'') (rev leaf)) else [])"

text \<open>\<open>Rel\<close>: drop the common components and climb the rest of the base.\<close>

fun drop_common :: "string list \<Rightarrow> string list \<Rightarrow> string list \<times> string list" where
  "drop_common (x # xs) (y # ys) = (if x = y then drop_common xs ys else (x # xs, y # ys))"
| "drop_common xs ys = (xs, ys)"

definition Rel :: "string \<Rightarrow> string \<Rightarrow> string res" where
  "Rel base targ = (if Clean base = Clean targ then Inr ''.''
     else if IsAbs base \<noteq> IsAbs targ then Inl (Errorf (''Rel: can't make '' @ targ @ '' relative to '' @ base))
     else let (up, down) = drop_common (parts base) (parts targ) in
       if up \<noteq> [] \<and> hd up = ''..'' then Inl (Errorf (''Rel: can't make '' @ targ @ '' relative to '' @ base))
       else Inr (join_path (replicate (length up) ''..'' @ down)))"

text \<open>\<open>strings.Map\<close> with a mapping that keeps or drops each rune; an invalid byte is the rune U+FFFD.\<close>

definition filter_runes :: "(nat \<Rightarrow> bool) \<Rightarrow> string \<Rightarrow> string" where
  "filter_runes keep s = utf8 (filter keep (runes s))"

section \<open>Lemmas\<close>

lemma split_path_not_Nil [simp]: "split_path s \<noteq> []"
  by (induction s) (auto split: list.split)

lemma split_path_no_slash: "x \<in> set (split_path s) \<Longrightarrow> slash \<notin> set x"
  by (induction s arbitrary: x) (auto split: list.splits if_splits)

lemma split_path_atom: "slash \<notin> set s \<Longrightarrow> split_path s = [s]"
  by (induction s) auto

lemma join_split: "join_path (split_path s) = s"
proof (induction s)
  case (Cons c s)
  then show ?case by (cases "split_path s" rule: join_path.cases) (auto split: list.splits)
qed simp

lemma clean_parts_ok:
  assumes "\<And>x. x \<in> set out \<union> set cs \<Longrightarrow> slash \<notin> set x" and "\<And>x. x \<in> set out \<Longrightarrow> x \<noteq> [] \<and> x \<noteq> ''.''"
  shows "x \<in> set (clean_parts rooted out cs) \<Longrightarrow> slash \<notin> set x \<and> x \<noteq> [] \<and> x \<noteq> ''.''"
  using assms
proof (induction rooted out cs rule: clean_parts.induct)
  case (2 rooted out c cs)
  show ?case
  proof (cases "c = [] \<or> c = ''.''")
    case True
    then show ?thesis using 2 by simp
  next
    case False
    then show ?thesis using 2 by (cases out) (auto split: if_splits)
  qed
qed auto

lemma parts_ok: "x \<in> set (parts p) \<Longrightarrow> slash \<notin> set x \<and> x \<noteq> [] \<and> x \<noteq> ''.''"
  unfolding parts_def by (rule clean_parts_ok) (auto dest: split_path_no_slash)

text \<open>The base of a path is a single component.\<close>

lemma Base_no_slash: "Base p \<noteq> ''/'' \<Longrightarrow> slash \<notin> set (Base p)"
  using split_path_no_slash [OF last_in_set [OF split_path_not_Nil]] by (auto simp: Base_def Let_def split: if_splits)

lemma Base_atom: "slash \<notin> set p \<Longrightarrow> Base p = (if p = [] then ''.'' else p)"
proof -
  assume "slash \<notin> set p"
  then have "hd (rev p) \<noteq> slash" if "p \<noteq> []" using that hd_in_set [of "rev p"] by auto
  then have "dropWhile (\<lambda>c. c = slash) (rev p) = rev p" by (auto simp: dropWhile_eq_self_iff)
  then show ?thesis using \<open>slash \<notin> set p\<close> by (simp add: Base_def split_path_atom)
qed

text \<open>A byte of an encoded rune is the rune itself, if that is ASCII, or has its high bit set.\<close>

lemma encode_rune_bytes: "c \<in> set (encode_rune r) \<Longrightarrow> byte_val c = r \<and> r < 128 \<or> 128 \<le> byte_val c"
  by (auto simp: encode_rune_def Let_def scalar_def split: if_splits)

lemma filter_runes_bytes: "c \<in> set (filter_runes keep s) \<Longrightarrow> keep (byte_val c) \<or> 128 \<le> byte_val c"
  by (auto simp: filter_runes_def utf8_def dest: encode_rune_bytes)

lemma utf8_decode_ascii: "fst (utf8_decode (c # s)) < 128 \<Longrightarrow> utf8_decode (c # s) = (byte_val c, 1) \<and> byte_val c < 128"
  by (auto simp: utf8_decode_def Let_def second_lo_def split: list.splits if_splits)

text \<open>A string whose runes are all ASCII consists of those bytes.\<close>

lemma runes_ascii: "\<forall>r \<in> set (runes s). r < 128 \<Longrightarrow> runes s = map byte_val s"
proof (induction s rule: chunks.induct)
  case (1 s)
  show ?case
  proof (cases s)
    case (Cons c t)
    have d: "utf8_decode (c # t) = (byte_val c, 1)" using 1(2) Cons utf8_decode_ascii [of c t] by (simp add: runes_def chunks.simps [of "c # t"])
    then have "runes s = byte_val c # runes t" using Cons by (simp add: runes_def chunks.simps [of "c # t"])
    moreover have "runes t = map byte_val t" using 1 Cons d calculation by simp
    ultimately show ?thesis using Cons by simp
  qed (simp add: runes_def)
qed

end
