(* ===== verification/Attachment_Files.thy ===== *)
theory Attachment_Files
  imports Attachment_Store Key_Protectors Go_Filepath Worker_Types
begin

text \<open>
  Attachments on disk (\<open>internal/attachment/processor.go\<close>, \<open>service.go\<close>, \<open>cleanup.go\<close>): a worker claims an attachment, opens its sealed
  reference, downloads it within the size limit into a temporary file and publishes it under a safe name; the cleaner removes the
  directory of an expired attachment after claiming its row. The file system is a map from paths to contents; the answers of the
  operating system, the downloader, SHA-256, image decoding, type detection and \<open>uuid.Parse\<close> are arguments.
\<close>

section \<open>Names\<close>

definition ErrTooLarge :: go_error where
  "ErrTooLarge = Sentinel ''attachment exceeds configured size limit''"

definition ErrInvalid :: go_error where
  "ErrInvalid = Sentinel ''attachment is invalid''"

definition maxAttachmentFilenameBytes :: nat where
  "maxAttachmentFilenameBytes = 255"

text \<open>\<open>utf8.RuneLen\<close>; the runes of a string are scalar values.\<close>

definition rune_len :: "nat \<Rightarrow> nat" where
  "rune_len r = length (encode_rune r)"

fun truncate_loop :: "nat \<Rightarrow> string \<Rightarrow> nat list \<Rightarrow> string" where
  "truncate_loop limit built [] = built"
| "truncate_loop limit built (r # rs) = (if length built + rune_len r > limit then built else truncate_loop limit (built @ encode_rune r) rs)"

definition truncateUTF8Bytes :: "string \<Rightarrow> nat \<Rightarrow> string" where
  "truncateUTF8Bytes value limit = (if length value \<le> limit then value else truncate_loop limit [] (runes value))"

definition dropped_rune :: "nat \<Rightarrow> bool" where
  "dropped_rune r \<longleftrightarrow> r < 32 \<or> r = 47 \<or> r = 92"

definition trim_suffix :: "string \<Rightarrow> string \<Rightarrow> string" where
  "trim_suffix s t = (if has_suffix s t then take (length s - length t) s else s)"

text \<open>The name after the characters were dropped, within 255 bytes and with its extension where that fits.\<close>

definition bounded_name :: "string \<Rightarrow> string" where
  "bounded_name name =
     (if name = [] \<or> name = ''.'' \<or> name = ''..'' then ''attachment''
      else if length name \<le> maxAttachmentFilenameBytes then name
      else let extension = Ext name; base = truncateUTF8Bytes (trim_suffix name extension) (maxAttachmentFilenameBytes - length extension) in
        if extension \<noteq> [] \<and> length extension < maxAttachmentFilenameBytes \<and> base \<noteq> [] then base @ extension
        else truncateUTF8Bytes name maxAttachmentFilenameBytes)"

definition safeDisplayName :: "string \<Rightarrow> string" where
  "safeDisplayName name = bounded_name (filter_runes (\<lambda>r. \<not> dropped_rune r) (Base (map (\<lambda>c. if c = CHR 0x5C then slash else c) name)))"

definition attachmentRoot :: "string \<Rightarrow> string \<Rightarrow> string" where
  "attachmentRoot workspaceDir rootDir = (if IsAbs rootDir then Clean rootDir else Clean (Join [workspaceDir, rootDir]))"

definition localAttachmentPath :: "string \<Rightarrow> string \<Rightarrow> string" where
  "localAttachmentPath workspaceDir storedPath = (if IsAbs storedPath then Clean storedPath else Clean (Join [workspaceDir, storedPath]))"

definition pathHash :: "(string \<Rightarrow> string) \<Rightarrow> string \<Rightarrow> string" where
  "pathHash sha value = hex_encode (take 8 (sha value))"

definition temporaryAttachmentLeaf :: "(string \<Rightarrow> string) \<Rightarrow> string \<Rightarrow> string" where
  "temporaryAttachmentLeaf sha attachmentID = ''.attachment-'' @ pathHash sha attachmentID @ ''.part''"

section \<open>Materialising a download\<close>

type_synonym file_tree = "string \<rightharpoonup> string"

text \<open>
  What one materialisation meets: the downloader's answer (the body), the errors of the calls of the operating system in their order, how many
  bytes an interrupted copy had written, and the libraries that look at the content.
\<close>

record disk =
  dk_sha :: "string \<Rightarrow> string"
  dk_download :: "string \<Rightarrow> string \<Rightarrow> string \<Rightarrow> string res"
  dk_mkdir :: "go_error option"
  dk_open_part :: "go_error option"
  dk_copy :: "(nat \<times> go_error) option"
  dk_close :: "go_error option"
  dk_open_image :: "go_error option"
  dk_image_ok :: "string \<Rightarrow> bool"
  dk_open_sniff :: "go_error option"
  dk_read_sniff :: "go_error option"
  dk_detect :: "string \<Rightarrow> string"
  dk_rename :: "go_error option"

record Processor =
  has_Downloader :: bool
  MaxFileBytes :: int

record Input =
  I_WorkspaceDir :: string
  I_RootDir :: string
  I_AppID :: string
  I_ChannelKey :: string
  I_SessionID :: string
  I_AttachmentID :: string
  I_Kind :: string
  I_SourceMessageID :: string
  I_ResourceKey :: string
  I_OriginalName :: string

record Result =
  R_RelativePath :: string
  R_ObservedMIME :: string
  R_SHA256 :: string
  R_DisplayName :: string
  R_ByteSize :: int

definition input_complete :: "Processor \<Rightarrow> Input \<Rightarrow> bool" where
  "input_complete p i \<longleftrightarrow> has_Downloader p \<and> MaxFileBytes p > 0 \<and> I_WorkspaceDir i \<noteq> [] \<and> trim_space (I_RootDir i) \<noteq> [] \<and> I_AppID i \<noteq> []
     \<and> I_ChannelKey i \<noteq> [] \<and> I_SessionID i \<noteq> [] \<and> I_AttachmentID i \<noteq> [] \<and> I_SourceMessageID i \<noteq> [] \<and> I_ResourceKey i \<noteq> []
     \<and> (I_Kind i = ''image'' \<or> I_Kind i = ''file'')"

definition attachment_dir :: "(string \<Rightarrow> string) \<Rightarrow> Input \<Rightarrow> string" where
  "attachment_dir sha i = Join [attachmentRoot (I_WorkspaceDir i) (I_RootDir i), pathHash sha (I_AppID i), pathHash sha (I_ChannelKey i),
     I_SessionID i, I_AttachmentID i]"

definition observedMIME :: "disk \<Rightarrow> string \<Rightarrow> string res" where
  "observedMIME d data = (case dk_open_sniff d of Some err \<Rightarrow> Inl (Wrapf ''open attachment for type detection'' err)
     | None \<Rightarrow> (case dk_read_sniff d of Some err \<Rightarrow> Inl (Wrapf ''read attachment for type detection'' err)
         | None \<Rightarrow> Inr (dk_detect d (take 512 data))))"

definition stored_path :: "string \<Rightarrow> string \<Rightarrow> string" where
  "stored_path workspaceDir payload = (case Rel workspaceDir payload of Inl _ \<Rightarrow> payload
     | Inr relative \<Rightarrow> if IsAbs relative \<or> has_prefix relative ''../'' \<or> relative = ''..'' then payload else relative)"

text \<open>Checks of the written part and its publication by a rename.\<close>

definition publish :: "Processor \<Rightarrow> disk \<Rightarrow> Input \<Rightarrow> string \<Rightarrow> string \<Rightarrow> string \<Rightarrow> string \<Rightarrow> file_tree \<Rightarrow> Result res \<times> file_tree" where
  "publish p d i part name payload data files =
     (if data = [] then (Inl ErrInvalid, files)
      else if int (length data) > MaxFileBytes p then (Inl ErrTooLarge, files)
      else if I_Kind i = ''image'' \<and> dk_open_image d \<noteq> None then (Inl (Wrapf ''open image attachment'' (the (dk_open_image d))), files)
      else if I_Kind i = ''image'' \<and> \<not> dk_image_ok d data then (Inl (Wrapf ''image decode'' ErrInvalid), files)
      else case observedMIME d data of Inl err \<Rightarrow> (Inl err, files)
      | Inr observed \<Rightarrow> (case dk_rename d of Some err \<Rightarrow> (Inl (Wrapf ''publish attachment payload'' err), files)
          | None \<Rightarrow> (Inr \<lparr>R_RelativePath = stored_path (I_WorkspaceDir i) payload, R_ObservedMIME = observed, R_SHA256 = hex_encode (dk_sha d data),
              R_DisplayName = name, R_ByteSize = int (length data)\<rparr>, files(part := None, payload \<mapsto> data))))"

definition write_part :: "Processor \<Rightarrow> disk \<Rightarrow> Input \<Rightarrow> string \<Rightarrow> string \<Rightarrow> string \<Rightarrow> string \<Rightarrow> file_tree \<Rightarrow> Result res \<times> file_tree" where
  "write_part p d i part name payload body files = (case dk_open_part d of Some err \<Rightarrow> (Inl (Wrapf ''create attachment part'' err), files)
     | None \<Rightarrow> (let limited = take (nat (MaxFileBytes p + 1)) body;
           data = (case dk_copy d of Some (n, _) \<Rightarrow> take n limited | None \<Rightarrow> limited);
           written = files(part \<mapsto> data) in
         case dk_copy d of Some (_, err) \<Rightarrow> (Inl (Wrapf ''stream attachment'' err), written)
         | None \<Rightarrow> (case dk_close d of Some err \<Rightarrow> (Inl (Wrapf ''close attachment part'' err), written)
             | None \<Rightarrow> publish p d i part name payload data written)))"

definition payload_path :: "disk \<Rightarrow> Input \<Rightarrow> string" where
  "payload_path d i = Join [attachment_dir (dk_sha d) i, safeDisplayName (I_OriginalName i)]"

definition part_path :: "disk \<Rightarrow> Input \<Rightarrow> string" where
  "part_path d i = Join [attachment_dir (dk_sha d) i, temporaryAttachmentLeaf (dk_sha d) (I_AttachmentID i)]"

definition Materialize :: "Processor \<Rightarrow> disk \<Rightarrow> Input \<Rightarrow> file_tree \<Rightarrow> Result res \<times> file_tree" where
  "Materialize p d i files =
     (if \<not> input_complete p i then (Inl ErrInvalid, files)
      else case dk_download d (I_SourceMessageID i) (I_ResourceKey i) (I_Kind i) of Inl err \<Rightarrow> (Inl (Wrapf ''download attachment'' err), files)
      | Inr body \<Rightarrow> (case dk_mkdir d of Some err \<Rightarrow> (Inl (Wrapf ''create attachment directory'' err), files)
          | None \<Rightarrow> (let part = part_path d i in
              case write_part p d i part (safeDisplayName (I_OriginalName i)) (payload_path d i) body (files(part := None)) of (r, files') \<Rightarrow> (r, files'(part := None)))))"

section \<open>Removing an attachment\<close>

text \<open>\<open>parse_uuid\<close> says whether \<open>uuid.Parse\<close> accepts a text; the answer is the directory that was removed.\<close>

definition cleanup_remove :: "(string \<Rightarrow> bool) \<Rightarrow> (string \<Rightarrow> go_error option) \<Rightarrow> ExpiredAttachment \<Rightarrow> string option res" where
  "cleanup_remove parse_uuid remove_all c =
     (if EA_WorkspaceDir c = [] \<or> EA_RelativePath c = [] then Inr None
      else if \<not> parse_uuid (EA_ID c) then Inl (Errorf ''attachment ID is invalid'')
      else if \<not> parse_uuid (EA_SessionID c) then Inl (Errorf ''attachment session ID is invalid'')
      else (let payload = localAttachmentPath (EA_WorkspaceDir c) (EA_RelativePath c); leaf = Base payload; dir = Dir payload in
        if leaf \<noteq> ''payload'' \<and> leaf \<noteq> safeDisplayName (EA_OriginalNameSafe c) then Inl (Errorf ''attachment payload name is invalid'')
        else if Base dir \<noteq> EA_ID c then Inl (Errorf ''attachment directory ID is invalid'')
        else if Base (Dir dir) \<noteq> EA_SessionID c then Inl (Errorf ''attachment directory session ID is invalid'')
        else case remove_all dir of Some _ \<Rightarrow> Inl (Errorf ''remove attachment payload'') | None \<Rightarrow> Inr (Some dir)))"

text \<open>
  One round of the cleaner. The log lists the directories that were removed, each with the attachment it was removed for; \<open>remove_all\<close> answers
  for a directory.
\<close>

fun cleanup_loop :: "(string \<Rightarrow> bool) \<Rightarrow> (string \<Rightarrow> go_error option) \<Rightarrow> ExpiredAttachment list \<Rightarrow> nat \<Rightarrow> (ExpiredAttachment \<times> string) list \<Rightarrow> world
    \<Rightarrow> nat \<times> go_error option \<times> (ExpiredAttachment \<times> string) list \<times> world" where
  "cleanup_loop parse_uuid remove_all [] cleaned removed w = (cleaned, None, removed, w)"
| "cleanup_loop parse_uuid remove_all (c # cs) cleaned removed w = (case ClaimAttachmentDeletion (EA_ID c) w of
       (Inl err, w1) \<Rightarrow> (cleaned, Some err, removed, w1)
     | (Inr False, w1) \<Rightarrow> cleanup_loop parse_uuid remove_all cs cleaned removed w1
     | (Inr True, w1) \<Rightarrow> (case cleanup_remove parse_uuid remove_all c of
           Inl _ \<Rightarrow> (case RestoreAttachmentDeletion (EA_ID c) (EA_State c) w1 of
               (Inl err, w2) \<Rightarrow> (cleaned, Some err, removed, w2)
             | (Inr _, w2) \<Rightarrow> cleanup_loop parse_uuid remove_all cs cleaned removed w2)
         | Inr dir \<Rightarrow> (let removed' = (case dir of None \<Rightarrow> removed | Some path \<Rightarrow> removed @ [(c, path)]) in
             case CompleteAttachmentDeletion (EA_ID c) w1 of
               (Inl err, w2) \<Rightarrow> (cleaned, Some err, removed', w2)
             | (Inr _, w2) \<Rightarrow> cleanup_loop parse_uuid remove_all cs (Suc cleaned) removed' w2)))"

definition Cleaner_Run :: "bool \<Rightarrow> int \<Rightarrow> (string \<Rightarrow> bool) \<Rightarrow> (string \<Rightarrow> go_error option) \<Rightarrow> world \<Rightarrow> nat \<times> go_error option \<times> (ExpiredAttachment \<times> string) list \<times> world" where
  "Cleaner_Run has_store limit parse_uuid remove_all w =
     (if \<not> has_store then (0, Some (Errorf ''attachment cleanup configuration is invalid''), [], w)
      else case ListExpiredAttachments (if limit \<le> 0 then 100 else limit) w of
        (Inl err, w1) \<Rightarrow> (0, Some err, [], w1)
      | (Inr candidates, w1) \<Rightarrow> cleanup_loop parse_uuid remove_all candidates 0 [] w1)"

section \<open>Preparing a batch\<close>

record TextInput =
  TI_Type :: string
  TI_Text :: string
  TI_Path :: string
  TI_Detail :: string
  TI_ObservationPath :: string

record Service =
  sv_store :: bool
  sv_opener :: "ReferenceProtector option"
  sv_aead :: aead
  sv_processor :: Processor
  sv_downloaders :: "(string \<rightharpoonup> bool)"
  sv_has_downloaders :: bool
  sv_RootDir :: string
  sv_Retention :: int

text \<open>The ids a preparation draws and the clock, the answer of the first \<open>MkdirAll\<close>, and what each attachment meets on disk.\<close>

record preparation =
  pr_session :: string
  pr_attempt :: string
  pr_now :: go_time
  pr_outbox :: "go_error option"
  pr_disk :: "nat \<Rightarrow> disk"

definition retention :: "Service \<Rightarrow> int" where
  "retention s = (if sv_Retention s \<le> 0 then 7 * 24 * 60 * minutes 1 else sv_Retention s)"

definition use_processor :: "Service \<Rightarrow> string \<Rightarrow> Processor" where
  "use_processor s appID = (if sv_has_downloaders s then (sv_processor s)\<lparr>has_Downloader := sv_downloaders s appID = Some True\<rparr> else sv_processor s)"

definition batch_valid :: "Service \<Rightarrow> Batch \<Rightarrow> bool" where
  "batch_valid s b \<longleftrightarrow> sv_store s \<and> sv_opener s \<noteq> None \<and> sv_RootDir s \<noteq> [] \<and> (case Batch_Messages b of
       [m] \<Rightarrow> Msg_HasRequiredAttachment m \<and> Msg_AttachmentIDs m \<noteq> [] | _ \<Rightarrow> False)
     \<and> Runtime_ID (Batch_Runtime b) \<noteq> [] \<and> Runtime_WorkspaceDir (Batch_Runtime b) \<noteq> []"

definition input_of :: "Service \<Rightarrow> preparation \<Rightarrow> Batch \<Rightarrow> AttachmentRecord \<Rightarrow> string \<Rightarrow> Input" where
  "input_of s pr b r resourceKey = \<lparr>I_WorkspaceDir = Runtime_WorkspaceDir (Batch_Runtime b), I_RootDir = sv_RootDir s, I_AppID = Runtime_ID (Batch_Runtime b),
     I_ChannelKey = Key_String (Batch_Key b), I_SessionID = pr_session pr, I_AttachmentID = AR_ID r, I_Kind = AR_Kind r,
     I_SourceMessageID = AR_SourceMessageID r, I_ResourceKey = resourceKey, I_OriginalName = AR_OriginalNameSafe r\<rparr>"

definition download_code :: "go_error \<Rightarrow> string" where
  "download_code err = (if err = ErrTooLarge then ''attachment_too_large'' else if errors_is err ErrInvalid then ''attachment_invalid''
     else ''attachment_download_failed'')"

definition attachment_inputs :: "AttachmentRecord \<Rightarrow> Result \<Rightarrow> string \<Rightarrow> TextInput list" where
  "attachment_inputs r result path =
     (if AR_Kind r = ''image'' then
       [\<lparr>TI_Type = ''text'', TI_Text = ''User-uploaded image is available at local path: '' @ path @ ''. Inspect this image and respond to the user.'',
          TI_Path = [], TI_Detail = [], TI_ObservationPath = []\<rparr>,
        \<lparr>TI_Type = ''localImage'', TI_Text = [], TI_Path = path, TI_Detail = ''auto'', TI_ObservationPath = []\<rparr>]
      else [\<lparr>TI_Type = ''text'', TI_Text = ''File manifest: '' @ R_DisplayName result @ ''; local path: '' @ path, TI_Path = [], TI_Detail = [],
          TI_ObservationPath = path\<rparr>])"

type_synonym prepared = "TextInput list res \<times> file_tree \<times> world"

text \<open>An attachment whose claim succeeded: open its reference, materialise it, record the outcome.\<close>

definition prepare_claimed :: "Service \<Rightarrow> preparation \<Rightarrow> Batch \<Rightarrow> disk \<Rightarrow> AttachmentRecord \<Rightarrow> file_tree \<Rightarrow> world \<Rightarrow> prepared" where
  "prepare_claimed s pr b d r files w =
     (let deadline = pr_now pr + retention s in
      case Reference_Open (sv_aead s) (the (sv_opener s)) (Runtime_ID (Batch_Runtime b)) (AR_ID r) (AR_SourceMessageID r) (AR_SourceResourceRefEnc r)
          (AR_SourceRefKeyVersion r) of
        Inl err \<Rightarrow> (Inl (Wrapf ''decrypt attachment reference'' err), files, snd (FailAttachment (AR_ID r) (pr_attempt pr) ''attachment_invalid'' deadline w))
      | Inr resourceKey \<Rightarrow> (case Materialize (use_processor s (Runtime_ID (Batch_Runtime b))) d (input_of s pr b r resourceKey) files of
            (Inl err, files1) \<Rightarrow> (Inl err, files1, snd (FailAttachment (AR_ID r) (pr_attempt pr) (download_code err) deadline w))
          | (Inr result, files1) \<Rightarrow> (case CompleteAttachment \<lparr>AC_ID = AR_ID r, AC_AttemptID = pr_attempt pr, AC_ObservedMIME = R_ObservedMIME result,
                AC_SHA256 = R_SHA256 result, AC_SessionID = pr_session pr, AC_RelativePath = R_RelativePath result, AC_ByteSize = R_ByteSize result,
                AC_RetentionDeadline = deadline\<rparr> w of
              (Inl err, w1) \<Rightarrow> (Inl err, files1, w1)
            | (Inr _, w1) \<Rightarrow> (Inr (attachment_inputs r result (localAttachmentPath (Runtime_WorkspaceDir (Batch_Runtime b)) (R_RelativePath result))), files1, w1))))"

fun prepare_loop :: "Service \<Rightarrow> preparation \<Rightarrow> Batch \<Rightarrow> nat \<Rightarrow> string list \<Rightarrow> file_tree \<Rightarrow> world \<Rightarrow> prepared" where
  "prepare_loop s pr b n [] files w = (Inr [], files, w)"
| "prepare_loop s pr b n (i # is) files w = (case GetAttachmentForWorker i w of
       (Inl err, w1) \<Rightarrow> (Inl (Wrapf ''load attachment'' err), files, w1)
     | (Inr r, w1) \<Rightarrow> (case ClaimAttachment (AR_ID r) (pr_attempt pr) (pr_now pr + minutes 2) w1 of
           (Inl err, w2) \<Rightarrow> (Inl err, files, w2)
         | (Inr False, w2) \<Rightarrow> (Inl (Errorf ''attachment is not staged''), files, w2)
         | (Inr True, w2) \<Rightarrow> (case prepare_claimed s pr b (pr_disk pr n) r files w2 of
               (Inl err, files1, w3) \<Rightarrow> (Inl err, files1, w3)
             | (Inr inputs, files1, w3) \<Rightarrow> (case prepare_loop s pr b (Suc n) is files1 w3 of
                   (Inl err, files2, w4) \<Rightarrow> (Inl err, files2, w4)
                 | (Inr rest, files2, w4) \<Rightarrow> (Inr (inputs @ rest), files2, w4)))))"

definition Prepare :: "Service \<Rightarrow> preparation \<Rightarrow> Batch \<Rightarrow> file_tree \<Rightarrow> world \<Rightarrow> prepared" where
  "Prepare s pr b files w =
     (if \<not> batch_valid s b then (Inl (Errorf ''attachment batch is invalid''), files, w)
      else case pr_outbox pr of Some err \<Rightarrow> (Inl (Wrapf ''create attachment session outbox'' err), files, w)
      | None \<Rightarrow> prepare_loop s pr b 0 (Msg_AttachmentIDs (hd (Batch_Messages b))) files w)"

section \<open>Paths\<close>

text \<open>A component that \<open>Clean\<close> keeps, and the absolute path of a list of components.\<close>

definition plain_part :: "string \<Rightarrow> bool" where
  "plain_part x \<longleftrightarrow> slash \<notin> set x \<and> x \<noteq> [] \<and> x \<noteq> ''.'' \<and> x \<noteq> ''..''"

abbreviation abs_path :: "string list \<Rightarrow> string" where
  "abs_path xs \<equiv> slash # join_path xs"

lemma split_append: "slash \<notin> set x \<Longrightarrow> split_path (x @ slash # s) = x # split_path s"
  by (induction x) auto

lemma split_join: "xs \<noteq> [] \<Longrightarrow> \<forall>x \<in> set xs. slash \<notin> set x \<Longrightarrow> split_path (join_path xs) = xs"
  by (induction xs rule: join_path.induct) (auto simp: split_path_atom split_append)

lemma clean_plain: "\<forall>x \<in> set xs. plain_part x \<Longrightarrow> clean_parts b out (xs @ ys) = clean_parts b (rev xs @ out) ys"
  by (induction xs arbitrary: out) (auto simp: plain_part_def)

lemma IsAbs_Cons [simp]: "IsAbs (slash # s)"
  by (simp add: IsAbs_def has_prefix_def)

lemma parts_abs: "\<forall>x \<in> set xs. plain_part x \<Longrightarrow> parts (abs_path xs) = xs"
  using clean_plain [of xs True "[]" "[]"] split_join [of xs]
  by (cases "xs = []") (auto simp: parts_def plain_part_def)

lemma clean_rooted_plain:
  assumes "\<forall>x \<in> set out. plain_part x" and "\<forall>x \<in> set cs. slash \<notin> set x"
  shows "\<forall>x \<in> set (clean_parts True out cs). plain_part x"
  using assms
proof (induction cs arbitrary: out)
  case (Cons c cs)
  have IH: "\<forall>x \<in> set o'. plain_part x \<Longrightarrow> \<forall>x \<in> set (clean_parts True o' cs). plain_part x" for o'
    using Cons.IH Cons.prems(2) by simp
  show ?case
  proof (cases "c = [] \<or> c = ''.''")
    case True
    then have "clean_parts True out (c # cs) = clean_parts True out cs" by auto
    then show ?thesis using IH [OF Cons.prems(1)] by simp
  next
    case False
    show ?thesis
    proof (cases "c = ''..''")
      case up: True
      show ?thesis
      proof (cases out)
        case Nil
        then show ?thesis using IH [of "[]"] up by simp
      next
        case (Cons prev rest)
        then have "prev \<noteq> ''..''" "\<forall>x \<in> set rest. plain_part x" using Cons.prems(1) by (auto simp: plain_part_def)
        then show ?thesis using IH [of rest] up Cons by simp
      qed
    next
      case down: False
      then have step: "clean_parts True out (c # cs) = clean_parts True (c # out) cs" using False by simp
      have "\<forall>x \<in> set (c # out). plain_part x" using Cons.prems False down by (simp add: plain_part_def)
      then show ?thesis unfolding step by (rule IH)
    qed
  qed
qed simp

lemma parts_rooted: "IsAbs p \<Longrightarrow> \<forall>x \<in> set (parts p). plain_part x"
  unfolding parts_def using clean_rooted_plain [of "[]" "split_path p"] split_path_no_slash by auto

lemma Clean_rooted: "IsAbs p \<Longrightarrow> Clean p = abs_path (parts p)"
  by (simp add: Clean_def)

lemma Clean_abs [simp]: "\<forall>x \<in> set xs. plain_part x \<Longrightarrow> Clean (abs_path xs) = abs_path xs"
  by (simp add: Clean_def parts_abs)

lemma join_append: "xs \<noteq> [] \<Longrightarrow> ys \<noteq> [] \<Longrightarrow> join_path (xs @ ys) = join_path xs @ slash # join_path ys"
  by (induction xs rule: join_path.induct) (auto simp: neq_Nil_conv)

lemma split_root: "IsAbs p \<Longrightarrow> \<exists>cs. split_path p = [] # cs"
  by (cases p) (auto simp: IsAbs_def has_prefix_def)

lemma split_snoc: "split_path (s @ slash # t) = split_path s @ split_path t"
  by (induction s) (auto split: list.split)

text \<open>Joining components to an absolute path.\<close>

lemma clean_parts_append: "clean_parts b out (cs @ ds) = clean_parts b (rev (clean_parts b out cs)) ds"
  by (induction b out cs rule: clean_parts.induct) (auto split: list.split)

lemma Join_rooted:
  assumes "IsAbs p" and "ys \<noteq> []" and "\<forall>y \<in> set ys. plain_part y"
  shows "Join (p # ys) = abs_path (parts p @ ys)"
proof -
  have "p \<noteq> []" using assms(1) by (auto simp: IsAbs_def has_prefix_def)
  obtain y zs where ys: "ys = y # zs" using assms(2) by (cases ys) auto
  have j: "join_path (p # ys) = p @ slash # join_path ys" by (simp add: ys)
  have abs: "IsAbs (p @ slash # join_path ys)" using assms(1) \<open>p \<noteq> []\<close> by (cases p) (auto simp: IsAbs_def has_prefix_def)
  have "split_path (join_path ys) = ys" using assms by (intro split_join) (auto simp: plain_part_def)
  then have "parts (p @ slash # join_path ys) = parts p @ ys"
    using clean_plain [OF assms(3), of True _ "[]"] abs assms(1)
    by (simp add: parts_def split_snoc clean_parts_append)
  then show ?thesis using \<open>p \<noteq> []\<close> abs by (simp add: ys [symmetric] j Clean_rooted)
qed

lemma abs_last: "rev (dropWhile (\<lambda>c. c = slash) (rev (abs_path (xs @ [a])))) = abs_path (xs @ [a])" if "plain_part a" for xs a
proof -
  obtain c s where "rev (join_path (xs @ [a])) = c # s" "c \<noteq> slash"
  proof (cases "xs = []")
    case True
    then show thesis using that \<open>plain_part a\<close> by (cases "rev a") (auto simp: plain_part_def)
  next
    case False
    then show thesis using that \<open>plain_part a\<close> by (cases "rev a") (auto simp: plain_part_def join_append)
  qed
  then show ?thesis by (simp add: rev_swap)
qed

lemma Base_abs:
  assumes "\<forall>x \<in> set xs. plain_part x" and "plain_part a"
  shows "Base (abs_path (xs @ [a])) = a"
proof -
  have "split_path (join_path (xs @ [a])) = xs @ [a]" using assms by (intro split_join) (auto simp: plain_part_def)
  then show ?thesis using abs_last [OF assms(2), of xs] by (simp add: Base_def Let_def)
qed

lemma Dir_abs:
  assumes "\<forall>x \<in> set xs. plain_part x" and "plain_part a"
  shows "Dir (abs_path (xs @ [a])) = abs_path xs"
proof -
  have all: "\<forall>c \<in> set (rev a). c \<noteq> slash" using assms(2) by (auto simp: plain_part_def)
  show ?thesis
  proof (cases "xs = []")
    case True
    have "dropWhile (\<lambda>c. c \<noteq> slash) (rev a @ [slash]) = [slash]" using dropWhile_append2 [of "rev a" "\<lambda>c. c \<noteq> slash" "[slash]"] all by auto
    then show ?thesis using True Clean_abs [of "[]"] by (simp add: Dir_def)
  next
    case False
    have "dropWhile (\<lambda>c. c \<noteq> slash) (rev a @ slash # rev (abs_path xs)) = slash # rev (abs_path xs)" 
      using dropWhile_append2 [of "rev a" "\<lambda>c. c \<noteq> slash" "slash # rev (abs_path xs)"] all by auto
    then have "Dir (abs_path (xs @ [a])) = Clean (abs_path xs @ [slash])" using False by (simp add: Dir_def join_append)
    also have "\<dots> = abs_path (parts (abs_path xs @ [slash]))" by (rule Clean_rooted) simp
    also have "parts (abs_path xs @ [slash]) = parts (abs_path xs)"
      using split_snoc [of "abs_path xs" "[]"] by (simp add: parts_def clean_parts_append)
    finally show ?thesis using parts_abs [OF assms(1)] by simp
  qed
qed

lemma drop_common_parts: "drop_common xs ys = (up, down) \<Longrightarrow> \<exists>c. xs = c @ up \<and> ys = c @ down"
proof (induction xs ys rule: drop_common.induct)
  case (1 x xs y ys)
  show ?case
  proof (cases "x = y")
    case True
    then obtain c where "xs = c @ up" "ys = c @ down" using 1 by auto
    then show ?thesis using True by (intro exI [of _ "x # c"]) simp
  next
    case False
    then show ?thesis using 1 by auto
  qed
qed auto

lemma join_no_abs: "\<forall>x \<in> set xs. plain_part x \<Longrightarrow> \<not> IsAbs (join_path xs) \<and> \<not> has_prefix (join_path xs) ''../'' \<and> join_path xs \<noteq> ''..''"
proof -
  assume xs: "\<forall>x \<in> set xs. plain_part x"
  show ?thesis
  proof (cases "xs = []")
    case False
    then obtain x ys where c: "xs = x # ys" by (cases xs) auto
    have split: "split_path (join_path xs) = x # ys" using xs c by (subst split_join) (auto simp: plain_part_def)
    have x: "x \<noteq> []" "x \<noteq> ''..''" using xs c by (auto simp: plain_part_def)
    have "join_path xs \<noteq> slash # t" for t using split x by auto
    moreover have "join_path xs \<noteq> ''..'' @ slash # t" for t using split x by auto
    moreover have "join_path xs \<noteq> ''..''" using split x by auto
    ultimately show ?thesis by (auto simp: IsAbs_def has_prefix_iff)
  qed (simp add: IsAbs_def has_prefix_def)
qed

text \<open>The path that is stored for an attachment leads back to the published file.\<close>

lemma stored_path_roundtrip:
  assumes "IsAbs ws" and "ys \<noteq> []" and "\<forall>y \<in> set ys. plain_part y"
  shows "localAttachmentPath ws (stored_path ws (abs_path ys)) = abs_path ys"
proof -
  have ws: "\<forall>x \<in> set (parts ws). plain_part x" using parts_rooted [OF assms(1)] .
  have self: "localAttachmentPath ws (abs_path ys) = abs_path ys" using assms(3) by (simp add: localAttachmentPath_def)
  have "ws \<noteq> []" using assms(1) by (auto simp: IsAbs_def has_prefix_def)
  obtain up down where dc: "drop_common (parts ws) ys = (up, down)" by fastforce
  show ?thesis
  proof (cases "Clean ws = Clean (abs_path ys)")
    case True
    then have "parts ws = ys" using assms parts_abs [of ys] Clean_rooted [OF assms(1)] Clean_abs [of ys] parts_abs [OF ws] by metis
    have "stored_path ws (abs_path ys) = ''.''" using True by (simp add: stored_path_def Rel_def IsAbs_def has_prefix_def)
    moreover have "Join [ws, ''.''] = abs_path (parts ws)"
    proof -
      have "ws \<noteq> []" "IsAbs (ws @ ''/.'')" using assms(1) by (cases ws; auto simp: IsAbs_def has_prefix_def)+
      moreover have "parts (ws @ slash # ''.'') = parts ws" using calculation(2) assms(1) split_snoc [of ws "''.''"] by (simp add: parts_def clean_parts_append)
      ultimately show ?thesis by (simp add: Clean_rooted)
    qed
    ultimately show ?thesis using \<open>parts ws = ys\<close> assms(3) by (simp add: localAttachmentPath_def IsAbs_def has_prefix_def)
  next
    case differ: False
    show ?thesis
    proof (cases "up = []")
      case True
      then have ys: "ys = parts ws @ down" using drop_common_parts [OF dc] by auto
      have down: "\<forall>y \<in> set down. plain_part y" using assms(3) ys by auto
      have "down \<noteq> []" using differ ys assms(1) Clean_rooted [OF assms(1)] Clean_abs [OF assms(3)] by auto
      have "Rel ws (abs_path ys) = Inr (join_path down)"
        using differ assms(1) parts_abs [OF assms(3)] dc True by (simp add: Rel_def)
      then have "stored_path ws (abs_path ys) = join_path down" using join_no_abs [OF down] by (simp add: stored_path_def)
      moreover have "Join [ws, join_path down] = abs_path ys"
      proof -
        have "join_path (ws # down) = ws @ slash # join_path down" using \<open>down \<noteq> []\<close> by (cases down) simp_all
        moreover have "Join (ws # down) = Clean (join_path (ws # down))" "Join [ws, join_path down] = Clean (ws @ slash # join_path down)"
          using \<open>ws \<noteq> []\<close> by simp_all
        ultimately show ?thesis using Join_rooted [OF assms(1) \<open>down \<noteq> []\<close> down] ys by metis
      qed
      ultimately show ?thesis using join_no_abs [OF down] assms(3) by (simp add: localAttachmentPath_def)
    next
      case False
      obtain c where "parts ws = c @ up" using drop_common_parts [OF dc] by blast
      then have "plain_part (hd up)" using ws hd_in_set [OF False] by simp
      then have "hd up \<noteq> ''..''" by (simp add: plain_part_def)
      then have rel: "Rel ws (abs_path ys) = Inr (join_path (replicate (length up) ''..'' @ down))"
        using differ assms(1) parts_abs [OF assms(3)] dc by (simp add: Rel_def)
      obtain zs where zs: "replicate (length up) ''..'' @ down = ''..'' # zs" using False by (cases up) auto
      then have "has_prefix (join_path (''..'' # zs)) ''../'' \<or> join_path (''..'' # zs) = ''..''" by (cases zs) (auto simp: has_prefix_def)
      then have "stored_path ws (abs_path ys) = abs_path ys" using rel zs by (simp add: stored_path_def)
      then show ?thesis using self by simp
    qed
  qed
qed

section \<open>Safe names\<close>

lemma runes_Cons:
  "s \<noteq> [] \<Longrightarrow> runes s = fst (utf8_decode s) # runes (drop (snd (utf8_decode s)) s)"
  by (simp add: runes_def chunks.simps [of s])

lemma runes_low: "r \<in> set (runes s) \<Longrightarrow> r < 128 \<Longrightarrow> mk_byte r \<in> set s"
proof (induction s rule: chunks.induct)
  case (1 s)
  show ?case
  proof (cases s)
    case (Cons c t)
    then consider "r = fst (utf8_decode s)" | "r \<in> set (runes (drop (snd (utf8_decode s)) s))"
      using 1(2) runes_Cons [of s] by auto
    then show ?thesis
    proof cases
      case 1
      then have "r = byte_val c" using utf8_decode_ascii [of c t] \<open>r < 128\<close> Cons by simp
      then show ?thesis using Cons by simp
    next
      case 2
      then show ?thesis using 1(1) [OF _ 2 \<open>r < 128\<close>] Cons by (auto dest: in_set_dropD)
    qed
  qed (use 1(2) in \<open>simp add: runes_def\<close>)
qed

lemma decode_width_le: "snd (utf8_decode s) \<le> rune_len (fst (utf8_decode s))"
proof -
  have one: "1 \<le> rune_len r" for r using encode_rune_not_Nil [of r] unfolding rune_len_def by (cases "encode_rune r") auto
  have two: "scalar r \<Longrightarrow> 128 \<le> r \<Longrightarrow> 2 \<le> rune_len r" for r by (simp add: rune_len_def encode_rune_def)
  have three: "scalar r \<Longrightarrow> 2048 \<le> r \<Longrightarrow> 3 \<le> rune_len r" for r by (simp add: rune_len_def encode_rune_def)
  have four: "scalar r \<Longrightarrow> 65536 \<le> r \<Longrightarrow> 4 \<le> rune_len r" for r by (simp add: rune_len_def encode_rune_def)
  show ?thesis
  proof (cases s)
    case (Cons c t)
    then have sc: "scalar (fst (utf8_decode s))" by (intro utf8_decode_scalar) simp
    obtain r n where rn: "utf8_decode s = (r, n)" by fastforce
    consider "n \<le> 1" | "n = 2" "128 \<le> r" | "n = 3" "2048 \<le> r" | "n = 4" "65536 \<le> r"
      using rn Cons by (auto simp: utf8_decode_def Let_def second_lo_def split: if_splits list.splits)
    then show ?thesis using sc rn one [of r] two [of r] three [of r] four [of r] by cases auto
  qed (simp add: utf8_decode_def)
qed

lemma length_runes_le: "length s \<le> length (utf8 (runes s))"
proof (induction s rule: chunks.induct)
  case (1 s)
  show ?case
  proof (cases "s = []")
    case False
    have "length s \<le> snd (utf8_decode s) + length (drop (snd (utf8_decode s)) s)" by simp
    also have "\<dots> \<le> rune_len (fst (utf8_decode s)) + length (utf8 (runes (drop (snd (utf8_decode s)) s)))"
      using decode_width_le [of s] 1(1) [OF False] by simp
    finally show ?thesis using runes_Cons [OF False] by (simp add: rune_len_def)
  qed (simp add: runes_def)
qed

lemma rune_len_le: "rune_len r \<le> 4"
  by (simp add: rune_len_def encode_rune_def Let_def)

lemma truncate_loop_props:
  assumes "length built \<le> limit"
  shows "length (truncate_loop limit built rs) \<le> limit"
    and "set (truncate_loop limit built rs) \<subseteq> set built \<union> set (utf8 rs)"
    and "limit < length built + length (utf8 rs) \<Longrightarrow> limit < length (truncate_loop limit built rs) + 4"
proof -
  have "length (truncate_loop limit built rs) \<le> limit \<and> set (truncate_loop limit built rs) \<subseteq> set built \<union> set (utf8 rs)
    \<and> (limit < length built + length (utf8 rs) \<longrightarrow> limit < length (truncate_loop limit built rs) + 4)"
    using assms
  proof (induction rs arbitrary: built)
    case (Cons r rs)
    show ?case
    proof (cases "length built + rune_len r > limit")
      case True
      then show ?thesis using Cons.prems rune_len_le [of r] by auto
    next
      case False
      then have "length (built @ encode_rune r) \<le> limit" by (simp add: rune_len_def)
      from Cons.IH [OF this] show ?thesis using False by (auto simp: rune_len_def)
    qed
  qed simp
  then show "length (truncate_loop limit built rs) \<le> limit"
    and "set (truncate_loop limit built rs) \<subseteq> set built \<union> set (utf8 rs)"
    and "limit < length built + length (utf8 rs) \<Longrightarrow> limit < length (truncate_loop limit built rs) + 4" by blast+
qed

definition name_byte :: "char \<Rightarrow> bool" where
  "name_byte c \<longleftrightarrow> 32 \<le> byte_val c \<and> byte_val c \<noteq> 47 \<and> byte_val c \<noteq> 92"

lemma truncate_bytes:
  assumes "\<forall>c \<in> set v. name_byte c"
  shows "\<forall>c \<in> set (truncateUTF8Bytes v limit). name_byte c"
proof
  fix c assume c: "c \<in> set (truncateUTF8Bytes v limit)"
  have enc: "name_byte c" if "r \<in> set (runes v)" "c \<in> set (encode_rune r)" for r
  proof -
    from encode_rune_bytes [OF that(2)] consider "byte_val c = r" "r < 128" | "128 \<le> byte_val c" by blast
    then show ?thesis
    proof cases
      case 1
      then have "mk_byte r = c" using mk_byte_byte_val [of c] by simp
      then show ?thesis using runes_low [OF that(1) 1(2)] assms by auto
    qed (simp add: name_byte_def)
  qed
  show "name_byte c"
  proof (cases "length v \<le> limit")
    case False
    then have "c \<in> set (utf8 (runes v))" using c truncate_loop_props(2) [of "[]" limit "runes v"] by (auto simp: truncateUTF8Bytes_def)
    then show ?thesis using enc by (auto simp: utf8_def)
  qed (use assms c in \<open>simp add: truncateUTF8Bytes_def\<close>)
qed

lemma truncate_length:
  "length (truncateUTF8Bytes v limit) \<le> limit" "limit \<le> length v \<Longrightarrow> limit < length (truncateUTF8Bytes v limit) + 4"
  using truncate_loop_props(1) [of "[]" limit "runes v"] truncate_loop_props(3) [of "[]" limit "runes v"] length_runes_le [of v]
  by (auto simp: truncateUTF8Bytes_def)

lemma Ext_bytes: "set (Ext p) \<subseteq> set p"
proof -
  have "set (last (split_path p)) \<subseteq> set p"
  proof (induction p)
    case (Cons c p)
    then show ?case using split_path_not_Nil [of p] by (cases "split_path p") auto
  qed simp
  moreover have "set (rev (takeWhile (\<lambda>c. c \<noteq> CHR ''.'') (rev (last (split_path p))))) \<subseteq> set (last (split_path p))"
    by (auto dest: set_takeWhileD)
  ultimately show ?thesis by (auto simp: Ext_def Let_def)
qed

text \<open>A displayed name is a plain component of at most 255 bytes without control characters.\<close>

lemma bounded_name_safe:
  assumes bytes: "\<forall>c \<in> set name. name_byte c"
  shows "plain_part (bounded_name name) \<and> length (bounded_name name) \<le> 255 \<and> (\<forall>c \<in> set (bounded_name name). name_byte c)"
proof -
  let ?ext = "Ext name"
  let ?base = "truncateUTF8Bytes (trim_suffix name ?ext) (255 - length ?ext)"
  have tbytes: "\<forall>c \<in> set (trim_suffix name ?ext). name_byte c" using bytes by (auto simp: trim_suffix_def dest: in_set_takeD)
  have tlen: "length name - length ?ext \<le> length (trim_suffix name ?ext)" by (simp add: trim_suffix_def)
  have plain: "plain_part x" if "\<forall>c \<in> set x. name_byte c" "x \<noteq> []" "x \<noteq> ''.''" "x \<noteq> ''..''" for x
    using that by (auto simp: plain_part_def name_byte_def byte_val_def)
  have long: "x \<noteq> [] \<and> x \<noteq> ''.'' \<and> x \<noteq> ''..''" if "3 \<le> length x" for x :: string using that by auto
  consider (default) "bounded_name name = ''attachment''"
    | (short) "bounded_name name = name" "name \<noteq> []" "name \<noteq> ''.''" "name \<noteq> ''..''" "length name \<le> 255"
    | (split) "bounded_name name = ?base @ ?ext" "255 < length name" "?ext \<noteq> []" "length ?ext < 255" "?base \<noteq> []"
    | (cut) "bounded_name name = truncateUTF8Bytes name 255" "255 < length name"
    unfolding bounded_name_def Let_def maxAttachmentFilenameBytes_def by (metis not_le)
  then show ?thesis
  proof cases
    case default
    then show ?thesis using plain [of "''attachment''"] by (simp add: name_byte_def byte_val_def)
  next
    case short
    then show ?thesis using plain [of name] bytes by simp
  next
    case split
    have all: "\<forall>c \<in> set (?base @ ?ext). name_byte c" using truncate_bytes [OF tbytes] bytes Ext_bytes [of name] by auto
    have "3 \<le> length (?base @ ?ext)"
    proof (cases "length ?ext \<le> 1")
      case True
      have "255 - length ?ext \<le> length (trim_suffix name ?ext)" using tlen split(2) by linarith
      from truncate_length(2) [OF this] show ?thesis using True by simp
    next
      case False
      have "1 \<le> length ?base" using split(5) by (cases ?base) simp_all
      then show ?thesis using False by simp
    qed
    moreover have "length (?base @ ?ext) \<le> 255" using truncate_length(1) [of "trim_suffix name ?ext" "255 - length ?ext"] split(4) by simp
    ultimately show ?thesis using plain [OF all] long all unfolding split(1) by blast
  next
    case cut
    have "3 \<le> length (truncateUTF8Bytes name 255)" using truncate_length(2) [of 255 name] cut(2) by simp
    then show ?thesis using plain [OF truncate_bytes [OF bytes]] long truncate_length(1) [of name 255] truncate_bytes [OF bytes] unfolding cut(1) by blast
  qed
qed

lemma safe_name:
  "plain_part (safeDisplayName n)" "length (safeDisplayName n) \<le> 255" "\<forall>c \<in> set (safeDisplayName n). name_byte c"
proof -
  have "name_byte c" if "c \<in> set (filter_runes (\<lambda>r. \<not> dropped_rune r) s)" for c s
    using filter_runes_bytes [OF that] by (auto simp: name_byte_def dropped_rune_def)
  then have "plain_part (safeDisplayName n) \<and> length (safeDisplayName n) \<le> 255 \<and> (\<forall>c \<in> set (safeDisplayName n). name_byte c)"
    unfolding safeDisplayName_def by (intro bounded_name_safe) blast
  then show "plain_part (safeDisplayName n)" "length (safeDisplayName n) \<le> 255" "\<forall>c \<in> set (safeDisplayName n). name_byte c" by blast+
qed

section \<open>Publication\<close>

lemma publish_cases:
  assumes "publish p d i part name payload data files = (r, files')"
  obtains (refused) e where "r = Inl e" "files' = files"
    | (published) observed where "0 < length data" "int (length data) \<le> MaxFileBytes p"
        "I_Kind i = ''image'' \<longrightarrow> dk_image_ok d data" "files' = files(part := None, payload \<mapsto> data)"
        "r = Inr \<lparr>R_RelativePath = stored_path (I_WorkspaceDir i) payload, R_ObservedMIME = observed, R_SHA256 = hex_encode (dk_sha d data),
              R_DisplayName = name, R_ByteSize = int (length data)\<rparr>"
  using assms unfolding publish_def by (auto split: if_splits sum.splits option.splits)

text \<open>The outcome of a materialisation: nothing but the part is ever touched before the rename.\<close>

lemma materialize_cases:
  assumes "Materialize p d i files = (r, files')"
  obtains (failed) e where "r = Inl e" "files' = files \<or> files' = files(part_path d i := None)"
    | (published) body observed where "dk_download d (I_SourceMessageID i) (I_ResourceKey i) (I_Kind i) = Inr body" "input_complete p i"
        "0 < length body" "int (length body) \<le> MaxFileBytes p" "I_Kind i = ''image'' \<longrightarrow> dk_image_ok d body"
        "files' = files(payload_path d i \<mapsto> body, part_path d i := None)"
        "r = Inr \<lparr>R_RelativePath = stored_path (I_WorkspaceDir i) (payload_path d i), R_ObservedMIME = observed, R_SHA256 = hex_encode (dk_sha d body),
              R_DisplayName = safeDisplayName (I_OriginalName i), R_ByteSize = int (length body)\<rparr>"
proof -
  let ?part = "part_path d i" and ?payload = "payload_path d i" and ?name = "safeDisplayName (I_OriginalName i)"
  consider (early) e where "r = Inl e" "files' = files"
    | (wrote) body files1 where "dk_download d (I_SourceMessageID i) (I_ResourceKey i) (I_Kind i) = Inr body" "input_complete p i"
        "write_part p d i ?part ?name ?payload body (files(?part := None)) = (r, files1)" "files' = files1(?part := None)"
    using assms unfolding Materialize_def Let_def
    by (auto split: if_splits sum.splits option.splits prod.splits)
  then show thesis
  proof cases
    case early
    then show thesis using failed by blast
  next
    case wrote
    let ?data = "take (nat (MaxFileBytes p + 1)) body"
    consider (lost) e where "r = Inl e" "files1 = files(?part := None) \<or> (\<exists>x. files1 = files(?part \<mapsto> x))"
      | (closed) "publish p d i ?part ?name ?payload ?data (files(?part \<mapsto> ?data)) = (r, files1)"
      using wrote(3) unfolding write_part_def Let_def by (auto split: option.splits prod.splits)
    then show thesis
    proof cases
      case lost
      then have "files' = files(?part := None)" using wrote(4) by auto
      then show thesis using failed lost(1) by blast
    next
      case closed
      then show thesis
      proof (cases rule: publish_cases)
        case refused
        then have "files' = files(?part := None)" using wrote(4) by auto
        then show thesis using failed refused(1) by blast
      next
        case (published observed)
        have "0 < MaxFileBytes p" using wrote(2) by (simp add: input_complete_def)
        then have whole: "?data = body" using published(2) by auto
        have "files' = files(?payload \<mapsto> body, ?part := None)" using wrote(4) published(4) unfolding whole by auto
        then show thesis using that(2) [OF wrote(1,2)] published whole by simp
      qed
    qed
  qed
qed

text \<open>
  C33: publishing a download is atomic. A failed materialisation leaves every file as it was, except that the temporary part is gone; a successful
  one adds exactly the downloaded body, which is not empty, within the size limit and an image where one was announced, under the
  reported size and digest, and leaves no part behind.
\<close>

theorem attachment_publication_atomic:
  assumes "Materialize p d i files = (r, files')"
  shows "(\<forall>path. path \<noteq> part_path d i \<and> path \<noteq> payload_path d i \<longrightarrow> files' path = files path)
    \<and> (\<forall>e. r = Inl e \<longrightarrow> files' = files \<or> files' = files(part_path d i := None))
    \<and> (\<forall>res. r = Inr res \<longrightarrow> (\<exists>body. dk_download d (I_SourceMessageID i) (I_ResourceKey i) (I_Kind i) = Inr body
        \<and> files' = files(payload_path d i \<mapsto> body, part_path d i := None)
        \<and> 0 < length body \<and> int (length body) \<le> MaxFileBytes p \<and> (I_Kind i = ''image'' \<longrightarrow> dk_image_ok d body)
        \<and> R_ByteSize res = int (length body) \<and> R_SHA256 res = hex_encode (dk_sha d body)
        \<and> length (R_DisplayName res) \<le> 255 \<and> plain_part (R_DisplayName res)))"
  using assms
proof (cases rule: materialize_cases)
  case failed
  then show ?thesis by auto
next
  case published
  then show ?thesis using safe_name [of "I_OriginalName i"] by auto
qed

definition ex_disk :: disk where
  "ex_disk = \<lparr>dk_sha = (\<lambda>s. replicate 32 (CHR ''s'')), dk_download = (\<lambda>m k t. Inr ''body''), dk_mkdir = None, dk_open_part = None, dk_copy = None,
     dk_close = None, dk_open_image = None, dk_image_ok = (\<lambda>s. True), dk_open_sniff = None, dk_read_sniff = None, dk_detect = (\<lambda>s. ''text/plain''),
     dk_rename = None\<rparr>"

lemma ex_disk_simps:
  "dk_sha ex_disk s = replicate 32 (CHR ''s'')" "dk_download ex_disk m k t = Inr ''body''" "dk_mkdir ex_disk = None" "dk_open_part ex_disk = None"
  "dk_copy ex_disk = None" "dk_close ex_disk = None" "dk_open_image ex_disk = None" "dk_image_ok ex_disk s" "dk_open_sniff ex_disk = None"
  "dk_read_sniff ex_disk = None" "dk_detect ex_disk s = ''text/plain''" "dk_rename ex_disk = None"
  by (simp_all add: ex_disk_def)

definition ex_input :: Input where
  "ex_input = \<lparr>I_WorkspaceDir = ''/srv/ws'', I_RootDir = ''inbox'', I_AppID = ''app'', I_ChannelKey = ''chan'', I_SessionID = ''sid'', I_AttachmentID = ''aid'',
     I_Kind = ''file'', I_SourceMessageID = ''om_1'', I_ResourceKey = ''key'', I_OriginalName = ''a.txt''\<rparr>"

lemma ex_download_simps:
  "I_WorkspaceDir ex_input = ''/srv/ws''" "I_Kind ex_input = ''file''" "I_OriginalName ex_input = ''a.txt''" "I_SourceMessageID ex_input = ''om_1''"
  "I_ResourceKey ex_input = ''key''" "I_SessionID ex_input = ''sid''" "I_AttachmentID ex_input = ''aid''"
  by (simp_all add: ex_input_def)

lemma ex_materialized:
  "Materialize \<lparr>has_Downloader = True, MaxFileBytes = 4\<rparr> ex_disk ex_input Map.empty =
    (Inr \<lparr>R_RelativePath = stored_path ''/srv/ws'' (payload_path ex_disk ex_input), R_ObservedMIME = ''text/plain'',
       R_SHA256 = hex_encode (replicate 32 (CHR ''s'')), R_DisplayName = safeDisplayName ''a.txt'', R_ByteSize = 4\<rparr>,
     Map.empty(payload_path ex_disk ex_input \<mapsto> ''body'', part_path ex_disk ex_input := None))"
proof -
  have "input_complete \<lparr>has_Downloader = True, MaxFileBytes = 4\<rparr> ex_input" by (simp add: input_complete_def ex_input_def) code_simp
  then show ?thesis
    by (simp add: Materialize_def write_part_def publish_def observedMIME_def ex_disk_simps ex_download_simps Let_def fun_upd_twist fun_upd_idem)
qed

theorem attachment_publication_atomic_witness:
  "\<exists>body. dk_download ex_disk ''om_1'' ''key'' ''file'' = Inr body \<and> length body = 4"
  using attachment_publication_atomic [OF ex_materialized] by (auto simp: ex_input_def)

section \<open>Publication and removal\<close>

lemma hex_plain: "s \<noteq> [] \<Longrightarrow> plain_part (hex_encode s)"
proof -
  assume "s \<noteq> []"
  have "hex_encode s \<noteq> ''.''" "hex_encode s \<noteq> ''..''" "slash \<notin> set (hex_encode s)" using hex_encode_ok(1) [of s]
    by (auto simp: hex_ok_def list_all_iff hex_digit_def byte_val_def)
  moreover have "hex_encode s \<noteq> []" using hex_encode_ok(3) [of s] \<open>s \<noteq> []\<close> by auto
  ultimately show ?thesis by (simp add: plain_part_def)
qed

lemma IsAbs_Clean: "IsAbs p \<Longrightarrow> IsAbs (Clean p)"
  by (simp add: Clean_def)

lemma attachmentRoot_rooted: "IsAbs ws \<Longrightarrow> IsAbs (attachmentRoot ws root)"
proof -
  assume ws: "IsAbs ws"
  then have "ws \<noteq> []" "IsAbs (ws @ slash # root)" by (cases ws; auto simp: IsAbs_def has_prefix_def)+
  then have "IsAbs (Join [ws, root])" by (simp add: IsAbs_Clean)
  then show ?thesis by (simp add: attachmentRoot_def IsAbs_Clean)
qed

text \<open>Inputs whose identifiers are single components, below an absolute workspace; SHA-256 yields some bytes.\<close>

definition input_plain :: "disk \<Rightarrow> Input \<Rightarrow> bool" where
  "input_plain d i \<longleftrightarrow> IsAbs (I_WorkspaceDir i) \<and> plain_part (I_SessionID i) \<and> plain_part (I_AttachmentID i)
     \<and> dk_sha d (I_AppID i) \<noteq> [] \<and> dk_sha d (I_ChannelKey i) \<noteq> []"

lemma payload_parts:
  assumes "input_plain d i"
  obtains ps where "\<forall>x \<in> set ps. plain_part x"
    "attachment_dir (dk_sha d) i = abs_path (ps @ [I_SessionID i, I_AttachmentID i])"
    "payload_path d i = abs_path (ps @ [I_SessionID i, I_AttachmentID i, safeDisplayName (I_OriginalName i)])"
proof -
  let ?root = "attachmentRoot (I_WorkspaceDir i) (I_RootDir i)"
  let ?hs = "[pathHash (dk_sha d) (I_AppID i), pathHash (dk_sha d) (I_ChannelKey i)]"
  have root: "IsAbs ?root" using assms by (intro attachmentRoot_rooted) (simp add: input_plain_def)
  have hs: "\<forall>x \<in> set ?hs. plain_part x" using assms by (auto simp: input_plain_def pathHash_def intro!: hex_plain)
  have ps: "\<forall>x \<in> set (parts ?root @ ?hs). plain_part x" using parts_rooted [OF root] hs by auto
  have ids: "plain_part (I_SessionID i)" "plain_part (I_AttachmentID i)" using assms by (simp_all add: input_plain_def)
  have dir: "attachment_dir (dk_sha d) i = abs_path (parts ?root @ ?hs @ [I_SessionID i, I_AttachmentID i])"
    using Join_rooted [OF root, of "?hs @ [I_SessionID i, I_AttachmentID i]"] hs ids by (simp add: attachment_dir_def)
  let ?all = "parts ?root @ ?hs @ [I_SessionID i, I_AttachmentID i]"
  have all: "\<forall>x \<in> set ?all. plain_part x" using ps ids by auto
  have "payload_path d i = abs_path (?all @ [safeDisplayName (I_OriginalName i)])"
    using Join_rooted [of "abs_path ?all" "[safeDisplayName (I_OriginalName i)]"] safe_name(1) parts_abs [OF all]
    by (simp add: payload_path_def dir)
  then show thesis using that [of "parts ?root @ ?hs", OF ps] dir by simp
qed

lemma stored_path_not_Nil:
  assumes "IsAbs ws" and "localAttachmentPath ws (stored_path ws p) = p"
  shows "stored_path ws p \<noteq> []"
proof
  assume nil: "stored_path ws p = []"
  have "ws \<noteq> []" "IsAbs (ws @ [slash])" using assms(1) by (cases ws; auto simp: IsAbs_def has_prefix_def)+
  moreover have "parts (ws @ [slash]) = parts ws"
    using calculation(2) assms(1) split_snoc [of ws "[]"] by (simp add: parts_def clean_parts_append)
  ultimately have "p = abs_path (parts ws)"
    using assms nil parts_rooted [OF assms(1)] by (simp add: localAttachmentPath_def Clean_rooted parts_abs IsAbs_def [of "[]"] has_prefix_def)
  then have "Clean ws = Clean p" using assms(1) parts_rooted [OF assms(1)] by (simp add: Clean_rooted parts_abs)
  then show False using nil by (simp add: stored_path_def Rel_def IsAbs_def has_prefix_def)
qed

lemma payload_facts:
  assumes "input_plain d i"
  shows "Dir (payload_path d i) = attachment_dir (dk_sha d) i" "Base (payload_path d i) = safeDisplayName (I_OriginalName i)"
    "Base (attachment_dir (dk_sha d) i) = I_AttachmentID i" "Base (Dir (attachment_dir (dk_sha d) i)) = I_SessionID i"
    "localAttachmentPath (I_WorkspaceDir i) (stored_path (I_WorkspaceDir i) (payload_path d i)) = payload_path d i"
    "stored_path (I_WorkspaceDir i) (payload_path d i) \<noteq> []" "I_WorkspaceDir i \<noteq> []"
proof -
  obtain ps where ps: "\<forall>x \<in> set ps. plain_part x" "attachment_dir (dk_sha d) i = abs_path (ps @ [I_SessionID i, I_AttachmentID i])"
    "payload_path d i = abs_path (ps @ [I_SessionID i, I_AttachmentID i, safeDisplayName (I_OriginalName i)])"
    using payload_parts [OF assms] by blast
  let ?s = "I_SessionID i" and ?a = "I_AttachmentID i" and ?n = "safeDisplayName (I_OriginalName i)"
  have ids: "plain_part ?s" "plain_part ?a" "IsAbs (I_WorkspaceDir i)" using assms by (simp_all add: input_plain_def)
  have d1: "\<forall>x \<in> set (ps @ [?s]). plain_part x" and d2: "\<forall>x \<in> set (ps @ [?s, ?a]). plain_part x"
    and d3: "\<forall>x \<in> set (ps @ [?s, ?a, ?n]). plain_part x"
    using ps(1) ids safe_name(1) by auto
  show "Dir (payload_path d i) = attachment_dir (dk_sha d) i" "Base (payload_path d i) = safeDisplayName (I_OriginalName i)"
    using Base_abs [OF d2 safe_name(1), of "I_OriginalName i"] Dir_abs [OF d2 safe_name(1), of "I_OriginalName i"] ps(2,3) by simp_all
  show "Base (attachment_dir (dk_sha d) i) = ?a" "Base (Dir (attachment_dir (dk_sha d) i)) = ?s"
    using Base_abs [OF d1 ids(2)] Dir_abs [OF d1 ids(2)] Base_abs [OF ps(1) ids(1)] ps(2) by simp_all
  show back_to_payload: "localAttachmentPath (I_WorkspaceDir i) (stored_path (I_WorkspaceDir i) (payload_path d i)) = payload_path d i"
    using stored_path_roundtrip [OF ids(3) _ d3] ps(3) by simp
  show "stored_path (I_WorkspaceDir i) (payload_path d i) \<noteq> []" using stored_path_not_Nil [OF ids(3) back_to_payload] .
  show "I_WorkspaceDir i \<noteq> []" using ids(3) by (auto simp: IsAbs_def has_prefix_def)
qed

lemma cleanup_published:
  assumes "input_plain d i" and "parse_uuid (I_AttachmentID i)" and "parse_uuid (I_SessionID i)"
    and "EA_ID c = I_AttachmentID i" and "EA_SessionID c = I_SessionID i" and "EA_WorkspaceDir c = I_WorkspaceDir i"
    and "EA_RelativePath c = stored_path (I_WorkspaceDir i) (payload_path d i)" and "EA_OriginalNameSafe c = I_OriginalName i"
  shows "cleanup_remove parse_uuid (\<lambda>path. None) c = Inr (Some (attachment_dir (dk_sha d) i))"
  using assms payload_facts [OF assms(1)] by (simp add: cleanup_remove_def Let_def)

text \<open>
  What is published can be removed again, and nothing else. After a successful materialisation the stored path, read back for the
  cleanup of that attachment, leads to exactly the attachment's own directory, and no attachment with another id or session has its file there.
\<close>

lemma published_attachment_removable:
  assumes "Materialize p d i files = (Inr res, files')" and "input_plain d i"
    and "parse_uuid (I_AttachmentID i)" and "parse_uuid (I_SessionID i)"
    and "EA_ID c = I_AttachmentID i" and "EA_SessionID c = I_SessionID i" and "EA_WorkspaceDir c = I_WorkspaceDir i"
    and "EA_RelativePath c = R_RelativePath res" and "EA_OriginalNameSafe c = I_OriginalName i"
  shows "cleanup_remove parse_uuid (\<lambda>path. None) c = Inr (Some (attachment_dir (dk_sha d) i))
    \<and> Dir (payload_path d i) = attachment_dir (dk_sha d) i
    \<and> (\<forall>d' j. input_plain d' j \<and> Dir (payload_path d' j) = attachment_dir (dk_sha d) i
        \<longrightarrow> I_AttachmentID j = I_AttachmentID i \<and> I_SessionID j = I_SessionID i)"
proof -
  from assms(1) have "R_RelativePath res = stored_path (I_WorkspaceDir i) (payload_path d i)"
    by (cases rule: materialize_cases) simp_all
  then have "cleanup_remove parse_uuid (\<lambda>path. None) c = Inr (Some (attachment_dir (dk_sha d) i))"
    using cleanup_published [OF assms(2-7) _ assms(9)] assms(8) by simp
  then show ?thesis using payload_facts [OF assms(2)] payload_facts by metis
qed

definition ex_expired :: ExpiredAttachment where
  "ex_expired = \<lparr>EA_ID = ''aid'', EA_State = ''ready'', EA_WorkspaceDir = ''/srv/ws'',
     EA_RelativePath = stored_path ''/srv/ws'' (payload_path ex_disk ex_input), EA_SessionID = ''sid'', EA_OriginalNameSafe = ''a.txt''\<rparr>"

lemma ex_plain: "input_plain ex_disk ex_input"
  by (simp add: input_plain_def plain_part_def ex_disk_simps ex_download_simps)

lemma published_attachment_removable_witness:
  "cleanup_remove (\<lambda>s. True) (\<lambda>path. None) ex_expired = Inr (Some (attachment_dir (dk_sha ex_disk) ex_input))"
  using published_attachment_removable [OF ex_materialized ex_plain, of "\<lambda>s. True" ex_expired] by (simp add: ex_expired_def ex_download_simps)

section \<open>The cleaner\<close>

lemma claim_deletion_True:
  assumes "ClaimAttachmentDeletion i w = (Inr True, w1)"
  obtains a where "a \<in> set (attachments w1)" "f_id a = i" "f_state a = AttDeleting"
proof -
  let ?p = "\<lambda>a. f_id a = i \<and> expired (clock w) a" and ?f = "\<lambda>a. a\<lparr>f_state := AttDeleting, f_attempt_id := None, f_lease_until := None\<rparr>"
  from assms have "0 < sql_affected ?p ?f (attachments w)" and w1: "attachments w1 = sql_update ?p ?f (attachments w)"
    by (auto simp: ClaimAttachmentDeletion_def op_Inr update_attachments_def)
  from sql_affected_pos_ex [OF this(1)] obtain a where a: "a \<in> set (attachments w)" "?p a" by blast
  then have "?f a \<in> set (attachments w1)" unfolding w1 set_sql_update by (intro image_eqI [of _ _ a]) auto
  then show thesis using that [of "?f a"] a(2) by simp
qed

lemma complete_deletion_going:
  assumes "a \<in> set (attachments w)" "f_id a = i" "f_state a = AttDeleting" and "CompleteAttachmentDeletion i w = (r, w1)"
  obtains b where "b \<in> set (attachments w1)" "f_id b = i" "f_state b = AttDeleted \<or> (\<exists>e. r = Inl e) \<and> f_state b = AttDeleting"
proof -
  let ?p = "\<lambda>a. f_id a = i \<and> f_state a = AttDeleting"
  let ?f = "\<lambda>a. a\<lparr>f_state := AttDeleted, f_deleted_at := Some (clock w), f_lease_until := None\<rparr>"
  have upd: "?f a \<in> set (sql_update ?p ?f (attachments w))" using assms(1-3) unfolding set_sql_update by (intro image_eqI [of _ _ a]) auto
  have "attachments w1 = sql_update ?p ?f (attachments w) \<or> (\<exists>e. r = Inl e) \<and> attachments w1 = attachments w"
    using assms(4) by (auto simp: CompleteAttachmentDeletion_def and_then_def exec_def update_attachments_def ret_def fail_def split: fault.splits if_splits)
  then show thesis using that [of "?f a"] that [of a] upd assms(1-3) by auto
qed

definition named_dir :: "(string \<Rightarrow> bool) \<Rightarrow> ExpiredAttachment \<times> string \<Rightarrow> bool" where
  "named_dir parse_uuid x \<longleftrightarrow> (case x of (c, dir) \<Rightarrow> parse_uuid (EA_ID c) \<and> parse_uuid (EA_SessionID c) \<and> Base dir = EA_ID c
     \<and> Base (Dir dir) = EA_SessionID c \<and> EA_WorkspaceDir c \<noteq> [] \<and> dir = Dir (localAttachmentPath (EA_WorkspaceDir c) (EA_RelativePath c)))"

lemma cleanup_remove_named: "cleanup_remove parse_uuid remove_all c = Inr (Some dir) \<Longrightarrow> named_dir parse_uuid (c, dir)"
  by (auto simp: cleanup_remove_def Let_def named_dir_def split: if_splits option.splits)

definition row_gone :: "world \<Rightarrow> ExpiredAttachment \<times> string \<Rightarrow> bool" where
  "row_gone w x \<longleftrightarrow> (\<exists>a \<in> set (attachments w). f_id a = EA_ID (fst x) \<and> f_state a = AttDeleted)"

definition row_going :: "world \<Rightarrow> ExpiredAttachment \<times> string \<Rightarrow> bool" where
  "row_going w x \<longleftrightarrow> (\<exists>a \<in> set (attachments w). f_id a = EA_ID (fst x) \<and> f_state a = AttDeleting)"

lemma row_gone_kept: "preserves att_rel m \<Longrightarrow> m w = (r, w1) \<Longrightarrow> row_gone w x \<Longrightarrow> row_gone w1 x"
proof -
  assume m: "preserves att_rel m" "m w = (r, w1)" "row_gone w x"
  then obtain a where a: "a \<in> set (attachments w)" "f_id a = EA_ID (fst x)" "f_state a = AttDeleted" by (auto simp: row_gone_def)
  have "a \<in> set (attachments w1)" using preservesD [OF m(1), of w] m(2) atts.evolves_final a(1,3) by (auto simp: phase_def)
  then show ?thesis using a by (auto simp: row_gone_def)
qed

lemma cleanup_loop_safe:
  assumes "cleanup_loop parse_uuid remove_all cs n removed w = (n', err, removed', w')" and "\<forall>x \<in> set removed. row_gone w x"
  shows "\<exists>new. removed' = removed @ new \<and> (\<forall>x \<in> set new. fst x \<in> set cs \<and> named_dir parse_uuid x)
    \<and> (\<forall>x \<in> set removed'. row_gone w' x \<or> err \<noteq> None \<and> row_going w' x)"
  using assms
proof (induction cs arbitrary: n removed w)
  case (Cons c cs)
  obtain r w1 where claim: "ClaimAttachmentDeletion (EA_ID c) w = (r, w1)" by fastforce
  have kept1: "\<forall>x \<in> set removed. row_gone w1 x" using row_gone_kept [OF att_ops(3) claim] Cons.prems(2) by blast
  consider (e) e where "r = Inl e" | (no) "r = Inr False" | (yes) "r = Inr True" by (cases r) auto
  then show ?case
  proof cases
    case e
    then show ?thesis using Cons.prems(1) claim kept1 by auto
  next
    case no
    then have "cleanup_loop parse_uuid remove_all cs n removed w1 = (n', err, removed', w')" using Cons.prems(1) claim by simp
    from Cons.IH [OF this kept1] show ?thesis by fastforce
  next
    case yes
    obtain a where a: "a \<in> set (attachments w1)" "f_id a = EA_ID c" "f_state a = AttDeleting" using claim_deletion_True claim yes by blast
    show ?thesis
    proof (cases "cleanup_remove parse_uuid remove_all c")
      case (Inl e)
      obtain r2 w2 where restore: "RestoreAttachmentDeletion (EA_ID c) (EA_State c) w1 = (r2, w2)" by fastforce
      have kept2: "\<forall>x \<in> set removed. row_gone w2 x" using row_gone_kept [OF att_ops(5) restore] kept1 by blast
      show ?thesis
      proof (cases r2)
        case (Inl e2)
        then show ?thesis using Cons.prems(1) claim yes \<open>cleanup_remove parse_uuid remove_all c = Inl e\<close> restore kept2 by auto
      next
        case (Inr u)
        then have "cleanup_loop parse_uuid remove_all cs n removed w2 = (n', err, removed', w')"
          using Cons.prems(1) claim yes \<open>cleanup_remove parse_uuid remove_all c = Inl e\<close> restore by simp
        from Cons.IH [OF this kept2] show ?thesis by fastforce
      qed
    next
      case (Inr dir)
      define removed1 where "removed1 = (case dir of None \<Rightarrow> removed | Some path \<Rightarrow> removed @ [(c, path)])"
      obtain r2 w2 where complete: "CompleteAttachmentDeletion (EA_ID c) w1 = (r2, w2)" by fastforce
      obtain b where b: "b \<in> set (attachments w2)" "f_id b = EA_ID c" "f_state b = AttDeleted \<or> (\<exists>e. r2 = Inl e) \<and> f_state b = AttDeleting"
        using complete_deletion_going [OF a complete] .
      have kept2: "\<forall>x \<in> set removed. row_gone w2 x" using row_gone_kept [OF att_ops(4) complete] kept1 by blast
      have own: "row_gone w2 (c, path) \<or> (\<exists>e. r2 = Inl e) \<and> row_going w2 (c, path)" for path using b by (auto simp: row_gone_def row_going_def)
      have split1: "\<exists>new. removed1 = removed @ new \<and> (\<forall>x \<in> set new. fst x = c \<and> named_dir parse_uuid x)"
        using Inr cleanup_remove_named by (cases dir) (auto simp: removed1_def)
      then have all1: "\<forall>x \<in> set removed1. row_gone w2 x \<or> (\<exists>e. r2 = Inl e) \<and> row_going w2 x" using kept2 own by (metis Un_iff prod.collapse set_append)
      show ?thesis
      proof (cases r2)
        case (Inl e2)
        then have "removed' = removed1" "w' = w2" "err = Some e2"
          using Cons.prems(1) claim yes Inr complete by (simp_all add: removed1_def)
        then show ?thesis using split1 all1 by auto
      next
        case r2: (Inr u)
        then have "cleanup_loop parse_uuid remove_all cs (Suc n) removed1 w2 = (n', err, removed', w')"
          using Cons.prems(1) claim yes Inr complete by (simp add: removed1_def)
        moreover have "\<forall>x \<in> set removed1. row_gone w2 x" using all1 r2 by auto
        ultimately have "\<exists>new. removed' = removed1 @ new \<and> (\<forall>x \<in> set new. fst x \<in> set cs \<and> named_dir parse_uuid x)
          \<and> (\<forall>x \<in> set removed'. row_gone w' x \<or> err \<noteq> None \<and> row_going w' x)" by (rule Cons.IH)
        then show ?thesis using split1 by fastforce
      qed
    qed
  qed
qed auto

text \<open>
  C34: the cleaner removes nothing but expired attachments, and never a row's only trace. Every directory it removes is named after the id and the
  session of an attachment that had been ready or failed with an expired deadline; by the end of the round the row of that attachment says so: it is
  deleted, or, if the round was cut short by an error, still being deleted.
\<close>

theorem cleaner_removes_only_expired:
  assumes "Cleaner_Run has_store limit parse_uuid remove_all w = (n, err, removed, w')" and "\<not> parse_uuid []"
  shows "\<forall>c dir. (c, dir) \<in> set removed \<longrightarrow>
    (\<exists>a \<in> set (attachments w). expired (clock w) a \<and> f_id a = EA_ID c \<and> f_session_id a = Some (Base (Dir dir)) \<and> Base dir = f_id a
      \<and> attachment_workspace w a = Some (EA_WorkspaceDir c))
    \<and> parse_uuid (Base dir) \<and> parse_uuid (Base (Dir dir))
    \<and> (\<exists>a \<in> set (attachments w'). f_id a = EA_ID c \<and> (f_state a = AttDeleted \<or> err \<noteq> None \<and> f_state a = AttDeleting))"
proof (intro allI impI)
  fix c dir assume mem: "(c, dir) \<in> set removed"
  then obtain candidates w1 where listed: "ListExpiredAttachments (if limit \<le> 0 then 100 else limit) w = (Inr candidates, w1)"
      and loop: "cleanup_loop parse_uuid remove_all candidates 0 [] w1 = (n, err, removed, w')"
    using assms by (auto simp: Cleaner_Run_def split: if_splits prod.splits sum.splits)
  have "attachment_workspace (pop_fault w) = attachment_workspace w"
    by (simp add: attachment_workspace_def fun_eq_iff split: option.split)
  then have "expired_rows (pop_fault w) = expired_rows w" by (simp add: expired_rows_def)
  then have "set candidates \<subseteq> set (expired_rows w)" using listed
    by (auto simp: ListExpiredAttachments_def op_Inr split: if_splits dest: in_set_takeD)
  moreover have safe: "c \<in> set candidates" "named_dir parse_uuid (c, dir)" "row_gone w' (c, dir) \<or> err \<noteq> None \<and> row_going w' (c, dir)"
    using cleanup_loop_safe [OF loop] mem by auto
  ultimately obtain a ws where a: "a \<in> set (attachments w)" "expired (clock w) a" "attachment_workspace w a = Some ws" "c = expired_record a ws"
    by (auto simp: expired_rows_def map_filter_def)
  have "f_session_id a = Some (EA_SessionID c)"
    using safe(2) a(4) assms(2) by (auto simp: named_dir_def expired_record_def split: option.splits)
  then show "(\<exists>a \<in> set (attachments w). expired (clock w) a \<and> f_id a = EA_ID c \<and> f_session_id a = Some (Base (Dir dir)) \<and> Base dir = f_id a
      \<and> attachment_workspace w a = Some (EA_WorkspaceDir c))
    \<and> parse_uuid (Base dir) \<and> parse_uuid (Base (Dir dir))
    \<and> (\<exists>a \<in> set (attachments w'). f_id a = EA_ID c \<and> (f_state a = AttDeleted \<or> err \<noteq> None \<and> f_state a = AttDeleting))"
    using a safe(2,3) by (auto simp: named_dir_def row_gone_def row_going_def expired_record_def)
qed

definition ex_due :: world where
  "ex_due = ex_files\<lparr>attachments := [ex_attachment\<lparr>f_id := ''aid'', f_state := AttReady, f_retention_deadline := Some 0, f_session_id := Some ''sid'',
      f_relative_path := Some (stored_path ''/srv/ws'' (payload_path ex_disk ex_input))\<rparr>],
     apps := [ex_app\<lparr>a_workspace_dir := ''/srv/ws''\<rparr>]\<rparr>"

lemma ex_due_listed: "ListExpiredAttachments 10 ex_due = (Inr [ex_expired], ex_due)"
  by (simp add: ListExpiredAttachments_def op_defs expired_rows_def ex_due_def expired_def attachment_workspace_def expired_record_def ex_expired_def
      map_filter_def ex_attachment_def staged_row_def ex_files_def ex_store_def empty_world_def ex_app_def new_group_def)

lemma ex_removed: "cleanup_remove (\<lambda>s. s \<noteq> []) (\<lambda>path. None) ex_expired = Inr (Some (attachment_dir (dk_sha ex_disk) ex_input))"
  by (rule cleanup_published [OF ex_plain]) (simp_all add: ex_expired_def ex_download_simps)

lemma ex_cleaned:
  "fst (snd (snd (Cleaner_Run True 10 (\<lambda>s. s \<noteq> []) (\<lambda>path. None) ex_due))) = [(ex_expired, attachment_dir (dk_sha ex_disk) ex_input)]"
proof -
  have "fst (ClaimAttachmentDeletion (EA_ID ex_expired) ex_due) = Inr True"
    by (simp add: ClaimAttachmentDeletion_def op_defs update_attachments_def ex_due_def ex_expired_def expired_def ex_attachment_def staged_row_def)
  then obtain w1 where "ClaimAttachmentDeletion (EA_ID ex_expired) ex_due = (Inr True, w1)" by (metis prod.collapse)
  then show ?thesis by (simp add: Cleaner_Run_def ex_due_listed ex_removed Let_def split: prod.split sum.split)
qed

theorem cleaner_removes_only_expired_witness:
  "\<exists>a \<in> set (attachments (snd (snd (snd (Cleaner_Run True 10 (\<lambda>s. s \<noteq> []) (\<lambda>path. None) ex_due))))). f_id a = ''aid''
    \<and> (f_state a = AttDeleted \<or> f_state a = AttDeleting)"
proof -
  obtain n err removed w' where run: "Cleaner_Run True 10 (\<lambda>s. s \<noteq> []) (\<lambda>path. None) ex_due = (n, err, removed, w')" using prod_cases4 by blast
  then show ?thesis using cleaner_removes_only_expired [OF run] ex_cleaned by (auto simp: ex_expired_def)
qed

section \<open>Prepared batches\<close>

definition prepared_row :: "Service \<Rightarrow> preparation \<Rightarrow> attachment_row \<Rightarrow> bool" where
  "prepared_row s pr a \<longleftrightarrow> f_state a = AttReady \<and> f_session_id a = Some (pr_session pr) \<and> f_relative_path a \<noteq> None \<and> f_source_ref a = None
     \<and> f_retention_deadline a = Some (pr_now pr + retention s)
     \<and> (\<exists>n. f_byte_size a = Some n \<and> 0 < n \<and> n \<le> MaxFileBytes (sv_processor s))"

text \<open>No operation of a preparation touches a row that is ready.\<close>

definition keeps_ready :: "world \<Rightarrow> world \<Rightarrow> bool" where
  "keeps_ready w w' \<longleftrightarrow> (\<forall>a \<in> set (attachments w). f_state a = AttReady \<longrightarrow> a \<in> set (attachments w'))"

interpretation ready: world_relation keeps_ready
  by unfold_locales (auto simp: keeps_ready_def)

lemma ready_update:
  assumes "\<And>a. p a \<Longrightarrow> f_state a \<noteq> AttReady"
  shows "preserves keeps_ready (exec (update_attachments p f))"
  by (rule ready.preserves_exec, rule preservesI) (use assms in \<open>force simp: keeps_ready_def update_attachments_def set_sql_update\<close>)

lemma ready_complete: "preserves keeps_ready (exec (update_ready c))"
  by (rule ready.preserves_exec, rule preservesI)
    (force simp: keeps_ready_def update_ready_def update_attachments_def set_sql_update attempt_of_def)

lemma ready_ops:
  "preserves keeps_ready (GetAttachmentForWorker i)" "preserves keeps_ready (ClaimAttachment i k l)"
  "preserves keeps_ready (CompleteAttachment c)" "preserves keeps_ready (FailAttachment i k code d)"
  unfolding GetAttachmentForWorker_def ClaimAttachment_def CompleteAttachment_def FailAttachment_def
  by (intro ready.preserves_intros ready_update ready_complete; auto simp: attempt_of_def split: option.splits)+

lemma complete_attachment_ready:
  assumes "CompleteAttachment c w = (Inr u, w')"
  obtains a0 where "ready_row c a0 \<in> set (attachments w')" "f_id a0 = AC_ID c"
proof -
  let ?p = "attempt_of (AC_ID c) (AC_AttemptID c)"
  from assms have "0 < sql_affected ?p (ready_row c) (attachments w)" and w': "attachments w' = sql_update ?p (ready_row c) (attachments w)"
    by (auto simp: CompleteAttachment_def op_Inr update_ready_def update_attachments_def split: if_splits)
  from sql_affected_pos_ex [OF this(1)] obtain a where "a \<in> set (attachments w)" "?p a" by blast
  then show thesis using that [of a] by (auto simp: w' set_sql_update attempt_of_def intro!: image_eqI [of _ _ a])
qed

lemma prepare_claimed_ready:
  assumes "prepare_claimed s pr b d r files w = (Inr ins, files1, w1)"
  shows "keeps_ready w w1 \<and> ins \<noteq> [] \<and> (\<exists>a \<in> set (attachments w1). f_id a = AR_ID r \<and> prepared_row s pr a)"
proof -
  let ?c = "\<lambda>res. \<lparr>AC_ID = AR_ID r, AC_AttemptID = pr_attempt pr, AC_ObservedMIME = R_ObservedMIME res, AC_SHA256 = R_SHA256 res,
    AC_SessionID = pr_session pr, AC_RelativePath = R_RelativePath res, AC_ByteSize = R_ByteSize res, AC_RetentionDeadline = pr_now pr + retention s\<rparr>"
  obtain key res where m: "Materialize (use_processor s (Runtime_ID (Batch_Runtime b))) d (input_of s pr b r key) files = (Inr res, files1)"
      and c: "CompleteAttachment (?c res) w = (Inr (), w1)"
      and ins: "ins = attachment_inputs r res (localAttachmentPath (Runtime_WorkspaceDir (Batch_Runtime b)) (R_RelativePath res))"
    using assms by (auto simp: prepare_claimed_def Let_def split: sum.splits prod.splits)
  from m have n: "0 < R_ByteSize res \<and> R_ByteSize res \<le> MaxFileBytes (sv_processor s)"
    by (cases rule: materialize_cases) (auto simp: use_processor_def split: if_splits)
  obtain a where a: "ready_row (?c res) a \<in> set (attachments w1)" "f_id a = AR_ID r" using complete_attachment_ready [OF c] by auto
  have "prepared_row s pr (ready_row (?c res) a)" using n by (simp add: prepared_row_def ready_row_def)
  then show ?thesis using a preservesD [OF ready_ops(3), of w "?c res"] c ins
    by (auto simp: ready_row_def attachment_inputs_def intro!: bexI [of _ "ready_row (?c res) a"])
qed

lemma get_attachment_id: "GetAttachmentForWorker i w = (Inr r, w1) \<Longrightarrow> AR_ID r = i"
proof -
  assume g: "GetAttachmentForWorker i w = (Inr r, w1)"
  then obtain a where a: "sql_first (\<lambda>a. f_id a = i \<and> unfinished a) (attachments w) = Some a" "AR_ID r = f_id a"
    unfolding GetAttachmentForWorker_def and_then_Inr_iff query_Inr_iff case_option_Inr_iff by auto
  then show ?thesis using sql_first_SomeD [OF a(1)] by simp
qed

lemma prepare_loop_step:
  assumes "prepare_loop s pr b n (i # is) files w = (Inr ins, files', w')"
  obtains r w1 w2 files1 w3 ins1 rest where "GetAttachmentForWorker i w = (Inr r, w1)"
    "ClaimAttachment (AR_ID r) (pr_attempt pr) (pr_now pr + minutes 2) w1 = (Inr True, w2)"
    "prepare_claimed s pr b (pr_disk pr n) r files w2 = (Inr ins1, files1, w3)"
    "prepare_loop s pr b (Suc n) is files1 w3 = (Inr rest, files', w')" "ins = ins1 @ rest"
proof -
  obtain v w1 where g: "GetAttachmentForWorker i w = (v, w1)" by fastforce
  with assms obtain r where v: "v = Inr r" by (cases v) auto
  obtain u w2 where c: "ClaimAttachment (AR_ID r) (pr_attempt pr) (pr_now pr + minutes 2) w1 = (u, w2)" by fastforce
  have u: "u = Inr True" using assms g v c by (cases u) (auto split: bool.splits)
  obtain q files1 w3 where p: "prepare_claimed s pr b (pr_disk pr n) r files w2 = (q, files1, w3)" using prod_cases3 by blast
  with assms g v c u obtain ins1 where q: "q = Inr ins1" by (cases q) auto
  obtain x files2 w4 where l: "prepare_loop s pr b (Suc n) is files1 w3 = (x, files2, w4)" using prod_cases3 by blast
  with assms g v c u p q obtain rest where "x = Inr rest" "ins = ins1 @ rest" "files2 = files'" "w4 = w'" by (cases x) auto
  then show thesis using that g v c u p q l by blast
qed

lemma prepare_loop_ready:
  assumes "prepare_loop s pr b n is files w = (Inr ins, files', w')"
  shows "keeps_ready w w' \<and> length is \<le> length ins \<and> (\<forall>i \<in> set is. \<exists>a \<in> set (attachments w'). f_id a = i \<and> prepared_row s pr a)"
  using assms
proof (induction "is" arbitrary: n files w ins)
  case Nil
  then show ?case by (simp add: keeps_ready_def)
next
  case (Cons i "is")
  obtain r w1 w2 files1 w3 ins1 rest where g: "GetAttachmentForWorker i w = (Inr r, w1)"
      and c: "ClaimAttachment (AR_ID r) (pr_attempt pr) (pr_now pr + minutes 2) w1 = (Inr True, w2)"
      and p: "prepare_claimed s pr b (pr_disk pr n) r files w2 = (Inr ins1, files1, w3)"
      and l: "prepare_loop s pr b (Suc n) is files1 w3 = (Inr rest, files', w')" and ins: "ins = ins1 @ rest"
    using prepare_loop_step [OF Cons.prems] .
  have "AR_ID r = i" using g by (rule get_attachment_id)
  then obtain a where a: "a \<in> set (attachments w3)" "f_id a = i" "prepared_row s pr a" and ne: "ins1 \<noteq> []"
    using prepare_claimed_ready [OF p] by blast
  have IH: "keeps_ready w3 w'" "length is \<le> length rest" "\<forall>i \<in> set is. \<exists>a \<in> set (attachments w'). f_id a = i \<and> prepared_row s pr a"
    using Cons.IH [OF l] by blast+
  have "keeps_ready w w1" "keeps_ready w1 w2" "keeps_ready w2 w3"
    using preservesD [OF ready_ops(1), of w i] g preservesD [OF ready_ops(2), of w1 "AR_ID r" "pr_attempt pr" "pr_now pr + minutes 2"] c
      prepare_claimed_ready [OF p] by simp_all
  then have "keeps_ready w w'" using IH(1) ready.rel_trans by blast
  moreover have "a \<in> set (attachments w')" using IH(1) a by (simp add: keeps_ready_def prepared_row_def)
  moreover have "length (i # is) \<le> length ins" using IH(2) ne ins by (cases ins1) auto
  ultimately show ?case using a IH(3) by auto
qed

text \<open>
  A batch reaches the agent only with all its attachments. If a preparation succeeds, every attachment the message names is stored: its row is
  ready, under the session of this turn, with a size within the limit, a path, a retention deadline and its download reference erased, and
  the agent's input has at least one item for each.
\<close>

lemma prepared_batch_complete:
  assumes "Prepare s pr b files w = (Inr inputs, files', w')"
  shows "(\<exists>m. Batch_Messages b = [m] \<and> Msg_HasRequiredAttachment m \<and> Msg_AttachmentIDs m \<noteq> [] \<and> length (Msg_AttachmentIDs m) \<le> length inputs
    \<and> (\<forall>i \<in> set (Msg_AttachmentIDs m). \<exists>a \<in> set (attachments w'). f_id a = i \<and> prepared_row s pr a))"
proof -
  have valid: "batch_valid s b" and loop: "prepare_loop s pr b 0 (Msg_AttachmentIDs (hd (Batch_Messages b))) files w = (Inr inputs, files', w')"
    using assms by (auto simp: Prepare_def split: if_splits option.splits)
  from valid obtain m where "Batch_Messages b = [m]" "Msg_HasRequiredAttachment m" "Msg_AttachmentIDs m \<noteq> []"
    by (auto simp: batch_valid_def split: list.splits)
  then show ?thesis using prepare_loop_ready [OF loop] by auto
qed

definition ex_files_service :: Service where
  "ex_files_service = \<lparr>sv_store = True, sv_opener = Some ex_protector, sv_aead = ex_aead, sv_processor = \<lparr>has_Downloader = True, MaxFileBytes = 4\<rparr>,
     sv_downloaders = Map.empty, sv_has_downloaders = False, sv_RootDir = ''inbox'', sv_Retention = 60\<rparr>"

definition ex_preparation :: preparation where
  "ex_preparation = \<lparr>pr_session = ''sid'', pr_attempt = ''k1'', pr_now = 0, pr_outbox = None, pr_disk = (\<lambda>n. ex_disk)\<rparr>"

definition ex_runtime :: AppRuntime where
  "ex_runtime = \<lparr>Runtime_ID = ''app'', Runtime_WorkspaceDir = ''/srv/ws'', Runtime_WorkspaceMode = [], Runtime_Model = [], Runtime_Effort = []\<rparr>"

definition ex_file_batch :: Batch where
  "ex_file_batch = \<lparr>Batch_ID = ''b'', Batch_Key = P2PKey ''ou'' ''app'', Batch_Runtime = ex_runtime,
     Batch_Messages = [\<lparr>Msg_ID = ''m1'', Msg_TraceID = [], Msg_ChatGroupID = ''g'', Msg_ChatType = ''p2p'', Msg_ChatID = ''c'', Msg_Key = P2PKey ''ou'' ''app'',
       Msg_Runtime = ex_runtime, Msg_Reply = \<lparr>Reply_ID = ''om'', Reply_Type = ''message''\<rparr>, Msg_ActorOpenID = ''ou'', Msg_Query = [], Msg_ReceivedAt = 0,
       Msg_HasRequiredAttachment = True, Msg_AttachmentIDs = [''f1''], Msg_AttachmentOutboxDir = [], Msg_Goal = False, Msg_ScheduledTaskID = [],
       Msg_ScheduledTaskRunID = [], Msg_ScheduledClaimToken = []\<rparr>],
     Batch_Goal = False, Batch_ScheduledTaskID = [], Batch_ScheduledTaskRunID = [], Batch_ScheduledClaimToken = []\<rparr>"

definition ex_staged :: world where
  "ex_staged = ex_files\<lparr>attachments := [ex_attachment\<lparr>f_source_ref := Some (replicate 12 (CHR ''n'') @ ''key''), f_source_key_version := Some 1\<rparr>]\<rparr>"

lemma ex_materializes:
  assumes "input_complete p i" and "I_Kind i = ''file''" and "MaxFileBytes p = 4"
  shows "\<exists>res files'. Materialize p ex_disk i files = (Inr res, files')"
  using assms by (simp add: Materialize_def write_part_def publish_def observedMIME_def ex_disk_simps Let_def)

lemma ex_staged_simps [simp]:
  "faults ex_staged = []" "attachments ex_staged = [ex_attachment\<lparr>f_source_ref := Some (replicate 12 (CHR ''n'') @ ''key''), f_source_key_version := Some 1\<rparr>]"
  by (simp_all add: ex_staged_def)

lemma ex_prepared: "\<exists>inputs files' w'. Prepare ex_files_service ex_preparation ex_file_batch Map.empty ex_staged = (Inr inputs, files', w')"
proof -
  let ?a = "ex_attachment\<lparr>f_source_ref := Some (replicate 12 (CHR ''n'') @ ''key''), f_source_key_version := Some 1\<rparr>"
  let ?a1 = "?a\<lparr>f_state := AttProcessing, f_attempt_id := Some ''k1'', f_lease_until := Some (minutes 2), f_error_code := None\<rparr>"
  let ?w1 = "ex_staged\<lparr>attachments := [?a1]\<rparr>"
  let ?r = "\<lparr>AR_ID = ''f1'', AR_SourceMessageID = f_source_message_id ?a, AR_OriginalNameSafe = f_original_name ?a, AR_DeclaredMIME = f_declared_mime ?a,
     AR_Kind = f_kind ?a, AR_SourceResourceRefEnc = replicate 12 (CHR ''n'') @ ''key'', AR_SourceRefKeyVersion = 1\<rparr>"
  let ?in = "input_of ex_files_service ex_preparation ex_file_batch ?r ''key''"
  have kind: "f_kind ?a = ''file''" "f_source_message_id ?a = ''om''" by (simp_all add: ex_attachment_def staged_row_def)
  have get: "GetAttachmentForWorker ''f1'' ex_staged = (Inr ?r, ex_staged)"
    by (simp add: GetAttachmentForWorker_def op_defs unfinished_def)
  have claim: "ClaimAttachment ''f1'' ''k1'' (minutes 2) ex_staged = (Inr True, ?w1)"
    by (simp add: ClaimAttachment_def op_defs update_attachments_def) (simp add: ex_attachment_def staged_row_def)
  have opened: "Reference_Open ex_aead ex_protector ''app'' ''f1'' ''om'' (replicate 12 (CHR ''n'') @ ''key'') 1 = Inr ''key''"
    by (simp add: Reference_Open_def ex_protector_def ex_aead_def key_of_def)
  have ws: "trim_space ''inbox'' \<noteq> []" by code_simp
  have "input_complete (sv_processor ex_files_service) ?in"
    using ws kind by (simp add: input_complete_def input_of_def ex_files_service_def ex_preparation_def ex_file_batch_def ex_runtime_def Key_String_def P2PKey_def)
  from ex_materializes [OF this, of Map.empty]
  obtain res files' where m: "Materialize (sv_processor ex_files_service) ex_disk ?in Map.empty = (Inr res, files')"
    using kind by (auto simp: input_of_def ex_files_service_def)
  have complete: "\<exists>w2. CompleteAttachment \<lparr>AC_ID = ''f1'', AC_AttemptID = ''k1'', AC_ObservedMIME = mt, AC_SHA256 = sha, AC_SessionID = ''sid'',
      AC_RelativePath = path, AC_ByteSize = n, AC_RetentionDeadline = t\<rparr> ?w1 = (Inr (), w2)" for mt sha path n t
    by (simp add: CompleteAttachment_def op_defs update_ready_def update_attachments_def attempt_of_def ready_row_def)
      (simp add: ex_attachment_def staged_row_def)
  have "\<exists>ins w2. prepare_claimed ex_files_service ex_preparation ex_file_batch ex_disk ?r Map.empty ?w1 = (Inr ins, files', w2)"
    using opened kind m complete [of "R_ObservedMIME res" "R_SHA256 res" "R_RelativePath res" "R_ByteSize res" "retention ex_files_service"]
    by (auto simp: prepare_claimed_def Let_def use_processor_def ex_files_service_def ex_preparation_def ex_file_batch_def ex_runtime_def)
  then obtain ins w2 where "prepare_claimed ex_files_service ex_preparation ex_file_batch ex_disk ?r Map.empty ?w1 = (Inr ins, files', w2)" by blast
  then have "prepare_loop ex_files_service ex_preparation ex_file_batch 0 [''f1''] Map.empty ex_staged = (Inr ins, files', w2)"
    using get claim by (simp add: ex_preparation_def)
  moreover have "batch_valid ex_files_service ex_file_batch"
    by (simp add: batch_valid_def ex_files_service_def ex_file_batch_def ex_runtime_def)
  moreover have "Msg_AttachmentIDs (hd (Batch_Messages ex_file_batch)) = [''f1'']" by (simp add: ex_file_batch_def)
  moreover have "pr_outbox ex_preparation = None" by (simp add: ex_preparation_def)
  ultimately show ?thesis by (simp add: Prepare_def)
qed

lemma prepared_batch_complete_witness:
  "\<exists>inputs files' w'. Prepare ex_files_service ex_preparation ex_file_batch Map.empty ex_staged = (Inr inputs, files', w') \<and> inputs \<noteq> []"
  using ex_prepared prepared_batch_complete [of ex_files_service ex_preparation ex_file_batch Map.empty ex_staged] by fastforce

end
