(* ===== verification/Server_Start.thy ===== *)
theory Server_Start
  imports Schedule_System Attachment_Files
begin

text \<open>
  The start of the server (\<open>cmd/server/main.go\<close>): before any event is received the stores are brought out of the states a killed
  process left them in. An error of any of these steps ends the process. Configuration, the log files and the migrations around them
  are not part of the model.
\<close>

text \<open>The stores of messages and attachments; the answer of the cleaner lists the directories it removed.\<close>

definition start_stores :: "go_time \<Rightarrow> (string \<Rightarrow> bool) \<Rightarrow> (string \<Rightarrow> go_error option) \<Rightarrow> unit op" where
  "start_stores attachmentRetentionDeadline parse_uuid remove_all =
     and_then ReconcileAbandonedCompanionDeliveries id (\<lambda>_.
     and_then (ReconcileInterruptedAttachments attachmentRetentionDeadline) id (\<lambda>_ w.
       case Cleaner_Run True 0 parse_uuid remove_all w of (_, None, _, w1) \<Rightarrow> (Inr (), w1) | (_, Some err, _, w1) \<Rightarrow> (Inl err, w1)))"

text \<open>The schedule, when it is enabled.\<close>

definition start_schedule :: "Repository \<Rightarrow> go_time \<Rightarrow> unit op" where
  "start_schedule repository now =
     and_then (ReconcileInterruptedRuns repository now) id (\<lambda>_.
     and_then (ReconcileExpiredToolCalls repository now) id (\<lambda>_.
     and_then (ReconcileInFlightDeliveries repository now) id (\<lambda>_. ret ())))"

section \<open>The cleaner keeps what was settled\<close>

definition nothing_waits :: "world \<Rightarrow> bool" where
  "nothing_waits w \<longleftrightarrow> abandoned_batches w = [] \<and> (\<forall>a \<in> set (attachments w). \<not> unfinished a)"

interpretation waits: world_invariant nothing_waits
  by unfold_locales (simp add: nothing_waits_def abandoned_batches_def)

lemma waits_update:
  assumes "\<And>w a. p w a \<Longrightarrow> \<not> unfinished a \<Longrightarrow> \<not> unfinished (f w a)"
  shows "preserves (\<lambda>w w'. nothing_waits w \<longrightarrow> nothing_waits w') (exec (\<lambda>w. update_attachments (p w) (f w) w))"
  by (rule waits.inv_rel.preserves_exec, rule preservesI)
    (use assms in \<open>auto simp: nothing_waits_def update_attachments_def set_sql_update abandoned_batches_def\<close>)

lemma waits_ops:
  "preserves (\<lambda>w w'. nothing_waits w \<longrightarrow> nothing_waits w') (ListExpiredAttachments limit)"
  "preserves (\<lambda>w w'. nothing_waits w \<longrightarrow> nothing_waits w') (ClaimAttachmentDeletion i)"
  "preserves (\<lambda>w w'. nothing_waits w \<longrightarrow> nothing_waits w') (CompleteAttachmentDeletion i)"
  "preserves (\<lambda>w w'. nothing_waits w \<longrightarrow> nothing_waits w') (RestoreAttachmentDeletion i state)"
  unfolding ListExpiredAttachments_def ClaimAttachmentDeletion_def CompleteAttachmentDeletion_def RestoreAttachmentDeletion_def
  by (intro waits.inv_rel.preserves_intros waits_update waits_update [where p = "\<lambda>_. p" and f = "\<lambda>_. f" for p f]; auto simp: unfinished_def)+

lemma cleanup_loop_waits: "nothing_waits w \<Longrightarrow> nothing_waits (snd (snd (snd (cleanup_loop parse_uuid remove_all cs n removed w))))"
proof (induction cs arbitrary: n removed w)
  case (Cons c cs)
  obtain r w1 where claim: "ClaimAttachmentDeletion (EA_ID c) w = (r, w1)" by fastforce
  have w1: "nothing_waits w1" using preservesD [OF waits_ops(2), of w "EA_ID c"] claim Cons.prems by simp
  obtain r2 w2 where restore: "RestoreAttachmentDeletion (EA_ID c) (EA_State c) w1 = (r2, w2)" by fastforce
  have w2: "nothing_waits w2" using preservesD [OF waits_ops(4), of w1 "EA_ID c" "EA_State c"] restore w1 by simp
  obtain r3 w3 where complete: "CompleteAttachmentDeletion (EA_ID c) w1 = (r3, w3)" by fastforce
  have w3: "nothing_waits w3" using preservesD [OF waits_ops(3), of w1 "EA_ID c"] complete w1 by simp
  show ?case using claim restore complete w1 w2 w3 Cons.IH
    by (simp add: Let_def split: sum.split bool.split)
qed simp

lemma Cleaner_waits: "nothing_waits w \<Longrightarrow> nothing_waits (snd (snd (snd (Cleaner_Run b limit parse_uuid remove_all w))))"
  using preservesD [OF waits_ops(1), of w "if limit \<le> 0 then 100 else limit"]
  by (auto simp: Cleaner_Run_def cleanup_loop_waits split: prod.split sum.split)

section \<open>Properties\<close>

text \<open>
  C26: a restart leaves nothing in flight. With a working connection the reconciliations of the message store and of the attachments turn
  exactly the batches in delivery and the attachments that wait for a download into their documented outcome, whatever the cleaner
  does afterwards; those of the schedule succeed and leave no run active, no tool call with an expired lease open and no delivery in flight.
\<close>

theorem restart_leaves_nothing_in_flight:
  assumes "faults w = []" and "\<not> is_zero_time deadline" and "has_DB r" and "\<not> is_zero_time now"
  shows "abandoned_batches (snd (start_stores deadline parse_uuid remove_all w)) = []
    \<and> (\<forall>a \<in> set (attachments (snd (start_stores deadline parse_uuid remove_all w))). \<not> unfinished a)
    \<and> fst (start_schedule r now w) = Inr ()
    \<and> (\<forall>x \<in> set (scheduled_task_runs (snd (start_schedule r now w))). terminal (r_state x))
    \<and> (\<forall>c \<in> set (scheduled_task_tool_calls (snd (start_schedule r now w))). c_state c = ToolCallClaimed \<or> c_state c = ToolCallInFlight \<longrightarrow>
        (\<forall>l. c_lease_until c = Some l \<longrightarrow> now \<le> l))
    \<and> (\<forall>d \<in> set (scheduled_task_deliveries (snd (start_schedule r now w))). \<not> (d_stage d = Some DeliveryInFlight \<and> d_outcome d = None))"
proof -
  let ?w1 = "snd (ReconcileAbandonedCompanionDeliveries w)" and ?w2 = "\<lambda>w. snd (ReconcileInterruptedAttachments deadline w)"
  have m: "fst (ReconcileAbandonedCompanionDeliveries w) = Inr (length (abandoned_batches w))" "faults ?w1 = []"
    using conjunct1 [OF restart_abandons_deliveries [OF assms(1)]] assms(1) by simp_all
  have none: "abandoned_batches ?w1 = []" using restart_abandons_deliveries [OF assms(1)] by (rule conjunct2)
  have a: "\<exists>n. fst (ReconcileInterruptedAttachments deadline ?w1) = Inr n" "\<forall>a \<in> set (attachments (?w2 ?w1)). \<not> unfinished a"
    using restart_settles_attachments [OF m(2) assms(2)] by blast+
  have "messages (?w2 ?w1) = messages ?w1" using m(2) assms(2) by (simp add: ReconcileInterruptedAttachments_def op_defs update_attachments_def)
  then have "nothing_waits (?w2 ?w1)" using none a(2) by (simp add: nothing_waits_def abandoned_batches_def)
  moreover have "snd (start_stores deadline parse_uuid remove_all w) = snd (snd (snd (Cleaner_Run True 0 parse_uuid remove_all (?w2 ?w1))))"
    using m(1) a(1) by (auto simp: start_stores_def and_then_def split: prod.splits option.splits)
  ultimately have "nothing_waits (snd (start_stores deadline parse_uuid remove_all w))" using Cleaner_waits by simp
  moreover have "\<not> (c_state c = ToolCallClaimed \<or> c_state c = ToolCallInFlight)
      \<or> \<not> (case c_lease_until c of None \<Rightarrow> False | Some l \<Rightarrow> l < now) \<Longrightarrow> c_state c = ToolCallClaimed \<or> c_state c = ToolCallInFlight \<Longrightarrow>
      c_lease_until c = Some l \<Longrightarrow> now \<le> l" for c l
    by (auto split: option.splits)
  ultimately show ?thesis using assms
    by (auto simp: nothing_waits_def start_schedule_def ReconcileInterruptedRuns_def ReconcileExpiredToolCalls_def ReconcileInFlightDeliveries_def op_defs
        update_runs_def update_tool_calls_def update_deliveries_def sql_update_def active_run_iff)
qed

theorem restart_leaves_nothing_in_flight_witness:
  "abandoned_batches (snd (start_stores 9 (\<lambda>s. True) (\<lambda>path. None) (ex_store\<lparr>messages := [start_row ''b'' 0 (ex_row ''m1'')]\<rparr>))) = []"
  using restart_leaves_nothing_in_flight [of "ex_store\<lparr>messages := [start_row ''b'' 0 (ex_row ''m1'')]\<rparr>" 9 ex_repo 5]
  by (simp add: is_zero_time_def zero_time_def)

end
