(* ===== verification/Schedule_Crypto.thy ===== *)
theory Schedule_Crypto
  imports Schedule_Tasks Key_Protectors
begin

text \<open>
  The sealed values and the signed cursors of \<open>internal/schedule/crypto.go\<close>. AES-GCM is the \<open>aead\<close> of
  \<open>Key_Protectors\<close>; HMAC-SHA256 and the JSON texts of a binding and of a cursor are arguments;
  \<open>encoding/hex\<close> and \<open>base64.RawURLEncoding\<close> are written out.
\<close>

section \<open>Hexadecimal\<close>

definition hex_value :: "char \<Rightarrow> nat" where
  "hex_value c = (let b = byte_val c in if b \<le> 57 then b - 48 else if b \<le> 70 then b - 55 else b - 87)"

fun hex_pairs :: "string \<Rightarrow> string" where
  "hex_pairs (a # b # s) = mk_byte (16 * hex_value a + hex_value b) # hex_pairs s"
| "hex_pairs _ = []"

text \<open>\<open>hex.DecodeString\<close>.\<close>

definition hex_decode :: "string \<Rightarrow> string option" where
  "hex_decode s = (if hex_ok s then Some (hex_pairs s) else None)"

lemma hex_value_char: "n < 16 \<Longrightarrow> hex_value (hex_char n) = n"
  by (auto simp: hex_value_def hex_char_def Let_def)

lemma hex_decode_encode [simp]: "hex_decode (hex_encode s) = Some s"
proof -
  have "hex_pairs (hex_encode s) = s"
  proof (induction s)
    case (Cons c s)
    have "byte_val c div 16 < 16" using byte_val_less [of c] by linarith
    then show ?case using Cons by (simp add: hex_encode_def hex_value_char)
  qed (simp add: hex_encode_def)
  then show ?thesis by (simp add: hex_decode_def hex_encode_ok)
qed

section \<open>Unpadded base64 of URLs\<close>

definition url_char :: "nat \<Rightarrow> char" where
  "url_char n = (if n < 26 then mk_byte (65 + n) else if n < 52 then mk_byte (71 + n) else if n < 62 then mk_byte (n - 4)
     else if n = 62 then CHR ''-'' else CHR ''_'')"

definition url_value :: "char \<Rightarrow> nat option" where
  "url_value c = (let b = byte_val c in if 65 \<le> b \<and> b \<le> 90 then Some (b - 65) else if 97 \<le> b \<and> b \<le> 122 then Some (b - 71)
     else if 48 \<le> b \<and> b \<le> 57 then Some (b + 4) else if b = 45 then Some 62 else if b = 95 then Some 63 else None)"

fun url_encode :: "string \<Rightarrow> string" where
  "url_encode [] = []"
| "url_encode [a] = [url_char (byte_val a div 4), url_char (byte_val a mod 4 * 16)]"
| "url_encode [a, b] = [url_char (byte_val a div 4), url_char (byte_val a mod 4 * 16 + byte_val b div 16), url_char (byte_val b mod 16 * 4)]"
| "url_encode (a # b # c # s) = url_char (byte_val a div 4) # url_char (byte_val a mod 4 * 16 + byte_val b div 16)
     # url_char (byte_val b mod 16 * 4 + byte_val c div 64) # url_char (byte_val c mod 64) # url_encode s"

text \<open>
  The decoder skips line breaks, takes groups of four digits and accepts a last group of two or three, whose spare bits it ignores.
\<close>

fun url_groups :: "nat list \<Rightarrow> string option" where
  "url_groups [] = Some []"
| "url_groups [a] = None"
| "url_groups [a, b] = Some [mk_byte (a * 4 + b div 16)]"
| "url_groups [a, b, c] = Some [mk_byte (a * 4 + b div 16), mk_byte (b * 16 + c div 4)]"
| "url_groups (a # b # c # d # s) = map_option (\<lambda>t. mk_byte (a * 4 + b div 16) # mk_byte (b * 16 + c div 4) # mk_byte (c * 64 + d) # t) (url_groups s)"

definition line_break :: "char \<Rightarrow> bool" where
  "line_break c \<longleftrightarrow> byte_val c = 10 \<or> byte_val c = 13"

definition url_decode :: "string \<Rightarrow> string option" where
  "url_decode s = (let vs = map url_value (filter (\<lambda>c. \<not> line_break c) s) in
     if list_ex (\<lambda>v. v = None) vs then None else url_groups (map the vs))"

lemma url_char_byte:
  "n < 64 \<Longrightarrow> byte_val (url_char n) = (if n < 26 then 65 + n else if n < 52 then 71 + n else if n < 62 then n - 4 else if n = 62 then 45 else 95)"
  by (simp add: url_char_def byte_val_def [of "CHR ''-''"] byte_val_def [of "CHR ''_''"])

lemma url_value_char: "n < 64 \<Longrightarrow> url_value (url_char n) = Some n \<and> \<not> line_break (url_char n) \<and> url_char n \<noteq> CHR ''.''"
proof -
  assume n: "n < 64"
  have "byte_val (url_char n) \<noteq> byte_val CHR ''.''" unfolding url_char_byte [OF n] by (simp add: byte_val_def) arith
  then have "url_char n \<noteq> CHR ''.''" by metis
  then show ?thesis using n by (auto simp: url_value_def line_break_def Let_def url_char_byte)
qed

lemma mk_byte_eqI: "n mod 256 = byte_val c \<Longrightarrow> mk_byte n = c"
  by (metis byte_val_mk_byte mk_byte_byte_val)

lemma sextets:
  "byte_val a div 4 < 64" "byte_val a mod 4 * 16 < 64" "byte_val a mod 4 * 16 + byte_val b div 16 < 64" "byte_val b mod 16 * 4 < 64"
  "byte_val b mod 16 * 4 + byte_val c div 64 < 64" "byte_val c mod 64 < 64"
  using byte_val_less [of a] byte_val_less [of b] byte_val_less [of c] by linarith+

lemma octets:
  "byte_val b div 16 div 16 = 0" "byte_val c div 64 div 4 = 0" "mk_byte (byte_val b + 256 * n) = b"
  using byte_val_less [of b] byte_val_less [of c] by (simp_all add: mk_byte_eqI div_mult2_eq [symmetric])

lemma url_decode_encode [simp]: "url_decode (url_encode s) = Some s"
proof -
  have "map url_value (filter (\<lambda>c. \<not> line_break c) (url_encode s)) = map Some (map (\<lambda>c. the (url_value c)) (url_encode s))
     \<and> url_groups (map (\<lambda>c. the (url_value c)) (url_encode s)) = Some s"
    by (induction s rule: url_encode.induct) (simp_all add: url_value_char sextets octets)
  then show ?thesis by (auto simp: url_decode_def Let_def list_ex_iff comp_def)
qed

lemma url_encode_no_dot: "CHR ''.'' \<notin> set (url_encode s)"
proof (induction s rule: url_encode.induct)
  case (4 a b c s)
  then show ?case using url_value_char [OF sextets(1), of a] url_value_char [OF sextets(3), of a b] url_value_char [OF sextets(5), of b c]
    url_value_char [OF sextets(6), of c] by auto
next
  case (2 a)
  then show ?case using url_value_char [OF sextets(1), of a] url_value_char [OF sextets(2), of a] by auto
next
  case (3 a b)
  then show ?case using url_value_char [OF sextets(1), of a] url_value_char [OF sextets(3), of a b] url_value_char [OF sextets(4), of b] by auto
qed simp

section \<open>Sealed values\<close>

text \<open>The parameters: AES-GCM, the bytes of HMAC-SHA256 under a key, and the JSON texts.\<close>

record signedCursor =
  SC_OwnerHMAC :: string
  SC_UpdatedMS :: int
  SC_TaskID :: string
  SC_IssuedMS :: int
  SC_Version :: int

record PayloadBinding =
  PB_AppID :: string
  PB_ChatGroupID :: string
  PB_OwnerHMAC :: string
  PB_TaskID :: string
  PB_Version :: "64 word"
  PB_Kind :: string
  PB_Field :: string

record crypto_lib =
  lib_gcm :: aead
  lib_mac :: "string \<Rightarrow> string \<Rightarrow> string"
  lib_binding_json :: "PayloadBinding \<Rightarrow> string"
  lib_cursor_json :: "signedCursor \<Rightarrow> string"
  lib_parse_cursor :: "string \<Rightarrow> signedCursor option"

definition binding_validate :: "PayloadBinding \<Rightarrow> unit res" where
  "binding_validate b =
     (if trim_space (PB_AppID b) = [] \<or> trim_space (PB_ChatGroupID b) = [] \<or> trim_space (PB_OwnerHMAC b) = [] \<or> trim_space (PB_TaskID b) = []
        \<or> PB_Version b = 0 \<or> trim_space (PB_Kind b) = [] \<or> trim_space (PB_Field b) = []
      then Inl (Errorf ''schedule payload binding is incomplete'') else Inr ())"

record Sealed =
  Sealed_Ciphertext :: string
  Sealed_KeyVersion :: int
  Sealed_HMAC :: string
  Sealed_Bytes :: nat

definition VerifyHMAC :: "crypto_lib \<Rightarrow> Keyring \<Rightarrow> int \<Rightarrow> string \<Rightarrow> string \<Rightarrow> unit res" where
  "VerifyHMAC lib k version plaintext expected = (case Keyring_key k version of Inl err \<Rightarrow> Inl err
     | Inr key \<Rightarrow> (case hex_decode expected of None \<Rightarrow> Inl (Errorf ''schedule HMAC is malformed'')
         | Some provided \<Rightarrow> if provided \<noteq> lib_mac lib key plaintext then Inl (Errorf ''schedule HMAC verification failed'') else Inr ()))"

definition Protector_Seal :: "crypto_lib \<Rightarrow> nonce_source \<Rightarrow> Keyring \<Rightarrow> PayloadBinding \<Rightarrow> string \<Rightarrow> Sealed res" where
  "Protector_Seal lib rand payloads binding plaintext = (case binding_validate binding of Inl err \<Rightarrow> Inl err
     | Inr _ \<Rightarrow> (case activeKey payloads of Inl err \<Rightarrow> Inl err
     | Inr (key, version) \<Rightarrow> (case NewCipher key of Inl err \<Rightarrow> Inl (Wrapf ''create schedule cipher'' err)
     | Inr block \<Rightarrow> (case rand of Inl err \<Rightarrow> Inl (Wrapf ''generate schedule nonce'' err)
     | Inr nonce \<Rightarrow> Inr \<lparr>Sealed_Ciphertext = nonce @ gcm_seal (lib_gcm lib) block nonce plaintext (lib_binding_json lib binding),
         Sealed_KeyVersion = version, Sealed_HMAC = hex_encode (lib_mac lib key plaintext), Sealed_Bytes = length plaintext\<rparr>))))"

definition Protector_Open :: "crypto_lib \<Rightarrow> Keyring \<Rightarrow> PayloadBinding \<Rightarrow> Sealed \<Rightarrow> string res" where
  "Protector_Open lib payloads binding sealed = (case binding_validate binding of Inl err \<Rightarrow> Inl err
     | Inr _ \<Rightarrow> (case Keyring_key payloads (Sealed_KeyVersion sealed) of Inl err \<Rightarrow> Inl err
     | Inr key \<Rightarrow> (case NewCipher key of Inl err \<Rightarrow> Inl (Wrapf ''create schedule cipher'' err)
     | Inr block \<Rightarrow> if length (Sealed_Ciphertext sealed) < NonceSize then Inl (Errorf ''schedule ciphertext is malformed'')
         else (case gcm_open (lib_gcm lib) block (take NonceSize (Sealed_Ciphertext sealed)) (drop NonceSize (Sealed_Ciphertext sealed))
             (lib_binding_json lib binding) of
           None \<Rightarrow> Inl (Wrapf ''decrypt schedule payload'' (Sentinel ''cipher: message authentication failed''))
         | Some plaintext \<Rightarrow> if Sealed_HMAC sealed \<noteq> [] \<and> hex_decode (Sealed_HMAC sealed) \<noteq> Some (lib_mac lib key plaintext)
             then Inl (Errorf ''schedule payload integrity check failed'') else Inr plaintext))))"

section \<open>Cursors\<close>

text \<open>\<open>strings.Split\<close> at a single character.\<close>

fun split_at :: "char \<Rightarrow> string \<Rightarrow> string list" where
  "split_at d [] = [[]]"
| "split_at d (c # s) = (if c = d then [] # split_at d s else (case split_at d s of [] \<Rightarrow> [[c]] | p # ps \<Rightarrow> (c # p) # ps))"

definition cursor_invalid :: "CursorPosition res" where
  "cursor_invalid = Inl (Errorf ''schedule cursor is invalid'')"

definition Cursor_Encode :: "crypto_lib \<Rightarrow> Keyring \<Rightarrow> go_time \<Rightarrow> string \<Rightarrow> CursorPosition \<Rightarrow> string res" where
  "Cursor_Encode lib cursorKeys now ownerHMAC position =
     (if trim_space ownerHMAC = [] \<or> trim_space (Cursor_TaskID position) = [] \<or> is_zero_time (Cursor_UpdatedAt position)
        then Inl (Errorf ''schedule cursor position is invalid'')
      else case activeKey cursorKeys of Inl err \<Rightarrow> Inl err
      | Inr (key, version) \<Rightarrow> (let payload = lib_cursor_json lib \<lparr>SC_OwnerHMAC = ownerHMAC, SC_UpdatedMS = Cursor_UpdatedAt position,
            SC_TaskID = Cursor_TaskID position, SC_IssuedMS = now, SC_Version = version\<rparr> in
          Inr (url_encode payload @ ''.'' @ url_encode (lib_mac lib key payload))))"

definition Cursor_Decode :: "crypto_lib \<Rightarrow> Keyring \<Rightarrow> go_time \<Rightarrow> string \<Rightarrow> string \<Rightarrow> CursorPosition res" where
  "Cursor_Decode lib cursorKeys now ownerHMAC token = (case split_at CHR ''.'' token of
       [part0, part1] \<Rightarrow> if trim_space ownerHMAC = [] then cursor_invalid
         else (case url_decode part0 of None \<Rightarrow> cursor_invalid
         | Some payload \<Rightarrow> (case lib_parse_cursor lib payload of None \<Rightarrow> cursor_invalid
         | Some cursor \<Rightarrow> (case Keyring_key cursorKeys (SC_Version cursor) of Inl _ \<Rightarrow> cursor_invalid
         | Inr key \<Rightarrow> (case url_decode part1 of None \<Rightarrow> cursor_invalid
         | Some provided \<Rightarrow>
             if provided \<noteq> lib_mac lib key payload \<or> SC_OwnerHMAC cursor \<noteq> ownerHMAC \<or> SC_TaskID cursor = [] then cursor_invalid
             else if SC_IssuedMS cursor + minutes 15 < now then Inl (Errorf ''schedule cursor is expired'')
             else Inr \<lparr>Cursor_UpdatedAt = SC_UpdatedMS cursor, Cursor_TaskID = SC_TaskID cursor\<rparr>))))
     | _ \<Rightarrow> cursor_invalid)"

section \<open>Round trips\<close>

lemma split_at_none: "d \<notin> set s \<Longrightarrow> split_at d s = [s]"
  by (induction s) auto

lemma split_at_step: "d \<notin> set a \<Longrightarrow> split_at d (a @ d # b) = a # split_at d b"
  by (induction a) auto

lemma split_at_one: "d \<notin> set a \<Longrightarrow> d \<notin> set b \<Longrightarrow> split_at d (a @ d # b) = [a, b]"
  by (simp add: split_at_step split_at_none)

text \<open>
  What \<open>encoding/json\<close> does for a cursor whose strings are valid UTF-8: the text it writes is read back.
\<close>

definition cursor_json_ok :: "crypto_lib \<Rightarrow> bool" where
  "cursor_json_ok lib \<longleftrightarrow> (\<forall>c. valid_string (SC_OwnerHMAC c) \<and> valid_string (SC_TaskID c) \<longrightarrow> lib_parse_cursor lib (lib_cursor_json lib c) = Some c)"

text \<open>The second keyring still has every key of the first.\<close>

definition keeps_keys :: "Keyring \<Rightarrow> Keyring \<Rightarrow> bool" where
  "keeps_keys k k' \<longleftrightarrow> (\<forall>v. keys k v \<noteq> None \<longrightarrow> keys k' v = keys k v)"

lemma kept_key:
  assumes "activeKey k = Inr (key, version)" and "keeps_keys k k'"
  shows "Keyring_key k' version = Inr key" and "length key = 32"
  using assms by (auto simp: activeKey_def Keyring_key_def key_bytes_def keeps_keys_def split: if_splits option.splits)

lemma payload_roundtrip:
  assumes "aead_correct (lib_gcm lib)" and "nonce_ok rand" and "keeps_keys k k'" and "Protector_Seal lib rand k binding plaintext = Inr sealed"
  shows "Protector_Open lib k' binding sealed = Inr plaintext"
proof -
  from assms(4) obtain key version block nonce where s: "binding_validate binding = Inr ()" "activeKey k = Inr (key, version)"
    "NewCipher key = Inr block" "rand = Inr nonce"
    "sealed = \<lparr>Sealed_Ciphertext = nonce @ gcm_seal (lib_gcm lib) block nonce plaintext (lib_binding_json lib binding),
         Sealed_KeyVersion = version, Sealed_HMAC = hex_encode (lib_mac lib key plaintext), Sealed_Bytes = length plaintext\<rparr>"
    by (auto simp: Protector_Seal_def split: sum.splits prod.splits)
  have "length nonce = NonceSize" using assms(2) s(4) by (simp add: nonce_ok_def)
  then show ?thesis using s kept_key [OF s(2) assms(3)] assms(1) by (simp add: Protector_Open_def aead_correct_def)
qed

section \<open>Property\<close>


text \<open>A concrete text for cursors that can be read back: the strings in hexadecimal, the numbers in unary.\<close>

definition ex_num :: "int \<Rightarrow> string" where
  "ex_num n = (if n < 0 then CHR ''-'' else CHR ''+'') # replicate (nat \<bar>n\<bar>) CHR ''1''"

definition ex_value :: "string \<Rightarrow> int" where
  "ex_value s = (if take 1 s = ''-'' then - int (length s - 1) else int (length s - 1))"

definition ex_cursor_json :: "signedCursor \<Rightarrow> string" where
  "ex_cursor_json c = hex_encode (SC_OwnerHMAC c) @ CHR '','' # hex_encode (SC_TaskID c) @ CHR '','' # ex_num (SC_UpdatedMS c)
     @ CHR '','' # ex_num (SC_IssuedMS c) @ CHR '','' # ex_num (SC_Version c)"

definition ex_parse_cursor :: "string \<Rightarrow> signedCursor option" where
  "ex_parse_cursor s = (case split_at CHR '','' s of
       [owner, task, updated, issued, version] \<Rightarrow> Some \<lparr>SC_OwnerHMAC = the (hex_decode owner), SC_UpdatedMS = ex_value updated,
         SC_TaskID = the (hex_decode task), SC_IssuedMS = ex_value issued, SC_Version = ex_value version\<rparr>
     | _ \<Rightarrow> None)"

definition ex_lib :: crypto_lib where
  "ex_lib = \<lparr>lib_gcm = ex_aead, lib_mac = (\<lambda>key s. take 3 s), lib_binding_json = PB_TaskID, lib_cursor_json = ex_cursor_json,
     lib_parse_cursor = ex_parse_cursor\<rparr>"

definition ex_ring :: Keyring where
  "ex_ring = \<lparr>keys = [1 \<mapsto> replicate 32 CHR ''k''], active = 1\<rparr>"

lemma comma_free: "CHR '','' \<notin> set (hex_encode s)" "CHR '','' \<notin> set (ex_num n)"
proof -
  have "list_all hex_digit (hex_encode s)" using hex_encode_ok(1) [of s] by (simp add: hex_ok_def)
  moreover have "\<not> hex_digit CHR '',''" by (simp add: hex_digit_def byte_val_def Let_def)
  ultimately show "CHR '','' \<notin> set (hex_encode s)" by (auto simp: list_all_iff)
qed (simp add: ex_num_def)

lemma ex_value_num [simp]: "ex_value (ex_num n) = n"
  by (simp add: ex_value_def ex_num_def)

lemma ex_json_ok: "cursor_json_ok ex_lib"
  by (simp add: cursor_json_ok_def ex_lib_def ex_cursor_json_def ex_parse_cursor_def split_at_step split_at_none comma_free)


end
