(* ===== verification/Tool_Types.thy ===== *)
theory Tool_Types
  imports Bot_World
begin

text \<open>
  The calls of dynamic tools and their results (\<open>internal/codexapp/processor.go\<close>), shared by the two tool services.
\<close>

record ToolCall =
  TCall_ThreadID :: string
  TCall_TurnID :: string
  TCall_CallID :: string
  TCall_Tool :: string
  TCall_Arguments :: string

record ToolContentItem =
  Item_Type :: string
  Item_Text :: string

record ToolResult =
  Tool_Success :: bool
  Tool_ContentItems :: "ToolContentItem list"

definition toolSuccess :: "string \<Rightarrow> ToolResult" where
  "toolSuccess text = \<lparr>Tool_Success = True, Tool_ContentItems = [\<lparr>Item_Type = ''inputText'', Item_Text = text\<rparr>]\<rparr>"

definition toolFailure :: "string \<Rightarrow> ToolResult" where
  "toolFailure text = \<lparr>Tool_Success = False, Tool_ContentItems = [\<lparr>Item_Type = ''inputText'', Item_Text = text\<rparr>]\<rparr>"

end
