(* ===== verification/Schedule_Action.thy ===== *)
theory Schedule_Action
  imports Schedule_Tools Schedule_Crypto Tool_Types
begin

text \<open>
  The schedule tools of a turn (\<open>internal/scheduleaction/service.go\<close>): a call's arguments are decoded and validated, the owner comes
  from the worker's route, and the store runs the call through its ledger. The store is the \<open>Repository\<close>; flags say
  which of the interfaces it is handed in for. JSON is given by the decoders and encoders of a call's types.
\<close>

section \<open>Data\<close>

definition toolList :: string where
  "toolList = ''schedule.list_own''"

definition toolCreate :: string where
  "toolCreate = ''schedule.create''"

definition toolUpdate :: string where
  "toolUpdate = ''schedule.update''"

record Route =
  SRoute_AppID :: string
  SRoute_ChannelKey :: string
  SRoute_ChatGroupID :: string
  SRoute_ActorOpenID :: string

record createArgs =
  Create_Kind :: task_kind
  Create_Prompt :: "string option"
  Create_Command :: "string option"
  Create_CronExpression :: string
  Create_Silent :: "bool option"

record listArgs =
  List_PageSize :: "int option"
  List_Cursor :: "string option"

record updateArgs =
  Update_ID :: string
  Update_Version :: "64 word"
  Update_Kind :: "task_kind option"
  Update_CronExpression :: "string option"
  Update_Silent :: "bool option"
  Update_Enabled :: "bool option"
  Update_Prompt :: "string option"
  Update_Command :: "string option"

record taskView =
  View_ID :: string
  View_Kind :: task_kind
  View_Prompt :: string
  View_Command :: string
  View_CronExpression :: string
  View_Timezone :: string
  View_Silent :: bool
  View_Enabled :: bool
  View_Version :: "64 word"
  View_NextRunAt :: string

record taskPageResponse =
  PageResponse_Tasks :: "taskView list"
  PageResponse_NextCursor :: string

record taskMutationResponse =
  Mutation_View :: taskView
  Mutation_EffectiveFrom :: string

text \<open>
  The libraries: one \<open>Decode\<close> with unknown fields refused gives the value and the rest of the input, \<open>decodes_empty\<close> says whether a second
  \<open>Decode\<close> into an empty struct succeeds on the rest.
\<close>

record tool_json =
  decode_create :: "string \<Rightarrow> (createArgs \<times> string) option"
  decode_list :: "string \<Rightarrow> (listArgs \<times> string) option"
  decode_update :: "string \<Rightarrow> (updateArgs \<times> string) option"
  decodes_empty :: "string \<Rightarrow> bool"
  marshal_task :: "taskMutationResponse \<Rightarrow> string res"
  marshal_page :: "taskPageResponse \<Rightarrow> string res"
  format_utc :: "go_time \<Rightarrow> string"

record Service =
  s_json :: tool_json
  s_repo :: Repository
  s_lib :: crypto_lib
  s_has_Store :: bool
  s_has_AtomicCreate :: bool
  s_has_AtomicList :: bool
  s_has_AtomicUpdate :: bool
  s_Cursors :: Keyring
  s_has_OwnerHMAC :: bool
  s_ArgumentsHMAC :: "(string \<Rightarrow> string res) option"
  s_ScriptsEnabled :: bool

text \<open>What a call draws while it runs: the times the store and the cursor codec read and the new ids.\<close>

record draws =
  dr_now :: go_time
  dr_now2 :: go_time
  dr_task_id :: string
  dr_call_id :: string

section \<open>Helpers\<close>

definition route_owner :: "Route \<Rightarrow> Owner" where
  "route_owner r = \<lparr>AppID = SRoute_AppID r, ChatGroupID = SRoute_ChatGroupID r, OpenID = SRoute_ActorOpenID r\<rparr>"

definition canonicalTool :: "string \<Rightarrow> string" where
  "canonicalTool tool = (if tool = ''list_own'' then toolList else if tool = ''create'' then toolCreate
     else if tool = ''update'' then toolUpdate else tool)"

definition decode :: "(string \<Rightarrow> ('a \<times> string) option) \<Rightarrow> (string \<Rightarrow> bool) \<Rightarrow> string \<Rightarrow> 'a option" where
  "decode dec again raw = (case dec raw of None \<Rightarrow> None | Some (v, rest) \<Rightarrow> if again rest then None else Some v)"

definition validCron :: "Repository \<Rightarrow> string \<Rightarrow> bool" where
  "validCron r value = (case ParseCron r value of Inl _ \<Rightarrow> False | Inr _ \<Rightarrow> True)"

definition validPrompt :: "string \<Rightarrow> bool" where
  "validPrompt value \<longleftrightarrow> valid_string value \<and> 1 \<le> length value \<and> length value \<le> 16 * 1024"

definition validCommand :: "string \<Rightarrow> bool" where
  "validCommand value \<longleftrightarrow> valid_string value \<and> 1 \<le> length (trim_space value) \<and> length value \<le> 16 * 1024"

definition toolCallErrorCode :: "go_error \<Rightarrow> string" where
  "toolCallErrorCode err =
     (if errors_is err ErrTaskQuota then ''schedule_quota_exceeded''
      else if errors_is err ErrToolCallConflict then ''schedule_tool_call_conflict''
      else if errors_is err ErrToolCallBusy then ''schedule_tool_call_busy''
      else ''schedule_store_failed'')"

definition updateErrorCode :: "go_error \<Rightarrow> string" where
  "updateErrorCode err =
     (if errors_is err ErrTaskNotFound then ''schedule_not_found''
      else if errors_is err ErrVersionConflict then ''schedule_version_conflict''
      else toolCallErrorCode err)"

definition createErrorCode :: "go_error \<Rightarrow> string" where
  "createErrorCode err =
     (if errors_is err ErrTaskQuota then ''schedule_quota_exceeded''
      else if contains (error_text err) ''cron'' then ''schedule_invalid_cron''
      else ''schedule_store_failed'')"

definition toolCallInput :: "Owner \<Rightarrow> string \<Rightarrow> ToolCall \<Rightarrow> string \<Rightarrow> ToolCallInput" where
  "toolCallInput owner channelKey call argumentsHMAC = \<lparr>Input_ID = [],
     Input_Identity = \<lparr>Call_AppID = AppID owner, Call_ChannelKey = channelKey, Call_ChatGroupID = ChatGroupID owner,
       Call_ThreadID = TCall_ThreadID call, Call_TurnID = TCall_TurnID call, Call_CallID = TCall_CallID call,
       Call_Tool = canonicalTool (TCall_Tool call)\<rparr>,
     Input_ArgumentsHMAC = argumentsHMAC, Input_Lease = 0\<rparr>"

definition argumentsHMAC :: "Service \<Rightarrow> string \<Rightarrow> string res" where
  "argumentsHMAC s raw = (case s_ArgumentsHMAC s of None \<Rightarrow> Inl (Errorf ''schedule arguments hmac is unavailable'') | Some f \<Rightarrow> f raw)"

definition next_text :: "tool_json \<Rightarrow> go_time \<Rightarrow> string" where
  "next_text j t = (if is_zero_time t then [] else format_utc j t)"

definition taskViewFor :: "tool_json \<Rightarrow> OwnedTask \<Rightarrow> taskView" where
  "taskViewFor j task = (let t = Owned_Task task in
     \<lparr>View_ID = Task_ID t, View_Kind = Task_Kind t, View_Prompt = (if Task_Kind t = TaskPrompt then Owned_Payload task else []),
      View_Command = (if Task_Kind t = TaskPrompt then [] else Owned_Payload task), View_CronExpression = Task_CronExpression t,
      View_Timezone = Task_Timezone t, View_Silent = Task_Silent t, View_Enabled = Task_Enabled t, View_Version = Task_Version t,
      View_NextRunAt = next_text j (Task_NextRunAt t)\<rparr>)"

definition taskResponse :: "tool_json \<Rightarrow> Task \<Rightarrow> string \<Rightarrow> taskMutationResponse" where
  "taskResponse j t effective =
     \<lparr>Mutation_View = \<lparr>View_ID = Task_ID t, View_Kind = Task_Kind t, View_Prompt = [], View_Command = [],
        View_CronExpression = Task_CronExpression t, View_Timezone = Task_Timezone t, View_Silent = Task_Silent t,
        View_Enabled = Task_Enabled t, View_Version = Task_Version t, View_NextRunAt = next_text j (Task_NextRunAt t)\<rparr>,
      Mutation_EffectiveFrom = effective\<rparr>"

definition ownerHMAC_of :: "Service \<Rightarrow> Owner \<Rightarrow> string res" where
  "ownerHMAC_of s owner = (if \<not> s_has_OwnerHMAC s then Inl (Errorf ''schedule owner hmac is unavailable'') else OwnerHMAC (s_repo s) owner)"

definition encodeTaskPage :: "Service \<Rightarrow> go_time \<Rightarrow> Owner \<Rightarrow> TaskPage \<Rightarrow> string res" where
  "encodeTaskPage s now owner page =
     (let tasks = map (taskViewFor (s_json s)) (Page_Tasks page) in
      case Page_Next page of None \<Rightarrow> marshal_page (s_json s) \<lparr>PageResponse_Tasks = tasks, PageResponse_NextCursor = []\<rparr>
      | Some position \<Rightarrow> (case ownerHMAC_of s owner of Inl err \<Rightarrow> Inl err
          | Inr hmac \<Rightarrow> (case Cursor_Encode (s_lib s) (s_Cursors s) now hmac position of Inl err \<Rightarrow> Inl err
              | Inr cursor \<Rightarrow> marshal_page (s_json s) \<lparr>PageResponse_Tasks = tasks, PageResponse_NextCursor = cursor\<rparr>)))"

section \<open>The tools\<close>

text \<open>A call changes the world and always answers a result.\<close>

type_synonym tool_op = "world \<Rightarrow> ToolResult \<times> world"

definition refused :: "string \<Rightarrow> tool_op" where
  "refused code w = (toolFailure code, w)"

definition executed :: "(go_error \<Rightarrow> string) \<Rightarrow> ToolCallExecution op \<Rightarrow> tool_op" where
  "executed code m w = (case m w of
       (Inl err, w') \<Rightarrow> (toolFailure (code err), w')
     | (Inr execution, w') \<Rightarrow> (if \<not> Exec_Success execution then toolFailure (Exec_ErrorCode execution)
         else toolSuccess (Exec_Payload execution), w'))"

text \<open>A call of a store without a ledger, whose answer is encoded afterwards.\<close>

definition stored :: "(go_error \<Rightarrow> string) \<Rightarrow> string \<Rightarrow> ('a \<Rightarrow> string res) \<Rightarrow> 'a op \<Rightarrow> tool_op" where
  "stored code encoding encode m w = (case m w of
       (Inl err, w') \<Rightarrow> (toolFailure (code err), w')
     | (Inr x, w') \<Rightarrow> (case encode x of Inl _ \<Rightarrow> toolFailure encoding | Inr text \<Rightarrow> toolSuccess text, w'))"

definition createPayload :: "Service \<Rightarrow> createArgs \<Rightarrow> string + string" where
  "createPayload s args = (case Create_Kind args of
       TaskPrompt \<Rightarrow> (case Create_Prompt args of
           Some p \<Rightarrow> if Create_Command args \<noteq> None \<or> \<not> validPrompt p then Inl ''schedule_invalid_payload'' else Inr p
         | None \<Rightarrow> Inl ''schedule_invalid_payload'')
     | TaskScript \<Rightarrow> (case Create_Command args of
           Some c \<Rightarrow> if Create_Prompt args \<noteq> None \<or> \<not> validCommand c then Inl ''schedule_invalid_payload''
             else if \<not> s_ScriptsEnabled s then Inl ''schedule_scripts_disabled'' else Inr c
         | None \<Rightarrow> Inl ''schedule_invalid_payload'')
     | TaskOther _ \<Rightarrow> Inl ''schedule_invalid_payload'')"

definition create_draft :: "Service \<Rightarrow> string \<Rightarrow> Owner \<Rightarrow> string \<Rightarrow> string + TaskDraft" where
  "create_draft s newID owner raw = (case decode (decode_create (s_json s)) (decodes_empty (s_json s)) raw of
       None \<Rightarrow> Inl ''schedule_invalid_payload''
     | Some args \<Rightarrow> (case Create_Silent args of None \<Rightarrow> Inl ''schedule_invalid_payload''
         | Some silent \<Rightarrow> if \<not> validCron (s_repo s) (Create_CronExpression args) then Inl ''schedule_invalid_cron''
             else (case createPayload s args of Inl code \<Rightarrow> Inl code
               | Inr payload \<Rightarrow> Inr \<lparr>Draft_ID = newID, Draft_Owner = owner, Draft_Kind = Create_Kind args,
                   Draft_CronExpression = trim_space (Create_CronExpression args), Draft_Payload = payload, Draft_Silent = silent\<rparr>)))"

definition create :: "Service \<Rightarrow> draws \<Rightarrow> Route \<Rightarrow> Owner \<Rightarrow> ToolCall \<Rightarrow> tool_op" where
  "create s d route owner call = (case create_draft s (dr_task_id d) owner (TCall_Arguments call) of
       Inl code \<Rightarrow> refused code
     | Inr draft \<Rightarrow> (let encode = (\<lambda>task. marshal_task (s_json s) (taskResponse (s_json s) task [])) in
         if s_has_AtomicCreate s then (case argumentsHMAC s (TCall_Arguments call) of
             Inl _ \<Rightarrow> refused ''schedule_store_failed''
           | Inr hmac \<Rightarrow> executed toolCallErrorCode (CreateTaskForToolCall (s_repo s) (dr_now d) (dr_now2 d) (dr_call_id d)
               (toolCallInput owner (SRoute_ChannelKey route) call hmac) draft (Some encode)))
         else stored createErrorCode ''schedule_store_failed'' encode (CreateTask (s_repo s) (dr_now d) draft)))"

definition list_position :: "Service \<Rightarrow> go_time \<Rightarrow> Owner \<Rightarrow> string \<Rightarrow> string + (CursorPosition option \<times> int)" where
  "list_position s now owner raw = (case decode (decode_list (s_json s)) (decodes_empty (s_json s)) raw of
       None \<Rightarrow> Inl ''schedule_invalid_cursor''
     | Some args \<Rightarrow> (let pageSize = (case List_PageSize args of None \<Rightarrow> 50 | Some n \<Rightarrow> n) in
         if pageSize < 1 \<or> pageSize > 100 then Inl ''schedule_invalid_cursor''
         else case List_Cursor args of None \<Rightarrow> Inr (None, pageSize)
         | Some cursor \<Rightarrow> (case ownerHMAC_of s owner of Inl _ \<Rightarrow> Inl ''schedule_list_failed''
             | Inr hmac \<Rightarrow> (case Cursor_Decode (s_lib s) (s_Cursors s) now hmac cursor of Inl _ \<Rightarrow> Inl ''schedule_invalid_cursor''
                 | Inr position \<Rightarrow> Inr (Some position, pageSize)))))"

definition tool_list :: "Service \<Rightarrow> draws \<Rightarrow> Route \<Rightarrow> Owner \<Rightarrow> ToolCall \<Rightarrow> tool_op" where
  "tool_list s d route owner call = (case list_position s (dr_now d) owner (TCall_Arguments call) of
       Inl code \<Rightarrow> refused code
     | Inr (after, pageSize) \<Rightarrow>
         if s_has_AtomicList s then (case argumentsHMAC s (TCall_Arguments call) of
             Inl _ \<Rightarrow> refused ''schedule_list_failed''
           | Inr hmac \<Rightarrow> executed toolCallErrorCode (ListOwnedTasksForToolCall (s_repo s) (dr_now d) (dr_call_id d)
               (toolCallInput owner (SRoute_ChannelKey route) call hmac) owner after pageSize (Some (encodeTaskPage s (dr_now2 d) owner))))
         else stored (\<lambda>_. ''schedule_list_failed'') ''schedule_list_failed'' (encodeTaskPage s (dr_now2 d) owner)
           (ListOwnedTasks (s_repo s) owner after pageSize))"

definition update_decoded :: "Service \<Rightarrow> string \<Rightarrow> string + updateArgs" where
  "update_decoded s raw = (case decode (decode_update (s_json s)) (decodes_empty (s_json s)) raw of
       None \<Rightarrow> Inl ''schedule_invalid_payload''
     | Some args \<Rightarrow>
         if trim_space (Update_ID args) = [] \<or> Update_Version args = 0
           \<or> (Update_CronExpression args = None \<and> Update_Silent args = None \<and> Update_Enabled args = None
               \<and> Update_Prompt args = None \<and> Update_Command args = None)
           \<or> (Update_Prompt args \<noteq> None \<and> Update_Command args \<noteq> None) then Inl ''schedule_invalid_payload''
         else (case Update_CronExpression args of None \<Rightarrow> Inr args
           | Some c \<Rightarrow> if validCron (s_repo s) c then Inr args else Inl ''schedule_invalid_cron''))"

text \<open>The kind of the stored task is looked at when the call names a kind or a payload.\<close>

definition update_kind_ok :: "updateArgs \<Rightarrow> task_kind \<Rightarrow> bool" where
  "update_kind_ok args kind \<longleftrightarrow> (Update_Kind args = None \<or> Update_Kind args = Some kind)
     \<and> (Update_Prompt args = None \<or> kind = TaskPrompt) \<and> (Update_Command args = None \<or> kind = TaskScript)"

definition update_checked :: "Service \<Rightarrow> Owner \<Rightarrow> updateArgs \<Rightarrow> (string option) op" where
  "update_checked s owner args =
     (if Update_Prompt args = None \<and> Update_Command args = None \<and> Update_Kind args = None then ret None
      else attempt (GetOwnedTask (s_repo s) owner (Update_ID args)) (\<lambda>found. case found of
          Inl err \<Rightarrow> ret (Some (if err = ErrTaskNotFound then ''schedule_not_found'' else ''schedule_store_failed''))
        | Inr current \<Rightarrow> ret (if update_kind_ok args (Task_Kind (Owned_Task current)) then None else Some ''schedule_invalid_payload'')))"

definition update_payload :: "Service \<Rightarrow> updateArgs \<Rightarrow> string + string option" where
  "update_payload s args =
     (if (case Update_Prompt args of Some p \<Rightarrow> \<not> validPrompt p | None \<Rightarrow> False) then Inl ''schedule_invalid_payload''
      else case Update_Command args of None \<Rightarrow> Inr (Update_Prompt args)
        | Some c \<Rightarrow> if \<not> validCommand c then Inl ''schedule_invalid_payload''
            else if \<not> s_ScriptsEnabled s then Inl ''schedule_scripts_disabled'' else Inr (Some c))"

definition update_patch :: "Owner \<Rightarrow> updateArgs \<Rightarrow> string option \<Rightarrow> TaskPatch" where
  "update_patch owner args payload = \<lparr>Patch_TaskID = Update_ID args, Patch_Owner = owner, Patch_ExpectedVersion = Update_Version args,
     Patch_CronExpression = Update_CronExpression args, Patch_Payload = payload, Patch_Silent = Update_Silent args,
     Patch_Enabled = Update_Enabled args\<rparr>"

definition updateStoreCode :: "go_error \<Rightarrow> string" where
  "updateStoreCode err = (if err = ErrTaskNotFound then ''schedule_not_found''
     else if err = ErrVersionConflict then ''schedule_version_conflict'' else ''schedule_store_failed'')"

definition update_run :: "Service \<Rightarrow> draws \<Rightarrow> Route \<Rightarrow> Owner \<Rightarrow> ToolCall \<Rightarrow> TaskPatch \<Rightarrow> tool_op" where
  "update_run s d route owner call patch =
     (let encode = (\<lambda>task. marshal_task (s_json s) (taskResponse (s_json s) task ''next_unclaimed_slot'')) in
      if s_has_AtomicUpdate s then (case argumentsHMAC s (TCall_Arguments call) of
          Inl _ \<Rightarrow> refused ''schedule_store_failed''
        | Inr hmac \<Rightarrow> executed updateErrorCode (UpdateTaskForToolCall (s_repo s) (dr_now d) (dr_now2 d) (dr_call_id d)
            (toolCallInput owner (SRoute_ChannelKey route) call hmac) patch (Some encode)))
      else stored updateStoreCode ''schedule_store_failed'' encode (UpdateTask (s_repo s) (dr_now d) patch))"

definition update :: "Service \<Rightarrow> draws \<Rightarrow> Route \<Rightarrow> Owner \<Rightarrow> ToolCall \<Rightarrow> tool_op" where
  "update s d route owner call w = (case update_decoded s (TCall_Arguments call) of
       Inl code \<Rightarrow> refused code w
     | Inr args \<Rightarrow> (case update_checked s owner args w of
           (Inr None, w1) \<Rightarrow> (case update_payload s args of Inl code \<Rightarrow> refused code w1
             | Inr payload \<Rightarrow> update_run s d route owner call (update_patch owner args payload) w1)
         | (Inr (Some code), w1) \<Rightarrow> refused code w1
         | (Inl err, w1) \<Rightarrow> refused (error_text err) w1))"

definition Schedule_Execute :: "Service \<Rightarrow> draws \<Rightarrow> Route \<Rightarrow> ToolCall \<Rightarrow> tool_op" where
  "Schedule_Execute s d route call =
     (let owner = route_owner route; tool = canonicalTool (TCall_Tool call) in
      if Owner_Validate owner \<noteq> Inr () then refused ''schedule_owner_ambiguous''
      else if \<not> s_has_Store s then refused ''schedule_store_failed''
      else if tool = toolCreate then create s d route owner call
      else if tool = toolList then tool_list s d route owner call
      else if tool = toolUpdate then update s d route owner call
      else refused ''tool is unavailable'')"

section \<open>The owner's rows\<close>

text \<open>Rows of others keep every column; a row of the owner stays the owner's and keeps its id and kind.\<close>

definition scope_moves :: "string \<Rightarrow> string \<Rightarrow> string \<Rightarrow> task_row \<Rightarrow> task_row \<Rightarrow> bool" where
  "scope_moves a g h t t' \<longleftrightarrow> t' = t \<or> (owned_by a g h t \<and> owned_by a g h t' \<and> t_id t' = t_id t \<and> t_kind t' = t_kind t)"

interpretation scope: ledger_table "scope_moves a g h" "\<lambda>t. \<not> owned_by a g h t" scheduled_tasks for a g h
  by unfold_locales (auto simp: scope_moves_def)

definition scope_rel :: "string \<Rightarrow> string \<Rightarrow> string \<Rightarrow> world \<Rightarrow> world \<Rightarrow> bool" where
  "scope_rel a g h w w' \<longleftrightarrow> evolves (scope_moves a g h) (scheduled_tasks w) (scheduled_tasks w')
     \<and> (\<forall>t' \<in> set (scheduled_tasks w'). t' \<in> set (scheduled_tasks w) \<or> owned_by a g h t')"

interpretation in_scope: world_relation "scope_rel a g h" for a g h
  by unfold_locales (auto simp: scope_rel_def scope.evolves_refl intro: scope.evolves_trans)

lemma scope_elsewhere: "(\<And>w. scheduled_tasks (snd (m w)) = scheduled_tasks w) \<Longrightarrow> preserves (scope_rel a g h) m"
  by (rule preservesI) (simp add: scope_rel_def scope.evolves_refl)

lemma scope_insert:
  assumes "\<And>w. owned_by a g h (row w)"
  shows "preserves (scope_rel a g h) (exec (\<lambda>w. insert_task (row w) w))"
  by (rule in_scope.preserves_exec, rule preservesI)
    (use assms in \<open>simp add: insert_task_def scope_rel_def scope.evolves_refl scope.evolves_append\<close>)

lemma scope_update:
  assumes "\<And>t. p t \<Longrightarrow> owned_by a g h t"
    and "\<And>t. t_id (f t) = t_id t \<and> t_kind (f t) = t_kind t \<and> t_app_id (f t) = t_app_id t \<and> t_chat_group_id (f t) = t_chat_group_id t \<and> t_owner_hmac (f t) = t_owner_hmac t"
  shows "preserves (scope_rel a g h) (exec (update_tasks p f))"
proof (rule in_scope.preserves_exec, rule preservesI)
  fix w :: world
  have step: "scope_moves a g h t (touch_task (clock w) f t)" "owned_by a g h (touch_task (clock w) f t)" if "p t" for t
    using assms(1) [OF that] assms(2) [of t] by (auto simp: scope_moves_def touch_task_def owned_by_def)
  then show "scope_rel a g h w (snd (update_tasks p f w))"
    by (auto simp: update_tasks_def scope_rel_def set_sql_update intro: scope.evolves_update)
qed

lemma scope_calls:
  "preserves (scope_rel a g h) (claimToolCallTx input now)" "preserves (scope_rel a g h) (completeToolCallTx i payload now)"
  "preserves (scope_rel a g h) (checkCreateQuotaTx r owner)" "preserves (scope_rel a g h) (listOwnedTasksQuery r owner after n)"
  "preserves (scope_rel a g h) (GetOwnedTask r owner i')"
  unfolding claimToolCallTx_def completeToolCallTx_def checkCreateQuotaTx_def listOwnedTasksQuery_def GetOwnedTask_def Let_def
  by (intro in_scope.preserves_intros in_scope.preserves_exec scope_elsewhere;
      simp add: insert_tool_call_def update_tool_calls_def)+

lemma scope_create:
  assumes "OwnerHMAC r (Draft_Owner draft) = Inr h"
  shows "preserves (scope_rel (AppID (Draft_Owner draft)) (ChatGroupID (Draft_Owner draft)) h) (createTaskExec r now draft)"
  unfolding createTaskExec_def assms sum.case Let_def
  by (intro in_scope.preserves_intros scope_insert) (simp add: owned_by_def)

lemma scope_patch:
  assumes "OwnerHMAC r (Patch_Owner patch) = Inr h"
  shows "preserves (scope_rel (AppID (Patch_Owner patch)) (ChatGroupID (Patch_Owner patch)) h) (updateTaskTx r now patch)"
  unfolding updateTaskTx_def assms sum.case updateStoredTask_def Let_def
  by (intro in_scope.preserves_intros scope_update) (simp_all add: owned_by_def)

lemma scope_tools:
  assumes "OwnerHMAC r owner = Inr h"
  shows "Draft_Owner draft = owner \<Longrightarrow> preserves (scope_rel (AppID owner) (ChatGroupID owner) h) (CreateTaskForToolCall r now now2 i input draft e1)"
    and "Draft_Owner draft = owner \<Longrightarrow> preserves (scope_rel (AppID owner) (ChatGroupID owner) h) (CreateTask r now draft)"
    and "preserves (scope_rel (AppID owner) (ChatGroupID owner) h) (ListOwnedTasksForToolCall r now i input owner after n e2)"
    and "preserves (scope_rel (AppID owner) (ChatGroupID owner) h) (ListOwnedTasks r owner after n)"
    and "Patch_Owner patch = owner \<Longrightarrow> preserves (scope_rel (AppID owner) (ChatGroupID owner) h) (UpdateTaskForToolCall r now now2 i input patch e3)"
    and "Patch_Owner patch = owner \<Longrightarrow> preserves (scope_rel (AppID owner) (ChatGroupID owner) h) (UpdateTask r now patch)"
  unfolding CreateTaskForToolCall_def ListOwnedTasksForToolCall_def UpdateTaskForToolCall_def CreateTask_def ListOwnedTasks_def UpdateTask_def
    createToolTx_def listToolTx_def updateToolTx_def
  using scope_create [of r draft h] scope_patch [of r patch h] assms
  by (auto intro!: in_scope.preserves_intros scope_calls)

section \<open>Validated calls\<close>

text \<open>What reaches the store: a draft or patch of the route's owner with an acceptable payload.\<close>

definition payload_ok :: "Service \<Rightarrow> task_kind \<Rightarrow> string \<Rightarrow> bool" where
  "payload_ok s kind p \<longleftrightarrow> valid_string p \<and> p \<noteq> [] \<and> length p \<le> 16384 \<and> (kind = TaskPrompt \<or> kind = TaskScript \<and> s_ScriptsEnabled s)"

definition draft_ok :: "Service \<Rightarrow> Owner \<Rightarrow> TaskDraft \<Rightarrow> bool" where
  "draft_ok s owner draft \<longleftrightarrow> Draft_Owner draft = owner \<and> payload_ok s (Draft_Kind draft) (Draft_Payload draft)
     \<and> (\<exists>cron. ParseCron (s_repo s) (Draft_CronExpression draft) = Inr cron)"

lemma validCommand_nonempty: "validCommand c \<Longrightarrow> c \<noteq> []"
  by (auto simp: validCommand_def)

lemma create_draft_ok: "create_draft s newID owner raw = Inr draft \<Longrightarrow> draft_ok s owner draft"
  by (auto simp: create_draft_def draft_ok_def payload_ok_def createPayload_def validPrompt_def validCommand_def validCron_def ParseCron_def Let_def
      split: option.splits sum.splits if_splits task_kind.splits)

definition patch_ok :: "Service \<Rightarrow> Owner \<Rightarrow> TaskPatch \<Rightarrow> bool" where
  "patch_ok s owner patch \<longleftrightarrow> Patch_Owner patch = owner \<and> trim_space (Patch_TaskID patch) \<noteq> [] \<and> Patch_ExpectedVersion patch \<noteq> 0
     \<and> (\<forall>p. Patch_Payload patch = Some p \<longrightarrow> payload_ok s TaskPrompt p)
     \<and> (\<forall>c. Patch_CronExpression patch = Some c \<longrightarrow> (\<exists>cron. ParseCron (s_repo s) c = Inr cron))"

lemma update_patch_ok:
  assumes "update_decoded s raw = Inr args" and "update_payload s args = Inr payload"
  shows "patch_ok s owner (update_patch owner args payload)"
proof -
  have "trim_space (Update_ID args) \<noteq> []" "Update_Version args \<noteq> 0" "Update_Prompt args = None \<or> Update_Command args = None"
    and cron: "\<forall>c. Update_CronExpression args = Some c \<longrightarrow> validCron (s_repo s) c"
    using assms(1) by (auto simp: update_decoded_def split: option.splits if_splits)
  moreover have "payload_ok s TaskPrompt p" if "payload = Some p" for p
    using assms(2) that by (auto simp: update_payload_def payload_ok_def validPrompt_def validCommand_def split: option.splits if_splits)
  moreover have "\<exists>cron. ParseCron (s_repo s) c = Inr cron" if "Update_CronExpression args = Some c" for c
    using cron that by (auto simp: validCron_def split: sum.splits)
  ultimately show ?thesis by (simp add: patch_ok_def update_patch_def)
qed

lemma list_position_bound: "list_position s now owner raw = Inr (after, n) \<Longrightarrow> 1 \<le> n \<and> n \<le> 100"
  by (auto simp: list_position_def Let_def split: option.splits if_splits sum.splits)

interpretation unchanged: world_relation "\<lambda>w w'. quiet w' = quiet w"
  by unfold_locales auto

lemma update_checked_quiet:
  "quiet (snd (update_checked s owner args w)) = quiet w" "\<exists>x. fst (update_checked s owner args w) = Inr x"
proof -
  have "preserves (\<lambda>w w'. quiet w' = quiet w) (update_checked s owner args)"
    unfolding update_checked_def GetOwnedTask_def by (intro unchanged.preserves_intros)
  then show "quiet (snd (update_checked s owner args w)) = quiet w" by (rule preservesD)
  show "\<exists>x. fst (update_checked s owner args w) = Inr x"
    by (simp add: update_checked_def attempt_def ret_def split: prod.split sum.split)
qed

lemma update_cases:
  obtains (refused) code w1 where "update s d route owner call w = (toolFailure code, w1)" "quiet w1 = quiet w"
  | (run) patch w1 where "update s d route owner call w = update_run s d route owner call patch w1" "patch_ok s owner patch" "quiet w1 = quiet w"
proof (cases "update_decoded s (TCall_Arguments call)")
  case (Inl code)
  then show thesis using refused by (simp add: update_def refused_def)
next
  case (Inr args)
  obtain x w1 where c: "update_checked s owner args w = (Inr x, w1)" "quiet w1 = quiet w"
    using update_checked_quiet [of s owner args w] by (metis prod.collapse)
  show thesis
  proof (cases x)
    case None
    show thesis
    proof (cases "update_payload s args")
      case (Inl code)
      then show thesis using refused c None \<open>update_decoded _ _ = Inr args\<close> by (simp add: update_def refused_def)
    next
      case p: (Inr payload)
      then show thesis using run c None Inr update_patch_ok [OF Inr p] by (simp add: update_def)
    qed
  next
    case (Some code)
    then show thesis using refused c Inr by (simp add: update_def refused_def)
  qed
qed

lemma snd_results [simp]:
  "snd (refused code w) = w" "snd (executed f m w) = snd (m w)" "snd (stored f e enc n w) = snd (n w)"
  by (simp_all add: refused_def executed_def stored_def split: prod.split sum.split)

lemma scope_quiet:
  assumes "quiet w1 = quiet w" and "scope_rel a g h w1 w'"
  shows "scope_rel a g h w w'"
proof -
  have "scheduled_tasks w1 = scheduled_tasks w" using arg_cong [OF assms(1), of scheduled_tasks] by simp
  then show ?thesis using assms(2) by (simp add: scope_rel_def)
qed

lemma execute_cases:
  "(\<exists>code. Schedule_Execute s d route call w = refused code w) \<or> Schedule_Execute s d route call w = create s d route (route_owner route) call w
     \<or> Schedule_Execute s d route call w = tool_list s d route (route_owner route) call w
     \<or> Schedule_Execute s d route call w = update s d route (route_owner route) call w"
  unfolding Schedule_Execute_def Let_def by (simp only: split: if_split) blast

lemma execute_in_scope:
  assumes "OwnerHMAC (s_repo s) (route_owner route) = Inr h"
  shows "scope_rel (SRoute_AppID route) (SRoute_ChatGroupID route) h w (snd (Schedule_Execute s d route call w))"
proof -
  let ?o = "route_owner route"
  let ?R = "scope_rel (SRoute_AppID route) (SRoute_ChatGroupID route) h"
  have own: "AppID ?o = SRoute_AppID route" "ChatGroupID ?o = SRoute_ChatGroupID route" by (simp_all add: route_owner_def)
  note tools = scope_tools [OF assms, unfolded own, THEN preservesD]
  have refl: "?R v v" for v by (rule in_scope.rel_refl)
  have c: "?R w (snd (create s d route ?o call w))"
  proof (cases "create_draft s (dr_task_id d) ?o (TCall_Arguments call)")
    case (Inr draft)
    then have "Draft_Owner draft = ?o" using create_draft_ok [of s] by (auto simp: draft_ok_def)
    then show ?thesis using Inr tools(1,2) refl by (simp add: create_def Let_def split: sum.split)
  qed (simp add: create_def refl)
  have l: "?R w (snd (tool_list s d route ?o call w))"
    using tools(3,4) refl by (simp add: tool_list_def split: sum.split prod.split)
  have u: "?R w (snd (update s d route ?o call w))"
  proof (cases rule: update_cases [of s d route ?o call w])
    case (refused code w1)
    then show ?thesis using scope_quiet [OF refused(2) refl] by simp
  next
    case (run patch w1)
    have "?R w1 (snd (update_run s d route ?o call patch w1))"
      using run(2) tools(5,6) refl by (simp add: patch_ok_def update_run_def Let_def split: sum.split)
    then show ?thesis unfolding run(1) by (rule scope_quiet [OF run(3)])
  qed
  show ?thesis using execute_cases [of s d route call w] c l u refl by (elim disjE exE) simp_all
qed

text \<open>The call is one call of the ledger with validated arguments.\<close>

definition reaches_ledger :: "Service \<Rightarrow> draws \<Rightarrow> Route \<Rightarrow> ToolCall \<Rightarrow> world \<Rightarrow> bool" where
  "reaches_ledger s d route call w \<longleftrightarrow>
     (\<exists>hmac draft enc. draft_ok s (route_owner route) draft \<and> Schedule_Execute s d route call w = executed toolCallErrorCode
        (CreateTaskForToolCall (s_repo s) (dr_now d) (dr_now2 d) (dr_call_id d) (toolCallInput (route_owner route) (SRoute_ChannelKey route) call hmac) draft (Some enc)) w)
    \<or> (\<exists>hmac after n enc. 1 \<le> n \<and> n \<le> 100 \<and> Schedule_Execute s d route call w = executed toolCallErrorCode
        (ListOwnedTasksForToolCall (s_repo s) (dr_now d) (dr_call_id d) (toolCallInput (route_owner route) (SRoute_ChannelKey route) call hmac) (route_owner route) after n (Some enc)) w)
    \<or> (\<exists>hmac patch enc w1. patch_ok s (route_owner route) patch \<and> quiet w1 = quiet w \<and> Schedule_Execute s d route call w = executed updateErrorCode
        (UpdateTaskForToolCall (s_repo s) (dr_now d) (dr_now2 d) (dr_call_id d) (toolCallInput (route_owner route) (SRoute_ChannelKey route) call hmac) patch (Some enc)) w1)"

abbreviation refused_quietly :: "Service \<Rightarrow> draws \<Rightarrow> Route \<Rightarrow> ToolCall \<Rightarrow> world \<Rightarrow> bool" where
  "refused_quietly s d route call w \<equiv> \<exists>code w1. Schedule_Execute s d route call w = (toolFailure code, w1) \<and> quiet w1 = quiet w"

lemma refused_is_quiet: "Schedule_Execute s d route call w = refused code w \<Longrightarrow> refused_quietly s d route call w"
  by (auto simp: refused_def)

lemma create_validated:
  assumes "s_has_AtomicCreate s" and c: "Schedule_Execute s d route call w = create s d route (route_owner route) call w"
  shows "refused_quietly s d route call w \<or> reaches_ledger s d route call w"
proof (cases "create_draft s (dr_task_id d) (route_owner route) (TCall_Arguments call)")
  case (Inl code)
  then show ?thesis using refused_is_quiet [of s d route call w code] c by (simp add: create_def)
next
  case draft: (Inr draft)
  show ?thesis
  proof (cases "argumentsHMAC s (TCall_Arguments call)")
    case (Inl err)
    then show ?thesis using refused_is_quiet [of s d route call w "''schedule_store_failed''"] c draft assms(1) by (simp add: create_def Let_def)
  next
    case (Inr hmac)
    note run = c [unfolded create_def draft sum.case Let_def Inr if_P [OF assms(1)]]
    show ?thesis using create_draft_ok [OF draft] run unfolding reaches_ledger_def by blast
  qed
qed

lemma list_validated:
  assumes "s_has_AtomicList s" and l: "Schedule_Execute s d route call w = tool_list s d route (route_owner route) call w"
  shows "refused_quietly s d route call w \<or> reaches_ledger s d route call w"
proof (cases "list_position s (dr_now d) (route_owner route) (TCall_Arguments call)")
  case (Inl code)
  then show ?thesis using refused_is_quiet [of s d route call w code] l by (simp add: tool_list_def)
next
  case pos: (Inr pos)
  obtain after n where an: "pos = (after, n)" by fastforce
  show ?thesis
  proof (cases "argumentsHMAC s (TCall_Arguments call)")
    case (Inl err)
    then show ?thesis using refused_is_quiet [of s d route call w "''schedule_list_failed''"] l pos an assms(1) by (simp add: tool_list_def)
  next
    case (Inr hmac)
    note run = l [unfolded tool_list_def pos an sum.case prod.case Inr if_P [OF assms(1)]]
    show ?thesis using list_position_bound [OF pos [unfolded an]] run unfolding reaches_ledger_def by blast
  qed
qed

lemma update_validated:
  assumes "s_has_AtomicUpdate s" and u: "Schedule_Execute s d route call w = update s d route (route_owner route) call w"
  shows "refused_quietly s d route call w \<or> reaches_ledger s d route call w"
proof (cases rule: update_cases [of s d route "route_owner route" call w])
  case (refused code w1)
  then show ?thesis using u by auto
next
  case (run patch w1)
  show ?thesis
  proof (cases "argumentsHMAC s (TCall_Arguments call)")
    case (Inl err)
    then have "Schedule_Execute s d route call w = (toolFailure ''schedule_store_failed'', w1)"
      using u run(1) assms(1) by (simp add: update_run_def Let_def refused_def)
    then show ?thesis using run(3) by blast
  next
    case (Inr hmac)
    note go = u [unfolded run(1) update_run_def sum.case Let_def Inr if_P [OF assms(1)]]
    show ?thesis using run(2,3) go unfolding reaches_ledger_def by blast
  qed
qed

section \<open>Concrete inputs\<close>

definition ex_tool_json :: tool_json where
  "ex_tool_json = \<lparr>decode_create = (\<lambda>raw. Some (\<lparr>Create_Kind = TaskPrompt, Create_Prompt = Some ''walk'', Create_Command = None,
       Create_CronExpression = ''* * * * *'', Create_Silent = Some False\<rparr>, [])), decode_list = (\<lambda>_. None), decode_update = (\<lambda>_. None),
     decodes_empty = (\<lambda>_. False), marshal_task = (\<lambda>m. Inr (View_ID (Mutation_View m))), marshal_page = (\<lambda>_. Inr []), format_utc = (\<lambda>_. [])\<rparr>"

definition ex_service :: Service where
  "ex_service = \<lparr>s_json = ex_tool_json, s_repo = ex_repo, s_lib = ex_lib, s_has_Store = True, s_has_AtomicCreate = True, s_has_AtomicList = True,
     s_has_AtomicUpdate = True, s_Cursors = ex_ring, s_has_OwnerHMAC = True, s_ArgumentsHMAC = Some (\<lambda>raw. Inr ''h''), s_ScriptsEnabled = False\<rparr>"

definition ex_draws :: draws where
  "ex_draws = \<lparr>dr_now = 5, dr_now2 = 6, dr_task_id = ''t9'', dr_call_id = ''c9''\<rparr>"

definition ex_route :: Route where
  "ex_route = \<lparr>SRoute_AppID = ''app'', SRoute_ChannelKey = ''ch'', SRoute_ChatGroupID = ''grp'', SRoute_ActorOpenID = ''ou1''\<rparr>"

definition ex_call :: ToolCall where
  "ex_call = \<lparr>TCall_ThreadID = ''th'', TCall_TurnID = ''tu'', TCall_CallID = ''c'', TCall_Tool = ''create'', TCall_Arguments = ''x''\<rparr>"

definition ex_foreign :: task_row where
  "ex_foreign = (ex_task ''t8'')\<lparr>t_owner_hmac := ''other''\<rparr>"

lemma ex_service_simps [simp]:
  "s_repo ex_service = ex_repo" "s_json ex_service = ex_tool_json" "s_has_Store ex_service" "s_has_AtomicCreate ex_service" "s_has_AtomicList ex_service"
  "s_has_AtomicUpdate ex_service" "route_owner ex_route = ex_owner" "SRoute_AppID ex_route = ''app''" "SRoute_ChatGroupID ex_route = ''grp''"
  "SRoute_ChannelKey ex_route = ''ch''"
  "s_ArgumentsHMAC ex_service = Some (\<lambda>raw. Inr ''h'')"
  by (simp_all add: ex_service_def ex_route_def route_owner_def ex_owner_def)

definition ex_created_draft :: TaskDraft where
  "ex_created_draft = \<lparr>Draft_ID = ''t9'', Draft_Owner = ex_owner, Draft_Kind = TaskPrompt, Draft_CronExpression = ''* * * * *'',
     Draft_Payload = ''walk'', Draft_Silent = False\<rparr>"

lemma ex_create_draft: "create_draft ex_service ''t9'' ex_owner ''x'' = Inr ex_created_draft"
proof -
  have "validPrompt ''walk''" by (simp add: validPrompt_def valid_string_def chunks_code utf8_decode_def byte_val_def)
  then show ?thesis by (simp add: create_draft_def decode_def ex_tool_json_def validCron_def createPayload_def ex_created_draft_def trim_eval)
qed

lemma ex_quota_world:
  "checkCreateQuotaTx ex_repo ex_owner (ex_world\<lparr>scheduled_tasks := [], scheduled_task_tool_calls := cs\<rparr>)
     = (Inr (), ex_world\<lparr>scheduled_tasks := [], scheduled_task_tool_calls := cs\<rparr>)"
  by (simp add: checkCreateQuotaTx_def op_defs enabled_of_owner_def enabled_of_app_def)

lemma ex_created: "\<exists>w'. Schedule_Execute ex_service ex_draws ex_route ex_call (ex_world\<lparr>scheduled_tasks := []\<rparr>) = (toolSuccess ''t9'', w')"
  by (simp add: Schedule_Execute_def Let_def canonicalTool_def ex_call_def toolCreate_def create_def ex_draws_def ex_create_draft argumentsHMAC_def
      executed_def CreateTaskForToolCall_def identity_valid_def toolCallInput_def fill_input_def trim_eval transaction_def createToolTx_def
      claimToolCallTx_def insert_tool_call_def op_defs claim_call_row_def sql_conflict_def)
    (simp add: sql_conflict_def ex_quota_world ex_tool_json_def taskResponse_def is_zero_time_def zero_time_def createTaskExec_def insert_task_def op_defs ex_created_draft_def trim_eval completeToolCallTx_def update_tool_calls_def
      same_call_def sql_affected_def)

section \<open>Properties\<close>





text \<open>
  The second \<open>Decode\<close> is meant to find the end of the input, but any error of it is taken for the end: input followed by text that is no
  empty object is accepted.
\<close>

lemma trailing_text_accepted:
  assumes "dec raw = Some (args, rest)" and "\<not> again rest"
  shows "decode dec again raw = Some args"
  using assms by (simp add: decode_def)

end
