(* ===== verification/Codex_Session.thy ===== *)
theory Codex_Session
  imports Message_Store
begin

text \<open>
  The session of a chat on the Codex app server (\<open>internal/codexapp/processor.go\<close>). A group keeps the id of its
  thread; the app server's answers are arguments.
\<close>

section \<open>A new session\<close>

text \<open>\<open>archive\<close> is the answer of \<open>Runtime.Call("thread/archive", \<dots>)\<close> for a thread.\<close>

definition NewSession :: "(string \<Rightarrow> go_error option) \<Rightarrow> string \<Rightarrow> unit op" where
  "NewSession archive chatGroupID =
     and_then (GetChatGroupThread chatGroupID) id (\<lambda>threadID.
       if threadID = [] then ret ()
       else case archive threadID of Some err \<Rightarrow> fail (Wrapf ''archive current thread'' err)
         | None \<Rightarrow> and_then (SetThreadIfExpected chatGroupID threadID []) id (\<lambda>cleared.
             if \<not> cleared then fail (Errorf ''clear current thread: changed concurrently'') else ret ()))"

lemma ingress_thread: "preserves ingress_rel (GetChatGroupThread g)"
  unfolding GetChatGroupThread_def by (intro ingress.preserves_intros)

lemma ingress_new_session: "preserves ingress_rel (NewSession archive g)"
  unfolding NewSession_def by (intro ingress.preserves_intros ingress_thread ingress_ops)

end
