(* ===== verification/Worker_Queue.thy ===== *)
theory Worker_Queue
  imports Worker_Types
begin

text \<open>
  The manager and its channel workers (\<open>internal/worker/manager.go\<close>): one worker per channel, a bounded queue,
  control barriers and the forming of batches. Every section the code runs under a lock is one operation here; a
  worker is an object that stays reachable through pointers after it has left the manager's map.
\<close>

section \<open>Data\<close>

datatype worker_state = Idle | CreatingCard | InProcess | Stopping | Stopped

record WorkerConfig =
  MaxWorkers :: int
  QueueDepth :: int
  ProcessTimeout :: int
  IdleTimeout :: int
  StopGrace :: int
  CompanionSegmentDelay :: int

text \<open>The defaults of \<open>NewManager\<close>; durations in milliseconds.\<close>

definition NewManager_config :: "WorkerConfig \<Rightarrow> WorkerConfig" where
  "NewManager_config cfg = \<lparr>
     MaxWorkers = (if MaxWorkers cfg \<le> 0 then 20 else MaxWorkers cfg),
     QueueDepth = (if QueueDepth cfg \<le> 0 then 64 else QueueDepth cfg),
     ProcessTimeout = (if ProcessTimeout cfg \<le> 0 then minutes 90 else ProcessTimeout cfg),
     IdleTimeout = (if IdleTimeout cfg \<le> 0 then minutes 30 else IdleTimeout cfg),
     StopGrace = (if StopGrace cfg \<le> 0 then seconds 10 else StopGrace cfg),
     CompanionSegmentDelay = (if CompanionSegmentDelay cfg \<le> 0 then 400 else CompanionSegmentDelay cfg)\<rparr>"

text \<open>
  A channel worker. A control is known by a number; \<open>cw_terminal\<close> is the arbiter's reason, \<open>None\<close> for a nil arbiter; the flags
  \<open>cw_activeCancel\<close> and \<open>cw_activeDone\<close> say whether those fields are set, \<open>cw_wake\<close> whether the wake channel holds a token.
\<close>

record channelWorker =
  cw_key :: Key
  cw_queue :: "Message list"
  cw_controls :: "nat list"
  cw_barrier :: bool
  cw_processing :: bool
  cw_state :: worker_state
  cw_idleAt :: go_time
  cw_activeCancel :: bool
  cw_activeDone :: bool
  cw_activeCancelled :: bool
  cw_activeBatchID :: string
  cw_activeGoal :: bool
  cw_terminal :: "string option"
  cw_stop :: bool
  cw_wake :: bool

definition new_worker :: "Key \<Rightarrow> go_time \<Rightarrow> channelWorker" where
  "new_worker key now = \<lparr>cw_key = key, cw_queue = [], cw_controls = [], cw_barrier = False, cw_processing = False, cw_state = Idle,
     cw_idleAt = now, cw_activeCancel = False, cw_activeDone = False, cw_activeCancelled = False, cw_activeBatchID = [],
     cw_activeGoal = False, cw_terminal = None, cw_stop = False, cw_wake = False\<rparr>"

section \<open>The terminal arbiter\<close>

text \<open>\<open>TerminalArbiter\<close> of \<open>delivery.go\<close>: the empty reason means that nobody has claimed the outcome.\<close>

definition Arbiter_Claim :: "string \<Rightarrow> string \<Rightarrow> bool \<times> string" where
  "Arbiter_Claim reason current = (if reason = [] then (False, current) else if current \<noteq> [] then (False, current) else (True, reason))"

definition claim_terminal :: "string \<Rightarrow> channelWorker \<Rightarrow> channelWorker" where
  "claim_terminal reason w = w\<lparr>cw_terminal := map_option (\<lambda>r. snd (Arbiter_Claim reason r)) (cw_terminal w)\<rparr>"

section \<open>Operations of a worker\<close>

definition signal :: "channelWorker \<Rightarrow> channelWorker" where
  "signal w = w\<lparr>cw_wake := True\<rparr>"

definition enqueue :: "WorkerConfig \<Rightarrow> Message \<Rightarrow> channelWorker \<Rightarrow> unit res \<times> channelWorker" where
  "enqueue cfg message w =
     (if cw_state w = Stopping \<or> cw_state w = Stopped then (Inl ErrStopping, w)
      else if cw_barrier w then (Inl ErrControlInProgress, w)
      else if int (length (cw_queue w)) \<ge> QueueDepth cfg then (Inl ErrQueueFull, w)
      else (Inr (), signal (w\<lparr>cw_queue := cw_queue w @ [message]\<rparr>)))"

text \<open>The calls of the lifecycle, as the workers make them.\<close>

datatype life_call =
    CallMarkProcessing "string list"
  | CallComplete "string list" string string int
  | CallFail "string list" string int
  | CallMarkScheduledRunning string string
  | CallCompleteScheduledRun string string bool string int
  | CallCompleteScheduledRunResult string string bool string int string string string
  | CallDiscardScheduledRun string string string
  | CallMarkCompanionDeliveryStarted "string list" string
  | CallCompleteCompanionDelivery "string list" string string string string int
  | CallFailCompanionDelivery "string list" string string string int

text \<open>The lifecycle: which interfaces it implements, and its answer to a call (\<open>None\<close> for success).\<close>

record Lifecycle =
  is_Scheduled :: bool
  is_Result :: bool
  is_Discard :: bool
  is_Companion :: bool
  life_answer :: "life_call \<Rightarrow> go_error option"

text \<open>
  Detaching the queue before a control: scheduled runs are discarded one by one, then the ordinary messages fail
  together. The answer is the calls made and the error, if any.
\<close>

fun detach_loop :: "Lifecycle \<Rightarrow> Message list \<Rightarrow> string list \<Rightarrow> life_call list \<times> string list res" where
  "detach_loop l [] ids = ([], Inr ids)"
| "detach_loop l (m # ms) ids =
     (if Msg_ScheduledTaskRunID m = [] then detach_loop l ms (ids @ [Msg_ID m])
      else if \<not> is_Discard l then ([], Inl (Errorf ''persist detached scheduled run: lifecycle is unavailable''))
      else (let call = CallDiscardScheduledRun (Msg_ScheduledTaskRunID m) (Msg_ScheduledClaimToken m) ''cancelled_by_channel_control'' in
        case life_answer l call of
          Some err \<Rightarrow> ([call], Inl (Wrapf ''persist detached scheduled run'' err))
        | None \<Rightarrow> (case detach_loop l ms ids of (calls, r) \<Rightarrow> (call # calls, r))))"

definition detach_pending :: "Lifecycle option \<Rightarrow> Message list \<Rightarrow> life_call list \<times> unit res" where
  "detach_pending lifecycle pending = (case lifecycle of
       None \<Rightarrow> ([], Inr ())
     | Some l \<Rightarrow> if pending = [] then ([], Inr ()) else (case detach_loop l pending [] of
           (calls, Inl err) \<Rightarrow> (calls, Inl err)
         | (calls, Inr ids) \<Rightarrow> if ids = [] then (calls, Inr ())
             else (let call = CallFail ids ''cancelled_by_command'' 0 in
               (calls @ [call], case life_answer l call of Some err \<Rightarrow> Inl (Wrapf ''persist detached queue'' err) | None \<Rightarrow> Inr ()))))"

text \<open>
  \<open>submitControl\<close>: its locked section, then the goal pause, the cancellation and the detaching, then the signal. The
  answer tells whether the active context is cancelled, the lifecycle calls and the result.
\<close>

definition control_section :: "nat \<Rightarrow> channelWorker \<Rightarrow> channelWorker" where
  "control_section control w = claim_terminal ''cancelled'' (w\<lparr>cw_queue := [], cw_barrier := True,
     cw_controls := cw_controls w @ [control], cw_activeCancelled := True\<rparr>)"

definition submitControl :: "Lifecycle option \<Rightarrow> (string \<Rightarrow> go_error option) option \<Rightarrow> nat \<Rightarrow> channelWorker
    \<Rightarrow> (bool \<times> life_call list \<times> unit res) \<times> channelWorker" where
  "submitControl lifecycle goalStop control w =
     (if cw_state w = Stopping \<or> cw_state w = Stopped then ((False, [], Inl ErrStopping), w)
      else let w1 = control_section control w; pauses = cw_activeGoal w \<and> goalStop \<noteq> None in
        case (if pauses then the goalStop (cw_activeBatchID w) else None) of
          Some err \<Rightarrow> ((False, [], Inl (Wrapf ''request goal pause'' err)), w1)
        | None \<Rightarrow> (case detach_pending lifecycle (cw_queue w) of (calls, r) \<Rightarrow>
            ((cw_activeCancel w \<and> \<not> pauses, calls, r), if r = Inr () then signal w1 else w1)))"

text \<open>\<open>discardQueuedForShutdown\<close> logs failures and goes on.\<close>

definition discard_call :: "Lifecycle \<Rightarrow> Message \<Rightarrow> life_call list" where
  "discard_call l m = (if Msg_ScheduledTaskRunID m \<noteq> [] \<and> is_Discard l
     then [CallDiscardScheduledRun (Msg_ScheduledTaskRunID m) (Msg_ScheduledClaimToken m) ''cancelled_by_channel_control''] else [])"

definition ordinary_ids :: "Message list \<Rightarrow> string list" where
  "ordinary_ids ms = map Msg_ID (filter (\<lambda>m. Msg_ScheduledTaskRunID m = []) ms)"

definition drop_calls :: "string \<Rightarrow> Lifecycle option \<Rightarrow> Message list \<Rightarrow> life_call list" where
  "drop_calls code lifecycle pending = (case lifecycle of None \<Rightarrow> [] | Some l \<Rightarrow>
     concat (map (discard_call l) pending) @ (if ordinary_ids pending = [] then [] else [CallFail (ordinary_ids pending) code 0]))"

definition discardQueuedForShutdown :: "Lifecycle option \<Rightarrow> channelWorker \<Rightarrow> life_call list \<times> channelWorker" where
  "discardQueuedForShutdown lifecycle w = (drop_calls ''worker_shutdown_stopped'' lifecycle (cw_queue w), w\<lparr>cw_queue := []\<rparr>)"

definition nextControl :: "channelWorker \<Rightarrow> nat option \<times> channelWorker" where
  "nextControl w = (if cw_processing w \<or> cw_controls w = [] then (None, w)
     else (Some (hd (cw_controls w)), w\<lparr>cw_controls := tl (cw_controls w)\<rparr>))"

text \<open>The end of \<open>processControl\<close>, after the control ran.\<close>

definition control_finished :: "channelWorker \<Rightarrow> channelWorker" where
  "control_finished w = signal (if cw_controls w = [] then w\<lparr>cw_barrier := False\<rparr> else w)"

section \<open>Forming a batch\<close>

text \<open>The loop of \<open>nextBatch\<close> over the queue, from the given index.\<close>

fun batch_size_loop :: "string \<Rightarrow> nat \<Rightarrow> Message list \<Rightarrow> nat" where
  "batch_size_loop actor index [] = index"
| "batch_size_loop actor index (m # ms) =
     (if index > 0 \<and> Msg_ActorOpenID m \<noteq> actor then index
      else if Msg_Goal m then (if index = 0 then 1 else index)
      else if Msg_ScheduledTaskRunID m \<noteq> [] then (if index = 0 then 1 else index)
      else if \<not> Msg_HasRequiredAttachment m then batch_size_loop actor (index + 1) ms
      else if index = 0 then 1 else index)"

definition nextBatch :: "string \<Rightarrow> channelWorker \<Rightarrow> Batch option \<times> channelWorker" where
  "nextBatch batchID w = (case cw_queue w of [] \<Rightarrow> (None, w) | first # rest \<Rightarrow>
     if cw_processing w then (None, w)
     else let batchSize = batch_size_loop (Msg_ActorOpenID first) 0 (cw_queue w); ms = take batchSize (cw_queue w) in
       (Some \<lparr>Batch_ID = batchID, Batch_Key = cw_key w, Batch_Runtime = Msg_Runtime (hd ms), Batch_Messages = ms, Batch_Goal = Msg_Goal (hd ms),
          Batch_ScheduledTaskID = Msg_ScheduledTaskID (hd ms), Batch_ScheduledTaskRunID = Msg_ScheduledTaskRunID (hd ms),
          Batch_ScheduledClaimToken = Msg_ScheduledClaimToken (hd ms)\<rparr>,
        w\<lparr>cw_queue := drop batchSize (cw_queue w), cw_processing := True, cw_state := CreatingCard, cw_activeCancel := False,
          cw_activeDone := True, cw_activeCancelled := False, cw_terminal := Some []\<rparr>))"

section \<open>The active batch\<close>

definition setActive :: "channelWorker \<Rightarrow> bool \<times> channelWorker" where
  "setActive w = (cw_activeCancelled w, w\<lparr>cw_activeCancel := True\<rparr>)"

definition setGoalBatch :: "Batch \<Rightarrow> channelWorker \<Rightarrow> channelWorker" where
  "setGoalBatch batch w = w\<lparr>cw_activeBatchID := Batch_ID batch, cw_activeGoal := Batch_Goal batch\<rparr>"

definition clearActive :: "channelWorker \<Rightarrow> channelWorker" where
  "clearActive w = w\<lparr>cw_activeCancel := False, cw_activeDone := False, cw_activeBatchID := [], cw_activeGoal := False,
     cw_activeCancelled := False, cw_terminal := None\<rparr>"

definition cancel_section :: "channelWorker \<Rightarrow> channelWorker" where
  "cancel_section w = claim_terminal ''cancelled'' (w\<lparr>cw_activeCancelled := True\<rparr>)"

text \<open>The end of a batch: \<open>finishScheduledWorkerState\<close> and the same lines at the end of \<open>process\<close> and \<open>processCompanion\<close>.\<close>

definition finishWorkerState :: "go_time \<Rightarrow> channelWorker \<Rightarrow> channelWorker" where
  "finishWorkerState now w = (let w1 = w\<lparr>cw_processing := False, cw_state := Idle, cw_idleAt := now\<rparr> in
     if cw_queue w \<noteq> [] then signal w1 else w1)"

text \<open>After a timeout the worker stops: the messages still queued are the answer.\<close>

definition stop_after_timeout :: "channelWorker \<Rightarrow> Message list \<times> channelWorker" where
  "stop_after_timeout w = (cw_queue w, w\<lparr>cw_processing := False, cw_state := Stopped, cw_queue := []\<rparr>)"

definition stopAfterScheduledTimeout :: "Lifecycle option \<Rightarrow> channelWorker \<Rightarrow> life_call list \<times> channelWorker" where
  "stopAfterScheduledTimeout lifecycle w = (case stop_after_timeout w of
     (pending, w1) \<Rightarrow> (drop_calls ''worker_timeout_stopped'' lifecycle pending, w1))"

text \<open>The timer of \<open>scheduleIdleRecycle\<close>.\<close>

definition recycle :: "WorkerConfig \<Rightarrow> go_time \<Rightarrow> channelWorker \<Rightarrow> bool \<times> channelWorker" where
  "recycle cfg now w = (let eligible = (cw_state w = Idle \<and> \<not> cw_processing w \<and> cw_queue w = [] \<and> now - cw_idleAt w \<ge> IdleTimeout cfg) in
     (eligible, if eligible then w\<lparr>cw_state := Stopped\<rparr> else w))"

section \<open>The manager\<close>

record Manager =
  mg_workers :: "string \<Rightarrow> nat option"
  mg_objects :: "channelWorker list"
  mg_shuttingDown :: bool
  mg_closed :: bool

definition NewManager :: Manager where
  "NewManager = \<lparr>mg_workers = Map.empty, mg_objects = [], mg_shuttingDown = False, mg_closed = False\<rparr>"

text \<open>The locked section of \<open>Accept\<close> and \<open>SubmitControl\<close>: the worker of the channel, created when there is none.\<close>

definition worker_for :: "WorkerConfig \<Rightarrow> Key \<Rightarrow> go_time \<Rightarrow> Manager \<Rightarrow> nat res \<times> Manager" where
  "worker_for cfg key now m =
     (if mg_closed m \<or> mg_shuttingDown m then (Inl ErrClosed, m)
      else case mg_workers m (Key_String key) of
        Some i \<Rightarrow> (Inr i, m)
      | None \<Rightarrow> if int (card (dom (mg_workers m))) \<ge> MaxWorkers cfg then (Inl ErrPoolSaturated, m)
          else (Inr (length (mg_objects m)), m\<lparr>mg_workers := (mg_workers m)(Key_String key \<mapsto> length (mg_objects m)),
            mg_objects := mg_objects m @ [new_worker key now]\<rparr>))"

text \<open>An operation on one object.\<close>

definition on_object :: "nat \<Rightarrow> (channelWorker \<Rightarrow> 'a \<times> channelWorker) \<Rightarrow> Manager \<Rightarrow> 'a \<times> Manager" where
  "on_object i f m = (case f (mg_objects m ! i) of (r, w) \<Rightarrow> (r, m\<lparr>mg_objects := (mg_objects m)[i := w]\<rparr>))"

definition Accept :: "WorkerConfig \<Rightarrow> go_time \<Rightarrow> Message \<Rightarrow> Manager \<Rightarrow> unit res \<times> Manager" where
  "Accept cfg now message m = (case worker_for cfg (Msg_Key message) now m of
       (Inl err, m1) \<Rightarrow> (Inl err, m1)
     | (Inr i, m1) \<Rightarrow> on_object i (enqueue cfg message) m1)"

definition SubmitControl :: "WorkerConfig \<Rightarrow> Lifecycle option \<Rightarrow> (string \<Rightarrow> go_error option) option \<Rightarrow> go_time \<Rightarrow> Key \<Rightarrow> nat option \<Rightarrow> Manager
    \<Rightarrow> (bool \<times> life_call list \<times> unit res) \<times> Manager" where
  "SubmitControl cfg lifecycle goalStop now key control m = (case control of
       None \<Rightarrow> ((False, [], Inl (Errorf ''control run is required'')), m)
     | Some c \<Rightarrow> (case worker_for cfg key now m of
           (Inl err, m1) \<Rightarrow> ((False, [], Inl err), m1)
         | (Inr i, m1) \<Rightarrow> on_object i (submitControl lifecycle goalStop c) m1))"

definition manager_State :: "Key \<Rightarrow> Manager \<Rightarrow> worker_state option" where
  "manager_State key m = map_option (\<lambda>i. cw_state (mg_objects m ! i)) (mg_workers m (Key_String key))"

definition removeFromManager :: "nat \<Rightarrow> Manager \<Rightarrow> Manager" where
  "removeFromManager i m = (let w = mg_objects m ! i in m\<lparr>
     mg_workers := (if mg_workers m (Key_String (cw_key w)) = Some i then (mg_workers m)(Key_String (cw_key w) := None) else mg_workers m),
     mg_objects := (mg_objects m)[i := w\<lparr>cw_stop := True\<rparr>]\<rparr>)"

section \<open>Batches\<close>

text \<open>
  The specification of a batch: a goal, a scheduled run or a message with an attachment is a batch of its own; other messages
  are taken together as long as they come from the same person.
\<close>

definition exclusive :: "Message \<Rightarrow> bool" where
  "exclusive m \<longleftrightarrow> Msg_Goal m \<or> Msg_ScheduledTaskRunID m \<noteq> [] \<or> Msg_HasRequiredAttachment m"

definition mergeable :: "Message \<Rightarrow> Message \<Rightarrow> bool" where
  "mergeable first m \<longleftrightarrow> \<not> exclusive m \<and> Msg_ActorOpenID m = Msg_ActorOpenID first"

definition reference_batch :: "Message list \<Rightarrow> Message list" where
  "reference_batch ms = (case ms of [] \<Rightarrow> [] | m # rest \<Rightarrow> if exclusive m then [m] else m # takeWhile (mergeable m) rest)"

lemma batch_size_loop_Suc:
  "batch_size_loop (Msg_ActorOpenID first) (Suc i) ms = Suc i + length (takeWhile (mergeable first) ms)"
  by (induction ms arbitrary: i) (auto simp: mergeable_def exclusive_def)

lemma batch_size_reference: "take (batch_size_loop (Msg_ActorOpenID m) 0 (m # rest)) (m # rest) = reference_batch (m # rest)"
  by (auto simp: reference_batch_def exclusive_def batch_size_loop_Suc takeWhile_eq_take [symmetric])

lemma nextBatch_Some:
  assumes "nextBatch batchID w = (Some b, w')"
  shows "cw_queue w = Batch_Messages b @ cw_queue w'" "Batch_Messages b = reference_batch (cw_queue w)" "Batch_Messages b \<noteq> []"
    "\<not> cw_processing w" "cw_processing w'" "cw_state w' = CreatingCard" "cw_barrier w' = cw_barrier w" "cw_controls w' = cw_controls w" "cw_key w' = cw_key w"
proof -
  obtain m rest where q: "cw_queue w = m # rest" using assms by (cases "cw_queue w") (auto simp: nextBatch_def)
  let ?n = "batch_size_loop (Msg_ActorOpenID m) 0 (m # rest)"
  have b: "Batch_Messages b = take ?n (m # rest)" "cw_queue w' = drop ?n (m # rest)"
    using assms q by (auto simp: nextBatch_def Let_def split: if_splits)
  show "cw_queue w = Batch_Messages b @ cw_queue w'" using b q by (simp only: append_take_drop_id)
  show r: "Batch_Messages b = reference_batch (cw_queue w)" using b(1) q batch_size_reference by simp
  show "Batch_Messages b \<noteq> []" using r q by (simp add: reference_batch_def)
  show "\<not> cw_processing w" "cw_processing w'" "cw_state w' = CreatingCard" "cw_barrier w' = cw_barrier w" "cw_controls w' = cw_controls w" "cw_key w' = cw_key w"
    using assms q by (auto simp: nextBatch_def Let_def split: if_splits)
qed

section \<open>Steps of a worker\<close>

datatype worker_event = Accepted Message | Taken Batch | Dropped "Message list" | Finished

inductive worker_step :: "WorkerConfig \<Rightarrow> channelWorker \<Rightarrow> worker_event list \<Rightarrow> channelWorker \<Rightarrow> bool" for cfg where
  accept: "enqueue cfg m w = (Inr (), w') \<Longrightarrow> worker_step cfg w [Accepted m] w'"
| refuse: "enqueue cfg m w = (Inl err, w') \<Longrightarrow> worker_step cfg w [] w'"
| control: "submitControl l g c w = (r, w') \<Longrightarrow> cw_state w \<noteq> Stopping \<Longrightarrow> cw_state w \<noteq> Stopped \<Longrightarrow> worker_step cfg w [Dropped (cw_queue w)] w'"
| control_refused: "submitControl l g c w = (r, w') \<Longrightarrow> cw_state w = Stopping \<or> cw_state w = Stopped \<Longrightarrow> worker_step cfg w [] w'"
| shutdown: "worker_step cfg w [Dropped (cw_queue w)] (snd (discardQueuedForShutdown l w))"
| pop_control: "worker_step cfg w [] (snd (nextControl w))"
| end_control: "worker_step cfg w [] (control_finished w)"
| take_batch: "nextBatch batchID w = (Some b, w') \<Longrightarrow> worker_step cfg w [Taken b] w'"
| no_batch: "nextBatch batchID w = (None, w') \<Longrightarrow> worker_step cfg w [] w'"
| in_process: "cw_processing w \<Longrightarrow> worker_step cfg w [] (w\<lparr>cw_state := InProcess\<rparr>)"
| stopping: "cw_processing w \<Longrightarrow> worker_step cfg w [] (w\<lparr>cw_state := Stopping\<rparr>)"
| activate: "worker_step cfg w [] (snd (setActive w))"
| goal: "worker_step cfg w [] (setGoalBatch b w)"
| clear: "worker_step cfg w [] (clearActive w)"
| cancel: "worker_step cfg w [] (cancel_section w)"
| finish: "cw_processing w \<Longrightarrow> worker_step cfg w [Finished] (finishWorkerState now w)"
| timeout: "cw_processing w \<Longrightarrow> worker_step cfg w [Finished, Dropped (cw_queue w)] (snd (stop_after_timeout w))"
| idle: "worker_step cfg w [] (snd (recycle cfg now w))"

inductive worker_trace :: "WorkerConfig \<Rightarrow> channelWorker \<Rightarrow> worker_event list \<Rightarrow> channelWorker \<Rightarrow> bool" for cfg where
  nil: "worker_trace cfg w [] w"
| cons: "worker_trace cfg w es w1 \<Longrightarrow> worker_step cfg w1 es' w2 \<Longrightarrow> worker_trace cfg w (es @ es') w2"

fun accepted :: "worker_event list \<Rightarrow> Message list" where
  "accepted [] = []"
| "accepted (Accepted m # es) = m # accepted es"
| "accepted (e # es) = accepted es"

fun departed :: "worker_event list \<Rightarrow> Message list" where
  "departed [] = []"
| "departed (Taken b # es) = Batch_Messages b @ departed es"
| "departed (Dropped ms # es) = ms @ departed es"
| "departed (e # es) = departed es"

fun taken :: "worker_event list \<Rightarrow> Batch list" where
  "taken [] = []"
| "taken (Taken b # es) = b # taken es"
| "taken (e # es) = taken es"

fun finished :: "worker_event list \<Rightarrow> nat" where
  "finished [] = 0"
| "finished (Finished # es) = Suc (finished es)"
| "finished (e # es) = finished es"

lemma event_append [simp]:
  "accepted (es @ fs) = accepted es @ accepted fs" "departed (es @ fs) = departed es @ departed fs"
  "taken (es @ fs) = taken es @ taken fs" "finished (es @ fs) = finished es + finished fs"
  by (induction es rule: accepted.induct; simp)+

lemma signal_simps [simp]:
  "cw_queue (signal w) = cw_queue w" "cw_controls (signal w) = cw_controls w" "cw_barrier (signal w) = cw_barrier w"
  "cw_processing (signal w) = cw_processing w" "cw_state (signal w) = cw_state w" "cw_key (signal w) = cw_key w"
  by (simp_all add: signal_def)

lemma claim_terminal_simps [simp]:
  "cw_queue (claim_terminal r w) = cw_queue w" "cw_controls (claim_terminal r w) = cw_controls w" "cw_barrier (claim_terminal r w) = cw_barrier w"
  "cw_processing (claim_terminal r w) = cw_processing w" "cw_state (claim_terminal r w) = cw_state w" "cw_key (claim_terminal r w) = cw_key w"
  by (simp_all add: claim_terminal_def)

lemma submitControl_effect:
  assumes "submitControl l g c w = (r, w')"
  shows "if cw_state w = Stopping \<or> cw_state w = Stopped then w' = w
    else cw_queue w' = [] \<and> cw_barrier w' \<and> cw_controls w' = cw_controls w @ [c] \<and> cw_processing w' = cw_processing w
      \<and> cw_state w' = cw_state w \<and> cw_key w' = cw_key w"
  using assms by (auto simp: submitControl_def control_section_def Let_def split: if_splits option.splits prod.splits)

lemmas worker_defs = enqueue_def discardQueuedForShutdown_def nextControl_def control_finished_def setActive_def setGoalBatch_def clearActive_def
  cancel_section_def finishWorkerState_def stop_after_timeout_def recycle_def Let_def

text \<open>What every step keeps: the order of the queue, and one batch at a time.\<close>

lemma nextBatch_None: "nextBatch batchID w = (None, w') \<Longrightarrow> w' = w"
  by (auto simp: nextBatch_def Let_def split: list.splits if_splits)

lemma step_queue: "worker_step cfg w es w' \<Longrightarrow> cw_queue w @ accepted es = departed es @ cw_queue w'"
proof (induction rule: worker_step.induct)
  case (control l g c w r w')
  then show ?case using submitControl_effect [OF control(1)] by simp
next
  case (control_refused l g c w r w')
  then show ?case using submitControl_effect [OF control_refused(1)] by simp
next
  case (take_batch batchID w b w')
  then show ?case using nextBatch_Some(1) by simp
next
  case (no_batch batchID w w')
  then show ?case using nextBatch_None [OF no_batch(1)] by simp
qed (auto simp: worker_defs split: if_splits)

lemma step_processing:
  "worker_step cfg w es w' \<Longrightarrow> length (taken es) + (if cw_processing w then 1 else 0) = finished es + (if cw_processing w' then 1 else 0)"
proof (induction rule: worker_step.induct)
  case (control l g c w r w')
  then show ?case using submitControl_effect [OF control(1)] by simp
next
  case (control_refused l g c w r w')
  then show ?case using submitControl_effect [OF control_refused(1)] by simp
next
  case (take_batch batchID w b w')
  then show ?case using nextBatch_Some(4,5) by simp
next
  case (no_batch batchID w w')
  then show ?case using nextBatch_None [OF no_batch(1)] by simp
qed (auto simp: worker_defs split: if_splits)

lemma step_batches:
  "worker_step cfg w es w' \<Longrightarrow> b \<in> set (taken es) \<Longrightarrow> Batch_Messages b = reference_batch (Batch_Messages b @ cw_queue w') \<and> Batch_Messages b \<noteq> []"
proof (induction rule: worker_step.induct)
  case (take_batch batchID w c w')
  then show ?case using nextBatch_Some(1,2,3) [OF take_batch(1)] by simp
qed simp_all

text \<open>A message is refused while a control barrier is up, and a barrier empties the queue.\<close>

definition worker_ok :: "WorkerConfig \<Rightarrow> channelWorker \<Rightarrow> bool" where
  "worker_ok cfg w \<longleftrightarrow> int (length (cw_queue w)) \<le> QueueDepth cfg \<and> (cw_barrier w \<longrightarrow> cw_queue w = []) \<and> (cw_controls w \<noteq> [] \<longrightarrow> cw_barrier w)
     \<and> (cw_state w = Stopped \<longrightarrow> cw_queue w = [] \<and> \<not> cw_processing w)"

lemma step_ok:
  assumes "0 \<le> QueueDepth cfg" and "worker_step cfg w es w'" and "worker_ok cfg w"
  shows "worker_ok cfg w'"
  using assms(2,3)
proof (induction rule: worker_step.induct)
  case (control l g c w r w')
  then show ?case using submitControl_effect [OF control(1)] assms(1) by (auto simp: worker_ok_def)
next
  case (control_refused l g c w r w')
  then show ?case using submitControl_effect [OF control_refused(1)] by simp
next
  case (take_batch batchID w b w')
  note t = nextBatch_Some [OF take_batch(1)]
  have "length (cw_queue w') \<le> length (cw_queue w)" "cw_queue w \<noteq> []" using t(1,3) by simp_all
  then show ?case using take_batch(2) t(4-8) by (auto simp: worker_ok_def)
next
  case (no_batch batchID w w')
  then show ?case using nextBatch_None [OF no_batch(1)] by simp
next
  case (accept m w w')
  then show ?case by (auto simp: worker_ok_def enqueue_def split: if_splits)
next
  case (refuse m w err w')
  then show ?case by (auto simp: worker_ok_def enqueue_def split: if_splits)
qed (use assms(1) in \<open>auto simp: worker_ok_def worker_defs split: if_splits\<close>)

lemma step_key: "worker_step cfg w es w' \<Longrightarrow> cw_key w' = cw_key w"
proof (induction rule: worker_step.induct)
  case (control l g c w r w')
  then show ?case using submitControl_effect [OF control(1)] by simp
next
  case (control_refused l g c w r w')
  then show ?case using submitControl_effect [OF control_refused(1)] by simp
next
  case (take_batch batchID w b w')
  then show ?case by (rule nextBatch_Some(9))
next
  case (no_batch batchID w w')
  then show ?case using nextBatch_None [OF no_batch(1)] by simp
qed (auto simp: worker_defs split: if_splits)

text \<open>A stopped worker stays stopped.\<close>

lemma step_stopped:
  assumes "worker_step cfg w es w'" and "worker_ok cfg w" and "cw_state w = Stopped"
  shows "cw_state w' = Stopped"
  using assms
proof (induction rule: worker_step.induct)
  case (control_refused l g c w r w')
  then show ?case using submitControl_effect [OF control_refused(1)] by simp
next
  case (take_batch batchID w b w')
  then show ?case using nextBatch_Some(1,3) [OF take_batch(1)] by (simp add: worker_ok_def)
next
  case (no_batch batchID w w')
  then show ?case using nextBatch_None [OF no_batch(1)] by simp
qed (auto simp: worker_ok_def worker_defs split: if_splits)

lemma trace_queue: "worker_trace cfg w es w' \<Longrightarrow> cw_queue w @ accepted es = departed es @ cw_queue w'"
proof (induction rule: worker_trace.induct)
  case (cons w es w1 es' w2)
  then show ?case using step_queue [OF cons(2)] by (simp flip: append_assoc) simp
qed simp

lemma trace_processing:
  "worker_trace cfg w es w' \<Longrightarrow> length (taken es) + (if cw_processing w then 1 else 0) = finished es + (if cw_processing w' then 1 else 0)"
proof (induction rule: worker_trace.induct)
  case (cons w es w1 es' w2)
  then show ?case using step_processing [OF cons(2)] by simp
qed simp

lemma trace_batches:
  "worker_trace cfg w es w' \<Longrightarrow> b \<in> set (taken es) \<Longrightarrow> \<exists>rest. Batch_Messages b = reference_batch (Batch_Messages b @ rest) \<and> Batch_Messages b \<noteq> []"
proof (induction rule: worker_trace.induct)
  case (cons w es w1 es' w2)
  then show ?case using step_batches [OF cons(2)] by auto
qed simp

section \<open>The manager\<close>

inductive manager_step :: "WorkerConfig \<Rightarrow> Manager \<Rightarrow> Manager \<Rightarrow> bool" for cfg where
  lookup: "manager_step cfg m (snd (worker_for cfg key now m))"
| work: "i < length (mg_objects m) \<Longrightarrow> worker_step cfg (mg_objects m ! i) es w' \<Longrightarrow> manager_step cfg m (m\<lparr>mg_objects := (mg_objects m)[i := w']\<rparr>)"
| remove: "i < length (mg_objects m) \<Longrightarrow> cw_state (mg_objects m ! i) = Stopped \<Longrightarrow> manager_step cfg m (removeFromManager i m)"
| shutting_down: "manager_step cfg m (m\<lparr>mg_shuttingDown := True\<rparr>)"
| closed: "manager_step cfg m (m\<lparr>mg_closed := True\<rparr>)"

text \<open>The map points to objects of its keys, and an object that has not stopped is the one its key points to.\<close>

definition table_ok :: "WorkerConfig \<Rightarrow> (string \<Rightarrow> nat option) \<Rightarrow> channelWorker list \<Rightarrow> bool" where
  "table_ok cfg ws os \<longleftrightarrow> finite (dom ws) \<and> int (card (dom ws)) \<le> MaxWorkers cfg \<and> (\<forall>w \<in> set os. worker_ok cfg w)
     \<and> (\<forall>k i. ws k = Some i \<longrightarrow> i < length os \<and> Key_String (cw_key (os ! i)) = k)
     \<and> (\<forall>i < length os. cw_state (os ! i) \<noteq> Stopped \<longrightarrow> ws (Key_String (cw_key (os ! i))) = Some i)"

definition manager_inv :: "WorkerConfig \<Rightarrow> Manager \<Rightarrow> bool" where
  "manager_inv cfg m \<longleftrightarrow> table_ok cfg (mg_workers m) (mg_objects m)"

lemma table_okD:
  assumes "table_ok cfg ws os"
  shows "finite (dom ws)" "int (card (dom ws)) \<le> MaxWorkers cfg" "w \<in> set os \<Longrightarrow> worker_ok cfg w"
    "ws k = Some i \<Longrightarrow> i < length os" "ws k = Some i \<Longrightarrow> Key_String (cw_key (os ! i)) = k"
    "i < length os \<Longrightarrow> cw_state (os ! i) \<noteq> Stopped \<Longrightarrow> ws (Key_String (cw_key (os ! i))) = Some i"
  using assms by (simp_all add: table_ok_def)

lemma new_worker_simps [simp]: "cw_key (new_worker key now) = key"
  by (simp add: new_worker_def)

lemma table_add:
  assumes "table_ok cfg ws os" and "0 \<le> QueueDepth cfg" and "ws (Key_String key) = None" and "int (card (dom ws)) < MaxWorkers cfg"
  shows "table_ok cfg (ws(Key_String key \<mapsto> length os)) (os @ [new_worker key now])"
proof -
  note t = table_okD [OF assms(1)]
  have "worker_ok cfg (new_worker key now)" using assms(2) by (simp add: worker_ok_def new_worker_def)
  moreover have "i < length os + 1 \<and> Key_String (cw_key ((os @ [new_worker key now]) ! i)) = k" if "(ws(Key_String key \<mapsto> length os)) k = Some i" for k i
    using that t(4,5) [of k i] by (cases "k = Key_String key") (auto simp: nth_append)
  moreover have "(ws(Key_String key \<mapsto> length os)) (Key_String (cw_key ((os @ [new_worker key now]) ! i))) = Some i"
    if "i < length os + 1" "cw_state ((os @ [new_worker key now]) ! i) \<noteq> Stopped" for i
    using that t(6) [of i] assms(3) by (cases "i < length os") (auto simp: nth_append less_Suc_eq)
  moreover have "card (dom (ws(Key_String key \<mapsto> length os))) = Suc (card (dom ws))" using assms(3) t(1) by (simp add: domIff)
  ultimately show ?thesis using t(1,3) assms(4) unfolding table_ok_def by auto
qed

lemma table_update:
  assumes "table_ok cfg ws os" and "i < length os" and "worker_ok cfg w'" and "cw_key w' = cw_key (os ! i)"
    and "cw_state (os ! i) = Stopped \<Longrightarrow> cw_state w' = Stopped"
  shows "table_ok cfg ws (os[i := w'])"
proof -
  note t = table_okD [OF assms(1)]
  have "\<forall>w \<in> set (os[i := w']). worker_ok cfg w" using t(3) assms(3) set_update_subset_insert [of os i w'] by auto
  moreover have "Key_String (cw_key (os[i := w'] ! j)) = k" if "ws k = Some j" for k j
    using t(5) [OF that] assms(2,4) by (cases "j = i") simp_all
  moreover have "ws (Key_String (cw_key (os[i := w'] ! j))) = Some j" if "j < length os" "cw_state (os[i := w'] ! j) \<noteq> Stopped" for j
    using that t(6) [of j] assms(2,4,5) by (cases "j = i") auto
  ultimately show ?thesis using t(1,2,4) unfolding table_ok_def by simp
qed

lemma table_remove:
  assumes "table_ok cfg ws os" and "i < length os" and "cw_state (os ! i) = Stopped" and "ws (Key_String (cw_key (os ! i))) = Some i"
  shows "table_ok cfg (ws(Key_String (cw_key (os ! i)) := None)) os"
proof -
  note t = table_okD [OF assms(1)]
  let ?ws = "ws(Key_String (cw_key (os ! i)) := None)"
  have "dom ?ws \<subseteq> dom ws" by auto
  then have "finite (dom ?ws)" "card (dom ?ws) \<le> card (dom ws)" using t(1) by (auto intro: finite_subset card_mono)
  moreover have "?ws (Key_String (cw_key (os ! j))) = Some j" if "j < length os" "cw_state (os ! j) \<noteq> Stopped" for j
    using t(6) [OF that] that assms(3,4) by (cases "j = i") auto
  ultimately show ?thesis using t(2,3,4,5) unfolding table_ok_def by (auto split: if_splits)
qed

lemma inv_lookup:
  assumes "0 \<le> QueueDepth cfg" and "manager_inv cfg m"
  shows "manager_inv cfg (snd (worker_for cfg key now m))"
  using assms table_add [of cfg "mg_workers m" "mg_objects m" key now] by (auto simp: worker_for_def manager_inv_def split: option.splits)

lemma inv_work:
  assumes "0 \<le> QueueDepth cfg" and "manager_inv cfg m" and "i < length (mg_objects m)" and "worker_step cfg (mg_objects m ! i) es w'"
  shows "manager_inv cfg (m\<lparr>mg_objects := (mg_objects m)[i := w']\<rparr>)"
proof -
  have ok: "worker_ok cfg (mg_objects m ! i)" using assms(2,3) by (simp add: manager_inv_def table_ok_def)
  show ?thesis using assms(2,3) step_ok [OF assms(1,4) ok] step_key [OF assms(4)] step_stopped [OF assms(4) ok]
    by (simp add: manager_inv_def table_update)
qed

lemma inv_remove:
  assumes "manager_inv cfg m" and "i < length (mg_objects m)" and "cw_state (mg_objects m ! i) = Stopped"
  shows "manager_inv cfg (removeFromManager i m)"
proof -
  let ?w = "mg_objects m ! i"
  have "worker_ok cfg ?w" using assms(1,2) by (simp add: manager_inv_def table_ok_def)
  then have ok: "worker_ok cfg (?w\<lparr>cw_stop := True\<rparr>)" by (simp add: worker_ok_def)
  have t: "table_ok cfg (mg_workers m) ((mg_objects m)[i := ?w\<lparr>cw_stop := True\<rparr>])"
    using assms ok by (intro table_update) (simp_all add: manager_inv_def)
  have "table_ok cfg ((mg_workers m)(Key_String (cw_key ?w) := None)) ((mg_objects m)[i := ?w\<lparr>cw_stop := True\<rparr>])"
    if "mg_workers m (Key_String (cw_key ?w)) = Some i"
    using table_remove [OF t, of i] that assms(2,3) by simp
  with t show ?thesis by (simp add: removeFromManager_def Let_def manager_inv_def)
qed

lemma manager_steps_inv:
  assumes "0 \<le> QueueDepth cfg" and "(manager_step cfg)\<^sup>*\<^sup>* m m'" and "manager_inv cfg m"
  shows "manager_inv cfg m'"
  using assms(2,3)
proof (induction rule: rtranclp_induct)
  case (step m1 m2)
  from step.hyps(2) step.IH [OF step.prems] show ?case
  proof (cases rule: manager_step.cases)
    case shutting_down
    then show ?thesis using step.IH [OF step.prems] by (simp add: manager_inv_def)
  next
    case closed
    then show ?thesis using step.IH [OF step.prems] by (simp add: manager_inv_def)
  qed (auto intro: inv_lookup inv_work inv_remove assms(1))
qed simp

lemma new_manager_inv: "0 \<le> MaxWorkers cfg \<Longrightarrow> manager_inv cfg NewManager"
  by (simp add: NewManager_def manager_inv_def table_ok_def)

section \<open>Concrete inputs\<close>

definition ex_cfg :: WorkerConfig where
  "ex_cfg = NewManager_config \<lparr>MaxWorkers = 0, QueueDepth = 0, ProcessTimeout = 0, IdleTimeout = 0, StopGrace = 0, CompanionSegmentDelay = 0\<rparr>"

definition ex_msg :: "string \<Rightarrow> string \<Rightarrow> Message" where
  "ex_msg i actor = \<lparr>Msg_ID = i, Msg_TraceID = i, Msg_ChatGroupID = ''g'', Msg_ChatType = ''group'', Msg_ChatID = ''c'', Msg_Key = GroupKey ''c'' ''app'',
     Msg_Runtime = \<lparr>Runtime_ID = ''app'', Runtime_WorkspaceDir = ''/ws'', Runtime_WorkspaceMode = ''work'', Runtime_Model = [], Runtime_Effort = []\<rparr>,
     Msg_Reply = \<lparr>Reply_ID = ''c'', Reply_Type = ''chat_id''\<rparr>, Msg_ActorOpenID = actor, Msg_Query = ''q'', Msg_ReceivedAt = 0,
     Msg_HasRequiredAttachment = False, Msg_AttachmentIDs = [], Msg_AttachmentOutboxDir = [], Msg_Goal = False, Msg_ScheduledTaskID = [],
     Msg_ScheduledTaskRunID = [], Msg_ScheduledClaimToken = []\<rparr>"

definition ex_worker :: channelWorker where
  "ex_worker = (new_worker (GroupKey ''c'' ''app'') 0)\<lparr>cw_queue := [ex_msg ''m1'' ''a'', ex_msg ''m2'' ''a'', ex_msg ''m3'' ''b'']\<rparr>"

section \<open>Properties\<close>

text \<open>
  C19: The loop that sizes a batch computes its specification. A batch is a non-empty prefix of the queue: a goal, a scheduled
  run or a message with an attachment alone, otherwise the longest run of ordinary messages of the same
  person, and the rest stays queued. While a batch is processed there is no other.
\<close>

theorem batch_meets_specification:
  "nextBatch batchID w = (if cw_queue w = [] \<or> cw_processing w then (None, w)
     else (Some \<lparr>Batch_ID = batchID, Batch_Key = cw_key w, Batch_Runtime = Msg_Runtime (hd (cw_queue w)), Batch_Messages = reference_batch (cw_queue w),
          Batch_Goal = Msg_Goal (hd (cw_queue w)), Batch_ScheduledTaskID = Msg_ScheduledTaskID (hd (cw_queue w)),
          Batch_ScheduledTaskRunID = Msg_ScheduledTaskRunID (hd (cw_queue w)), Batch_ScheduledClaimToken = Msg_ScheduledClaimToken (hd (cw_queue w))\<rparr>,
        w\<lparr>cw_queue := drop (length (reference_batch (cw_queue w))) (cw_queue w), cw_processing := True, cw_state := CreatingCard, cw_activeCancel := False,
          cw_activeDone := True, cw_activeCancelled := False, cw_terminal := Some []\<rparr>))"
proof (cases "cw_queue w")
  case Nil
  then show ?thesis by (simp add: nextBatch_def)
next
  case (Cons m rest)
  let ?n = "batch_size_loop (Msg_ActorOpenID m) 0 (m # rest)"
  have t: "take ?n (m # rest) = reference_batch (m # rest)" by (rule batch_size_reference)
  have "?n \<le> length (m # rest)" "hd (reference_batch (m # rest)) = m"
    using length_takeWhile_le [of "mergeable m" rest] by (auto simp: batch_size_loop_Suc reference_batch_def)
  moreover from this have "?n = length (reference_batch (m # rest))" using arg_cong [OF t, of length] by simp
  ultimately show ?thesis using t Cons by (simp add: nextBatch_def Let_def del: batch_size_loop.simps)
qed

text \<open>
  C20: A channel is strictly first in, first out. Along every interleaving of a worker's operations the messages leave its queue in the order they
  were accepted, each exactly once, in a batch or in a drop reported to the sender's lifecycle; what has not left is still queued. Every batch
  meets its specification, and batches do not overlap: all but the current one have finished.
\<close>

theorem channel_fifo:
  assumes "worker_trace cfg w es w'" and "cw_queue w = []" and "\<not> cw_processing w"
  shows "accepted es = departed es @ cw_queue w' \<and> length (taken es) = finished es + (if cw_processing w' then 1 else 0)
    \<and> (\<forall>b \<in> set (taken es). \<exists>rest. Batch_Messages b = reference_batch (Batch_Messages b @ rest) \<and> Batch_Messages b \<noteq> [])"
  using trace_queue [OF assms(1)] trace_processing [OF assms(1)] trace_batches [OF assms(1)] assms(2,3) by simp

theorem channel_fifo_witness:
  "accepted [Accepted (ex_msg ''m1'' ''a''), Taken (the (fst (nextBatch ''b'' (snd (enqueue ex_cfg (ex_msg ''m1'' ''a'') (new_worker (GroupKey ''c'' ''app'') 0))))))]
   = [ex_msg ''m1'' ''a'']
   \<and> departed [Accepted (ex_msg ''m1'' ''a''), Taken (the (fst (nextBatch ''b'' (snd (enqueue ex_cfg (ex_msg ''m1'' ''a'') (new_worker (GroupKey ''c'' ''app'') 0))))))]
     = [ex_msg ''m1'' ''a'']"
proof -
  let ?w = "new_worker (GroupKey ''c'' ''app'') 0"
  let ?w1 = "snd (enqueue ex_cfg (ex_msg ''m1'' ''a'') ?w)"
  let ?w2 = "snd (nextBatch ''b'' ?w1)"
  have e: "enqueue ex_cfg (ex_msg ''m1'' ''a'') ?w = (Inr (), ?w1)" by (simp add: enqueue_def new_worker_def ex_cfg_def NewManager_config_def)
  have b: "nextBatch ''b'' ?w1 = (Some (the (fst (nextBatch ''b'' ?w1))), ?w2)"
    by (simp add: enqueue_def new_worker_def ex_cfg_def NewManager_config_def nextBatch_def signal_def Let_def)
  have q: "cw_queue ?w2 = []"
    by (simp add: enqueue_def new_worker_def ex_cfg_def NewManager_config_def nextBatch_def signal_def Let_def ex_msg_def)
  have "worker_trace ex_cfg ?w ([] @ [Accepted (ex_msg ''m1'' ''a'')]) ?w1"
    by (rule worker_trace.cons [OF worker_trace.nil]) (rule worker_step.accept [OF e])
  then have "worker_trace ex_cfg ?w (([] @ [Accepted (ex_msg ''m1'' ''a'')]) @ [Taken (the (fst (nextBatch ''b'' ?w1)))]) ?w2"
    by (rule worker_trace.cons) (rule worker_step.take_batch [OF b])
  from channel_fifo [OF this] q show ?thesis by (simp add: new_worker_def)
qed

text \<open>
  C21: Resources are bounded and channels have one owner. In every state the manager can reach, at most \<open>MaxWorkers\<close> channels have a worker, no queue is
  longer than \<open>QueueDepth\<close>, a channel under a control barrier has an empty queue, and two workers of the same
  channel that have not stopped are the same worker.
\<close>

theorem manager_bounds:
  assumes "0 \<le> MaxWorkers cfg" and "0 \<le> QueueDepth cfg" and "(manager_step cfg)\<^sup>*\<^sup>* NewManager m"
  shows "int (card (dom (mg_workers m))) \<le> MaxWorkers cfg
    \<and> (\<forall>w \<in> set (mg_objects m). int (length (cw_queue w)) \<le> QueueDepth cfg \<and> (cw_barrier w \<longrightarrow> cw_queue w = []))
    \<and> (\<forall>i < length (mg_objects m). \<forall>j < length (mg_objects m). cw_state (mg_objects m ! i) \<noteq> Stopped \<and> cw_state (mg_objects m ! j) \<noteq> Stopped
        \<and> Key_String (cw_key (mg_objects m ! i)) = Key_String (cw_key (mg_objects m ! j)) \<longrightarrow> i = j)"
proof -
  note t = table_okD [OF manager_steps_inv [OF assms(2,3) new_manager_inv [OF assms(1)], unfolded manager_inv_def]]
  have "i = j" if "i < length (mg_objects m)" "j < length (mg_objects m)" "cw_state (mg_objects m ! i) \<noteq> Stopped" "cw_state (mg_objects m ! j) \<noteq> Stopped"
    "Key_String (cw_key (mg_objects m ! i)) = Key_String (cw_key (mg_objects m ! j))" for i j
    using t(6) [OF that(1,3)] t(6) [OF that(2,4)] by (metis that(5) option.inject)
  note only = this
  have one: "\<forall>i < length (mg_objects m). \<forall>j < length (mg_objects m). cw_state (mg_objects m ! i) \<noteq> Stopped \<and> cw_state (mg_objects m ! j) \<noteq> Stopped
        \<and> Key_String (cw_key (mg_objects m ! i)) = Key_String (cw_key (mg_objects m ! j)) \<longrightarrow> i = j" by (intro allI impI, elim conjE) (rule only)
  have "\<forall>w \<in> set (mg_objects m). int (length (cw_queue w)) \<le> QueueDepth cfg \<and> (cw_barrier w \<longrightarrow> cw_queue w = [])"
    using t(3) by (simp add: worker_ok_def)
  then show ?thesis by (intro conjI t(2) one)
qed

theorem manager_bounds_witness:
  "int (card (dom (mg_workers (snd (worker_for ex_cfg (GroupKey ''c'' ''app'') 0 NewManager))))) \<le> 20"
proof -
  have "0 \<le> MaxWorkers ex_cfg" "0 \<le> QueueDepth ex_cfg" "MaxWorkers ex_cfg = 20" by (simp_all add: ex_cfg_def NewManager_config_def)
  then show ?thesis using manager_bounds [OF _ _ r_into_rtranclp [of "manager_step ex_cfg", OF manager_step.lookup]] by metis
qed

text \<open>
  The idle timer looks at the queue and not at the controls: a control submitted to an idle worker can be stranded in a stopped one.
\<close>

lemma recycle_strands_control:
  "\<exists>w'. worker_trace ex_cfg (new_worker (GroupKey ''c'' ''app'') 0) [Dropped []] w' \<and> cw_state w' = Stopped \<and> cw_controls w' = [7] \<and> cw_barrier w'"
proof -
  let ?w = "new_worker (GroupKey ''c'' ''app'') 0"
  let ?w1 = "snd (submitControl None None 7 ?w)" and ?now = "minutes 30"
  have q: "cw_queue ?w = []" by (simp add: new_worker_def)
  have "worker_step ex_cfg ?w [Dropped (cw_queue ?w)] ?w1"
    by (rule worker_step.control [where r = "fst (submitControl None None 7 ?w)"]) (simp_all add: new_worker_def)
  then have "worker_trace ex_cfg ?w ([] @ [Dropped []]) ?w1" using worker_trace.cons [OF worker_trace.nil] q by metis
  then have "worker_trace ex_cfg ?w (([] @ [Dropped []]) @ []) (snd (recycle ex_cfg ?now ?w1))" by (rule worker_trace.cons) (rule worker_step.idle)
  moreover have "cw_state (snd (recycle ex_cfg ?now ?w1)) = Stopped \<and> cw_controls (snd (recycle ex_cfg ?now ?w1)) = [7] \<and> cw_barrier (snd (recycle ex_cfg ?now ?w1))"
    by (simp add: recycle_def submitControl_def control_section_def detach_pending_def claim_terminal_def signal_def new_worker_def Let_def ex_cfg_def NewManager_config_def)
  ultimately show ?thesis by auto
qed

end
