(* ===== verification/Router.thy ===== *)
theory Router
  imports Codex_Session Worker_Queue Key_Protectors
begin

text \<open>
  The router (\<open>internal/router/router.go\<close>): an event of the platform is validated, classified as a command or
  an ordinary message, its attachment references are sealed, it is stored, and then handed to the worker of
  its channel or answered. The store is the one of \<open>Message_Store\<close>; the senders, the dispatcher's answers,
  the archive call of the session resetter and the account reader are arguments. A control handed to the worker is kept as data, with
  the effect of its \<open>Run\<close> and \<open>OnError\<close> functions.
\<close>

section \<open>Data\<close>

definition ErrDuplicate :: go_error where
  "ErrDuplicate = Sentinel ''duplicate feishu event''"

definition ErrIgnored :: go_error where
  "ErrIgnored = Sentinel ''ignored incoming message''"

record App =
  App_ID :: string
  App_Name :: string
  App_WorkspaceDir :: string
  App_WorkspaceMode :: string
  App_Model :: string
  App_Effort :: string

datatype CommandKind = CommandNormal | CommandNew | CommandCancel | CommandStatus | CommandGoal | CommandHelp | CommandInvalid

fun kind_text :: "CommandKind \<Rightarrow> string" where
  "kind_text CommandNormal = ''normal''"
| "kind_text CommandNew = ''new''"
| "kind_text CommandCancel = ''cancel''"
| "kind_text CommandStatus = ''status''"
| "kind_text CommandGoal = ''goal''"
| "kind_text CommandHelp = ''help''"
| "kind_text CommandInvalid = ''invalid''"

record Command =
  Cmd_Kind :: CommandKind
  Cmd_Argument :: string

abbreviation plain_command :: "CommandKind \<Rightarrow> Command" where
  "plain_command k \<equiv> \<lparr>Cmd_Kind = k, Cmd_Argument = []\<rparr>"

record AttachmentReference =
  Ref_Kind :: string
  Ref_ResourceKey :: string
  Ref_OriginalName :: string
  Ref_DeclaredMIME :: string

record Incoming =
  In_App :: App
  In_EventID :: string
  In_MessageID :: string
  In_ChatType :: string
  In_ChatID :: string
  In_SenderOpenID :: string
  In_Text :: string
  In_ReceivedAt :: go_time
  In_Attachments :: "AttachmentReference list"

section \<open>Commands\<close>

text \<open>
  \<open>strings.ToLower\<close> is read off only for equality with the six ASCII tokens. The runes outside ASCII with an
  ASCII lower case are U+0130 and U+212A, whose images occur in none of them, so lowering ASCII letters is exact.
\<close>

definition ClassifyCommand :: "string \<Rightarrow> Command" where
  "ClassifyCommand text = (let trimmed = trim_space text in
     if \<not> has_prefix trimmed ''/'' then plain_command CommandNormal
     else case string_fields trimmed of [] \<Rightarrow> plain_command CommandNormal
     | field # _ \<Rightarrow> (let token = lower_ascii field; argument = trim_space (trim_prefix trimmed field) in
         if token = ''/new'' \<and> argument = [] then plain_command CommandNew
         else if (token = ''/cancel'' \<or> token = ''/stop'') \<and> argument = [] then plain_command CommandCancel
         else if token = ''/status'' \<and> argument = [] then plain_command CommandStatus
         else if token = ''/help'' \<and> argument = [] then plain_command CommandHelp
         else if token = ''/goal'' \<and> argument \<noteq> [] \<and> rune_count argument \<le> 4000 then \<lparr>Cmd_Kind = CommandGoal, Cmd_Argument = argument\<rparr>
         else plain_command CommandInvalid))"

definition safeIncomingContent :: "string \<Rightarrow> bool \<Rightarrow> string" where
  "safeIncomingContent text hasAttachments = (if text \<noteq> [] then text else if hasAttachments then ''[attachment]'' else [])"

record commandReceiptFields =
  rc_content :: string
  rc_kind :: string
  rc_digest :: string
  rc_bytes :: int

text \<open>\<open>sha\<close> is \<open>sha256.Sum256\<close>, the 32 bytes of the digest.\<close>

definition commandReceipt :: "(string \<Rightarrow> string) \<Rightarrow> Command \<Rightarrow> string \<Rightarrow> bool \<Rightarrow> commandReceiptFields" where
  "commandReceipt sha command text hasAttachments = (case Cmd_Kind command of
       CommandNormal \<Rightarrow> \<lparr>rc_content = safeIncomingContent text hasAttachments, rc_kind = [], rc_digest = [], rc_bytes = 0\<rparr>
     | CommandGoal \<Rightarrow> \<lparr>rc_content = ''/goal [redacted]'', rc_kind = kind_text CommandGoal, rc_digest = hex_encode (sha (Cmd_Argument command)),
         rc_bytes = int (length (Cmd_Argument command))\<rparr>
     | CommandInvalid \<Rightarrow> (case string_fields (trim_space text) of
           [] \<Rightarrow> \<lparr>rc_content = ''/ [invalid]'', rc_kind = kind_text CommandInvalid, rc_digest = [], rc_bytes = 0\<rparr>
         | field # _ \<Rightarrow> \<lparr>rc_content = field @ '' [invalid]'', rc_kind = kind_text CommandInvalid, rc_digest = [], rc_bytes = 0\<rparr>)
     | kind \<Rightarrow> \<lparr>rc_content = ''/'' @ kind_text kind, rc_kind = kind_text kind, rc_digest = [], rc_bytes = 0\<rparr>)"

section \<open>Events\<close>

definition validate :: "Incoming \<Rightarrow> go_error option" where
  "validate i =
     (if In_ChatType i = ''topic_group'' \<or> In_ChatType i \<noteq> ''p2p'' \<and> In_ChatType i \<noteq> ''group'' then Some ErrIgnored
      else if App_ID (In_App i) = [] \<or> App_Name (In_App i) = [] \<or> In_EventID i = [] \<or> In_MessageID i = [] \<or> In_ChatID i = []
        \<or> In_Text i = [] \<and> In_Attachments i = [] then Some ErrIgnored
      else if In_ChatType i = ''p2p'' \<and> In_SenderOpenID i = [] then Some ErrIgnored
      else None)"

definition routing :: "Incoming \<Rightarrow> Key \<times> ReplyTarget" where
  "routing i = (if In_ChatType i = ''p2p''
     then (P2PKey (In_SenderOpenID i) (App_ID (In_App i)), \<lparr>Reply_ID = In_SenderOpenID i, Reply_Type = ''open_id''\<rparr>)
     else (GroupKey (In_ChatID i) (App_ID (In_App i)), \<lparr>Reply_ID = In_ChatID i, Reply_Type = ''chat_id''\<rparr>))"

text \<open>\<open>storage.TraceID\<close>: the first 16 bytes of the digest in hexadecimal.\<close>

definition TraceID :: "(string \<Rightarrow> string) \<Rightarrow> string \<Rightarrow> string \<Rightarrow> string" where
  "TraceID sha appID eventID = hex_encode (take 16 (sha (appID @ '':'' @ eventID)))"

section \<open>The handler and what it calls\<close>

text \<open>A sender answers from what was sent before, the receiver, its type and the text.\<close>

type_synonym sender = "feishu_call list \<Rightarrow> string \<Rightarrow> string \<Rightarrow> string \<Rightarrow> string res"

record commandResponder =
  SendStaticCard :: sender
  SendCommandText :: sender

text \<open>
  JSON values as \<open>json.Unmarshal\<close> builds them in an \<open>any\<close>: numbers are the bits of a \<open>float64\<close> (never a NaN or an
  infinity), the entries of an object stand in the order in which \<open>range\<close> visits them.
\<close>

datatype json = JNull | JBool bool | JNumber "64 word" | JString string | JArray "json list" | JObject "(string \<times> json) list"

record accountReader =
  Call :: "string \<Rightarrow> string res"
  parse_json :: "string \<Rightarrow> json option"
  format_float0 :: "64 word \<Rightarrow> string"
  format_reset :: "64 word \<Rightarrow> string"
  format_now :: string

record Handler =
  h_sha :: "string \<Rightarrow> string"
  h_runtime :: App
  h_rejector :: "sender option"
  h_ready :: "bool option"
  h_resetter :: "(string \<Rightarrow> go_error option) option"
  h_account :: "accountReader option"
  h_commands :: "commandResponder option"
  h_protector :: "(string \<Rightarrow> string \<Rightarrow> string \<Rightarrow> string \<Rightarrow> (string \<times> int) res) option"
  h_controller :: bool
  h_canceller :: bool

text \<open>What the handler asks of its dispatcher; a control carries what its closures captured.\<close>

record Control =
  Ctl_Message :: string
  Ctl_Group :: string
  Ctl_Target :: ReplyTarget
  Ctl_New :: bool

datatype dispatch_call = AcceptJob Message | SubmitCtl Key Control | CancelKey Key

definition send :: "string \<Rightarrow> string \<Rightarrow> sender \<Rightarrow> ReplyTarget \<Rightarrow> string \<Rightarrow> string op" where
  "send owner method f target reply w = (f (feishu_log w) (Reply_ID target) (Reply_Type target) reply,
     w\<lparr>feishu_log := feishu_log w @ [FeishuCall owner method (Reply_ID target) (Reply_Type target) reply]\<rparr>)"

text \<open>\<open>id, _ := SendText(\<dots>)\<close>: a failed send gives no id.\<close>

definition send_ignoring :: "string \<Rightarrow> sender option \<Rightarrow> ReplyTarget \<Rightarrow> string \<Rightarrow> string op" where
  "send_ignoring owner s target reply = (case s of None \<Rightarrow> ret []
     | Some f \<Rightarrow> attempt (send owner ''SendText'' f target reply) (\<lambda>a. ret (case a of Inl _ \<Rightarrow> [] | Inr i \<Rightarrow> i)))"

section \<open>Attachment references\<close>

definition AttachmentImage :: string where
  "AttachmentImage = ''image''"

definition AttachmentFile :: string where
  "AttachmentFile = ''file''"

fun stage_loop :: "Handler \<Rightarrow> (nat \<Rightarrow> string) \<Rightarrow> Incoming \<Rightarrow> nat \<Rightarrow> AttachmentReference list \<Rightarrow> (AttachmentInput list \<times> string list) res" where
  "stage_loop h uuid i n [] = Inr ([], [])"
| "stage_loop h uuid i n (reference # rest) =
     (if Ref_ResourceKey reference = [] \<or> Ref_Kind reference \<noteq> AttachmentImage \<and> Ref_Kind reference \<noteq> AttachmentFile
        then Inl (Errorf ''attachment reference is invalid'')
      else case the (h_protector h) (App_ID (In_App i)) (uuid n) (In_MessageID i) (Ref_ResourceKey reference) of
        Inl err \<Rightarrow> Inl err
      | Inr (ciphertext, version) \<Rightarrow> (case stage_loop h uuid i (Suc n) rest of
            Inl err \<Rightarrow> Inl err
          | Inr (inputs, ids) \<Rightarrow> Inr (\<lparr>In_ID = uuid n, In_Kind = Ref_Kind reference, In_SourceResourceRefEnc = ciphertext,
              In_SourceRefKeyVersion = version, In_SourceMessageID = In_MessageID i, In_OriginalNameSafe = Ref_OriginalName reference,
              In_DeclaredMIME = Ref_DeclaredMIME reference\<rparr> # inputs, uuid n # ids)))"

definition stageAttachments :: "Handler \<Rightarrow> (nat \<Rightarrow> string) \<Rightarrow> Incoming \<Rightarrow> (AttachmentInput list \<times> string list) res" where
  "stageAttachments h uuid i =
     (if In_Attachments i = [] then Inr ([], [])
      else if h_protector h = None then Inl (Errorf ''attachment protector is unavailable'')
      else stage_loop h uuid i 0 (In_Attachments i))"

section \<open>Answers\<close>

definition completeAndReply :: "Handler \<Rightarrow> string \<Rightarrow> ReplyTarget \<Rightarrow> string \<Rightarrow> unit op" where
  "completeAndReply h messageID target reply = (case h_commands h of
       Some r \<Rightarrow> attempt (send messageID ''SendStaticCard'' (SendStaticCard r) target reply) (\<lambda>carded. case carded of
           Inr botMessageID \<Rightarrow> CompleteMessage messageID botMessageID reply 0
         | Inl err \<Rightarrow> if errors_is err ErrCommandDeliveryRejected then
               attempt (send messageID ''SendCommandText'' (SendCommandText r) target reply) (\<lambda>texted. case texted of
                   Inr botMessageID \<Rightarrow> CompleteMessage messageID botMessageID reply 0
                 | Inl err' \<Rightarrow> if errors_is err' ErrCommandDeliveryRejected
                     then RecordCommandReplyFailure messageID ''succeeded'' ''rejected'' (utf8 [21629, 20196, 24050, 22788, 29702, 65292, 20294, 26410, 33021, 21457, 36865, 30830, 35748, 28040, 24687, 12290])
                     else RecordCommandReplyFailure messageID ''succeeded'' ''unknown'' (utf8 [21629, 20196, 24050, 22788, 29702, 65292, 20294, 30830, 35748, 28040, 24687, 29366, 24577, 26410, 30693, 12290]))
             else RecordCommandReplyFailure messageID ''succeeded'' ''unknown'' (utf8 [21629, 20196, 24050, 22788, 29702, 65292, 20294, 30830, 35748, 28040, 24687, 29366, 24577, 26410, 30693, 12290]))
     | None \<Rightarrow> and_then (send_ignoring messageID (h_rejector h) target reply) id
         (\<lambda>botMessageID. CompleteMessage messageID botMessageID reply 0))"

definition failAndReply :: "Handler \<Rightarrow> string \<Rightarrow> ReplyTarget \<Rightarrow> string \<Rightarrow> string \<Rightarrow> unit op" where
  "failAndReply h messageID target code reply = (case h_commands h of
       Some r \<Rightarrow> attempt (send messageID ''SendStaticCard'' (SendStaticCard r) target reply) (\<lambda>carded. case carded of
           Inr _ \<Rightarrow> FailMessage messageID code reply 0
         | Inl err \<Rightarrow> if errors_is err ErrCommandDeliveryUnknown
             then RecordCommandReplyFailure messageID ''failed'' ''unknown'' (utf8 [21629, 20196, 22788, 29702, 22833, 36133, 65292, 30830, 35748, 28040, 24687, 29366, 24577, 26410, 30693, 12290])
             else attempt (send messageID ''SendCommandText'' (SendCommandText r) target reply) (\<lambda>texted. case texted of
                 Inr _ \<Rightarrow> FailMessage messageID code reply 0
               | Inl fallbackErr \<Rightarrow> if errors_is fallbackErr ErrCommandDeliveryUnknown
                   then RecordCommandReplyFailure messageID ''failed'' ''unknown'' (utf8 [21629, 20196, 22788, 29702, 22833, 36133, 65292, 30830, 35748, 28040, 24687, 29366, 24577, 26410, 30693, 12290])
                   else RecordCommandReplyFailure messageID ''failed'' ''rejected'' (utf8 [21629, 20196, 22788, 29702, 22833, 36133, 65292, 26410, 33021, 21457, 36865, 30830, 35748, 28040, 24687, 12290])))
     | None \<Rightarrow> and_then (send_ignoring messageID (h_rejector h) target reply) id (\<lambda>_. FailMessage messageID code reply 0))"

section \<open>The account status\<close>

definition number :: "json option \<Rightarrow> 64 word option" where
  "number value = (case value of Some (JNumber bits) \<Rightarrow> Some bits | _ \<Rightarrow> None)"

text \<open>The order of two finite \<open>float64\<close> against zero, from the bits.\<close>

definition float_nonneg :: "64 word \<Rightarrow> bool" where
  "float_nonneg b \<longleftrightarrow> \<not> bit b 63 \<or> b = push_bit 63 1"

definition float_pos :: "64 word \<Rightarrow> bool" where
  "float_pos b \<longleftrightarrow> \<not> bit b 63 \<and> b \<noteq> 0"

fun findRateBuckets :: "json \<Rightarrow> (string \<times> json) list list" where
  "findRateBuckets (JObject entries) =
     (if map_of entries ''usedPercent'' \<noteq> None then [entries] else []) @ concat (map (\<lambda>e. findRateBuckets (snd e)) entries)"
| "findRateBuckets (JArray items) = concat (map findRateBuckets items)"
| "findRateBuckets _ = []"

definition rate_line :: "accountReader \<Rightarrow> (string \<times> json) list \<Rightarrow> string option" where
  "rate_line a bucket = (case number (map_of bucket ''usedPercent'') of None \<Rightarrow> None
     | Some used \<Rightarrow> Some ((utf8 [39069, 24230, 65306, 24050, 29992] @ '' '') @ format_float0 a used @ ''%''
         @ (case number (map_of bucket ''windowDurationMins'') of None \<Rightarrow> []
            | Some mins \<Rightarrow> if \<not> float_nonneg mins then [] else (utf8 [65288, 31383, 21475] @ '' '') @ format_float0 a mins @ ('' '' @ utf8 [20998, 38047])
                @ (case number (map_of bucket ''resetsAt'') of None \<Rightarrow> []
                   | Some reset \<Rightarrow> if float_pos reset then (utf8 [65292, 37325, 32622] @ '' '') @ format_reset a reset else [])
                @ (utf8 [65289]))))"

definition statusRateLines :: "accountReader \<Rightarrow> string \<Rightarrow> string list" where
  "statusRateLines a raw = (case parse_json a raw of None \<Rightarrow> [(utf8 [39069, 24230, 65306, 26242, 19981, 21487, 29992])]
     | Some value \<Rightarrow> (let buckets = findRateBuckets value in
         if buckets = [] then [(utf8 [39069, 24230, 65306, 26410, 25552, 20379])]
         else let lines = List.map_filter (rate_line a) buckets in if lines = [] then [(utf8 [39069, 24230, 65306, 26410, 25552, 20379])] else lines))"

fun join_lines :: "string list \<Rightarrow> string" where
  "join_lines [] = []"
| "join_lines [l] = l"
| "join_lines (l # ls) = l @ [CHR 0x0A] @ join_lines ls"

definition renderStatus :: "accountReader \<Rightarrow> string res" where
  "renderStatus a = (case (Call a ''account/rateLimits/read'', Call a ''account/usage/read'') of
       (Inl _, Inl _) \<Rightarrow> Inl (Errorf ''account status unavailable'')
     | (rates, usage) \<Rightarrow> Inr (join_lines ([(utf8 [128202] @ '' Codex '' @ utf8 [29366, 24577]), (utf8 [26597, 35810, 26102, 38388, 65306]) @ format_now a]
         @ (case rates of Inl _ \<Rightarrow> [(utf8 [39069, 24230, 65306, 26242, 19981, 21487, 29992])] | Inr raw \<Rightarrow> statusRateLines a raw)
         @ (case usage of Inl _ \<Rightarrow> [(utf8 [29992, 37327, 25688, 35201, 65306, 26242, 19981, 21487, 29992])] | Inr _ \<Rightarrow> [(utf8 [29992, 37327, 25688, 35201, 65306, 24050, 33719, 21462])]))))"

section \<open>Handling an event\<close>

definition error_of :: "'a res \<Rightarrow> go_error option" where
  "error_of r = (case r of Inl e \<Rightarrow> Some e | Inr _ \<Rightarrow> None)"

definition with_runtime :: "Handler \<Rightarrow> Incoming \<Rightarrow> Incoming" where
  "with_runtime h i = (if App_WorkspaceDir (In_App i) = [] \<and> App_ID (h_runtime h) = App_ID (In_App i) then i\<lparr>In_App := h_runtime h\<rparr> else i)"

definition stamped :: "go_time \<Rightarrow> Incoming \<Rightarrow> Incoming" where
  "stamped now i = (if is_zero_time (In_ReceivedAt i) then i\<lparr>In_ReceivedAt := now\<rparr> else i)"

definition message_input :: "Handler \<Rightarrow> string \<Rightarrow> Incoming \<Rightarrow> Command \<Rightarrow> AttachmentInput list \<Rightarrow> MessageInput" where
  "message_input h messageID i command atts = (let receipt = commandReceipt (h_sha h) command (In_Text i) (atts \<noteq> []) in
     \<lparr>MI_ID = messageID, MI_TraceID = TraceID (h_sha h) (App_ID (In_App i)) (In_EventID i), MI_ChatGroupID = [], MI_FeishuEventID = In_EventID i,
      MI_FeishuUserMessageID = In_MessageID i, MI_SenderOpenID = In_SenderOpenID i, MI_UserContent = rc_content receipt,
      MI_ReceivedAt = In_ReceivedAt i, MI_CommandKind = rc_kind receipt, MI_CommandPayloadSHA256 = rc_digest receipt,
      MI_CommandPayloadBytes = rc_bytes receipt, MI_Attachments = atts\<rparr>)"

text \<open>The job of a goal and of an ordinary message.\<close>

definition job :: "Handler \<Rightarrow> Incoming \<Rightarrow> MessageRecord \<Rightarrow> string \<Rightarrow> string list \<Rightarrow> bool \<Rightarrow> Message" where
  "job h i message queryText attachmentIDs goal = (case routing i of (key, target) \<Rightarrow>
     \<lparr>Msg_ID = MR_ID message, Msg_TraceID = TraceID (h_sha h) (App_ID (In_App i)) (In_EventID i), Msg_ChatGroupID = MR_ChatGroupID message,
      Msg_ChatType = In_ChatType i, Msg_ChatID = In_ChatID i, Msg_Key = key,
      Msg_Runtime = \<lparr>Runtime_ID = App_ID (In_App i), Runtime_WorkspaceDir = App_WorkspaceDir (In_App i),
        Runtime_WorkspaceMode = App_WorkspaceMode (In_App i), Runtime_Model = App_Model (In_App i), Runtime_Effort = App_Effort (In_App i)\<rparr>,
      Msg_Reply = target, Msg_ActorOpenID = In_SenderOpenID i, Msg_Query = queryText, Msg_ReceivedAt = In_ReceivedAt i,
      Msg_HasRequiredAttachment = (attachmentIDs \<noteq> []), Msg_AttachmentIDs = attachmentIDs, Msg_AttachmentOutboxDir = [], Msg_Goal = goal,
      Msg_ScheduledTaskID = [], Msg_ScheduledTaskRunID = [], Msg_ScheduledClaimToken = []\<rparr>)"

definition stop_reply :: string where
  "stop_reply = (utf8 [24050, 35831, 27714, 20572, 27490, 24403, 21069, 20219, 21153, 12290])"

definition queue_unavailable :: string where
  "queue_unavailable = (utf8 [24403, 21069, 38431, 21015, 26242, 19981, 21487, 29992, 65292, 35831, 31245, 21518, 37325, 26032, 21457, 36865, 12290])"

definition server_unavailable :: string where
  "server_unavailable = (''Codex App Server '' @ utf8 [26242, 19981, 21487, 29992, 65292, 35831, 31245, 21518, 37325, 35797, 12290])"

definition safeError :: "go_error \<Rightarrow> string" where
  "safeError err = ''failed to send fixed reply''"

text \<open>The \<open>Run\<close> function of a control, and \<open>runControl\<close>'s call of \<open>OnError\<close> after it.\<close>

definition control_run :: "Handler \<Rightarrow> Control \<Rightarrow> unit op" where
  "control_run h c =
     (let refused = failAndReply h (Ctl_Message c) (Ctl_Target c) ''command_archive_failed'' (utf8 [26410, 33021, 23433, 20840, 24320, 21551, 26032, 23545, 35805, 65292, 24403, 21069, 20250, 35805, 20445, 25345, 19981, 21464, 12290]) in
      if \<not> Ctl_New c then completeAndReply h (Ctl_Message c) (Ctl_Target c) stop_reply
      else case h_resetter h of None \<Rightarrow> refused
        | Some archive \<Rightarrow> attempt (NewSession archive (Ctl_Group c)) (\<lambda>a. case a of Inl _ \<Rightarrow> refused
            | Inr _ \<Rightarrow> completeAndReply h (Ctl_Message c) (Ctl_Target c) (utf8 [24050, 24320, 21551, 26032, 23545, 35805, 12290, 19979, 19968, 26465, 26222, 36890, 28040, 24687, 23558, 21019, 24314, 26032, 30340] @ '' Codex '' @ utf8 [20250, 35805, 12290])))"

definition control_done :: "Handler \<Rightarrow> Control \<Rightarrow> unit op" where
  "control_done h c = attempt (control_run h c) (\<lambda>a. case a of Inr _ \<Rightarrow> ret ()
     | Inl _ \<Rightarrow> attempt (FailMessage (Ctl_Message c) ''command_control_failed'' (utf8 [21629, 20196, 22788, 29702, 26410, 23436, 25104, 65292, 35831, 31245, 21518, 20351, 29992] @ '' /status'' @ utf8 [12290]) 0) (\<lambda>_. ret ()))"

text \<open>\<open>/new\<close> and \<open>/cancel\<close> for a dispatcher without controls.\<close>

definition stop_directly :: "Handler \<Rightarrow> MessageRecord \<Rightarrow> ReplyTarget \<Rightarrow> bool \<Rightarrow> unit op" where
  "stop_directly h message target new =
     (let finish = (\<lambda>reply. and_then (send_ignoring (MR_ID message) (h_rejector h) target reply) id (\<lambda>botMessageID.
          and_then (CompleteMessage (MR_ID message) botMessageID reply 0) (Wrapf ''complete stop command'') ret)) in
      if \<not> new then finish stop_reply
      else case h_resetter h of None \<Rightarrow> fail (Errorf ''new session resetter is unavailable'')
        | Some archive \<Rightarrow> and_then (NewSession archive (MR_ChatGroupID message)) (Wrapf ''start new session'') (\<lambda>_. finish (utf8 [24050, 24320, 22987, 26032, 20250, 35805, 12290])))"

type_synonym outcome = "(go_error option \<times> dispatch_call list) \<times> world"

definition answered :: "dispatch_call list \<Rightarrow> unit op \<Rightarrow> world \<Rightarrow> outcome" where
  "answered calls m w = (case m w of (r, w') \<Rightarrow> ((error_of r, calls), w'))"

definition handle_stop :: "Handler \<Rightarrow> (dispatch_call \<Rightarrow> go_error option) \<Rightarrow> Incoming \<Rightarrow> MessageRecord \<Rightarrow> bool \<Rightarrow> world \<Rightarrow> outcome" where
  "handle_stop h answer i message new w = (case routing i of (key, target) \<Rightarrow>
     if h_controller h then
       (let c = SubmitCtl key \<lparr>Ctl_Message = MR_ID message, Ctl_Group = MR_ChatGroupID message, Ctl_Target = target, Ctl_New = new\<rparr> in
        ((map_option (Wrapf ''submit channel control'') (answer c), [c]), w))
     else if h_canceller h then
       (case answer (CancelKey key) of Some err \<Rightarrow> ((Some (Wrapf ''cancel active worker'' err), [CancelKey key]), w)
        | None \<Rightarrow> answered [CancelKey key] (stop_directly h message target new) w)
     else answered [] (stop_directly h message target new) w)"

definition handle_goal :: "Handler \<Rightarrow> (dispatch_call \<Rightarrow> go_error option) \<Rightarrow> Incoming \<Rightarrow> MessageRecord \<Rightarrow> string \<Rightarrow> world \<Rightarrow> outcome" where
  "handle_goal h answer i message argument w = (let c = AcceptJob (job h i message argument [] True) in
     case answer c of None \<Rightarrow> ((None, [c]), w)
     | Some _ \<Rightarrow> answered [c] (failAndReply h (MR_ID message) (snd (routing i)) ''goal_worker_rejected'' queue_unavailable) w)"

definition handle_status :: "Handler \<Rightarrow> Incoming \<Rightarrow> MessageRecord \<Rightarrow> unit op" where
  "handle_status h i message =
     (let unavailable = failAndReply h (MR_ID message) (snd (routing i)) ''status_unavailable'' (utf8 [36134, 25143, 29366, 24577, 26242, 19981, 21487, 29992, 65292, 35831, 31245, 21518, 37325, 35797, 12290]) in
      case h_account h of None \<Rightarrow> unavailable
      | Some a \<Rightarrow> (case renderStatus a of Inl _ \<Rightarrow> unavailable
          | Inr rendered \<Rightarrow> completeAndReply h (MR_ID message) (snd (routing i)) rendered))"

text \<open>
  A message that cannot be queued is failed, the sender is told, and the error is returned. (When the update
  fails too, Go's error wraps the queue's error and ends with the text of the other; here that text comes first.)
\<close>

definition refuse :: "Handler \<Rightarrow> MessageRecord \<Rightarrow> ReplyTarget \<Rightarrow> string \<Rightarrow> string \<Rightarrow> string \<Rightarrow> (go_error \<Rightarrow> go_error) \<Rightarrow> go_error \<Rightarrow> unit op" where
  "refuse h message target code safe notice wrap err =
     and_then (FailMessage (MR_ID message) code safe 0) wrap (\<lambda>_.
       and_then (send_ignoring (MR_ID message) (h_rejector h) target notice) id (\<lambda>_. fail err))"

definition handle_normal :: "Handler \<Rightarrow> (dispatch_call \<Rightarrow> go_error option) \<Rightarrow> Incoming \<Rightarrow> MessageRecord \<Rightarrow> string list \<Rightarrow> world \<Rightarrow> outcome" where
  "handle_normal h answer i message attachmentIDs w =
     (let c = AcceptJob (job h i message (In_Text i) attachmentIDs False) in
      if h_ready h = Some False
        then answered [] (refuse h message (snd (routing i)) ''app_server_unavailable'' server_unavailable server_unavailable
          (Wrapf ''mark app server unavailable'') (Errorf (''app server unavailable for '' @ Key_String (fst (routing i))))) w
      else case answer c of None \<Rightarrow> ((None, [c]), w)
        | Some err \<Rightarrow> answered [c] (refuse h message (snd (routing i)) ''worker_rejected'' (safeError err) queue_unavailable
            (\<lambda>updateErr. Wrapf ''queue message'' (Wrapf (''mark failed: '' @ error_text updateErr) err)) (Wrapf ''queue message'' err)) w)"

definition handle_stored :: "Handler \<Rightarrow> (dispatch_call \<Rightarrow> go_error option) \<Rightarrow> Incoming \<Rightarrow> Command \<Rightarrow> string list \<Rightarrow> MessageRecord \<Rightarrow> world \<Rightarrow> outcome" where
  "handle_stored h answer i command attachmentIDs message w = (case Cmd_Kind command of
       CommandCancel \<Rightarrow> handle_stop h answer i message False w
     | CommandNew \<Rightarrow> handle_stop h answer i message True w
     | CommandGoal \<Rightarrow> handle_goal h answer i message (Cmd_Argument command) w
     | CommandStatus \<Rightarrow> answered [] (handle_status h i message) w
     | CommandHelp \<Rightarrow> answered [] (completeAndReply h (MR_ID message) (snd (routing i))
         (utf8 [21487, 29992, 21629, 20196, 65306] @ ''/new'' @ utf8 [12289] @ ''/cancel'' @ utf8 [12289] @ ''/status'' @ utf8 [12289] @ ''/goal <'' @ utf8 [30446, 26631] @ ''>'' @ utf8 [12289] @ ''/help'')) w
     | CommandInvalid \<Rightarrow> answered [] (failAndReply h (MR_ID message) (snd (routing i)) ''command_invalid''
         (utf8 [21629, 20196, 26080, 25928, 12290, 35831, 21457, 36865] @ '' /help '' @ utf8 [26597, 30475, 21487, 29992, 21629, 20196, 12290])) w
     | CommandNormal \<Rightarrow> handle_normal h answer i message attachmentIDs w)"

text \<open>
  \<open>uuid\<close> gives the ids of the attachments, \<open>messageID\<close> the one of the message and \<open>groupID\<close> the one the server draws.
  The time of receipt is filled in before the validation, which does not read it.
\<close>

definition Handle :: "Handler \<Rightarrow> (dispatch_call \<Rightarrow> go_error option) \<Rightarrow> (nat \<Rightarrow> string) \<Rightarrow> string \<Rightarrow> string \<Rightarrow> go_time \<Rightarrow> Incoming \<Rightarrow> world \<Rightarrow> outcome" where
  "Handle h answer uuid messageID groupID now incoming w = (let i = stamped now (with_runtime h incoming) in
     case validate i of Some err \<Rightarrow> ((Some err, []), w)
     | None \<Rightarrow> (case stageAttachments h uuid i of
         Inl err \<Rightarrow> ((Some (Wrapf ''stage attachment references'' err), []), w)
       | Inr (atts, attachmentIDs) \<Rightarrow>
           (case PersistIncoming groupID now (App_ID (In_App i)) (In_ChatType i) (In_ChatID i)
               (message_input h messageID i (ClassifyCommand (In_Text i)) atts) w of
             (Inl err, w1) \<Rightarrow> ((Some (Wrapf ''persist incoming message'' err), []), w1)
           | (Inr (message, duplicate), w1) \<Rightarrow> if duplicate then ((Some ErrDuplicate, []), w1)
               else handle_stored h answer i (ClassifyCommand (In_Text i)) attachmentIDs message w1)))"

section \<open>Each answer settles its message\<close>

definition settled :: "message_row \<Rightarrow> bool" where
  "settled m \<longleftrightarrow> m_status m = MsgSucceeded \<or> m_status m = MsgFailed"

definition settles :: "string \<Rightarrow> world \<Rightarrow> world \<Rightarrow> bool" where
  "settles i w w' \<longleftrightarrow> list_all2 (\<lambda>m m'. if m_id m = i then settled m' \<and> same_message m m' else m' = m) (messages w) (messages w')"

lemmas answer_defs = CompleteMessage_def FailMessage_def RecordCommandReplyFailure_def op_defs update_messages_def settled_def
  same_message_def message_identity_def settles_def sql_update_def list_all2_map2 list_all2_same

text \<open>
  On a working connection the operation ends with the message settled; the message is a command, since an
  undelivered answer is recorded only for those.
\<close>

definition settling :: "string \<Rightarrow> unit op \<Rightarrow> bool" where
  "settling i m \<longleftrightarrow> (\<forall>w. faults w = [] \<and> (\<forall>x \<in> set (messages w). m_id x = i \<longrightarrow> m_command_kind x \<noteq> None)
     \<longrightarrow> settles i w (snd (m w)) \<and> fst (m w) = Inr ())"

lemma settling_complete: "settling i (CompleteMessage i b c ms)"
  by (simp add: settling_def answer_defs)

lemma fail_settles: "faults w = [] \<Longrightarrow> settles i w (snd (FailMessage i code safe ms w)) \<and> fst (FailMessage i code safe ms w) = Inr ()"
  by (simp add: answer_defs)

lemma settling_fail: "settling i (FailMessage i code safe ms)"
  by (simp add: settling_def fail_settles)

lemma settling_record:
  assumes "effect = ''succeeded'' \<or> effect = ''failed''" and "what = ''unknown'' \<or> what = ''rejected''"
  shows "settling i (RecordCommandReplyFailure i effect what safe)"
  using assms by (auto simp add: settling_def answer_defs)

lemma settling_attempt:
  fixes m :: "'a op"
  assumes "\<And>w :: world. faults w = [] \<Longrightarrow> messages (snd (m w)) = messages w \<and> faults (snd (m w)) = []" and "\<And>a. settling i (k a)"
  shows "settling i (attempt m k)"
  unfolding settling_def
proof (intro allI impI)
  fix w :: world assume w: "faults w = [] \<and> (\<forall>x \<in> set (messages w). m_id x = i \<longrightarrow> m_command_kind x \<noteq> None)"
  obtain a w1 where a: "m w = (a, w1)" by fastforce
  then have "messages w1 = messages w" "faults w1 = []" using assms(1) [of w] w by auto
  moreover from this have "settles i w1 (snd (k a w1)) \<and> fst (k a w1) = Inr ()"
    using assms(2) [of a] w unfolding settling_def by simp
  ultimately show "settles i w (snd (attempt m k w)) \<and> fst (attempt m k w) = Inr ()"
    using a by (simp add: settles_def attempt_def)
qed

lemma send_quiet: "messages (snd (send o' meth f t r w)) = messages w \<and> faults (snd (send o' meth f t r w)) = faults w"
  by (simp add: send_def)

lemma send_ignoring_quiet:
  "messages (snd (send_ignoring o' s t r w)) = messages w \<and> faults (snd (send_ignoring o' s t r w)) = faults w
     \<and> (\<exists>b. fst (send_ignoring o' s t r w) = Inr b)"
  by (simp add: send_ignoring_def op_defs send_def split: option.split)

lemma settling_ignoring:
  assumes "\<And>b. settling i (k b)"
  shows "settling i (and_then (send_ignoring o' s t r) id k)"
proof -
  have "and_then (send_ignoring o' s t r) id k = attempt (send_ignoring o' s t r) (\<lambda>a. k (case a of Inl _ \<Rightarrow> [] | Inr b \<Rightarrow> b))"
  proof
    fix w
    obtain b w1 where "send_ignoring o' s t r w = (Inr b, w1)" using send_ignoring_quiet [of o' s t r w] by (metis prod.collapse)
    then show "and_then (send_ignoring o' s t r) id k w = attempt (send_ignoring o' s t r) (\<lambda>a. k (case a of Inl _ \<Rightarrow> [] | Inr b \<Rightarrow> b)) w"
      by (simp add: op_defs)
  qed
  then show ?thesis using assms send_ignoring_quiet by (auto intro: settling_attempt)
qed

lemma settling_cases:
  "settling i m \<Longrightarrow> settling i n \<Longrightarrow> settling i (if c then m else n)"
  "(\<And>x. settling i (p x)) \<Longrightarrow> (\<And>y. settling i (q y)) \<Longrightarrow> settling i (case a of Inl x \<Rightarrow> p x | Inr y \<Rightarrow> q y)"
  "settling i m \<Longrightarrow> (\<And>v. settling i (u v)) \<Longrightarrow> settling i (case z of None \<Rightarrow> m | Some v \<Rightarrow> u v)"
  by (simp_all split: sum.split option.split)

lemma settling_completeAndReply: "settling i (completeAndReply h i target reply)"
  unfolding completeAndReply_def
  by (intro settling_cases settling_attempt settling_ignoring settling_complete settling_record) (simp_all add: send_quiet)

lemma settling_failAndReply: "settling i (failAndReply h i target code reply)"
  unfolding failAndReply_def
  by (intro settling_cases settling_attempt settling_ignoring settling_fail settling_record) (simp_all add: send_quiet)

lemma new_session_quiet:
  "faults w = [] \<Longrightarrow> messages (snd (NewSession archive g w)) = messages w \<and> faults (snd (NewSession archive g w)) = []"
  by (auto simp: NewSession_def GetChatGroupThread_def SetThreadIfExpected_def set_threads_def op_defs split: option.splits)

lemma settling_control_run: "settling (Ctl_Message c) (control_run h c)"
  unfolding control_run_def Let_def
  by (intro settling_cases settling_attempt settling_completeAndReply settling_failAndReply) (simp_all add: new_session_quiet)

lemma control_settles:
  assumes "faults w = []" and "\<And>x. x \<in> set (messages w) \<Longrightarrow> m_id x = Ctl_Message c \<Longrightarrow> m_command_kind x \<noteq> None"
  shows "settles (Ctl_Message c) w (snd (control_done h c w))"
proof -
  have run: "settles (Ctl_Message c) w (snd (control_run h c w))" "fst (control_run h c w) = Inr ()"
    using settling_control_run [of c h] assms unfolding settling_def by blast+
  then show ?thesis by (cases "control_run h c w") (simp add: control_done_def op_defs)
qed

lemma settling_handle_status: "settling (MR_ID message) (handle_status h i message)"
  unfolding handle_status_def Let_def by (intro settling_cases settling_completeAndReply settling_failAndReply)

lemma refuse_settles:
  assumes "faults w = []"
  shows "settles (MR_ID message) w (snd (refuse h message target code safe notice wrap err w))"
    and "fst (refuse h message target code safe notice wrap err w) = Inl err"
proof -
  obtain u w1 where f: "FailMessage (MR_ID message) code safe 0 w = (Inr u, w1)" and s: "settles (MR_ID message) w w1"
    using fail_settles [OF assms, of "MR_ID message" code safe 0] by (metis prod.collapse)
  obtain b w2 where "send_ignoring (MR_ID message) (h_rejector h) target notice w1 = (Inr b, w2)" "messages w2 = messages w1"
    using send_ignoring_quiet [of "MR_ID message" "h_rejector h" target notice w1]
    by (metis prod.collapse)
  then show "settles (MR_ID message) w (snd (refuse h message target code safe notice wrap err w))"
    and "fst (refuse h message target code safe notice wrap err w) = Inl err"
    using f s by (simp_all add: refuse_def op_defs settles_def)
qed

section \<open>Where an event ends\<close>

definition faultless :: "'a op \<Rightarrow> bool" where
  "faultless m \<longleftrightarrow> (\<forall>w. faults w = [] \<longrightarrow> faults (snd (m w)) = [])"

lemma faultless_and_then:
  assumes "faultless m" and "\<And>x. faultless (k x)"
  shows "faultless (and_then m wrap k)"
  unfolding faultless_def
proof (intro allI impI)
  fix w :: world assume w: "faults w = []"
  obtain r w1 where m: "m w = (r, w1)" by fastforce
  have "faults w1 = []" using assms(1) w m by (auto simp: faultless_def dest: spec [of _ w])
  then show "faults (snd (and_then m wrap k w)) = []"
    using assms(2) m by (cases r) (auto simp: and_then_def faultless_def)
qed

lemma faultless_intros:
  "faultless (ret x)" "faultless (fail e)" "faultless (query f)"
  "faultless m \<Longrightarrow> (\<And>x. faultless (k x)) \<Longrightarrow> faultless (case v of None \<Rightarrow> m | Some x \<Rightarrow> k x)"
  "(\<And>w. faults (snd (stmt w)) = faults w) \<Longrightarrow> faultless (exec stmt)"
  by (simp_all add: faultless_def ret_def fail_def split: option.split)

lemma faultless_for_each: "(\<And>x. faultless (body x)) \<Longrightarrow> faultless (for_each body xs)"
  by (induction xs) (simp_all add: faultless_intros faultless_and_then)

lemma persist_faults: "faultless (persistTx g now a t c input)"
  unfolding persistTx_def
  by (intro faultless_and_then faultless_intros faultless_for_each)
    (simp_all add: upsert_group_def insert_message_def insert_attachment_def)

lemma persist_no_fault:
  assumes "faults w = []"
  shows "faults (snd (PersistIncoming g now a t c input w)) = []"
    and "\<exists>e. fst (PersistIncoming g now a t c input w) = Inl e \<Longrightarrow> quiet (snd (PersistIncoming g now a t c input w)) = quiet w"
proof -
  obtain r w2 where b: "persistTx g now a t c input w = (r, w2)" by fastforce
  have w2: "faults w2 = []" using persist_faults [of g now a t c input] assms b by (auto simp: faultless_def dest: spec [of _ w])
  show "faults (snd (PersistIncoming g now a t c input w)) = []"
    and "\<exists>e. fst (PersistIncoming g now a t c input w) = Inl e \<Longrightarrow> quiet (snd (PersistIncoming g now a t c input w)) = quiet w"
    using assms b w2 by (auto simp: PersistIncoming_def attempt_def ret_def fail_def transaction_def split: sum.splits)
qed

text \<open>Who has the message after the call.\<close>

fun carries :: "string \<Rightarrow> dispatch_call \<Rightarrow> bool" where
  "carries i (AcceptJob j) = (Msg_ID j = i)"
| "carries i (SubmitCtl k c) = (Ctl_Message c = i)"
| "carries i (CancelKey k) = False"

lemma kind_text_not_Nil [simp]: "kind_text k \<noteq> []"
  by (cases k) simp_all

lemma receipt_kind: "rc_kind (commandReceipt sha c t b) = [] \<longleftrightarrow> Cmd_Kind c = CommandNormal"
  by (simp add: commandReceipt_def split: CommandKind.split list.split)

lemma ingested_last:
  assumes "ingested now a t c input gid w w1" and "settles (MI_ID input) w1 w2"
  shows "\<exists>m. messages w2 = messages w @ [m] \<and> settled m \<and> same_message (incoming_row gid now input) m"
proof -
  let ?row = "incoming_row gid now input"
  have row: "m_id ?row = MI_ID input" by (simp add: incoming_row_def)
  have old: "m_id x \<noteq> MI_ID input" if "x \<in> set (messages w)" for x
    using assms(1) that row by (auto simp: ingested_def sql_conflict_def message_clash_def)
  have "list_all2 (\<lambda>m m'. if m_id m = MI_ID input then settled m' \<and> same_message m m' else m' = m) (messages w @ [?row]) (messages w2)"
    using assms by (simp add: ingested_def settles_def)
  then obtain ms m where ms: "messages w2 = ms @ [m]" "settled m" "same_message ?row m"
    "list_all2 (\<lambda>m m'. if m_id m = MI_ID input then settled m' \<and> same_message m m' else m' = m) (messages w) ms"
    by (auto simp: list_all2_append1 list_all2_Cons1 row)
  have "list_all2 (\<lambda>m m'. m = m') (messages w) ms"
    by (rule list.rel_mono_strong [OF ms(4)]) (auto dest: old)
  then have "ms = messages w" by (simp add: list.rel_eq)
  then show ?thesis using ms by blast
qed

text \<open>The fate of a stored message.\<close>

definition fate :: "(dispatch_call \<Rightarrow> go_error option) \<Rightarrow> string \<Rightarrow> message_row \<Rightarrow> go_error option \<Rightarrow> dispatch_call list \<Rightarrow> bool" where
  "fate answer i m r calls \<longleftrightarrow>
     (m_status m = MsgReceived \<and> r = None \<and> (\<exists>c. calls = [c] \<and> carries i c \<and> answer c = None))
     \<or> (m_status m = MsgReceived \<and> r \<noteq> None \<and> (\<exists>k c. calls = [SubmitCtl k c] \<and> answer (SubmitCtl k c) \<noteq> None))
     \<or> (settled m \<and> list_all (\<lambda>c. answer c \<noteq> None) calls)"

lemma answered_fate:
  assumes "settling i m" and "list_all (\<lambda>c. answer c \<noteq> None) calls" and "i = MI_ID input" and "faults w1 = []"
    and "ingested now a t c input gid w w1" and "MI_CommandKind input \<noteq> []" and "answered calls m w1 = ((r, cs), w2)"
  shows "\<exists>x. messages w2 = messages w @ [x] \<and> same_message (incoming_row gid now input) x \<and> fate answer i x r cs"
proof -
  have "m_command_kind x \<noteq> None" if "x \<in> set (messages w1)" "m_id x = i" for x
    using assms(3,5,6) that by (auto simp: ingested_def sql_conflict_def message_clash_def incoming_row_def nullable_def)
  then have "settles i w1 (snd (m w1))" using assms(1,4) unfolding settling_def by blast
  moreover have "w2 = snd (m w1)" "cs = calls" using assms(7) by (auto simp: answered_def split: prod.splits)
  ultimately have "settles (MI_ID input) w1 w2" and cs: "cs = calls" using assms(3) by simp_all
  from ingested_last [OF assms(5) this(1)] show ?thesis using assms(2) unfolding fate_def cs by blast
qed

lemma refused_fate:
  assumes "list_all (\<lambda>c. answer c \<noteq> None) calls" and "MR_ID message = MI_ID input" and "faults w1 = []"
    and "ingested now a t c input gid w w1"
    and "answered calls (refuse h message target code safe notice wrap err) w1 = ((r, cs), w2)"
  shows "\<exists>x. messages w2 = messages w @ [x] \<and> same_message (incoming_row gid now input) x \<and> fate answer i x r cs"
proof -
  have "w2 = snd (refuse h message target code safe notice wrap err w1)" and cs: "cs = calls"
    using assms(5) by (auto simp: answered_def split: prod.splits)
  then have "settles (MI_ID input) w1 w2" using refuse_settles(1) [OF assms(3), of message] assms(2) by simp
  from ingested_last [OF assms(4) this] show ?thesis using assms(1) unfolding fate_def cs by blast
qed

lemma waiting_fate:
  assumes "ingested now a t c input gid w w1"
    and "(r = None \<and> (\<exists>d. cs = [d] \<and> carries i d \<and> answer d = None))
       \<or> (r \<noteq> None \<and> (\<exists>k d. cs = [SubmitCtl k d] \<and> answer (SubmitCtl k d) \<noteq> None))"
  shows "\<exists>x. messages w1 = messages w @ [x] \<and> same_message (incoming_row gid now input) x \<and> fate answer i x r cs"
proof (intro exI conjI)
  show "messages w1 = messages w @ [incoming_row gid now input]" using assms(1) by (simp add: ingested_def)
  have "m_status (incoming_row gid now input) = MsgReceived" by (simp add: incoming_row_def)
  then show "fate answer i (incoming_row gid now input) r cs" using assms(2) unfolding fate_def by blast
qed (simp add: same_message_def)

lemma message_input_simps:
  "MI_ID (message_input h i e command atts) = i" "MI_FeishuEventID (message_input h i e command atts) = In_EventID e"
  "MI_FeishuUserMessageID (message_input h i e command atts) = In_MessageID e"
  "MI_CommandKind (message_input h i e command atts) = [] \<longleftrightarrow> Cmd_Kind command = CommandNormal"
  by (simp_all add: message_input_def Let_def receipt_kind)

lemma stored_fate:
  assumes "h_controller h" and "faults w1 = []" and "ingested now a t c (message_input h i e command atts) gid w w1"
    and "MR_ID message = i" and "handle_stored h answer e command ids message w1 = ((r, cs), w2)"
  shows "\<exists>x. messages w2 = messages w @ [x] \<and> same_message (incoming_row gid now (message_input h i e command atts)) x \<and> fate answer i x r cs"
proof -
  let ?in = "message_input h i e command atts"
  obtain key target where route: "routing e = (key, target)" by fastforce
  have stop: ?thesis if "handle_stop h answer e message new w1 = ((r, cs), w2)" for new
    using that assms(1,4) route waiting_fate [OF assms(3), of r cs i answer]
    by (cases "answer (SubmitCtl key \<lparr>Ctl_Message = MR_ID message, Ctl_Group = MR_ChatGroupID message, Ctl_Target = target, Ctl_New = new\<rparr>)")
      (auto simp: handle_stop_def Let_def)
  have reply: ?thesis if "settling i m" "list_all (\<lambda>c. answer c \<noteq> None) calls" "Cmd_Kind command \<noteq> CommandNormal" "answered calls m w1 = ((r, cs), w2)" for m calls
    using answered_fate [OF that(1,2) _ assms(2,3) _ that(4)] that(3) by (simp add: message_input_simps)
  show ?thesis
  proof (cases "Cmd_Kind command")
    case CommandNormal
    show ?thesis
    proof (cases "h_ready h = Some False")
      case True
      then show ?thesis using refused_fate [OF _ _ assms(2,3), of answer "[]" message h] assms(4,5) CommandNormal
        by (simp add: handle_stored_def handle_normal_def Let_def message_input_simps)
    next
      case False
      let ?c = "AcceptJob (job h e message (In_Text e) ids False)"
      have carries: "carries i ?c" using assms(4) route by (simp add: job_def)
      show ?thesis
      proof (cases "answer ?c")
        case None
        then have "r = None" "cs = [?c]" "w2 = w1" using assms(5) CommandNormal False by (simp_all add: handle_stored_def handle_normal_def Let_def)
        then show ?thesis using waiting_fate [OF assms(3), of r cs i answer] None carries by blast
      next
        case (Some err)
        then show ?thesis using refused_fate [OF _ _ assms(2,3), of answer "[?c]" message h] assms(4,5) CommandNormal False
          by (simp add: handle_stored_def handle_normal_def Let_def message_input_simps)
      qed
    qed
  next
    case CommandGoal
    let ?c = "AcceptJob (job h e message (Cmd_Argument command) [] True)"
    have carries: "carries i ?c" using assms(4) route by (simp add: job_def)
    show ?thesis
    proof (cases "answer ?c")
      case None
      then have "r = None" "cs = [?c]" "w2 = w1" using assms(5) CommandGoal by (simp_all add: handle_stored_def handle_goal_def Let_def)
      then show ?thesis using waiting_fate [OF assms(3), of r cs i answer] None carries by blast
    next
      case (Some err)
      then show ?thesis using reply [OF settling_failAndReply, of "[?c]"] assms(4,5) CommandGoal
        by (simp add: handle_stored_def handle_goal_def Let_def)
    qed
  qed (use stop reply [OF settling_handle_status [of message, unfolded assms(4)], of "[]"] reply [OF settling_completeAndReply, of "[]"]
      reply [OF settling_failAndReply, of "[]"] assms(4,5) in \<open>simp_all add: handle_stored_def\<close>)
qed

lemma with_runtime_simps [simp]:
  "App_ID (In_App (stamped now (with_runtime h i))) = App_ID (In_App i)"
  "In_ChatType (stamped now (with_runtime h i)) = In_ChatType i" "In_ChatID (stamped now (with_runtime h i)) = In_ChatID i"
  "In_EventID (stamped now (with_runtime h i)) = In_EventID i" "In_MessageID (stamped now (with_runtime h i)) = In_MessageID i"
  "In_Text (stamped now (with_runtime h i)) = In_Text i" "In_SenderOpenID (stamped now (with_runtime h i)) = In_SenderOpenID i"
  "In_Attachments (stamped now (with_runtime h i)) = In_Attachments i"
  by (simp_all add: stamped_def with_runtime_def)

lemma quiet_messages: "quiet w = quiet w' \<Longrightarrow> messages w = messages w'"
  by (drule arg_cong [of _ _ messages]) simp

text \<open>The four ways through the handler.\<close>

lemma handle_cases:
  assumes "Handle h answer uuid i groupID now e w = ((r, cs), w')"
  obtains (ignored) "r \<noteq> None" "cs = []" "w' = w"
  | (unstored) "r \<noteq> None" "cs = []" "quiet w' = quiet w"
  | (lost) atts gid where "r \<noteq> None" "cs = []" "ingested now (App_ID (In_App e)) (In_ChatType e) (In_ChatID e)
        (message_input h i (stamped now (with_runtime h e)) (ClassifyCommand (In_Text e)) atts) gid w w'" "faults w \<noteq> []"
      "w' = snd (PersistIncoming groupID now (App_ID (In_App e)) (In_ChatType e) (In_ChatID e)
        (message_input h i (stamped now (with_runtime h e)) (ClassifyCommand (In_Text e)) atts) w)"
  | (stored) atts ids gid w1 where "stageAttachments h uuid (stamped now (with_runtime h e)) = Inr (atts, ids)"
      "ingested now (App_ID (In_App e)) (In_ChatType e) (In_ChatID e)
        (message_input h i (stamped now (with_runtime h e)) (ClassifyCommand (In_Text e)) atts) gid w w1" "faults w = [] \<Longrightarrow> faults w1 = []"
      "w1 = snd (PersistIncoming groupID now (App_ID (In_App e)) (In_ChatType e) (In_ChatID e)
        (message_input h i (stamped now (with_runtime h e)) (ClassifyCommand (In_Text e)) atts) w)"
      "handle_stored h answer (stamped now (with_runtime h e)) (ClassifyCommand (In_Text e)) ids
        \<lparr>MR_ID = i, MR_TraceID = TraceID (h_sha h) (App_ID (In_App e)) (In_EventID e), MR_ChatGroupID = gid\<rparr> w1 = ((r, cs), w')"
proof -
  let ?e = "stamped now (with_runtime h e)"
  show thesis
  proof (cases "validate ?e")
    case (Some err)
    then have "r = Some err" "cs = []" "w' = w" using assms by (simp_all add: Handle_def Let_def)
    then show thesis using ignored by blast
  next
    case valid: None
    show thesis
    proof (cases "stageAttachments h uuid ?e")
      case (Inl err)
      then have "r \<noteq> None" "cs = []" "w' = w" using assms valid by (auto simp: Handle_def Let_def)
      then show thesis using ignored by blast
    next
      case (Inr staged)
      obtain atts ids where s: "staged = (atts, ids)" by fastforce
      let ?in = "message_input h i ?e (ClassifyCommand (In_Text e)) atts"
      obtain p w1 where p: "PersistIncoming groupID now (App_ID (In_App e)) (In_ChatType e) (In_ChatID e) ?in w = (p, w1)" by fastforce
      have go: "((r, cs), w') = (case p of Inl err \<Rightarrow> ((Some (Wrapf ''persist incoming message'' err), []), w1)
          | Inr (message, duplicate) \<Rightarrow> if duplicate then ((Some ErrDuplicate, []), w1)
              else handle_stored h answer ?e (ClassifyCommand (In_Text e)) ids message w1)"
        using assms valid Inr s p by (cases p) (auto simp: Handle_def Let_def)
      have trace: "MI_TraceID ?in = TraceID (h_sha h) (App_ID (In_App e)) (In_EventID e)" by (simp add: message_input_def Let_def)
      have clean: "faults w = [] \<Longrightarrow> faults w1 = []" "\<exists>e. p = Inl e \<Longrightarrow> faults w = [] \<Longrightarrow> quiet w1 = quiet w"
        using persist_no_fault [of w groupID now "App_ID (In_App e)" "In_ChatType e" "In_ChatID e" ?in] p by simp_all
      show thesis
      proof (cases rule: persist_cases [of groupID now "App_ID (In_App e)" "In_ChatType e" "In_ChatID e" ?in w])
        case refused
        then show thesis using unstored go p by (auto split: sum.splits prod.splits)
      next
        case (accepted gid)
        then have ing: "ingested now (App_ID (In_App e)) (In_ChatType e) (In_ChatID e) ?in gid w w1" using p by simp
        consider (new) "p = Inr (\<lparr>MR_ID = i, MR_TraceID = MI_TraceID ?in, MR_ChatGroupID = gid\<rparr>, False)" | (err) x where "p = Inl x"
          using accepted(2) p by (auto simp: message_input_simps)
        then show thesis
        proof cases
          case new
          then show thesis using stored [OF _ ing clean(1)] Inr s go trace p by simp
        next
          case (err x)
          have "faults w \<noteq> []"
          proof
            assume "faults w = []"
            then have "quiet w1 = quiet w" using clean(2) err by simp
            then have "messages w1 = messages w" by (rule quiet_messages)
            then show False using ing by (simp add: ingested_def)
          qed
          moreover have "w' = w1" "r \<noteq> None" "cs = []" using go err by simp_all
          ultimately show thesis using lost [of atts gid] ing p by simp
        qed
      qed
    qed
  qed
qed

section \<open>Keys stay unique\<close>

lemma ingress_send: "preserves ingress_rel (send o' meth f t r)"
  by (rule preservesI) (simp add: send_def ingress_inv_def kept_messages.evolves_refl kept_groups.evolves_refl)

lemma ingress_ignoring: "preserves ingress_rel (send_ignoring o' s t r)"
  unfolding send_ignoring_def by (intro ingress.preserves_intros ingress_send)

lemma ingress_answers:
  "preserves ingress_rel (completeAndReply h i target reply)" "preserves ingress_rel (failAndReply h i target code reply)"
  "preserves ingress_rel (stop_directly h message target new)" "preserves ingress_rel (handle_status h e message)"
  "preserves ingress_rel (refuse h message target code safe notice wrap err)"
  unfolding completeAndReply_def failAndReply_def stop_directly_def handle_status_def refuse_def Let_def
  by (intro ingress.preserves_intros ingress_send ingress_ignoring ingress_ops ingress_new_session)+

lemma ingress_answered: "preserves ingress_rel m \<Longrightarrow> ingress_rel w (snd (answered calls m w))"
  using preservesD [of ingress_rel m w] by (cases "m w") (simp add: answered_def)

lemma ingress_stored: "ingress_rel w (snd (handle_stored h answer e command ids message w))"
proof -
  have refl: "ingress_rel w w" by (rule ingress.rel_refl)
  show ?thesis
    using ingress_answered [OF ingress_answers(1)] ingress_answered [OF ingress_answers(2)] ingress_answered [OF ingress_answers(3)]
      ingress_answered [OF ingress_answers(4)] ingress_answered [OF ingress_answers(5)] refl
    by (simp add: handle_stored_def handle_stop_def handle_goal_def handle_normal_def Let_def split: CommandKind.split option.split prod.split)
qed

text \<open>An event that reached the dispatcher is stored in its chat.\<close>

lemma handled_stored:
  assumes "ingress_inv w" and "Handle h answer uuid i groupID now e w = ((r, calls), w')" and "calls \<noteq> []"
  shows "\<exists>m g. m \<in> set (messages w') \<and> g \<in> set (chat_groups w') \<and> m_chat_group_id m = g_id g
     \<and> same_chat (App_ID (In_App e)) (In_ChatType e) (In_ChatID e) g \<and> m_event_id m = In_EventID e \<and> m_user_message_id m = In_MessageID e
     \<and> ingress_inv w'"
  using assms(2)
proof (cases rule: handle_cases)
  case (stored atts ids gid w1)
  let ?row = "incoming_row gid now (message_input h i (stamped now (with_runtime h e)) (ClassifyCommand (In_Text e)) atts)"
  have inv1: "ingress_inv w1" using stored(4) preservesD [OF ingress_ops(1)] assms(1) by blast
  have rel: "ingress_rel w1 w'" using ingress_stored [of w1] stored(5) by (metis snd_conv)
  obtain g where g: "g \<in> set (chat_groups w1)" "g_id g = gid" "same_chat (App_ID (In_App e)) (In_ChatType e) (In_ChatID e) g"
    using stored(2) by (auto simp: ingested_def)
  have row: "?row \<in> set (messages w1)" using stored(2) by (simp add: ingested_def)
  obtain m where m: "m \<in> set (messages w')" "same_message ?row m" using kept_messages.evolves_moves rel row by blast
  obtain g' where g': "g' \<in> set (chat_groups w')" "same_group g g'" using kept_groups.evolves_moves rel g(1) by blast
  show ?thesis
    by (rule exI [of _ m], rule exI [of _ g'])
      (use m g' g rel inv1 in \<open>simp add: same_message_def message_identity_def same_group_def chat_of_def same_chat_def
        incoming_row_def message_input_simps\<close>)
qed (use assms(3) in simp_all)

section \<open>What a command is\<close>

lemma goal_argument:
  assumes "Cmd_Kind (ClassifyCommand said) = CommandGoal"
  shows "Cmd_Argument (ClassifyCommand said) \<noteq> []" and "rune_count (Cmd_Argument (ClassifyCommand said)) \<le> 4000"
    and "trim_space (Cmd_Argument (ClassifyCommand said)) = Cmd_Argument (ClassifyCommand said)"
  using assms by (auto simp: ClassifyCommand_def Let_def split: list.splits if_splits)

lemma fields_acc_Nil: "string_fields_acc cs cur = [] \<Longrightarrow> cur = [] \<and> (\<forall>c \<in> set cs. is_space (fst c) \<or> snd c = [])"
  by (induction cs cur rule: string_fields_acc.induct) (auto split: if_splits)

lemma slash_fields: "has_prefix s ''/'' \<Longrightarrow> string_fields s \<noteq> []"
proof
  assume "has_prefix s ''/''" and none: "string_fields s = []"
  then obtain t where s: "s = CHR ''/'' # t" by (auto simp: has_prefix_iff)
  then have "(47, ''/'') \<in> set (chunks s)" by (simp add: chunks_code utf8_decode_def byte_val_def)
  then show False using fields_acc_Nil [of "chunks s" "[]"] none by (auto simp: string_fields_def is_space_def)
qed

lemma normal_iff: "Cmd_Kind (ClassifyCommand said) = CommandNormal \<longleftrightarrow> \<not> has_prefix (trim_space said) ''/''"
  using slash_fields [of "trim_space said"] by (auto simp: ClassifyCommand_def Let_def split: list.split)

lemma accepted_job:
  assumes "AcceptJob j \<in> set (snd (fst (handle_stored h answer e command ids message w)))"
  shows "(Cmd_Kind command = CommandGoal \<and> j = job h e message (Cmd_Argument command) [] True)
    \<or> (Cmd_Kind command = CommandNormal \<and> j = job h e message (In_Text e) ids False)"
  using assms
  by (auto simp: handle_stored_def handle_stop_def handle_goal_def handle_normal_def Let_def answered_def
      split: CommandKind.splits option.splits prod.splits if_splits)

lemma stage_ids: "stage_loop h uuid e n refs = Inr (atts, ids) \<Longrightarrow> ids = map In_ID atts"
  by (induction refs arbitrary: n atts ids) (auto split: if_splits sum.splits prod.splits)

interpretation att_rows: world_relation "\<lambda>w w'. attachments w' = attachments w"
  by unfold_locales auto

lemma att_rows_send: "preserves (\<lambda>w w' :: world. attachments w' = attachments w) (send o' meth f t r)"
  by (rule preservesI) (simp add: send_def)

lemma att_rows_ops:
  fixes R
  defines "R \<equiv> \<lambda>w w' :: world. attachments w' = attachments w"
  shows "preserves R (CompleteMessage i b c ms)" "preserves R (FailMessage i code safe ms)"
    "preserves R (RecordCommandReplyFailure i effect what safe)" "preserves R (NewSession archive g)"
  unfolding R_def CompleteMessage_def FailMessage_def RecordCommandReplyFailure_def NewSession_def GetChatGroupThread_def SetThreadIfExpected_def
  by (intro att_rows.preserves_intros att_rows.preserves_exec; simp add: preserves_def update_messages_def set_threads_def)+

lemma att_rows_stored: "attachments (snd (handle_stored h answer e command ids message w)) = attachments w"
proof -
  let ?R = "\<lambda>w w' :: world. attachments w' = attachments w"
  note rules = att_rows.preserves_intros att_rows_ops att_rows_send
  have ignoring: "preserves ?R (send_ignoring o' s t r)" for o' s t r
    unfolding send_ignoring_def by (intro rules)
  have complete: "preserves ?R (completeAndReply h i target reply)" and failed: "preserves ?R (failAndReply h i target code reply)" for i target code reply
    unfolding completeAndReply_def failAndReply_def by (intro rules ignoring)+
  have stop: "preserves ?R (stop_directly h message target new)" and refuse: "preserves ?R (refuse h message target code safe notice wrap err)" for target new code safe notice wrap err
    unfolding stop_directly_def refuse_def Let_def by (intro rules ignoring)+
  have status: "preserves ?R (handle_status h e message)" unfolding handle_status_def Let_def by (intro rules complete failed)
  have answered: "preserves ?R m \<Longrightarrow> attachments (snd (answered calls m v)) = attachments v" for m calls v
    using preservesD [of ?R m v] by (cases "m v") (simp add: answered_def)
  show ?thesis
    using answered [OF complete] answered [OF failed] answered [OF stop] answered [OF status] answered [OF refuse]
    by (simp add: handle_stored_def handle_stop_def handle_goal_def handle_normal_def Let_def split: CommandKind.split option.split prod.split)
qed

section \<open>Concrete inputs\<close>

definition ex_handler :: Handler where
  "ex_handler = \<lparr>h_sha = (\<lambda>_. replicate 32 CHR ''d''), h_runtime = \<lparr>App_ID = ''app'', App_Name = ''bot'', App_WorkspaceDir = ''/ws'', App_WorkspaceMode = ''work'',
     App_Model = [], App_Effort = []\<rparr>, h_rejector = None, h_ready = Some True, h_resetter = None, h_account = None, h_commands = None,
     h_protector = None, h_controller = True, h_canceller = True\<rparr>"

definition ex_incoming :: "string \<Rightarrow> Incoming" where
  "ex_incoming said = \<lparr>In_App = \<lparr>App_ID = ''app'', App_Name = ''bot'', App_WorkspaceDir = [], App_WorkspaceMode = [], App_Model = [], App_Effort = []\<rparr>,
     In_EventID = ''ev'', In_MessageID = ''om'', In_ChatType = ''p2p'', In_ChatID = ''c'', In_SenderOpenID = ''ou'', In_Text = said,
     In_ReceivedAt = 5, In_Attachments = []\<rparr>"

definition ex_hub :: world where
  "ex_hub = empty_world\<lparr>apps := [ex_app], chat_groups := [new_group ''g'' ''app'' ''p2p'' ''c'']\<rparr>"

abbreviation ex_handle :: "(dispatch_call \<Rightarrow> go_error option) \<Rightarrow> string \<Rightarrow> world \<Rightarrow> outcome" where
  "ex_handle answer said \<equiv> Handle ex_handler answer (\<lambda>_. []) ''m9'' ''g9'' 7 (ex_incoming said)"

lemma ex_hub_inv: "ingress_inv ex_hub" "faults ex_hub = []"
  by (simp_all add: ingress_inv_def ex_hub_def empty_world_def)

definition ex_job :: Message where
  "ex_job = job ex_handler (stamped 7 (with_runtime ex_handler (ex_incoming ''hi'')))
     \<lparr>MR_ID = ''m9'', MR_TraceID = [], MR_ChatGroupID = ''g''\<rparr> ''hi'' [] False"

lemma ex_incoming_simps:
  "In_Text (ex_incoming said) = said" "In_Attachments (ex_incoming said) = []" "App_ID (In_App (ex_incoming said)) = ''app''"
  "In_ChatType (ex_incoming said) = ''p2p''" "In_ChatID (ex_incoming said) = ''c''" "h_ready ex_handler = Some True" "h_controller ex_handler"
  by (simp_all add: ex_incoming_def ex_handler_def)

lemma ex_hub_simps:
  "chat_groups ex_hub = [new_group ''g'' ''app'' ''p2p'' ''c'']" "messages ex_hub = []" "faults ex_hub = []" "clock ex_hub = 0"
  by (simp_all add: ex_hub_def empty_world_def)

lemma ex_valid: "said \<noteq> [] \<Longrightarrow> validate (stamped 7 (with_runtime ex_handler (ex_incoming said))) = None"
  by (simp add: validate_def stamped_def with_runtime_def ex_incoming_def ex_handler_def)

lemma ex_classify: "ClassifyCommand ''hi'' = plain_command CommandNormal"
  by (simp add: ClassifyCommand_def trim_space_ascii byte_val_def Let_def has_prefix_def is_space_def)

lemma ex_persist:
  assumes "MI_Attachments input = []"
  shows "fst (PersistIncoming ''g9'' 7 ''app'' ''p2p'' ''c'' input ex_hub)
      = Inr (\<lparr>MR_ID = MI_ID input, MR_TraceID = MI_TraceID input, MR_ChatGroupID = ''g''\<rparr>, False)"
    and "messages (snd (PersistIncoming ''g9'' 7 ''app'' ''p2p'' ''c'' input ex_hub)) = [incoming_row ''g'' 7 input]"
proof -
  have "same_chat ''app'' ''p2p'' ''c'' (new_group ''g'' ''app'' ''p2p'' ''c'')" "g_id (new_group ''g'' ''app'' ''p2p'' ''c'') = ''g''"
    by (simp_all add: same_chat_def new_group_def)
  then have "PersistIncoming ''g9'' 7 ''app'' ''p2p'' ''c'' input ex_hub
    = (Inr (\<lparr>MR_ID = MI_ID input, MR_TraceID = MI_TraceID input, MR_ChatGroupID = ''g''\<rparr>, False),
       ex_hub\<lparr>chat_groups := [(new_group ''g'' ''app'' ''p2p'' ''c'')\<lparr>g_last_message_at := Some 0\<rparr>], messages := [incoming_row ''g'' 7 input]\<rparr>)"
    using assms by (simp add: PersistIncoming_def persistTx_def transaction_def op_defs ex_hub_simps upsert_group_def insert_message_def
      same_chat_def incoming_row_def sql_conflict_def)
  then show "fst (PersistIncoming ''g9'' 7 ''app'' ''p2p'' ''c'' input ex_hub)
      = Inr (\<lparr>MR_ID = MI_ID input, MR_TraceID = MI_TraceID input, MR_ChatGroupID = ''g''\<rparr>, False)"
    and "messages (snd (PersistIncoming ''g9'' 7 ''app'' ''p2p'' ''c'' input ex_hub)) = [incoming_row ''g'' 7 input]" by simp_all
qed

lemma ex_handled: "fst (ex_handle (\<lambda>_. None) ''hi'' ex_hub) = (None, [AcceptJob ex_job])"
proof -
  let ?in = "message_input ex_handler ''m9'' (stamped 7 (with_runtime ex_handler (ex_incoming ''hi''))) (plain_command CommandNormal) []"
  have none: "MI_Attachments ?in = []" by (simp add: message_input_def Let_def)
  obtain w1 where "PersistIncoming ''g9'' 7 ''app'' ''p2p'' ''c'' ?in ex_hub
      = (Inr (\<lparr>MR_ID = MI_ID ?in, MR_TraceID = MI_TraceID ?in, MR_ChatGroupID = ''g''\<rparr>, False), w1)"
    using ex_persist(1) [OF none] by (metis prod.collapse)
  then show ?thesis
    by (simp add: Handle_def Let_def ex_classify ex_valid ex_incoming_simps stageAttachments_def handle_stored_def handle_normal_def ex_job_def
        message_input_simps job_def)
qed

section \<open>Properties\<close>

text \<open>
  C27: No event is lost and none is handled twice over. On a working connection and with the worker manager as dispatcher, a handled
  event either changes no message, reaches no worker and is answered with an error (ignored, duplicate, refused),
  or adds exactly one message, which then either waits in the hands of exactly the one job or control that the dispatcher took, or has
  its outcome recorded while no call was taken; the only exception is a control the dispatcher refused, whose message stays received and
  whose error is returned.
\<close>

theorem handled_event_settled:
  assumes "ingress_inv w" and "faults w = []" and "h_controller h" and "Handle h answer uuid i groupID now e w = ((r, calls), w')"
  shows "(r \<noteq> None \<and> calls = [] \<and> messages w' = messages w)
    \<or> (\<exists>m. messages w' = messages w @ [m] \<and> m_id m = i \<and> m_event_id m = In_EventID e \<and> fate answer i m r calls)"
  using assms(4)
proof (cases rule: handle_cases)
  case unstored
  then show ?thesis using quiet_messages by blast
next
  case (stored atts ids gid w1)
  then show ?thesis using stored_fate [OF assms(3) stored(3) [OF assms(2)] stored(2) _ stored(5)]
    by (auto simp: same_message_def message_identity_def incoming_row_def message_input_simps)
qed (use assms(2) in auto)

theorem handled_event_settled_witness:
  "fst (ex_handle (\<lambda>_. None) ''hi'' ex_hub) = (None, [AcceptJob ex_job])
   \<and> (\<exists>m. messages (snd (ex_handle (\<lambda>_. None) ''hi'' ex_hub)) = [m] \<and> m_id m = ''m9'' \<and> fate (\<lambda>_. None) ''m9'' m None [AcceptJob ex_job])"
proof -
  obtain w' where out: "ex_handle (\<lambda>_. None) ''hi'' ex_hub = ((None, [AcceptJob ex_job]), w')" using ex_handled by (metis prod.collapse)
  then show ?thesis using handled_event_settled [OF ex_hub_inv ex_incoming_simps(7) out] ex_hub_simps(2) by auto
qed



text \<open>
  A job carries the stored message. Every job the handler gives to the dispatcher has the id, the group and the sender of a message
  stored for the event, and the channel and the reply target of the event's route. An ordinary job asks exactly the text of
  the event, which does not begin with a slash, and names exactly the attachments that were stored for it. A goal asks
  a trimmed text of 1 to 4000 characters, none of which is stored: the row keeps a fixed content, the length and the digest.
\<close>

lemma job_matches_message:
  assumes "Handle h answer uuid i groupID now e w = ((r, calls), w')" and "AcceptJob j \<in> set calls"
  shows "(\<exists>m \<in> set (messages w'). m_id m = Msg_ID j \<and> m_chat_group_id m = Msg_ChatGroupID j \<and> m_event_id m = In_EventID e
      \<and> m_sender_open_id m = Msg_ActorOpenID j \<and> Msg_ActorOpenID j = In_SenderOpenID e
      \<and> (Msg_Goal j \<longrightarrow> m_user_content m = ''/goal [redacted]''))
    \<and> (Msg_Key j, Msg_Reply j) = routing e
    \<and> (if Msg_Goal j then Msg_Query j \<noteq> [] \<and> rune_count (Msg_Query j) \<le> 4000 \<and> trim_space (Msg_Query j) = Msg_Query j
       else Msg_Query j = In_Text e \<and> \<not> has_prefix (trim_space (In_Text e)) ''/''
         \<and> (\<exists>new. attachments w' = attachments w @ new \<and> map f_id new = Msg_AttachmentIDs j \<and> list_all (\<lambda>a. f_message_id a = Msg_ID j) new))"
  using assms(1)
proof (cases rule: handle_cases)
  case (stored atts ids gid w1)
  let ?e = "stamped now (with_runtime h e)" and ?cmd = "ClassifyCommand (In_Text e)"
    and ?rec = "\<lparr>MR_ID = i, MR_TraceID = TraceID (h_sha h) (App_ID (In_App e)) (In_EventID e), MR_ChatGroupID = gid\<rparr>"
  let ?in = "message_input h i ?e ?cmd atts"
  have route: "routing ?e = routing e" by (simp add: routing_def)
  have j: "(Cmd_Kind ?cmd = CommandGoal \<and> j = job h ?e ?rec (Cmd_Argument ?cmd) [] True)
      \<or> (Cmd_Kind ?cmd = CommandNormal \<and> j = job h ?e ?rec (In_Text e) ids False)"
    using accepted_job [of j h answer ?e ?cmd ids ?rec w1] stored(5) assms(2) by simp
  have "ingress_rel w1 w'" using ingress_stored [of w1] stored(5) by (metis snd_conv)
  moreover have "incoming_row gid now ?in \<in> set (messages w1)" using stored(2) by (simp add: ingested_def)
  ultimately obtain m where m: "m \<in> set (messages w')" "same_message (incoming_row gid now ?in) m"
    using kept_messages.evolves_moves by blast
  have content: "Cmd_Kind ?cmd = CommandGoal \<Longrightarrow> MI_UserContent ?in = ''/goal [redacted]''" by (simp add: message_input_def commandReceipt_def Let_def)
  have ids: "ids = map In_ID atts" using stored(1) stage_ids by (auto simp: stageAttachments_def split: if_splits)
  have atts: "attachments w' = attachments w @ map (staged_row i gid) atts"
    using att_rows_stored [of h answer ?e ?cmd ids ?rec w1] stored(2,5) by (simp add: ingested_def message_input_def Let_def)
  have fields: "Msg_ID j = i" "Msg_ChatGroupID j = gid" "Msg_ActorOpenID j = In_SenderOpenID e" "(Msg_Key j, Msg_Reply j) = routing e"
    using j route by (auto simp: job_def split: prod.splits)
  have row: "m_id m = i" "m_chat_group_id m = gid" "m_event_id m = In_EventID e" "m_sender_open_id m = In_SenderOpenID e" "m_user_content m = MI_UserContent ?in"
    using m(2) by (simp_all add: same_message_def message_identity_def incoming_row_def message_input_def Let_def)
  show ?thesis
    using j
  proof
    assume g: "Cmd_Kind ?cmd = CommandGoal \<and> j = job h ?e ?rec (Cmd_Argument ?cmd) [] True"
    then have "Msg_Goal j" "Msg_Query j = Cmd_Argument ?cmd" by (auto simp: job_def split: prod.splits)
    then show ?thesis using g goal_argument m(1) row content fields by auto
  next
    assume n: "Cmd_Kind ?cmd = CommandNormal \<and> j = job h ?e ?rec (In_Text e) ids False"
    then have "\<not> Msg_Goal j" "Msg_Query j = In_Text e" "Msg_AttachmentIDs j = ids" by (auto simp: job_def split: prod.splits)
    moreover have "map f_id (map (staged_row i gid) atts) = ids" "list_all (\<lambda>a. f_message_id a = i) (map (staged_row i gid) atts)"
      by (simp_all add: ids staged_row_def list_all_iff)
    ultimately show ?thesis using n normal_iff [of "In_Text e"] m(1) row fields atts by auto
  qed
qed (use assms(2) in simp_all)

lemma job_matches_message_witness:
  "Msg_Query ex_job = ''hi'' \<and> (Msg_Key ex_job, Msg_Reply ex_job) = routing (ex_incoming ''hi'')"
proof -
  obtain w' where out: "ex_handle (\<lambda>_. None) ''hi'' ex_hub = ((None, [AcceptJob ex_job]), w')" using ex_handled by (metis prod.collapse)
  have "\<not> Msg_Goal ex_job" by (simp add: ex_job_def job_def split: prod.split)
  then show ?thesis using job_matches_message [OF out, of ex_job] ex_incoming_simps(1) by simp
qed

text \<open>A refused control leaves its message received, without an answer, and nothing will settle it.\<close>

lemma refused_control_leaves_message:
  assumes "h_controller h" and "Cmd_Kind command = CommandCancel" and "\<And>c. answer c = Some ErrPoolSaturated"
  shows "\<exists>calls. handle_stored h answer e command ids message w = ((Some (Wrapf ''submit channel control'' ErrPoolSaturated), calls), w)"
  using assms by (simp add: handle_stored_def handle_stop_def Let_def split: prod.split)

end
