(* ===== verification/Catalog_Store.thy ===== *)
theory Catalog_Store
  imports Message_Store
begin

text \<open>
  The upgrade of a chat's tool catalog (\<open>internal/catalog/upgrade.go\<close>, \<open>internal/storage/catalog.go\<close>). A thread of the app server keeps the tools it
  was started with, so a group whose catalog version differs from the wanted one archives its thread and starts another. Each
  transition is stored before or after the call of the app server it belongs to.
\<close>

record Upgrade =
  Up_CurrentThreadID :: string
  Up_CurrentVersion :: string
  Up_State :: upgrade_state
  Up_FromThreadID :: string
  Up_Target :: string

abbreviation null_string :: "string option \<Rightarrow> string" where
  "null_string s \<equiv> (case s of None \<Rightarrow> [] | Some x \<Rightarrow> x)"

text \<open>The column is an enumeration, so every stored state is one of the three.\<close>

definition scanCatalogUpgrade :: "chat_group_row \<Rightarrow> Upgrade" where
  "scanCatalogUpgrade g = \<lparr>Up_CurrentThreadID = null_string (g_thread_id g), Up_CurrentVersion = g_catalog_version g, Up_State = g_upgrade_state g,
     Up_FromThreadID = null_string (g_upgrade_from g), Up_Target = null_string (g_upgrade_target g)\<rparr>"

text \<open>Updates of a group that also set \<open>updated_at\<close>: a row that matches counts as changed.\<close>

definition touch_groups :: "(chat_group_row \<Rightarrow> bool) \<Rightarrow> (chat_group_row \<Rightarrow> chat_group_row) \<Rightarrow> nat op" where
  "touch_groups p f w = (Inr (length (filter p (chat_groups w))), w\<lparr>chat_groups := sql_update p f (chat_groups w)\<rparr>)"

definition PrepareCatalogUpgrade :: "string \<Rightarrow> string \<Rightarrow> Upgrade op" where
  "PrepareCatalogUpgrade chatGroupID targetVersion =
     (if trim_space chatGroupID = [] \<or> trim_space targetVersion = [] then fail (Errorf ''catalog upgrade group and target are required'')
      else transaction (Wrapf ''begin catalog upgrade'')
        (and_then (query (\<lambda>w. sql_first (\<lambda>g. g_id g = chatGroupID) (chat_groups w))) (Wrapf ''load catalog upgrade'')
          (\<lambda>found. case found of None \<Rightarrow> fail (Wrapf ''load catalog upgrade'' ErrNoRows)
             | Some g \<Rightarrow> (let state = scanCatalogUpgrade g in
                 if Up_State state \<noteq> Stable \<or> Up_CurrentVersion state = targetVersion then ret (Wrapf ''commit catalog upgrade read'', state)
                 else and_then (exec (touch_groups (\<lambda>g. g_id g = chatGroupID) (\<lambda>g. g\<lparr>g_upgrade_state := ArchivePending,
                       g_upgrade_from := nullable (Up_CurrentThreadID state), g_upgrade_target := Some targetVersion\<rparr>)))
                     (Wrapf ''persist catalog archive pending'')
                     (\<lambda>_. ret (Wrapf ''commit catalog archive pending'',
                        state\<lparr>Up_State := ArchivePending, Up_FromThreadID := Up_CurrentThreadID state, Up_Target := targetVersion\<rparr>))))))"

definition AdvanceCatalogUpgradeAfterArchive :: "string \<Rightarrow> string \<Rightarrow> bool op" where
  "AdvanceCatalogUpgradeAfterArchive chatGroupID archivedThreadID =
     and_then (exec (touch_groups (\<lambda>g. g_id g = chatGroupID \<and> g_upgrade_state g = ArchivePending \<and> g_upgrade_from g = nullable archivedThreadID)
         (\<lambda>g. g\<lparr>g_thread_id := None, g_upgrade_state := StartPending\<rparr>)))
       (Wrapf ''advance catalog upgrade after archive'') (\<lambda>changed. ret (changed = 1))"

definition CompleteCatalogUpgrade :: "string \<Rightarrow> string \<Rightarrow> string \<Rightarrow> bool op" where
  "CompleteCatalogUpgrade chatGroupID targetVersion threadID =
     (if trim_space chatGroupID = [] \<or> trim_space targetVersion = [] \<or> trim_space threadID = [] then fail (Errorf ''catalog completion fields are required'')
      else and_then (exec (touch_groups (\<lambda>g. g_id g = chatGroupID \<and> g_upgrade_state g = StartPending \<and> g_upgrade_target g = Some targetVersion)
          (\<lambda>g. g\<lparr>g_thread_id := Some threadID, g_toolset_version := Some targetVersion, g_catalog_version := targetVersion, g_upgrade_state := Stable,
             g_upgrade_from := None, g_upgrade_target := None\<rparr>)))
        (Wrapf ''complete catalog upgrade'') (\<lambda>changed. ret (changed = 1)))"

section \<open>Groups under an operation\<close>

text \<open>
  The interface of an operation on groups: \<open>groups_kept ok m\<close> says that every group of the world after it satisfies \<open>ok\<close> if all groups before did.
\<close>

definition groups_ok :: "(chat_group_row \<Rightarrow> bool) \<Rightarrow> world \<Rightarrow> bool" where
  "groups_ok ok w \<longleftrightarrow> (\<forall>g \<in> set (chat_groups w). ok g)"

interpretation groups: world_invariant "groups_ok ok" for ok
  by unfold_locales (simp add: groups_ok_def)

lemma groups_touch:
  assumes "\<And>g. p g \<Longrightarrow> ok g \<Longrightarrow> ok (f g)"
  shows "preserves (\<lambda>w w'. groups_ok ok w \<longrightarrow> groups_ok ok w') (exec (touch_groups p f))"
  by (rule groups.inv_rel.preserves_exec, rule preservesI) (use assms in \<open>auto simp: groups_ok_def touch_groups_def set_sql_update\<close>)

lemma groups_set_threads:
  assumes "\<And>g. ok g \<Longrightarrow> ok (g\<lparr>g_thread_id := nullable t\<rparr>)"
  shows "preserves (\<lambda>w w'. groups_ok ok w \<longrightarrow> groups_ok ok w') (exec (set_threads i e t))"
  by (rule groups.inv_rel.preserves_exec, rule preservesI) (use assms in \<open>auto simp: groups_ok_def set_threads_def set_sql_update\<close>)

end
