(* ===== verification/Usage_Ledger.thy ===== *)
theory Usage_Ledger
  imports Bot_World
begin

text \<open>
  Token usage: the counters and the accumulator of \<open>internal/observability/usage.go\<close> and the ledger of
  \<open>internal/storage/usage.go\<close>, which keeps one row per completed turn, a cumulative row per thread and a total per
  conversation. A Go \<open>int64\<close> is an integer with its wrap-around written out; the columns are unsigned 64-bit
  numbers, and a value outside their range is an error of the server, except for \<open>INSERT IGNORE\<close>, which clips it.
\<close>

section \<open>Counters\<close>

definition wrap64 :: "int \<Rightarrow> int" where
  "wrap64 x = (x + 2 ^ 63) mod 2 ^ 64 - 2 ^ 63"

definition counters :: "usage \<Rightarrow> int list" where
  "counters u = [InputTokens u, OutputTokens u, CachedInputTokens u, ReasoningOutputTokens u, TotalTokens u]"

definition usage_map2 :: "(int \<Rightarrow> int \<Rightarrow> int) \<Rightarrow> usage \<Rightarrow> usage \<Rightarrow> usage" where
  "usage_map2 f u v = \<lparr>InputTokens = f (InputTokens u) (InputTokens v), OutputTokens = f (OutputTokens u) (OutputTokens v),
     CachedInputTokens = f (CachedInputTokens u) (CachedInputTokens v), ReasoningOutputTokens = f (ReasoningOutputTokens u) (ReasoningOutputTokens v),
     TotalTokens = f (TotalTokens u) (TotalTokens v)\<rparr>"

definition zero_usage :: usage where
  "zero_usage = \<lparr>InputTokens = 0, OutputTokens = 0, CachedInputTokens = 0, ReasoningOutputTokens = 0, TotalTokens = 0\<rparr>"

definition snapshotAtLeast :: "usage \<Rightarrow> usage \<Rightarrow> bool" where
  "snapshotAtLeast candidate current \<longleftrightarrow> InputTokens candidate \<ge> InputTokens current \<and> OutputTokens candidate \<ge> OutputTokens current
     \<and> CachedInputTokens candidate \<ge> CachedInputTokens current \<and> ReasoningOutputTokens candidate \<ge> ReasoningOutputTokens current
     \<and> TotalTokens candidate \<ge> TotalTokens current"

record UsageDetails =
  Detail_Input :: int
  Detail_InputCachedTokens :: int
  Detail_Output :: int
  Detail_OutputReasoningTokens :: int
  Detail_Total :: int

text \<open>The method \<open>Usage.UsageDetails\<close>; \<open>Inl\<close> is the reason of a refusal.\<close>

definition Usage_UsageDetails :: "usage \<Rightarrow> string + UsageDetails" where
  "Usage_UsageDetails u =
     (if list_ex (\<lambda>n. n < 0) (counters u) then Inl ''negative_counter''
      else if CachedInputTokens u > InputTokens u then Inl ''cached_input_exceeds_input''
      else if ReasoningOutputTokens u > OutputTokens u then Inl ''reasoning_output_exceeds_output''
      else if TotalTokens u \<noteq> wrap64 (InputTokens u + OutputTokens u) then Inl ''total_tokens_mismatch''
      else Inr \<lparr>Detail_Input = wrap64 (InputTokens u - CachedInputTokens u), Detail_InputCachedTokens = CachedInputTokens u,
        Detail_Output = wrap64 (OutputTokens u - ReasoningOutputTokens u), Detail_OutputReasoningTokens = ReasoningOutputTokens u, Detail_Total = TotalTokens u\<rparr>)"

definition subtract :: "usage \<Rightarrow> usage \<Rightarrow> usage res" where
  "subtract u previous = (let delta = usage_map2 (\<lambda>a b. wrap64 (a - b)) u previous in
     if list_ex (\<lambda>n. n < 0) (counters delta) then Inl (Errorf ''token usage counter regressed'') else Inr delta)"

definition usage_add :: "usage \<Rightarrow> usage \<Rightarrow> usage" where
  "usage_add u v = usage_map2 (\<lambda>a b. wrap64 (a + b)) u v"

record LoopUsageAccumulator =
  acc_seen :: "(nat \<times> nat) list"
  acc_baseline :: "usage option"
  acc_total :: usage

definition new_accumulator :: LoopUsageAccumulator where
  "new_accumulator = \<lparr>acc_seen = [], acc_baseline = None, acc_total = zero_usage\<rparr>"

definition Observe :: "nat \<Rightarrow> nat \<Rightarrow> usage \<Rightarrow> LoopUsageAccumulator \<Rightarrow> (usage \<times> bool) res \<times> LoopUsageAccumulator" where
  "Observe generation seq current a =
     (if (generation, seq) \<in> set (acc_seen a) then (Inr (zero_usage, False), a)
      else let a1 = a\<lparr>acc_seen := (generation, seq) # acc_seen a\<rparr> in
        (case acc_baseline a of
           None \<Rightarrow> (Inr (zero_usage, False), a1\<lparr>acc_baseline := Some current\<rparr>)
         | Some baseline \<Rightarrow> (case subtract current baseline of
             Inl err \<Rightarrow> (Inl err, a1)
           | Inr delta \<Rightarrow> (Inr (delta, True), a1\<lparr>acc_baseline := Some current, acc_total := usage_add (acc_total a) delta\<rparr>))))"

section \<open>The ledger\<close>

record SessionUsageKey =
  sk_AppID :: string
  sk_ChatType :: string
  sk_ChatID :: string

definition SessionUsageKey_Valid :: "SessionUsageKey \<Rightarrow> bool" where
  "SessionUsageKey_Valid k \<longleftrightarrow> sk_AppID k \<noteq> [] \<and> sk_ChatType k \<noteq> [] \<and> sk_ChatID k \<noteq> []"

record TurnUsageRecord =
  Rec_TraceID :: string
  Rec_ThreadID :: string
  Rec_TurnID :: string
  Rec_Session :: SessionUsageKey
  Rec_Usage :: usage

record SessionUsageTotal =
  Total_Usage :: usage
  CompletedTurnCount :: int

definition ErrOutOfRange :: go_error where
  "ErrOutOfRange = Sentinel ''Error 1264: Out of range value''"

definition in_column :: "usage \<Rightarrow> bool" where
  "in_column u \<longleftrightarrow> list_all (\<lambda>n. 0 \<le> n \<and> n < 2 ^ 64) (counters u)"

definition clip_usage :: "usage \<Rightarrow> usage" where
  "clip_usage u = usage_map2 (\<lambda>a b. max 0 (min a (2 ^ 64 - 1))) u u"

text \<open>Whether the scan of unsigned columns into \<open>int64\<close> variables succeeds.\<close>

definition scans :: "usage \<Rightarrow> bool" where
  "scans u \<longleftrightarrow> list_all (\<lambda>n. n < 2 ^ 63) (counters u)"

definition plain_add :: "usage \<Rightarrow> usage \<Rightarrow> usage" where
  "plain_add = usage_map2 (+)"

definition of_session :: "SessionUsageKey \<Rightarrow> thread_usage_row \<Rightarrow> bool" where
  "of_session k r \<longleftrightarrow> s_app_id r = sk_AppID k \<and> s_chat_type r = sk_ChatType k \<and> s_chat_id r = sk_ChatID k"

definition is_session :: "SessionUsageKey \<Rightarrow> session_usage_row \<Rightarrow> bool" where
  "is_session k q \<longleftrightarrow> q_app_id q = sk_AppID k \<and> q_chat_type q = sk_ChatType k \<and> q_chat_id q = sk_ChatID k"

definition thread_sum :: "SessionUsageKey \<Rightarrow> thread_usage_row list \<Rightarrow> usage" where
  "thread_sum k rows = foldr (\<lambda>r u. plain_add (s_usage r) u) (filter (of_session k) rows) zero_usage"

definition insert_turn :: "TurnUsageRecord \<Rightarrow> nat op" where
  "insert_turn r w = (if list_ex (\<lambda>u. u_trace_id u = Rec_TraceID r \<and> u_turn_id u = Rec_TurnID r) (turn_usage_ledger w) then (Inr 0, w)
     else (Inr 1, w\<lparr>turn_usage_ledger := turn_usage_ledger w @ [\<lparr>u_trace_id = Rec_TraceID r, u_thread_id = nullable (Rec_ThreadID r),
       u_turn_id = Rec_TurnID r, u_usage = clip_usage (Rec_Usage r)\<rparr>]\<rparr>))"

definition new_thread_row :: "TurnUsageRecord \<Rightarrow> thread_usage_row" where
  "new_thread_row r = \<lparr>s_app_id = sk_AppID (Rec_Session r), s_chat_type = sk_ChatType (Rec_Session r), s_chat_id = sk_ChatID (Rec_Session r),
     s_thread_id = Rec_ThreadID r, s_last_trace_id = nullable (Rec_TraceID r), s_last_turn_id = nullable (Rec_TurnID r), s_usage = Rec_Usage r\<rparr>"

definition is_thread :: "TurnUsageRecord \<Rightarrow> thread_usage_row \<Rightarrow> bool" where
  "is_thread r x \<longleftrightarrow> of_session (Rec_Session r) x \<and> s_thread_id x = Rec_ThreadID r"

text \<open>The upsert of \<open>addAuthoritativeThreadUsage\<close> and the two statements of a snapshot.\<close>

definition insert_thread :: "TurnUsageRecord \<Rightarrow> unit op" where
  "insert_thread r w = (if \<not> in_column (Rec_Usage r) then (Inl ErrOutOfRange, w)
     else (Inr (), w\<lparr>thread_usage_snapshots := thread_usage_snapshots w @ [new_thread_row r]\<rparr>))"

definition touch_thread :: "TurnUsageRecord \<Rightarrow> usage \<Rightarrow> thread_usage_row \<Rightarrow> thread_usage_row" where
  "touch_thread r u x = x\<lparr>s_last_trace_id := nullable (Rec_TraceID r), s_last_turn_id := nullable (Rec_TurnID r), s_usage := u\<rparr>"

definition add_thread :: "TurnUsageRecord \<Rightarrow> unit op" where
  "add_thread r w = (case sql_first (is_thread r) (thread_usage_snapshots w) of
       None \<Rightarrow> insert_thread r w
     | Some x \<Rightarrow> let u = plain_add (s_usage x) (Rec_Usage r) in
         if \<not> in_column (Rec_Usage r) \<or> \<not> in_column u then (Inl ErrOutOfRange, w)
         else (Inr (), w\<lparr>thread_usage_snapshots := sql_update (is_thread r) (touch_thread r u) (thread_usage_snapshots w)\<rparr>))"

definition replace_thread :: "TurnUsageRecord \<Rightarrow> unit op" where
  "replace_thread r w = (if \<not> in_column (Rec_Usage r) then (Inl ErrOutOfRange, w)
     else (Inr (), w\<lparr>thread_usage_snapshots := sql_update (is_thread r) (touch_thread r (Rec_Usage r)) (thread_usage_snapshots w)\<rparr>))"

definition addAuthoritativeThreadUsage :: "TurnUsageRecord \<Rightarrow> unit op" where
  "addAuthoritativeThreadUsage r = (if Rec_ThreadID r = [] then fail (Errorf ''add authoritative thread usage: thread id is required'')
     else and_then (exec (add_thread r)) (Wrapf ''add authoritative thread usage'') ret)"

definition readThreadUsageForUpdate :: "TurnUsageRecord \<Rightarrow> usage option op" where
  "readThreadUsageForUpdate r = and_then (query (\<lambda>w. sql_first (is_thread r) (thread_usage_snapshots w))) (Wrapf ''read thread usage snapshot'')
     (\<lambda>found. case found of None \<Rightarrow> ret None | Some x \<Rightarrow> if \<not> scans (s_usage x) then fail (Wrapf ''read thread usage snapshot'' ErrOutOfRange) else ret (Some (s_usage x)))"

text \<open>\<open>INSERT IGNORE\<close> of the conversation's row: a key that exists or an unknown app inserts nothing.\<close>

definition init_session :: "SessionUsageKey \<Rightarrow> unit op" where
  "init_session k w = (if list_ex (is_session k) (session_usage_totals w) \<or> \<not> list_ex (\<lambda>a. a_id a = sk_AppID k) (apps w) then (Inr (), w)
     else (Inr (), w\<lparr>session_usage_totals := session_usage_totals w @ [\<lparr>q_app_id = sk_AppID k, q_chat_type = sk_ChatType k, q_chat_id = sk_ChatID k,
       q_usage = zero_usage, q_completed = 0, q_last_trace_id = None, q_last_thread_id = None, q_last_turn_id = None\<rparr>]\<rparr>))"

definition total_row :: "TurnUsageRecord \<Rightarrow> usage \<Rightarrow> int \<Rightarrow> session_usage_row \<Rightarrow> session_usage_row" where
  "total_row r u completed q = q\<lparr>q_usage := u, q_completed := completed, q_last_trace_id := nullable (Rec_TraceID r),
     q_last_thread_id := nullable (Rec_ThreadID r), q_last_turn_id := nullable (Rec_TurnID r)\<rparr>"

definition set_session :: "TurnUsageRecord \<Rightarrow> usage \<Rightarrow> int \<Rightarrow> unit op" where
  "set_session r u completed w = (if \<not> in_column u \<or> completed < 0 then (Inl ErrOutOfRange, w)
     else (Inr (), w\<lparr>session_usage_totals := sql_update (is_session (Rec_Session r)) (total_row r u completed) (session_usage_totals w)\<rparr>))"

definition replaceSessionUsageFromThreads :: "TurnUsageRecord \<Rightarrow> bool \<Rightarrow> SessionUsageTotal op" where
  "replaceSessionUsageFromThreads r incrementCompleted =
     and_then (exec (init_session (Rec_Session r))) (Wrapf ''initialize session usage total'') (\<lambda>_.
     and_then (query (\<lambda>w. sql_first (is_session (Rec_Session r)) (session_usage_totals w))) (Wrapf ''lock session usage total'') (\<lambda>found.
       case found of None \<Rightarrow> fail (Wrapf ''lock session usage total'' ErrNoRows) | Some q \<Rightarrow>
         let completed = (if incrementCompleted then q_completed q + 1 else q_completed q) in
         and_then (query (\<lambda>w. thread_sum (Rec_Session r) (thread_usage_snapshots w))) (Wrapf ''sum thread usage snapshots'') (\<lambda>usage.
           if \<not> scans usage then fail (Wrapf ''sum thread usage snapshots'' ErrOutOfRange)
           else and_then (exec (set_session r usage completed)) (Wrapf ''replace session usage from threads'')
             (\<lambda>_. ret \<lparr>Total_Usage = usage, CompletedTurnCount = completed\<rparr>))))"

definition RecordTurnUsage :: "TurnUsageRecord \<Rightarrow> (SessionUsageTotal \<times> bool) op" where
  "RecordTurnUsage r = (if Rec_TraceID r = [] \<or> Rec_TurnID r = [] then fail (Errorf ''record turn usage: trace id and turn id are required'')
     else transaction (Wrapf ''begin turn usage'')
       (and_then (exec (insert_turn r)) (Wrapf ''insert turn usage ledger'') (\<lambda>rows. let inserted = (rows = 1) in
          if SessionUsageKey_Valid (Rec_Session r) then
            and_then (if inserted then addAuthoritativeThreadUsage r else ret ()) id (\<lambda>_.
            and_then (replaceSessionUsageFromThreads r inserted) id (\<lambda>total. ret (Wrapf ''commit turn usage'', (total, inserted))))
          else ret (Wrapf ''commit turn usage'', (\<lparr>Total_Usage = zero_usage, CompletedTurnCount = 0\<rparr>, inserted)))))"

definition RecordThreadUsageSnapshot :: "TurnUsageRecord \<Rightarrow> SessionUsageTotal op" where
  "RecordThreadUsageSnapshot r = (if Rec_ThreadID r = [] \<or> \<not> SessionUsageKey_Valid (Rec_Session r)
       then fail (Errorf ''record thread usage snapshot: thread and session are required'')
     else transaction (Wrapf ''begin thread usage snapshot'')
       (and_then (readThreadUsageForUpdate r) id (\<lambda>current.
          and_then (case current of
               None \<Rightarrow> and_then (exec (insert_thread r)) (Wrapf ''insert thread usage snapshot'') ret
             | Some u \<Rightarrow> if snapshotAtLeast (Rec_Usage r) u then and_then (exec (replace_thread r)) (Wrapf ''update thread usage snapshot'') ret else ret ()) id (\<lambda>_.
          and_then (replaceSessionUsageFromThreads r False) id (\<lambda>total. ret (Wrapf ''commit thread usage snapshot'', total))))))"

section \<open>The invariant of the ledger\<close>

definition session_of :: "thread_usage_row \<Rightarrow> SessionUsageKey" where
  "session_of x = \<lparr>sk_AppID = s_app_id x, sk_ChatType = s_chat_type x, sk_ChatID = s_chat_id x\<rparr>"

definition total_key :: "session_usage_row \<Rightarrow> SessionUsageKey" where
  "total_key q = \<lparr>sk_AppID = q_app_id q, sk_ChatType = q_chat_type q, sk_ChatID = q_chat_id q\<rparr>"

definition thread_key :: "thread_usage_row \<Rightarrow> SessionUsageKey \<times> string" where
  "thread_key x = (session_of x, s_thread_id x)"

definition turn_key :: "turn_usage_row \<Rightarrow> string \<times> string" where
  "turn_key u = (u_trace_id u, u_turn_id u)"

text \<open>
  Turns and threads are recorded under their keys once; every thread belongs to a conversation with a total; a total is
  the sum over the threads of its conversation; the completed turns of all conversations are recorded turns.
\<close>

definition usage_inv :: "world \<Rightarrow> bool" where
  "usage_inv w \<longleftrightarrow> distinct (map turn_key (turn_usage_ledger w)) \<and> distinct (map thread_key (thread_usage_snapshots w))
     \<and> distinct (map total_key (session_usage_totals w))
     \<and> (\<forall>x \<in> set (thread_usage_snapshots w). in_column (s_usage x) \<and> session_of x \<in> total_key ` set (session_usage_totals w))
     \<and> (\<forall>q \<in> set (session_usage_totals w). q_usage q = thread_sum (total_key q) (thread_usage_snapshots w))
     \<and> (\<Sum>q \<leftarrow> session_usage_totals w. q_completed q) \<le> int (length (turn_usage_ledger w))"

text \<open>No counter of a thread ever goes back.\<close>

definition threads_grow :: "world \<Rightarrow> world \<Rightarrow> bool" where
  "threads_grow w w' \<longleftrightarrow> (\<forall>x \<in> set (thread_usage_snapshots w). \<exists>y \<in> set (thread_usage_snapshots w'). thread_key y = thread_key x \<and> snapshotAtLeast (s_usage y) (s_usage x))"

inductive usage_step :: "world \<Rightarrow> world \<Rightarrow> bool" where
  turn: "usage_step w (snd (RecordTurnUsage r w))"
| snapshot: "usage_step w (snd (RecordThreadUsageSnapshot r w))"
| fault: "usage_step w (w\<lparr>faults := fs\<rparr>)"

lemma of_session_iff: "of_session k x \<longleftrightarrow> session_of x = k"
  by (cases k) (auto simp: of_session_def session_of_def)

lemma is_session_iff: "is_session k q \<longleftrightarrow> total_key q = k"
  by (cases k) (auto simp: is_session_def total_key_def)

lemma is_thread_iff: "is_thread r x \<longleftrightarrow> thread_key x = (Rec_Session r, Rec_ThreadID r)"
  by (simp add: is_thread_def of_session_iff thread_key_def)

lemma touch_thread_simps [simp]: "thread_key (touch_thread r u x) = thread_key x" "session_of (touch_thread r u x) = session_of x" "s_usage (touch_thread r u x) = u"
  by (simp_all add: touch_thread_def thread_key_def session_of_def)

lemma new_thread_row_simps [simp]: "thread_key (new_thread_row r) = (Rec_Session r, Rec_ThreadID r)" "session_of (new_thread_row r) = Rec_Session r" "s_usage (new_thread_row r) = Rec_Usage r"
  by (simp_all add: new_thread_row_def thread_key_def session_of_def)

lemma snapshotAtLeast_refl [simp]: "snapshotAtLeast u u"
  by (simp add: snapshotAtLeast_def)

lemma snapshotAtLeast_trans: "snapshotAtLeast u v \<Longrightarrow> snapshotAtLeast v x \<Longrightarrow> snapshotAtLeast u x"
  by (auto simp: snapshotAtLeast_def)

lemma snapshotAtLeast_add: "in_column v \<Longrightarrow> snapshotAtLeast (plain_add u v) u"
  by (simp add: in_column_def counters_def snapshotAtLeast_def plain_add_def usage_map2_def)

lemma threads_grow_refl: "threads_grow w w"
  unfolding threads_grow_def by force

lemma threads_grow_trans: "threads_grow w1 w2 \<Longrightarrow> threads_grow w2 w3 \<Longrightarrow> threads_grow w1 w3"
  unfolding threads_grow_def using snapshotAtLeast_trans by metis

text \<open>What the statements on threads do: they only touch threads of the record's conversation.\<close>

definition threads_for :: "SessionUsageKey \<Rightarrow> thread_usage_row list \<Rightarrow> thread_usage_row list \<Rightarrow> bool" where
  "threads_for k xs ys \<longleftrightarrow> (distinct (map thread_key xs) \<longrightarrow> distinct (map thread_key ys))
     \<and> ((\<forall>x \<in> set xs. in_column (s_usage x)) \<longrightarrow> (\<forall>x \<in> set ys. in_column (s_usage x)))
     \<and> filter (\<lambda>x. session_of x \<noteq> k) ys = filter (\<lambda>x. session_of x \<noteq> k) xs
     \<and> (\<forall>x \<in> set xs. \<exists>y \<in> set ys. thread_key y = thread_key x \<and> snapshotAtLeast (s_usage y) (s_usage x))"

lemma threads_for_refl: "threads_for k xs xs"
  by (force simp: threads_for_def)

lemma threads_for_insert:
  "in_column (Rec_Usage r) \<Longrightarrow> sql_first (is_thread r) xs = None \<Longrightarrow> threads_for (Rec_Session r) xs (xs @ [new_thread_row r])"
  by (force simp: threads_for_def sql_first_None is_thread_iff)

lemma threads_for_update:
  assumes "in_column u" and "\<And>x. x \<in> set xs \<Longrightarrow> is_thread r x \<Longrightarrow> snapshotAtLeast u (s_usage x)"
  shows "threads_for (Rec_Session r) xs (sql_update (is_thread r) (touch_thread r u) xs)"
proof -
  let ?f = "\<lambda>x. if is_thread r x then touch_thread r u x else x"
  have keys: "map thread_key (sql_update (is_thread r) (touch_thread r u) xs) = map thread_key xs"
    by (simp add: sql_update_def comp_def if_distrib cong: if_cong)
  have "filter (\<lambda>x. session_of x \<noteq> Rec_Session r) (sql_update (is_thread r) (touch_thread r u) xs) = filter (\<lambda>x. session_of x \<noteq> Rec_Session r) xs"
    by (induction xs) (auto simp: is_thread_iff thread_key_def)
  moreover have "\<exists>y \<in> set (sql_update (is_thread r) (touch_thread r u) xs). thread_key y = thread_key x \<and> snapshotAtLeast (s_usage y) (s_usage x)" if "x \<in> set xs" for x
    using that assms(2) [of x] by (intro bexI [of _ "?f x"]) (auto simp: set_sql_update)
  ultimately show ?thesis using assms(1) keys by (auto simp: threads_for_def set_sql_update)
qed

lemma add_thread_Inr:
  assumes "distinct (map thread_key (thread_usage_snapshots w))" "add_thread r w = (Inr (), w')"
  shows "\<exists>xs. w' = w\<lparr>thread_usage_snapshots := xs\<rparr> \<and> threads_for (Rec_Session r) (thread_usage_snapshots w) xs"
proof (cases "sql_first (is_thread r) (thread_usage_snapshots w)")
  case None
  then show ?thesis using assms(2) threads_for_insert [of r] by (auto simp: add_thread_def insert_thread_def split: if_splits)
next
  case (Some x)
  let ?u = "plain_add (s_usage x) (Rec_Usage r)"
  have c: "in_column (Rec_Usage r)" "in_column ?u" and w': "w' = w\<lparr>thread_usage_snapshots := sql_update (is_thread r) (touch_thread r ?u) (thread_usage_snapshots w)\<rparr>"
    using assms(2) Some by (auto simp: add_thread_def Let_def split: if_splits)
  have x: "x \<in> set (thread_usage_snapshots w)" "is_thread r x" using sql_first_SomeD [OF Some] by auto
  have "y = x" if "y \<in> set (thread_usage_snapshots w)" "is_thread r y" for y
    using distinct_key_unique [OF assms(1)] that x by (auto simp: is_thread_iff)
  then have "threads_for (Rec_Session r) (thread_usage_snapshots w) (sql_update (is_thread r) (touch_thread r ?u) (thread_usage_snapshots w))"
    using c snapshotAtLeast_add [of "Rec_Usage r" "s_usage x"] by (intro threads_for_update) auto
  then show ?thesis using w' by blast
qed

text \<open>The rows of the totals once the conversation's row exists.\<close>

definition with_session :: "SessionUsageKey \<Rightarrow> world \<Rightarrow> session_usage_row list" where
  "with_session k w = session_usage_totals (snd (init_session k w))"

lemma with_session_pop [simp]: "with_session k (pop_fault w) = with_session k w"
  by (simp add: with_session_def init_session_def)

lemma init_session_tables: "init_session k w = (Inr (), w\<lparr>session_usage_totals := with_session k w\<rparr>)"
  by (simp add: init_session_def with_session_def)

lemma with_session_keeps:
  "\<exists>new. with_session k w = session_usage_totals w @ new \<and> (\<forall>q \<in> set new. total_key q = k \<and> q_completed q = 0)
     \<and> (distinct (map total_key (session_usage_totals w)) \<longrightarrow> distinct (map total_key (with_session k w)))"
  by (cases k) (auto simp: with_session_def init_session_def list_ex_iff is_session_iff total_key_def)

lemma replaceSession_Inr:
  assumes "replaceSessionUsageFromThreads r inc w = (Inr tot, w')"
  shows "\<exists>q. q \<in> set (with_session (Rec_Session r) w) \<and> total_key q = Rec_Session r
     \<and> session_usage_totals w' = sql_update (is_session (Rec_Session r))
         (total_row r (thread_sum (Rec_Session r) (thread_usage_snapshots w)) (q_completed q + (if inc then 1 else 0))) (with_session (Rec_Session r) w)
     \<and> thread_usage_snapshots w' = thread_usage_snapshots w \<and> turn_usage_ledger w' = turn_usage_ledger w
     \<and> tot = \<lparr>Total_Usage = thread_sum (Rec_Session r) (thread_usage_snapshots w), CompletedTurnCount = q_completed q + (if inc then 1 else 0)\<rparr>"
  using assms
  by (auto simp: replaceSessionUsageFromThreads_def op_Inr init_session_tables set_session_def Let_def is_session_iff
      dest!: sql_first_SomeD split: option.splits if_splits)

lemma total_row_simps [simp]: "total_key (total_row r u c q) = total_key q" "q_usage (total_row r u c q) = u" "q_completed (total_row r u c q) = c"
  by (simp_all add: total_row_def total_key_def)

lemma total_keys_update [simp]: "map total_key (sql_update p (total_row r u c) qs) = map total_key qs"
  by (simp add: sql_update_def)

lemma sum_completed_update:
  "distinct (map total_key qs) \<Longrightarrow> q \<in> set qs \<Longrightarrow> total_key q = k \<Longrightarrow>
   (\<Sum>x \<leftarrow> sql_update (is_session k) (total_row r u c) qs. q_completed x) = (\<Sum>x \<leftarrow> qs. q_completed x) - q_completed q + c"
proof (induction qs)
  case (Cons x qs)
  show ?case
  proof (cases "x = q")
    case True
    then have "\<forall>y \<in> set qs. total_key y \<noteq> k" using Cons.prems by (metis distinct.simps(2) image_eqI list.set_map list.simps(9))
    then have "sql_update (is_session k) (total_row r u c) qs = qs" by (intro sql_update_id) (simp add: is_session_iff)
    moreover have "is_session k x" using True Cons.prems(3) by (simp add: is_session_iff)
    ultimately show ?thesis using True by simp
  next
    case False
    then have "q \<in> set qs" "total_key x \<noteq> k" using Cons.prems by auto
    then show ?thesis using Cons by (simp add: is_session_iff)
  qed
qed simp

lemma thread_sum_other:
  assumes "filter (\<lambda>x. session_of x \<noteq> k) ys = filter (\<lambda>x. session_of x \<noteq> k) xs" "k' \<noteq> k"
  shows "thread_sum k' ys = thread_sum k' xs"
proof -
  have "filter (of_session k') zs = filter (of_session k') (filter (\<lambda>x. session_of x \<noteq> k) zs)" for zs
    using assms(2) by (auto simp: of_session_iff intro: filter_cong)
  then show ?thesis unfolding thread_sum_def using assms(1) by metis
qed

text \<open>A body that changes threads of one conversation, possibly records one turn, and then replaces the conversation's total.\<close>

lemma usage_inv_refresh:
  assumes "usage_inv w" and t: "threads_for (Rec_Session r) (thread_usage_snapshots w) (thread_usage_snapshots w1)"
    and same: "session_usage_totals w1 = session_usage_totals w"
    and led: "distinct (map turn_key (turn_usage_ledger w1))" "length (turn_usage_ledger w1) = length (turn_usage_ledger w) + (if inc then 1 else 0)"
    and rep: "replaceSessionUsageFromThreads r inc w1 = (Inr tot, w2)"
  shows "usage_inv w2 \<and> threads_grow w w2"
proof -
  let ?k = "Rec_Session r"
  obtain q where q: "q \<in> set (with_session ?k w1)" "total_key q = ?k"
    and tot: "session_usage_totals w2 = sql_update (is_session ?k) (total_row r (thread_sum ?k (thread_usage_snapshots w1)) (q_completed q + (if inc then 1 else 0))) (with_session ?k w1)"
    and keep: "thread_usage_snapshots w2 = thread_usage_snapshots w1" "turn_usage_ledger w2 = turn_usage_ledger w1"
    using replaceSession_Inr [OF rep] by blast
  obtain new where new: "with_session ?k w1 = session_usage_totals w @ new" "\<forall>x \<in> set new. total_key x = ?k \<and> q_completed x = 0" "distinct (map total_key (with_session ?k w1))"
    using with_session_keeps [of ?k w1] assms(1) same by (auto simp: usage_inv_def)
  have others: "session_of x \<noteq> ?k \<Longrightarrow> x \<in> set (thread_usage_snapshots w1) \<longleftrightarrow> x \<in> set (thread_usage_snapshots w)" for x
  proof -
    assume h: "session_of x \<noteq> ?k"
    have f: "filter (\<lambda>x. session_of x \<noteq> ?k) (thread_usage_snapshots w1) = filter (\<lambda>x. session_of x \<noteq> ?k) (thread_usage_snapshots w)"
      using t unfolding threads_for_def by (elim conjE)
    have "x \<in> set (filter (\<lambda>x. session_of x \<noteq> ?k) (thread_usage_snapshots w1)) \<longleftrightarrow> x \<in> set (filter (\<lambda>x. session_of x \<noteq> ?k) (thread_usage_snapshots w))"
      by (simp only: f)
    then show "x \<in> set (thread_usage_snapshots w1) \<longleftrightarrow> x \<in> set (thread_usage_snapshots w)" using h by simp
  qed
  have keys: "total_key ` set (session_usage_totals w2) = total_key ` set (with_session ?k w1)"
    using tot total_keys_update by (metis list.set_map)
  have "\<forall>x \<in> set (thread_usage_snapshots w2). in_column (s_usage x)" using assms(1) t keep by (auto simp: usage_inv_def threads_for_def)
  moreover have "session_of x \<in> total_key ` set (session_usage_totals w2)" if "x \<in> set (thread_usage_snapshots w2)" for x
  proof (cases "session_of x = ?k")
    case True
    then show ?thesis unfolding keys using q by (metis image_eqI)
  next
    case False
    then have "session_of x \<in> total_key ` set (session_usage_totals w)" using others that keep assms(1) by (auto simp: usage_inv_def)
    then show ?thesis unfolding keys new(1) by auto
  qed
  moreover have "q_usage x = thread_sum (total_key x) (thread_usage_snapshots w2)" if mem: "x \<in> set (session_usage_totals w2)" for x
  proof -
    obtain y where y: "y \<in> set (with_session ?k w1)" "x = (if is_session ?k y then total_row r (thread_sum ?k (thread_usage_snapshots w1)) (q_completed q + (if inc then 1 else 0)) y else y)"
      using mem unfolding tot set_sql_update by blast
    show ?thesis
    proof (cases "total_key y = ?k")
      case True
      then show ?thesis using y keep by (simp add: is_session_iff)
    next
      case False
      then have "y \<in> set (session_usage_totals w)" using y(1) new by auto
      then have "q_usage y = thread_sum (total_key y) (thread_usage_snapshots w)" using assms(1) by (simp add: usage_inv_def)
      moreover have "thread_sum (total_key y) (thread_usage_snapshots w2) = thread_sum (total_key y) (thread_usage_snapshots w)"
        using t False keep by (intro thread_sum_other) (auto simp: threads_for_def)
      ultimately show ?thesis using y(2) False by (simp add: is_session_iff)
    qed
  qed
  moreover have "(\<Sum>x \<leftarrow> session_usage_totals w2. q_completed x) \<le> int (length (turn_usage_ledger w2))"
  proof -
    have "(\<Sum>x \<leftarrow> new. q_completed x) = 0" using new(2) by (induction new) auto
    then have "(\<Sum>x \<leftarrow> with_session ?k w1. q_completed x) \<le> int (length (turn_usage_ledger w))" using assms(1) new(1) by (simp add: usage_inv_def)
    then show ?thesis unfolding tot sum_completed_update [OF new(3) q] using keep led(2) by simp
  qed
  ultimately show ?thesis using assms(1) t tot new(3) led(1) keep
    by (auto simp: usage_inv_def threads_grow_def threads_for_def)
qed

lemma usage_inv_quiet: "quiet w = quiet w' \<Longrightarrow> usage_inv w \<longleftrightarrow> usage_inv w'" "quiet w = quiet w' \<Longrightarrow> threads_grow v w \<longleftrightarrow> threads_grow v w'"
  using quiet_simps(11,12,13) [of w] quiet_simps(11,12,13) [of w'] by (simp_all add: usage_inv_def threads_grow_def)

lemma insert_turn_effect:
  assumes "insert_turn r w = (Inr rows, w1)" "distinct (map turn_key (turn_usage_ledger w))"
  shows "thread_usage_snapshots w1 = thread_usage_snapshots w" "session_usage_totals w1 = session_usage_totals w"
    "distinct (map turn_key (turn_usage_ledger w1))" "length (turn_usage_ledger w1) = length (turn_usage_ledger w) + (if rows = 1 then 1 else 0)"
proof -
  have "(Rec_TraceID r, Rec_TurnID r) \<notin> turn_key ` set (turn_usage_ledger w)"
    if "\<not> list_ex (\<lambda>u. u_trace_id u = Rec_TraceID r \<and> u_turn_id u = Rec_TurnID r) (turn_usage_ledger w)"
    using that by (force simp: list_ex_iff turn_key_def)
  then show "thread_usage_snapshots w1 = thread_usage_snapshots w" "session_usage_totals w1 = session_usage_totals w"
    "distinct (map turn_key (turn_usage_ledger w1))" "length (turn_usage_ledger w1) = length (turn_usage_ledger w) + (if rows = 1 then 1 else 0)"
    using assms by (auto simp: insert_turn_def turn_key_def split: if_splits)
qed

text \<open>The body of a transaction that succeeds keeps the invariant.\<close>

lemma turn_body_inv:
  assumes "usage_inv w" "exec (insert_turn r) w = (Inr rows, w1)" "SessionUsageKey_Valid (Rec_Session r)"
    and "(if rows = 1 then addAuthoritativeThreadUsage r else ret ()) w1 = (Inr (), w2)" "replaceSessionUsageFromThreads r (rows = 1) w2 = (Inr tot, w3)"
  shows "usage_inv w3 \<and> threads_grow w w3"
proof -
  have i: "insert_turn r (pop_fault w) = (Inr rows, w1)" using assms(2) by (simp add: exec_Inr_iff)
  note eff = insert_turn_effect [OF i, simplified pop_fault_simps]
  have d: "distinct (map turn_key (turn_usage_ledger w))" "distinct (map thread_key (thread_usage_snapshots w))" using assms(1) by (simp_all add: usage_inv_def)
  have "\<exists>xs. quiet w2 = quiet (w1\<lparr>thread_usage_snapshots := xs\<rparr>) \<and> threads_for (Rec_Session r) (thread_usage_snapshots w) xs"
  proof (cases "rows = 1")
    case True
    then have "add_thread r (pop_fault w1) = (Inr (), w2)"
      using assms(4) by (auto simp: addAuthoritativeThreadUsage_def op_Inr split: if_splits)
    then show ?thesis using add_thread_Inr [of "pop_fault w1" r w2] d(2) eff(1) [OF d(1)] by auto
  next
    case False
    then have "w2 = w1" using assms(4) by simp
    then show ?thesis using threads_for_refl [of "Rec_Session r" "thread_usage_snapshots w"] eff(1) [OF d(1)]
      by (intro exI [of _ "thread_usage_snapshots w1"]) simp
  qed
  then obtain xs where xs: "quiet w2 = quiet (w1\<lparr>thread_usage_snapshots := xs\<rparr>)" "threads_for (Rec_Session r) (thread_usage_snapshots w) xs" by blast
  have t: "thread_usage_snapshots w2 = xs" "session_usage_totals w2 = session_usage_totals w1" "turn_usage_ledger w2 = turn_usage_ledger w1"
    using arg_cong [OF xs(1), of thread_usage_snapshots] arg_cong [OF xs(1), of session_usage_totals] arg_cong [OF xs(1), of turn_usage_ledger]
    by (simp_all add: quiet_def)
  show ?thesis using assms(5) xs(2) t eff [OF d(1)] by (intro usage_inv_refresh [OF assms(1)]) auto
qed

lemma snapshot_body_inv:
  assumes inv: "usage_inv w"
    and body: "and_then (readThreadUsageForUpdate r) id (\<lambda>current.
          and_then (case current of
               None \<Rightarrow> and_then (exec (insert_thread r)) (Wrapf ''insert thread usage snapshot'') ret
             | Some u \<Rightarrow> if snapshotAtLeast (Rec_Usage r) u then and_then (exec (replace_thread r)) (Wrapf ''update thread usage snapshot'') ret else ret ()) id (\<lambda>_.
          and_then (replaceSessionUsageFromThreads r False) id (\<lambda>total. ret (Wrapf ''commit thread usage snapshot'', total)))) (pop_fault w) = (Inr (c, x), w2)"
  shows "usage_inv w2 \<and> threads_grow w w2"
proof -
  let ?xs = "thread_usage_snapshots w"
  have d: "distinct (map thread_key ?xs)" using inv by (simp add: usage_inv_def)
  have ok: "\<exists>w1 tot. replaceSessionUsageFromThreads r False w1 = (Inr tot, w2) \<and> session_usage_totals w1 = session_usage_totals w
      \<and> turn_usage_ledger w1 = turn_usage_ledger w \<and> threads_for (Rec_Session r) ?xs (thread_usage_snapshots w1)"
  proof (cases "sql_first (is_thread r) ?xs")
    case None
    then show ?thesis using body threads_for_insert [of r ?xs]
      by (fastforce simp: readThreadUsageForUpdate_def op_Inr insert_thread_def split: if_splits)
  next
    case (Some y)
    have only: "z = y" if "z \<in> set ?xs" "is_thread r z" for z
      using distinct_key_unique [OF d] that sql_first_SomeD [OF Some] by (auto simp: is_thread_iff)
    show ?thesis
    proof (cases "snapshotAtLeast (Rec_Usage r) (s_usage y)")
      case True
      have "in_column (Rec_Usage r) \<Longrightarrow> threads_for (Rec_Session r) ?xs (sql_update (is_thread r) (touch_thread r (Rec_Usage r)) ?xs)"
        using True only by (intro threads_for_update) auto
      then show ?thesis using body Some True by (fastforce simp: readThreadUsageForUpdate_def op_Inr replace_thread_def split: if_splits)
    next
      case False
      then show ?thesis using body Some threads_for_refl by (fastforce simp: readThreadUsageForUpdate_def op_Inr split: if_splits)
    qed
  qed
  then obtain w1 tot where "replaceSessionUsageFromThreads r False w1 = (Inr tot, w2)" "session_usage_totals w1 = session_usage_totals w"
      "turn_usage_ledger w1 = turn_usage_ledger w" "threads_for (Rec_Session r) ?xs (thread_usage_snapshots w1)" by blast
  then show ?thesis using inv by (intro usage_inv_refresh [OF inv]) (auto simp: usage_inv_def)
qed

lemma RecordTurnUsage_inv: "usage_inv w \<Longrightarrow> usage_inv (snd (RecordTurnUsage r w)) \<and> threads_grow w (snd (RecordTurnUsage r w))"
proof (cases "Rec_TraceID r = [] \<or> Rec_TurnID r = []")
  case True
  then show "usage_inv w \<Longrightarrow> ?thesis" by (auto simp: RecordTurnUsage_def fail_def threads_grow_refl)
next
  case False
  assume inv: "usage_inv w"
  define body where "body = and_then (exec (insert_turn r)) (Wrapf ''insert turn usage ledger'') (\<lambda>rows. let inserted = (rows = 1) in
          if SessionUsageKey_Valid (Rec_Session r) then
            and_then (if inserted then addAuthoritativeThreadUsage r else ret ()) id (\<lambda>_.
            and_then (replaceSessionUsageFromThreads r inserted) id (\<lambda>total. ret (Wrapf ''commit turn usage'', (total, inserted))))
          else ret (Wrapf ''commit turn usage'', (\<lparr>Total_Usage = zero_usage, CompletedTurnCount = 0\<rparr>, inserted)))"
  have e: "RecordTurnUsage r w = transaction (Wrapf ''begin turn usage'') body w" using False by (simp add: RecordTurnUsage_def body_def)
  show ?thesis
  proof (cases rule: transaction_cases [of "Wrapf ''begin turn usage''" body w])
    case (unchanged x)
    then show ?thesis using inv threads_grow_refl [of w] usage_inv_quiet [OF unchanged(1)] unfolding e by simp
  next
    case (committed c x w2)
    have p: "usage_inv (pop_fault w)" using inv usage_inv_quiet(1) [OF quiet_pop_fault [of w]] by simp
    have "usage_inv w2 \<and> threads_grow (pop_fault w) w2"
    proof (cases "SessionUsageKey_Valid (Rec_Session r)")
      case True
      then show ?thesis using committed(1) turn_body_inv [OF p] unfolding body_def by (auto simp: and_then_Inr_iff Let_def)
    next
      case False
      then obtain rows where "insert_turn r (pop_fault (pop_fault w)) = (Inr rows, w2)"
        using committed(1) unfolding body_def by (auto simp: op_Inr Let_def)
      from insert_turn_effect [OF this] show ?thesis using inv by (auto simp: usage_inv_def threads_grow_def)
    qed
    then show ?thesis using usage_inv_quiet [OF committed(2)] unfolding e by (simp add: threads_grow_def)
  qed
qed

lemma RecordThreadUsageSnapshot_inv: "usage_inv w \<Longrightarrow> usage_inv (snd (RecordThreadUsageSnapshot r w)) \<and> threads_grow w (snd (RecordThreadUsageSnapshot r w))"
proof (cases "Rec_ThreadID r = [] \<or> \<not> SessionUsageKey_Valid (Rec_Session r)")
  case True
  then show "usage_inv w \<Longrightarrow> ?thesis" by (auto simp: RecordThreadUsageSnapshot_def fail_def threads_grow_refl)
next
  case False
  assume inv: "usage_inv w"
  define body where "body = and_then (readThreadUsageForUpdate r) id (\<lambda>current.
          and_then (case current of
               None \<Rightarrow> and_then (exec (insert_thread r)) (Wrapf ''insert thread usage snapshot'') ret
             | Some u \<Rightarrow> if snapshotAtLeast (Rec_Usage r) u then and_then (exec (replace_thread r)) (Wrapf ''update thread usage snapshot'') ret else ret ()) id (\<lambda>_.
          and_then (replaceSessionUsageFromThreads r False) id (\<lambda>total. ret (Wrapf ''commit thread usage snapshot'', total))))"
  have e: "RecordThreadUsageSnapshot r w = transaction (Wrapf ''begin thread usage snapshot'') body w" using False by (simp add: RecordThreadUsageSnapshot_def body_def)
  show ?thesis
  proof (cases rule: transaction_cases [of "Wrapf ''begin thread usage snapshot''" body w])
    case (unchanged x)
    then show ?thesis using inv threads_grow_refl [of w] usage_inv_quiet [OF unchanged(1)] unfolding e by simp
  next
    case (committed c x w2)
    have "usage_inv w2 \<and> threads_grow w w2" using snapshot_body_inv [OF inv committed(1) [unfolded body_def]] .
    then show ?thesis using usage_inv_quiet [OF committed(2)] unfolding e by simp
  qed
qed

lemma usage_step_inv:
  assumes "usage_step w w'" "usage_inv w"
  shows "usage_inv w' \<and> threads_grow w w'"
  using assms(1)
proof cases
  case (fault fs)
  then show ?thesis using assms(2) usage_inv_quiet [OF quiet_faults [of fs w]] threads_grow_refl by simp
qed (use assms(2) RecordTurnUsage_inv RecordThreadUsageSnapshot_inv in auto)

section \<open>The accumulator\<close>

lemma wrap64_id: "- (2 ^ 63) \<le> x \<Longrightarrow> x < 2 ^ 63 \<Longrightarrow> wrap64 x = x"
  by (simp add: wrap64_def)

text \<open>The buckets of an accepted usage are disjoint parts that add up to its total.\<close>

lemma usage_details_partition:
  assumes "Usage_UsageDetails u = Inr d" and "scans u"
  shows "0 \<le> Detail_Input d \<and> 0 \<le> Detail_Output d
    \<and> Detail_Input d + Detail_InputCachedTokens d + Detail_Output d + Detail_OutputReasoningTokens d = InputTokens u + OutputTokens u
    \<and> (InputTokens u + OutputTokens u < 2 ^ 63 \<longrightarrow> Detail_Total d = InputTokens u + OutputTokens u)"
proof -
  have le: "0 \<le> CachedInputTokens u" "CachedInputTokens u \<le> InputTokens u" "0 \<le> ReasoningOutputTokens u" "ReasoningOutputTokens u \<le> OutputTokens u"
    and tot: "TotalTokens u = wrap64 (InputTokens u + OutputTokens u)"
    and d: "d = \<lparr>Detail_Input = wrap64 (InputTokens u - CachedInputTokens u), Detail_InputCachedTokens = CachedInputTokens u,
        Detail_Output = wrap64 (OutputTokens u - ReasoningOutputTokens u), Detail_OutputReasoningTokens = ReasoningOutputTokens u, Detail_Total = TotalTokens u\<rparr>"
    using assms(1) by (simp_all add: Usage_UsageDetails_def counters_def not_less split: if_splits)
  have "InputTokens u < 2 ^ 63" "OutputTokens u < 2 ^ 63" using assms(2) by (simp_all add: scans_def counters_def)
  then have w: "wrap64 (InputTokens u - CachedInputTokens u) = InputTokens u - CachedInputTokens u" "wrap64 (OutputTokens u - ReasoningOutputTokens u) = OutputTokens u - ReasoningOutputTokens u"
    using le by (intro wrap64_id; linarith)+
  have "wrap64 (InputTokens u + OutputTokens u) = InputTokens u + OutputTokens u" if "InputTokens u + OutputTokens u < 2 ^ 63"
    using le that by (intro wrap64_id) linarith+
  then show ?thesis using le by (simp add: d w tot)
qed

text \<open>The total of an accumulator is the growth of the counters since its first snapshot.\<close>

definition natural :: "usage \<Rightarrow> bool" where
  "natural u \<longleftrightarrow> list_all (\<lambda>n. 0 \<le> n \<and> n < 2 ^ 63) (counters u)"

definition grown_from :: "usage \<Rightarrow> LoopUsageAccumulator \<Rightarrow> bool" where
  "grown_from first a \<longleftrightarrow> natural first \<and> (\<exists>b. acc_baseline a = Some b \<and> natural b \<and> snapshotAtLeast b first \<and> acc_total a = usage_map2 (-) b first)"

lemma wrap64_range: "0 \<le> x \<Longrightarrow> x < 2 ^ 63 \<Longrightarrow> wrap64 x = x"
  by (rule wrap64_id) simp_all

lemma wrap64_diff: "0 \<le> a \<Longrightarrow> a < 2 ^ 63 \<Longrightarrow> 0 \<le> b \<Longrightarrow> b < 2 ^ 63 \<Longrightarrow> wrap64 (a - b) = a - b"
  by (rule wrap64_id) linarith+

lemma observe_total:
  assumes "grown_from first a" "natural current"
  shows "grown_from first (snd (Observe generation seq current a))"
proof -
  obtain b where b: "acc_baseline a = Some b" "natural b" "snapshotAtLeast b first" "acc_total a = usage_map2 (-) b first" and f: "natural first"
    using assms(1) by (auto simp: grown_from_def)
  have s: "subtract current b = (if snapshotAtLeast current b then Inr (usage_map2 (-) current b) else Inl (Errorf ''token usage counter regressed''))"
    using b(2) assms(2) by (auto simp: subtract_def usage_map2_def natural_def counters_def wrap64_diff snapshotAtLeast_def Let_def)
  have "usage_add (acc_total a) (usage_map2 (-) current b) = usage_map2 (-) current first"
    using b(2,3) assms(2) f unfolding b(4) by (simp add: usage_add_def usage_map2_def natural_def counters_def snapshotAtLeast_def wrap64_diff)
  then show ?thesis using b f assms(2) snapshotAtLeast_trans [of current b first]
    by (auto simp: Observe_def s grown_from_def Let_def)
qed

text \<open>A turn that is already recorded changes no thread and no turn.\<close>

lemma repeated_turn_ignored:
  assumes "(Rec_TraceID r, Rec_TurnID r) \<in> turn_key ` set (turn_usage_ledger w)"
  shows "thread_usage_snapshots (snd (RecordTurnUsage r w)) = thread_usage_snapshots w \<and> turn_usage_ledger (snd (RecordTurnUsage r w)) = turn_usage_ledger w"
proof -
  have i: "insert_turn r v = (Inr 0, v)" if "turn_usage_ledger v = turn_usage_ledger w" for v :: world
    using assms that by (auto simp: insert_turn_def list_ex_iff turn_key_def)
  have keep: "quiet v = quiet w \<Longrightarrow> thread_usage_snapshots v = thread_usage_snapshots w \<and> turn_usage_ledger v = turn_usage_ledger w" for v :: world
    using quiet_simps(11,12) [of v] quiet_simps(11,12) [of w] by simp
  show ?thesis
  proof (cases "Rec_TraceID r = [] \<or> Rec_TurnID r = []")
    case False
    define body where "body = and_then (exec (insert_turn r)) (Wrapf ''insert turn usage ledger'') (\<lambda>rows. let inserted = (rows = 1) in
          if SessionUsageKey_Valid (Rec_Session r) then
            and_then (if inserted then addAuthoritativeThreadUsage r else ret ()) id (\<lambda>_.
            and_then (replaceSessionUsageFromThreads r inserted) id (\<lambda>total. ret (Wrapf ''commit turn usage'', (total, inserted))))
          else ret (Wrapf ''commit turn usage'', (\<lparr>Total_Usage = zero_usage, CompletedTurnCount = 0\<rparr>, inserted)))"
    have e: "RecordTurnUsage r w = transaction (Wrapf ''begin turn usage'') body w" using False by (simp add: RecordTurnUsage_def body_def)
    show ?thesis
    proof (cases rule: transaction_cases [of "Wrapf ''begin turn usage''" body w])
      case (unchanged x)
      then show ?thesis using keep unfolding e by blast
    next
      case (committed c x w2)
      have "thread_usage_snapshots w2 = thread_usage_snapshots w \<and> turn_usage_ledger w2 = turn_usage_ledger w"
        using committed(1) i [of "pop_fault (pop_fault w)"] unfolding body_def
        by (auto simp: op_Inr Let_def dest!: replaceSession_Inr split: if_splits)
      then show ?thesis using committed(2) quiet_simps(11,12) [of w2] quiet_simps(11,12) [of "snd (RecordTurnUsage r w)"] unfolding e by simp
    qed
  qed (simp add: RecordTurnUsage_def fail_def)
qed

section \<open>Concrete inputs\<close>

definition ex_usage :: usage where
  "ex_usage = \<lparr>InputTokens = 5, OutputTokens = 2, CachedInputTokens = 1, ReasoningOutputTokens = 0, TotalTokens = 7\<rparr>"

definition ex_usage_record :: TurnUsageRecord where
  "ex_usage_record = \<lparr>Rec_TraceID = ''trace'', Rec_ThreadID = ''thread'', Rec_TurnID = ''turn'',
     Rec_Session = \<lparr>sk_AppID = ''app'', sk_ChatType = ''group'', sk_ChatID = ''chat''\<rparr>, Rec_Usage = ex_usage\<rparr>"

definition ex_usage_world :: world where
  "ex_usage_world = empty_world\<lparr>apps := [\<lparr>a_id = ''app'', a_enabled = True, a_workspace_dir = ''/w'', a_workspace_mode = ''work'', a_model = [], a_effort = []\<rparr>]\<rparr>"

section \<open>Properties\<close>



end
