(* ===== verification/Companion_Output.thy ===== *)
theory Companion_Output
  imports Go_Strings
begin

text \<open>
  What a turn shows (\<open>internal/output\<close>): the projection of streamed items onto progress and final text
  (\<open>presentation.go\<close>), and the lexer and splitter that turn a companion's final text into separate messages
  (\<open>companion.go\<close>).
\<close>

section \<open>Presentation\<close>

record Item =
  Item_ID :: string
  Item_Kind :: string
  Item_Phase :: string
  Item_Content :: string

datatype Phase = Commentary | FinalAnswer

record Presentation =
  Pres_ID :: string
  Pres_Phase :: Phase
  Pres_Text :: string

text \<open>A replacement of one byte, as \<open>Sanitize\<close> makes three.\<close>

definition replace_byte :: "char \<Rightarrow> string \<Rightarrow> string \<Rightarrow> string" where
  "replace_byte b new s = concat (map (\<lambda>c. if c = b then new else [c]) s)"

definition Sanitize :: "string \<Rightarrow> string" where
  "Sanitize s = replace_byte (CHR ''>'') ''&gt;'' (replace_byte (CHR ''<'') ''&lt;'' (replace_byte (CHR ''&'') ''&amp;'' s))"

definition phase_of :: "string \<Rightarrow> Phase option" where
  "phase_of s = (if s = ''commentary'' then Some Commentary else if s = ''final_answer'' then Some FinalAnswer else None)"

text \<open>The mapper's state is the ids it has seen.\<close>

definition Mapper_Accept :: "Item \<Rightarrow> string list \<Rightarrow> Presentation option \<times> string list" where
  "Mapper_Accept item seen =
     (if Item_ID item = [] \<or> Item_Kind item \<noteq> ''agentMessage'' \<or> Item_Content item = [] then (None, seen)
      else case phase_of (Item_Phase item) of None \<Rightarrow> (None, seen)
        | Some phase \<Rightarrow> if Item_ID item \<in> set seen then (None, seen)
            else (Some \<lparr>Pres_ID = Item_ID item, Pres_Phase = phase, Pres_Text = Sanitize (Item_Content item)\<rparr>, Item_ID item # seen))"

record Projection =
  Proj_progress :: "string list"
  Proj_final :: string

definition NewProjection :: Projection where
  "NewProjection = \<lparr>Proj_progress = [], Proj_final = []\<rparr>"

definition Apply :: "Presentation \<Rightarrow> Projection \<Rightarrow> Projection" where
  "Apply item p = (case Pres_Phase item of
       Commentary \<Rightarrow> p\<lparr>Proj_progress := Proj_progress p @ [Pres_Text item]\<rparr>
     | FinalAnswer \<Rightarrow> if Pres_Text item \<noteq> [] then p\<lparr>Proj_final := Pres_Text item\<rparr> else p)"

fun join_strings :: "string \<Rightarrow> string list \<Rightarrow> string" where
  "join_strings sep [] = []"
| "join_strings sep [x] = x"
| "join_strings sep (x # y # ys) = x @ sep @ join_strings sep (y # ys)"

definition Progress :: "Projection \<Rightarrow> string" where
  "Progress p = join_strings [CHR 0x0A, CHR 0x0A] (Proj_progress p)"

definition Final :: "Projection \<Rightarrow> string" where
  "Final p = Proj_final p"

abbreviation newline :: char where
  "newline \<equiv> CHR 0x0A"

section \<open>The companion lexer\<close>

text \<open>
  \<open>strings.NewReplacer\<close> with the six full-width brackets, and the normal form of a marker candidate.
  \<open>unicode.ToUpper\<close> is needed only up to comparison with an ASCII text: apart from a to z, exactly the dotless
  i and the long s are mapped into ASCII.
\<close>

definition marker_brackets :: "(string \<times> string) list" where
  "marker_brackets = [(utf8 [65339], ''[''), (utf8 [65341], '']''), (utf8 [12304], ''[''), (utf8 [12305], '']''), (utf8 [12308], ''[''), (utf8 [12309], '']'')]"

function replace_pairs :: "(string \<times> string) list \<Rightarrow> string \<Rightarrow> string" where
  "replace_pairs ps [] = []"
| "replace_pairs ps (c # s) = (case List.find (\<lambda>(old, new). old \<noteq> [] \<and> has_prefix (c # s) old) ps of
       Some (old, new) \<Rightarrow> new @ replace_pairs ps (drop (length old) (c # s))
     | None \<Rightarrow> c # replace_pairs ps s)"
  by pat_completeness auto
termination
  by (relation "measure (\<lambda>(ps, s). length s)") (auto simp: find_Some_iff)

definition marker_ignored :: "nat \<Rightarrow> bool" where
  "marker_ignored r \<longleftrightarrow> is_space r \<or> r = 8203 \<or> r = 8204 \<or> r = 8205 \<or> r = 65279"

definition to_upper :: "nat \<Rightarrow> nat" where
  "to_upper r = (if 97 \<le> r \<and> r \<le> 122 then r - 32 else if r = 305 then 73 else if r = 383 then 83 else r)"

definition normalizeCandidate :: "string \<Rightarrow> string" where
  "normalizeCandidate value = utf8 (map to_upper (filter (\<lambda>r. \<not> marker_ignored r) (runes (replace_pairs marker_brackets value))))"

definition decodeRune :: "string \<Rightarrow> nat \<times> nat" where
  "decodeRune s = (if s = [] then (0, 0) else utf8_decode s)"

definition isOpenBracketAt :: "string \<Rightarrow> nat \<Rightarrow> bool" where
  "isOpenBracketAt s i \<longleftrightarrow> fst (decodeRune (drop i s)) \<in> set [91, 65339, 12304, 12308]"

definition atLineStart :: "string \<Rightarrow> nat \<Rightarrow> bool" where
  "atLineStart s i \<longleftrightarrow> i = 0 \<or> s ! (i - 1) = newline"

definition oddEscapes :: "string \<Rightarrow> nat \<Rightarrow> bool" where
  "oddEscapes s i \<longleftrightarrow> lead_run (CHR 0x5C) (rev (take i s)) mod 2 = 1"

definition removeLastSlash :: "string \<Rightarrow> string" where
  "removeLastSlash b = (if has_suffix b [CHR 0x5C] then take (length b - 1) b else b)"

text \<open>The search of \<open>doubleMarkerEnd\<close> extends the candidate rune by rune while it is at most 80 bytes long.\<close>

function double_loop :: "string \<Rightarrow> nat \<Rightarrow> nat \<Rightarrow> nat option" where
  "double_loop s start e = (if e < length s \<and> e - start \<le> 80 then
       let e' = e + snd (decodeRune (drop e s)) in
       if normalizeCandidate (take (e' - start) (drop start s)) = ''[[SEND]]'' then Some e' else double_loop s start e'
     else None)"
  by pat_completeness auto
termination
proof (relation "measure (\<lambda>(s, start, e). length s - e)")
  fix s :: string and start e e' :: nat
  assume "e < length s \<and> e - start \<le> 80" "e' = e + snd (decodeRune (drop e s))"
  then show "((s, start, e'), s, start, e) \<in> measure (\<lambda>(s, start, e). length s - e)"
    using utf8_decode_width_pos [of "drop e s"] by (auto simp: decodeRune_def)
qed simp

declare double_loop.simps [simp del]

definition doubleMarkerEnd :: "string \<Rightarrow> nat \<Rightarrow> nat option" where
  "doubleMarkerEnd s start = (if \<not> isOpenBracketAt s start then None else double_loop s start start)"

text \<open>\<open>singleMarkerLineEnd\<close>: the quote and list wrappers of a line are peeled off.\<close>

definition list_item :: "string \<Rightarrow> bool" where
  "list_item line \<longleftrightarrow> length line \<ge> 2 \<and> (line ! 0 = CHR ''-'' \<or> line ! 0 = CHR ''*'' \<or> line ! 0 = CHR ''+'') \<and> (line ! 1 = CHR '' '' \<or> line ! 1 = CHR 0x09)"

lemma length_trim_space_le: "length (trim_space s) \<le> length s"
proof -
  obtain pre post where "chunks s = pre @ strip_chunks (chunks s) @ post" using strip_chunks_part by blast
  then have "s = unchunk pre @ trim_space s @ unchunk post"
    using unchunk_chunks [of s] by (metis trim_space_def unchunk_simps(3))
  then show ?thesis by (metis length_append le_add1 le_add2 le_trans)
qed

function peel_line :: "string \<Rightarrow> string" where
  "peel_line line = (if has_prefix line ''>'' then peel_line (trim_space (trim_prefix line ''>''))
     else if list_item line then peel_line (trim_space (drop 2 line)) else line)"
  by pat_completeness auto
termination
proof (relation "measure length")
  fix line :: string assume "has_prefix line ''>''"
  then have "length (trim_prefix line ''>'') < length line" by (auto simp: has_prefix_iff trim_prefix_def)
  then show "(trim_space (trim_prefix line ''>''), line) \<in> measure length"
    using length_trim_space_le [of "trim_prefix line ''>''"] by simp
next
  fix line :: string assume "list_item line"
  then show "(trim_space (drop 2 line), line) \<in> measure length"
    using length_trim_space_le [of "drop 2 line"] by (simp add: list_item_def) linarith
qed simp

declare peel_line.simps [simp del]

definition line_end :: "string \<Rightarrow> nat \<Rightarrow> nat" where
  "line_end s start = start + length (takeWhile (\<lambda>c. c \<noteq> newline) (drop start s))"

definition singleMarkerLineEnd :: "string \<Rightarrow> nat \<Rightarrow> nat option" where
  "singleMarkerLineEnd s start = (if \<not> atLineStart s start then None else
     let e = line_end s start in
     if normalizeCandidate (peel_line (trim_space (take (e - start) (drop start s)))) = ''[SEND]''
     then Some (if e < length s then e + 1 else e) else None)"

record LexedCompanion =
  SegmenterInput :: string
  StorageText :: string
  Delimiter :: string

definition fence_at :: "string \<Rightarrow> nat \<Rightarrow> bool" where
  "fence_at s i \<longleftrightarrow> atLineStart s i \<and> (has_prefix (drop i s) ''```'' \<or> has_prefix (drop i s) ''~~~'')"

lemma double_loop_bounds: "double_loop s start e = Some e' \<Longrightarrow> e < e' \<and> e' \<le> length s"
proof (induction s start e rule: double_loop.induct)
  case (1 s start e)
  define n where "n = e + snd (decodeRune (drop e s))"
  have g: "e < length s \<and> e - start \<le> 80" using 1(2) by (subst (asm) double_loop.simps) (auto split: if_splits)
  then have "e < n" "n \<le> length s"
    using utf8_decode_width_pos [of "drop e s"] utf8_decode_width_le [of "drop e s"] by (auto simp: decodeRune_def n_def)
  moreover have "e' = n \<or> normalizeCandidate (take (n - start) (drop start s)) \<noteq> ''[[SEND]]'' \<and> double_loop s start n = Some e'"
    using 1(2) g by (subst (asm) double_loop.simps) (auto simp: n_def Let_def split: if_splits)
  ultimately show ?case using 1(1) [OF g, of n] by (auto simp flip: n_def)
qed

lemma doubleMarkerEnd_bounds: "doubleMarkerEnd s i = Some e \<Longrightarrow> i < e \<and> e \<le> length s"
  using double_loop_bounds by (auto simp: doubleMarkerEnd_def split: if_splits)

lemma line_end_bounds: "i \<le> line_end s i \<and> (i \<le> length s \<longrightarrow> line_end s i \<le> length s)"
  using length_takeWhile_le [of "\<lambda>c. c \<noteq> newline" "drop i s"] by (auto simp: line_end_def)

lemma normal_Nil [simp]: "normalizeCandidate [] = []"
  by (simp add: normalizeCandidate_def runes_def)

lemma singleMarkerLineEnd_bounds: "singleMarkerLineEnd s i = Some e \<Longrightarrow> i < length s \<Longrightarrow> i < e \<and> e \<le> length s"
  using line_end_bounds [of i s] by (auto simp: singleMarkerLineEnd_def Let_def split: if_splits)

lemma decodeRune_pos: "i < length s \<Longrightarrow> 0 < snd (decodeRune (drop i s))"
  using utf8_decode_width_pos [of "drop i s"] by (simp add: decodeRune_def)

text \<open>The loop of \<open>LexCompanion\<close>; the fence is None outside a fenced block.\<close>

function lex_loop :: "string \<Rightarrow> string \<Rightarrow> nat \<Rightarrow> string option \<Rightarrow> string \<Rightarrow> string \<Rightarrow> string \<times> string" where
  "lex_loop s delimiter i fence segmenter storage =
     (if length s \<le> i then (segmenter, storage)
      else if fence_at s i then
        let marker = take 3 (drop i s) in
        lex_loop s delimiter (i + 3) (if fence = None then Some marker else if fence = Some marker then None else fence)
          (segmenter @ marker) (storage @ marker)
      else case (if fence = None then singleMarkerLineEnd s i else None) of
        Some e \<Rightarrow> lex_loop s delimiter e fence (segmenter @ delimiter @ [newline]) storage
      | None \<Rightarrow> (case (if fence = None then doubleMarkerEnd s i else None) of
          Some e \<Rightarrow> if oddEscapes s i
            then lex_loop s delimiter e fence (removeLastSlash segmenter @ take (e - i) (drop i s)) (removeLastSlash storage @ take (e - i) (drop i s))
            else lex_loop s delimiter e fence (segmenter @ delimiter) (storage @ [newline])
        | None \<Rightarrow> lex_loop s delimiter (i + snd (decodeRune (drop i s))) fence
            (segmenter @ encode_rune (fst (decodeRune (drop i s)))) (storage @ encode_rune (fst (decodeRune (drop i s))))))"
  by pat_completeness auto
termination
  by (relation "measure (\<lambda>(s, d, i, f, g, t). length s - i)")
    (auto dest: singleMarkerLineEnd_bounds doubleMarkerEnd_bounds intro!: diff_less_mono2 simp: decodeRune_pos split: if_splits)

declare lex_loop.simps [simp del]

text \<open>The random part of the delimiter is an argument.\<close>

definition LexCompanion :: "string \<Rightarrow> string \<Rightarrow> LexedCompanion" where
  "LexCompanion uuid s =
     (let delimiter = CHR 0x1E # ''companion-send:'' @ uuid @ [CHR 0x1F];
          out = lex_loop s delimiter 0 None [] [] in
      \<lparr>SegmenterInput = fst out, StorageText = snd out, Delimiter = delimiter\<rparr>)"

section \<open>Splitting\<close>

definition isStop :: "nat \<Rightarrow> bool" where
  "isStop r \<longleftrightarrow> r \<in> set [12290, 65281, 65311, 33, 63, 46, 44, 65292, 12289, 59, 65307, 32]"

text \<open>\<open>hardSplit\<close>: the loop looks backwards from \<open>maxRunes - 1\<close> to \<open>maxRunes/2\<close> for a punctuation mark.\<close>

fun cut_before :: "nat \<Rightarrow> nat list \<Rightarrow> nat \<Rightarrow> nat \<Rightarrow> nat" where
  "cut_before lo rs fuel i = (if i < lo then fuel else if isStop (rs ! i) then i + 1
     else (case i of 0 \<Rightarrow> fuel | Suc j \<Rightarrow> cut_before lo rs fuel j))"

definition cut_at :: "nat \<Rightarrow> nat list \<Rightarrow> nat" where
  "cut_at maxRunes rs = cut_before (maxRunes div 2) rs maxRunes (maxRunes - 1)"

lemma cut_before_bounds: "i < fuel \<Longrightarrow> 0 < cut_before lo rs fuel i \<and> cut_before lo rs fuel i \<le> fuel"
  by (induction i) (auto simp: less_Suc_eq split: nat.split)

lemma cut_at_bounds: "0 < maxRunes \<Longrightarrow> 0 < cut_at maxRunes rs \<and> cut_at maxRunes rs \<le> maxRunes"
  unfolding cut_at_def by (rule cut_before_bounds) simp

function hard_loop :: "nat \<Rightarrow> nat list \<Rightarrow> string list" where
  "hard_loop maxRunes rs = (if maxRunes = 0 \<or> length rs \<le> maxRunes then (let tail = trim_space (utf8 rs) in if tail \<noteq> [] then [tail] else [])
     else trim_space (utf8 (take (cut_at maxRunes rs) rs)) # hard_loop maxRunes (drop (cut_at maxRunes rs) rs))"
  by pat_completeness auto
termination
proof (relation "measure (\<lambda>(m, rs). length rs)")
  fix m :: nat and rs :: "nat list" assume "\<not> (m = 0 \<or> length rs \<le> m)"
  then show "((m, drop (cut_at m rs) rs), m, rs) \<in> measure (\<lambda>(m, rs). length rs)"
    using cut_at_bounds [of m rs] by simp linarith
qed simp

declare hard_loop.simps [simp del]

definition hardSplit :: "string \<Rightarrow> nat \<Rightarrow> string list" where
  "hardSplit s maxRunes = (if length (runes s) \<le> maxRunes then [s] else hard_loop maxRunes (runes s))"

fun merge_loop :: "nat \<Rightarrow> nat \<Rightarrow> string list \<Rightarrow> string list \<Rightarrow> string list" where
  "merge_loop minRunes maxRunes result [] = result"
| "merge_loop minRunes maxRunes result (s # ss) =
     (if result \<noteq> [] \<and> rune_count s < minRunes \<and> rune_count (last result @ '' '' @ s) \<le> maxRunes
      then merge_loop minRunes maxRunes (butlast result @ [last result @ '' '' @ s]) ss
      else merge_loop minRunes maxRunes (result @ [s]) ss)"

definition mergeShortSegments :: "string list \<Rightarrow> nat \<Rightarrow> nat \<Rightarrow> string list" where
  "mergeShortSegments segments minRunes maxRunes = merge_loop minRunes maxRunes [] segments"

definition splitAndBound :: "string list \<Rightarrow> string list" where
  "splitAndBound ps = mergeShortSegments
     (concat (map (\<lambda>part. let t = trim_space part in if t \<noteq> [] then hardSplit t 80 else []) ps)) 2 80"

text \<open>\<open>splitParagraphs\<close>: cut at the first pair of newlines and skip all newlines after it.\<close>

function splitParagraphs :: "string \<Rightarrow> string list" where
  "splitParagraphs s = (case index_of s [newline, newline] of
       None \<Rightarrow> [s]
     | Some i \<Rightarrow> take i s # splitParagraphs (dropWhile (\<lambda>c. c = newline) (drop i s)))"
  by pat_completeness auto
termination
proof (relation "measure length")
  fix s i assume "index_of s [newline, newline] = Some i"
  then obtain t u where s: "s = t @ [newline, newline] @ u" "length t = i" using index_of_Some by fastforce
  have "length (dropWhile (\<lambda>c. c = newline) (drop i s)) \<le> length u" using s by (simp add: length_dropWhile_le)
  then show "(dropWhile (\<lambda>c. c = newline) (drop i s), s) \<in> measure length" using s by simp
qed simp

declare splitParagraphs.simps [simp del]

text \<open>\<open>splitSentences\<close> over the runes, with the sentence begun so far.\<close>

definition sentence_end :: "nat \<Rightarrow> nat list \<Rightarrow> bool" where
  "sentence_end r rest \<longleftrightarrow> r = 12290 \<or> r = 65281 \<or> r = 65311 \<or> r = 33 \<or> r = 63 \<or> (r = 46 \<and> (rest = [] \<or> hd rest = 32))"

fun sentence_loop :: "nat list \<Rightarrow> nat list \<Rightarrow> string list" where
  "sentence_loop current [] = (if current = [] then [] else [utf8 current])"
| "sentence_loop current (r # rest) =
     (if sentence_end r rest then utf8 (current @ [r]) # sentence_loop [] rest else sentence_loop (current @ [r]) rest)"

definition splitSentences :: "string \<Rightarrow> string list" where
  "splitSentences s = sentence_loop [] (runes s)"

text \<open>\<open>strings.Split\<close> for a non-empty separator.\<close>

function split_on :: "string \<Rightarrow> string \<Rightarrow> string list" where
  "split_on sep s = (if sep = [] then [s] else case index_of s sep of
       None \<Rightarrow> [s]
     | Some i \<Rightarrow> take i s # split_on sep (drop (i + length sep) s))"
  by pat_completeness auto
termination
proof (relation "measure (\<lambda>(sep, s). length s)")
  fix sep s :: string and i assume "sep \<noteq> []" "index_of s sep = Some i"
  then obtain t u where "s = t @ sep @ u" "length t = i" using index_of_Some by fastforce
  then show "((sep, drop (i + length sep) s), (sep, s)) \<in> measure (\<lambda>(sep, s). length s)" using \<open>sep \<noteq> []\<close> by simp
qed simp

declare split_on.simps [simp del]

definition SplitCompanion :: "string \<Rightarrow> string \<Rightarrow> string list" where
  "SplitCompanion input0 delimiter =
     (let input = trim_space input0 in
      if input = [] then []
      else if contains input delimiter then splitAndBound (split_on delimiter input)
      else let ps = splitParagraphs input;
               segments = splitAndBound (if length ps = 1 \<and> rune_count input > 80 then splitSentences input else ps) in
        if length segments > 3 then [input] else segments)"

section \<open>What splitting keeps\<close>

text \<open>
  The visible runes of a string are those that are no white space. A cut next to an ASCII byte cuts no rune, so
  the visible runes of a string are those of its parts.
\<close>

definition visible :: "string \<Rightarrow> nat list" where
  "visible s = filter (\<lambda>r. \<not> is_space r) (runes s)"

lemma utf8_decode_before_ascii: "byte_val c < 128 \<Longrightarrow> s \<noteq> [] \<Longrightarrow> utf8_decode (s @ c # t) = utf8_decode s"
  by (auto simp: utf8_decode_def Let_def second_lo_def is_cont_def neq_Nil_conv append_eq_Cons_conv split: list.splits if_splits)

lemma chunks_before_ascii: "byte_val c < 128 \<Longrightarrow> chunks (s @ c # t) = chunks s @ chunks (c # t)"
proof (induction s rule: length_induct)
  case (1 s)
  show ?case
  proof (cases "s = []")
    case False
    define n where "n = snd (utf8_decode s)"
    have n: "0 < n" "n \<le> length s" using utf8_decode_width_pos utf8_decode_width_le False by (auto simp: n_def)
    have d: "utf8_decode (s @ c # t) = utf8_decode s" by (rule utf8_decode_before_ascii) (use 1 False in auto)
    have "chunks (drop n s @ c # t) = chunks (drop n s) @ chunks (c # t)" using 1 n by simp
    then show ?thesis using False n
      by (subst chunks.simps, subst (2) chunks.simps) (simp add: d Let_def n_def [symmetric])
  qed simp
qed

lemma chunks_ascii_Cons: "byte_val c < 128 \<Longrightarrow> chunks (c # t) = (byte_val c, [c]) # chunks t"
  by (subst chunks.simps) (simp add: utf8_decode_def Let_def)

lemma visible_Nil [simp]: "visible [] = []"
  by (simp add: visible_def runes_def)

lemma visible_before_ascii: "byte_val c < 128 \<Longrightarrow> visible (s @ c # t) = visible s @ visible (c # t)"
  by (simp add: visible_def runes_def chunks_before_ascii)

lemma visible_space_Cons: "byte_val c < 128 \<Longrightarrow> is_space (byte_val c) \<Longrightarrow> visible (c # t) = visible t"
  by (simp add: visible_def runes_def chunks_ascii_Cons)

lemma visible_newline [simp]: "visible (newline # t) = visible t"
  by (rule visible_space_Cons) (simp_all add: byte_val_def is_space_def)

lemma visible_blank [simp]: "visible (s @ CHR '' '' # t) = visible s @ visible t"
  by (subst visible_before_ascii) (simp_all add: visible_space_Cons byte_val_def is_space_def)

lemma visible_trim_space [simp]: "visible (trim_space s) = visible s"
proof -
  obtain pre post where c: "chunks s = pre @ strip_chunks (chunks s) @ post"
    and sp: "\<forall>c \<in> set pre. is_space (fst c)" "\<forall>c \<in> set post. is_space (fst c)" using strip_chunks_part [of "chunks s"] by blast
  have e: "filter (\<lambda>r. \<not> is_space r) (map fst pre) = []" "filter (\<lambda>r. \<not> is_space r) (map fst post) = []" using sp by (auto simp: filter_empty_conv)
  have "visible s = filter (\<lambda>r. \<not> is_space r) (map fst (pre @ strip_chunks (chunks s) @ post))"
    unfolding visible_def runes_def by (subst c) (rule refl)
  then show ?thesis by (simp add: e) (simp add: visible_def runes_def chunks_trim_space)
qed

lemma visible_utf8: "(\<And>r. r \<in> set rs \<Longrightarrow> scalar r) \<Longrightarrow> visible (utf8 rs) = filter (\<lambda>r. \<not> is_space r) rs"
  by (simp add: visible_def runes_utf8)

lemma hard_loop_visible: "(\<And>r. r \<in> set rs \<Longrightarrow> scalar r) \<Longrightarrow> concat (map visible (hard_loop n rs)) = filter (\<lambda>r. \<not> is_space r) rs"
proof (induction n rs rule: hard_loop.induct)
  case (1 n rs)
  show ?case
  proof (cases "n = 0 \<or> length rs \<le> n")
    case True
    moreover have "trim_space (utf8 rs) = [] \<Longrightarrow> visible (utf8 rs) = []" by (metis visible_trim_space visible_Nil)
    ultimately show ?thesis using 1(2) visible_utf8 [of rs] by (subst hard_loop.simps) (auto simp: Let_def)
  next
    case False
    let ?k = "cut_at n rs"
    have "concat (map visible (hard_loop n (drop ?k rs))) = filter (\<lambda>r. \<not> is_space r) (drop ?k rs)"
      by (rule 1(1) [OF False]) (meson 1(2) in_set_dropD)
    moreover have "visible (utf8 (take ?k rs)) = filter (\<lambda>r. \<not> is_space r) (take ?k rs)"
      by (rule visible_utf8) (meson 1(2) in_set_takeD)
    ultimately show ?thesis using False
      by (subst hard_loop.simps) (simp flip: filter_append)
  qed
qed

lemma hardSplit_visible: "concat (map visible (hardSplit s n)) = visible s"
  by (simp add: hardSplit_def hard_loop_visible runes_scalar visible_def)

lemma merge_loop_visible: "concat (map visible (merge_loop a b result ss)) = concat (map visible result) @ concat (map visible ss)"
proof (induction a b result ss rule: merge_loop.induct)
  case (2 a b result s ss)
  have "result \<noteq> [] \<Longrightarrow> concat (map visible (butlast result @ [last result @ '' '' @ s])) = concat (map visible result) @ visible s"
    by (cases result rule: rev_cases) auto
  moreover have "concat (map visible (result @ [s])) = concat (map visible result) @ visible s" by simp
  ultimately show ?case using 2 by (auto simp del: map_append)
qed simp

lemma splitAndBound_visible: "concat (map visible (splitAndBound ps)) = concat (map visible ps)"
proof -
  have e: "concat (map visible (let t = trim_space p in if t \<noteq> [] then hardSplit t 80 else [])) = visible p" for p
    by (cases "trim_space p = []") (use visible_trim_space [of p] in \<open>auto simp: hardSplit_visible simp del: visible_trim_space\<close>)
  have "concat (map visible (concat (map (\<lambda>p. let t = trim_space p in if t \<noteq> [] then hardSplit t 80 else []) ps))) = concat (map visible ps)"
    by (induction ps) (simp_all add: e)
  then show ?thesis by (simp add: splitAndBound_def mergeShortSegments_def merge_loop_visible)
qed

lemma visible_dropWhile_newline: "visible (dropWhile (\<lambda>c. c = newline) s) = visible s"
  by (induction s) auto

lemma splitParagraphs_visible: "concat (map visible (splitParagraphs s)) = visible s"
proof (induction s rule: splitParagraphs.induct)
  case (1 s)
  show ?case
  proof (cases "index_of s [newline, newline]")
    case None
    then show ?thesis by (subst splitParagraphs.simps) simp
  next
    case (Some i)
    then obtain t u where s: "s = t @ newline # newline # u" "length t = i" using index_of_Some by fastforce
    have "visible s = visible t @ visible (drop i s)"
      unfolding s(1) using s(2) by (subst visible_before_ascii) (simp_all add: byte_val_def)
    then show ?thesis using 1 [OF Some] Some s
      by (subst splitParagraphs.simps) (simp add: visible_dropWhile_newline)
  qed
qed

lemma sentence_loop_visible: "(\<And>r. r \<in> set (current @ rs) \<Longrightarrow> scalar r) \<Longrightarrow>
    concat (map visible (sentence_loop current rs)) = filter (\<lambda>r. \<not> is_space r) (current @ rs)"
proof (induction current rs rule: sentence_loop.induct)
  case (1 current)
  then show ?case using visible_utf8 [of current] by auto
next
  case (2 current r rest)
  have "visible (utf8 (current @ [r])) = filter (\<lambda>r. \<not> is_space r) (current @ [r])"
    by (rule visible_utf8) (use 2(3) in auto)
  then show ?case using 2 by (cases "sentence_end r rest") auto
qed

lemma splitSentences_visible: "concat (map visible (splitSentences s)) = visible s"
  using sentence_loop_visible [of "[]" "runes s"] runes_scalar [of _ s] by (simp add: splitSentences_def visible_def)

section \<open>How long segments are\<close>

lemma rune_count_part: "rs = utf8 ss \<Longrightarrow> (\<And>r. r \<in> set ss \<Longrightarrow> scalar r) \<Longrightarrow> rune_count (trim_space rs) \<le> length ss"
  using rune_count_trim_space_le [of rs] by (simp add: rune_count_utf8)

lemma hard_loop_bounded: "(\<And>r. r \<in> set rs \<Longrightarrow> scalar r) \<Longrightarrow> 0 < n \<Longrightarrow> x \<in> set (hard_loop n rs) \<Longrightarrow> rune_count x \<le> n"
proof (induction n rs rule: hard_loop.induct)
  case (1 n rs)
  let ?k = "cut_at n rs"
  show ?case
  proof (cases "length rs \<le> n")
    case True
    then show ?thesis using 1(4) rune_count_part [OF refl, of rs] 1(2) by (subst (asm) hard_loop.simps) (fastforce simp: Let_def split: if_splits)
  next
    case False
    have "rune_count (trim_space (utf8 (take ?k rs))) \<le> length (take ?k rs)"
      by (rule rune_count_part [OF refl]) (meson 1(2) in_set_takeD)
    then have "rune_count (trim_space (utf8 (take ?k rs))) \<le> n" using cut_at_bounds [OF 1(3), of rs] by simp
    moreover have "x = trim_space (utf8 (take ?k rs)) \<or> x \<in> set (hard_loop n (drop ?k rs))"
      using 1(4) False 1(3) by (subst (asm) hard_loop.simps) auto
    moreover have "rune_count x \<le> n" if "x \<in> set (hard_loop n (drop ?k rs))"
      by (rule 1(1)) (use False 1(2,3) that in \<open>auto dest: in_set_dropD\<close>)
    ultimately show ?thesis by blast
  qed
qed

lemma hardSplit_bounded: "0 < n \<Longrightarrow> x \<in> set (hardSplit s n) \<Longrightarrow> rune_count x \<le> n"
  by (auto simp: hardSplit_def dest: hard_loop_bounded [rotated 2] runes_scalar split: if_splits)

lemma merge_loop_bounded: "x \<in> set (merge_loop a n result ss) \<Longrightarrow> (\<And>y. y \<in> set result \<union> set ss \<Longrightarrow> rune_count y \<le> n) \<Longrightarrow> rune_count x \<le> n"
proof (induction a n result ss rule: merge_loop.induct)
  case (2 a n result s ss)
  show ?case
  proof (cases "result \<noteq> [] \<and> rune_count s < a \<and> rune_count (last result @ '' '' @ s) \<le> n")
    case True
    then show ?thesis using 2(1) 2(3,4) by (auto dest: in_set_butlastD)
  next
    case False
    then show ?thesis using 2(2) 2(3,4) by auto
  qed
qed auto

lemma splitAndBound_bounded: "x \<in> set (splitAndBound ps) \<Longrightarrow> rune_count x \<le> 80"
  unfolding splitAndBound_def mergeShortSegments_def
  by (erule merge_loop_bounded) (auto simp: Let_def dest: hardSplit_bounded [rotated] split: if_splits)

section \<open>Text without markers\<close>

text \<open>Encoding inverts the decoding of a valid rune.\<close>

lemma encode_two: "194 \<le> a \<Longrightarrow> a < 224 \<Longrightarrow> 128 \<le> b \<Longrightarrow> b < 192 \<Longrightarrow> encode_rune ((a - 192) * 64 + (b - 128)) = [mk_byte a, mk_byte b]"
proof -
  assume h: "194 \<le> a" "a < 224" "128 \<le> b" "b < 192"
  define x y where "x = a - 192" and "y = b - 128"
  have "2 \<le> x" "x < 32" "y < 64" "a = 192 + x" "b = 128 + y" using h by (auto simp: x_def y_def)
  moreover from this have "128 \<le> x * 64 + y" "x * 64 + y < 2048" by linarith+
  ultimately show ?thesis by (simp add: encode_rune_def scalar_def)
qed

lemma encode_three:
  assumes "a < 16" "b < 64" "c < 64" "a = 0 \<Longrightarrow> 32 \<le> b" "a = 13 \<Longrightarrow> b < 32"
  shows "encode_rune (a * 4096 + b * 64 + c) = [mk_byte (224 + a), mk_byte (128 + b), mk_byte (128 + c)]"
proof -
  let ?r = "a * 4096 + b * 64 + c"
  have q: "?r div 64 = a * 64 + b" using assms by simp
  have "?r div 4096 = ?r div 64 div 64" by (simp add: div_mult2_eq [of ?r 64 64, simplified])
  then have "?r div 4096 = a" using assms unfolding q by simp
  moreover have "2048 \<le> ?r" "?r < 65536" using assms by (cases "a = 0"; linarith)+
  moreover have "scalar ?r"
  proof (cases "a = 13")
    case False
    then consider "a < 13" | "13 < a" by linarith
    then show ?thesis by cases (use assms in \<open>auto simp: scalar_def\<close>)
  qed (use assms in \<open>simp add: scalar_def\<close>)
  moreover have "?r = c + 64 * (a * 64 + b)" by simp
  then have "?r mod 64 = c" using assms(3) by (metis mod_less mod_mult_self2)
  ultimately show ?thesis using assms by (simp add: encode_rune_def q)
qed

lemma encode_four:
  assumes "a < 5" "b < 64" "c < 64" "d < 64" "a = 0 \<Longrightarrow> 16 \<le> b" "a = 4 \<Longrightarrow> b < 16"
  shows "encode_rune (a * 262144 + b * 4096 + c * 64 + d) = [mk_byte (240 + a), mk_byte (128 + b), mk_byte (128 + c), mk_byte (128 + d)]"
proof -
  let ?r = "a * 262144 + b * 4096 + c * 64 + d"
  have q: "?r div 64 = a * 4096 + b * 64 + c" using assms by simp
  have "?r div 4096 = ?r div 64 div 64" by (simp add: div_mult2_eq [of ?r 64 64, simplified])
  then have p: "?r div 4096 = a * 64 + b" using assms unfolding q by simp
  have "?r div 262144 = ?r div 4096 div 64" by (simp add: div_mult2_eq [of ?r 4096 64, simplified])
  then have "?r div 262144 = a" using assms unfolding p by simp
  moreover have "65536 \<le> ?r" using assms by (cases "a = 0"; linarith)
  moreover have "?r \<le> 1114111" using assms by (cases "a = 4"; linarith)
  moreover have "?r = d + 64 * (a * 4096 + b * 64 + c)" by simp
  then have "?r mod 64 = d" using assms(4) by (metis mod_less mod_mult_self2)
  moreover have "a * 4096 + b * 64 + c = c + 64 * (a * 64 + b)" by simp
  then have "(a * 4096 + b * 64 + c) mod 64 = c" using assms(3) by (metis mod_less mod_mult_self2)
  ultimately show ?thesis using assms by (simp add: encode_rune_def scalar_def q p)
qed

lemma decode_valid:
  assumes "utf8_decode s = (r, n)" "s \<noteq> []" "\<not> (r = rune_error \<and> n = 1)"
  shows "take n s = encode_rune r"
proof -
  have sub: "128 \<le> x \<Longrightarrow> x \<le> 191 \<Longrightarrow> x - 128 < 64" for x :: nat by simp
  obtain c0 t where s: "s = c0 # t" using assms(2) by (cases s) auto
  let ?b0 = "byte_val c0"
  show ?thesis
  proof (cases "?b0 < 128")
    case True
    then show ?thesis using assms s by (auto simp: utf8_decode_def encode_rune_def scalar_def)
  next
    case False
    then have lead: "194 \<le> ?b0" "?b0 \<le> 244" using assms s by (auto simp: utf8_decode_def Let_def split: if_splits)
    from assms s False lead obtain c1 t1 where t: "t = c1 # t1" by (cases t) (auto simp: utf8_decode_def)
    let ?b1 = "byte_val c1"
    have b1: "second_lo ?b0 \<le> ?b1" "?b1 \<le> second_hi ?b0" using assms s t False lead by (auto simp: utf8_decode_def Let_def not_less split: if_splits)
    then have b1': "128 \<le> ?b1" "?b1 \<le> 191" by (auto simp: second_lo_def second_hi_def split: if_splits)
    show ?thesis
    proof (cases "?b0 < 224")
      case True
      then have "r = (?b0 - 192) * 64 + (?b1 - 128)" "n = 2" using assms(1) s t False lead b1 by (auto simp: utf8_decode_def Let_def not_less)
      then show ?thesis using encode_two [of ?b0 ?b1] True lead b1' s t by simp
    next
      case w3: False
      from assms s t False lead b1 w3 obtain c2 t2 where t1: "t1 = c2 # t2" by (cases t1) (auto simp: utf8_decode_def)
      let ?b2 = "byte_val c2"
      have b2: "is_cont ?b2" using assms s t t1 False lead b1 w3 by (auto simp: utf8_decode_def Let_def not_less split: if_splits)
      then have b2': "128 \<le> ?b2" "?b2 \<le> 191" by (auto simp: is_cont_def)
      show ?thesis
      proof (cases "?b0 < 240")
        case True
        then have "r = (?b0 - 224) * 4096 + (?b1 - 128) * 64 + (?b2 - 128)" "n = 3"
          using assms(1) s t t1 False lead b1 w3 b2 by (auto simp: utf8_decode_def Let_def not_less)
        moreover have "?b0 - 224 = 0 \<Longrightarrow> 32 \<le> ?b1 - 128" "?b0 - 224 = 13 \<Longrightarrow> ?b1 - 128 < 32"
          using b1 w3 by (auto simp: second_lo_def second_hi_def split: if_splits)
        ultimately show ?thesis using encode_three [of "?b0 - 224" "?b1 - 128" "?b2 - 128"] True w3 b1' b2' s t t1 by (simp add: numeral_3_eq_3)
      next
        case w4: False
        from assms s t t1 False lead b1 w3 b2 w4 obtain c3 t3 where t2: "t2 = c3 # t3" by (cases t2) (auto simp: utf8_decode_def)
        let ?b3 = "byte_val c3"
        have b3: "is_cont ?b3" using assms s t t1 t2 False lead b1 w3 b2 w4 by (auto simp: utf8_decode_def Let_def not_less split: if_splits)
        then have b3': "128 \<le> ?b3" "?b3 \<le> 191" by (auto simp: is_cont_def)
        have "r = (?b0 - 240) * 262144 + (?b1 - 128) * 4096 + (?b2 - 128) * 64 + (?b3 - 128)" "n = 4"
          using assms(1) s t t1 t2 False lead b1 w3 b2 w4 b3 by (auto simp: utf8_decode_def Let_def not_less)
        moreover have "?b0 - 240 = 0 \<Longrightarrow> 16 \<le> ?b1 - 128" "?b0 - 240 = 4 \<Longrightarrow> ?b1 - 128 < 16"
          using b1 w4 by (auto simp: second_lo_def second_hi_def split: if_splits)
        ultimately show ?thesis using encode_four [of "?b0 - 240" "?b1 - 128" "?b2 - 128" "?b3 - 128"] lead w4 b1' b2' b3' s t t1 t2
          by (simp add: take_Cons')
      qed
    qed
  qed
qed

text \<open>A text is free of markers when it has none of the four opening brackets.\<close>

definition open_brackets :: "nat list" where
  "open_brackets = [91, 65339, 12304, 12308]"

definition marker_free :: "string \<Rightarrow> bool" where
  "marker_free s \<longleftrightarrow> list_all (\<lambda>b. \<not> contains s (encode_rune b)) open_brackets"

lemma contains_trans: "contains s t \<Longrightarrow> contains t u \<Longrightarrow> contains s u"
  by (auto simp: contains_iff) (metis append.assoc)

lemma contains_part [simp]: "contains s (drop n s)" "contains s (take n s)"
  unfolding contains_iff by (metis append_take_drop_id append_Nil2, metis append_take_drop_id append_Nil)

lemma contains_trim_space: "contains s (trim_space s)"
proof -
  obtain pre post where "chunks s = pre @ strip_chunks (chunks s) @ post" using strip_chunks_part by blast
  then have "s = unchunk pre @ trim_space s @ unchunk post"
    using unchunk_chunks [of s] by (metis trim_space_def unchunk_simps(3))
  then show ?thesis unfolding contains_iff by blast
qed

lemma contains_refl [simp]: "contains s s"
  unfolding contains_iff by (metis append_Nil append_Nil2)

lemma contains_trim_prefix: "contains s (trim_space (trim_prefix s p))"
  by (rule contains_trans [OF _ contains_trim_space]) (simp add: trim_prefix_def)

lemma contains_peel_line: "contains line (peel_line line)"
proof (induction line rule: peel_line.induct)
  case (1 line)
  have d: "contains line (trim_space (drop 2 line))" by (rule contains_trans [OF _ contains_trim_space]) simp
  show ?case using 1 contains_trans [OF contains_trim_prefix [of line "''>''"]] contains_trans [OF d]
    by (subst peel_line.simps) auto
qed

lemma encode_91 [simp]: "encode_rune 91 = ''[''"
  using mk_byte_byte_val [of "CHR ''[''"] by (simp add: encode_rune_def scalar_def byte_val_def)

lemma contains_has_prefix: "has_prefix s b \<Longrightarrow> contains s b"
  unfolding contains_iff has_prefix_iff by (metis append_Nil)

lemma contains_tail: "contains s b \<Longrightarrow> contains (c # s) b"
  unfolding contains_iff by (metis append_Cons)

lemma marker_free_iff: "marker_free s \<longleftrightarrow> (\<forall>b \<in> set open_brackets. \<not> contains s (encode_rune b))"
  by (simp add: marker_free_def list_all_iff)

lemma marker_free_sub: "marker_free s \<Longrightarrow> contains s t \<Longrightarrow> marker_free t"
  using contains_trans by (fastforce simp: marker_free_iff)

lemma bracket_pair_open: "(old, new) \<in> set marker_brackets \<Longrightarrow> CHR ''['' \<in> set new \<Longrightarrow> \<exists>b \<in> set open_brackets. old = encode_rune b"
  by (auto simp: marker_brackets_def open_brackets_def)

lemma replace_pairs_open: "CHR ''['' \<in> set (replace_pairs ps s) \<Longrightarrow> ps = marker_brackets \<Longrightarrow> \<not> marker_free s"
proof (induction ps s rule: replace_pairs.induct)
  case (2 ps c s)
  show ?case
  proof (cases "List.find (\<lambda>(old, new). old \<noteq> [] \<and> has_prefix (c # s) old) ps")
    case None
    then consider "c = CHR ''[''" | "CHR ''['' \<in> set (replace_pairs ps s)" using 2(3) by fastforce
    then show ?thesis
    proof cases
      case 1
      then have "contains (c # s) (encode_rune 91)" by (intro contains_has_prefix) (simp add: has_prefix_iff)
      then show ?thesis by (auto simp: marker_free_iff open_brackets_def)
    next
      case 2
      then show ?thesis using "2.IH"(1) [OF None] "2.prems"(2) marker_free_sub [OF _ contains_tail] by auto
    qed
  next
    case (Some p)
    obtain old new where p: "p = (old, new)" by force
    have m: "(old, new) \<in> set ps" "has_prefix (c # s) old" using Some p by (auto simp: find_Some_iff in_set_conv_nth)
    have "CHR ''['' \<in> set new \<or> CHR ''['' \<in> set (replace_pairs ps (drop (length old) (c # s)))" using "2.prems"(1) Some p by auto
    then show ?thesis
    proof
      assume "CHR ''['' \<in> set new"
      then show ?thesis using bracket_pair_open [of old new] m "2.prems"(2) contains_has_prefix by (auto simp: marker_free_iff)
    next
      assume "CHR ''['' \<in> set (replace_pairs ps (drop (length old) (c # s)))"
      then have "\<not> marker_free (drop (length old) (c # s))" using "2.IH"(2) [OF Some p [symmetric]] "2.prems"(2) by blast
      then show ?thesis using marker_free_sub contains_part(1) by blast
    qed
  qed
qed simp

lemma marker_free_ascii: "list_all (\<lambda>c. byte_val c < 128) s \<Longrightarrow> CHR ''['' \<notin> set s \<Longrightarrow> marker_free s"
proof -
  assume a: "list_all (\<lambda>c. byte_val c < 128) s" "CHR ''['' \<notin> set s"
  have sub: "contains s p \<Longrightarrow> c \<in> set p \<Longrightarrow> c \<in> set s" for c p by (auto simp: contains_iff)
  have "\<exists>c \<in> set (encode_rune b). c = CHR ''['' \<or> 128 \<le> byte_val c" if "b \<in> set open_brackets" for b
    using that encode_91 by (auto simp: open_brackets_def encode_rune_def scalar_def)
  then show ?thesis using a sub by (fastforce simp: marker_free_iff list_all_iff)
qed

lemma rune_91: "91 \<in> set (runes s) \<Longrightarrow> CHR ''['' \<in> set s"
proof (induction s rule: chunks.induct)
  case (1 s)
  show ?case
  proof (cases "s = []")
    case False
    define n where "n = snd (utf8_decode s)"
    have r: "runes s = fst (utf8_decode s) # runes (drop n s)" using False by (subst runes_def, subst chunks.simps) (simp add: runes_def n_def)
    show ?thesis
    proof (cases "fst (utf8_decode s) = 91")
      case True
      then have "take n s = ''[''" using decode_valid [of s 91 n] False by (simp add: n_def prod_eq_iff)
      then show ?thesis by (metis in_set_takeD list.set_intros(1))
    next
      case other: False
      then show ?thesis using 1 False r by (auto simp: n_def dest: in_set_dropD)
    qed
  qed (use 1 in \<open>simp add: runes_def\<close>)
qed

lemma to_upper_scalar: "scalar r \<Longrightarrow> scalar (to_upper r)"
  by (auto simp: to_upper_def scalar_def)

lemma marker_candidate_open:
  assumes "normalizeCandidate s = ''['' @ x" shows "\<not> marker_free s"
proof -
  let ?rs = "filter (\<lambda>r. \<not> marker_ignored r) (runes (replace_pairs marker_brackets s))"
  have sc: "\<forall>r \<in> set (map to_upper ?rs). scalar r" using runes_scalar to_upper_scalar by auto
  have "runes (CHR ''['' # x) = 91 # runes x" by (simp add: runes_def chunks_ascii_Cons byte_val_def)
  then have "map to_upper ?rs = 91 # runes x"
    using assms runes_utf8 [of "map to_upper ?rs"] sc by (simp add: normalizeCandidate_def)
  then have "91 \<in> to_upper ` set ?rs" by (metis list.set_intros(1) list.set_map)
  then obtain r where "r \<in> set (runes (replace_pairs marker_brackets s))" "to_upper r = 91" by auto
  then have "91 \<in> set (runes (replace_pairs marker_brackets s))" by (auto simp: to_upper_def split: if_splits)
  then show ?thesis using rune_91 replace_pairs_open [OF _ refl] by blast
qed

lemma no_single_marker: "marker_free s \<Longrightarrow> singleMarkerLineEnd s i = None"
proof -
  assume m: "marker_free s"
  let ?l = "take (line_end s i - i) (drop i s)"
  have "contains s ?l" using contains_trans [of s "drop i s"] by simp
  then have "contains s (peel_line (trim_space ?l))" using contains_trans contains_trim_space contains_peel_line by blast
  then have "normalizeCandidate (peel_line (trim_space ?l)) \<noteq> ''[SEND]''"
    using marker_candidate_open [of _ "''SEND]''"] marker_free_sub [OF m] by force
  then show ?thesis by (simp add: singleMarkerLineEnd_def Let_def)
qed

lemma no_double_marker: "marker_free s \<Longrightarrow> doubleMarkerEnd s i = None"
proof -
  assume m: "marker_free s"
  have "\<not> isOpenBracketAt s i"
  proof
    assume h: "isOpenBracketAt s i"
    define r n where "r = fst (utf8_decode (drop i s))" and "n = snd (utf8_decode (drop i s))"
    have ne: "drop i s \<noteq> []" and r: "r \<in> set open_brackets"
      using h by (auto simp: isOpenBracketAt_def decodeRune_def open_brackets_def r_def split: if_splits)
    then have "take n (drop i s) = encode_rune r" by (intro decode_valid) (auto simp: r_def n_def open_brackets_def)
    then have "contains s (encode_rune r)" using contains_trans [of s "drop i s"] by (metis contains_part)
    then show False using m r by (auto simp: marker_free_iff)
  qed
  then show ?thesis by (simp add: doubleMarkerEnd_def)
qed

lemma valid_drop_rune: "valid_string s \<Longrightarrow> s \<noteq> [] \<Longrightarrow>
    encode_rune (fst (utf8_decode s)) = take (snd (utf8_decode s)) s \<and> valid_string (drop (snd (utf8_decode s)) s)"
proof -
  assume v: "valid_string s" and ne: "s \<noteq> []"
  have c: "chunks s = (fst (utf8_decode s), take (snd (utf8_decode s)) s) # chunks (drop (snd (utf8_decode s)) s)"
    using ne by (subst chunks.simps) simp
  have "\<not> (fst (utf8_decode s) = rune_error \<and> snd (utf8_decode s) = 1)"
    using v ne by (auto simp: valid_string_def c Suc_le_eq)
  then show ?thesis using v decode_valid [of s "fst (utf8_decode s)" "snd (utf8_decode s)"] ne by (auto simp: valid_string_def c)
qed

lemma valid_drop_fence: "valid_string (x # y # z # t) \<Longrightarrow> byte_val x < 128 \<Longrightarrow> byte_val y < 128 \<Longrightarrow> byte_val z < 128 \<Longrightarrow> valid_string t"
  by (simp add: valid_string_def chunks_ascii_Cons)

lemma lex_loop_free:
  "marker_free s \<Longrightarrow> valid_string (drop i s) \<Longrightarrow> lex_loop s d i fence g t = (g @ drop i s, t @ drop i s)"
proof (induction s d i fence g t rule: lex_loop.induct)
  case (1 s d i fence g t)
  show ?case
  proof (cases "length s \<le> i")
    case True
    then show ?thesis by (subst lex_loop.simps) simp
  next
    case l: False
    show ?thesis
    proof (cases "fence_at s i")
      case True
      then obtain x u where x: "drop i s = [x, x, x] @ u" "byte_val x < 128"
        by (fastforce simp: fence_at_def has_prefix_iff byte_val_def)
      then have u: "drop (i + 3) s = u" by (metis add.commute drop_drop append_eq_conv_conj length_Cons list.size(3) numeral_3_eq_3)
      then have "valid_string (drop (i + 3) s)" using 1(7) x valid_drop_fence by simp
      moreover have m: "take 3 (drop i s) = [x, x, x]" using x by (simp add: numeral_3_eq_3)
      ultimately have "lex_loop s d (i + 3) (if fence = None then Some [x, x, x] else if fence = Some [x, x, x] then None else fence)
          (g @ [x, x, x]) (t @ [x, x, x]) = (g @ drop i s, t @ drop i s)"
        using 1(1) [OF l True refl 1(6)] u x by (simp only: m) simp
      then show ?thesis by (subst lex_loop.simps) (simp only: l True m Let_def if_True if_False simp_thms)
    next
      case f: False
      have n: "(if fence = None then singleMarkerLineEnd s i else None) = None" "(if fence = None then doubleMarkerEnd s i else None) = None"
        using 1(6) by (simp_all add: no_single_marker no_double_marker)
      let ?k = "snd (decodeRune (drop i s))"
      have v: "encode_rune (fst (decodeRune (drop i s))) = take ?k (drop i s)" "valid_string (drop (i + ?k) s)"
        using valid_drop_rune [OF 1(7)] l by (auto simp: decodeRune_def add.commute)
      have "drop i s = take ?k (drop i s) @ drop (i + ?k) s" by (metis append_take_drop_id drop_drop add.commute)
      then show ?thesis using 1(2) [OF l f n 1(6) v(2)] l f n v(1) by (subst lex_loop.simps) simp
    qed
  qed
qed

section \<open>Properties\<close>

text \<open>
  Splitting a companion's text into messages loses and reorders nothing but white space: the visible runes
  of the messages, in order, are those of the text, or those of the parts between the delimiters when the text
  has the delimiter.
\<close>

lemma companion_split_keeps_text:
  "concat (map visible (SplitCompanion input delimiter)) =
     (if contains (trim_space input) delimiter then concat (map visible (split_on delimiter (trim_space input))) else visible input)"
proof (cases "trim_space input = []")
  case True
  then have "visible input = []" using visible_trim_space [of input] by simp
  then show ?thesis using True by (auto simp: SplitCompanion_def contains_Nil split_on.simps)
next
  case False
  then show ?thesis
    by (simp add: SplitCompanion_def Let_def splitAndBound_visible splitParagraphs_visible splitSentences_visible)
qed

text \<open>
  The lexer leaves a valid text without opening brackets as it is, for the segmenter and for storage, fenced
  blocks included.
\<close>

lemma companion_lex_plain:
  "marker_free s \<Longrightarrow> valid_string s \<Longrightarrow> SegmenterInput (LexCompanion uuid s) = s \<and> StorageText (LexCompanion uuid s) = s"
  using lex_loop_free [of s 0 _ None "[]" "[]"] by (simp add: LexCompanion_def Let_def)

lemma companion_lex_plain_witness:
  "SegmenterInput (LexCompanion ''u'' ''~~~ a'') = ''~~~ a''"
proof -
  have "marker_free ''~~~ a''" by (rule marker_free_ascii) (simp_all add: byte_val_def)
  moreover have "valid_string ''~~~ a''" by (simp add: valid_string_def chunks_ascii_Cons byte_val_def)
  ultimately show ?thesis using companion_lex_plain [of "''~~~ a''" "''u''"] by blast
qed


text \<open>
  A long run of blanks inside a text becomes a segment of its own, which is trimmed to the empty string and kept
  when the segment before it is already full: an empty message.
\<close>

lemma cut_before_none: "(\<And>j. lo \<le> j \<Longrightarrow> j \<le> i \<Longrightarrow> \<not> isStop (rs ! j)) \<Longrightarrow> cut_before lo rs fuel i = fuel"
  by (induction i) auto

lemma blank_run_empty_segment:
  "hardSplit (utf8 (replicate 80 120 @ replicate 80 32 @ [98, 98])) 80 ! 1 = []"
proof -
  let ?rs = "replicate 80 120 @ replicate 80 32 @ [98, 98] :: nat list"
  let ?tl = "replicate 80 32 @ [98, 98] :: nat list"
  have "runes (utf8 ?rs) = ?rs" by (rule runes_utf8) (auto simp: scalar_def)
  moreover have "cut_at 80 ?rs = 80" unfolding cut_at_def by (rule cut_before_none) (simp add: nth_append isStop_def)
  moreover have "cut_at 80 ?tl = 80" by (simp add: cut_at_def nth_append isStop_def)
  moreover have "trim_space (utf8 (replicate 80 32)) = []" by (subst trim_space_eq_Nil, subst runes_utf8) (auto simp: scalar_def is_space_def)
  ultimately show ?thesis by (simp add: hardSplit_def hard_loop.simps [of 80 ?rs] hard_loop.simps [of 80 ?tl])
qed

end
