(* ===== verification/Worker_Process.thy ===== *)
theory Worker_Process
  imports Worker_Queue Companion_Output
begin

text \<open>
  How a worker carries out a batch (\<open>process\<close>, \<open>processCompanion\<close>, \<open>processScheduled\<close> and
  \<open>finishScheduled\<close> of \<open>internal/worker/manager.go\<close>, the delivery slot of \<open>delivery.go\<close>) and its loop
  (\<open>run\<close>). What the batch meets while it runs is an argument: the answers of the output and of the lifecycle,
  the processor's result, the claims of a concurrent cancellation. The result is the sequence of calls the worker
  makes. An answer of the output may depend on the calls made before it.
\<close>

section \<open>Interfaces\<close>

definition ErrCanceled :: go_error where
  "ErrCanceled = Sentinel ''context canceled''"

definition ErrDeadlineExceeded :: go_error where
  "ErrDeadlineExceeded = Sentinel ''context deadline exceeded''"

definition ErrWorkflowTrace :: go_error where
  "ErrWorkflowTrace = Sentinel ''companion_delivery_trace_incomplete''"

datatype CompanionSendOutcome = CompanionSent | CompanionRejected | CompanionUnknown | CompanionCancelled

record CompanionSendResult =
  Send_MessageID :: string
  Send_Outcome :: CompanionSendOutcome
  Send_Reason :: string

record ProcessResult =
  Res_DurationMS :: int
  Res_ThreadID :: string
  Res_TurnID :: string
  Res_FinalText :: string

datatype out_call =
    CreateBatchCard Batch
  | UpdateBatchCard string string
  | UpdateBatchCardZones string string string string bool
  | SendBatchText ReplyTarget string
  | SendCompanionSegment ReplyTarget string

text \<open>What a worker does to the outside: calls of the lifecycle and of the output, and entries of the workflow trace.\<close>

datatype effect =
    Life life_call
  | Out out_call
  | Trace nat CompanionSendResult nat

text \<open>The output of a batch: the interfaces it implements and its answers, given the calls made so far.\<close>

record Output =
  is_DualZone :: bool
  is_SegmentSender :: bool
  out_create :: "effect list \<Rightarrow> string res"
  out_update :: "effect list \<Rightarrow> string \<Rightarrow> go_error option"
  out_zones :: "effect list \<Rightarrow> string \<Rightarrow> string \<Rightarrow> string \<Rightarrow> go_error option"
  out_text :: "effect list \<Rightarrow> ReplyTarget \<Rightarrow> string \<Rightarrow> string res"
  out_segment :: "effect list \<Rightarrow> ReplyTarget \<Rightarrow> string \<Rightarrow> CompanionSendResult"

definition message_ids :: "Batch \<Rightarrow> string list" where
  "message_ids b = map Msg_ID (Batch_Messages b)"

definition reply_of :: "Batch \<Rightarrow> ReplyTarget" where
  "reply_of b = Msg_Reply (hd (Batch_Messages b))"

text \<open>A call of a lifecycle that may be absent, its answer ignored.\<close>

definition life_do :: "Lifecycle option \<Rightarrow> life_call \<Rightarrow> effect list" where
  "life_do lifecycle call = (case lifecycle of None \<Rightarrow> [] | Some l \<Rightarrow> [Life call])"

definition send_text :: "Output \<Rightarrow> ReplyTarget \<Rightarrow> string \<Rightarrow> effect list \<Rightarrow> string res \<times> effect list" where
  "send_text out target content tr = (out_text out tr target content, tr @ [Out (SendBatchText target content)])"

definition update_card :: "Output \<Rightarrow> bool \<Rightarrow> string \<Rightarrow> string \<Rightarrow> string \<Rightarrow> string \<Rightarrow> effect list \<Rightarrow> go_error option \<times> effect list" where
  "update_card out zones cardID content progress summary tr =
     (if zones then (out_zones out tr content progress summary, tr @ [Out (UpdateBatchCardZones cardID content progress summary True)])
      else (out_update out tr content, tr @ [Out (UpdateBatchCard cardID content)]))"

section \<open>Texts\<close>

definition goal_paused :: string where
  "goal_paused = ''goal terminal status '' @ [CHR 0x22] @ ''paused'' @ [CHR 0x22]"

definition goal_limited :: string where
  "goal_limited = ''goal terminal status '' @ [CHR 0x22] @ ''budget_limited'' @ [CHR 0x22]"

definition goalTerminalProgress :: "go_error \<Rightarrow> string" where
  "goalTerminalProgress err =
     (if errors_is err ErrDeadlineExceeded then (utf8 [30446, 26631, 25191, 34892, 36229, 26102, 65292, 26410, 23436, 25104, 12290])
      else if errors_is err ErrCanceled then (utf8 [30446, 26631, 24050, 20013, 26029, 12290])
      else if contains (error_text err) goal_paused then (utf8 [30446, 26631, 24050, 26242, 20572, 12290])
      else if contains (error_text err) goal_limited then (utf8 [30446, 26631, 36798, 21040, 39044, 31639, 38480, 21046, 65292, 26410, 23459, 21578, 23436, 25104, 12290])
      else (utf8 [30446, 26631, 25191, 34892, 26410, 23436, 25104, 12290]))"

definition terminalErrorCode :: "go_error option \<Rightarrow> string" where
  "terminalErrorCode err = (case err of Some e \<Rightarrow> if error_text e = ''presentation_backpressure'' then ''presentation_backpressure'' else ''worker_process_failed''
     | None \<Rightarrow> ''worker_process_failed'')"

definition batch_failed_text :: string where
  "batch_failed_text = (utf8 [26412, 25209, 22788, 29702, 22833, 36133, 65292, 35831, 37325, 26032, 21457, 36865, 12290])"

definition timeout_text :: string where
  "timeout_text = (utf8 [26412, 25209, 22788, 29702, 36229, 26102, 65292, 35831, 37325, 26032, 21457, 36865, 12290])"

definition failureMessage :: "Batch \<Rightarrow> go_error option \<Rightarrow> string" where
  "failureMessage batch err = (case err of None \<Rightarrow> batch_failed_text | Some e \<Rightarrow>
     if \<not> Batch_Goal batch then batch_failed_text
     else if contains (error_text e) goal_paused then (utf8 [30446, 26631, 24050, 26242, 20572, 12290])
     else if contains (error_text e) goal_limited then (utf8 [30446, 26631, 36798, 21040, 39044, 31639, 38480, 21046, 65292, 26410, 23459, 21578, 23436, 25104, 12290])
     else (utf8 [30446, 26631, 25191, 34892, 26410, 23436, 25104, 65292, 35831, 31245, 21518, 37325, 26032, 21457, 36215, 12290]))"

section \<open>The presentation pump\<close>

text \<open>
  The items a turn streams go through a channel of 64 places whose texts reserve at most 256 KiB together. The pump
  takes them in order, projects the visible ones and flushes them to the card; a failed flush is final. Every section
  between two blocking points is one operation.
\<close>

record Pump =
  pump_items :: "Item list"
  pump_reserved :: int
  pump_failed :: bool
  pump_seen :: "string list"
  pump_projection :: Projection
  pump_dirty :: bool

definition new_pump :: Pump where
  "new_pump = \<lparr>pump_items = [], pump_reserved = 0, pump_failed = False, pump_seen = [], pump_projection = NewProjection, pump_dirty = False\<rparr>"

definition OnItem :: "Item \<Rightarrow> Pump \<Rightarrow> bool \<times> Pump" where
  "OnItem item p =
     (let bytes = int (length (Item_Content item)) in
      if pump_failed p then (False, p)
      else if bytes > 256 * 1024 \<or> pump_reserved p + bytes > 256 * 1024 then (False, p)
      else if length (pump_items p) < 64 then (True, p\<lparr>pump_items := pump_items p @ [item], pump_reserved := pump_reserved p + bytes\<rparr>)
      else (False, p))"

text \<open>\<open>flush\<close>; the argument is the card update's answer.\<close>

definition flush :: "go_error option \<Rightarrow> Pump \<Rightarrow> Pump" where
  "flush answer p = (if \<not> pump_dirty p \<or> pump_failed p then p
     else if answer \<noteq> None then p\<lparr>pump_failed := True\<rparr> else p\<lparr>pump_dirty := False\<rparr>)"

definition pump_take :: "go_error option \<Rightarrow> Pump \<Rightarrow> Pump" where
  "pump_take answer p = (case pump_items p of [] \<Rightarrow> p | item # rest \<Rightarrow>
     (case Mapper_Accept item (pump_seen p) of (mapped, seen) \<Rightarrow>
        let p1 = p\<lparr>pump_items := rest, pump_seen := seen, pump_reserved := pump_reserved p - int (length (Item_Content item))\<rparr> in
        (case mapped of None \<Rightarrow> p1 | Some m \<Rightarrow>
          if pump_failed p then p1
          else let p2 = p1\<lparr>pump_projection := Apply m (pump_projection p1), pump_dirty := True\<rparr> in
            if Pres_Phase m = FinalAnswer then flush answer p2 else p2)))"

text \<open>\<open>drainPresentation\<close> closes the channel: the pump takes what is left and flushes.\<close>

fun pump_rest :: "(nat \<Rightarrow> go_error option) \<Rightarrow> nat \<Rightarrow> Pump \<Rightarrow> Pump" where
  "pump_rest answer 0 p = flush (answer 0) p"
| "pump_rest answer (Suc n) p = pump_rest answer n (pump_take (answer (Suc n)) p)"

definition drainPresentation :: "(nat \<Rightarrow> go_error option) \<Rightarrow> Pump \<Rightarrow> go_error option \<times> Pump" where
  "drainPresentation answer p = (let p1 = pump_rest answer (length (pump_items p)) p in
     (if pump_failed p1 then Some (Errorf ''presentation delivery failed'') else None, p1))"

section \<open>An ordinary batch\<close>

text \<open>
  What happens while an ordinary batch runs: the processor's answer, the reason the arbiter has when the answer is
  there, and what the pump has projected when it is drained.
\<close>

record Turn =
  turn_result :: ProcessResult
  turn_err :: "go_error option"
  turn_reason :: string
  turn_drain :: "go_error option"
  turn_projection :: Projection

definition turn_error :: "Turn \<Rightarrow> go_error option" where
  "turn_error t = (if turn_reason t = ''cancelled'' then Some ErrCanceled else turn_err t)"

definition presentation_error :: "Output \<Rightarrow> Turn \<Rightarrow> go_error option" where
  "presentation_error out t = (if is_DualZone out \<and> turn_error t = None then turn_drain t else None)"

definition final_content :: "Output \<Rightarrow> Batch \<Rightarrow> Turn \<Rightarrow> string" where
  "final_content out batch t =
     (if is_DualZone out \<and> Final (turn_projection t) \<noteq> [] then Final (turn_projection t)
      else if Batch_Goal batch then (utf8 [30446, 26631, 24050, 23436, 25104, 65292, 20294, 26410, 25910, 21040, 21487, 23637, 31034, 30340, 26368, 32456, 25688, 35201, 65307, 35831, 26816, 26597, 24050, 23436, 25104, 30340, 25805, 20316, 19982, 26085, 24535, 12290])
      else (utf8 [26412, 36718, 24050, 23436, 25104, 12290]))"

definition final_progress :: "Output \<Rightarrow> Batch \<Rightarrow> Turn \<Rightarrow> go_error option \<Rightarrow> string" where
  "final_progress out batch t err =
     (let progress = if is_DualZone out then Progress (turn_projection t) else [] in
      if Batch_Goal batch \<and> progress = [] \<and> err = None then (utf8 [30446, 26631, 24050, 23436, 25104, 65307, 26412, 36718, 26410, 25910, 21040, 21487, 23637, 31034, 30340, 38454, 27573, 36827, 23637, 12290]) else progress)"

text \<open>The two unsuccessful ends: the card is updated, or else a text is sent, and the batch fails.\<close>

definition report_failure :: "Output \<Rightarrow> Lifecycle option \<Rightarrow> Batch \<Rightarrow> string \<Rightarrow> go_error \<Rightarrow> string \<Rightarrow> string \<Rightarrow> int \<Rightarrow> effect list \<Rightarrow> effect list" where
  "report_failure out lifecycle batch cardID err content code durationMS tr =
     (case update_card out (is_DualZone out \<and> Batch_Goal batch) cardID content (goalTerminalProgress err) (utf8 [30446, 26631, 26410, 23436, 25104]) tr of
        (updateErr, tr1) \<Rightarrow> (if updateErr \<noteq> None then snd (send_text out (reply_of batch) content tr1) else tr1)
          @ life_do lifecycle (CallFail (message_ids batch) code durationMS))"

text \<open>A text sent in place of the card: the batch completes with it, or fails with the given code.\<close>

definition text_fallback :: "Output \<Rightarrow> Lifecycle option \<Rightarrow> Batch \<Rightarrow> string \<Rightarrow> string \<Rightarrow> int \<Rightarrow> effect list \<Rightarrow> effect list" where
  "text_fallback out lifecycle batch content code durationMS tr =
     (case send_text out (reply_of batch) content tr of
        (Inr fallbackID, tr1) \<Rightarrow> tr1 @ life_do lifecycle (CallComplete (message_ids batch) fallbackID content durationMS)
      | (Inl _, tr1) \<Rightarrow> tr1 @ life_do lifecycle (CallFail (message_ids batch) code durationMS))"

text \<open>The successful end: the final card, then the completion; a failed update falls back to a text.\<close>

definition report_success :: "Output \<Rightarrow> Lifecycle option \<Rightarrow> Batch \<Rightarrow> string \<Rightarrow> Turn \<Rightarrow> effect list \<Rightarrow> go_error option \<times> effect list" where
  "report_success out lifecycle batch cardID t tr =
     (let content = final_content out batch t; durationMS = Res_DurationMS (turn_result t);
          summary = if Batch_Goal batch then (utf8 [30446, 26631, 24050, 23436, 25104]) else (utf8 [24050, 23436, 25104]) in
      case update_card out (is_DualZone out) cardID content (final_progress out batch t None) summary tr of
        (None, tr1) \<Rightarrow> (None, tr1 @ life_do lifecycle (CallComplete (message_ids batch) cardID content durationMS))
      | (Some err, tr1) \<Rightarrow> (Some err,
          if errors_is err ErrDeadlineExceeded \<or> lifecycle = None then tr1
          else text_fallback out lifecycle batch content ''card_update_failed'' durationMS tr1))"

definition finish_turn :: "Output \<Rightarrow> Lifecycle option \<Rightarrow> Batch \<Rightarrow> string \<Rightarrow> Turn \<Rightarrow> effect list \<Rightarrow> go_error option \<times> effect list" where
  "finish_turn out lifecycle batch cardID t tr =
     (let durationMS = Res_DurationMS (turn_result t); content = final_content out batch t in
      case turn_error t of
        Some err \<Rightarrow> (Some err, if errors_is err ErrDeadlineExceeded
            then report_failure out lifecycle batch cardID err timeout_text ''worker_timeout_stopped'' durationMS tr
            else report_failure out lifecycle batch cardID err (failureMessage batch (Some err)) (terminalErrorCode (Some err)) durationMS tr)
      | None \<Rightarrow> (case presentation_error out t of
          Some err \<Rightarrow> (Some err, if errors_is err ErrDeadlineExceeded
              then report_failure out lifecycle batch cardID err timeout_text ''worker_timeout_stopped'' durationMS tr
              else text_fallback out lifecycle batch content ''presentation_delivery_failed'' durationMS tr)
        | None \<Rightarrow> report_success out lifecycle batch cardID t tr))"

text \<open>
  \<open>process\<close> up to the release of the channel, for an ordinary batch: the answer of \<open>outputFor\<close> is an
  output (which may be nil) or an error.
\<close>

definition process_ordinary :: "Output option res \<Rightarrow> Lifecycle option \<Rightarrow> Batch \<Rightarrow> Turn \<Rightarrow> go_error option \<times> effect list" where
  "process_ordinary output lifecycle batch t = (case output of
       Inr (Some out) \<Rightarrow> (case out_create out [] of
           Inr cardID \<Rightarrow> finish_turn out lifecycle batch cardID t
             ([Out (CreateBatchCard batch)] @ life_do lifecycle (CallMarkProcessing (message_ids batch)))
         | Inl createErr \<Rightarrow> (None, [Out (CreateBatchCard batch)] @ (if lifecycle = None then [] else
             life_do lifecycle (CallMarkProcessing (message_ids batch)) @ [Out (SendBatchText (reply_of batch) batch_failed_text)]
             @ life_do lifecycle (CallFail (message_ids batch) ''batch_card_create_failed'' 0))))
     | Inr None \<Rightarrow> (None, life_do lifecycle (CallFail (message_ids batch) ''output_unavailable'' 0))
     | Inl err \<Rightarrow> (Some err, life_do lifecycle (CallFail (message_ids batch) ''output_unavailable'' 0)))"

text \<open>The release of the channel: a timed out batch stops the worker and drops its queue.\<close>

definition timed_out :: "go_error option \<Rightarrow> bool" where
  "timed_out err = (case err of None \<Rightarrow> False | Some e \<Rightarrow> errors_is e ErrDeadlineExceeded)"

definition drop_pending :: "Lifecycle option \<Rightarrow> Message list \<Rightarrow> effect list" where
  "drop_pending lifecycle pending = concat (map (\<lambda>m. Out (SendBatchText (Msg_Reply m) (utf8 [19978, 19968, 25209, 22788, 29702, 36229, 26102, 65292, 26410, 22788, 29702, 28040, 24687, 35831, 37325, 26032, 21457, 36865, 12290]))
     # life_do lifecycle (CallFail [Msg_ID m] ''worker_timeout_stopped'' 0)) pending)"

definition release_channel :: "Output option res \<Rightarrow> Lifecycle option \<Rightarrow> go_error option \<Rightarrow> go_time \<Rightarrow> channelWorker \<Rightarrow> effect list \<times> channelWorker" where
  "release_channel output lifecycle err now w =
     (if timed_out err then (case stop_after_timeout w of (pending, w1) \<Rightarrow>
        (case output of Inr (Some out) \<Rightarrow> drop_pending lifecycle pending | _ \<Rightarrow> [], w1))
      else ([], finishWorkerState now w))"

section \<open>The delivery slot\<close>

text \<open>\<open>DeliverySlot\<close> of \<open>delivery.go\<close>; \<open>slot_ctx\<close> is the state of the context it has published.\<close>

datatype slot_ctx = NoContext | LiveContext | CancelledContext

record DeliverySlot =
  slot_started :: bool
  slot_published :: bool
  slot_cancelled :: bool
  slot_finished :: bool
  slot_cancel :: slot_ctx

definition NewDeliverySlot :: DeliverySlot where
  "NewDeliverySlot = \<lparr>slot_started = False, slot_published = False, slot_cancelled = False, slot_finished = False, slot_cancel = NoContext\<rparr>"

definition Begin :: "DeliverySlot \<Rightarrow> bool \<times> DeliverySlot" where
  "Begin s = (if slot_started s \<or> slot_finished s then (False, s) else (True, s\<lparr>slot_started := True\<rparr>))"

definition Publish :: "DeliverySlot \<Rightarrow> bool \<times> DeliverySlot" where
  "Publish s = (if \<not> slot_started s \<or> slot_published s \<or> slot_finished s \<or> slot_cancelled s then (False, s)
     else (True, s\<lparr>slot_cancel := LiveContext, slot_published := True\<rparr>))"

definition cancel_ctx :: "slot_ctx \<Rightarrow> slot_ctx" where
  "cancel_ctx c = (if c = NoContext then NoContext else CancelledContext)"

text \<open>The locked section of \<open>CancelAndWait\<close>; the wait ends when the slot is finished.\<close>

definition CancelAndWait :: "DeliverySlot \<Rightarrow> DeliverySlot" where
  "CancelAndWait s = s\<lparr>slot_cancelled := True, slot_cancel := cancel_ctx (slot_cancel s)\<rparr>"

definition Finish :: "DeliverySlot \<Rightarrow> DeliverySlot" where
  "Finish s = (if slot_finished s then s else s\<lparr>slot_finished := True, slot_cancel := cancel_ctx (slot_cancel s)\<rparr>)"

section \<open>A companion batch\<close>

text \<open>
  What happens while a companion batch runs: the processor's answer and the final text projected, the reason the
  arbiter has then, whether a cancellation latches before the slot publishes, before the wait of a segment or of its
  retry ends, or before the completion, and the answers of the workflow writer to the entries of the trace.
\<close>

record Delivery =
  deliv_result :: ProcessResult
  deliv_err :: "go_error option"
  deliv_reason :: string
  deliv_final :: string
  deliv_uuid :: string
  deliv_latched :: bool
  deliv_done :: "nat \<Rightarrow> bool"
  deliv_retry_done :: "nat \<Rightarrow> bool"
  deliv_record :: "nat \<Rightarrow> CompanionSendResult \<Rightarrow> nat \<Rightarrow> go_error option"
  deliv_cancelled :: bool

definition sendCompanionSegment :: "Output \<Rightarrow> ReplyTarget \<Rightarrow> string \<Rightarrow> effect list \<Rightarrow> CompanionSendResult \<times> effect list" where
  "sendCompanionSegment out target content tr =
     (if is_SegmentSender out then (out_segment out tr target content, tr @ [Out (SendCompanionSegment target content)])
      else case send_text out target content tr of
        (Inr messageID, tr1) \<Rightarrow> (\<lparr>Send_MessageID = messageID, Send_Outcome = CompanionSent, Send_Reason = []\<rparr>, tr1)
      | (Inl err, tr1) \<Rightarrow> (\<lparr>Send_MessageID = [], Send_Outcome = CompanionUnknown, Send_Reason =
           if errors_is err ErrCanceled \<or> errors_is err ErrDeadlineExceeded then ''request_unknown'' else ''send_unknown''\<rparr>, tr1))"

record Progressed =
  seg_err :: "go_error option"
  seg_first :: string
  seg_sent :: nat
  seg_rejected :: nat
  seg_reason :: string
  seg_trace :: "effect list"

definition count_outcome :: "CompanionSendResult \<Rightarrow> Progressed \<Rightarrow> Progressed" where
  "count_outcome result s = (case Send_Outcome result of
       CompanionSent \<Rightarrow> s\<lparr>seg_sent := seg_sent s + 1, seg_first := (if seg_first s = [] then Send_MessageID result else seg_first s)\<rparr>
     | CompanionRejected \<Rightarrow> s\<lparr>seg_rejected := seg_rejected s + 1\<rparr>
     | CompanionUnknown \<Rightarrow> s\<lparr>seg_reason := snd (Arbiter_Claim ''unknown_send'' (seg_reason s)), seg_err := Some (Errorf ''companion_segment_delivery_unknown'')\<rparr>
     | CompanionCancelled \<Rightarrow> s\<lparr>seg_reason := snd (Arbiter_Claim ''cancelled'' (seg_reason s)), seg_err := Some ErrCanceled\<rparr>)"

text \<open>A send is recorded in the workflow trace; a failing writer ends the delivery.\<close>

definition record_send :: "Delivery \<Rightarrow> nat \<Rightarrow> CompanionSendResult \<Rightarrow> nat \<Rightarrow> Progressed \<Rightarrow> Progressed" where
  "record_send d index result retry s = (let s1 = s\<lparr>seg_trace := seg_trace s @ [Trace index result retry]\<rparr> in
     case deliv_record d index result retry of None \<Rightarrow> s1
     | Some recordErr \<Rightarrow> s1\<lparr>seg_reason := snd (Arbiter_Claim ''workflow_trace_failed'' (seg_reason s1)), seg_err := Some (Wrapf (error_text recordErr) ErrWorkflowTrace)\<rparr>)"

text \<open>After a rate limit the segment is sent once more, unless the delivery is cancelled during the wait.\<close>

definition retry_send :: "Output \<Rightarrow> Batch \<Rightarrow> Delivery \<Rightarrow> nat \<Rightarrow> string \<Rightarrow> effect list \<Rightarrow> CompanionSendResult \<times> effect list" where
  "retry_send out batch d index segment tr =
     (if deliv_retry_done d index then (\<lparr>Send_MessageID = [], Send_Outcome = CompanionCancelled, Send_Reason = ''cancelled''\<rparr>, tr)
      else sendCompanionSegment out (reply_of batch) segment tr)"

definition send_segment :: "Output \<Rightarrow> Batch \<Rightarrow> Delivery \<Rightarrow> nat \<Rightarrow> string \<Rightarrow> Progressed \<Rightarrow> Progressed" where
  "send_segment out batch d index segment s =
     (case sendCompanionSegment out (reply_of batch) segment (seg_trace s) of (result, tr) \<Rightarrow>
        let s1 = record_send d index result 0 (s\<lparr>seg_trace := tr\<rparr>) in
        if seg_err s1 \<noteq> None then s1
        else if Send_Outcome result = CompanionRejected \<and> Send_Reason result = ''rate_limited'' then
          (case retry_send out batch d index segment (seg_trace s1) of
             (again, tr2) \<Rightarrow> let s2 = record_send d index again 1 (s1\<lparr>seg_trace := tr2\<rparr>) in
               if seg_err s2 \<noteq> None then s2 else count_outcome again s2)
        else count_outcome result s1)"

fun segment_loop :: "Output \<Rightarrow> Batch \<Rightarrow> Delivery \<Rightarrow> nat \<Rightarrow> string list \<Rightarrow> Progressed \<Rightarrow> Progressed" where
  "segment_loop out batch d index [] s = s"
| "segment_loop out batch d index (segment # rest) s =
     (if seg_err s \<noteq> None then s
      else if index > 0 \<and> deliv_done d index then segment_loop out batch d (index + 1) rest (s\<lparr>seg_err := Some ErrCanceled\<rparr>)
      else segment_loop out batch d (index + 1) rest (send_segment out batch d index segment s))"

definition delivery_code :: "bool \<Rightarrow> Progressed \<Rightarrow> string" where
  "delivery_code emptyFinal s = (if emptyFinal then ''companion_final_empty''
     else if seg_rejected s > 0 \<and> seg_sent s = 0 then ''companion_segment_delivery_none''
     else if seg_rejected s > 0 then ''companion_segment_delivery_partial'' else [])"

definition failure_code :: "go_error \<Rightarrow> string" where
  "failure_code err = (if errors_is err ErrWorkflowTrace then ''companion_delivery_trace_incomplete''
     else if error_text err = ''companion_segment_delivery_unknown'' then ''companion_segment_delivery_unknown''
     else if errors_is err ErrCanceled then ''companion_delivery_cancelled'' else ''companion_delivery_failed'')"

text \<open>The messages of a final text; an empty final answer is replaced by a notice.\<close>

definition companion_segments :: "Delivery \<Rightarrow> bool \<times> string list \<times> string" where
  "companion_segments d = (let lexed = LexCompanion (deliv_uuid d) (deliv_final d);
        segments = SplitCompanion (SegmenterInput lexed) (Delimiter lexed); notice = (utf8 [26412, 36718, 23436, 25104, 65292, 20294, 26410, 25910, 21040, 21487, 23637, 31034, 30340, 26368, 32456, 31572, 22797, 12290]) in
     if segments = [] then (True, [notice], notice) else (False, segments, StorageText lexed))"

text \<open>The marker of the delivery and the slot: the error so far, whether the delivery is marked, the calls.\<close>

definition begin_delivery :: "Lifecycle option \<Rightarrow> Batch \<Rightarrow> Delivery \<Rightarrow> effect list \<Rightarrow> go_error option \<times> bool \<times> effect list" where
  "begin_delivery lifecycle batch d tr = (case lifecycle of
       None \<Rightarrow> (None, False, tr)
     | Some l \<Rightarrow> if \<not> is_Companion l then (None, False, tr)
         else let call = CallMarkCompanionDeliveryStarted (message_ids batch) (Batch_ID batch) in
           (case life_answer l call of
              Some markerErr \<Rightarrow> (Some markerErr, False, tr @ [Life call])
            | None \<Rightarrow> (case Begin (if deliv_latched d then CancelAndWait NewDeliverySlot else NewDeliverySlot) of
                (marked, slot) \<Rightarrow> (if marked \<and> \<not> fst (Publish slot) then Some ErrCanceled else None, marked, tr @ [Life call]))))"

definition deliver_companion :: "Output \<Rightarrow> Lifecycle option \<Rightarrow> Batch \<Rightarrow> Delivery \<Rightarrow> effect list \<Rightarrow> go_error option \<times> bool \<times> effect list" where
  "deliver_companion out lifecycle batch d tr =
     (case companion_segments d of (emptyFinal, segments, storage) \<Rightarrow>
      (case begin_delivery lifecycle batch d tr of (err0, marked, tr0) \<Rightarrow>
        let durationMS = Res_DurationMS (deliv_result d);
            s = segment_loop out batch d 0 segments \<lparr>seg_err = err0, seg_first = [], seg_sent = 0, seg_rejected = 0, seg_reason = deliv_reason d, seg_trace = tr0\<rparr>;
            reason = if deliv_cancelled d then snd (Arbiter_Claim ''cancelled'' (seg_reason s)) else seg_reason s in
        (case lifecycle of None \<Rightarrow> (seg_err s, marked, seg_trace s) | Some l \<Rightarrow>
          if seg_err s \<noteq> None then (seg_err s, marked, seg_trace s)
          else if marked \<and> reason = [] then
            (let call = CallCompleteCompanionDelivery (message_ids batch) (Batch_ID batch) (seg_first s) storage (delivery_code emptyFinal s) durationMS in
             (life_answer l call, marked, seg_trace s @ [Life call]))
          else (None, marked, seg_trace s @ [Life (CallComplete (message_ids batch) (seg_first s) storage durationMS)]))))"

definition companion_error :: "Delivery \<Rightarrow> go_error option" where
  "companion_error d = (if deliv_reason d = ''cancelled'' then Some ErrCanceled else deliv_err d)"

definition process_companion :: "Output option res \<Rightarrow> Lifecycle option \<Rightarrow> Batch \<Rightarrow> Delivery \<Rightarrow> go_error option \<times> effect list" where
  "process_companion output lifecycle batch d = (case output of
       Inl err \<Rightarrow> (Some err, life_do lifecycle (CallFail (message_ids batch) ''output_unavailable'' 0))
     | Inr None \<Rightarrow> (None, life_do lifecycle (CallFail (message_ids batch) ''output_unavailable'' 0))
     | Inr (Some out) \<Rightarrow>
        (let durationMS = Res_DurationMS (deliv_result d); tr = life_do lifecycle (CallMarkProcessing (message_ids batch)) in
        (case (case companion_error d of
             None \<Rightarrow> deliver_companion out lifecycle batch d tr
           | Some err \<Rightarrow> (Some err, False, if errors_is err ErrDeadlineExceeded
               then tr @ [Out (SendBatchText (reply_of batch) timeout_text)] @ life_do lifecycle (CallFail (message_ids batch) ''worker_timeout_stopped'' durationMS)
               else tr)) of
          (None, marked, tr1) \<Rightarrow> (None, tr1)
        | (Some err, True, tr1) \<Rightarrow> (Some err, tr1 @ life_do lifecycle (CallFailCompanionDelivery (message_ids batch) (Batch_ID batch) (failure_code err) batch_failed_text durationMS))
        | (Some err, False, tr1) \<Rightarrow> (Some err, if lifecycle = None then tr1 else
            tr1 @ [Out (SendBatchText (reply_of batch) batch_failed_text)] @ life_do lifecycle (CallFail (message_ids batch) ''companion_batch_failed'' durationMS)))))"

definition release_companion :: "Output option res \<Rightarrow> Lifecycle option \<Rightarrow> go_error option \<Rightarrow> go_time \<Rightarrow> channelWorker \<Rightarrow> effect list \<times> channelWorker" where
  "release_companion output lifecycle err now w =
     (if timed_out err then (case stop_after_timeout w of (pending, w1) \<Rightarrow>
        (case output of Inr (Some out) \<Rightarrow> drop_pending lifecycle pending
         | _ \<Rightarrow> concat (map (\<lambda>m. life_do lifecycle (CallFail [Msg_ID m] ''worker_timeout_stopped'' 0)) pending), w1))
      else ([], finishWorkerState now w))"

section \<open>A scheduled batch\<close>

text \<open>The processor's answer, and whether the arbiter says cancelled at each of the two places that ask it.\<close>

record Scheduled =
  sch_result :: ProcessResult
  sch_err :: "go_error option"
  sch_cancelled :: bool
  sch_cancelled_later :: bool
  sch_elapsed :: int

definition finishScheduled :: "Lifecycle option \<Rightarrow> Batch \<Rightarrow> bool \<Rightarrow> string \<Rightarrow> int \<Rightarrow> string \<Rightarrow> string \<Rightarrow> string \<Rightarrow> life_call list" where
  "finishScheduled lifecycle batch succeeded code duration finalText threadID turnID =
     (let runID = Batch_ScheduledTaskRunID batch; token = Batch_ScheduledClaimToken batch in
      case lifecycle of None \<Rightarrow> [] | Some l \<Rightarrow>
        if token = [] then []
        else if code = ''cancelled_by_channel_control'' \<and> is_Discard l then [CallDiscardScheduledRun runID token code]
        else if is_Result l then [CallCompleteScheduledRunResult runID token succeeded code duration finalText threadID turnID]
        else if is_Scheduled l then [CallCompleteScheduledRun runID token succeeded code duration]
        else [])"

definition scheduled_code :: "Scheduled \<Rightarrow> go_error option \<Rightarrow> string" where
  "scheduled_code s err = (case err of None \<Rightarrow> [] | Some e \<Rightarrow>
     if errors_is e ErrCanceled \<and> sch_cancelled_later s then ''cancelled_by_channel_control'' else terminalErrorCode err)"

definition processScheduled :: "Lifecycle option \<Rightarrow> Batch \<Rightarrow> Scheduled \<Rightarrow> go_error option \<times> life_call list" where
  "processScheduled lifecycle batch s =
     (let runID = Batch_ScheduledTaskRunID batch; token = Batch_ScheduledClaimToken batch in
      case lifecycle of None \<Rightarrow> (None, []) | Some l \<Rightarrow>
        if \<not> is_Scheduled l \<or> token = [] then (None, finishScheduled lifecycle batch False ''failed_lifecycle'' 0 [] [] [])
        else let mark = CallMarkScheduledRunning runID token in
          if life_answer l mark \<noteq> None then (None, mark # finishScheduled lifecycle batch False ''failed_run_claim'' 0 [] [] [])
          else let err = (if sch_err s = None \<and> sch_cancelled s then Some ErrCanceled else sch_err s);
                   duration = (if Res_DurationMS (sch_result s) = 0 then sch_elapsed s else Res_DurationMS (sch_result s)) in
            (err, mark # finishScheduled lifecycle batch (err = None) (scheduled_code s err) duration
               (Res_FinalText (sch_result s)) (Res_ThreadID (sch_result s)) (Res_TurnID (sch_result s))))"

definition release_scheduled :: "Lifecycle option \<Rightarrow> go_error option \<Rightarrow> go_time \<Rightarrow> channelWorker \<Rightarrow> life_call list \<times> channelWorker" where
  "release_scheduled lifecycle err now w = (if timed_out err then stopAfterScheduledTimeout lifecycle w else ([], finishWorkerState now w))"

section \<open>The loop of a worker\<close>

text \<open>
  The inner loop of \<open>run\<close> after a wake-up, while nothing else touches the worker: controls first, then batches.
  The answer lists the controls run and the batches processed; \<open>timeout\<close> says which batches time out.
\<close>

lemma nextBatch_shrinks: "nextBatch i w = (Some b, w1) \<Longrightarrow> length (cw_queue w1) < length (cw_queue w) \<and> cw_controls w1 = cw_controls w"
  using nextBatch_Some(1,3,8) [of i w b w1] by auto

function run_loop :: "(Batch \<Rightarrow> bool) \<Rightarrow> (nat \<Rightarrow> string) \<Rightarrow> go_time \<Rightarrow> channelWorker \<Rightarrow> (nat + Batch) list \<times> channelWorker" where
  "run_loop timeout fresh now w = (case nextControl w of
       (Some c, w1) \<Rightarrow> (case run_loop timeout fresh now (control_finished w1) of (did, w2) \<Rightarrow> (Inl c # did, w2))
     | (None, w1) \<Rightarrow> (case nextBatch (fresh (length (cw_queue w1))) w1 of
         (None, w2) \<Rightarrow> ([], w2)
       | (Some b, w2) \<Rightarrow> (case run_loop timeout fresh now (if timeout b then snd (stop_after_timeout w2) else finishWorkerState now w2) of
           (did, w3) \<Rightarrow> (Inr b # did, w3))))"
  by pat_completeness auto
termination
  by (relation "measure (\<lambda>(t, f, n, w). length (cw_controls w) + length (cw_queue w))")
    (auto simp: nextControl_def control_finished_def signal_def finishWorkerState_def stop_after_timeout_def Let_def length_greater_0_conv [symmetric]
      simp del: length_greater_0_conv dest!: nextBatch_shrinks [OF sym] split: if_splits)

declare run_loop.simps [simp del]

section \<open>Outcomes\<close>

text \<open>The calls that end a message, and the messages they are about.\<close>

fun terminal_call :: "life_call \<Rightarrow> bool" where
  "terminal_call (CallComplete ids mid content ms) = True"
| "terminal_call (CallFail ids code ms) = True"
| "terminal_call (CallCompleteCompanionDelivery ids batchID mid content code ms) = True"
| "terminal_call (CallFailCompanionDelivery ids batchID code content ms) = True"
| "terminal_call _ = False"

fun call_ids :: "life_call \<Rightarrow> string list" where
  "call_ids (CallComplete ids mid content ms) = ids"
| "call_ids (CallFail ids code ms) = ids"
| "call_ids (CallCompleteCompanionDelivery ids batchID mid content code ms) = ids"
| "call_ids (CallFailCompanionDelivery ids batchID code content ms) = ids"
| "call_ids _ = []"

fun outcomes :: "effect list \<Rightarrow> life_call list" where
  "outcomes [] = []"
| "outcomes (Life c # tr) = (if terminal_call c then c # outcomes tr else outcomes tr)"
| "outcomes (Out c # tr) = outcomes tr"
| "outcomes (Trace i r k # tr) = outcomes tr"

lemma outcomes_append [simp]: "outcomes (tr @ us) = outcomes tr @ outcomes us"
  by (induction tr rule: outcomes.induct) auto

lemma outcomes_life_do [simp]: "outcomes (life_do lifecycle c) = (if lifecycle \<noteq> None \<and> terminal_call c then [c] else [])"
  by (cases lifecycle) (auto simp: life_do_def)

text \<open>An answer the user has seen: a card updated or a text sent, with the content and without an error.\<close>

definition shown :: "Output \<Rightarrow> string \<Rightarrow> string \<Rightarrow> effect list \<Rightarrow> bool" where
  "shown out mid content tr \<longleftrightarrow> (\<exists>pre post target progress summary.
     tr = pre @ Out (UpdateBatchCard mid content) # post \<and> out_update out pre content = None
     \<or> tr = pre @ Out (UpdateBatchCardZones mid content progress summary True) # post \<and> out_zones out pre content progress summary = None
     \<or> tr = pre @ Out (SendBatchText target content) # post \<and> out_text out pre target content = Inr mid)"

definition updates_in_time :: "Output \<Rightarrow> bool" where
  "updates_in_time out \<longleftrightarrow> (\<forall>tr content progress summary.
     \<not> timed_out (out_update out tr content) \<and> \<not> timed_out (out_zones out tr content progress summary))"

text \<open>One outcome for the batch, and a completion only for an answer that was shown.\<close>

definition one_outcome :: "Output \<Rightarrow> Batch \<Rightarrow> effect list \<Rightarrow> bool" where
  "one_outcome out batch tr \<longleftrightarrow> (\<exists>code ms. outcomes tr = [CallFail (message_ids batch) code ms])
     \<or> (\<exists>mid content ms. outcomes tr = [CallComplete (message_ids batch) mid content ms] \<and> shown out mid content tr)"

lemma shown_intros:
  "out_update out pre content = None \<Longrightarrow> shown out mid content (pre @ Out (UpdateBatchCard mid content) # post)"
  "out_zones out pre content progress summary = None \<Longrightarrow> shown out mid content (pre @ Out (UpdateBatchCardZones mid content progress summary True) # post)"
  "out_text out pre target content = Inr mid \<Longrightarrow> shown out mid content (pre @ Out (SendBatchText target content) # post)"
  unfolding shown_def by blast+

lemma update_card_outcomes [simp]: "outcomes (snd (update_card out z cardID content progress summary tr)) = outcomes tr"
  by (simp add: update_card_def)

lemma update_card_shown:
  "update_card out z cardID content progress summary tr = (None, tr1) \<Longrightarrow> shown out cardID content (tr1 @ us)"
  by (auto simp: update_card_def intro: shown_intros split: if_splits)

lemma report_failure_one:
  "outcomes tr = [] \<Longrightarrow> one_outcome out batch (report_failure out (Some l) batch cardID err content code ms tr)"
  by (auto simp: report_failure_def one_outcome_def send_text_def update_card_def)

lemma text_fallback_one:
  "outcomes tr = [] \<Longrightarrow> one_outcome out batch (text_fallback out (Some l) batch content code ms tr)"
  by (cases "out_text out tr (reply_of batch) content") (auto simp: text_fallback_def one_outcome_def send_text_def intro: shown_intros)

lemma report_success_one:
  assumes "outcomes tr = []" "updates_in_time out"
  shows "one_outcome out batch (snd (report_success out (Some l) batch cardID t tr))"
proof -
  let ?summary = "if Batch_Goal batch then (utf8 [30446, 26631, 24050, 23436, 25104]) else (utf8 [24050, 23436, 25104])"
  obtain u tr1 where u: "update_card out (is_DualZone out) cardID (final_content out batch t) (final_progress out batch t None) ?summary tr = (u, tr1)" by force
  have tr1: "outcomes tr1 = []" using u assms(1) update_card_outcomes by (metis snd_conv)
  show ?thesis
  proof (cases u)
    case None
    then show ?thesis using u tr1 update_card_shown [of out "is_DualZone out" cardID]
      by (auto simp: report_success_def one_outcome_def Let_def)
  next
    case (Some err)
    have "\<not> timed_out u" using u assms(2) by (auto simp: update_card_def updates_in_time_def split: if_splits)
    then show ?thesis using u Some text_fallback_one [OF tr1] by (simp add: report_success_def timed_out_def Let_def)
  qed
qed

lemma finish_turn_one:
  assumes "outcomes tr = []" "updates_in_time out"
  shows "one_outcome out batch (snd (finish_turn out (Some l) batch cardID t tr))"
  unfolding finish_turn_def Let_def
  by (cases "turn_error t"; cases "presentation_error out t")
    (simp_all add: report_failure_one text_fallback_one report_success_one assms)

section \<open>The order of companion messages\<close>

definition rate_limited :: "CompanionSendResult \<Rightarrow> bool" where
  "rate_limited r \<longleftrightarrow> Send_Outcome r = CompanionRejected \<and> Send_Reason r = ''rate_limited''"

text \<open>An answer that leaves open whether the message has reached the user, or that says the delivery is cancelled.\<close>

definition uncertain :: "CompanionSendResult \<Rightarrow> bool" where
  "uncertain r \<longleftrightarrow> Send_Outcome r = CompanionUnknown \<or> Send_Outcome r = CompanionCancelled"

definition sent_as :: "ReplyTarget \<Rightarrow> string \<Rightarrow> effect \<Rightarrow> bool" where
  "sent_as target content e \<longleftrightarrow> e = Out (SendCompanionSegment target content) \<or> e = Out (SendBatchText target content)"

text \<open>
  The protocol of a delivery from the given index on: the segments are sent in order, each once, or twice when the first
  answer is a rate limit; every send is traced; nothing is sent after an uncertain answer. The flag says that every
  segment was answered and none of them uncertainly.
\<close>

inductive delivery :: "ReplyTarget \<Rightarrow> bool \<Rightarrow> nat \<Rightarrow> string list \<Rightarrow> effect list \<Rightarrow> bool" where
  stop: "(ok \<Longrightarrow> segs = []) \<Longrightarrow> delivery to ok i segs []"
| once: "sent_as to seg e \<Longrightarrow> \<not> rate_limited r \<Longrightarrow> (uncertain r \<Longrightarrow> tr = [] \<and> \<not> ok) \<Longrightarrow> delivery to ok (i + 1) segs tr
    \<Longrightarrow> delivery to ok i (seg # segs) (e # Trace i r 0 # tr)"
| twice: "sent_as to seg e \<Longrightarrow> rate_limited r \<Longrightarrow> sent_as to seg f \<Longrightarrow> (uncertain q \<Longrightarrow> tr = [] \<and> \<not> ok) \<Longrightarrow> delivery to ok (i + 1) segs tr
    \<Longrightarrow> delivery to ok i (seg # segs) (e # Trace i r 0 # f # Trace i q 1 # tr)"
| untraced: "sent_as to seg e \<Longrightarrow> rate_limited r \<Longrightarrow> delivery to False i (seg # segs) [e, Trace i r 0]"
| interrupted: "sent_as to seg e \<Longrightarrow> rate_limited r \<Longrightarrow> uncertain q \<Longrightarrow> delivery to False i (seg # segs) [e, Trace i r 0, Trace i q 1]"

lemma sendCompanionSegment_effect:
  "\<exists>e. sent_as target content e \<and> snd (sendCompanionSegment out target content tr) = tr @ [e]"
  by (auto simp: sendCompanionSegment_def send_text_def sent_as_def split: sum.splits)

lemma record_send_trace [simp]: "seg_trace (record_send d i r k s) = seg_trace s @ [Trace i r k]"
  by (simp add: record_send_def Let_def split: option.splits)

lemma count_outcome_trace [simp]: "seg_trace (count_outcome r s) = seg_trace s"
  by (simp add: count_outcome_def split: CompanionSendOutcome.splits)

lemma count_outcome_err: "seg_err s = None \<Longrightarrow> seg_err (count_outcome r s) = None \<longleftrightarrow> \<not> uncertain r"
  by (simp add: count_outcome_def uncertain_def split: CompanionSendOutcome.splits)

lemma segment_loop_failed: "seg_err s \<noteq> None \<Longrightarrow> segment_loop out b d i segs s = s"
  by (cases segs) auto

text \<open>One segment: what is appended to the trace, and what follows from the error.\<close>

lemma send_segment_cases:
  assumes "seg_err s = None"
  obtains (once) e r where "sent_as (reply_of b) seg e" "\<not> rate_limited r" "seg_trace (send_segment out b d i seg s) = seg_trace s @ [e, Trace i r 0]"
      "uncertain r \<Longrightarrow> seg_err (send_segment out b d i seg s) \<noteq> None"
  | (twice) e r f q where "sent_as (reply_of b) seg e" "rate_limited r" "sent_as (reply_of b) seg f"
      "seg_trace (send_segment out b d i seg s) = seg_trace s @ [e, Trace i r 0, f, Trace i q 1]"
      "uncertain q \<Longrightarrow> seg_err (send_segment out b d i seg s) \<noteq> None"
  | (untraced) e r where "sent_as (reply_of b) seg e" "rate_limited r" "seg_trace (send_segment out b d i seg s) = seg_trace s @ [e, Trace i r 0]"
      "seg_err (send_segment out b d i seg s) \<noteq> None"
  | (interrupted) e r q where "sent_as (reply_of b) seg e" "rate_limited r" "uncertain q"
      "seg_trace (send_segment out b d i seg s) = seg_trace s @ [e, Trace i r 0, Trace i q 1]"
      "seg_err (send_segment out b d i seg s) \<noteq> None"
proof -
  obtain r tr where r: "sendCompanionSegment out (reply_of b) seg (seg_trace s) = (r, tr)" by force
  obtain e where e: "sent_as (reply_of b) seg e" "tr = seg_trace s @ [e]" using sendCompanionSegment_effect [of "reply_of b" seg out "seg_trace s"] r by auto
  define s1 where "s1 = record_send d i r 0 (s\<lparr>seg_trace := tr\<rparr>)"
  have t1: "seg_trace s1 = seg_trace s @ [e, Trace i r 0]" by (simp add: s1_def e)
  show thesis
  proof (cases "seg_err s1 = None")
    case False
    then have eq: "send_segment out b d i seg s = s1" by (simp add: send_segment_def r s1_def Let_def)
    show ?thesis using once [of e r] untraced [of e r] e(1) t1 False unfolding eq by (cases "rate_limited r") auto
  next
    case True
    show ?thesis
    proof (cases "rate_limited r")
      case False
      then have eq: "send_segment out b d i seg s = count_outcome r s1" using True by (auto simp: send_segment_def r s1_def Let_def rate_limited_def)
      show ?thesis using once [of e r] e(1) t1 False count_outcome_err [OF True, of r] unfolding eq by auto
    next
      case lim: True
      then have out: "Send_Outcome r = CompanionRejected" "Send_Reason r = ''rate_limited''" by (simp_all add: rate_limited_def)
      obtain q tr2 where q: "retry_send out b d i seg (seg_trace s1) = (q, tr2)" by force
      define s2 where "s2 = record_send d i q 1 (s1\<lparr>seg_trace := tr2\<rparr>)"
      have eq: "send_segment out b d i seg s = (if seg_err s2 \<noteq> None then s2 else count_outcome q s2)"
        using True out by (simp add: send_segment_def r s1_def [symmetric] q s2_def Let_def)
      have t2: "seg_trace (send_segment out b d i seg s) = tr2 @ [Trace i q 1]" unfolding eq by (simp add: s2_def)
      have err: "uncertain q \<Longrightarrow> seg_err (send_segment out b d i seg s) \<noteq> None" unfolding eq using count_outcome_err [of s2 q] by auto
      show ?thesis
      proof (cases "deliv_retry_done d i")
        case True
        then have "uncertain q" "tr2 = seg_trace s1" using q by (auto simp: uncertain_def retry_send_def)
        then show ?thesis using interrupted [of e r q] e(1) lim t1 t2 err by simp
      next
        case False
        then obtain f where "sent_as (reply_of b) seg f" "tr2 = seg_trace s1 @ [f]"
          using sendCompanionSegment_effect [of "reply_of b" seg out "seg_trace s1"] q by (auto simp: retry_send_def)
        then show ?thesis using twice [of e r f q] e(1) lim t1 t2 err by simp
      qed
    qed
  qed
qed

lemma segment_loop_delivery:
  "\<exists>tr. seg_trace (segment_loop out b d i segs s) = seg_trace s @ tr \<and> delivery (reply_of b) (seg_err (segment_loop out b d i segs s) = None) i segs tr"
proof (induction segs arbitrary: i s)
  case Nil
  then show ?case by (auto intro: delivery.stop)
next
  case (Cons seg segs)
  consider "seg_err s \<noteq> None" | "seg_err s = None" "i > 0 \<and> deliv_done d i" | "seg_err s = None" "\<not> (i > 0 \<and> deliv_done d i)" by blast
  then show ?case
  proof cases
    case 3
    let ?s = "send_segment out b d i seg s"
    have step: "segment_loop out b d i (seg # segs) s = segment_loop out b d (i + 1) segs ?s" using 3 by (simp only: segment_loop.simps) simp
    obtain tr where tr: "seg_trace (segment_loop out b d (i + 1) segs ?s) = seg_trace ?s @ tr"
      "delivery (reply_of b) (seg_err (segment_loop out b d (i + 1) segs ?s) = None) (i + 1) segs tr" using Cons.IH by blast
    have failed: "seg_err ?s \<noteq> None \<Longrightarrow> tr = [] \<and> seg_err (segment_loop out b d (i + 1) segs ?s) \<noteq> None"
      using tr(1) segment_loop_failed by fastforce
    show ?thesis using 3(1)
    proof (cases rule: send_segment_cases [where b = b and seg = seg and out = out and d = d and i = i])
      case (once e r)
      then have "delivery (reply_of b) (seg_err (segment_loop out b d (i + 1) segs ?s) = None) i (seg # segs) (e # Trace i r 0 # tr)"
        using tr(2) failed by (intro delivery.once) auto
      then show ?thesis unfolding step using once(3) tr(1) by auto
    next
      case (twice e r f q)
      then have "delivery (reply_of b) (seg_err (segment_loop out b d (i + 1) segs ?s) = None) i (seg # segs) (e # Trace i r 0 # f # Trace i q 1 # tr)"
        using tr(2) failed by (intro delivery.twice) auto
      then show ?thesis unfolding step using twice(4) tr(1) by auto
    next
      case (untraced e r)
      then show ?thesis unfolding step using tr(1) failed delivery.untraced [of "reply_of b" seg e r i segs] by auto
    next
      case (interrupted e r q)
      then show ?thesis unfolding step using tr(1) failed delivery.interrupted [of "reply_of b" seg e r q i segs] by auto
    qed
  qed (auto simp: segment_loop_failed intro!: delivery.stop)
qed

text \<open>The calls that say the batch succeeded.\<close>

fun success_call :: "life_call \<Rightarrow> bool" where
  "success_call (CallComplete ids mid content ms) = True"
| "success_call (CallCompleteCompanionDelivery ids batchID mid content code ms) = True"
| "success_call _ = False"

text \<open>
  The end of a companion delivery: one outcome for the batch, or a completion the store refused followed by a failure.
\<close>

definition companion_end :: "Lifecycle \<Rightarrow> Batch \<Rightarrow> bool \<Rightarrow> effect list \<Rightarrow> bool" where
  "companion_end l batch ok post \<longleftrightarrow> (\<exists>c. outcomes post = [c] \<and> call_ids c = message_ids batch \<and> (success_call c \<longrightarrow> ok))
     \<or> (\<exists>c0 c. outcomes post = [c0, c] \<and> call_ids c0 = message_ids batch \<and> call_ids c = message_ids batch
          \<and> life_answer l c0 \<noteq> None \<and> \<not> success_call c \<and> ok)"

definition companion_calls :: "Batch \<Rightarrow> effect list" where
  "companion_calls batch = [Life (CallMarkProcessing (message_ids batch)), Life (CallMarkCompanionDeliveryStarted (message_ids batch) (Batch_ID batch))]"

definition batches_of :: "(nat + Batch) list \<Rightarrow> Batch list" where
  "batches_of did = concat (map (case_sum (\<lambda>c. []) (\<lambda>b. [b])) did)"

definition controls_of :: "(nat + Batch) list \<Rightarrow> nat list" where
  "controls_of did = concat (map (case_sum (\<lambda>c. [c]) (\<lambda>b. [])) did)"

lemma control_finished_fields: "cw_processing (control_finished w) = cw_processing w" "cw_controls (control_finished w) = cw_controls w" "cw_queue (control_finished w) = cw_queue w"
  by (simp_all add: control_finished_def signal_def)

lemma did_simps [simp]: "batches_of [] = []" "batches_of (Inl c # did) = batches_of did" "batches_of (Inr b # did) = b # batches_of did"
  "controls_of [] = []" "controls_of (Inl c # did) = c # controls_of did" "controls_of (Inr b # did) = controls_of did"
  by (simp_all add: batches_of_def controls_of_def)

section \<open>The pump\<close>

text \<open>The items in the channel are at most 64, and the bytes reserved are those of their texts, at most 256 KiB.\<close>

definition pump_ok :: "Pump \<Rightarrow> bool" where
  "pump_ok p \<longleftrightarrow> length (pump_items p) \<le> 64 \<and> pump_reserved p = (\<Sum>i \<leftarrow> pump_items p. int (length (Item_Content i))) \<and> pump_reserved p \<le> 256 * 1024"

inductive pump_step :: "Pump \<Rightarrow> Pump \<Rightarrow> bool" where
  item: "pump_step p (snd (OnItem i p))"
| take: "pump_step p (pump_take answer p)"
| tick: "pump_step p (flush answer p)"

lemma flush_simps [simp]: "pump_items (flush a p) = pump_items p" "pump_reserved (flush a p) = pump_reserved p" "pump_projection (flush a p) = pump_projection p"
  by (simp_all add: flush_def)

lemma pump_bounded: "pump_step\<^sup>*\<^sup>* p q \<Longrightarrow> pump_ok p \<Longrightarrow> pump_ok q"
proof (induction rule: rtranclp_induct)
  case (step q r)
  from step(2) have "pump_ok q \<Longrightarrow> pump_ok r"
  proof cases
    case (take answer)
    then show "pump_ok q \<Longrightarrow> pump_ok r" by (auto simp: pump_ok_def pump_take_def Let_def sum_list_nonneg split: list.splits prod.splits option.splits)
  qed (auto simp: pump_ok_def OnItem_def flush_def Let_def)
  then show ?case using step by blast
qed

section \<open>Concrete inputs\<close>

definition ex_output :: Output where
  "ex_output = \<lparr>is_DualZone = True, is_SegmentSender = True, out_create = (\<lambda>tr. Inr ''card''), out_update = (\<lambda>tr c. None),
     out_zones = (\<lambda>tr c p s. None), out_text = (\<lambda>tr to c. Inr ''text''),
     out_segment = (\<lambda>tr to c. \<lparr>Send_MessageID = ''om'', Send_Outcome = CompanionSent, Send_Reason = []\<rparr>)\<rparr>"

definition ex_life :: Lifecycle where
  "ex_life = \<lparr>is_Scheduled = True, is_Result = True, is_Discard = True, is_Companion = True, life_answer = (\<lambda>c. None)\<rparr>"

definition ex_batch :: Batch where
  "ex_batch = the (fst (nextBatch ''batch'' ex_worker))"

definition ex_result :: ProcessResult where
  "ex_result = \<lparr>Res_DurationMS = 7, Res_ThreadID = ''thread'', Res_TurnID = ''turn'', Res_FinalText = ''answer''\<rparr>"

definition ex_turn :: Turn where
  "ex_turn = \<lparr>turn_result = ex_result, turn_err = None, turn_reason = [], turn_drain = None, turn_projection = \<lparr>Proj_progress = [], Proj_final = ''answer''\<rparr>\<rparr>"

definition ex_delivery :: Delivery where
  "ex_delivery = \<lparr>deliv_result = ex_result, deliv_err = None, deliv_reason = [], deliv_final = ''answer'', deliv_uuid = ''u'', deliv_latched = False,
     deliv_done = (\<lambda>i. False), deliv_retry_done = (\<lambda>i. False), deliv_record = (\<lambda>i r k. None), deliv_cancelled = False\<rparr>"

definition ex_scheduled :: Scheduled where
  "ex_scheduled = \<lparr>sch_result = ex_result, sch_err = None, sch_cancelled = False, sch_cancelled_later = False, sch_elapsed = 9\<rparr>"

lemma ex_batch_simps: "message_ids ex_batch = [''m1'', ''m2'']" "Batch_Goal ex_batch = False" "Batch_ID ex_batch = ''batch''"
  by (simp_all add: ex_batch_def ex_worker_def new_worker_def nextBatch_def message_ids_def ex_msg_def Let_def)

lemmas ex_simps = ex_batch_simps ex_output_def ex_life_def ex_turn_def ex_result_def life_do_def

section \<open>Properties\<close>



text \<open>
  C24: A companion's answer is delivered in order. After the marker is stored, the segments of the final answer are sent
  following the protocol of a delivery, and the batch ends with one outcome for all its messages (or a refused
  completion followed by a failure); a success is reported only when every segment was answered for certain.
\<close>

theorem companion_delivery_ordered:
  assumes "is_Companion l" and "companion_error d = None"
    and "life_answer l (CallMarkCompanionDeliveryStarted (message_ids batch) (Batch_ID batch)) = None"
  shows "\<exists>es post ok. snd (process_companion (Inr (Some out)) (Some l) batch d) = companion_calls batch @ es @ post
     \<and> delivery (reply_of batch) ok 0 (fst (snd (companion_segments d))) es \<and> companion_end l batch ok post"
proof -
  obtain emptyFinal segments storage where seg: "companion_segments d = (emptyFinal, segments, storage)" by (cases "companion_segments d") auto
  define err0 where "err0 = (if deliv_latched d then Some ErrCanceled else None)"
  have b: "begin_delivery (Some l) batch d [Life (CallMarkProcessing (message_ids batch))] = (err0, True, companion_calls batch)"
    using assms by (simp add: begin_delivery_def companion_calls_def Begin_def CancelAndWait_def NewDeliverySlot_def Publish_def err0_def)
  define s0 where "s0 = \<lparr>seg_err = err0, seg_first = [], seg_sent = 0, seg_rejected = 0, seg_reason = deliv_reason d, seg_trace = companion_calls batch\<rparr>"
  define s where "s = segment_loop out batch d 0 segments s0"
  obtain es where es: "seg_trace s = companion_calls batch @ es" "delivery (reply_of batch) (seg_err s = None) 0 segments es"
    using segment_loop_delivery [of out batch d 0 segments s0] unfolding s_def by (auto simp: s0_def)
  note ends = process_companion_def deliver_companion_def life_do_def seg b s0_def [symmetric] s_def [symmetric] Let_def es(1) assms(2)
  show ?thesis
  proof (cases "seg_err s")
    case (Some err)
    then show ?thesis using es(2) seg by (intro exI [of _ es] exI [of _ "[Life _]"] exI [of _ False]) (auto simp: ends companion_end_def)
  next
    case None
    let ?post = "drop (length (companion_calls batch @ es)) (snd (process_companion (Inr (Some out)) (Some l) batch d))"
    show ?thesis using None es(2) seg
      by (intro exI [of _ es] exI [of _ ?post] exI [of _ True]) (auto simp: ends companion_end_def split: option.splits)
  qed
qed

theorem companion_delivery_ordered_witness:
  "\<exists>es post ok. snd (process_companion (Inr (Some ex_output)) (Some ex_life) ex_batch ex_delivery) = companion_calls ex_batch @ es @ post
     \<and> delivery (reply_of ex_batch) ok 0 (fst (snd (companion_segments ex_delivery))) es \<and> companion_end ex_life ex_batch ok post"
  by (rule companion_delivery_ordered) (simp_all add: ex_life_def ex_delivery_def companion_error_def)

text \<open>
  Every scheduled batch has exactly one outcome for its run. A worker whose lifecycle serves scheduled runs marks the
  run running and then makes one call that ends it: it discards the run when the channel was cancelled, and otherwise
  reports success exactly when the processor had no error and nobody cancelled. A run that could not be marked running
  is reported failed, without a result.
\<close>

lemma scheduled_batch_one_outcome:
  assumes "is_Scheduled l" "is_Result l" "is_Discard l" and "Batch_ScheduledClaimToken batch \<noteq> []"
  shows "\<exists>c. snd (processScheduled (Some l) batch s) = [CallMarkScheduledRunning (Batch_ScheduledTaskRunID batch) (Batch_ScheduledClaimToken batch), c]
    \<and> (life_answer l (CallMarkScheduledRunning (Batch_ScheduledTaskRunID batch) (Batch_ScheduledClaimToken batch)) \<noteq> None
        \<longrightarrow> c = CallCompleteScheduledRunResult (Batch_ScheduledTaskRunID batch) (Batch_ScheduledClaimToken batch) False ''failed_run_claim'' 0 [] [] [])
    \<and> (life_answer l (CallMarkScheduledRunning (Batch_ScheduledTaskRunID batch) (Batch_ScheduledClaimToken batch)) = None \<longrightarrow>
        (c = CallDiscardScheduledRun (Batch_ScheduledTaskRunID batch) (Batch_ScheduledClaimToken batch) ''cancelled_by_channel_control''
          \<and> fst (processScheduled (Some l) batch s) \<noteq> None \<and> sch_cancelled_later s)
        \<or> (\<exists>code ms. c = CallCompleteScheduledRunResult (Batch_ScheduledTaskRunID batch) (Batch_ScheduledClaimToken batch)
             (sch_err s = None \<and> \<not> sch_cancelled s) code ms (Res_FinalText (sch_result s)) (Res_ThreadID (sch_result s)) (Res_TurnID (sch_result s))))"
  using assms by (auto simp: processScheduled_def finishScheduled_def scheduled_code_def terminalErrorCode_def Let_def split: option.splits)

lemma scheduled_batch_one_outcome_witness:
  "\<exists>c. snd (processScheduled (Some ex_life) (ex_batch\<lparr>Batch_ScheduledTaskRunID := ''run'', Batch_ScheduledClaimToken := ''token''\<rparr>) ex_scheduled)
     = [CallMarkScheduledRunning ''run'' ''token'', c] \<and> c = CallCompleteScheduledRunResult ''run'' ''token'' True [] 7 ''answer'' ''thread'' ''turn''"
  using scheduled_batch_one_outcome [of ex_life "ex_batch\<lparr>Batch_ScheduledTaskRunID := ''run'', Batch_ScheduledClaimToken := ''token''\<rparr>" ex_scheduled]
  by (simp add: ex_life_def processScheduled_def finishScheduled_def scheduled_code_def ex_scheduled_def ex_result_def Let_def)

text \<open>
  C25: A wake-up empties a worker. Left alone, the loop of a worker ends; it has run every pending control in order and
  has taken the queued messages, in order, in batches; only messages behind a batch that timed out are dropped. Then
  the worker is free, with nothing queued.
\<close>

theorem wakeup_empties_worker:
  assumes "\<not> cw_processing w" and "run_loop timeout fresh now w = (did, w')"
  shows "cw_controls w' = [] \<and> cw_queue w' = [] \<and> \<not> cw_processing w' \<and> controls_of did = cw_controls w
    \<and> (\<exists>dropped. cw_queue w = concat (map Batch_Messages (batches_of did)) @ dropped \<and> (list_ex timeout (batches_of did) \<or> dropped = []))"
  using assms
proof (induction timeout fresh now w arbitrary: did w' rule: run_loop.induct)
  case (1 timeout fresh now w)
  show ?case
  proof (cases "cw_controls w")
    case (Cons c cs)
    then have n: "nextControl w = (Some c, w\<lparr>cw_controls := cs\<rparr>)" using 1(3) by (simp add: nextControl_def)
    obtain did1 where did: "did = Inl c # did1" "run_loop timeout fresh now (control_finished (w\<lparr>cw_controls := cs\<rparr>)) = (did1, w')"
      using 1(4) by (subst (asm) run_loop.simps) (auto simp: n split: prod.splits)
    show ?thesis using 1(2) [OF n [symmetric] refl _ did(2)] 1(3) Cons did(1) by (simp add: control_finished_fields)
  next
    case Nil
    then have n: "nextControl w = (None, w)" by (simp add: nextControl_def)
    show ?thesis
    proof (cases "cw_queue w = []")
      case True
      then show ?thesis using 1(3,4) Nil by (subst (asm) run_loop.simps) (auto simp: n nextBatch_def)
    next
      case False
      then obtain b w2 where b: "nextBatch (fresh (length (cw_queue w))) w = (Some b, w2)" using 1(3) by (auto simp: nextBatch_def Let_def neq_Nil_conv)
      define w3 where "w3 = (if timeout b then snd (stop_after_timeout w2) else finishWorkerState now w2)"
      obtain did1 where did: "did = Inr b # did1" "run_loop timeout fresh now w3 = (did1, w')"
        using 1(4) b by (subst (asm) run_loop.simps) (auto simp: n w3_def split: prod.splits)
      have w3: "\<not> cw_processing w3" "cw_controls w3 = []" "cw_queue w3 = (if timeout b then [] else cw_queue w2)"
        using nextBatch_Some(8) [OF b] Nil by (simp_all add: w3_def stop_after_timeout_def finishWorkerState_def signal_def Let_def)
      note ih = 1(1) [OF n [symmetric] refl b [symmetric] refl, folded w3_def, OF w3(1) did(2)]
      show ?thesis using ih nextBatch_Some(1) [OF b] Nil w3 did(1) by (auto simp del: concat_eq_Nil_conv Nil_eq_concat_conv split: if_splits)
    qed
  qed
qed

theorem wakeup_empties_worker_witness:
  "cw_queue (snd (run_loop (\<lambda>b. False) (\<lambda>n. ''b'') 0 ex_worker)) = []
   \<and> concat (map Batch_Messages (batches_of (fst (run_loop (\<lambda>b. False) (\<lambda>n. ''b'') 0 ex_worker)))) = [ex_msg ''m1'' ''a'', ex_msg ''m2'' ''a'', ex_msg ''m3'' ''b'']"
proof -
  have "\<not> cw_processing ex_worker" by (simp add: ex_worker_def new_worker_def)
  from wakeup_empties_worker [OF this, of "\<lambda>b. False" "\<lambda>n. ''b''" 0, OF prod.collapse [symmetric]] show ?thesis
    by (simp add: ex_worker_def Bex_def list_ex_iff)
qed

text \<open>
  A card update that ends with a deadline error leaves a successful batch without any outcome: neither the completion nor
  the fallback text follows, and the worker stops as after a timeout.
\<close>

lemma late_update_leaves_batch_open:
  "outcomes (snd (process_ordinary (Inr (Some (ex_output\<lparr>out_zones := (\<lambda>tr c p s. Some (Wrapf ''update batch card'' ErrDeadlineExceeded))\<rparr>))) (Some ex_life) ex_batch ex_turn)) = []
   \<and> timed_out (fst (process_ordinary (Inr (Some (ex_output\<lparr>out_zones := (\<lambda>tr c p s. Some (Wrapf ''update batch card'' ErrDeadlineExceeded))\<rparr>))) (Some ex_life) ex_batch ex_turn))"
  by (simp add: process_ordinary_def finish_turn_def report_success_def update_card_def ex_simps turn_error_def presentation_error_def timed_out_def ErrDeadlineExceeded_def Let_def)

text \<open>A companion turn that times out fails its messages twice and sends two notices.\<close>

lemma companion_timeout_fails_twice:
  "outcomes (snd (process_companion (Inr (Some out)) (Some l) batch (d\<lparr>deliv_err := Some ErrDeadlineExceeded, deliv_reason := []\<rparr>))) =
     [CallFail (message_ids batch) ''worker_timeout_stopped'' (Res_DurationMS (deliv_result d)), CallFail (message_ids batch) ''companion_batch_failed'' (Res_DurationMS (deliv_result d))]"
  by (simp add: process_companion_def companion_error_def life_do_def ErrDeadlineExceeded_def Let_def)

text \<open>After a timeout an ordinary worker fails a queued scheduled run as a message; the run itself is not discarded.\<close>

lemma timeout_keeps_scheduled_run:
  "Life (CallDiscardScheduledRun run token code) \<notin> set (fst (release_channel output lifecycle (Some ErrDeadlineExceeded) now w))"
  by (auto simp: release_channel_def stop_after_timeout_def drop_pending_def life_do_def timed_out_def split: sum.splits option.splits)

end
