(* ===== verification/Codex_Processor.thy ===== *)
theory Codex_Processor
  imports Catalog_Store Codex_Session Usage_Ledger Attachment_Files Worker_Process
begin

text \<open>
  How a batch becomes a turn of the Codex app server (\<open>internal/codexapp/processor.go\<close>): the thread of the chat is resumed or started with the tools
  of the wanted catalog, the input of the turn is made from the messages and their attachments, and the usage of the completed turns is
  recorded. The app server's answers are a function of the calls made so far; what a turn meets while it runs (its items, completed turns,
  outcome) is an argument. Observation of turns has no effect on the results and is left out.
\<close>

section \<open>The host of a processor\<close>

text \<open>The tools of a catalog; their descriptions and schemas are constant texts that only the app server reads.\<close>

record DynamicTool =
  DT_Name :: string
  DT_Namespace :: string

abbreviation feishu_tool :: "string \<Rightarrow> DynamicTool" where
  "feishu_tool name \<equiv> \<lparr>DT_Name = name, DT_Namespace = ''feishu''\<rparr>"

definition FeishuDynamicTools :: "DynamicTool list" where
  "FeishuDynamicTools = [feishu_tool ''message_send_current_channel'', feishu_tool ''file_upload_and_send_current_channel'',
     feishu_tool ''doc_create_and_announce'', feishu_tool ''doc_read'']"

definition S06DynamicTools :: "DynamicTool list" where
  "S06DynamicTools = FeishuDynamicTools @ [\<lparr>DT_Name = ''task'', DT_Namespace = ''fleetq''\<rparr>, \<lparr>DT_Name = ''list_own'', DT_Namespace = ''schedule''\<rparr>,
     \<lparr>DT_Name = ''create'', DT_Namespace = ''schedule''\<rparr>, \<lparr>DT_Name = ''update'', DT_Namespace = ''schedule''\<rparr>]"

definition S06ToolCatalogVersion :: string where
  "S06ToolCatalogVersion = ''s10-fleetq-v2''"

definition feishuToolsetVersion :: string where
  "feishuToolsetVersion = ''s05-feishu-v2''"

definition ErrUnavailable :: go_error where
  "ErrUnavailable = Sentinel ''app server unavailable''"

record ThreadStartParams =
  TSP_CWD :: string
  TSP_Model :: string
  TSP_ApprovalPolicy :: string
  TSP_Sandbox :: string
  TSP_DynamicTools :: "DynamicTool list"

record ThreadResumeParams =
  TRP_ThreadID :: string
  TRP_CWD :: string
  TRP_Model :: string
  TRP_ApprovalPolicy :: string
  TRP_Sandbox :: string

datatype rpc = ThreadResume ThreadResumeParams | ThreadStart ThreadStartParams | ThreadArchive string | ThreadGoalSet string string

record host =
  h_rpc :: "(rpc \<times> string res) list"
  h_turns :: "(string \<times> TextInput list) list"
  h_files :: file_tree
  h_world :: world

type_synonym 'a hop = "host \<Rightarrow> 'a res \<times> host"

text \<open>
  \<open>p_thread_id\<close> decodes the answer of \<open>thread/start\<close>; \<open>p_shanghai\<close> formats a time in that zone, unless the zone is unknown. \<open>p_upgrades\<close> says whether the
  store implements the catalog upgrade, as the MySQL store does.
\<close>

record CodexProcessor =
  p_ready :: bool
  p_upgrades :: bool
  p_has_tools :: bool
  p_ToolCatalogVersion :: string
  p_Attachments :: "Service option"
  p_has_UsageLedger :: bool
  p_answer :: "(rpc \<times> string res) list \<Rightarrow> rpc \<Rightarrow> string res"
  p_thread_id :: "string \<Rightarrow> string option"
  p_shanghai :: "(go_time \<Rightarrow> string) option"

definition hret :: "'a \<Rightarrow> 'a hop" where
  "hret x h = (Inr x, h)"

definition hfail :: "go_error \<Rightarrow> 'a hop" where
  "hfail e h = (Inl e, h)"

definition htry :: "'a hop \<Rightarrow> ('a res \<Rightarrow> 'b hop) \<Rightarrow> 'b hop" where
  "htry m k h = (case m h of (r, h1) \<Rightarrow> k r h1)"

definition hthen :: "'a hop \<Rightarrow> (go_error \<Rightarrow> go_error) \<Rightarrow> ('a \<Rightarrow> 'b hop) \<Rightarrow> 'b hop" where
  "hthen m wrap k = htry m (\<lambda>r. case r of Inl e \<Rightarrow> hfail (wrap e) | Inr x \<Rightarrow> k x)"

definition on_db :: "'a op \<Rightarrow> 'a hop" where
  "on_db m h = (case m (h_world h) of (r, w) \<Rightarrow> (r, h\<lparr>h_world := w\<rparr>))"

definition call :: "CodexProcessor \<Rightarrow> rpc \<Rightarrow> string hop" where
  "call p c h = (let r = p_answer p (h_rpc h) c in (r, h\<lparr>h_rpc := h_rpc h @ [(c, r)]\<rparr>))"

section \<open>The tool catalog of a thread\<close>

definition targetToolCatalogVersion :: "CodexProcessor \<Rightarrow> string" where
  "targetToolCatalogVersion p = (if p_ToolCatalogVersion p = S06ToolCatalogVersion then S06ToolCatalogVersion else feishuToolsetVersion)"

definition dynamicTools :: "CodexProcessor \<Rightarrow> DynamicTool list" where
  "dynamicTools p = (if targetToolCatalogVersion p = S06ToolCatalogVersion then S06DynamicTools else FeishuDynamicTools)"

definition finish_archive :: "CodexProcessor \<Rightarrow> string \<Rightarrow> Upgrade \<Rightarrow> (string \<times> bool) hop" where
  "finish_archive p groupID state = hthen (on_db (AdvanceCatalogUpgradeAfterArchive groupID (Up_FromThreadID state))) id (\<lambda>advanced.
     if \<not> advanced then hfail (Errorf ''catalog archive transition changed concurrently'') else hret ([], True))"

definition ensureToolCatalog :: "CodexProcessor \<Rightarrow> string \<Rightarrow> string \<Rightarrow> (string \<times> bool) hop" where
  "ensureToolCatalog p groupID threadID = (let targetVersion = targetToolCatalogVersion p in
     if p_upgrades p then hthen (on_db (PrepareCatalogUpgrade groupID targetVersion)) id (\<lambda>state. case Up_State state of
         Stable \<Rightarrow> if Up_CurrentVersion state \<noteq> targetVersion then hfail (Errorf ''catalog upgrade did not persist target'')
           else hret (Up_CurrentThreadID state, False)
       | ArchivePending \<Rightarrow> if Up_FromThreadID state \<noteq> []
           then hthen (call p (ThreadArchive (Up_FromThreadID state))) (Wrapf ''archive outdated tool catalog'') (\<lambda>_. finish_archive p groupID state)
           else finish_archive p groupID state
       | StartPending \<Rightarrow> hret ([], True))
     else hthen (on_db (GetChatGroupToolset groupID)) id (\<lambda>toolset.
       if toolset = targetVersion then hret (threadID, False)
       else (let record_target = hthen (on_db (SetChatGroupToolset groupID targetVersion)) id (\<lambda>_. hret ([], False)) in
         if threadID = [] then record_target
         else hthen (call p (ThreadArchive threadID)) (Wrapf ''archive outdated tool catalog'') (\<lambda>_.
           hthen (on_db (SetThreadIfExpected groupID threadID [])) (Wrapf ''clear outdated tool catalog'') (\<lambda>cleared.
             if \<not> cleared then hfail (Errorf ''clear outdated tool catalog'') else record_target)))))"

text \<open>\<open>thread/start\<close> and the id it answers.\<close>

definition start_thread :: "CodexProcessor \<Rightarrow> Batch \<Rightarrow> DynamicTool list \<Rightarrow> string hop" where
  "start_thread p batch tools = hthen (call p (ThreadStart \<lparr>TSP_CWD = Runtime_WorkspaceDir (Batch_Runtime batch), TSP_Model = Runtime_Model (Batch_Runtime batch),
       TSP_ApprovalPolicy = ''never'', TSP_Sandbox = ''danger-full-access'', TSP_DynamicTools = tools\<rparr>)) id (\<lambda>raw.
     case p_thread_id p raw of None \<Rightarrow> hfail (Errorf ''thread/start missing thread id'')
     | Some t \<Rightarrow> if t = [] then hfail (Errorf ''thread/start missing thread id'') else hret t)"

definition resume_thread :: "CodexProcessor \<Rightarrow> Batch \<Rightarrow> string \<Rightarrow> string hop" where
  "resume_thread p batch threadID = call p (ThreadResume \<lparr>TRP_ThreadID = threadID, TRP_CWD = Runtime_WorkspaceDir (Batch_Runtime batch),
     TRP_Model = Runtime_Model (Batch_Runtime batch), TRP_ApprovalPolicy = ''never'', TRP_Sandbox = ''danger-full-access''\<rparr>)"

section \<open>Turns\<close>

record CompletedItem =
  CI_ID :: string
  CI_Type :: string
  CI_Phase :: string
  CI_Text :: string

record TurnCompleted =
  TC_ThreadID :: string
  TC_TurnID :: string
  TC_Status :: string
  TC_Usage :: "usage option"
  TC_SnapshotUsage :: "usage option"

text \<open>
  What one turn meets: the items it completes, the turns reported as completed, the id reported at its start, when \<open>StartTurn\<close> says it began, its
  error, the clock at its end, and the disk its attachments meet. \<open>run_on_item\<close> says whether the batch listens to items.
\<close>

record turn_run =
  run_items :: "CompletedItem list"
  run_completed :: "TurnCompleted list"
  run_turnID :: string
  run_startedAt :: go_time
  run_err :: "go_error option"
  run_endedAt :: go_time
  run_preparation :: preparation
  run_on_item :: bool

definition durationMilliseconds :: "go_time \<Rightarrow> go_time \<Rightarrow> int" where
  "durationMilliseconds startedAt endedAt = (if is_zero_time startedAt \<or> endedAt < startedAt then 0 else endedAt - startedAt)"

fun messageQueries :: "Message list \<Rightarrow> string list" where
  "messageQueries [] = []"
| "messageQueries (m # ms) = (if Msg_Query m = [] then messageQueries ms else Msg_Query m # messageQueries ms)"

fun newline_join :: "string list \<Rightarrow> string" where
  "newline_join [] = []"
| "newline_join [x] = x"
| "newline_join (x # y # xs) = x @ CHR 0x0A # newline_join (y # xs)"

definition dated_query :: "(go_time \<Rightarrow> string) \<Rightarrow> Message \<Rightarrow> string" where
  "dated_query shanghai m = (if is_zero_time (Msg_ReceivedAt m) then Msg_Query m
     else ''<now timezone='' @ CHR 0x22 # ''Asia/Shanghai'' @ CHR 0x22 # ''>'' @ shanghai (Msg_ReceivedAt m) @ ''</now>'' @ CHR 0x0A # Msg_Query m)"

definition FormatNormalMessages :: "(go_time \<Rightarrow> string) option \<Rightarrow> Message list \<Rightarrow> string" where
  "FormatNormalMessages location ms = (case location of None \<Rightarrow> newline_join (messageQueries ms)
     | Some shanghai \<Rightarrow> newline_join (map (dated_query shanghai) (filter (\<lambda>m. Msg_Query m \<noteq> []) ms)))"

definition usage_record :: "Batch \<Rightarrow> TurnCompleted \<Rightarrow> usage \<Rightarrow> TurnUsageRecord" where
  "usage_record batch t u = \<lparr>Rec_TraceID = Msg_TraceID (hd (Batch_Messages batch)), Rec_ThreadID = TC_ThreadID t, Rec_TurnID = TC_TurnID t,
     Rec_Session = \<lparr>sk_AppID = Runtime_ID (Batch_Runtime batch), sk_ChatType = Msg_ChatType (hd (Batch_Messages batch)),
       sk_ChatID = Msg_ChatID (hd (Batch_Messages batch))\<rparr>, Rec_Usage = u\<rparr>"

definition record_turn :: "Batch \<Rightarrow> TurnCompleted \<Rightarrow> SessionUsageTotal option op" where
  "record_turn batch t = (if TC_TurnID t = [] then ret None
     else case TC_Usage t of
       Some u \<Rightarrow> and_then (RecordTurnUsage (usage_record batch t u)) (Wrapf ''record completed turn usage'') (\<lambda>r. ret (Some (fst r)))
     | None \<Rightarrow> (case TC_SnapshotUsage t of
         Some u \<Rightarrow> and_then (RecordThreadUsageSnapshot (usage_record batch t u)) (Wrapf ''record completed turn usage'') (\<lambda>r. ret (Some r))
       | None \<Rightarrow> ret None))"

definition no_total :: SessionUsageTotal where
  "no_total = \<lparr>Total_Usage = zero_usage, CompletedTurnCount = 0\<rparr>"

fun record_turns :: "Batch \<Rightarrow> SessionUsageTotal \<Rightarrow> TurnCompleted list \<Rightarrow> SessionUsageTotal op" where
  "record_turns batch latest [] = ret latest"
| "record_turns batch latest (t # ts) = and_then (record_turn batch t) id (\<lambda>r. record_turns batch (case r of None \<Rightarrow> latest | Some newest \<Rightarrow> newest) ts)"

definition recordCompletedUsage :: "CodexProcessor \<Rightarrow> Batch \<Rightarrow> TurnCompleted list \<Rightarrow> SessionUsageTotal op" where
  "recordCompletedUsage p batch turns = (if \<not> p_has_UsageLedger p \<or> Batch_Messages batch = [] then ret no_total else record_turns batch no_total turns)"

text \<open>The final text: the last final answer, or the last answer of the agent.\<close>

definition spoken :: "CompletedItem \<Rightarrow> bool" where
  "spoken item \<longleftrightarrow> CI_Type item = ''agentMessage'' \<and> trim_space (CI_Text item) \<noteq> []"

fun scheduled_text :: "string \<times> string \<Rightarrow> CompletedItem list \<Rightarrow> string \<times> string" where
  "scheduled_text x [] = x"
| "scheduled_text (final_text, candidate) (item # items) = scheduled_text
     (if spoken item then (if CI_Phase item = ''final_answer'' then CI_Text item else final_text, CI_Text item) else (final_text, candidate)) items"

definition final_of :: "CompletedItem list \<Rightarrow> string" where
  "final_of items = (case scheduled_text ([], []) items of (final_text, candidate) \<Rightarrow> if final_text = [] then candidate else final_text)"

text \<open>The items the batch gets to see.\<close>

definition forwarded :: "Batch \<Rightarrow> turn_run \<Rightarrow> CompletedItem list" where
  "forwarded batch run = (if run_on_item run then filter (\<lambda>item. \<not> (spoken item \<and> Batch_ScheduledTaskRunID batch \<noteq> [])) (run_items run) else [])"

definition no_result :: ProcessResult where
  "no_result = \<lparr>Res_DurationMS = 0, Res_ThreadID = [], Res_TurnID = [], Res_FinalText = []\<rparr>"

definition prepare_inputs :: "CodexProcessor \<Rightarrow> turn_run \<Rightarrow> Batch \<Rightarrow> TextInput list hop" where
  "prepare_inputs p run batch h = (if \<not> Msg_HasRequiredAttachment (hd (Batch_Messages batch)) then (Inr [], h)
     else case p_Attachments p of None \<Rightarrow> (Inl (Errorf ''attachment resolver is unavailable''), h)
     | Some s \<Rightarrow> (case Prepare s (run_preparation run) batch (h_files h) (h_world h) of
         (Inl err, files, w) \<Rightarrow> (Inl (Wrapf ''prepare attachments'' err), h\<lparr>h_files := files, h_world := w\<rparr>)
       | (Inr inputs, files, w) \<Rightarrow> (Inr inputs, h\<lparr>h_files := files, h_world := w\<rparr>)))"

abbreviation text_input :: "string \<Rightarrow> TextInput" where
  "text_input t \<equiv> \<lparr>TI_Type = ''text'', TI_Text = t, TI_Path = [], TI_Detail = [], TI_ObservationPath = []\<rparr>"

definition begin_turn :: "string \<Rightarrow> TextInput list \<Rightarrow> unit hop" where
  "begin_turn threadID input h = (Inr (), h\<lparr>h_turns := h_turns h @ [(threadID, input)]\<rparr>)"

text \<open>The usage is recorded after the turn; its error is the turn's error unless the turn had one.\<close>

definition end_turn :: "CodexProcessor \<Rightarrow> turn_run \<Rightarrow> Batch \<Rightarrow> string \<Rightarrow> string \<Rightarrow> (ProcessResult \<times> go_error option) hop" where
  "end_turn p run batch threadID final_text = htry (on_db (recordCompletedUsage p batch (run_completed run))) (\<lambda>recorded.
     hret (\<lparr>Res_DurationMS = durationMilliseconds (run_startedAt run) (run_endedAt run), Res_ThreadID = threadID, Res_TurnID = run_turnID run,
       Res_FinalText = final_text\<rparr>,
      case run_err run of Some err \<Rightarrow> Some err | None \<Rightarrow> (case recorded of Inl err \<Rightarrow> Some err | Inr _ \<Rightarrow> None)))"

definition startTurn :: "CodexProcessor \<Rightarrow> turn_run \<Rightarrow> Batch \<Rightarrow> string \<Rightarrow> (ProcessResult \<times> go_error option) hop" where
  "startTurn p run batch threadID = (let said = FormatNormalMessages (p_shanghai p) (Batch_Messages batch) in
     hthen (prepare_inputs p run batch) id (\<lambda>attachments.
     hthen (begin_turn threadID ((if said = [] then [] else [text_input said]) @ attachments)) id (\<lambda>_.
       end_turn p run batch threadID (final_of (run_items run)))))"

section \<open>Processing a batch\<close>

definition start_new :: "CodexProcessor \<Rightarrow> turn_run \<Rightarrow> Batch \<Rightarrow> string \<Rightarrow> string \<Rightarrow> bool \<Rightarrow> (ProcessResult \<times> go_error option) hop" where
  "start_new p run batch groupID threadID startCatalogUpgrade =
     hthen (start_thread p batch (if p_has_tools p then dynamicTools p else [])) id (\<lambda>new.
     hthen (if startCatalogUpgrade then (if p_upgrades p then on_db (CompleteCatalogUpgrade groupID (targetToolCatalogVersion p) new)
              else hfail (Errorf ''catalog upgrade store is required''))
            else on_db (SetThreadIfExpected groupID threadID new)) id (\<lambda>changed.
       if changed then startTurn p run batch new
       else htry (call p (ThreadArchive new)) (\<lambda>_. htry (on_db (GetChatGroupThread groupID)) (\<lambda>_.
         hfail (Errorf ''chat group thread changed concurrently'')))))"

definition processOrdinary :: "CodexProcessor \<Rightarrow> turn_run \<Rightarrow> Batch \<Rightarrow> string \<Rightarrow> (ProcessResult \<times> go_error option) hop" where
  "processOrdinary p run batch groupID =
     hthen (on_db (GetChatGroupThread groupID)) id (\<lambda>stored.
     hthen (if p_has_tools p then ensureToolCatalog p groupID stored else hret (stored, False)) id (\<lambda>(threadID, startCatalogUpgrade).
       if threadID \<noteq> [] \<and> \<not> startCatalogUpgrade
       then htry (resume_thread p batch threadID) (\<lambda>r. case r of Inr _ \<Rightarrow> startTurn p run batch threadID
         | Inl _ \<Rightarrow> start_new p run batch groupID threadID startCatalogUpgrade)
       else start_new p run batch groupID threadID startCatalogUpgrade))"

text \<open>A goal: \<open>goal_prepared\<close> is the error of \<open>PrepareGoal\<close>; \<open>run\<close> is what its turns meet.\<close>

definition startGoal :: "CodexProcessor \<Rightarrow> turn_run \<Rightarrow> go_error option \<Rightarrow> Batch \<Rightarrow> string \<Rightarrow> string \<Rightarrow> (ProcessResult \<times> go_error option) hop" where
  "startGoal p run goal_prepared batch threadID objective = (case goal_prepared of Some err \<Rightarrow> hfail err
     | None \<Rightarrow> hthen (call p (ThreadGoalSet threadID objective)) (Wrapf ''set thread goal'') (\<lambda>_.
         hthen (begin_turn threadID [text_input objective]) id (\<lambda>_. end_turn p run batch threadID [])))"

definition processGoal :: "CodexProcessor \<Rightarrow> turn_run \<Rightarrow> go_error option \<Rightarrow> Batch \<Rightarrow> string \<Rightarrow> (ProcessResult \<times> go_error option) hop" where
  "processGoal p run goal_prepared batch groupID = (let objective = Msg_Query (hd (Batch_Messages batch)) in
     if objective = [] then hfail (Errorf ''goal objective is required'')
     else hthen (on_db (GetChatGroupThread groupID)) id (\<lambda>threadID.
       let fresh = hthen (start_thread p batch (if p_has_tools p then FeishuDynamicTools else [])) id (\<lambda>new.
           hthen (on_db (SetThreadIfExpected groupID threadID new)) id (\<lambda>changed.
             if changed then startGoal p run goal_prepared batch new objective
             else htry (call p (ThreadArchive new)) (\<lambda>_. hfail (Errorf ''chat group thread changed concurrently'')))) in
       if threadID = [] then fresh
       else htry (resume_thread p batch threadID) (\<lambda>r. case r of Inr _ \<Rightarrow> startGoal p run goal_prepared batch threadID objective | Inl _ \<Rightarrow> fresh)))"

definition process_batch :: "CodexProcessor \<Rightarrow> turn_run \<Rightarrow> go_error option \<Rightarrow> Batch \<Rightarrow> (ProcessResult \<times> go_error option) hop" where
  "process_batch p run goal_prepared batch =
     (if \<not> p_ready p then hfail ErrUnavailable
      else if Batch_Messages batch = [] \<or> Msg_ChatGroupID (hd (Batch_Messages batch)) = [] then hfail (Errorf ''batch missing chat group'')
      else let groupID = Msg_ChatGroupID (hd (Batch_Messages batch)) in
        if Batch_Goal batch then processGoal p run goal_prepared batch groupID else processOrdinary p run batch groupID)"

definition Process :: "CodexProcessor \<Rightarrow> turn_run \<Rightarrow> go_error option \<Rightarrow> Batch \<Rightarrow> host \<Rightarrow> (ProcessResult \<times> go_error option) \<times> host" where
  "Process p run goal_prepared batch h = (case process_batch p run goal_prepared batch h of
     (Inl err, h1) \<Rightarrow> ((no_result, Some err), h1) | (Inr x, h1) \<Rightarrow> (x, h1))"

section \<open>Triples over the host\<close>

definition htriple :: "(host \<Rightarrow> bool) \<Rightarrow> 'a hop \<Rightarrow> ('a \<Rightarrow> host \<Rightarrow> bool) \<Rightarrow> (host \<Rightarrow> bool) \<Rightarrow> bool" where
  "htriple P m Q E \<longleftrightarrow> (\<forall>h. P h \<longrightarrow> (case m h of (Inr x, h') \<Rightarrow> Q x h' | (Inl e, h') \<Rightarrow> E h'))"

lemma htripleD: "htriple P m Q E \<Longrightarrow> P h \<Longrightarrow> m h = (Inr x, h') \<Longrightarrow> Q x h'" "htriple P m Q E \<Longrightarrow> P h \<Longrightarrow> m h = (Inl e, h') \<Longrightarrow> E h'"
  by (fastforce simp: htriple_def)+

lemma htripleI:
  "(\<And>h x h'. P h \<Longrightarrow> m h = (Inr x, h') \<Longrightarrow> Q x h') \<Longrightarrow> (\<And>h e h'. P h \<Longrightarrow> m h = (Inl e, h') \<Longrightarrow> E h') \<Longrightarrow> htriple P m Q E"
  by (auto simp: htriple_def split: prod.split sum.split)

lemma htriple_pre: "htriple P m Q E \<Longrightarrow> (\<And>h. P' h \<Longrightarrow> P h) \<Longrightarrow> htriple P' m Q E"
  by (simp add: htriple_def)

lemma htriple_hret: "(\<And>h. P h \<Longrightarrow> Q x h) \<Longrightarrow> htriple P (hret x) Q E"
  by (simp add: htriple_def hret_def)

lemma htriple_hfail: "(\<And>h. P h \<Longrightarrow> E h) \<Longrightarrow> htriple P (hfail e) Q E"
  by (simp add: htriple_def hfail_def)

lemma htriple_htry:
  assumes "htriple P m Q E'" and "\<And>x. htriple (Q x) (k (Inr x)) R E" and "\<And>e. htriple E' (k (Inl e)) R E"
  shows "htriple P (htry m k) R E"
proof (unfold htriple_def, intro allI impI)
  fix h assume P: "P h"
  obtain r h1 where m: "m h = (r, h1)" by fastforce
  show "case htry m k h of (Inr x, h') \<Rightarrow> R x h' | (Inl e, h') \<Rightarrow> E h'"
  proof (cases r)
    case (Inl e)
    then have "E' h1" using htripleD(2) [OF assms(1) P] m by simp
    then show ?thesis using assms(3) [of e] m Inl by (simp add: htry_def htriple_def)
  next
    case (Inr x)
    then have "Q x h1" using htripleD(1) [OF assms(1) P] m by simp
    then show ?thesis using assms(2) [of x] m Inr by (simp add: htry_def htriple_def)
  qed
qed

lemma htriple_hthen:
  assumes "htriple P m Q E" and "\<And>x. htriple (Q x) (k x) R E"
  shows "htriple P (hthen m wrap k) R E"
  unfolding hthen_def by (rule htriple_htry [OF assms(1)]) (use assms(2) in \<open>simp_all add: htriple_hfail\<close>)

section \<open>Threads carry the wanted tools\<close>

definition started_with :: "CodexProcessor \<Rightarrow> (rpc \<times> string res) list \<Rightarrow> DynamicTool list \<Rightarrow> string \<Rightarrow> bool" where
  "started_with p log tools t \<longleftrightarrow> (\<exists>c raw. (ThreadStart c, Inr raw) \<in> set log \<and> TSP_DynamicTools c = tools \<and> p_thread_id p raw = Some t)"

text \<open>A group that is stable at the wanted version has no thread or one that was started with the wanted tools.\<close>

definition catalog_ok :: "CodexProcessor \<Rightarrow> (rpc \<times> string res) list \<Rightarrow> chat_group_row \<Rightarrow> bool" where
  "catalog_ok p log g \<longleftrightarrow> (g_upgrade_state g = Stable \<and> g_catalog_version g = targetToolCatalogVersion p \<longrightarrow>
     (\<forall>t. g_thread_id g = Some t \<longrightarrow> t = [] \<or> started_with p log (dynamicTools p) t))"

definition catalog_inv :: "CodexProcessor \<Rightarrow> host \<Rightarrow> bool" where
  "catalog_inv p h \<longleftrightarrow> groups_ok (catalog_ok p (h_rpc h)) (h_world h) \<and> (\<forall>(t, input) \<in> set (h_turns h). started_with p (h_rpc h) (dynamicTools p) t)"

lemma started_threads_mono: "started_with p log tools t \<Longrightarrow> set log \<subseteq> set log' \<Longrightarrow> started_with p log' tools t"
  by (auto simp: started_with_def)

lemma catalog_ok_mono: "catalog_ok p log g \<Longrightarrow> set log \<subseteq> set log' \<Longrightarrow> catalog_ok p log' g"
  using started_threads_mono by (fastforce simp: catalog_ok_def)

lemma catalog_inv_call:
  assumes "catalog_inv p h"
  shows "catalog_inv p (h\<lparr>h_rpc := h_rpc h @ xs\<rparr>)"
proof -
  have sub: "set (h_rpc h) \<subseteq> set (h_rpc h @ xs)" by simp
  show ?thesis using assms catalog_ok_mono [OF _ sub] started_threads_mono [OF _ sub] unfolding catalog_inv_def groups_ok_def by auto
qed

text \<open>Every intermediate assertion is the invariant with a fact about the log, which only grows.\<close>

abbreviation knows :: "CodexProcessor \<Rightarrow> string \<Rightarrow> host \<Rightarrow> bool" where
  "knows p t h \<equiv> catalog_inv p h \<and> started_with p (h_rpc h) (dynamicTools p) t"

lemma htriple_sndI: "(\<And>h. P h \<Longrightarrow> Q (snd (m h))) \<Longrightarrow> htriple P m (\<lambda>_. Q) Q"
  unfolding htriple_def by (auto split: prod.split sum.split) (metis snd_conv)+

lemma snd_call: "snd (call p c h) = h\<lparr>h_rpc := h_rpc h @ [(c, p_answer p (h_rpc h) c)]\<rparr>"
  by (simp add: call_def Let_def)

lemma call_inv: "htriple (catalog_inv p) (call p c) (\<lambda>_. catalog_inv p) (catalog_inv p)"
  by (rule htriple_sndI) (simp add: snd_call catalog_inv_call)

lemma call_knows: "htriple (knows p t) (call p c) (\<lambda>_. knows p t) (knows p t)"
proof (rule htriple_sndI)
  fix h assume "knows p t h"
  then show "knows p t (snd (call p c h))" unfolding snd_call
    using catalog_inv_call [of p h] started_threads_mono [of p "h_rpc h" _ t "h_rpc h @ [(c, p_answer p (h_rpc h) c)]"] by auto
qed

lemma snd_on_db: "snd (on_db m h) = h\<lparr>h_world := snd (m (h_world h))\<rparr>"
  by (simp add: on_db_def split: prod.split)

lemma db_knows:
  assumes "\<And>log. started_with p log (dynamicTools p) t \<Longrightarrow>
    preserves (\<lambda>w w'. groups_ok (catalog_ok p log) w \<longrightarrow> groups_ok (catalog_ok p log) w') m"
  shows "htriple (knows p t) (on_db m) (\<lambda>_. knows p t) (knows p t)"
proof (rule htriple_sndI)
  fix h assume k: "knows p t h"
  then show "knows p t (snd (on_db m h))"
    using preservesD [OF assms [of "h_rpc h"], of "h_world h"] by (simp add: snd_on_db catalog_inv_def)
qed

lemma db_inv:
  assumes "\<And>log. preserves (\<lambda>w w'. groups_ok (catalog_ok p log) w \<longrightarrow> groups_ok (catalog_ok p log) w') m"
  shows "htriple (catalog_inv p) (on_db m) (\<lambda>_. catalog_inv p) (catalog_inv p)"
proof (rule htriple_sndI)
  fix h assume "catalog_inv p h"
  then show "catalog_inv p (snd (on_db m h))" using preservesD [OF assms [of "h_rpc h"], of "h_world h"] by (simp add: snd_on_db catalog_inv_def)
qed

lemma htriple_post: "htriple P m Q E \<Longrightarrow> (\<And>x h. Q x h \<Longrightarrow> Q' x h) \<Longrightarrow> (\<And>h. E h \<Longrightarrow> E' h) \<Longrightarrow> htriple P m Q' E'"
  by (rule htripleI) (blast dest: htripleD)+

lemma groups_reads:
  "preserves (\<lambda>w w'. groups_ok ok w \<longrightarrow> groups_ok ok w') (GetChatGroupThread g)"
  unfolding GetChatGroupThread_def by (intro groups.inv_rel.preserves_intros)

lemma catalog_upgrades:
  "preserves (\<lambda>w w'. groups_ok (catalog_ok p log) w \<longrightarrow> groups_ok (catalog_ok p log) w') (PrepareCatalogUpgrade g v)"
  "preserves (\<lambda>w w'. groups_ok (catalog_ok p log) w \<longrightarrow> groups_ok (catalog_ok p log) w') (AdvanceCatalogUpgradeAfterArchive g t)"
  unfolding PrepareCatalogUpgrade_def AdvanceCatalogUpgradeAfterArchive_def Let_def
  by (intro groups.inv_rel.preserves_intros groups_touch; simp add: catalog_ok_def)+

lemma catalog_publish:
  assumes "started_with p log (dynamicTools p) t"
  shows "preserves (\<lambda>w w'. groups_ok (catalog_ok p log) w \<longrightarrow> groups_ok (catalog_ok p log) w') (CompleteCatalogUpgrade g v t)"
    and "preserves (\<lambda>w w'. groups_ok (catalog_ok p log) w \<longrightarrow> groups_ok (catalog_ok p log) w') (SetThreadIfExpected g old t)"
  unfolding CompleteCatalogUpgrade_def SetThreadIfExpected_def
  by (intro groups.inv_rel.preserves_intros groups_touch groups_set_threads; use assms in \<open>simp add: catalog_ok_def nullable_def\<close>)+

lemma catalog_clear: "preserves (\<lambda>w w'. groups_ok (catalog_ok p log) w \<longrightarrow> groups_ok (catalog_ok p log) w') (SetThreadIfExpected g old [])"
  unfolding SetThreadIfExpected_def by (intro groups.inv_rel.preserves_intros groups_set_threads; simp add: catalog_ok_def nullable_def)

text \<open>A group that is reported as stable is one of the table.\<close>

lemma prepared_stable:
  assumes "PrepareCatalogUpgrade i v w = (Inr state, w')" and "Up_State state = Stable"
  obtains g where "g \<in> set (chat_groups w)" "state = scanCatalogUpgrade g"
proof -
  from assms(1) obtain g where g: "sql_first (\<lambda>g. g_id g = i) (chat_groups w) = Some g" "state = scanCatalogUpgrade g \<or> Up_State state = ArchivePending"
    unfolding PrepareCatalogUpgrade_def guard_Inr_iff transaction_Inr_iff and_then_Inr_iff query_Inr_iff case_option_Inr_iff Let_def
    by (auto simp: and_then_Inr_iff split: if_splits)
  show thesis using that [of g] sql_first_SomeD [OF g(1)] g(2) assms(2) by auto
qed

lemma prepared_knows:
  "htriple (catalog_inv p) (on_db (PrepareCatalogUpgrade i (targetToolCatalogVersion p)))
    (\<lambda>state h. catalog_inv p h \<and> (Up_State state = Stable \<and> Up_CurrentVersion state = targetToolCatalogVersion p \<and> Up_CurrentThreadID state \<noteq> []
      \<longrightarrow> started_with p (h_rpc h) (dynamicTools p) (Up_CurrentThreadID state))) (catalog_inv p)"
proof (unfold htriple_def, intro allI impI)
  fix h assume inv: "catalog_inv p h"
  let ?m = "on_db (PrepareCatalogUpgrade i (targetToolCatalogVersion p))"
  obtain r w where m: "PrepareCatalogUpgrade i (targetToolCatalogVersion p) (h_world h) = (r, w)" by fastforce
  have after: "?m h = (r, h\<lparr>h_world := w\<rparr>)" by (simp add: on_db_def m)
  have kept: "catalog_inv p (h\<lparr>h_world := w\<rparr>)"
    using preservesD [OF catalog_upgrades(1), of p "h_rpc h" "h_world h" i "targetToolCatalogVersion p"] inv m by (simp add: catalog_inv_def)
  have "started_with p (h_rpc h) (dynamicTools p) (Up_CurrentThreadID state)"
    if "r = Inr state" "Up_State state = Stable" "Up_CurrentVersion state = targetToolCatalogVersion p" "Up_CurrentThreadID state \<noteq> []" for state
  proof -
    note stable = that
    obtain g where g: "g \<in> set (chat_groups (h_world h))" "state = scanCatalogUpgrade g"
      using prepared_stable [OF m [unfolded stable(1)] stable(2)] .
    then have "catalog_ok p (h_rpc h) g" using inv by (simp add: catalog_inv_def groups_ok_def)
    then show ?thesis using stable g(2) by (auto simp: catalog_ok_def scanCatalogUpgrade_def split: option.splits)
  qed
  then show "case ?m h of (Inr state, h') \<Rightarrow> catalog_inv p h' \<and> (Up_State state = Stable \<and> Up_CurrentVersion state = targetToolCatalogVersion p
      \<and> Up_CurrentThreadID state \<noteq> [] \<longrightarrow> started_with p (h_rpc h') (dynamicTools p) (Up_CurrentThreadID state)) | (Inl e, h') \<Rightarrow> catalog_inv p h'"
    using kept by (simp add: after split: sum.split)
qed

lemma ensureToolCatalog_knows:
  assumes "p_upgrades p"
  shows "htriple (catalog_inv p) (ensureToolCatalog p groupID threadID)
    (\<lambda>x h. catalog_inv p h \<and> (\<not> snd x \<and> fst x \<noteq> [] \<longrightarrow> started_with p (h_rpc h) (dynamicTools p) (fst x))) (catalog_inv p)"
proof -
  let ?Q = "\<lambda>x h. catalog_inv p h \<and> (\<not> snd x \<and> fst x \<noteq> [] \<longrightarrow> started_with p (h_rpc h) (dynamicTools p) (fst x))"
  have finish: "htriple (catalog_inv p) (finish_archive p groupID state) ?Q (catalog_inv p)" for state
    unfolding finish_archive_def
    by (rule htriple_hthen [OF db_inv [OF catalog_upgrades(2)]]) (simp add: htriple_hret htriple_hfail)
  show ?thesis unfolding ensureToolCatalog_def Let_def if_P [OF assms]
  proof (rule htriple_hthen [OF prepared_knows])
    fix state :: Upgrade
    let ?P = "\<lambda>h. catalog_inv p h \<and> (Up_State state = Stable \<and> Up_CurrentVersion state = targetToolCatalogVersion p \<and> Up_CurrentThreadID state \<noteq> []
      \<longrightarrow> started_with p (h_rpc h) (dynamicTools p) (Up_CurrentThreadID state))"
    show "htriple ?P (case Up_State state of
         Stable \<Rightarrow> if Up_CurrentVersion state \<noteq> targetToolCatalogVersion p then hfail (Errorf ''catalog upgrade did not persist target'')
           else hret (Up_CurrentThreadID state, False)
       | ArchivePending \<Rightarrow> if Up_FromThreadID state \<noteq> []
           then hthen (call p (ThreadArchive (Up_FromThreadID state))) (Wrapf ''archive outdated tool catalog'') (\<lambda>_. finish_archive p groupID state)
           else finish_archive p groupID state
       | StartPending \<Rightarrow> hret ([], True)) ?Q (catalog_inv p)"
    proof (cases "Up_State state")
      case Stable
      then show ?thesis by (auto intro!: htriple_hret htriple_hfail)
    next
      case ArchivePending
      have "htriple (catalog_inv p) (hthen (call p (ThreadArchive (Up_FromThreadID state))) (Wrapf ''archive outdated tool catalog'')
          (\<lambda>_. finish_archive p groupID state)) ?Q (catalog_inv p)"
        by (rule htriple_hthen [OF call_inv]) (rule finish)
      then show ?thesis using ArchivePending finish by (auto intro: htriple_pre)
    next
      case StartPending
      then show ?thesis by (auto intro!: htriple_hret)
    qed
  qed
qed

text \<open>A thread that was just started is known.\<close>

lemma started_last: "TSP_DynamicTools c = tools \<Longrightarrow> p_thread_id p raw = Some t \<Longrightarrow> started_with p (log @ [(ThreadStart c, Inr raw)]) tools t"
  unfolding started_with_def by (intro exI [of _ c] exI [of _ raw]) simp

lemma start_thread_knows: "htriple (catalog_inv p) (start_thread p batch (dynamicTools p)) (knows p) (catalog_inv p)"
proof (unfold htriple_def, intro allI impI)
  fix h assume inv: "catalog_inv p h"
  show "case start_thread p batch (dynamicTools p) h of (Inr t, h') \<Rightarrow> knows p t h' | (Inl e, h') \<Rightarrow> catalog_inv p h'"
    using catalog_inv_call [OF inv]
    by (auto simp: start_thread_def hthen_def htry_def call_def Let_def hfail_def hret_def intro!: started_last split: sum.split option.split)
qed

section \<open>A turn keeps the groups\<close>

interpretation same_groups: world_relation "\<lambda>w w'. chat_groups w' = chat_groups w"
  by unfold_locales auto

lemma same_groups_exec:
  "(\<And>w. chat_groups (snd (stmt w)) = chat_groups w) \<Longrightarrow> preserves (\<lambda>w w'. chat_groups w' = chat_groups w) (exec stmt)"
  by (rule same_groups.preserves_exec, rule preservesI) simp

lemma same_groups_attachments:
  "preserves (\<lambda>w w'. chat_groups w' = chat_groups w) (GetAttachmentForWorker i)" "preserves (\<lambda>w w'. chat_groups w' = chat_groups w) (ClaimAttachment i k l)"
  "preserves (\<lambda>w w'. chat_groups w' = chat_groups w) (CompleteAttachment c)" "preserves (\<lambda>w w'. chat_groups w' = chat_groups w) (FailAttachment i k code d)"
  unfolding GetAttachmentForWorker_def ClaimAttachment_def CompleteAttachment_def FailAttachment_def
  by (intro same_groups.preserves_intros same_groups_exec; simp add: update_attachments_def update_ready_def)+

lemma same_groups_usage:
  "preserves (\<lambda>w w'. chat_groups w' = chat_groups w) (RecordTurnUsage r)" "preserves (\<lambda>w w'. chat_groups w' = chat_groups w) (RecordThreadUsageSnapshot r)"
  unfolding RecordTurnUsage_def RecordThreadUsageSnapshot_def replaceSessionUsageFromThreads_def addAuthoritativeThreadUsage_def readThreadUsageForUpdate_def Let_def
  by (intro same_groups.preserves_intros same_groups_exec; simp add: insert_turn_def insert_thread_def add_thread_def replace_thread_def init_session_def set_session_def Let_def split: option.split)+

lemma same_groups_recorded: "preserves (\<lambda>w w'. chat_groups w' = chat_groups w) (recordCompletedUsage p batch turns)"
proof -
  have one: "preserves (\<lambda>w w'. chat_groups w' = chat_groups w) (record_turn batch t)" for t
    unfolding record_turn_def by (intro same_groups.preserves_intros same_groups_usage)
  have "preserves (\<lambda>w w'. chat_groups w' = chat_groups w) (record_turns batch latest ts)" for latest ts
    by (induction ts arbitrary: latest) (auto intro!: same_groups.preserves_ret same_groups.preserves_and_then one)
  then show ?thesis unfolding recordCompletedUsage_def by (intro same_groups.preserves_intros)
qed

lemma prepare_claimed_groups: "chat_groups (snd (snd (prepare_claimed s pr b d r files w))) = chat_groups w"
  using preservesD [OF same_groups_attachments(3)] preservesD [OF same_groups_attachments(4)]
  by (auto simp: prepare_claimed_def Let_def split: sum.split prod.split) (metis snd_conv)+

lemma prepare_loop_groups: "chat_groups (snd (snd (prepare_loop s pr b n is files w))) = chat_groups w"
proof (induction "is" arbitrary: n files w)
  case (Cons i "is")
  obtain v w1 where g: "GetAttachmentForWorker i w = (v, w1)" by fastforce
  have w1: "chat_groups w1 = chat_groups w" using preservesD [OF same_groups_attachments(1) [of i], of w] g by simp
  show ?case
  proof (cases v)
    case (Inr r)
    obtain u w2 where c: "ClaimAttachment (AR_ID r) (pr_attempt pr) (pr_now pr + minutes 2) w1 = (u, w2)" by fastforce
    have w2: "chat_groups w2 = chat_groups w"
      using preservesD [OF same_groups_attachments(2) [of "AR_ID r" "pr_attempt pr" "pr_now pr + minutes 2"], of w1] c w1 by simp
    obtain q files1 w3 where p: "prepare_claimed s pr b (pr_disk pr n) r files w2 = (q, files1, w3)" using prod_cases3 by blast
    have w3: "chat_groups w3 = chat_groups w" using prepare_claimed_groups [of s pr b "pr_disk pr n" r files w2] p w2 by simp
    obtain x files2 w4 where l: "prepare_loop s pr b (Suc n) is files1 w3 = (x, files2, w4)" using prod_cases3 by blast
    have "chat_groups w4 = chat_groups w" using Cons [of "Suc n" files1 w3] l w3 by simp
    then show ?thesis using g Inr c p l w2 w3 by (simp split: sum.split bool.split)
  qed (use g w1 in simp)
qed simp

lemma Prepare_groups: "chat_groups (snd (snd (Prepare s pr b files w))) = chat_groups w"
  by (simp add: Prepare_def prepare_loop_groups split: option.split)

lemma catalog_inv_groups:
  "catalog_inv p h \<Longrightarrow> chat_groups w = chat_groups (h_world h) \<Longrightarrow> catalog_inv p (h\<lparr>h_world := w\<rparr>)"
  "catalog_inv p h \<Longrightarrow> chat_groups w = chat_groups (h_world h) \<Longrightarrow> catalog_inv p (h\<lparr>h_files := f, h_world := w\<rparr>)"
  by (simp_all add: catalog_inv_def groups_ok_def)

lemma prepare_inputs_knows: "htriple (knows p t) (prepare_inputs p run batch) (\<lambda>_. knows p t) (catalog_inv p)"
proof (unfold htriple_def, intro allI impI)
  fix h assume k: "knows p t h"
  show "case prepare_inputs p run batch h of (Inr x, h') \<Rightarrow> knows p t h' | (Inl e, h') \<Rightarrow> catalog_inv p h'"
  proof (cases "Msg_HasRequiredAttachment (hd (Batch_Messages batch)) \<and> p_Attachments p \<noteq> None")
    case True
    then obtain s where s: "p_Attachments p = Some s" by blast
    obtain r files w where prep: "Prepare s (run_preparation run) batch (h_files h) (h_world h) = (r, files, w)" using prod_cases3 by blast
    then have "chat_groups w = chat_groups (h_world h)" using Prepare_groups [of s "run_preparation run" batch "h_files h" "h_world h"] by simp
    then have "catalog_inv p (h\<lparr>h_files := files, h_world := w\<rparr>)" using catalog_inv_groups(2) k by blast
    then show ?thesis using True s prep k by (simp add: prepare_inputs_def split: sum.split)
  qed (use k in \<open>auto simp: prepare_inputs_def\<close>)
qed

lemma end_turn_inv: "htriple (catalog_inv p) (end_turn p run batch t final_text) (\<lambda>_. catalog_inv p) (catalog_inv p)"
proof -
  have "catalog_inv p (snd (on_db (recordCompletedUsage p batch turns) h))" if "catalog_inv p h" for h turns
    using catalog_inv_groups(1) [OF that] preservesD [OF same_groups_recorded [of p batch turns], of "h_world h"]
    by (simp add: snd_on_db)
  then have db: "htriple (catalog_inv p) (on_db (recordCompletedUsage p batch turns)) (\<lambda>_. catalog_inv p) (catalog_inv p)" for turns
    by (rule htriple_sndI)
  show ?thesis unfolding end_turn_def by (rule htriple_htry [OF db]) (simp_all add: htriple_hret)
qed

lemma startTurn_inv: "htriple (knows p t) (startTurn p run batch t) (\<lambda>_. catalog_inv p) (catalog_inv p)"
proof -
  have "htriple (knows p t) (begin_turn t input) (\<lambda>_. catalog_inv p) (catalog_inv p)" for input
    by (auto simp: htriple_def begin_turn_def catalog_inv_def)
  then show ?thesis unfolding startTurn_def Let_def
    by (intro htriple_hthen [OF prepare_inputs_knows] htriple_hthen [OF _ end_turn_inv])
qed

lemma start_new_inv:
  assumes "p_has_tools p" and "p_upgrades p"
  shows "htriple (catalog_inv p) (start_new p run batch groupID threadID fresh) (\<lambda>_. catalog_inv p) (catalog_inv p)"
proof -
  have pub: "htriple (knows p t) (if fresh then on_db (CompleteCatalogUpgrade groupID (targetToolCatalogVersion p) t)
      else on_db (SetThreadIfExpected groupID threadID t)) (\<lambda>_. knows p t) (catalog_inv p)" for t
    using htriple_post [OF db_knows [OF catalog_publish(1)]] htriple_post [OF db_knows [OF catalog_publish(2)]] by simp
  have undo: "htriple (knows p t) (htry (call p (ThreadArchive t)) (\<lambda>_. htry (on_db (GetChatGroupThread groupID)) (\<lambda>_.
      hfail (Errorf ''chat group thread changed concurrently'')))) (\<lambda>_ :: ProcessResult \<times> go_error option. catalog_inv p) (catalog_inv p)" for t
    by (intro htriple_htry [OF call_knows] htriple_htry [OF db_knows [OF groups_reads]] htriple_hfail) simp_all
  show ?thesis unfolding start_new_def if_P [OF assms(1)] if_P [OF assms(2)]
    by (intro htriple_hthen [OF start_thread_knows] htriple_hthen [OF pub]) (simp add: startTurn_inv undo)
qed

lemma processOrdinary_inv:
  assumes "p_has_tools p" and "p_upgrades p"
  shows "htriple (catalog_inv p) (processOrdinary p run batch groupID) (\<lambda>_. catalog_inv p) (catalog_inv p)"
proof -
  let ?Q = "\<lambda>x h. catalog_inv p h \<and> (\<not> snd x \<and> fst x \<noteq> [] \<longrightarrow> started_with p (h_rpc h) (dynamicTools p) (fst x))"
  have new: "htriple (\<lambda>h. catalog_inv p h) (start_new p run batch groupID t fresh) (\<lambda>_. catalog_inv p) (catalog_inv p)" for t fresh
    by (rule start_new_inv [OF assms])
  have resume: "htriple (knows p t) (htry (resume_thread p batch t) (\<lambda>r. case r of Inr _ \<Rightarrow> startTurn p run batch t
      | Inl _ \<Rightarrow> start_new p run batch groupID t fresh)) (\<lambda>_. catalog_inv p) (catalog_inv p)" for t fresh
    unfolding resume_thread_def by (rule htriple_htry [OF call_knows]) (auto intro: startTurn_inv htriple_pre [OF new])
  show ?thesis unfolding processOrdinary_def if_P [OF assms(1)]
  proof (rule htriple_hthen [OF db_inv [OF groups_reads]], rule htriple_hthen [OF ensureToolCatalog_knows [OF assms(2)]])
    fix x :: "string \<times> bool"
    obtain t fresh where x: "x = (t, fresh)" by fastforce
    show "htriple (?Q x) (case x of (threadID, startCatalogUpgrade) \<Rightarrow>
       if threadID \<noteq> [] \<and> \<not> startCatalogUpgrade
       then htry (resume_thread p batch threadID) (\<lambda>r. case r of Inr _ \<Rightarrow> startTurn p run batch threadID
         | Inl _ \<Rightarrow> start_new p run batch groupID threadID startCatalogUpgrade)
       else start_new p run batch groupID threadID startCatalogUpgrade) (\<lambda>_. catalog_inv p) (catalog_inv p)"
      unfolding x by (auto intro: htriple_pre [OF new] htriple_pre [OF resume])
  qed
qed

lemma snd_Process: "snd (Process p run goal_prepared batch h) = snd (process_batch p run goal_prepared batch h)"
  by (simp add: Process_def split: prod.split sum.split)

lemma Process_inv:
  assumes "p_has_tools p" and "p_upgrades p" and "\<not> Batch_Goal batch" and "catalog_inv p h"
  shows "catalog_inv p (snd (Process p run goal_prepared batch h))"
proof -
  have t: "htriple (catalog_inv p) (process_batch p run goal_prepared batch) (\<lambda>_. catalog_inv p) (catalog_inv p)"
    using processOrdinary_inv [OF assms(1,2)] assms(3) by (simp add: process_batch_def htriple_hfail Let_def)
  obtain r h1 where m: "process_batch p run goal_prepared batch h = (r, h1)" by fastforce
  have "catalog_inv p h1" using htripleD [OF t assms(4)] m by (cases r) simp_all
  then show ?thesis using m by (simp add: snd_Process)
qed

text \<open>What happens to the sessions of a server: ordinary batches, new sessions, messages that arrive, and whatever touches no group and starts no thread.\<close>

inductive session_step :: "CodexProcessor \<Rightarrow> host \<Rightarrow> host \<Rightarrow> bool" for p where
  process: "\<not> Batch_Goal batch \<Longrightarrow> session_step p h (snd (Process p run goal_prepared batch h))"
| new_session: "session_step p h (h\<lparr>h_world := snd (NewSession archive g (h_world h))\<rparr>)"
| ingress: "session_step p h (h\<lparr>h_world := snd (PersistIncoming g now a t c input (h_world h))\<rparr>)"
| elsewhere: "chat_groups w = chat_groups (h_world h) \<Longrightarrow> session_step p h (h\<lparr>h_rpc := h_rpc h @ others, h_files := files, h_world := w\<rparr>)"

lemma catalog_ingress: "preserves (\<lambda>w w'. groups_ok (catalog_ok p log) w \<longrightarrow> groups_ok (catalog_ok p log) w') (PersistIncoming g now a t c input)"
proof -
  have "preserves (\<lambda>w w'. groups_ok (catalog_ok p log) w \<longrightarrow> groups_ok (catalog_ok p log) w') (exec (upsert_group g a t c))"
    by (rule groups.inv_rel.preserves_exec, rule preservesI) (auto simp: upsert_group_def groups_ok_def set_sql_update catalog_ok_def new_group_def)
  moreover have "preserves (\<lambda>w w'. groups_ok (catalog_ok p log) w \<longrightarrow> groups_ok (catalog_ok p log) w') (exec (insert_message m))"
    "preserves (\<lambda>w w'. groups_ok (catalog_ok p log) w \<longrightarrow> groups_ok (catalog_ok p log) w') (exec (insert_attachment x))" for m x
    by (rule groups.inv_rel.preserves_exec, rule preservesI, simp add: insert_message_def insert_attachment_def groups_ok_def)+
  ultimately show ?thesis unfolding PersistIncoming_def persistTx_def by (intro groups.inv_rel.preserves_intros)
qed

lemma session_step_inv:
  assumes "p_has_tools p" and "p_upgrades p" and "session_step p h h'" and "catalog_inv p h"
  shows "catalog_inv p h'"
  using assms(3,4)
proof (induction rule: session_step.induct)
  case process
  then show ?case using Process_inv [OF assms(1,2)] by blast
next
  case (new_session h archive g)
  have "preserves (\<lambda>w w'. groups_ok (catalog_ok p log) w \<longrightarrow> groups_ok (catalog_ok p log) w') (NewSession archive g)" for log
    unfolding NewSession_def by (intro groups.inv_rel.preserves_intros groups_reads catalog_clear)
  then show ?case using new_session preservesD by (fastforce simp: catalog_inv_def)
next
  case (ingress h g now a t c input)
  then show ?case using preservesD [OF catalog_ingress] by (fastforce simp: catalog_inv_def)
next
  case (elsewhere w h files others)
  then show ?case using catalog_inv_call [of p h others] by (simp add: catalog_inv_def groups_ok_def)
qed

text \<open>
  C35: no turn runs with outdated tools. A thread keeps the tools it was started with; along every sequence of ordinary batches, new sessions, arriving
  messages and lost connections, every turn runs on a thread that was started with the tools of the wanted catalog, and so does every thread a
  stable group of that version keeps for its next turn.
\<close>

theorem turns_use_current_tools:
  assumes "p_has_tools p" and "p_upgrades p" and "groups_ok (catalog_ok p []) w" and "(session_step p)\<^sup>*\<^sup>* \<lparr>h_rpc = [], h_turns = [], h_files = files, h_world = w\<rparr> h"
  shows "(\<forall>t input. (t, input) \<in> set (h_turns h) \<longrightarrow> started_with p (h_rpc h) (dynamicTools p) t)
    \<and> (\<forall>g t. g \<in> set (chat_groups (h_world h)) \<and> g_upgrade_state g = Stable \<and> g_catalog_version g = targetToolCatalogVersion p \<and> g_thread_id g = Some t \<and> t \<noteq> []
        \<longrightarrow> started_with p (h_rpc h) (dynamicTools p) t)"
proof -
  have "catalog_inv p \<lparr>h_rpc = [], h_turns = [], h_files = files, h_world = w\<rparr>" using assms(3) by (simp add: catalog_inv_def)
  with assms(4) have "catalog_inv p h"
    by (induction rule: rtranclp_induct) (auto intro: session_step_inv [OF assms(1,2)])
  then show ?thesis by (auto simp: catalog_inv_def groups_ok_def catalog_ok_def)
qed

definition ex_codex :: CodexProcessor where
  "ex_codex = \<lparr>p_ready = True, p_upgrades = True, p_has_tools = True, p_ToolCatalogVersion = S06ToolCatalogVersion, p_Attachments = None,
     p_has_UsageLedger = False, p_answer = (\<lambda>log c. Inr ''t1''), p_thread_id = Some, p_shanghai = None\<rparr>"

definition ex_run :: turn_run where
  "ex_run = \<lparr>run_items = [], run_completed = [], run_turnID = ''u1'', run_startedAt = 3, run_err = None, run_endedAt = 5, run_preparation = ex_preparation,
     run_on_item = True\<rparr>"

definition ex_turn_batch :: Batch where
  "ex_turn_batch = ex_file_batch\<lparr>Batch_Messages := map (\<lambda>m. m\<lparr>Msg_HasRequiredAttachment := False, Msg_Query := ''hi''\<rparr>) (Batch_Messages ex_file_batch)\<rparr>"

definition ex_host :: host where
  "ex_host = \<lparr>h_rpc = [], h_turns = [], h_files = Map.empty, h_world = ex_store\<rparr>"

lemma ex_trims: "trim_space ''g'' \<noteq> []" "trim_space ''s10-fleetq-v2'' \<noteq> []" "trim_space ''t1'' \<noteq> []"
  by (simp_all add: trim_space_ascii byte_val_def is_space_def)

lemma ex_codex_simps:
  "p_ready ex_codex" "p_upgrades ex_codex" "p_has_tools ex_codex" "p_answer ex_codex log c = Inr ''t1''" "p_thread_id ex_codex = Some"
  "\<not> p_has_UsageLedger ex_codex" "p_shanghai ex_codex = None" "targetToolCatalogVersion ex_codex = ''s10-fleetq-v2''" "dynamicTools ex_codex = S06DynamicTools"
  by (simp_all add: ex_codex_def targetToolCatalogVersion_def dynamicTools_def S06ToolCatalogVersion_def)

lemma ex_turn_batch_simps:
  "Batch_Messages ex_turn_batch \<noteq> []" "Msg_ChatGroupID (hd (Batch_Messages ex_turn_batch)) = ''g''" "\<not> Batch_Goal ex_turn_batch"
  "\<not> Msg_HasRequiredAttachment (hd (Batch_Messages ex_turn_batch))" "messageQueries (Batch_Messages ex_turn_batch) = [''hi'']"
  by (simp_all add: ex_turn_batch_def ex_file_batch_def)

lemma ex_ensured:
  "\<exists>w. ensureToolCatalog ex_codex ''g'' [] ex_host = (Inr ([], True), ex_host\<lparr>h_world := w\<rparr>) \<and> faults w = []
    \<and> map (\<lambda>g. (g_id g, g_upgrade_state g, g_upgrade_target g)) (chat_groups w) = [(''g'', StartPending, Some ''s10-fleetq-v2'')]"
  by (simp add: ensureToolCatalog_def Let_def ex_codex_simps PrepareCatalogUpgrade_def ex_trims hthen_def htry_def on_db_def ex_host_def op_defs
      scanCatalogUpgrade_def new_group_def touch_groups_def transaction_def finish_archive_def AdvanceCatalogUpgradeAfterArchive_def hret_def nullable_def)

lemma ex_processed:
  "\<exists>log w. snd (Process ex_codex ex_run None ex_turn_batch ex_host) = ex_host\<lparr>h_rpc := log, h_turns := [(''t1'', [text_input ''hi''])], h_world := w\<rparr>"
proof -
  obtain w where e: "ensureToolCatalog ex_codex ''g'' [] ex_host = (Inr ([], True), ex_host\<lparr>h_world := w\<rparr>)" "faults w = []"
      "map (\<lambda>g. (g_id g, g_upgrade_state g, g_upgrade_target g)) (chat_groups w) = [(''g'', StartPending, Some ''s10-fleetq-v2'')]"
    using ex_ensured by (elim exE conjE) (rule that)
  from e(3) obtain g where g: "chat_groups w = [g]" "g_id g = ''g''" "g_upgrade_state g = StartPending" "g_upgrade_target g = Some ''s10-fleetq-v2''"
    unfolding map_eq_Cons_conv by auto
  have thread: "on_db (GetChatGroupThread ''g'') ex_host = (Inr [], ex_host)"
    by (simp add: on_db_def GetChatGroupThread_def op_defs ex_host_def new_group_def)
  have complete: "fst (CompleteCatalogUpgrade ''g'' ''s10-fleetq-v2'' ''t1'' w) = Inr True"
    using e(2) g by (simp add: CompleteCatalogUpgrade_def ex_trims op_defs touch_groups_def)
  then obtain w1 where complete: "CompleteCatalogUpgrade ''g'' ''s10-fleetq-v2'' ''t1'' w = (Inr True, w1)" by (metis prod.collapse)
  have "FormatNormalMessages None (Batch_Messages ex_turn_batch) = ''hi''" by (simp add: FormatNormalMessages_def ex_turn_batch_simps)
  then have turn: "\<exists>x. startTurn ex_codex ex_run ex_turn_batch t h = (Inr x, h\<lparr>h_turns := h_turns h @ [(t, [text_input ''hi''])]\<rparr>)" for t h
    by (simp add: startTurn_def prepare_inputs_def begin_turn_def end_turn_def recordCompletedUsage_def Let_def ex_codex_simps ex_turn_batch_simps
        hthen_def htry_def hret_def on_db_def ret_def)
  obtain h1 where new: "start_new ex_codex ex_run ex_turn_batch ''g'' [] True (ex_host\<lparr>h_world := w\<rparr>) = startTurn ex_codex ex_run ex_turn_batch ''t1'' h1"
      "h_turns h1 = []" "h1 = ex_host\<lparr>h_rpc := h_rpc h1, h_world := h_world h1\<rparr>"
    by (simp add: start_new_def start_thread_def ex_codex_simps hthen_def htry_def hret_def call_def Let_def on_db_def complete ex_host_def)
  obtain x where "startTurn ex_codex ex_run ex_turn_batch ''t1'' h1 = (Inr x, h1\<lparr>h_turns := [(''t1'', [text_input ''hi''])]\<rparr>)"
    using turn [of "''t1''" h1] new(2) by auto
  then have "snd (Process ex_codex ex_run None ex_turn_batch ex_host) = h1\<lparr>h_turns := [(''t1'', [text_input ''hi''])]\<rparr>"
    by (simp add: Process_def process_batch_def processOrdinary_def Let_def ex_codex_simps ex_turn_batch_simps hthen_def htry_def thread e(1) new(1))
  also have "\<dots> = ex_host\<lparr>h_rpc := h_rpc h1, h_turns := [(''t1'', [text_input ''hi''])], h_world := h_world h1\<rparr>" by (subst new(3)) simp
  finally show ?thesis by blast
qed

theorem turns_use_current_tools_witness:
  "\<exists>log. started_with ex_codex log S06DynamicTools ''t1'' \<and> h_rpc (snd (Process ex_codex ex_run None ex_turn_batch ex_host)) = log"
proof -
  let ?h = "snd (Process ex_codex ex_run None ex_turn_batch ex_host)"
  have "(session_step ex_codex)\<^sup>*\<^sup>* ex_host ?h" by (intro r_into_rtranclp session_step.process ex_turn_batch_simps)
  moreover have "groups_ok (catalog_ok ex_codex []) ex_store"
    by (simp add: groups_ok_def catalog_ok_def new_group_def)
  ultimately have "\<forall>t input. (t, input) \<in> set (h_turns ?h) \<longrightarrow> started_with ex_codex (h_rpc ?h) (dynamicTools ex_codex) t"
    using turns_use_current_tools [OF ex_codex_simps(3,2)] by (simp add: ex_host_def)
  moreover have "(''t1'', [text_input ''hi'']) \<in> set (h_turns ?h)" using ex_processed by auto
  ultimately show ?thesis using ex_codex_simps(9) by metis
qed

text \<open>
  A goal does not ask for the catalog: it starts its thread with the tools of the old one and stores it in a group that is stable at the new version, so
  the next ordinary turn of the chat runs without the schedule tools.
\<close>

definition ex_current_group :: chat_group_row where
  "ex_current_group = (new_group ''g'' ''app'' ''p2p'' ''c'')\<lparr>g_catalog_version := S06ToolCatalogVersion\<rparr>"

lemma goal_thread_lacks_tools:
  "h_rpc (snd (Process ex_codex ex_run None (ex_turn_batch\<lparr>Batch_Goal := True\<rparr>) (ex_host\<lparr>h_world := ex_store\<lparr>chat_groups := [ex_current_group]\<rparr>\<rparr>)))
      = [(ThreadStart \<lparr>TSP_CWD = ''/srv/ws'', TSP_Model = [], TSP_ApprovalPolicy = ''never'', TSP_Sandbox = ''danger-full-access'',
           TSP_DynamicTools = FeishuDynamicTools\<rparr>, Inr ''t1''), (ThreadGoalSet ''t1'' ''hi'', Inr ''t1'')]
   \<and> chat_groups (h_world (snd (Process ex_codex ex_run None (ex_turn_batch\<lparr>Batch_Goal := True\<rparr>) (ex_host\<lparr>h_world := ex_store\<lparr>chat_groups := [ex_current_group]\<rparr>\<rparr>))))
      = [ex_current_group\<lparr>g_thread_id := Some ''t1''\<rparr>]"
  by (simp add: Process_def process_batch_def processGoal_def start_thread_def startGoal_def begin_turn_def end_turn_def recordCompletedUsage_def Let_def
      ex_codex_simps hthen_def htry_def hret_def call_def on_db_def GetChatGroupThread_def SetThreadIfExpected_def set_threads_def op_defs ex_host_def
      ex_turn_batch_def ex_file_batch_def ex_runtime_def ex_current_group_def new_group_def nullable_def)

text \<open>
  An upgrade that was begun for another version is never finished: the group waits for a version the server no longer starts, every batch archives the thread
  it just started and fails, and the group stays as it is.
\<close>

lemma stale_upgrade_stuck:
  assumes "chat_groups w = [g]" and "g_id g = i" and "g_upgrade_state g = StartPending" and "g_upgrade_target g = Some v" and "v \<noteq> targetToolCatalogVersion p"
    and "faults w = []" and "trim_space i \<noteq> []" and "trim_space t \<noteq> []" and "p_has_tools p" and "p_upgrades p" and "g_thread_id g = None"
    and "\<And>log c. p_answer p log c = Inr raw" and "p_thread_id p raw = Some t" and "h_world h = w"
  shows "fst (processOrdinary p run batch i h) = Inl (Errorf ''chat group thread changed concurrently'') \<and> h_world (snd (processOrdinary p run batch i h)) = w"
proof -
  have target: "trim_space (targetToolCatalogVersion p) \<noteq> []"
    by (simp add: targetToolCatalogVersion_def S06ToolCatalogVersion_def feishuToolsetVersion_def trim_space_ascii byte_val_def is_space_def)
  have read: "GetChatGroupThread i w = (Inr [], w)" using assms by (simp add: GetChatGroupThread_def op_defs)
  have prepare: "PrepareCatalogUpgrade i (targetToolCatalogVersion p) w = (Inr (scanCatalogUpgrade g), w)"
    using assms target by (simp add: PrepareCatalogUpgrade_def transaction_def op_defs scanCatalogUpgrade_def Let_def)
  have state: "Up_State (scanCatalogUpgrade g) = StartPending" using assms by (simp add: scanCatalogUpgrade_def)
  have ensure: "ensureToolCatalog p i [] h = (Inr ([], True), h)"
    using assms(10,14) prepare state by (simp add: ensureToolCatalog_def Let_def hthen_def htry_def hret_def on_db_def)
  have w: "w\<lparr>chat_groups := chat_groups w\<rparr> = w" by simp
  have complete: "CompleteCatalogUpgrade i (targetToolCatalogVersion p) t w = (Inr False, w)"
    using assms target w by (simp add: CompleteCatalogUpgrade_def op_defs touch_groups_def)
  have thread: "on_db (GetChatGroupThread i) k = (Inr [], k)" and finish: "on_db (CompleteCatalogUpgrade i (targetToolCatalogVersion p) t) k = (Inr False, k)"
    if "h_world k = w" for k
    using that read complete by (simp_all add: on_db_def)
  have "t \<noteq> []" using assms(8) by (auto simp: trim_space_ascii)
  then show ?thesis using assms(9,10,12,13,14) ensure thread finish
    by (simp add: processOrdinary_def start_new_def start_thread_def hthen_def htry_def hret_def hfail_def call_def Let_def)
qed

end
