(* ===== verification/Codex_Runtime.thy ===== *)
theory Codex_Runtime
  imports Codex_Processor Tool_Types
begin

text \<open>
  The runtime that owns the app server (\<open>internal/codexapp/runtime.go\<close>): its generations, the attempts that wait for a
  turn or a goal, the routing of notifications to attempts and the calls of tools. A section that the code runs under
  the lock of an attempt is one operation on the attempt; operations that block take what happens meanwhile as an
  argument. The step relation at the end interleaves the sections of all goroutines freely.
\<close>

section \<open>Events\<close>

record Event =
  Ev_Seq :: "64 word"
  Ev_Class :: string
  Ev_Method :: string
  Ev_ID :: string
  Ev_Params :: string
  Ev_Raw :: string

record identity_params =
  ip_ThreadID :: string
  ip_TurnID :: string
  ip_ItemID :: string
  ip_Turn_ID :: string
  ip_Item_ID :: string
  ip_Item_ThreadID :: string
  ip_Item_TurnID :: string

record turn_params =
  tp_ID :: string
  tp_Status :: string
  tp_Usage :: "usage option"

text \<open>
  Decoding of payloads, one function for each structure the code decodes into; \<open>None\<close> is a decoding error. The structure of a
  completed turn is read even after an error, so \<open>wire_turn\<close> is what the structure then holds. \<open>wire_quote\<close> is the verb \<open>%q\<close>.
\<close>

record Wire =
  wire_identity :: "string \<Rightarrow> identity_params option"
  wire_goal_status :: "string \<Rightarrow> string option"
  wire_turn :: "string \<Rightarrow> turn_params"
  wire_turn_id :: "string \<Rightarrow> string option"
  wire_item :: "string \<Rightarrow> CompletedItem option"
  wire_item_head :: "string \<Rightarrow> (string \<times> string) option"
  wire_item_text :: "string \<Rightarrow> (string \<times> string \<times> string) option"
  wire_usage :: "string \<Rightarrow> usage option option"
  wire_call :: "string \<Rightarrow> ToolCall option"
  wire_quote :: "string \<Rightarrow> string"

definition eventIdentity :: "Wire \<Rightarrow> string \<Rightarrow> string \<times> string \<times> string" where
  "eventIdentity W raw = (case wire_identity W raw of None \<Rightarrow> ([], [], [])
     | Some p \<Rightarrow> (if ip_ThreadID p = [] then ip_Item_ThreadID p else ip_ThreadID p,
         if ip_Turn_ID p \<noteq> [] then ip_Turn_ID p else if ip_TurnID p = [] then ip_Item_TurnID p else ip_TurnID p,
         if ip_ItemID p = [] then ip_Item_ID p else ip_ItemID p))"

definition eventIDs :: "Wire \<Rightarrow> string \<Rightarrow> string \<times> string" where
  "eventIDs W raw = (case eventIdentity W raw of (threadID, turnID, _) \<Rightarrow> (threadID, turnID))"

definition usageSnapshot :: "Wire \<Rightarrow> string \<Rightarrow> usage option" where
  "usageSnapshot W payload = (case wire_usage W payload of None \<Rightarrow> None | Some totals \<Rightarrow> totals)"

definition isContinuationTurnEvidence :: "Wire \<Rightarrow> Event \<Rightarrow> bool" where
  "isContinuationTurnEvidence W event =
     (if Ev_Method event = ''turn/completed'' then (case wire_turn_id W (Ev_Params event) of None \<Rightarrow> False | Some t \<Rightarrow> t \<noteq> [])
      else if Ev_Method event = ''item/started'' \<or> Ev_Method event = ''item/completed''
      then (case wire_item_head W (Ev_Params event) of None \<Rightarrow> False | Some (item, kind) \<Rightarrow> item \<noteq> [] \<and> kind = ''agentMessage'')
      else False)"

definition isPresentationCandidate :: "Wire \<Rightarrow> Event \<Rightarrow> bool" where
  "isPresentationCandidate W event =
     (if Ev_Method event \<noteq> ''item/completed'' then False
      else case wire_item_text W (Ev_Params event) of None \<Rightarrow> False
        | Some (item, kind, content) \<Rightarrow> item \<noteq> [] \<and> kind = ''agentMessage'' \<and> content \<noteq> [])"

section \<open>Attempts\<close>

record toolCallState =
  tc_result :: "ToolResult option"
  tc_handlerErr :: "go_error option"
  tc_handlerStarted :: bool
  tc_terminal :: bool

definition new_call :: toolCallState where
  "new_call = \<lparr>tc_result = None, tc_handlerErr = None, tc_handlerStarted = False, tc_terminal = False\<rparr>"

record RouteMetadata =
  RM_AppID :: string
  RM_ChannelKey :: string
  RM_ChatGroupID :: string
  RM_AttemptID :: string

text \<open>
  An attempt. \<open>at_done\<close> is what the channel of the outcome holds; \<open>at_progress\<close> and \<open>at_turnChanged\<close> say whether those
  channels hold a token, \<open>at_bound\<close> and \<open>at_cancelled\<close> whether they are closed and \<open>at_slots\<close> how many of the four
  action slots are taken. Of the callbacks the attempt only knows whether they are set.
\<close>

record attempt =
  at_generation :: "64 word"
  at_threadID :: string
  at_turnID :: string
  at_pending :: "Event list"
  at_pendingBytes :: int
  at_presentationOver :: bool
  at_done :: "go_error option list"
  at_finished :: bool
  at_stopping :: bool
  at_progress :: bool
  at_route :: RouteMetadata
  at_onItem :: bool
  at_onTurnCompleted :: bool
  at_observation :: bool
  at_toolHandler :: bool
  at_cancelled :: bool
  at_slots :: nat
  at_bound :: bool
  at_goal :: bool
  at_knownTurns :: "string set"
  at_goalTerminal :: bool
  at_goalErr :: "go_error option"
  at_awaitingContinuation :: bool
  at_turnChanged :: bool
  at_toolCalls :: "string \<rightharpoonup> toolCallState"
  at_lastTokenUsage :: "usage option"
  at_pauseConfirmed :: bool
  at_stopRequested :: bool

text \<open>The parameters of a turn; of the callbacks only whether they are set.\<close>

record TurnStartParams =
  TP_ThreadID :: string
  TP_CWD :: string
  TP_Model :: string
  TP_Effort :: string
  TP_ApprovalPolicy :: string
  TP_ClientUserMessageID :: string
  TP_Input :: "TextInput list"
  TP_Route :: RouteMetadata
  TP_OnTurnStarted :: bool
  TP_OnTurnCompleted :: bool
  TP_Observation :: bool
  TP_OnItem :: bool
  TP_ToolHandler :: bool

definition new_attempt :: "64 word \<Rightarrow> string \<Rightarrow> TurnStartParams \<Rightarrow> bool \<Rightarrow> attempt" where
  "new_attempt gen threadID params goal = \<lparr>at_generation = gen, at_threadID = threadID, at_turnID = [], at_pending = [], at_pendingBytes = 0,
     at_presentationOver = False, at_done = [], at_finished = False, at_stopping = False, at_progress = False, at_route = TP_Route params,
     at_onItem = TP_OnItem params, at_onTurnCompleted = TP_OnTurnCompleted params, at_observation = TP_Observation params,
     at_toolHandler = TP_ToolHandler params, at_cancelled = False, at_slots = 0, at_bound = False, at_goal = goal, at_knownTurns = {},
     at_goalTerminal = False, at_goalErr = None, at_awaitingContinuation = False, at_turnChanged = False, at_toolCalls = Map.empty,
     at_lastTokenUsage = None, at_pauseConfirmed = False, at_stopRequested = False\<rparr>"

text \<open>
  What an attempt does that can be seen from outside: entries of the observation, calls of the callbacks, requests to the
  app server, the binding of a turn, its end, and the life of a tool call.
\<close>

datatype act =
    RecordProtocolEvent "64 word" Event
  | CloseProtocol "usage option" "go_error option"
  | OnItem CompletedItem
  | OnTurnStarted string
  | OnTurnCompleted TurnCompleted
  | TurnInterrupt string string
  | TurnBound string
  | Finished "go_error option"
  | StartTool string string string
  | HandlerStarted ToolCall
  | CallForgotten string
  | EndTool string "ToolResult option" string "go_error option"

text \<open>An operation on an attempt, and two of them one after the other.\<close>

type_synonym sect = "attempt \<Rightarrow> attempt \<times> act list"

definition sect_then :: "sect \<Rightarrow> sect \<Rightarrow> sect" where
  "sect_then f g a = (case f a of (a1, l1) \<Rightarrow> (case g a1 of (a2, l2) \<Rightarrow> (a2, l1 @ l2)))"

definition say :: "act list \<Rightarrow> sect" where
  "say acts a = (a, acts)"

definition observed :: "act \<Rightarrow> sect" where
  "observed act a = (a, if at_observation a then [act] else [])"

definition end_call :: "toolCallState \<Rightarrow> toolCallState" where
  "end_call state = (if tc_handlerStarted state then state else state\<lparr>tc_terminal := True\<rparr>)"

definition finish :: "go_error option \<Rightarrow> sect" where
  "finish err a = (if at_finished a then (a, [])
     else (a\<lparr>at_finished := True, at_toolCalls := map_option end_call \<circ> at_toolCalls a, at_cancelled := True, at_bound := True, at_done := at_done a @ [err]\<rparr>,
           Finished err # (if at_observation a then [CloseProtocol None err] else [])))"

text \<open>\<open>current\<close> is the generation in use.\<close>

definition interruptAttempt :: "64 word option \<Rightarrow> string \<Rightarrow> sect" where
  "interruptAttempt current reason a =
     (if current \<noteq> Some (at_generation a) then (a, [])
      else if at_finished a \<or> at_stopping a \<or> at_turnID a = [] then (a, [])
      else sect_then (finish (Some (Errorf reason))) (say [TurnInterrupt (at_threadID a) (at_turnID a)]) (a\<lparr>at_stopping := True\<rparr>))"

section \<open>Routing an event to its attempt\<close>

definition note_usage :: "Wire \<Rightarrow> Event \<Rightarrow> sect" where
  "note_usage W event a = (if Ev_Method event = ''thread/tokenUsage/updated''
     then (case usageSnapshot W (Ev_Params event) of None \<Rightarrow> (a, []) | Some u \<Rightarrow> (a\<lparr>at_lastTokenUsage := Some u\<rparr>, []))
     else (a, []))"

text \<open>The error of a terminal goal status; \<open>None\<close> for a status that is not terminal.\<close>

definition goal_status_err :: "Wire \<Rightarrow> string \<Rightarrow> go_error option option" where
  "goal_status_err W status =
     (if status = ''complete'' \<or> status = ''completed'' then Some None
      else if status = ''paused'' \<or> status = ''budget_limited'' then Some (Some (Errorf (''goal terminal status '' @ wire_quote W status)))
      else None)"

definition goal_updated :: "Wire \<Rightarrow> Event \<Rightarrow> sect" where
  "goal_updated W event a = (case wire_goal_status W (Ev_Params event) of None \<Rightarrow> (a, [])
     | Some status \<Rightarrow> (case goal_status_err W status of None \<Rightarrow> (a, [])
       | Some goalErr \<Rightarrow> (let a1 = a\<lparr>at_goalTerminal := True, at_goalErr := goalErr\<rparr> in
           if at_turnID a1 = [] \<or> at_awaitingContinuation a1 then finish goalErr a1 else (a1, []))))"

definition completed_turn :: "attempt \<Rightarrow> turn_params \<Rightarrow> TurnCompleted" where
  "completed_turn a p = \<lparr>TC_ThreadID = at_threadID a, TC_TurnID = tp_ID p, TC_Status = tp_Status p, TC_Usage = tp_Usage p,
     TC_SnapshotUsage = (case tp_Usage p of Some _ \<Rightarrow> None | None \<Rightarrow> at_lastTokenUsage a)\<rparr>"

definition turn_err :: "Wire \<Rightarrow> turn_params \<Rightarrow> go_error option" where
  "turn_err W p = (if tp_Status p \<noteq> ''completed'' then Some (Errorf (''turn completed with status '' @ wire_quote W (tp_Status p))) else None)"

definition terminal_usage :: "attempt \<Rightarrow> turn_params \<Rightarrow> usage option" where
  "terminal_usage a p = (case tp_Usage p of Some u \<Rightarrow> Some u | None \<Rightarrow> at_lastTokenUsage a)"

definition settle_turn :: "go_error option \<Rightarrow> sect" where
  "settle_turn turnErr a =
     (if at_goal a then (if at_goalTerminal a then finish (at_goalErr a) a else (a\<lparr>at_awaitingContinuation := True\<rparr>, []))
      else finish turnErr a)"

definition turn_completed :: "Wire \<Rightarrow> Event \<Rightarrow> sect" where
  "turn_completed W event a = (let p = wire_turn W (Ev_Params event) in
     sect_then (say (if at_onTurnCompleted a then [OnTurnCompleted (completed_turn a p)] else []))
       (sect_then (if \<not> at_goal a \<or> at_goalTerminal a then observed (CloseProtocol (terminal_usage a p) (turn_err W p)) else say [])
         (settle_turn (turn_err W p))) a)"

text \<open>\<open>accepts\<close> is the answer of \<open>onItem\<close>.\<close>

definition item_completed :: "Wire \<Rightarrow> 64 word option \<Rightarrow> (CompletedItem \<Rightarrow> bool) \<Rightarrow> Event \<Rightarrow> sect" where
  "item_completed W current accepts event a = (case wire_item W (Ev_Params event) of None \<Rightarrow> (a, [])
     | Some item \<Rightarrow> if CI_ID item \<noteq> [] \<and> CI_Type item = ''agentMessage'' \<and> CI_Text item \<noteq> [] \<and> \<not> at_finished a \<and> at_onItem a
         then sect_then (say [OnItem item]) (if accepts item then say [] else interruptAttempt current ''presentation_backpressure'') a
         else (a, []))"

definition progress :: "sect" where
  "progress a = (a\<lparr>at_progress := True\<rparr>, [])"

definition routeAttempt :: "Wire \<Rightarrow> 64 word option \<Rightarrow> (CompletedItem \<Rightarrow> bool) \<Rightarrow> Event \<Rightarrow> sect" where
  "routeAttempt W current accepts event a = sect_then (observed (RecordProtocolEvent (at_generation a) event))
     (if Ev_Class event = ''server_request'' then finish (Some (Errorf (''unsupported app server request: '' @ Ev_Method event)))
      else sect_then (note_usage W event)
        (if Ev_Method event = ''thread/goal/updated'' \<and> at_goal a then goal_updated W event
         else if Ev_Method event = ''turn/completed'' then turn_completed W event
         else if Ev_Method event = ''item/completed'' then sect_then (item_completed W current accepts event) progress
         else progress)) a"

section \<open>Binding a turn\<close>

text \<open>The section under the lock; \<open>None\<close> when the turn is refused, otherwise the events that waited.\<close>

definition bind_turn :: "string \<Rightarrow> attempt \<Rightarrow> (attempt \<times> Event list) option" where
  "bind_turn turnID a =
     (if at_finished a \<or> (at_goal a \<and> (at_goalTerminal a \<or> at_stopping a)) then None
      else if at_goal a \<and> at_turnID a \<noteq> [] \<and> at_turnID a \<noteq> turnID \<and> turnID \<in> at_knownTurns a then None
      else Some (a\<lparr>at_lastTokenUsage := (if at_turnID a \<noteq> turnID then None else at_lastTokenUsage a), at_turnID := turnID,
          at_knownTurns := (if at_goal a then insert turnID (at_knownTurns a) else at_knownTurns a),
          at_awaitingContinuation := (if at_goal a then False else at_awaitingContinuation a), at_pending := []\<rparr>, at_pending a))"

definition route_pending :: "Wire \<Rightarrow> 64 word option \<Rightarrow> (CompletedItem \<Rightarrow> bool) \<Rightarrow> string \<Rightarrow> Event \<Rightarrow> sect" where
  "route_pending W current accepts turnID event a =
     (if eventIDs W (Ev_Params event) = (at_threadID a, turnID) then routeAttempt W current accepts event a else (a, []))"

fun sect_all :: "sect list \<Rightarrow> sect" where
  "sect_all [] = say []"
| "sect_all (f # fs) = sect_then f (sect_all fs)"

definition bindAttempt :: "Wire \<Rightarrow> 64 word option \<Rightarrow> (CompletedItem \<Rightarrow> bool) \<Rightarrow> string \<Rightarrow> attempt \<Rightarrow> bool \<times> attempt \<times> act list" where
  "bindAttempt W current accepts turnID a = (case bind_turn turnID a of None \<Rightarrow> (False, a, [])
     | Some (a1, waiting) \<Rightarrow> (True, sect_then (say [TurnBound turnID])
         (if at_presentationOver a then interruptAttempt current ''presentation_backpressure''
          else sect_then (sect_all (map (route_pending W current accepts turnID) waiting)) (\<lambda>x. (x\<lparr>at_turnChanged := True\<rparr>, [])))
         (a1\<lparr>at_bound := True\<rparr>)))"

section \<open>The runtime\<close>

datatype Availability = Ready | Unavailable

definition ErrExited :: go_error where
  "ErrExited = Sentinel ''app server exited''"

definition ErrClientClosed :: go_error where
  "ErrClientClosed = Sentinel ''app server client closed''"

definition maxPresentationEvents :: nat where
  "maxPresentationEvents = 64"

definition maxPresentationBytes :: int where
  "maxPresentationBytes = 256 * 1024"

record RuntimeConfig =
  rc_Command :: string
  rc_RPCTimeout :: int
  rc_TurnTimeout :: int
  rc_IdleTimeout :: int
  rc_Grace :: int

text \<open>
  An attempt is known by its position in \<open>rt_heap\<close>, where it stays after it has left the map \<open>rt_attempts\<close>; a goal
  is known by its attempt and a client by its generation. \<open>rt_log\<close> is what the attempts did, \<open>rt_clientsClosed\<close> the
  clients that were told to close. The debug timeline is off.
\<close>

record Runtime =
  rt_cfg :: RuntimeConfig
  rt_availability :: Availability
  rt_closed :: bool
  rt_current :: "64 word option"
  rt_nextGeneration :: "64 word"
  rt_heap :: "attempt list"
  rt_attempts :: "nat set"
  rt_goals :: "string \<rightharpoonup> nat"
  rt_pendingStops :: "string set"
  rt_earlyGoalUpdates :: "string \<rightharpoonup> Event"
  rt_log :: "(nat \<times> act) list"
  rt_clientsClosed :: "64 word list"

definition NewRuntimeWithStarter :: "RuntimeConfig \<Rightarrow> Runtime" where
  "NewRuntimeWithStarter cfg = \<lparr>rt_cfg = \<lparr>
       rc_Command = (if rc_Command cfg = [] then ''codex'' else rc_Command cfg),
       rc_RPCTimeout = (if rc_RPCTimeout cfg = 0 then seconds 30 else rc_RPCTimeout cfg),
       rc_TurnTimeout = (if rc_TurnTimeout cfg = 0 then seconds 500 else rc_TurnTimeout cfg),
       rc_IdleTimeout = (if rc_IdleTimeout cfg = 0 then seconds 90 else rc_IdleTimeout cfg),
       rc_Grace = (if rc_Grace cfg = 0 then seconds 10 else rc_Grace cfg)\<rparr>,
     rt_availability = Unavailable, rt_closed = False, rt_current = None, rt_nextGeneration = 0, rt_heap = [], rt_attempts = {},
     rt_goals = Map.empty, rt_pendingStops = {}, rt_earlyGoalUpdates = Map.empty, rt_log = [], rt_clientsClosed = []\<rparr>"

definition put_attempt :: "nat \<Rightarrow> attempt \<times> act list \<Rightarrow> Runtime \<Rightarrow> Runtime" where
  "put_attempt i x r = r\<lparr>rt_heap := (rt_heap r)[i := fst x], rt_log := rt_log r @ map (Pair i) (snd x)\<rparr>"

definition run_at :: "nat \<Rightarrow> sect \<Rightarrow> Runtime \<Rightarrow> Runtime" where
  "run_at i f r = put_attempt i (f (rt_heap r ! i)) r"

definition close_client :: "64 word \<Rightarrow> Runtime \<Rightarrow> Runtime" where
  "close_client gen r = r\<lparr>rt_clientsClosed := rt_clientsClosed r @ [gen]\<rparr>"

text \<open>A call that blocks: its answer, and the runtime after what happened meanwhile.\<close>

type_synonym 'a meanwhile = "Runtime \<Rightarrow> 'a \<times> Runtime"

section \<open>Dispatch\<close>

definition pend :: "Event \<Rightarrow> attempt \<Rightarrow> attempt" where
  "pend event a = a\<lparr>at_pending := at_pending a @ [event]\<rparr>"

text \<open>What \<open>dispatch\<close> does with one attempt: a label with the attempt and its acts, or \<open>None\<close> to go on with the next.\<close>

definition offer_goal :: "Wire \<Rightarrow> 64 word option \<Rightarrow> (CompletedItem \<Rightarrow> bool) \<Rightarrow> Event \<Rightarrow> string \<Rightarrow> attempt \<Rightarrow> (string \<times> attempt \<times> act list) option" where
  "offer_goal W current accepts event turnID a =
     (let route = routeAttempt W current accepts event; known = turnID \<in> at_knownTurns a; open_goal = (\<not> at_goalTerminal a \<and> \<not> at_stopping a) in
      if at_finished a then None
      else if Ev_Method event = ''thread/goal/updated'' then Some (''goal_routed'', route a)
      else if Ev_Method event = ''turn/started'' \<and> turnID \<noteq> [] \<and> open_goal \<and> fst (bindAttempt W current accepts turnID a)
      then Some (''goal_continuation_bound'', snd (bindAttempt W current accepts turnID a))
      else if at_turnID a = [] \<and> turnID \<noteq> [] then Some (''pending_turn_binding'', pend event a, [])
      else if \<not> known \<and> at_awaitingContinuation a \<and> open_goal \<and> isContinuationTurnEvidence W event \<and> fst (bindAttempt W current accepts turnID a)
      then Some (''goal_continuation_bound'', sect_then (\<lambda>x. snd (bindAttempt W current accepts turnID x)) route a)
      else if known then Some (''goal_routed'', route a)
      else None)"

definition offer_unbound :: "Wire \<Rightarrow> Event \<Rightarrow> attempt \<Rightarrow> string \<times> attempt \<times> act list" where
  "offer_unbound W event a =
     (if isPresentationCandidate W event
      then if length (at_pending a) \<ge> maxPresentationEvents \<or> at_pendingBytes a + int (length (Ev_Params event)) > maxPresentationBytes
           then (''presentation_backpressure'', a\<lparr>at_presentationOver := True\<rparr>, [])
           else (''pending_turn_binding'', pend event (a\<lparr>at_pendingBytes := at_pendingBytes a + int (length (Ev_Params event))\<rparr>), [])
      else (''pending_turn_binding'', pend event a, []))"

definition offer :: "Wire \<Rightarrow> 64 word option \<Rightarrow> (CompletedItem \<Rightarrow> bool) \<Rightarrow> Event \<Rightarrow> attempt \<Rightarrow> (string \<times> attempt \<times> act list) option" where
  "offer W current accepts event a = (case eventIDs W (Ev_Params event) of (threadID, turnID) \<Rightarrow>
     let sameThread = (threadID \<noteq> [] \<and> at_threadID a = threadID); route = routeAttempt W current accepts event in
     if sameThread \<and> Ev_Method event = ''thread/tokenUsage/updated'' \<and> \<not> at_finished a then Some (''attempt_routed'', route a)
     else if sameThread \<and> turnID = [] \<and> \<not> at_finished a then Some (''attempt_routed'', route a)
     else if sameThread \<and> at_goal a then offer_goal W current accepts event turnID a
     else if sameThread \<and> at_turnID a = [] \<and> turnID \<noteq> [] then Some (offer_unbound W event a)
     else if sameThread \<and> at_turnID a \<noteq> [] \<and> turnID = at_turnID a then Some (''attempt_routed'', route a)
     else None)"

text \<open>\<open>order\<close> is the order in which the map of attempts yields them.\<close>

fun dispatch_to :: "Wire \<Rightarrow> (CompletedItem \<Rightarrow> bool) \<Rightarrow> Event \<Rightarrow> nat list \<Rightarrow> Runtime \<Rightarrow> string option \<times> Runtime" where
  "dispatch_to W accepts event [] r = (None, r)"
| "dispatch_to W accepts event (i # order) r = (case offer W (rt_current r) accepts event (rt_heap r ! i) of
     Some (label, x) \<Rightarrow> (Some label, put_attempt i x r) | None \<Rightarrow> dispatch_to W accepts event order r)"

definition dispatch :: "Wire \<Rightarrow> (CompletedItem \<Rightarrow> bool) \<Rightarrow> nat list \<Rightarrow> Event \<Rightarrow> Runtime \<Rightarrow> string \<times> Runtime" where
  "dispatch W accepts order event r = (case dispatch_to W accepts event order r of
     (Some label, r1) \<Rightarrow> (label, r1)
   | (None, r1) \<Rightarrow> (let threadID = fst (eventIDs W (Ev_Params event)) in
       if Ev_Method event = ''thread/goal/updated'' \<and> threadID \<noteq> []
       then (''pending_goal_preparation'', r1\<lparr>rt_earlyGoalUpdates := (rt_earlyGoalUpdates r1)(threadID \<mapsto> event)\<rparr>)
       else (''unrouted'', r1)))"

section \<open>Generations\<close>

fun failAttempts :: "64 word \<Rightarrow> go_error \<Rightarrow> nat list \<Rightarrow> Runtime \<Rightarrow> Runtime" where
  "failAttempts gen err [] r = r"
| "failAttempts gen err (i # order) r = failAttempts gen err order
     (if gen = 0 \<or> at_generation (rt_heap r ! i) = gen then run_at i (finish (Some err)) r else r)"

definition Runtime_Close :: "nat list \<Rightarrow> Runtime \<Rightarrow> Runtime" where
  "Runtime_Close order r = failAttempts 0 ErrExited order
     ((case rt_current r of None \<Rightarrow> id | Some gen \<Rightarrow> close_client gen) (r\<lparr>rt_closed := True, rt_current := None, rt_availability := Unavailable\<rparr>))"

text \<open>\<open>start\<close> is the error of the starter, \<open>initialize\<close> that of the first call.\<close>

definition startGeneration :: "go_error option \<Rightarrow> go_error option meanwhile \<Rightarrow> Runtime \<Rightarrow> go_error option \<times> Runtime" where
  "startGeneration start initialize r = (case start of Some err \<Rightarrow> (Some (Wrapf ''start owned app server'' err), r)
     | None \<Rightarrow> (let gen = rt_nextGeneration r + 1 in case initialize (r\<lparr>rt_nextGeneration := gen\<rparr>) of
         (Some err, r1) \<Rightarrow> (Some (Wrapf ''initialize owned app server'' err), close_client gen r1)
       | (None, r1) \<Rightarrow> if rt_closed r1 then (Some ErrClientClosed, close_client gen r1)
           else (None, r1\<lparr>rt_current := Some gen, rt_availability := Ready\<rparr>)))"

definition onGenerationExit :: "go_error option \<Rightarrow> go_error option meanwhile \<Rightarrow> nat list \<Rightarrow> 64 word \<Rightarrow> Runtime \<Rightarrow> Runtime" where
  "onGenerationExit start initialize order gen r =
     (if rt_closed r \<or> rt_current r \<noteq> Some gen then r
      else snd (startGeneration start initialize (failAttempts gen ErrExited order (r\<lparr>rt_current := None, rt_availability := Unavailable\<rparr>))))"

definition client :: "Runtime \<Rightarrow> 64 word res" where
  "client r = (if rt_availability r \<noteq> Ready then Inl ErrUnavailable
     else case rt_current r of None \<Rightarrow> Inl ErrUnavailable | Some gen \<Rightarrow> Inr gen)"

definition IsReady :: "Runtime \<Rightarrow> bool" where
  "IsReady r \<longleftrightarrow> rt_availability r = Ready"

text \<open>\<open>send\<close> is the call on the client of a generation.\<close>

definition Runtime_Call :: "(64 word \<Rightarrow> string res meanwhile) \<Rightarrow> Runtime \<Rightarrow> string res \<times> Runtime" where
  "Runtime_Call send r = (case client r of Inl err \<Rightarrow> (Inl err, r) | Inr gen \<Rightarrow> send gen r)"

section \<open>Waiting for an attempt\<close>

definition isTurnTimeout :: "string \<Rightarrow> bool" where
  "isTurnTimeout reason \<longleftrightarrow> reason = ''turn total timeout'' \<or> reason = ''turn idle timeout''"

definition interruptionError :: "string \<Rightarrow> go_error" where
  "interruptionError reason = (if isTurnTimeout reason then Wrapf reason ErrDeadlineExceeded else Errorf reason)"

definition take_done :: "sect" where
  "take_done a = (a\<lparr>at_done := tl (at_done a)\<rparr>, [])"

text \<open>\<open>grace\<close> is what happens in the grace period; its answer says that the outcome came first.\<close>

definition interruptAndFail :: "nat \<Rightarrow> string \<Rightarrow> bool meanwhile \<Rightarrow> Runtime \<Rightarrow> go_error option \<times> Runtime" where
  "interruptAndFail i reason grace r =
     (if at_stopping (rt_heap r ! i) then (Some (interruptionError reason), r)
      else case grace (run_at i (\<lambda>a. (a\<lparr>at_stopping := True, at_cancelled := True\<rparr>, [TurnInterrupt (at_threadID a) (at_turnID a)])) r) of
        (arrived, r1) \<Rightarrow> (case (arrived, at_done (rt_heap r1 ! i)) of
          (True, err # _) \<Rightarrow> (if err \<noteq> None \<and> isTurnTimeout reason then Some (interruptionError reason) else err, run_at i take_done r1)
        | _ \<Rightarrow> (Some (interruptionError reason), r1)))"

text \<open>
  The select statement of the waiting loop: a list of the cases it considers, each with the time and with what happened before
  it. A case that is not ready is passed over, so is a tick of a timer that was reset since. The result is \<open>None\<close> as long as the
  loop goes on waiting.
\<close>

datatype wake = WakeDone | WakeProgress | WakeTurnChanged | WakeTotal | WakeIdle | WakeContext string

fun waitAttempt :: "nat \<Rightarrow> bool meanwhile \<Rightarrow> go_time \<Rightarrow> go_time \<Rightarrow> (go_time \<times> wake meanwhile) list \<Rightarrow> Runtime \<Rightarrow> go_error option option \<times> Runtime" where
  "waitAttempt i grace total_at idle_at [] r = (None, r)"
| "waitAttempt i grace total_at idle_at ((now, happens) # rest) r = (case happens r of (wake, r1) \<Rightarrow>
     (let a = rt_heap r1 ! i; fails = (\<lambda>reason. apfst Some (interruptAndFail i reason grace r1));
          passed = waitAttempt i grace total_at idle_at rest r1 in
      (case wake of
         WakeDone \<Rightarrow> (case at_done a of [] \<Rightarrow> passed | err # _ \<Rightarrow> (Some err, run_at i take_done r1))
       | WakeProgress \<Rightarrow> (if at_progress a
           then waitAttempt i grace total_at (now + rc_IdleTimeout (rt_cfg r1)) rest (run_at i (\<lambda>x. (x\<lparr>at_progress := False\<rparr>, [])) r1)
           else passed)
       | WakeTurnChanged \<Rightarrow> (if at_turnChanged a
           then waitAttempt i grace (now + rc_TurnTimeout (rt_cfg r1)) (now + rc_IdleTimeout (rt_cfg r1)) rest
             (run_at i (\<lambda>x. (x\<lparr>at_turnChanged := False\<rparr>, [])) r1)
           else passed)
       | WakeTotal \<Rightarrow> (if now \<ge> total_at then fails ''turn total timeout'' else passed)
       | WakeIdle \<Rightarrow> (if now \<ge> idle_at then fails ''turn idle timeout'' else passed)
       | WakeContext err \<Rightarrow> fails err)))"

text \<open>
  What an attempt meets: the answer of \<open>turn/start\<close>, the clock, the error of its context when the turn is bound, the cases of its
  waiting loop, the grace period and the answers of \<open>onItem\<close>.
\<close>

record attempt_env =
  ae_turn_start :: "string res meanwhile"
  ae_now :: go_time
  ae_ctx_err :: "string option"
  ae_waits :: "(go_time \<times> wake meanwhile) list"
  ae_grace :: "bool meanwhile"
  ae_shown :: "CompletedItem \<Rightarrow> bool"

definition register_attempt :: "attempt \<Rightarrow> Runtime \<Rightarrow> nat \<times> Runtime" where
  "register_attempt a r = (let i = length (rt_heap r) in (i, r\<lparr>rt_heap := rt_heap r @ [a], rt_attempts := insert i (rt_attempts r)\<rparr>))"

definition drop_attempt :: "nat \<Rightarrow> Runtime \<Rightarrow> Runtime" where
  "drop_attempt i r = run_at i (\<lambda>a. (a\<lparr>at_cancelled := True\<rparr>, [])) (r\<lparr>rt_attempts := rt_attempts r - {i}\<rparr>)"

definition run_bind :: "Wire \<Rightarrow> (CompletedItem \<Rightarrow> bool) \<Rightarrow> nat \<Rightarrow> string \<Rightarrow> Runtime \<Rightarrow> Runtime" where
  "run_bind W accepts i turnID r = run_at i (\<lambda>a. snd (bindAttempt W (rt_current r) accepts turnID a)) r"

definition wait_attempt :: "attempt_env \<Rightarrow> nat \<Rightarrow> Runtime \<Rightarrow> (go_time \<times> go_error option) option \<times> Runtime" where
  "wait_attempt env i r = (case waitAttempt i (ae_grace env) (ae_now env + rc_TurnTimeout (rt_cfg r)) (ae_now env + rc_IdleTimeout (rt_cfg r)) (ae_waits env) r of
     (out, r1) \<Rightarrow> (map_option (Pair (ae_now env)) out, r1))"

text \<open>The request \<open>turn/start\<close>: the id of the turn, or an error with the time; after an error the client is closed.\<close>

definition request_turn :: "Wire \<Rightarrow> attempt_env \<Rightarrow> 64 word \<Rightarrow> Runtime \<Rightarrow> ((go_time \<times> go_error) + string) \<times> Runtime" where
  "request_turn W env gen r = (case ae_turn_start env r of
     (Inl err, r1) \<Rightarrow> (Inl (zero_time, err), close_client gen r1)
   | (Inr raw, r1) \<Rightarrow> (case wire_turn_id W raw of
       None \<Rightarrow> (Inl (ae_now env, Errorf ''turn/start missing turn id''), close_client gen r1)
     | Some t \<Rightarrow> if t = [] then (Inl (ae_now env, Errorf ''turn/start missing turn id''), close_client gen r1) else (Inr t, r1)))"

definition report_turn :: "TurnStartParams \<Rightarrow> string \<Rightarrow> sect" where
  "report_turn params turnID = say (if TP_OnTurnStarted params then [OnTurnStarted turnID] else [])"

text \<open>From the request on, until the outcome; the deferred function drops the attempt.\<close>

definition follow_attempt :: "Wire \<Rightarrow> attempt_env \<Rightarrow> TurnStartParams \<Rightarrow> 64 word \<Rightarrow> nat \<Rightarrow> Runtime \<Rightarrow> (go_time \<times> go_error option) option \<times> Runtime" where
  "follow_attempt W env params gen i r = (case request_turn W env gen r of
     (Inl (at, err), r1) \<Rightarrow> (Some (at, Some err), r1)
   | (Inr turnID, r1) \<Rightarrow> (let r2 = run_bind W (ae_shown env) i turnID (run_at i (report_turn params turnID) r1) in
       case ae_ctx_err env of
         Some reason \<Rightarrow> apfst (\<lambda>err. Some (ae_now env, err)) (interruptAndFail i reason (ae_grace env) r2)
       | None \<Rightarrow> wait_attempt env i r2))"

definition startAttempt :: "Wire \<Rightarrow> attempt_env \<Rightarrow> string \<Rightarrow> TurnStartParams \<Rightarrow> bool \<Rightarrow> Runtime \<Rightarrow> (go_time \<times> go_error option) option \<times> Runtime" where
  "startAttempt W env threadID params goal r = (case client r of Inl err \<Rightarrow> (Some (zero_time, Some err), r)
     | Inr gen \<Rightarrow> (case register_attempt (new_attempt gen threadID params goal) r of (i, r1) \<Rightarrow>
         (case follow_attempt W env params gen i r1 of (None, r2) \<Rightarrow> (None, r2) | (Some out, r2) \<Rightarrow> (Some out, drop_attempt i r2))))"

definition StartTurn :: "Wire \<Rightarrow> attempt_env \<Rightarrow> string \<Rightarrow> TurnStartParams \<Rightarrow> Runtime \<Rightarrow> (go_time \<times> go_error option) option \<times> Runtime" where
  "StartTurn W env threadID params r = startAttempt W env threadID params False r"

section \<open>Goals\<close>

definition enlist_goal :: "nat \<Rightarrow> string \<Rightarrow> Runtime \<Rightarrow> Runtime" where
  "enlist_goal i attemptID r =
     (if attemptID = [] then r
      else if attemptID \<in> rt_pendingStops r
      then run_at i (\<lambda>a. (a\<lparr>at_stopRequested := True\<rparr>, []))
        (r\<lparr>rt_goals := (rt_goals r)(attemptID \<mapsto> i), rt_pendingStops := rt_pendingStops r - {attemptID}\<rparr>)
      else r\<lparr>rt_goals := (rt_goals r)(attemptID \<mapsto> i)\<rparr>)"

definition PrepareGoal :: "Wire \<Rightarrow> (CompletedItem \<Rightarrow> bool) \<Rightarrow> string \<Rightarrow> TurnStartParams \<Rightarrow> Runtime \<Rightarrow> nat res \<times> Runtime" where
  "PrepareGoal W accepts threadID params r = (case client r of Inl err \<Rightarrow> (Inl err, r)
     | Inr gen \<Rightarrow> (case register_attempt (new_attempt gen threadID params True) r of (i, r1) \<Rightarrow>
         let r2 = r1\<lparr>rt_earlyGoalUpdates := (rt_earlyGoalUpdates r1)(threadID := None)\<rparr>;
             r3 = (case rt_earlyGoalUpdates r1 threadID of None \<Rightarrow> r2
               | Some early \<Rightarrow> if Ev_Method early \<noteq> [] then run_at i (routeAttempt W (rt_current r2) accepts early) r2 else r2) in
         (Inr i, enlist_goal i (RM_AttemptID (TP_Route params)) r3)))"

definition GoalAttempt_Close :: "nat \<Rightarrow> Runtime \<Rightarrow> Runtime" where
  "GoalAttempt_Close i r = (let r1 = drop_attempt i r; attemptID = RM_AttemptID (at_route (rt_heap r ! i)) in
     if attemptID \<noteq> [] \<and> rt_goals r1 attemptID = Some i then r1\<lparr>rt_goals := (rt_goals r1)(attemptID := None)\<rparr> else r1)"

text \<open>The status the app server confirms: the error of the goal and whether the pause took effect.\<close>

definition confirm_status :: "string \<Rightarrow> (go_error option \<times> bool) option" where
  "confirm_status status =
     (if status = ''paused'' then Some (Some (Errorf (''goal terminal status '' @ CHR 0x22 # ''paused'' @ [CHR 0x22])), True)
      else if status = ''complete'' \<or> status = ''completed'' then Some (None, False)
      else if status = ''budget_limited'' then Some (Some (Errorf (''goal terminal status '' @ CHR 0x22 # ''budget_limited'' @ [CHR 0x22])), False)
      else None)"

definition confirm_stop :: "go_error option \<Rightarrow> bool \<Rightarrow> sect" where
  "confirm_stop goalErr paused a = (a\<lparr>at_goalTerminal := True, at_goalErr := goalErr, at_pauseConfirmed := paused \<or> at_pauseConfirmed a\<rparr>, [])"

text \<open>\<open>pause\<close> and \<open>get_goal\<close> are the two calls to the app server.\<close>

definition BeginStop :: "Wire \<Rightarrow> go_error option meanwhile \<Rightarrow> string res meanwhile \<Rightarrow> nat \<Rightarrow> Runtime \<Rightarrow> go_error option \<times> Runtime" where
  "BeginStop W pause get_goal i r = (let a = rt_heap r ! i; turnID = at_turnID a; gen = at_generation a in
     if at_pauseConfirmed a \<or> at_goalTerminal a then (None, r)
     else case pause (run_at i (\<lambda>x. (x\<lparr>at_stopping := True\<rparr>, [])) r) of
       (Some err, r1) \<Rightarrow> (Some (Wrapf ''pause goal'' err), close_client gen r1)
     | (None, r1) \<Rightarrow> (case get_goal r1 of
         (Inl err, r2) \<Rightarrow> (Some (Wrapf ''confirm paused goal'' err), close_client gen r2)
       | (Inr raw, r2) \<Rightarrow> (case Option.bind (wire_goal_status W raw) confirm_status of
           None \<Rightarrow> (Some (Errorf ''goal pause was not confirmed''), close_client gen r2)
         | Some (goalErr, paused) \<Rightarrow> (let r3 = run_at i (confirm_stop goalErr paused) r2 in
             if turnID = [] then (None, run_at i (finish goalErr) r3)
             else if paused then (None, run_at i (\<lambda>x. say [TurnInterrupt (at_threadID x) turnID] x) r3)
             else (None, r3)))))"

definition RequestGoalStop :: "Wire \<Rightarrow> go_error option meanwhile \<Rightarrow> string res meanwhile \<Rightarrow> string \<Rightarrow> Runtime \<Rightarrow> go_error option \<times> Runtime" where
  "RequestGoalStop W pause get_goal attemptID r = (case rt_goals r attemptID of
     None \<Rightarrow> (None, r\<lparr>rt_pendingStops := insert attemptID (rt_pendingStops r)\<rparr>)
   | Some i \<Rightarrow> BeginStop W pause get_goal i r)"

text \<open>The outcome of a goal that is over, or an error when it was taken already.\<close>

definition goal_outcome :: "nat \<Rightarrow> go_time \<Rightarrow> string \<Rightarrow> Runtime \<Rightarrow> (go_time \<times> go_error option) \<times> Runtime" where
  "goal_outcome i at otherwise r = (case at_done (rt_heap r ! i) of
     err # _ \<Rightarrow> ((at, err), run_at i take_done r) | [] \<Rightarrow> ((at, Some (Errorf otherwise)), r))"

definition GoalAttempt_Start :: "Wire \<Rightarrow> attempt_env \<Rightarrow> go_error option meanwhile \<Rightarrow> string res meanwhile \<Rightarrow> TurnStartParams \<Rightarrow> nat \<Rightarrow> Runtime
    \<Rightarrow> (go_time \<times> go_error option) option \<times> Runtime" where
  "GoalAttempt_Start W env pause get_goal params i r = (let a = rt_heap r ! i in
     if at_finished a then apfst Some (goal_outcome i zero_time ''goal finished before first turn'' r)
     else if at_stopRequested a then (case BeginStop W pause get_goal i r of
         (Some err, r1) \<Rightarrow> (Some (zero_time, Some err), r1)
       | (None, r1) \<Rightarrow> apfst Some (goal_outcome i zero_time ''goal was stopped before first turn'' r1))
     else case request_turn W env (at_generation a) r of
       (Inl (at, err), r1) \<Rightarrow> (Some (at, Some err), r1)
     | (Inr turnID, r1) \<Rightarrow> (let r2 = run_bind W (ae_shown env) i turnID (run_at i (report_turn params turnID) r1) in
         if at_finished (rt_heap r2 ! i)
         then apfst Some (goal_outcome i (ae_now env) ''goal finished before first turn response''
           (run_at i (\<lambda>x. say [TurnInterrupt (at_threadID x) turnID] x) r2))
         else wait_attempt env i r2))"

definition StartGoal :: "Wire \<Rightarrow> attempt_env \<Rightarrow> go_error option meanwhile \<Rightarrow> string res meanwhile \<Rightarrow> string \<Rightarrow> TurnStartParams \<Rightarrow> Runtime
    \<Rightarrow> (go_time \<times> go_error option) option \<times> Runtime" where
  "StartGoal W env pause get_goal threadID params r = (case PrepareGoal W (ae_shown env) threadID params r of
     (Inl err, r1) \<Rightarrow> (Some (zero_time, Some err), r1)
   | (Inr i, r1) \<Rightarrow> (case GoalAttempt_Start W env pause get_goal params i r1 of
       (out, r2) \<Rightarrow> (out, if out = None then r2 else GoalAttempt_Close i r2)))"

section \<open>Tool calls\<close>

text \<open>
  What a request for a tool meets: the wait until the attempt has a turn, the answer of \<open>StartTool\<close>, whether an action slot
  was taken before the attempt was cancelled, and the handler.
\<close>

record server_env =
  se_bound :: "nat \<Rightarrow> unit meanwhile"
  se_startTool :: bool
  se_slot :: "bool meanwhile"
  se_handler :: "ToolCall \<Rightarrow> (ToolResult \<times> go_error option) meanwhile"

text \<open>An answer to the app server: a result, an error, or both.\<close>

type_synonym answer = "ToolResult option \<times> go_error option"

definition refuse :: "string \<Rightarrow> answer" where
  "refuse reason = (Some (toolFailure reason), None)"

definition add_call :: "string \<Rightarrow> sect" where
  "add_call callID a = (case at_toolCalls a callID of None \<Rightarrow> (a\<lparr>at_toolCalls := (at_toolCalls a)(callID \<mapsto> new_call)\<rparr>, []) | Some _ \<Rightarrow> (a, []))"

definition may_run :: "ToolCall \<Rightarrow> attempt \<Rightarrow> bool" where
  "may_run request a \<longleftrightarrow> \<not> (at_finished a \<or> at_turnID a \<noteq> TCall_TurnID request
     \<or> (case at_toolCalls a (TCall_CallID request) of None \<Rightarrow> True | Some state \<Rightarrow> tc_terminal state \<or> tc_handlerStarted state))"

definition permit_call :: "ToolCall \<Rightarrow> sect" where
  "permit_call request a = (a\<lparr>at_toolCalls := (at_toolCalls a)(TCall_CallID request := map_option (\<lambda>state. state\<lparr>tc_handlerStarted := True\<rparr>) (at_toolCalls a (TCall_CallID request)))\<rparr>,
     [HandlerStarted request])"

definition store_result :: "string \<Rightarrow> ToolResult \<Rightarrow> go_error option \<Rightarrow> sect" where
  "store_result callID result err a = (a\<lparr>at_toolCalls := (at_toolCalls a)(callID :=
     map_option (\<lambda>state. state\<lparr>tc_result := Some result, tc_handlerErr := err\<rparr>) (at_toolCalls a callID))\<rparr>, [])"

definition take_slot :: "sect" where
  "take_slot a = (a\<lparr>at_slots := at_slots a + 1\<rparr>, [])"

definition free_slot :: "sect" where
  "free_slot a = (a\<lparr>at_slots := at_slots a - 1\<rparr>, [])"

definition execute_call :: "server_env \<Rightarrow> nat \<Rightarrow> ToolCall \<Rightarrow> Runtime \<Rightarrow> answer \<times> Runtime" where
  "execute_call env i request r =
     (if \<not> may_run request (rt_heap r ! i) then (refuse ''tool call was cancelled before execution'', r)
      else case se_handler env request (run_at i (permit_call request) r) of
        ((result, err), r1) \<Rightarrow> ((Some result, err), run_at i (store_result (TCall_CallID request) result err) r1))"

definition serve_call :: "server_env \<Rightarrow> nat \<Rightarrow> Event \<Rightarrow> ToolCall \<Rightarrow> Runtime \<Rightarrow> answer \<times> Runtime" where
  "serve_call env i event request r = (let a = rt_heap r ! i in
     if \<not> at_toolHandler a then (refuse ''tool is unavailable for this turn'', r)
     else if at_finished a \<or> at_turnID a \<noteq> TCall_TurnID request then (refuse ''tool request arrived after turn terminal'', r)
     else let r1 = run_at i (add_call (TCall_CallID request)) r;
              r2 = run_at i (observed (RecordProtocolEvent (at_generation a) event)) r1;
              r3 = run_at i (observed (StartTool (TCall_CallID request) (TCall_Tool request) (TCall_Arguments request))) r2 in
       if at_observation a \<and> \<not> se_startTool env then (refuse ''tool request arrived after protocol terminal'', r3)
       else case se_slot env r3 of
         (False, r4) \<Rightarrow> (refuse ''tool call was cancelled'', r4)
       | (True, r4) \<Rightarrow> apsnd (run_at i free_slot) (execute_call env i request (run_at i take_slot r4)))"

fun serve_first :: "server_env \<Rightarrow> Event \<Rightarrow> ToolCall \<Rightarrow> nat list \<Rightarrow> Runtime \<Rightarrow> answer \<times> Runtime" where
  "serve_first env event request [] r = (refuse ''tool request does not match the active turn'', r)"
| "serve_first env event request (i # order) r =
     (let a = rt_heap r ! i; sameThread = (at_threadID a = TCall_ThreadID request);
          r1 = (if sameThread \<and> at_turnID a = [] then snd (se_bound env i r) else r); a1 = rt_heap r1 ! i in
      if sameThread \<and> at_turnID a1 = TCall_TurnID request \<and> \<not> at_finished a1 then serve_call env i event request r1
      else serve_first env event request order r1)"

definition handleServerRequest :: "Wire \<Rightarrow> server_env \<Rightarrow> nat list \<Rightarrow> Event \<Rightarrow> Runtime \<Rightarrow> answer \<times> Runtime" where
  "handleServerRequest W env order event r =
     (if Ev_Method event \<noteq> ''item/tool/call'' then ((None, Some (Errorf (''unsupported server request: '' @ Ev_Method event))), r)
      else case wire_call W (Ev_Params event) of None \<Rightarrow> (refuse ''tool request is invalid'', r)
      | Some request \<Rightarrow> if TCall_ThreadID request = [] \<or> TCall_TurnID request = [] \<or> TCall_CallID request = [] \<or> TCall_Tool request = []
          then (refuse ''tool request is invalid'', r) else serve_first env event request order r)"

text \<open>After the response: the call is forgotten and its end observed.\<close>

definition end_observation :: "string \<Rightarrow> toolCallState \<Rightarrow> go_error option \<Rightarrow> act" where
  "end_observation callID state writeErr = (case writeErr of Some err \<Rightarrow> EndTool callID (tc_result state) ''failed'' (Some err)
     | None \<Rightarrow> (case tc_handlerErr state of Some err \<Rightarrow> EndTool callID (tc_result state) ''error_response_written'' (Some err)
       | None \<Rightarrow> EndTool callID (tc_result state) ''written'' None))"

definition forget_call :: "string \<Rightarrow> go_error option \<Rightarrow> sect" where
  "forget_call callID writeErr a = (case at_toolCalls a callID of None \<Rightarrow> (a, [])
     | Some state \<Rightarrow> sect_then (\<lambda>x. (x\<lparr>at_toolCalls := (at_toolCalls x)(callID := None)\<rparr>, [CallForgotten callID]))
         (observed (end_observation callID state writeErr)) a)"

fun respond_first :: "ToolCall \<Rightarrow> go_error option \<Rightarrow> nat list \<Rightarrow> Runtime \<Rightarrow> Runtime" where
  "respond_first request writeErr [] r = r"
| "respond_first request writeErr (i # order) r = (let a = rt_heap r ! i in
     if at_threadID a \<noteq> TCall_ThreadID request \<or> at_turnID a \<noteq> TCall_TurnID request then respond_first request writeErr order r
     else run_at i (forget_call (TCall_CallID request) writeErr) r)"

definition handleServerResponse :: "Wire \<Rightarrow> nat list \<Rightarrow> Event \<Rightarrow> go_error option \<Rightarrow> Runtime \<Rightarrow> Runtime" where
  "handleServerResponse W order event writeErr r =
     (if Ev_Method event \<noteq> ''item/tool/call'' then r
      else case wire_call W (Ev_Params event) of None \<Rightarrow> r
      | Some request \<Rightarrow> if TCall_CallID request = [] then r else respond_first request writeErr order r)"

section \<open>The environment of the process\<close>

fun split_comma :: "string \<Rightarrow> string list" where
  "split_comma [] = [[]]"
| "split_comma (c # s) = (if c = CHR '','' then [] # split_comma s else (c # hd (split_comma s)) # tl (split_comma s))"

definition childEnvironment :: "string list \<Rightarrow> string \<Rightarrow> string list" where
  "childEnvironment ambient allowlist =
     (if trim_space allowlist = [] then ambient
      else let allowed = filter (\<lambda>name. name \<noteq> []) (map trim_space (split_comma allowlist)) in
        filter (\<lambda>entry. CHR ''='' \<in> set entry \<and> takeWhile (\<lambda>c. c \<noteq> CHR ''='') entry \<in> set allowed) ambient)"

section \<open>Steps of the runtime\<close>

text \<open>Acts that neither bind nor end an attempt nor touch the state of a tool call.\<close>

fun inert :: "act \<Rightarrow> bool" where
  "inert (TurnBound t) = False"
| "inert (Finished err) = False"
| "inert (HandlerStarted c) = False"
| "inert (CallForgotten c) = False"
| "inert x = True"

definition fence_view :: "attempt \<Rightarrow> string \<times> string \<times> bool \<times> go_error option list \<times> (string \<rightharpoonup> toolCallState)" where
  "fence_view a = (at_threadID a, at_turnID a, at_finished a, at_done a, at_toolCalls a)"

text \<open>The sections that goroutines run on an attempt, in any order and with any arguments.\<close>

inductive attempt_step :: "attempt \<Rightarrow> act list \<Rightarrow> attempt \<Rightarrow> bool" where
  quiet: "fence_view a' = fence_view a \<Longrightarrow> list_all inert acts \<Longrightarrow> attempt_step a acts a'"
| finish: "finish err a = (a', acts) \<Longrightarrow> attempt_step a acts a'"
| bind: "bind_turn t a = Some (a', waiting) \<Longrightarrow> attempt_step a [TurnBound t] a'"
| taken: "take_done a = (a', acts) \<Longrightarrow> attempt_step a acts a'"
| add: "add_call c a = (a', acts) \<Longrightarrow> attempt_step a acts a'"
| permit: "at_threadID a = TCall_ThreadID request \<Longrightarrow> may_run request a \<Longrightarrow> permit_call request a = (a', acts) \<Longrightarrow> attempt_step a acts a'"
| store: "store_result c result err a = (a', acts) \<Longrightarrow> attempt_step a acts a'"
| forget: "at_toolCalls a c = Some state \<Longrightarrow> attempt_step a [CallForgotten c] (a\<lparr>at_toolCalls := (at_toolCalls a)(c := None)\<rparr>)"

inductive attempt_trace :: "attempt \<Rightarrow> act list \<Rightarrow> attempt \<Rightarrow> bool" where
  here: "attempt_trace a [] a"
| step: "attempt_step a l1 b \<Longrightarrow> attempt_trace b l2 c \<Longrightarrow> attempt_trace a (l1 @ l2) c"

text \<open>A step of the runtime: a section of an attempt, a new attempt, or a change elsewhere in the runtime.\<close>

inductive runtime_step :: "Runtime \<Rightarrow> Runtime \<Rightarrow> bool" where
  on_attempt: "i < length (rt_heap r) \<Longrightarrow> attempt_step (rt_heap r ! i) acts a \<Longrightarrow> runtime_step r (put_attempt i (a, acts) r)"
| create: "runtime_step r (snd (register_attempt (new_attempt gen t params goal) r))"
| elsewhere: "rt_heap r' = rt_heap r \<Longrightarrow> rt_log r' = rt_log r \<Longrightarrow> runtime_step r r'"

abbreviation runtime_steps :: "Runtime \<Rightarrow> Runtime \<Rightarrow> bool" where
  "runtime_steps \<equiv> runtime_step\<^sup>*\<^sup>*"

section \<open>The operations are made of steps\<close>

named_theorems traced

definition traces :: "sect \<Rightarrow> bool" where
  "traces f \<longleftrightarrow> (\<forall>a. attempt_trace a (snd (f a)) (fst (f a)) \<and> at_threadID (fst (f a)) = at_threadID a)"

lemma attempt_trace_append: "attempt_trace a l1 b \<Longrightarrow> attempt_trace b l2 c \<Longrightarrow> attempt_trace a (l1 @ l2) c"
  by (induction rule: attempt_trace.induct) (auto intro: attempt_trace.intros)

lemma attempt_trace_one: "attempt_step a l b \<Longrightarrow> attempt_trace a l b"
  using attempt_trace.step [OF _ attempt_trace.here] by fastforce

lemma sect_then_parts: "fst (sect_then f g a) = fst (g (fst (f a)))" "snd (sect_then f g a) = snd (f a) @ snd (g (fst (f a)))"
  by (simp_all add: sect_then_def split: prod.split)

lemma traces_sect_then [traced]: "traces f \<Longrightarrow> traces g \<Longrightarrow> traces (sect_then f g)"
  unfolding traces_def by (simp add: sect_then_parts) (blast intro: attempt_trace_append)

lemma traces_quiet:
  assumes "\<And>a. fence_view (fst (f a)) = fence_view a" and "\<And>a. list_all inert (snd (f a))"
  shows "traces f"
  unfolding traces_def
proof (intro allI conjI)
  fix a
  show "attempt_trace a (snd (f a)) (fst (f a))" using assms by (intro attempt_trace_one attempt_step.quiet)
  show "at_threadID (fst (f a)) = at_threadID a" using assms(1) [of a] by (simp add: fence_view_def)
qed

lemma traces_step:
  assumes "\<And>a. attempt_step a (snd (f a)) (fst (f a))" and "\<And>a. at_threadID (fst (f a)) = at_threadID a"
  shows "traces f"
  using assms by (simp add: traces_def attempt_trace_one)

text \<open>The same for one attempt, with updates that the fence does not see put before it.\<close>

definition run_of :: "attempt \<Rightarrow> attempt \<times> act list \<Rightarrow> bool" where
  "run_of a x \<longleftrightarrow> attempt_trace a (snd x) (fst x) \<and> at_threadID (fst x) = at_threadID a"

lemma traces_run_of: "traces f = (\<forall>a. run_of a (f a))"
  by (simp add: traces_def run_of_def)

lemma run_of_traces: "traces f \<Longrightarrow> run_of a (f a)"
  by (simp add: traces_run_of)

lemma run_of_quiet: "fence_view b = fence_view a \<Longrightarrow> run_of b x \<Longrightarrow> run_of a x"
  using attempt_trace.step [OF attempt_step.quiet [of b a "[]"], of "snd x" "fst x"] by (simp add: run_of_def fence_view_def)

lemma run_of_same [simp]: "run_of a (a, [])"
  by (simp add: run_of_def attempt_trace.here)

lemma traces_if [traced]: "(b \<Longrightarrow> traces f) \<Longrightarrow> (\<not> b \<Longrightarrow> traces g) \<Longrightarrow> traces (if b then f else g)"
  by simp

lemma traces_say [traced]: "list_all inert acts \<Longrightarrow> traces (say acts)"
  by (intro traces_quiet) (simp_all add: say_def)

lemma traces_observed [traced]: "inert x \<Longrightarrow> traces (observed x)"
  by (intro traces_quiet) (simp_all add: observed_def)

lemma traces_finish [traced]: "traces (finish err)"
  by (intro traces_step attempt_step.finish [of err]) (simp_all add: finish_def)

lemma traces_sections [traced]: "traces take_done" "traces (add_call c)" "traces (store_result c result err)"
  by (intro traces_step attempt_step.taken attempt_step.add [of c] attempt_step.store [of c result err];
      simp add: take_done_def add_call_def store_result_def split: option.split)+

lemma traces_quiet_sections [traced]:
  "traces (note_usage W event)" "traces progress" "traces take_slot" "traces free_slot" "traces (confirm_stop e p)" "traces (report_turn params t)"
  "traces (\<lambda>x. (x\<lparr>at_turnChanged := b\<rparr>, []))" "traces (\<lambda>x. (x\<lparr>at_progress := b\<rparr>, []))" "traces (\<lambda>x. (x\<lparr>at_cancelled := b\<rparr>, []))"
  "traces (\<lambda>x. (x\<lparr>at_stopping := b\<rparr>, []))" "traces (\<lambda>x. (x\<lparr>at_stopRequested := b\<rparr>, []))" "traces (\<lambda>x. say [TurnInterrupt (at_threadID x) t] x)"
  by (rule traces_quiet; simp add: note_usage_def progress_def take_slot_def free_slot_def confirm_stop_def report_turn_def say_def fence_view_def
      split: option.split)+

lemma traces_sect_all [traced]: "(\<And>f. f \<in> set fs \<Longrightarrow> traces f) \<Longrightarrow> traces (sect_all fs)"
  by (induction fs) (auto intro: traced)

lemma traces_interruptAttempt [traced]: "traces (interruptAttempt current reason)"
  unfolding traces_run_of
proof
  fix a :: attempt
  have "traces (sect_then (finish (Some (Errorf reason))) (say [TurnInterrupt (at_threadID a) (at_turnID a)]))" by (intro traced) simp
  from run_of_quiet [OF _ run_of_traces [OF this], of "a\<lparr>at_stopping := True\<rparr>" a]
  show "run_of a (interruptAttempt current reason a)" by (simp add: interruptAttempt_def fence_view_def)
qed

lemma traces_goal_updated [traced]: "traces (goal_updated W event)"
  unfolding traces_run_of
proof
  fix a :: attempt
  have "run_of a (finish e (a\<lparr>at_goalTerminal := True, at_goalErr := e\<rparr>))" "run_of a (a\<lparr>at_goalTerminal := True, at_goalErr := e\<rparr>, [])" for e
    by (rule run_of_quiet [OF _ run_of_traces [OF traces_finish]] run_of_quiet [OF _ run_of_same]; simp add: fence_view_def)+
  then show "run_of a (goal_updated W event a)" by (simp add: goal_updated_def Let_def split: option.split)
qed

lemma traces_settle_turn [traced]: "traces (settle_turn err)"
  unfolding traces_run_of
proof
  fix a :: attempt
  have "run_of a (a\<lparr>at_awaitingContinuation := True\<rparr>, [])" by (rule run_of_quiet [OF _ run_of_same]) (simp add: fence_view_def)
  then show "run_of a (settle_turn err a)" by (simp add: settle_turn_def run_of_traces traces_finish)
qed

lemma traces_turn_completed [traced]: "traces (turn_completed W event)"
  unfolding traces_run_of turn_completed_def Let_def by (intro allI run_of_traces traced) simp_all

lemma traces_item_completed [traced]: "traces (item_completed W current accepts event)"
  unfolding traces_run_of
proof
  fix a :: attempt
  have "traces (sect_then (say [OnItem item]) (if accepts item then say [] else interruptAttempt current ''presentation_backpressure''))" for item
    by (intro traced) simp_all
  from run_of_traces [OF this] show "run_of a (item_completed W current accepts event a)" by (simp add: item_completed_def split: option.split)
qed

lemma traces_routeAttempt [traced]: "traces (routeAttempt W current accepts event)"
  unfolding traces_run_of routeAttempt_def by (intro allI run_of_traces traced) simp_all

lemma traces_route_pending [traced]: "traces (route_pending W current accepts t event)"
  unfolding traces_run_of by (simp add: route_pending_def run_of_traces traces_routeAttempt)

lemma bind_turn_thread: "bind_turn t a = Some (a', waiting) \<Longrightarrow> at_threadID a' = at_threadID a"
  by (auto simp: bind_turn_def split: if_splits)

lemma run_of_bind:
  assumes "bind_turn t a = Some (a', waiting)" and "run_of a' x"
  shows "run_of a (fst x, TurnBound t # snd x)"
  using attempt_trace.step [OF attempt_step.bind [OF assms(1)]] assms(2) bind_turn_thread [OF assms(1)] by (simp add: run_of_def)

lemma traces_bindAttempt [traced]: "traces (\<lambda>a. snd (bindAttempt W current accepts t a))"
  unfolding traces_run_of
proof
  fix a :: attempt
  show "run_of a (snd (bindAttempt W current accepts t a))"
  proof (cases "bind_turn t a")
    case None
    then show ?thesis by (simp add: bindAttempt_def)
  next
    case (Some x)
    obtain a1 waiting where x: "x = (a1, waiting)" by fastforce
    let ?after = "if at_presentationOver a then interruptAttempt current ''presentation_backpressure''
      else sect_then (sect_all (map (route_pending W current accepts t) waiting)) (\<lambda>x. (x\<lparr>at_turnChanged := True\<rparr>, []))"
    have "traces ?after" by (intro traced) (auto intro: traced)
    from run_of_bind [OF Some [unfolded x] run_of_quiet [OF _ run_of_traces [OF this], of "a1\<lparr>at_bound := True\<rparr>"]]
    have "run_of a (fst (?after (a1\<lparr>at_bound := True\<rparr>)), TurnBound t # snd (?after (a1\<lparr>at_bound := True\<rparr>)))" by (simp add: fence_view_def)
    moreover have "snd (bindAttempt W current accepts t a) = (fst (?after (a1\<lparr>at_bound := True\<rparr>)), TurnBound t # snd (?after (a1\<lparr>at_bound := True\<rparr>)))"
      unfolding bindAttempt_def Some x by (simp add: prod_eq_iff sect_then_parts say_def)
    ultimately show ?thesis by simp
  qed
qed

lemma traces_forget_call [traced]: "traces (forget_call c writeErr)"
  unfolding traces_run_of
proof
  fix a :: attempt
  show "run_of a (forget_call c writeErr a)"
  proof (cases "at_toolCalls a c")
    case None
    then show ?thesis by (simp add: forget_call_def)
  next
    case (Some state)
    let ?b = "a\<lparr>at_toolCalls := (at_toolCalls a)(c := None)\<rparr>"
    have "inert (end_observation c state writeErr)" by (simp add: end_observation_def split: option.split)
    from run_of_traces [OF traces_observed [OF this], of ?b] attempt_trace.step [OF attempt_step.forget [OF Some]]
    show ?thesis by (simp add: forget_call_def Some sect_then_parts run_of_def)
  qed
qed

lemma trace_steps:
  "attempt_trace a acts b \<Longrightarrow> i < length (rt_heap r) \<Longrightarrow> rt_heap r ! i = a \<Longrightarrow> runtime_steps r (put_attempt i (b, acts) r)"
proof (induction arbitrary: r rule: attempt_trace.induct)
  case (here a)
  then show ?case by (auto simp: put_attempt_def intro!: r_into_rtranclp runtime_step.elsewhere)
next
  case (step a l1 b l2 c)
  let ?r = "put_attempt i (b, l1) r"
  have "runtime_step r ?r" using step by (auto intro: runtime_step.on_attempt)
  moreover have "runtime_steps ?r (put_attempt i (c, l2) ?r)" using step by (intro step.IH) (simp_all add: put_attempt_def)
  moreover have "put_attempt i (c, l2) ?r = put_attempt i (c, l1 @ l2) r" by (simp add: put_attempt_def)
  ultimately show ?case by (simp add: converse_rtranclp_into_rtranclp)
qed

lemma put_steps: "run_of (rt_heap r ! i) x \<Longrightarrow> i < length (rt_heap r) \<Longrightarrow> runtime_steps r (put_attempt i x r)"
  using trace_steps [of "rt_heap r ! i" "snd x" "fst x" i r] by (simp add: run_of_def)

lemma run_at_steps: "traces f \<Longrightarrow> i < length (rt_heap r) \<Longrightarrow> runtime_steps r (run_at i f r)"
  unfolding run_at_def by (rule put_steps [OF run_of_traces])

text \<open>Threads of attempts and their number survive every step; so does an index.\<close>

lemma put_attempt_length [simp]: "length (rt_heap (put_attempt i x r)) = length (rt_heap r)"
  by (simp add: put_attempt_def)

lemma run_at_length [simp]: "length (rt_heap (run_at i f r)) = length (rt_heap r)"
  by (simp add: run_at_def)

lemma step_thread: "attempt_step a acts b \<Longrightarrow> at_threadID b = at_threadID a"
  by (induction rule: attempt_step.induct)
     (auto simp: fence_view_def finish_def take_done_def add_call_def permit_call_def store_result_def dest: bind_turn_thread split: if_splits option.splits)

lemma steps_keep: "runtime_steps r r' \<Longrightarrow> i < length (rt_heap r) \<Longrightarrow> i < length (rt_heap r') \<and> at_threadID (rt_heap r' ! i) = at_threadID (rt_heap r ! i)"
proof (induction rule: rtranclp_induct)
  case (step y z)
  have "i < length (rt_heap z) \<and> at_threadID (rt_heap z ! i) = at_threadID (rt_heap y ! i)"
    using step(2) step(3) [OF step(4)]
    by (cases rule: runtime_step.cases)
       (auto simp: put_attempt_def register_attempt_def Let_def nth_append nth_list_update dest: step_thread)
  then show ?case using step by simp
qed simp

definition in_heap :: "nat list \<Rightarrow> Runtime \<Rightarrow> bool" where
  "in_heap order r \<longleftrightarrow> (\<forall>i\<in>set order. i < length (rt_heap r))"

lemma elsewhere_steps: "rt_heap r' = rt_heap r \<Longrightarrow> rt_log r' = rt_log r \<Longrightarrow> runtime_steps r r'"
  by (intro r_into_rtranclp runtime_step.elsewhere)

lemma elsewhere_after: "runtime_steps r x \<Longrightarrow> rt_heap y = rt_heap x \<Longrightarrow> rt_log y = rt_log x \<Longrightarrow> runtime_steps r y"
  by (rule rtranclp.rtrancl_into_rtrancl, assumption) (rule runtime_step.elsewhere)

lemma close_client_after: "runtime_steps r x \<Longrightarrow> runtime_steps r (close_client gen x)"
  by (rule elsewhere_after) (simp_all add: close_client_def)

lemma run_of_pend: "run_of a (pend event a, [])" "run_of a (pend event (a\<lparr>at_pendingBytes := n\<rparr>), [])" "run_of a (a\<lparr>at_presentationOver := True\<rparr>, [])"
  by (rule run_of_quiet [OF _ run_of_same]; simp add: fence_view_def pend_def)+

lemma offer_run: "offer W current accepts event a = Some (label, x) \<Longrightarrow> run_of a x"
proof -
  assume o: "offer W current accepts event a = Some (label, x)"
  have r: "run_of a (routeAttempt W current accepts event a)" "run_of a (snd (bindAttempt W current accepts t a))"
    "run_of a (sect_then (\<lambda>x. snd (bindAttempt W current accepts t x)) (routeAttempt W current accepts event) a)" for t
    by (rule run_of_traces, intro traced)+
  show ?thesis using o r run_of_pend
    by (auto simp: offer_def offer_goal_def offer_unbound_def Let_def split: prod.splits if_splits)
qed

lemma dispatch_to_steps: "in_heap order r \<Longrightarrow> runtime_steps r (snd (dispatch_to W accepts event order r))"
  by (induction order) (auto simp: in_heap_def split: option.split dest!: offer_run intro!: put_steps)

lemma dispatch_steps: "in_heap order r \<Longrightarrow> runtime_steps r (snd (dispatch W accepts order event r))"
  using dispatch_to_steps [of order r W accepts event]
  by (auto simp: dispatch_def Let_def split: prod.split option.split elim: elsewhere_after)

lemma failAttempts_steps: "in_heap order r \<Longrightarrow> runtime_steps r (failAttempts gen err order r)"
proof (induction order arbitrary: r)
  case (Cons i order)
  let ?r = "if gen = 0 \<or> at_generation (rt_heap r ! i) = gen then run_at i (finish (Some err)) r else r"
  have "runtime_steps r ?r" using Cons.prems by (auto simp: in_heap_def intro: run_at_steps traced)
  moreover have "runtime_steps ?r (failAttempts gen err order ?r)" using Cons.prems by (intro Cons.IH) (simp add: in_heap_def)
  ultimately show ?case by simp
qed simp

lemma Runtime_Close_steps: "in_heap order r \<Longrightarrow> runtime_steps r (Runtime_Close order r)"
proof -
  assume o: "in_heap order r"
  let ?r = "(case rt_current r of None \<Rightarrow> id | Some gen \<Rightarrow> close_client gen) (r\<lparr>rt_closed := True, rt_current := None, rt_availability := Unavailable\<rparr>)"
  have same: "rt_heap ?r = rt_heap r" "rt_log ?r = rt_log r" by (simp_all add: close_client_def split: option.split)
  show ?thesis unfolding Runtime_Close_def using o
    by (intro rtranclp_trans [OF elsewhere_steps [OF same]] failAttempts_steps) (simp add: in_heap_def same)
qed

text \<open>Whatever happens during a blocking call are steps.\<close>

definition steps_only :: "'a meanwhile \<Rightarrow> bool" where
  "steps_only m \<longleftrightarrow> (\<forall>r. runtime_steps r (snd (m r)))"

lemma steps_onlyD: "steps_only m \<Longrightarrow> m r = (x, r') \<Longrightarrow> runtime_steps r r'"
  by (metis snd_conv steps_only_def)

lemma Runtime_Call_steps: "(\<And>gen. steps_only (send gen)) \<Longrightarrow> runtime_steps r (snd (Runtime_Call send r))"
  by (simp add: Runtime_Call_def steps_only_def split: sum.split)

lemma startGeneration_steps: "steps_only initialize \<Longrightarrow> runtime_steps r (snd (startGeneration start initialize r))"
proof -
  assume i: "steps_only initialize"
  let ?r = "r\<lparr>rt_nextGeneration := rt_nextGeneration r + 1\<rparr>"
  have "runtime_steps r ?r" by (rule elsewhere_steps) simp_all
  then have "runtime_steps r (snd (initialize ?r))" using i by (auto simp: steps_only_def intro: rtranclp_trans)
  then show ?thesis
    by (auto simp: startGeneration_def Let_def close_client_def split: option.split prod.split elim!: elsewhere_after)
qed

lemma onGenerationExit_steps:
  assumes "in_heap order r" and "steps_only initialize"
  shows "runtime_steps r (onGenerationExit start initialize order gen r)"
proof -
  let ?r = "r\<lparr>rt_current := None, rt_availability := Unavailable\<rparr>"
  have "runtime_steps r ?r" by (rule elsewhere_steps) simp_all
  also have "runtime_steps ?r (failAttempts gen ErrExited order ?r)" using assms(1) by (intro failAttempts_steps) (simp add: in_heap_def)
  also have "runtime_steps (failAttempts gen ErrExited order ?r) (snd (startGeneration start initialize (failAttempts gen ErrExited order ?r)))"
    by (rule startGeneration_steps [OF assms(2)])
  finally show ?thesis by (simp add: onGenerationExit_def)
qed

lemma interruptAndFail_steps:
  assumes "i < length (rt_heap r)" and "steps_only grace"
  shows "runtime_steps r (snd (interruptAndFail i reason grace r))"
proof -
  let ?f = "\<lambda>a. (a\<lparr>at_stopping := True, at_cancelled := True\<rparr>, [TurnInterrupt (at_threadID a) (at_turnID a)])"
  let ?r = "run_at i ?f r"
  obtain arrived r1 where g: "grace ?r = (arrived, r1)" by fastforce
  have "traces ?f" by (rule traces_quiet) (simp_all add: fence_view_def)
  then have s: "runtime_steps r r1" using run_at_steps assms(1) steps_onlyD [OF assms(2) g] by (metis rtranclp_trans)
  then have "runtime_steps r (run_at i take_done r1)"
    using assms(1) steps_keep run_at_steps [OF traces_sections(1)] by (metis rtranclp_trans)
  then show ?thesis using s g by (auto simp: interruptAndFail_def split: list.split bool.split)
qed

lemma waitAttempt_steps:
  assumes "steps_only grace" and "list_all (steps_only \<circ> snd) waits" and "i < length (rt_heap r)"
  shows "runtime_steps r (snd (waitAttempt i grace total_at idle_at waits r))"
  using assms(2,3)
proof (induction waits arbitrary: total_at idle_at r)
  case (Cons w rest)
  obtain now happens where w: "w = (now, happens)" by fastforce
  obtain wake r1 where h: "happens r = (wake, r1)" by fastforce
  have s: "runtime_steps r r1" using Cons.prems w h by (auto intro: steps_onlyD)
  then have i: "i < length (rt_heap r1)" using steps_keep Cons.prems by blast
  have next_steps: "runtime_steps r (snd (waitAttempt i grace t d rest (run_at i f r1)))" if "traces f" for t d f
    using rtranclp_trans [OF s rtranclp_trans [OF run_at_steps [OF that i] Cons.IH]] Cons.prems i by simp
  have passed: "runtime_steps r (snd (waitAttempt i grace t d rest r1))" for t d using rtranclp_trans [OF s Cons.IH] Cons.prems i by simp
  have failed: "runtime_steps r (snd (interruptAndFail i reason grace r1))" for reason
    using rtranclp_trans [OF s interruptAndFail_steps [OF i assms(1)]] .
  have "runtime_steps r (run_at i take_done r1)" using rtranclp_trans [OF s run_at_steps [OF _ i]] traced by blast
  then show ?case using next_steps [OF traces_quiet_sections(7)] next_steps [OF traces_quiet_sections(8)] passed failed
    by (simp add: w h Let_def split: wake.split list.split)
qed simp

definition env_steps :: "attempt_env \<Rightarrow> bool" where
  "env_steps env \<longleftrightarrow> steps_only (ae_turn_start env) \<and> steps_only (ae_grace env) \<and> list_all (steps_only \<circ> snd) (ae_waits env)"

lemma wait_attempt_steps: "env_steps env \<Longrightarrow> i < length (rt_heap r) \<Longrightarrow> runtime_steps r (snd (wait_attempt env i r))"
  using waitAttempt_steps [of "ae_grace env" "ae_waits env" i r] by (simp add: wait_attempt_def env_steps_def split: prod.split) (metis snd_conv)

lemma request_turn_steps: "env_steps env \<Longrightarrow> runtime_steps r (snd (request_turn W env gen r))"
proof -
  assume "env_steps env"
  then have "runtime_steps r (snd (ae_turn_start env r))" by (simp add: env_steps_def steps_only_def)
  then show ?thesis by (auto simp: request_turn_def close_client_def split: prod.split sum.split option.split elim!: elsewhere_after)
qed

lemma bind_report_steps:
  "i < length (rt_heap r) \<Longrightarrow> runtime_steps r (run_bind W accepts i t (run_at i (report_turn params t) r))"
  unfolding run_bind_def by (rule rtranclp_trans [OF run_at_steps run_at_steps]) (auto intro: traced)

lemma drop_attempt_steps: "i < length (rt_heap r) \<Longrightarrow> runtime_steps r (drop_attempt i r)"
  unfolding drop_attempt_def by (rule rtranclp_trans [OF elsewhere_steps run_at_steps]) (auto intro: traced)

lemma register_steps: "register_attempt (new_attempt gen t params goal) r = (i, r1) \<Longrightarrow> runtime_steps r r1 \<and> i < length (rt_heap r1)"
  using runtime_step.create [of r gen t params goal] by (auto simp: register_attempt_def Let_def)

lemma follow_attempt_steps:
  assumes e: "env_steps env" and i: "i < length (rt_heap r)"
  shows "runtime_steps r (snd (follow_attempt W env params gen i r))"
proof -
  obtain reply r1 where req: "request_turn W env gen r = (reply, r1)" by fastforce
  have s1: "runtime_steps r r1" using request_turn_steps [OF e, of r W gen] req by simp
  have i1: "i < length (rt_heap r1)" using steps_keep [OF s1 i] by simp
  let ?r2 = "\<lambda>t. run_bind W (ae_shown env) i t (run_at i (report_turn params t) r1)"
  have s2: "runtime_steps r (?r2 t)" and i2: "i < length (rt_heap (?r2 t))" for t
    using rtranclp_trans [OF s1 bind_report_steps [OF i1]] i1 by (simp_all add: run_bind_def)
  have "runtime_steps r (snd (interruptAndFail i reason (ae_grace env) (?r2 t)))" "runtime_steps r (snd (wait_attempt env i (?r2 t)))" for reason t
    using rtranclp_trans [OF s2 interruptAndFail_steps [OF i2]] rtranclp_trans [OF s2 wait_attempt_steps [OF e i2]] e by (simp_all add: env_steps_def)
  then show ?thesis using s1 by (simp add: follow_attempt_def req Let_def split: sum.split prod.split option.split)
qed

lemma startAttempt_steps:
  assumes e: "env_steps env"
  shows "runtime_steps r (snd (startAttempt W env threadID params goal r))"
proof (cases "client r")
  case (Inr gen)
  obtain i r1 where reg: "register_attempt (new_attempt gen threadID params goal) r = (i, r1)" by fastforce
  obtain out r2 where f: "follow_attempt W env params gen i r1 = (out, r2)" by fastforce
  have s1: "runtime_steps r r1" and i1: "i < length (rt_heap r1)" using register_steps [OF reg] by simp_all
  have f': "runtime_steps r1 r2" using follow_attempt_steps [OF e i1, of W params gen] f by simp
  have s2: "runtime_steps r r2" using s1 f' by (rule rtranclp_trans)
  have "runtime_steps r (drop_attempt i r2)" using steps_keep [OF f' i1] by (intro rtranclp_trans [OF s2 drop_attempt_steps]) simp
  then show ?thesis using s2 by (simp add: startAttempt_def Inr reg f split: option.split)
qed (simp add: startAttempt_def)

lemma confirm_steps:
  assumes "i < length (rt_heap r)"
  shows "runtime_steps r (run_at i (confirm_stop e p) r)" "runtime_steps r (run_at i (finish err) (run_at i (confirm_stop e p) r))"
    "runtime_steps r (run_at i (\<lambda>x. say [TurnInterrupt (at_threadID x) t] x) (run_at i (confirm_stop e p) r))"
  by (rule run_at_steps rtranclp_trans [OF run_at_steps run_at_steps]; use assms in \<open>auto intro: traced\<close>)+

lemma BeginStop_steps:
  assumes i: "i < length (rt_heap r)" and "steps_only pause" "steps_only get_goal"
  shows "runtime_steps r (snd (BeginStop W pause get_goal i r))"
proof -
  let ?r = "run_at i (\<lambda>x. (x\<lparr>at_stopping := True\<rparr>, [])) r"
  obtain e r1 where p: "pause ?r = (e, r1)" by fastforce
  obtain raw r2 where g: "get_goal r1 = (raw, r2)" by fastforce
  have s1: "runtime_steps r r1" using rtranclp_trans [OF run_at_steps [OF traces_quiet_sections(10) i] steps_onlyD [OF assms(2) p]] .
  have s2: "runtime_steps r r2" using rtranclp_trans [OF s1 steps_onlyD [OF assms(3) g]] .
  have i2: "i < length (rt_heap r2)" using steps_keep [OF s2 i] by simp
  note c = close_client_after [OF s1] close_client_after [OF s2]
  note rtranclp_trans [OF s2 confirm_steps(1) [OF i2]] rtranclp_trans [OF s2 confirm_steps(2) [OF i2]] rtranclp_trans [OF s2 confirm_steps(3) [OF i2]]
  then show ?thesis using c p g by (simp add: BeginStop_def Let_def split: option.split sum.split prod.split)
qed

lemma goal_outcome_steps: "i < length (rt_heap r) \<Longrightarrow> runtime_steps r (snd (goal_outcome i at otherwise r))"
  using run_at_steps [OF traces_sections(1)] by (simp add: goal_outcome_def split: list.split)

lemma GoalAttempt_Start_steps:
  assumes e: "env_steps env" and i: "i < length (rt_heap r)" and st: "steps_only pause" "steps_only get_goal"
  shows "runtime_steps r (snd (GoalAttempt_Start W env pause get_goal params i r))"
proof -
  obtain err rb where b: "BeginStop W pause get_goal i r = (err, rb)" by fastforce
  have sb: "runtime_steps r rb" using BeginStop_steps [OF i st, of W] b by simp
  have ob: "runtime_steps r (snd (goal_outcome i at w rb))" for at w
    using rtranclp_trans [OF sb goal_outcome_steps] steps_keep [OF sb i] by simp
  obtain reply r1 where req: "request_turn W env (at_generation (rt_heap r ! i)) r = (reply, r1)" by fastforce
  have s1: "runtime_steps r r1" using request_turn_steps [OF e, of r W] req by (metis snd_conv)
  have i1: "i < length (rt_heap r1)" using steps_keep [OF s1 i] by simp
  let ?r2 = "\<lambda>t. run_bind W (ae_shown env) i t (run_at i (report_turn params t) r1)"
  have s2: "runtime_steps r (?r2 t)" and i2: "i < length (rt_heap (?r2 t))" for t
    using rtranclp_trans [OF s1 bind_report_steps [OF i1]] i1 by (simp_all add: run_bind_def)
  have "runtime_steps r (snd (goal_outcome i at w (run_at i (\<lambda>x. say [TurnInterrupt (at_threadID x) t] x) (?r2 t))))" for t at w
    using i2 by (intro rtranclp_trans [OF rtranclp_trans [OF s2 run_at_steps [OF traces_quiet_sections(12) i2]] goal_outcome_steps]) simp
  then show ?thesis
    using sb ob s1 rtranclp_trans [OF s2 wait_attempt_steps [OF e i2]] goal_outcome_steps [OF i]
    by (simp add: GoalAttempt_Start_def Let_def b req split: option.split sum.split prod.split)
qed

lemma enlist_goal_steps:
  assumes "i < length (rt_heap x)"
  shows "runtime_steps x (enlist_goal i a x) \<and> length (rt_heap (enlist_goal i a x)) = length (rt_heap x)"
proof -
  have "runtime_steps x (run_at i (\<lambda>a. (a\<lparr>at_stopRequested := True\<rparr>, [])) y)" if "rt_heap y = rt_heap x" "rt_log y = rt_log x" for y
    using that assms by (intro rtranclp_trans [OF elsewhere_steps run_at_steps [OF traces_quiet_sections(11)]]) simp_all
  moreover have "runtime_steps x (x\<lparr>rt_goals := (rt_goals x)(a \<mapsto> i)\<rparr>)" by (rule elsewhere_steps) simp_all
  ultimately show ?thesis by (simp add: enlist_goal_def)
qed

lemma PrepareGoal_steps:
  "runtime_steps r (snd (PrepareGoal W accepts threadID params r)) \<and>
   (case fst (PrepareGoal W accepts threadID params r) of Inl _ \<Rightarrow> True | Inr i \<Rightarrow> i < length (rt_heap (snd (PrepareGoal W accepts threadID params r))))"
proof (cases "client r")
  case (Inr gen)
  obtain i r1 where reg: "register_attempt (new_attempt gen threadID params True) r = (i, r1)" by fastforce
  let ?r2 = "r1\<lparr>rt_earlyGoalUpdates := (rt_earlyGoalUpdates r1)(threadID := None)\<rparr>"
  have s2: "runtime_steps r ?r2" and i2: "i < length (rt_heap ?r2)"
    using register_steps [OF reg] by (auto elim: elsewhere_after)
  let ?r3 = "case rt_earlyGoalUpdates r1 threadID of None \<Rightarrow> ?r2
    | Some early \<Rightarrow> if Ev_Method early \<noteq> [] then run_at i (routeAttempt W (rt_current ?r2) accepts early) ?r2 else ?r2"
  have s3: "runtime_steps r ?r3 \<and> i < length (rt_heap ?r3)"
    using s2 i2 rtranclp_trans [OF s2 run_at_steps [OF traces_routeAttempt i2]] by (simp split: option.split)
  from enlist_goal_steps [of i ?r3 "RM_AttemptID (TP_Route params)"] s3
  have "runtime_steps r (enlist_goal i (RM_AttemptID (TP_Route params)) ?r3) \<and> i < length (rt_heap (enlist_goal i (RM_AttemptID (TP_Route params)) ?r3))"
    using rtranclp_trans by fastforce
  then show ?thesis by (simp add: PrepareGoal_def Inr reg Let_def)
qed (simp add: PrepareGoal_def)

lemma GoalAttempt_Close_steps: "i < length (rt_heap r) \<Longrightarrow> runtime_steps r (GoalAttempt_Close i r)"
  unfolding GoalAttempt_Close_def Let_def by (auto intro: drop_attempt_steps elsewhere_after [OF drop_attempt_steps])

lemma StartGoal_steps:
  assumes "env_steps env" "steps_only pause" "steps_only get_goal"
  shows "runtime_steps r (snd (StartGoal W env pause get_goal threadID params r))"
proof -
  obtain g r1 where p: "PrepareGoal W (ae_shown env) threadID params r = (g, r1)" by fastforce
  have s1: "runtime_steps r r1" using PrepareGoal_steps [of r W "ae_shown env" threadID params] p by simp
  show ?thesis
  proof (cases g)
    case (Inl e)
    then show ?thesis using s1 p by (simp add: StartGoal_def)
  next
    case (Inr i)
    have i1: "i < length (rt_heap r1)" using PrepareGoal_steps [of r W "ae_shown env" threadID params] p Inr by simp
    obtain out r2 where st: "GoalAttempt_Start W env pause get_goal params i r1 = (out, r2)" by fastforce
    have s12: "runtime_steps r1 r2" using GoalAttempt_Start_steps [OF assms(1) i1 assms(2,3), of W params] st by simp
    have "runtime_steps r2 (GoalAttempt_Close i r2)" using steps_keep [OF s12 i1] by (intro GoalAttempt_Close_steps) simp
    then show ?thesis using rtranclp_trans [OF s1 s12] p Inr st by (auto simp: StartGoal_def intro: rtranclp_trans)
  qed
qed

definition server_steps :: "server_env \<Rightarrow> bool" where
  "server_steps env \<longleftrightarrow> (\<forall>i. steps_only (se_bound env i)) \<and> steps_only (se_slot env) \<and> (\<forall>c. steps_only (se_handler env c))"

lemma execute_call_steps:
  assumes e: "server_steps env" and i: "i < length (rt_heap r)" and t: "at_threadID (rt_heap r ! i) = TCall_ThreadID request"
  shows "runtime_steps r (snd (execute_call env i request r))"
proof (cases "may_run request (rt_heap r ! i)")
  case True
  let ?r = "run_at i (permit_call request) r"
  obtain result err r1 where h: "se_handler env request ?r = ((result, err), r1)" by (metis prod.exhaust)
  have "runtime_step r ?r" unfolding run_at_def using runtime_step.on_attempt [OF i attempt_step.permit [OF t True], of "fst (permit_call request (rt_heap r ! i))"
      "snd (permit_call request (rt_heap r ! i))"] by simp
  moreover have "steps_only (se_handler env request)" using e by (simp add: server_steps_def)
  ultimately have s1: "runtime_steps r r1" using steps_onlyD [of "se_handler env request", OF _ h] by (simp add: converse_rtranclp_into_rtranclp)
  show ?thesis using rtranclp_trans [OF s1 run_at_steps [OF traces_sections(3)]] steps_keep [OF s1 i] True h by (simp add: execute_call_def)
qed (simp add: execute_call_def)

lemma serve_call_steps:
  assumes e: "server_steps env" and i: "i < length (rt_heap r)" and t: "at_threadID (rt_heap r ! i) = TCall_ThreadID request"
  shows "runtime_steps r (snd (serve_call env i event request r))"
proof -
  let ?r3 = "run_at i (observed (StartTool (TCall_CallID request) (TCall_Tool request) (TCall_Arguments request)))
    (run_at i (observed (RecordProtocolEvent (at_generation (rt_heap r ! i)) event)) (run_at i (add_call (TCall_CallID request)) r))"
  have s3: "runtime_steps r ?r3"
    by (rule rtranclp_trans [OF rtranclp_trans [OF run_at_steps run_at_steps] run_at_steps]) (use i in \<open>auto intro: traced\<close>)
  obtain took r4 where sl: "se_slot env ?r3 = (took, r4)" by fastforce
  have s4: "runtime_steps r r4" using rtranclp_trans [OF s3 steps_onlyD [of "se_slot env", OF _ sl]] e by (simp add: server_steps_def)
  let ?r5 = "run_at i take_slot r4"
  have s5: "runtime_steps r ?r5" using steps_keep [OF s4 i] by (intro rtranclp_trans [OF s4 run_at_steps [OF traces_quiet_sections(3)]]) simp
  have s6: "runtime_steps r (snd (execute_call env i request ?r5))"
    using steps_keep [OF s5 i] t by (intro rtranclp_trans [OF s5 execute_call_steps [OF e]]) simp_all
  have "runtime_steps r (run_at i free_slot (snd (execute_call env i request ?r5)))"
    using steps_keep [OF s6 i] by (intro rtranclp_trans [OF s6 run_at_steps [OF traces_quiet_sections(4)]]) simp
  then show ?thesis using s3 s4 sl by (simp add: serve_call_def Let_def split: bool.split)
qed

lemma serve_first_steps:
  assumes e: "server_steps env" and o: "in_heap order r"
  shows "runtime_steps r (snd (serve_first env event request order r))"
  using o
proof (induction order arbitrary: r)
  case (Cons i order)
  let ?r = "if at_threadID (rt_heap r ! i) = TCall_ThreadID request \<and> at_turnID (rt_heap r ! i) = [] then snd (se_bound env i r) else r"
  have s: "runtime_steps r ?r" using e by (simp add: server_steps_def steps_only_def)
  have i: "i < length (rt_heap r)" using Cons.prems by (simp add: in_heap_def)
  have k: "i < length (rt_heap ?r)" "at_threadID (rt_heap ?r ! i) = at_threadID (rt_heap r ! i)" using steps_keep [OF s i] by simp_all
  have "in_heap order ?r" using Cons.prems steps_keep [OF s] by (auto simp: in_heap_def)
  then have rest: "runtime_steps r (snd (serve_first env event request order ?r))" using rtranclp_trans [OF s Cons.IH] by blast
  have "at_threadID (rt_heap r ! i) = TCall_ThreadID request \<Longrightarrow> runtime_steps r (snd (serve_call env i event request ?r))"
    using k by (intro rtranclp_trans [OF s serve_call_steps [OF e]]) simp_all
  then show ?case using rest by (auto simp: Let_def)
qed simp

lemma handleServerRequest_steps:
  "server_steps env \<Longrightarrow> in_heap order r \<Longrightarrow> runtime_steps r (snd (handleServerRequest W env order event r))"
  by (simp add: handleServerRequest_def serve_first_steps split: option.split)

lemma handleServerResponse_steps: "in_heap order r \<Longrightarrow> runtime_steps r (handleServerResponse W order event writeErr r)"
proof -
  have "in_heap order r \<Longrightarrow> runtime_steps r (respond_first request writeErr order r)" for request
    by (induction order) (auto simp: in_heap_def Let_def intro!: run_at_steps traced)
  then show "in_heap order r \<Longrightarrow> ?thesis" by (simp add: handleServerResponse_def split: option.split)
qed

text \<open>
  The moves of the runtime: its operations, during whose blocking calls other steps happen, and single steps of goroutines
  that are in the middle of an operation.
\<close>

inductive runtime_move :: "Wire \<Rightarrow> Runtime \<Rightarrow> Runtime \<Rightarrow> bool" for W where
  step: "runtime_step r r' \<Longrightarrow> runtime_move W r r'"
| event: "in_heap order r \<Longrightarrow> runtime_move W r (snd (dispatch W accepts order event r))"
| close: "in_heap order r \<Longrightarrow> runtime_move W r (Runtime_Close order r)"
| start: "steps_only initialize \<Longrightarrow> runtime_move W r (snd (startGeneration start initialize r))"
| exited: "in_heap order r \<Longrightarrow> steps_only initialize \<Longrightarrow> runtime_move W r (onGenerationExit start initialize order gen r)"
| turn: "env_steps env \<Longrightarrow> runtime_move W r (snd (StartTurn W env threadID params r))"
| goal: "env_steps env \<Longrightarrow> steps_only pause \<Longrightarrow> steps_only get_goal \<Longrightarrow> runtime_move W r (snd (StartGoal W env pause get_goal threadID params r))"
| prepare: "runtime_move W r (snd (PrepareGoal W accepts threadID params r))"
| begin_goal: "env_steps env \<Longrightarrow> i < length (rt_heap r) \<Longrightarrow> steps_only pause \<Longrightarrow> steps_only get_goal
    \<Longrightarrow> runtime_move W r (snd (GoalAttempt_Start W env pause get_goal params i r))"
| close_goal: "i < length (rt_heap r) \<Longrightarrow> runtime_move W r (GoalAttempt_Close i r)"
| stop_goal: "(\<And>i. rt_goals r attemptID = Some i \<Longrightarrow> i < length (rt_heap r)) \<Longrightarrow> steps_only pause \<Longrightarrow> steps_only get_goal
    \<Longrightarrow> runtime_move W r (snd (RequestGoalStop W pause get_goal attemptID r))"
| request: "server_steps env \<Longrightarrow> in_heap order r \<Longrightarrow> runtime_move W r (snd (handleServerRequest W env order event r))"
| response: "in_heap order r \<Longrightarrow> runtime_move W r (handleServerResponse W order event writeErr r)"

lemma RequestGoalStop_steps:
  assumes "\<And>i. rt_goals r attemptID = Some i \<Longrightarrow> i < length (rt_heap r)" and "steps_only pause" "steps_only get_goal"
  shows "runtime_steps r (snd (RequestGoalStop W pause get_goal attemptID r))"
  using assms BeginStop_steps by (auto simp: RequestGoalStop_def intro: elsewhere_steps split: option.split)

lemma move_steps: "runtime_move W r r' \<Longrightarrow> runtime_steps r r'"
  by (induction rule: runtime_move.induct)
     (simp_all add: r_into_rtranclp dispatch_steps Runtime_Close_steps startGeneration_steps onGenerationExit_steps StartTurn_def startAttempt_steps
       StartGoal_steps PrepareGoal_steps GoalAttempt_Start_steps GoalAttempt_Close_steps RequestGoalStop_steps handleServerRequest_steps handleServerResponse_steps)

lemma moves_steps: "(runtime_move W)\<^sup>*\<^sup>* r r' \<Longrightarrow> runtime_steps r r'"
  by (induction rule: rtranclp_induct) (auto intro: rtranclp_trans move_steps)

section \<open>The fence of an attempt\<close>

definition acts_of :: "nat \<Rightarrow> Runtime \<Rightarrow> act list" where
  "acts_of i r = map snd (filter (\<lambda>(j, _). j = i) (rt_log r))"

text \<open>What the acts so far say: whether the attempt is over, its turn, and the calls whose handler started and that are not forgotten.\<close>

definition over :: "act list \<Rightarrow> bool" where
  "over acts \<longleftrightarrow> (\<exists>err. Finished err \<in> set acts)"

fun note_turn :: "act \<Rightarrow> string \<Rightarrow> string" where
  "note_turn (TurnBound t) u = t"
| "note_turn _ u = u"

fun note_call :: "act \<Rightarrow> string set \<Rightarrow> string set" where
  "note_call (HandlerStarted c) S = insert (TCall_CallID c) S"
| "note_call (CallForgotten c) S = S - {c}"
| "note_call _ S = S"

definition bound_turn :: "act list \<Rightarrow> string" where
  "bound_turn acts = fold note_turn acts []"

definition open_calls :: "act list \<Rightarrow> string set" where
  "open_calls acts = fold note_call acts {}"

fun allowed :: "string \<Rightarrow> act list \<Rightarrow> act \<Rightarrow> bool" where
  "allowed thread before (Finished err) = (\<not> over before)"
| "allowed thread before (HandlerStarted c) = (\<not> over before \<and> TCall_ThreadID c = thread \<and> TCall_TurnID c = bound_turn before \<and> TCall_CallID c \<notin> open_calls before)"
| "allowed thread before _ = True"

definition orderly :: "string \<Rightarrow> act list \<Rightarrow> bool" where
  "orderly thread acts \<longleftrightarrow> (\<forall>before x later. acts = before @ x # later \<longrightarrow> allowed thread before x)"

lemma monitor_Nil [simp]: "\<not> over []" "bound_turn [] = []" "open_calls [] = {}" "orderly thread []"
  by (simp_all add: over_def bound_turn_def open_calls_def orderly_def)

lemma monitor_snoc [simp]:
  "over (acts @ [x]) \<longleftrightarrow> over acts \<or> (\<exists>err. x = Finished err)"
  "bound_turn (acts @ [x]) = note_turn x (bound_turn acts)"
  "open_calls (acts @ [x]) = note_call x (open_calls acts)"
  by (auto simp: over_def bound_turn_def open_calls_def)

lemma orderly_snoc [simp]: "orderly thread (acts @ [x]) \<longleftrightarrow> orderly thread acts \<and> allowed thread acts x"
  unfolding orderly_def
proof (intro iffI conjI allI impI)
  assume h: "\<forall>before y later. acts @ [x] = before @ y # later \<longrightarrow> allowed thread before y"
  show "allowed thread acts x" using h by blast
  fix before y later assume "acts = before @ y # later"
  then have "acts @ [x] = before @ y # (later @ [x])" by simp
  then show "allowed thread before y" using h by blast
next
  fix before y later
  assume h: "(\<forall>before x later. acts = before @ x # later \<longrightarrow> allowed thread before x) \<and> allowed thread acts x" and eq: "acts @ [x] = before @ y # later"
  show "allowed thread before y"
  proof (cases later rule: rev_cases)
    case Nil
    then show ?thesis using h eq by simp
  next
    case (snoc ys z)
    then show ?thesis using h eq by (metis append_Cons append_assoc butlast_snoc)
  qed
qed

definition fenced :: "attempt \<Rightarrow> act list \<Rightarrow> bool" where
  "fenced a acts \<longleftrightarrow> orderly (at_threadID a) acts \<and> at_finished a = over acts \<and> at_turnID a = bound_turn acts
     \<and> (\<forall>c\<in>open_calls acts. \<exists>state. at_toolCalls a c = Some state \<and> tc_handlerStarted state)
     \<and> length (at_done a) \<le> 1 \<and> (at_finished a \<or> at_done a = [])"

lemma fenced_inert: "fenced a acts \<Longrightarrow> fence_view a' = fence_view a \<Longrightarrow> list_all inert more_acts \<Longrightarrow> fenced a' (acts @ more_acts)"
proof (induction more_acts rule: rev_induct)
  case Nil
  then show ?case by (auto simp: fenced_def fence_view_def split: if_splits)
next
  case (snoc x xs)
  have "inert x" using snoc.prems(3) by simp
  then have x: "note_turn x = id" "note_call x = id" "\<And>th l. allowed th l x" "\<nexists>err. x = Finished err" by (cases x; auto)+
  have "fenced a' (acts @ xs)" using snoc by simp
  then show ?case unfolding fenced_def append_assoc [symmetric] by (auto simp: x simp del: append_assoc)
qed

lemma step_fenced: "attempt_step a new a' \<Longrightarrow> fenced a acts \<Longrightarrow> fenced a' (acts @ new)"
proof (induction rule: attempt_step.induct)
  case (quiet a' a new)
  then show ?case by (intro fenced_inert)
next
  case (finish err a a' new)
  show ?case
  proof (cases "at_finished a")
    case True
    then show ?thesis using finish by (simp add: finish_def)
  next
    case False
    let ?b = "a\<lparr>at_finished := True, at_toolCalls := map_option end_call \<circ> at_toolCalls a, at_cancelled := True, at_bound := True, at_done := at_done a @ [err]\<rparr>"
    have "fenced ?b (acts @ [Finished err])" using finish.prems False by (fastforce simp: fenced_def end_call_def)
    moreover have "a' = ?b" "new = [Finished err] @ (if at_observation a then [CloseProtocol None err] else [])" using finish.hyps False by (auto simp: finish_def)
    ultimately show ?thesis using fenced_inert [of ?b "acts @ [Finished err]" ?b "if at_observation a then [CloseProtocol None err] else []"] by simp
  qed
next
  case (bind t a a' waiting)
  then show ?case by (auto simp: fenced_def bind_turn_def split: if_splits)
next
  case (taken a a' new)
  then show ?case by (auto simp: fenced_def take_done_def split: if_splits)
next
  case (add c a a' new)
  then show ?case by (fastforce simp: fenced_def add_call_def split: option.splits)
next
  case (permit a request a' new)
  then show ?case by (fastforce simp: fenced_def permit_call_def may_run_def split: option.splits)
next
  case (store c result err a a' new)
  then show ?case by (fastforce simp: fenced_def store_result_def split: option.splits)
next
  case (forget a c state)
  then show ?case by (auto simp: fenced_def split: if_splits)
qed

definition runtime_inv :: "Runtime \<Rightarrow> bool" where
  "runtime_inv r \<longleftrightarrow> (\<forall>i<length (rt_heap r). fenced (rt_heap r ! i) (acts_of i r)) \<and> (\<forall>(i, _)\<in>set (rt_log r). i < length (rt_heap r))"

lemma acts_of_put: "acts_of j (put_attempt i x r) = (if j = i then acts_of i r @ snd x else acts_of j r)"
  by (auto simp: acts_of_def put_attempt_def filter_map o_def)

lemma runtime_inv_step: "runtime_step r r' \<Longrightarrow> runtime_inv r \<Longrightarrow> runtime_inv r'"
proof (induction rule: runtime_step.induct)
  case (on_attempt i r acts a)
  have "fenced a (acts_of i r @ acts)" using step_fenced [OF on_attempt(2)] on_attempt by (simp add: runtime_inv_def)
  then show ?case using on_attempt unfolding runtime_inv_def by (auto simp: acts_of_put) (auto simp: put_attempt_def nth_list_update)
next
  case (create r gen t params goal)
  let ?r = "snd (register_attempt (new_attempt gen t params goal) r)"
  have heap: "rt_heap ?r = rt_heap r @ [new_attempt gen t params goal]" "rt_log ?r = rt_log r" by (simp_all add: register_attempt_def Let_def)
  have none: "acts_of (length (rt_heap r)) r = []" using create by (fastforce simp: acts_of_def runtime_inv_def filter_empty_conv)
  have "fenced (new_attempt gen t params goal) []" by (simp add: fenced_def new_attempt_def)
  moreover have "acts_of i ?r = acts_of i r" for i by (simp add: acts_of_def heap)
  ultimately show ?case using create none by (fastforce simp: runtime_inv_def heap nth_append less_Suc_eq)
next
  case (elsewhere r' r)
  then show ?case by (simp add: runtime_inv_def acts_of_def)
qed

lemma runtime_inv_steps: "runtime_steps (NewRuntimeWithStarter cfg) r \<Longrightarrow> runtime_inv r"
proof (induction rule: rtranclp_induct)
  case base
  then show ?case by (simp add: runtime_inv_def NewRuntimeWithStarter_def)
qed (rule runtime_inv_step)

lemma orderly_split: "orderly thread acts \<Longrightarrow> acts = before @ x # later \<Longrightarrow> allowed thread before x"
  by (simp add: orderly_def)

lemma orderly_over:
  assumes "orderly thread acts" and "acts = before @ Finished err # later"
  shows "\<not> over later \<and> (\<forall>c. HandlerStarted c \<notin> set later)"
proof -
  have "\<not> (\<exists>e. x = Finished e) \<and> \<not> (\<exists>c. x = HandlerStarted c)" if x: "x \<in> set later" for x
  proof -
    obtain l1 l2 where "later = l1 @ x # l2" using split_list [OF x] by blast
    then have "allowed thread (before @ Finished err # l1) x" using orderly_split [OF assms(1), of "before @ Finished err # l1" x l2] assms(2) by simp
    then show ?thesis by (cases x) (auto simp: over_def)
  qed
  then show ?thesis by (auto simp: over_def)
qed

section \<open>Routing\<close>

lemma finish_known [simp]: "at_knownTurns (fst (finish err a)) = at_knownTurns a"
  by (simp add: finish_def)

lemma interrupt_known [simp]: "at_knownTurns (fst (interruptAttempt current reason a)) = at_knownTurns a"
  by (simp add: interruptAttempt_def sect_then_parts say_def)

lemma part_known [simp]:
  "at_knownTurns (fst (note_usage W event a)) = at_knownTurns a"
  "at_knownTurns (fst (goal_updated W event a)) = at_knownTurns a"
  "at_knownTurns (fst (settle_turn err a)) = at_knownTurns a"
  "at_knownTurns (fst (item_completed W current accepts event a)) = at_knownTurns a"
  by (simp_all add: note_usage_def goal_updated_def settle_turn_def item_completed_def sect_then_parts say_def Let_def split: option.split)

lemma turn_completed_known [simp]: "at_knownTurns (fst (turn_completed W event a)) = at_knownTurns a"
  by (simp add: turn_completed_def Let_def sect_then_parts say_def observed_def)

lemma route_known [simp]: "at_knownTurns (fst (routeAttempt W current accepts event a)) = at_knownTurns a"
  by (simp add: routeAttempt_def sect_then_parts observed_def progress_def)

lemma route_all_known: "at_knownTurns (fst (sect_all (map (route_pending W current accepts t) waiting) a)) = at_knownTurns a"
  by (induction waiting arbitrary: a) (simp_all add: sect_then_parts say_def route_pending_def)

lemma bind_known:
  assumes "at_goal a" and "fst (bindAttempt W current accepts t a)"
  shows "t \<in> at_knownTurns (fst (snd (bindAttempt W current accepts t a)))"
proof -
  obtain a1 waiting where b: "bind_turn t a = Some (a1, waiting)" using assms(2) by (auto simp: bindAttempt_def split: option.splits)
  then have "t \<in> at_knownTurns a1" using assms(1) by (auto simp: bind_turn_def split: if_splits)
  then show ?thesis by (simp add: bindAttempt_def b sect_then_parts say_def route_all_known)
qed

text \<open>When an event of a turn may touch an attempt, and what may then come of it.\<close>

definition concerns :: "Event \<Rightarrow> string \<Rightarrow> attempt \<Rightarrow> attempt \<times> act list \<Rightarrow> bool" where
  "concerns event turnID a x \<longleftrightarrow> turnID = [] \<or> Ev_Method event = ''thread/tokenUsage/updated'' \<or> at_turnID a = [] \<and> snd x = []
     \<or> (if at_goal a then Ev_Method event = ''thread/goal/updated'' \<or> turnID \<in> at_knownTurns (fst x) else turnID = at_turnID a)"

lemma offer_goal_concerns: "offer_goal W current accepts event turnID a = Some (label, x) \<Longrightarrow> at_goal a \<Longrightarrow> concerns event turnID a x"
  using bind_known [of a W current accepts turnID]
  by (auto simp: offer_goal_def concerns_def Let_def sect_then_parts split: if_splits)

lemma offer_concerns:
  assumes "offer W current accepts event a = Some (label, x)" and "eventIDs W (Ev_Params event) = (threadID, turnID)"
  shows "threadID \<noteq> [] \<and> at_threadID a = threadID \<and> concerns event turnID a x"
  using assms offer_goal_concerns [of W current accepts event turnID a label x]
  by (auto simp: offer_def Let_def offer_unbound_def concerns_def split: if_splits)

lemma dispatch_to_cases:
  "dispatch_to W accepts event order r = (out, r') \<Longrightarrow> r' = r
    \<or> (\<exists>i\<in>set order. \<exists>label x. offer W (rt_current r) accepts event (rt_heap r ! i) = Some (label, x) \<and> r' = put_attempt i x r)"
  by (induction order) (auto split: option.splits prod.splits)

section \<open>Properties\<close>

text \<open>
  C36: Whatever the goroutines of the runtime interleave, an attempt ends at most once and hands out at most one outcome; once it has ended no
  handler of a tool starts for it. A handler starts only for a call of the attempt's own thread and of the turn that is bound at that moment, and never
  while a call with the same id, whose handler started, is still remembered.
\<close>

theorem attempt_ends_once_and_fences_tools:
  assumes "(runtime_move W)\<^sup>*\<^sup>* (NewRuntimeWithStarter cfg) r" and "i < length (rt_heap r)"
  shows "(\<forall>before err later. acts_of i r = before @ Finished err # later \<longrightarrow> \<not> over before \<and> \<not> over later \<and> (\<forall>c. HandlerStarted c \<notin> set later))
    \<and> (\<forall>before c later. acts_of i r = before @ HandlerStarted c # later \<longrightarrow>
        TCall_ThreadID c = at_threadID (rt_heap r ! i) \<and> TCall_TurnID c = bound_turn before \<and> TCall_CallID c \<notin> open_calls before)
    \<and> length (at_done (rt_heap r ! i)) \<le> 1 \<and> (at_finished (rt_heap r ! i) \<or> at_done (rt_heap r ! i) = [])
    \<and> at_finished (rt_heap r ! i) = over (acts_of i r)"
proof -
  have f: "fenced (rt_heap r ! i) (acts_of i r)" using runtime_inv_steps [OF moves_steps [OF assms(1)]] assms(2) by (simp add: runtime_inv_def)
  then have o: "orderly (at_threadID (rt_heap r ! i)) (acts_of i r)" by (simp add: fenced_def)
  show ?thesis using f orderly_over [OF o] orderly_split [OF o] by (fastforce simp: fenced_def)
qed

definition ex_ids :: identity_params where
  "ex_ids = \<lparr>ip_ThreadID = ''t'', ip_TurnID = ''u'', ip_ItemID = [], ip_Turn_ID = [], ip_Item_ID = [], ip_Item_ThreadID = [], ip_Item_TurnID = []\<rparr>"

definition ex_wire :: Wire where
  "ex_wire = \<lparr>wire_identity = (\<lambda>raw. Some ex_ids), wire_goal_status = (\<lambda>raw. None), wire_turn = (\<lambda>raw. \<lparr>tp_ID = ''u'', tp_Status = ''completed'', tp_Usage = None\<rparr>),
     wire_turn_id = (\<lambda>raw. Some ''u''), wire_item = (\<lambda>raw. None), wire_item_head = (\<lambda>raw. None), wire_item_text = (\<lambda>raw. None), wire_usage = (\<lambda>raw. None),
     wire_call = (\<lambda>raw. None), wire_quote = id\<rparr>"

definition ex_turn_params :: TurnStartParams where
  "ex_turn_params = \<lparr>TP_ThreadID = [], TP_CWD = [], TP_Model = [], TP_Effort = [], TP_ApprovalPolicy = [], TP_ClientUserMessageID = [], TP_Input = [],
     TP_Route = \<lparr>RM_AppID = [], RM_ChannelKey = [], RM_ChatGroupID = [], RM_AttemptID = []\<rparr>, TP_OnTurnStarted = False,
     TP_OnTurnCompleted = False, TP_Observation = False, TP_OnItem = False, TP_ToolHandler = True\<rparr>"

definition ex_cfg :: RuntimeConfig where
  "ex_cfg = \<lparr>rc_Command = [], rc_RPCTimeout = 0, rc_TurnTimeout = 0, rc_IdleTimeout = 0, rc_Grace = 0\<rparr>"

definition ex_request :: ToolCall where
  "ex_request = \<lparr>TCall_ThreadID = ''t'', TCall_TurnID = ''u'', TCall_CallID = ''c'', TCall_Tool = ''doc_read'', TCall_Arguments = []\<rparr>"

definition ex_completed :: Event where
  "ex_completed = \<lparr>Ev_Seq = 1, Ev_Class = ''notification'', Ev_Method = ''turn/completed'', Ev_ID = [], Ev_Params = ''{}'', Ev_Raw = []\<rparr>"

text \<open>An attempt whose turn is bound and for which a handler has started.\<close>

definition ex_working :: Runtime where
  "ex_working = run_at 0 (permit_call ex_request) (run_at 0 (add_call ''c'') (run_bind ex_wire (\<lambda>_. True) 0 ''u''
     (snd (register_attempt (new_attempt 1 ''t'' ex_turn_params False) (NewRuntimeWithStarter ex_cfg)))))"

lemma ex_request_simps [simp]: "TCall_ThreadID ex_request = ''t''" "TCall_TurnID ex_request = ''u''" "TCall_CallID ex_request = ''c''"
  by (simp_all add: ex_request_def)

lemmas ex_runtime = run_at_def put_attempt_def run_bind_def bindAttempt_def bind_turn_def sect_then_def say_def register_attempt_def NewRuntimeWithStarter_def
  new_attempt_def ex_turn_params_def add_call_def permit_call_def

lemma ex_ids [simp]: "eventIDs ex_wire raw = (''t'', ''u'')"
  by (simp add: eventIDs_def eventIdentity_def ex_wire_def ex_ids_def)

lemma ex_working_steps: "runtime_steps (NewRuntimeWithStarter ex_cfg) ex_working"
proof -
  let ?r1 = "snd (register_attempt (new_attempt 1 ''t'' ex_turn_params False) (NewRuntimeWithStarter ex_cfg))"
  let ?r3 = "run_at 0 (add_call ''c'') (run_bind ex_wire (\<lambda>_. True) 0 ''u'' ?r1)"
  have one: "length (rt_heap ?r1) = 1" by (simp add: register_attempt_def Let_def NewRuntimeWithStarter_def)
  have "runtime_steps (NewRuntimeWithStarter ex_cfg) ?r1" by (intro r_into_rtranclp runtime_step.create)
  moreover have "runtime_steps ?r1 ?r3"
    unfolding run_bind_def by (rule rtranclp_trans [OF run_at_steps run_at_steps]) (use one in \<open>auto intro: traced\<close>)
  moreover have "runtime_step ?r3 ex_working"
    using runtime_step.on_attempt [of 0 ?r3, OF _ attempt_step.permit [of _ ex_request, OF _ _ surjective_pairing]] one
    by (simp add: ex_working_def run_at_def [of 0 "permit_call ex_request"]) (simp add: run_bind_def may_run_def ex_runtime Let_def new_call_def)
  ultimately show ?thesis by (meson rtranclp.rtrancl_into_rtrancl rtranclp_trans)
qed

lemma ex_working_state: "rt_heap ex_working = [(new_attempt 1 ''t'' ex_turn_params False)\<lparr>at_turnID := ''u'', at_bound := True, at_turnChanged := True,
    at_toolCalls := [''c'' \<mapsto> new_call\<lparr>tc_handlerStarted := True\<rparr>]\<rparr>]" "rt_log ex_working = [(0, TurnBound ''u''), (0, HandlerStarted ex_request)]"
  by (simp_all add: ex_working_def ex_runtime Let_def new_call_def)

lemma ex_done:
  "dispatch ex_wire (\<lambda>_. True) [0] ex_completed ex_working = (''attempt_routed'', put_attempt 0 (finish None (rt_heap ex_working ! 0)) ex_working)"
  by (simp add: dispatch_def offer_def ex_working_state) (simp add: routeAttempt_def turn_completed_def settle_turn_def turn_err_def ex_completed_def ex_wire_def note_usage_def
      sect_then_def say_def observed_def new_attempt_def ex_turn_params_def finish_def)

lemma moves_of_steps: "runtime_steps r r' \<Longrightarrow> (runtime_move W)\<^sup>*\<^sup>* r r'"
  by (induction rule: rtranclp_induct) (auto intro: rtranclp.rtrancl_into_rtrancl runtime_move.step)

theorem attempt_ends_once_and_fences_tools_witness:
  "\<exists>r. (runtime_move ex_wire)\<^sup>*\<^sup>* (NewRuntimeWithStarter ex_cfg) r \<and> acts_of 0 r = [TurnBound ''u'', HandlerStarted ex_request, Finished None]
     \<and> \<not> over [TurnBound ''u'', HandlerStarted ex_request] \<and> TCall_TurnID ex_request = bound_turn [TurnBound ''u'']
     \<and> at_finished (rt_heap r ! 0) \<and> at_done (rt_heap r ! 0) = [None]"
proof (intro exI conjI)
  let ?r = "snd (dispatch ex_wire (\<lambda>_. True) [0] ex_completed ex_working)"
  show m: "(runtime_move ex_wire)\<^sup>*\<^sup>* (NewRuntimeWithStarter ex_cfg) ?r"
    by (rule rtranclp.rtrancl_into_rtrancl [OF moves_of_steps [OF ex_working_steps] runtime_move.event]) (simp add: in_heap_def ex_working_state)
  show a: "acts_of 0 ?r = [TurnBound ''u'', HandlerStarted ex_request, Finished None]"
    by (simp add: ex_done acts_of_def put_attempt_def ex_working_state finish_def new_attempt_def ex_turn_params_def)
  show "at_finished (rt_heap ?r ! 0)" "at_done (rt_heap ?r ! 0) = [None]"
    by (simp_all add: ex_done put_attempt_def ex_working_state finish_def new_attempt_def)
  have l: "0 < length (rt_heap ?r)" by (simp add: ex_done ex_working_state)
  note t = attempt_ends_once_and_fences_tools [OF m l, unfolded a]
  show "\<not> over [TurnBound ''u'', HandlerStarted ex_request]" "TCall_TurnID ex_request = bound_turn [TurnBound ''u'']"
    using t by (metis append_Cons append_Nil)+
qed



section \<open>Two gaps of the runtime\<close>

text \<open>
  Usage reported for a turn before the answer of \<open>turn/start\<close> is routed at once and forgotten when the turn is bound, although other events of that time are
  kept for the turn.
\<close>

lemma usage_before_binding_lost:
  assumes "Ev_Class event = ''notification''" and "Ev_Method event = ''thread/tokenUsage/updated''" and "usageSnapshot W (Ev_Params event) = Some u"
    and "at_turnID a = []" and "turnID \<noteq> []" and "\<not> at_finished a" and "\<not> at_goal a"
  shows "at_lastTokenUsage (fst (routeAttempt W current accepts event a)) = Some u"
    and "\<exists>b waiting. bind_turn turnID (fst (routeAttempt W current accepts event a)) = Some (b, waiting) \<and> at_lastTokenUsage b = None"
  using assms by (simp_all add: routeAttempt_def sect_then_parts observed_def note_usage_def progress_def bind_turn_def)

text \<open>
  A second request with the id of a call whose handler runs is refused, but the answer to it makes the runtime forget the call: a third request with that
  id would start the handler again.
\<close>

lemma refused_duplicate_reopens_call:
  assumes "at_toolCalls a (TCall_CallID request) = Some state" and "tc_handlerStarted state" and "\<not> at_finished a" and "at_turnID a = TCall_TurnID request"
  shows "\<not> may_run request a" and "may_run request (fst (add_call (TCall_CallID request) (fst (forget_call (TCall_CallID request) writeErr a))))"
  using assms by (simp_all add: may_run_def forget_call_def add_call_def sect_then_parts observed_def new_call_def)

end
