(* ===== verification/Feishu_Action.thy ===== *)
theory Feishu_Action
  imports Attachment_Store Tool_Types Worker_Types Key_Protectors Go_Filepath
begin

text \<open>
  The dynamic tools a turn may call to act on its own channel (\<open>internal/feishuaction/service.go\<close>): replay of a recorded
  result, the claim of the call, validation of its arguments, the start mark and at most one call of
  the Feishu client, and the sealed record of its outcome. JSON decoding, \<open>url.Parse\<close>, the file system, SHA-256 and the
  client's answers are parameters.
\<close>

section \<open>Data\<close>

record DocumentOutcome =
  Doc_URL :: string
  Doc_ContentWritten :: bool
  Doc_AnnouncementOutcome :: string
  Doc_OwnerTransferred :: bool
  Doc_OwnerTransferOutcome :: string

record os_file =
  file_stat :: "(bool \<times> int) res"
  file_data :: "string res"

record Client =
  SendCurrentText :: "ReplyTarget \<Rightarrow> string \<Rightarrow> string res"
  UploadAndSend :: "ReplyTarget \<Rightarrow> os_file \<Rightarrow> string \<Rightarrow> (string \<times> string) res"
  CreateDocumentAndAnnounce :: "ReplyTarget \<Rightarrow> string \<Rightarrow> string \<Rightarrow> string \<Rightarrow> DocumentOutcome res"
  ReadDocument :: "string \<Rightarrow> string res"

record Route =
  Route_AppID :: string
  Route_ChannelKey :: string
  Route_ChatGroupID :: string
  Route_Reply :: ReplyTarget
  Route_OwnerOpenID :: string
  Route_WorkspaceDir :: string

text \<open>
  The service. The three ledgers are interfaces that the store implements; a flag says whether each is set. The fields after the
  protector stand for the libraries and the operating system.
\<close>

record Service =
  Clients :: "string \<Rightarrow> Client option"
  MaxFileBytes :: int
  MaxMarkdownBytes :: int
  has_Ledger :: bool
  has_ResultLedger :: bool
  has_ReplayLedger :: bool
  Protector :: "ResultProtector option"
  use_aead :: aead
  sha256_hex :: "string \<Rightarrow> string"
  decode_message :: "string \<Rightarrow> string option"
  decode_file :: "string \<Rightarrow> (string \<times> string) option"
  decode_document :: "string \<Rightarrow> (string \<times> string) option"
  decode_read :: "string \<Rightarrow> string option"
  url_Parse :: "string \<Rightarrow> (string \<times> string \<times> string) option"
  marshal_outcome :: "DocumentOutcome \<Rightarrow> string res"
  EvalSymlinks :: "string \<Rightarrow> string res"
  os_Open :: "string \<Rightarrow> os_file res"

section \<open>Tool names\<close>

definition FeishuToolMessageSendCurrentChannel :: string where
  "FeishuToolMessageSendCurrentChannel = ''feishu.message_send_current_channel''"

definition FeishuToolFileUploadAndSendCurrentChannel :: string where
  "FeishuToolFileUploadAndSendCurrentChannel = ''feishu.file_upload_and_send_current_channel''"

definition FeishuToolDocCreateAndAnnounce :: string where
  "FeishuToolDocCreateAndAnnounce = ''feishu.doc_create_and_announce''"

definition FeishuToolDocRead :: string where
  "FeishuToolDocRead = ''feishu.doc_read''"

definition canonicalToolName :: "string \<Rightarrow> string" where
  "canonicalToolName tool =
     (if tool = ''message_send_current_channel'' then FeishuToolMessageSendCurrentChannel
      else if tool = ''file_upload_and_send_current_channel'' then FeishuToolFileUploadAndSendCurrentChannel
      else if tool = ''doc_create_and_announce'' then FeishuToolDocCreateAndAnnounce
      else if tool = ''doc_read'' then FeishuToolDocRead
      else tool)"

section \<open>Document references\<close>

definition isFeishuDocumentHost :: "string \<Rightarrow> bool" where
  "isFeishuDocumentHost host \<longleftrightarrow> host = ''feishu.cn'' \<or> has_suffix host ''.feishu.cn'' \<or> host = ''larksuite.com'' \<or> has_suffix host ''.larksuite.com''"

definition alnum_rune :: "nat \<Rightarrow> bool" where
  "alnum_rune r \<longleftrightarrow> 48 \<le> r \<and> r \<le> 57 \<or> 65 \<le> r \<and> r \<le> 90 \<or> 97 \<le> r \<and> r \<le> 122"

definition isDocumentID :: "string \<Rightarrow> bool" where
  "isDocumentID value \<longleftrightarrow> 8 \<le> length value \<and> length value \<le> 128 \<and> list_all alnum_rune (runes value)"

text \<open>\<open>url.PathUnescape\<close>: a per cent sign takes two hexadecimal digits.\<close>

definition hex_value :: "char \<Rightarrow> nat" where
  "hex_value c = (let n = of_char c in if 97 \<le> n then n - 87 else if 65 \<le> n then n - 55 else n - 48)"

fun PathUnescape :: "string \<Rightarrow> string option" where
  "PathUnescape [] = Some []"
| "PathUnescape (c # s) =
     (if c = CHR ''%'' then (case s of h # l # rest \<Rightarrow>
          if hex_digit h \<and> hex_digit l then map_option (Cons (char_of (16 * hex_value h + hex_value l))) (PathUnescape rest) else None
        | _ \<Rightarrow> None)
      else map_option (Cons c) (PathUnescape s))"

text \<open>\<open>strings.Trim(s, "/")\<close>\<close>

definition trim_slashes :: "string \<Rightarrow> string" where
  "trim_slashes s = rev (dropWhile (\<lambda>c. c = slash) (rev (dropWhile (\<lambda>c. c = slash) s)))"

definition documentIDFromReference :: "Service \<Rightarrow> string \<Rightarrow> string option" where
  "documentIDFromReference s reference0 =
     (let reference = trim_space reference0 in
      if isDocumentID reference then Some reference
      else case url_Parse s reference of None \<Rightarrow> None
        | Some (scheme, hostname, escapedPath) \<Rightarrow>
            if scheme \<noteq> ''https'' \<or> \<not> isFeishuDocumentHost hostname then None
            else (case split_path (trim_slashes escapedPath) of
                [first, second] \<Rightarrow> if first \<noteq> ''docx'' then None
                  else (case PathUnescape second of None \<Rightarrow> None
                    | Some documentID \<Rightarrow> if isDocumentID documentID then Some documentID else None)
              | _ \<Rightarrow> None))"

section \<open>Local files\<close>

definition ErrInvalidFile :: go_error where "ErrInvalidFile = Sentinel ''file must be a non-empty ordinary file''"
definition ErrFileTooLarge :: go_error where "ErrFileTooLarge = Sentinel ''file exceeds Feishu size limit''"
definition ErrInvalidMarkdown :: go_error where "ErrInvalidMarkdown = Sentinel ''markdown must be a non-empty UTF-8 regular file''"

definition kept_rune :: "nat \<Rightarrow> bool" where
  "kept_rune r \<longleftrightarrow> \<not> (r < 32 \<or> r = 47 \<or> r = 92)"

definition safeDisplayName :: "string \<Rightarrow> string" where
  "safeDisplayName name0 = (let name = Base (filter_runes kept_rune name0) in
     if name = ''.'' \<or> name = [] \<or> length name > 255 then [] else name)"

definition OpenOrdinaryFile :: "Service \<Rightarrow> string \<Rightarrow> string \<Rightarrow> int \<Rightarrow> (os_file \<times> string \<times> int) res" where
  "OpenOrdinaryFile s path displayName maxBytes =
     (if path = [] \<or> maxBytes \<le> 0 then Inl ErrInvalidFile
      else case EvalSymlinks s path of Inl err \<Rightarrow> Inl (Wrapf ''resolve file path'' err)
      | Inr resolved \<Rightarrow> (case os_Open s resolved of Inl err \<Rightarrow> Inl (Wrapf ''open file'' err)
        | Inr file \<Rightarrow> (case file_stat file of Inl err \<Rightarrow> Inl (Wrapf ''stat opened file'' err)
          | Inr (regular, bytes) \<Rightarrow>
              if \<not> regular \<or> bytes \<le> 0 then Inl ErrInvalidFile
              else if bytes > maxBytes then Inl ErrFileTooLarge
              else (let name = (if safeDisplayName displayName = [] then safeDisplayName (Base resolved) else safeDisplayName displayName) in
                if name = [] then Inl ErrInvalidFile else Inr (file, name, bytes)))))"

definition ReadMarkdownFile :: "Service \<Rightarrow> string \<Rightarrow> int \<Rightarrow> string res" where
  "ReadMarkdownFile s path maxBytes =
     (if path = [] \<or> maxBytes \<le> 0 then Inl ErrInvalidMarkdown
      else case os_Open s path of Inl err \<Rightarrow> Inl ErrInvalidMarkdown
      | Inr file \<Rightarrow> (case file_stat file of Inl err \<Rightarrow> Inl ErrInvalidMarkdown
        | Inr (regular, bytes) \<Rightarrow>
            if \<not> regular \<or> bytes < 1 \<or> bytes > maxBytes then Inl ErrInvalidMarkdown
            else (case file_data file of Inl err \<Rightarrow> Inl ErrInvalidMarkdown
              | Inr contents0 \<Rightarrow> (let contents = take (nat (maxBytes + 1)) contents0 in
                  if int (length contents) > maxBytes \<or> \<not> valid_string contents then Inl ErrInvalidMarkdown else Inr contents))))"

definition resolveLocalReference :: "string \<Rightarrow> string \<Rightarrow> string" where
  "resolveLocalReference workspaceDir reference =
     (if IsAbs reference \<or> workspaceDir = [] then reference else Join [workspaceDir, reference])"

section \<open>Executing a call\<close>

definition actionExternalFailureState :: "go_error \<Rightarrow> string" where
  "actionExternalFailureState err = (let message = lower_ascii (error_text err) in
     if contains message ''code=4'' \<or> contains message ''code=429'' then ActionRejected else ActionUnknown)"

type_synonym action_answer = "ToolResult \<times> string \<times> bool"

definition actionResult :: "ToolResult \<Rightarrow> string \<Rightarrow> bool \<Rightarrow> action_answer op" where
  "actionResult result state finalize = ret (result, state, finalize)"

text \<open>\<open>startExternal\<close>: the durable mark before the client is called; \<open>external\<close> runs the client's call behind it.\<close>

definition startExternal :: "Route \<Rightarrow> ToolCall \<Rightarrow> bool \<Rightarrow> bool op" where
  "startExternal route call claimed =
     (if \<not> claimed then ret True
      else attempt (StartAction (Route_AppID route) (TCall_ThreadID call) (TCall_TurnID call) (TCall_CallID call))
        (\<lambda>answer. ret (answer = Inr True)))"

definition external :: "Route \<Rightarrow> ToolCall \<Rightarrow> bool \<Rightarrow> feishu_call \<Rightarrow> 'a res \<Rightarrow> string \<Rightarrow> ('a \<Rightarrow> action_answer op) \<Rightarrow> action_answer op" where
  "external route call claimed request answer failure k =
     and_then (startExternal route call claimed) id (\<lambda>begun.
       if \<not> begun then actionResult (toolFailure ''action could not be started'') ActionUnknown claimed
       else and_then (call_feishu request) id (\<lambda>_. case answer of
           Inl err \<Rightarrow> actionResult (toolFailure failure) (actionExternalFailureState err) claimed
         | Inr x \<Rightarrow> k x))"

abbreviation sent_text :: string where
  "sent_text \<equiv> ''{\"outcome\":\"sent\"}''"

definition send_message :: "Service \<Rightarrow> Client \<Rightarrow> Route \<Rightarrow> ToolCall \<Rightarrow> string \<Rightarrow> bool \<Rightarrow> action_answer op" where
  "send_message s client route call behalf claimed = (case decode_message s (TCall_Arguments call) of
       None \<Rightarrow> actionResult (toolFailure ''message parameters are invalid'') ActionRejected claimed
     | Some text \<Rightarrow>
         if text = [] \<or> length text > 10000 then actionResult (toolFailure ''message parameters are invalid'') ActionRejected claimed
         else external route call claimed
           (FeishuCall behalf ''SendCurrentText'' (Reply_ID (Route_Reply route)) (Reply_Type (Route_Reply route)) text)
           (SendCurrentText client (Route_Reply route) text) ''message could not be sent''
           (\<lambda>_. actionResult (toolSuccess sent_text) ActionSucceeded claimed))"

definition send_file :: "Service \<Rightarrow> Client \<Rightarrow> Route \<Rightarrow> ToolCall \<Rightarrow> string \<Rightarrow> bool \<Rightarrow> action_answer op" where
  "send_file s client route call behalf claimed = (case decode_file s (TCall_Arguments call) of
       None \<Rightarrow> actionResult (toolFailure ''file parameters are invalid'') ActionRejected claimed
     | Some (filePath, displayName) \<Rightarrow>
         (case OpenOrdinaryFile s (resolveLocalReference (Route_WorkspaceDir route) filePath) displayName
             (if MaxFileBytes s \<le> 0 then 30000000 else MaxFileBytes s) of
           Inl err \<Rightarrow> actionResult (toolFailure ''file is not an allowed ordinary file'') ActionRejected claimed
         | Inr (file, name, _) \<Rightarrow> external route call claimed
             (FeishuCall behalf ''UploadAndSend'' (Reply_ID (Route_Reply route)) (Reply_Type (Route_Reply route)) name)
             (UploadAndSend client (Route_Reply route) file name) ''file could not be sent''
             (\<lambda>_. actionResult (toolSuccess sent_text) ActionSucceeded claimed)))"

definition create_document :: "Service \<Rightarrow> Client \<Rightarrow> Route \<Rightarrow> ToolCall \<Rightarrow> string \<Rightarrow> bool \<Rightarrow> action_answer op" where
  "create_document s client route call behalf claimed = (case decode_document s (TCall_Arguments call) of
       None \<Rightarrow> actionResult (toolFailure ''document parameters are invalid'') ActionRejected claimed
     | Some (markdownRef, title) \<Rightarrow>
         if markdownRef = [] \<or> title = [] \<or> length title > 800
           then actionResult (toolFailure ''document parameters are invalid'') ActionRejected claimed
         else if Route_OwnerOpenID route = []
           then actionResult (toolFailure ''document owner is unavailable for this message'') ActionRejected claimed
         else (case ReadMarkdownFile s (resolveLocalReference (Route_WorkspaceDir route) markdownRef)
             (if MaxMarkdownBytes s \<le> 0 then 2000000 else MaxMarkdownBytes s) of
           Inl err \<Rightarrow> actionResult (toolFailure ''markdown is not an available local UTF-8 file'') ActionRejected claimed
         | Inr markdown \<Rightarrow> external route call claimed
             (FeishuCall behalf ''CreateDocumentAndAnnounce'' (Reply_ID (Route_Reply route)) (Reply_Type (Route_Reply route)) title)
             (CreateDocumentAndAnnounce client (Route_Reply route) (Route_OwnerOpenID route) title markdown) ''document could not be created''
             (\<lambda>outcome. if Doc_URL outcome = [] \<or> Doc_AnnouncementOutcome outcome = [] \<or> Doc_OwnerTransferOutcome outcome = []
                then actionResult (toolFailure ''document outcome was invalid'') ActionUnknown claimed
                else (case marshal_outcome s outcome of
                    Inl err \<Rightarrow> actionResult (toolFailure ''document result could not be prepared'') ActionUnknown claimed
                  | Inr text \<Rightarrow> actionResult (toolSuccess text) ActionSucceeded claimed))))"

definition read_document :: "Service \<Rightarrow> Client \<Rightarrow> Route \<Rightarrow> ToolCall \<Rightarrow> string \<Rightarrow> bool \<Rightarrow> action_answer op" where
  "read_document s client route call behalf claimed = (case decode_read s (TCall_Arguments call) of
       None \<Rightarrow> actionResult (toolFailure ''document parameters are invalid'') ActionRejected claimed
     | Some documentURL \<Rightarrow> (case documentIDFromReference s documentURL of
           None \<Rightarrow> actionResult (toolFailure ''document URL is not a valid Feishu docx reference'') ActionRejected claimed
         | Some documentID \<Rightarrow> external route call claimed (FeishuCall behalf ''ReadDocument'' documentID [] [])
             (ReadDocument client documentID) ''document could not be read with the current Feishu App authorization''
             (\<lambda>content. actionResult (toolSuccess content) ActionSucceeded claimed)))"

text \<open>The part of \<open>execute\<close> after the claim: \<open>cancelled\<close> is \<open>ctx.Err() != nil\<close> at that point.\<close>

definition run_tool :: "Service \<Rightarrow> Client \<Rightarrow> bool \<Rightarrow> Route \<Rightarrow> ToolCall \<Rightarrow> string \<Rightarrow> bool \<Rightarrow> action_answer op" where
  "run_tool s client cancelled route call behalf claimed =
     (if cancelled then actionResult (toolFailure ''action was cancelled before it was sent'') ActionCancelledBeforeSend claimed
      else if TCall_Tool call = FeishuToolMessageSendCurrentChannel then send_message s client route call behalf claimed
      else if TCall_Tool call = FeishuToolFileUploadAndSendCurrentChannel then send_file s client route call behalf claimed
      else if TCall_Tool call = FeishuToolDocCreateAndAnnounce then create_document s client route call behalf claimed
      else if TCall_Tool call = FeishuToolDocRead then read_document s client route call behalf claimed
      else actionResult (toolFailure ''tool is unavailable'') ActionRejected claimed)"

definition replay_answer :: "Service \<Rightarrow> ResultProtector \<Rightarrow> Route \<Rightarrow> ToolCall \<Rightarrow> CompletedAction \<Rightarrow> action_answer op" where
  "replay_answer s p route call replay =
     (if CA_Tool replay \<noteq> TCall_Tool call \<or> CA_ArgumentsDigest replay \<noteq> sha256_hex s (TCall_Arguments call)
        then actionResult (toolFailure ''action call conflicts with prior arguments'') [] False
      else case Result_Open (use_aead s) p (Route_AppID route) (TCall_ThreadID call) (TCall_TurnID call) (TCall_CallID call) (TCall_Tool call)
          (CA_ResultEnc replay) (CA_ResultKeyVersion replay) of
        Inl err \<Rightarrow> actionResult (toolFailure ''action replay could not be decrypted'') [] False
      | Inr plaintext \<Rightarrow> actionResult (if CA_State replay = ActionSucceeded then toolSuccess plaintext else toolFailure plaintext) [] False)"

definition claim_and_run :: "Service \<Rightarrow> bool \<Rightarrow> string \<Rightarrow> Route \<Rightarrow> ToolCall \<Rightarrow> action_answer op" where
  "claim_and_run s cancelled newID route call = (case Clients s (Route_AppID route) of
       None \<Rightarrow> actionResult (toolFailure ''current channel is unavailable'') [] False
     | Some client \<Rightarrow>
         if Reply_ID (Route_Reply route) = [] \<or> Reply_Type (Route_Reply route) = []
           then actionResult (toolFailure ''current channel is unavailable'') [] False
         else if has_Ledger s then attempt (ClaimAction \<lparr>Act_ID = newID, Act_AppID = Route_AppID route, Act_ChannelKey = Route_ChannelKey route,
             Act_ChatGroupID = Route_ChatGroupID route, Act_ThreadID = TCall_ThreadID call, Act_TurnID = TCall_TurnID call,
             Act_CallID = TCall_CallID call, Act_Tool = TCall_Tool call, Act_ArgumentsDigest = sha256_hex s (TCall_Arguments call)\<rparr>)
           (\<lambda>claim. case claim of
               Inl err \<Rightarrow> actionResult (toolFailure ''action could not be recorded'') [] False
             | Inr ActionConflict \<Rightarrow> actionResult (toolFailure ''action call is in progress or was already handled'') [] False
             | Inr ActionClaimed \<Rightarrow> run_tool s client cancelled route call newID True)
         else run_tool s client cancelled route call newID False)"

definition service_execute :: "Service \<Rightarrow> bool \<Rightarrow> string \<Rightarrow> Route \<Rightarrow> ToolCall \<Rightarrow> action_answer op" where
  "service_execute s cancelled newID route call = (case Protector s of
       Some p \<Rightarrow> if has_ReplayLedger s
         then attempt (GetCompletedAction (Route_AppID route) (TCall_ThreadID call) (TCall_TurnID call) (TCall_CallID call))
           (\<lambda>answer. case answer of
               Inl err \<Rightarrow> actionResult (toolFailure ''action replay could not be read'') [] False
             | Inr (replay, found) \<Rightarrow> if found then replay_answer s p route call replay else claim_and_run s cancelled newID route call)
         else claim_and_run s cancelled newID route call
     | None \<Rightarrow> claim_and_run s cancelled newID route call)"

text \<open>\<open>Execute\<close>; \<open>rand\<close> is the nonce drawn when the result is sealed.\<close>

definition Service_Execute :: "Service \<Rightarrow> bool \<Rightarrow> string \<Rightarrow> nonce_source \<Rightarrow> Route \<Rightarrow> ToolCall \<Rightarrow> ToolResult op" where
  "Service_Execute s cancelled newID rand route call0 =
     (let call = call0\<lparr>TCall_Tool := canonicalToolName (TCall_Tool call0)\<rparr> in
      and_then (service_execute s cancelled newID route call) id (\<lambda>(result, terminalState, finalize).
        case (Protector s, Tool_ContentItems result) of
          (Some p, item # _) \<Rightarrow>
            if \<not> finalize \<or> \<not> has_ResultLedger s then ret result
            else (case Result_Seal (use_aead s) rand p (Route_AppID route) (TCall_ThreadID call) (TCall_TurnID call) (TCall_CallID call) (TCall_Tool call)
                (Item_Text item) of
              Inl err \<Rightarrow> ret (toolFailure ''action result could not be secured'')
            | Inr (ciphertext, version) \<Rightarrow>
                attempt (CompleteAction \<lparr>Res_AppID = Route_AppID route, Res_ThreadID = TCall_ThreadID call, Res_TurnID = TCall_TurnID call,
                    Res_CallID = TCall_CallID call, Res_ObjectDigest = [], Res_ResultEnc = ciphertext, Res_ResultKeyVersion = version,
                    Res_State = terminalState\<rparr>)
                  (\<lambda>completed. case completed of Inl err \<Rightarrow> ret (toolFailure ''action result could not be recorded'') | Inr _ \<Rightarrow> ret result))
        | _ \<Rightarrow> ret result))"

section \<open>Calls of the client\<close>

text \<open>Steps of the ledger that make no call.\<close>

abbreviation silently :: "world \<Rightarrow> world \<Rightarrow> bool" where
  "silently w w' \<equiv> att_step\<^sup>*\<^sup>* w w' \<and> feishu_log w' = feishu_log w"

interpretation silent: world_relation silently
proof
  fix w w1 w2 w3 :: world and fs
  show "silently w w" by simp
  show "silently w1 w3" if "silently w1 w2" "silently w2 w3" using that by auto
  show "silently w (w\<lparr>faults := fs\<rparr>)" using att_step.elsewhere [of "w\<lparr>faults := fs\<rparr>" w] by auto
qed

interpretation logs: world_relation "\<lambda>w w'. feishu_log w' = feishu_log w"
  by unfold_locales auto

lemma logs_ledger:
  "preserves (\<lambda>w w'. feishu_log w' = feishu_log w) (ClaimAction a)" "preserves (\<lambda>w w'. feishu_log w' = feishu_log w) (StartAction b t u c)"
  "preserves (\<lambda>w w'. feishu_log w' = feishu_log w) (CompleteAction r)"
  unfolding ClaimAction_def StartAction_def CompleteAction_def Let_def
  by (intro logs.preserves_intros logs.preserves_exec; rule preservesI; simp add: insert_action_def update_actions_def)+

lemma silent_ledger:
  "preserves silently (ClaimAction a)" "preserves silently (StartAction b t u c)" "preserves silently (CompleteAction r)"
  "preserves silently (GetCompletedAction b t u c)"
proof -
  show "preserves silently (GetCompletedAction b t u c)" unfolding GetCompletedAction_def by (intro silent.preserves_intros)
qed (auto simp: preserves_def logs_ledger [THEN preservesD] intro: att_step.intros)

lemma silent_actionResult: "preserves silently (actionResult r st f)"
  unfolding actionResult_def by (rule silent.preserves_ret)

text \<open>
  No call was made, or exactly one, and then the start of the call's claim had succeeded before it.
\<close>

definition one_call :: "string \<Rightarrow> string \<Rightarrow> string \<Rightarrow> string \<Rightarrow> world \<Rightarrow> world \<Rightarrow> bool" where
  "one_call app thread turn callID w w' \<longleftrightarrow> silently w w'
     \<or> (\<exists>v v' request. silently w v \<and> StartAction app thread turn callID v = (Inr True, v') \<and> att_step\<^sup>*\<^sup>* v' w' \<and> feishu_log w' = feishu_log w @ [request])"

lemma one_call_quiet: "preserves silently m \<Longrightarrow> one_call a t u c w (snd (m w))"
  by (simp add: one_call_def preserves_def)

lemma one_call_before:
  assumes "silently w w1" and "one_call a t u c w1 w2"
  shows "one_call a t u c w w2"
  using assms(2) unfolding one_call_def
proof (elim disjE exE conjE)
  assume "att_step\<^sup>*\<^sup>* w1 w2" "feishu_log w2 = feishu_log w1"
  then show "silently w w2 \<or> (\<exists>v v' request. silently w v \<and> StartAction a t u c v = (Inr True, v') \<and> att_step\<^sup>*\<^sup>* v' w2 \<and> feishu_log w2 = feishu_log w @ [request])"
    using assms(1) silent.rel_trans [of w w1 w2] by blast
next
  fix v v' request assume v: "att_step\<^sup>*\<^sup>* w1 v" "feishu_log v = feishu_log w1" "StartAction a t u c v = (Inr True, v')"
    "att_step\<^sup>*\<^sup>* v' w2" "feishu_log w2 = feishu_log w1 @ [request]"
  then have "silently w v" "feishu_log w2 = feishu_log w @ [request]" using assms(1) silent.rel_trans [of w w1 v] by simp_all
  then show "silently w w2 \<or> (\<exists>v v' request. silently w v \<and> StartAction a t u c v = (Inr True, v') \<and> att_step\<^sup>*\<^sup>* v' w2 \<and> feishu_log w2 = feishu_log w @ [request])"
    using v(3,4) by blast
qed

lemma one_call_after:
  assumes "one_call a t u c w w1" and "silently w1 w2"
  shows "one_call a t u c w w2"
  using assms(1) unfolding one_call_def
proof (elim disjE exE conjE)
  assume "att_step\<^sup>*\<^sup>* w w1" "feishu_log w1 = feishu_log w"
  then show "silently w w2 \<or> (\<exists>v v' request. silently w v \<and> StartAction a t u c v = (Inr True, v') \<and> att_step\<^sup>*\<^sup>* v' w2 \<and> feishu_log w2 = feishu_log w @ [request])"
    using assms(2) silent.rel_trans [of w w1 w2] by blast
next
  fix v v' request assume v: "att_step\<^sup>*\<^sup>* w v" "feishu_log v = feishu_log w" "StartAction a t u c v = (Inr True, v')"
    "att_step\<^sup>*\<^sup>* v' w1" "feishu_log w1 = feishu_log w @ [request]"
  then have "att_step\<^sup>*\<^sup>* v' w2" "feishu_log w2 = feishu_log w @ [request]" using assms(2) rtranclp_trans [of att_step v' w1 w2] by simp_all
  then show "silently w w2 \<or> (\<exists>v v' request. silently w v \<and> StartAction a t u c v = (Inr True, v') \<and> att_step\<^sup>*\<^sup>* v' w2 \<and> feishu_log w2 = feishu_log w @ [request])"
    using v(1-3) by blast
qed

lemma one_call_external:
  assumes "\<And>x. preserves silently (k x)"
  shows "one_call (Route_AppID route) (TCall_ThreadID call) (TCall_TurnID call) (TCall_CallID call) w
    (snd (external route call True request answer failure k w))"
proof -
  let ?start = "StartAction (Route_AppID route) (TCall_ThreadID call) (TCall_TurnID call) (TCall_CallID call)"
  obtain r v' where st: "?start w = (r, v')" by fastforce
  show ?thesis
  proof (cases "r = Inr True")
    case True
    let ?l = "v'\<lparr>feishu_log := feishu_log v' @ [request]\<rparr>"
    have log: "feishu_log v' = feishu_log w" using preservesD [OF logs_ledger(2), where w = w] st by (metis snd_conv)
    have "silently ?l (snd (external route call True request answer failure k w))"
      using True st assms [THEN preservesD] silent_actionResult [THEN preservesD]
      by (cases answer) (simp_all add: external_def startExternal_def and_then_def attempt_def ret_def call_feishu_def)
    moreover have "att_step\<^sup>*\<^sup>* v' ?l" by (rule r_into_rtranclp) (rule att_step.elsewhere, simp_all)
    ultimately have "att_step\<^sup>*\<^sup>* v' (snd (external route call True request answer failure k w))"
      "feishu_log (snd (external route call True request answer failure k w)) = feishu_log w @ [request]"
      using log by (simp_all, meson rtranclp_trans)
    then show ?thesis unfolding one_call_def using st True by blast
  next
    case False
    have "silently w v'" using preservesD [OF silent_ledger(2), where w = w] st by (metis snd_conv)
    then show ?thesis using False st
      by (simp add: external_def startExternal_def and_then_def attempt_def ret_def actionResult_def one_call_def)
  qed
qed

abbreviation call_bound :: "Route \<Rightarrow> ToolCall \<Rightarrow> world \<Rightarrow> world \<Rightarrow> bool" where
  "call_bound route call \<equiv> one_call (Route_AppID route) (TCall_ThreadID call) (TCall_TurnID call) (TCall_CallID call)"

lemma one_call_result: "call_bound route call w (snd (actionResult r st f w))"
  by (rule one_call_quiet) (rule silent_actionResult)

lemma one_call_tools:
  "call_bound route call w (snd (send_message s client route call behalf True w))"
  "call_bound route call w (snd (send_file s client route call behalf True w))"
  "call_bound route call w (snd (create_document s client route call behalf True w))"
  "call_bound route call w (snd (read_document s client route call behalf True w))"
proof -
  note split_ifs = one_call_result one_call_external silent_actionResult
  show "call_bound route call w (snd (send_message s client route call behalf True w))"
    unfolding send_message_def by (auto intro!: split_ifs split: option.split)
  show "call_bound route call w (snd (send_file s client route call behalf True w))"
    unfolding send_file_def by (auto intro!: split_ifs split: option.split sum.split prod.split)
  show "call_bound route call w (snd (create_document s client route call behalf True w))"
    unfolding create_document_def by (auto intro!: split_ifs split: option.split sum.split)
  show "call_bound route call w (snd (read_document s client route call behalf True w))"
    unfolding read_document_def by (auto intro!: split_ifs split: option.split)
qed

lemma one_call_run: "call_bound route call w (snd (run_tool s client cancelled route call behalf True w))"
  unfolding run_tool_def by (simp add: one_call_tools one_call_result)

lemma one_call_claim:
  assumes "has_Ledger s"
  shows "call_bound route call w (snd (claim_and_run s cancelled newID route call w))"
proof -
  have claim: "call_bound route call w (snd (attempt (ClaimAction a) (\<lambda>claim. case claim of
               Inl err \<Rightarrow> actionResult (toolFailure x) [] False
             | Inr ActionConflict \<Rightarrow> actionResult (toolFailure y) [] False
             | Inr ActionClaimed \<Rightarrow> run_tool s client cancelled route call newID True) w))" for a x y client
  proof -
    obtain r w1 where r: "ClaimAction a w = (r, w1)" by fastforce
    have "silently w w1" using preservesD [OF silent_ledger(1), where w = w] r by (metis snd_conv)
    moreover have "call_bound route call w1 (snd ((case r of Inl err \<Rightarrow> actionResult (toolFailure x) [] False
             | Inr ActionConflict \<Rightarrow> actionResult (toolFailure y) [] False
             | Inr ActionClaimed \<Rightarrow> run_tool s client cancelled route call newID True) w1))"
      by (auto intro: one_call_result one_call_run split: sum.split ActionClaim.split)
    ultimately show ?thesis using r by (simp add: attempt_def one_call_before)
  qed
  show ?thesis unfolding claim_and_run_def using assms claim by (auto intro: one_call_result split: option.split)
qed

lemma one_call_service:
  assumes "has_Ledger s"
  shows "call_bound route call w (snd (service_execute s cancelled newID route call w))"
proof -
  let ?get = "GetCompletedAction (Route_AppID route) (TCall_ThreadID call) (TCall_TurnID call) (TCall_CallID call)"
  obtain r w1 where r: "?get w = (r, w1)" by fastforce
  have "silently w w1" using preservesD [OF silent_ledger(4), where w = w] r by (metis snd_conv)
  moreover have "call_bound route call w1 (snd (replay_answer s p route call replay w1))" for p replay
    unfolding replay_answer_def by (auto intro: one_call_result split: sum.split)
  ultimately have "call_bound route call w (snd (attempt ?get (\<lambda>answer. case answer of
               Inl err \<Rightarrow> actionResult (toolFailure x) [] False
             | Inr (replay, found) \<Rightarrow> if found then replay_answer s p route call replay else claim_and_run s cancelled newID route call) w))" for p x
    using r one_call_before one_call_result one_call_claim [OF assms] by (auto simp: attempt_def split: sum.split prod.split)
  then show ?thesis unfolding service_execute_def using one_call_claim [OF assms] by (auto split: option.split)
qed

lemma one_call_Execute:
  assumes "has_Ledger s"
  shows "call_bound route call w (snd (Service_Execute s cancelled newID rand route call w))"
proof -
  let ?call = "call\<lparr>TCall_Tool := canonicalToolName (TCall_Tool call)\<rparr>"
  obtain r w1 where r: "service_execute s cancelled newID route ?call w = (r, w1)" by fastforce
  have one: "call_bound route call w w1" using one_call_service [OF assms, of route ?call w cancelled newID] r by simp
  have "silently w1 (snd (Service_Execute s cancelled newID rand route call w))"
  proof (cases r)
    case (Inl e)
    then show ?thesis using r by (simp add: Service_Execute_def Let_def and_then_def)
  next
    case (Inr x)
    obtain result st fin where x: "x = (result, st, fin)" by (cases x)
    have "preserves silently (case (Protector s, Tool_ContentItems result) of
          (Some p, item # _) \<Rightarrow>
            if \<not> fin \<or> \<not> has_ResultLedger s then ret result
            else (case Result_Seal (use_aead s) rand p (Route_AppID route) (TCall_ThreadID ?call) (TCall_TurnID ?call) (TCall_CallID ?call) (TCall_Tool ?call)
                (Item_Text item) of
              Inl err \<Rightarrow> ret (toolFailure ''action result could not be secured'')
            | Inr (ciphertext, version) \<Rightarrow>
                attempt (CompleteAction \<lparr>Res_AppID = Route_AppID route, Res_ThreadID = TCall_ThreadID ?call, Res_TurnID = TCall_TurnID ?call,
                    Res_CallID = TCall_CallID ?call, Res_ObjectDigest = [], Res_ResultEnc = ciphertext, Res_ResultKeyVersion = version,
                    Res_State = st\<rparr>)
                  (\<lambda>completed. case completed of Inl err \<Rightarrow> ret (toolFailure ''action result could not be recorded'') | Inr _ \<Rightarrow> ret result))
        | _ \<Rightarrow> ret result)"
      by (auto intro!: silent.preserves_intros silent_ledger split: option.split list.split sum.split prod.split)
    then show ?thesis using r Inr x by (auto simp: Service_Execute_def Let_def and_then_def preserves_def)
  qed
  with one show ?thesis by (rule one_call_after)
qed

section \<open>The recorded answer\<close>

text \<open>A finalised answer is a success recorded as succeeded or a failure recorded as another terminal state.\<close>

definition answer_ok :: "action_answer \<Rightarrow> bool" where
  "answer_ok x \<longleftrightarrow> (case x of (result, state, fin) \<Rightarrow> fin \<longrightarrow>
     (\<exists>t. result = toolSuccess t \<and> state = ActionSucceeded) \<or>
     (\<exists>t. result = toolFailure t \<and> (state = ActionRejected \<or> state = ActionUnknown \<or> state = ActionCancelledBeforeSend)))"

lemma answer_results:
  "actionResult (toolSuccess t) ActionSucceeded c w = (Inr x, w') \<Longrightarrow> answer_ok x"
  "actionResult (toolFailure t) ActionRejected c w = (Inr x, w') \<Longrightarrow> answer_ok x"
  "actionResult (toolFailure t) ActionUnknown c w = (Inr x, w') \<Longrightarrow> answer_ok x"
  "actionResult (toolFailure t) ActionCancelledBeforeSend c w = (Inr x, w') \<Longrightarrow> answer_ok x"
  by (auto simp: actionResult_def answer_ok_def)

lemma answer_external:
  assumes "external route call claimed request answer failure k w = (Inr x, w')" and "\<And>y w x w'. k y w = (Inr x, w') \<Longrightarrow> answer_ok x"
  shows "answer_ok x"
  using assms(1) by (auto simp: external_def and_then_Inr_iff actionExternalFailureState_def Let_def dest: answer_results assms(2) split: if_splits sum.splits)

lemma answer_tool:
  assumes "run_tool s client cancelled route call behalf claimed w = (Inr x, w')"
  shows "answer_ok x"
  using assms unfolding run_tool_def send_message_def send_file_def create_document_def read_document_def
  by (auto dest!: answer_results elim!: answer_external split: if_splits option.splits sum.splits prod.splits)

text \<open>Claims and starts leave a call without a result open.\<close>

definition still_open :: "string \<Rightarrow> string \<Rightarrow> string \<Rightarrow> string \<Rightarrow> world \<Rightarrow> bool" where
  "still_open a t u c w \<longleftrightarrow> (\<forall>x \<in> set (feishu_action_calls w). same_action a t u c x \<longrightarrow> open_action x)"

interpretation opens: world_invariant "still_open a t u c" for a t u c
  by unfold_locales (simp add: still_open_def)

abbreviation open_rel :: "string \<Rightarrow> string \<Rightarrow> string \<Rightarrow> string \<Rightarrow> world \<Rightarrow> world \<Rightarrow> bool" where
  "open_rel a t u c \<equiv> (\<lambda>w w'. still_open a t u c w \<longrightarrow> still_open a t u c w')"

lemma open_ledger:
  "preserves (open_rel a t u c) (ClaimAction call)" "preserves (open_rel a t u c) (StartAction a' t' u' c')"
  "preserves (open_rel a t u c) (GetCompletedAction a' t' u' c')" "preserves (open_rel a t u c) (call_feishu request)"
  "preserves (open_rel a t u c) (actionResult r st f)"
proof -
  show "preserves (open_rel a t u c) (ClaimAction call)" unfolding ClaimAction_def
    by (intro opens.inv_rel.preserves_intros opens.inv_rel.preserves_exec; rule preservesI;
        auto simp: insert_action_def still_open_def claimed_action_def open_action_def)
  show "preserves (open_rel a t u c) (StartAction a' t' u' c')" unfolding StartAction_def
    by (intro opens.inv_rel.preserves_intros opens.inv_rel.preserves_exec; rule preservesI;
        auto simp: update_actions_def still_open_def set_sql_update open_action_def same_action_def)
  show "preserves (open_rel a t u c) (GetCompletedAction a' t' u' c')" unfolding GetCompletedAction_def by (intro opens.inv_rel.preserves_intros)
  show "preserves (open_rel a t u c) (call_feishu request)" by (rule preservesI) (simp add: call_feishu_def still_open_def)
  show "preserves (open_rel a t u c) (actionResult r st f)" unfolding actionResult_def by (rule opens.inv_rel.preserves_ret)
qed

lemma open_external:
  assumes "\<And>x. preserves (open_rel a t u c) (k x)"
  shows "preserves (open_rel a t u c) (external route call claimed request answer failure k)"
  unfolding external_def startExternal_def by (intro opens.inv_rel.preserves_intros open_ledger assms)

lemma open_service: "preserves (open_rel a t u c) (service_execute s cancelled newID route call)"
proof -
  have claim: "preserves (open_rel a t u c) (case x of ActionClaimed \<Rightarrow> m | ActionConflict \<Rightarrow> n)"
    if "preserves (open_rel a t u c) m" "preserves (open_rel a t u c) n" for x and m n :: "action_answer op"
    using that by (cases x) simp_all
  show ?thesis
    unfolding service_execute_def claim_and_run_def replay_answer_def run_tool_def send_message_def send_file_def create_document_def read_document_def
    by (intro opens.inv_rel.preserves_intros open_ledger open_external claim)
qed

lemma flag_external:
  assumes "external route call claimed request answer failure k w = (Inr x, w')" and "\<And>y w x w'. k y w = (Inr x, w') \<Longrightarrow> snd (snd x) = claimed"
  shows "snd (snd x) = claimed"
  using assms(1) by (auto simp: external_def and_then_Inr_iff actionResult_def dest: assms(2) split: if_splits sum.splits)

lemma flag_tool: "run_tool s client cancelled route call behalf claimed w = (Inr x, w') \<Longrightarrow> snd (snd x) = claimed"
  unfolding run_tool_def send_message_def send_file_def create_document_def read_document_def
  by (auto simp: actionResult_def elim!: flag_external split: if_splits option.splits sum.splits prod.splits)

lemma one_call_steps: "one_call a t u c w w' \<Longrightarrow> att_step\<^sup>*\<^sup>* w w'"
proof (unfold one_call_def, elim disjE exE conjE)
  fix v v' request assume v: "att_step\<^sup>*\<^sup>* w v" "StartAction a t u c v = (Inr True, v')" "att_step\<^sup>*\<^sup>* v' w'"
  have "att_step v v'" using att_step.start_action [of v a t u c] v(2) by simp
  then show "att_step\<^sup>*\<^sup>* w w'" using v(1,3) by (meson converse_rtranclp_into_rtranclp rtranclp_trans)
qed

lemma claim_action_Inr:
  assumes "ClaimAction a w = (Inr ActionClaimed, w')"
  shows "claimed_action a \<in> set (feishu_action_calls w')"
proof -
  obtain r w1 where r: "exec (insert_action (claimed_action a)) w = (r, w1)" by fastforce
  show ?thesis
  proof (cases r)
    case (Inl e)
    then show ?thesis using assms r by (simp add: ClaimAction_def attempt_def ret_def fail_def split: if_splits)
  next
    case (Inr u)
    then show ?thesis using assms r by (auto simp: ClaimAction_def attempt_def exec_Inr_iff insert_action_def ret_def split: if_splits)
  qed
qed

lemma finalised_row:
  assumes "service_execute s cancelled newID route call w = (Inr (result, state, True), w')"
  shows "answer_ok (result, state, True)"
    and "\<exists>y \<in> set (feishu_action_calls w'). same_action (Route_AppID route) (TCall_ThreadID call) (TCall_TurnID call) (TCall_CallID call) y
      \<and> x_tool y = TCall_Tool call \<and> x_arguments_digest y = sha256_hex s (TCall_Arguments call)"
proof -
  let ?a = "\<lparr>Act_ID = newID, Act_AppID = Route_AppID route, Act_ChannelKey = Route_ChannelKey route,
             Act_ChatGroupID = Route_ChatGroupID route, Act_ThreadID = TCall_ThreadID call, Act_TurnID = TCall_TurnID call,
             Act_CallID = TCall_CallID call, Act_Tool = TCall_Tool call, Act_ArgumentsDigest = sha256_hex s (TCall_Arguments call)\<rparr>"
  have replay: "replay_answer s p route call rp w0 \<noteq> (Inr (result, state, True), w')" for p rp w0
    by (simp add: replay_answer_def actionResult_def ret_def split: sum.split)
  have "\<exists>w0. claim_and_run s cancelled newID route call w0 = (Inr (result, state, True), w')"
  proof (cases "Protector s")
    case (Some p)
    show ?thesis
    proof (cases "has_ReplayLedger s")
      case True
      with Some assms obtain answer :: "(CompletedAction \<times> bool) res" and w0 where "(case answer of
               Inl err \<Rightarrow> actionResult (toolFailure ''action replay could not be read'') [] False
             | Inr (rp, found) \<Rightarrow> if found then replay_answer s p route call rp else claim_and_run s cancelled newID route call) w0
          = (Inr (result, state, True), w')" by (auto simp: service_execute_def attempt_Inr_iff)
      then show ?thesis using replay by (auto simp: actionResult_def split: sum.splits prod.splits if_splits)
    qed (use Some assms in \<open>auto simp: service_execute_def\<close>)
  qed (use assms in \<open>auto simp: service_execute_def\<close>)
  moreover have "run_tool s client cancelled route call newID False w0 \<noteq> (Inr (result, state, True), w')" for client w0
    using flag_tool [of s client cancelled route call newID False w0 "(result, state, True)" w'] by auto
  ultimately obtain w0 client where att: "attempt (ClaimAction ?a) (\<lambda>claim. case claim of
               Inl err \<Rightarrow> actionResult (toolFailure ''action could not be recorded'') [] False
             | Inr ActionConflict \<Rightarrow> actionResult (toolFailure ''action call is in progress or was already handled'') [] False
             | Inr ActionClaimed \<Rightarrow> run_tool s client cancelled route call newID True) w0 = (Inr (result, state, True), w')"
    by (auto simp: claim_and_run_def actionResult_def split: option.splits if_splits)
  obtain r w1 where r: "ClaimAction ?a w0 = (r, w1)" by fastforce
  with att have "r = Inr ActionClaimed \<and> run_tool s client cancelled route call newID True w1 = (Inr (result, state, True), w')"
    by (simp add: attempt_def actionResult_def ret_def split: sum.splits ActionClaim.splits)
  with r have claim: "ClaimAction ?a w0 = (Inr ActionClaimed, w1)"
    and run: "run_tool s client cancelled route call newID True w1 = (Inr (result, state, True), w')" by simp_all
  show "answer_ok (result, state, True)" by (rule answer_tool [OF run])
  have "claimed_action ?a \<in> set (feishu_action_calls w1)"
    by (rule claim_action_Inr [OF claim])
  moreover have "att_step\<^sup>*\<^sup>* w1 w'" using one_call_steps [OF one_call_run [of route call w1 s client cancelled newID]] run by simp
  ultimately obtain y where y: "y \<in> set (feishu_action_calls w')" "action_moves (claimed_action ?a) y"
    using acts.evolves_moves att_steps_rel by blast
  have "action_identity y = action_identity (claimed_action ?a)" using y(2) by (auto simp: action_moves_def)
  then show "\<exists>y \<in> set (feishu_action_calls w'). same_action (Route_AppID route) (TCall_ThreadID call) (TCall_TurnID call) (TCall_CallID call) y
      \<and> x_tool y = TCall_Tool call \<and> x_arguments_digest y = sha256_hex s (TCall_Arguments call)"
    using y(1) by (intro bexI [of _ y]) (auto simp: action_identity_def claimed_action_def same_action_def)
qed

lemma complete_action_Inr:
  assumes "CompleteAction res w = (Inr (), w')" and "Res_State res \<noteq> []" and "y \<in> set (feishu_action_calls w)" and "open_action y"
    and "same_action (Res_AppID res) (Res_ThreadID res) (Res_TurnID res) (Res_CallID res) y"
  shows "finished_action res (clock w) y \<in> set (feishu_action_calls w')" "ActionState_terminal (Res_State res)"
proof -
  from assms(1,2) have t: "ActionState_terminal (Res_State res)"
    and w': "feishu_action_calls w' = sql_update (\<lambda>x. same_action (Res_AppID res) (Res_ThreadID res) (Res_TurnID res) (Res_CallID res) x \<and> open_action x)
          (finished_action res (clock w)) (feishu_action_calls w)"
    by (auto simp: CompleteAction_def Let_def op_Inr update_actions_def split: if_splits)
  show "ActionState_terminal (Res_State res)" by (rule t)
  show "finished_action res (clock w) y \<in> set (feishu_action_calls w')"
    using assms(3-5) by (auto simp: w' set_sql_update intro!: image_eqI [of _ _ y])
qed

lemma finished_action_simps [simp]:
  "same_action a t u c (finished_action res now y) = same_action a t u c y" "x_tool (finished_action res now y) = x_tool y"
  "x_arguments_digest (finished_action res now y) = x_arguments_digest y" "x_result (finished_action res now y) = Some (Res_ResultEnc res)"
  "x_result_key_version (finished_action res now y) = Some (Res_ResultKeyVersion res)" "x_state (finished_action res now y) = stored_action (Res_State res)"
  by (simp_all add: finished_action_def same_action_def)

lemma stored_action_open: "ActionState_terminal s \<Longrightarrow> stored_action s \<noteq> ActClaimed \<and> stored_action s \<noteq> ActInFlight"
  by (simp add: stored_action_def)

text \<open>How a result comes to be recorded: the execution sealed the text of its own answer.\<close>

lemma recorded_by:
  assumes "Service_Execute s cancelled newID rand route call w = (Inr r, w1)"
    and "still_open (Route_AppID route) (TCall_ThreadID call) (TCall_TurnID call) (TCall_CallID call) w"
    and "\<not> still_open (Route_AppID route) (TCall_ThreadID call) (TCall_TurnID call) (TCall_CallID call) w1"
    and "r \<noteq> toolFailure ''action result could not be recorded''"
  obtains p plain sealed version state y where "Protector s = Some p" "r = (if state = ActionSucceeded then toolSuccess plain else toolFailure plain)"
    "Result_Seal (use_aead s) rand p (Route_AppID route) (TCall_ThreadID call) (TCall_TurnID call) (TCall_CallID call) (canonicalToolName (TCall_Tool call)) plain = Inr (sealed, version)"
    "y \<in> set (feishu_action_calls w1)" "same_action (Route_AppID route) (TCall_ThreadID call) (TCall_TurnID call) (TCall_CallID call) y" "\<not> open_action y"
    "x_tool y = canonicalToolName (TCall_Tool call)" "x_arguments_digest y = sha256_hex s (TCall_Arguments call)"
    "x_result y = Some sealed" "x_result_key_version y = Some version" "action_text (x_state y) = state"
proof -
  let ?call = "call\<lparr>TCall_Tool := canonicalToolName (TCall_Tool call)\<rparr>"
  let ?open = "still_open (Route_AppID route) (TCall_ThreadID call) (TCall_TurnID call) (TCall_CallID call)"
  from assms(1) obtain result state fin wA where ex: "service_execute s cancelled newID route ?call w = (Inr (result, state, fin), wA)"
    and rest: "(case (Protector s, Tool_ContentItems result) of
          (Some p, item # _) \<Rightarrow>
            if \<not> fin \<or> \<not> has_ResultLedger s then ret result
            else (case Result_Seal (use_aead s) rand p (Route_AppID route) (TCall_ThreadID ?call) (TCall_TurnID ?call) (TCall_CallID ?call) (TCall_Tool ?call)
                (Item_Text item) of
              Inl err \<Rightarrow> ret (toolFailure ''action result could not be secured'')
            | Inr (ciphertext, version) \<Rightarrow>
                attempt (CompleteAction \<lparr>Res_AppID = Route_AppID route, Res_ThreadID = TCall_ThreadID ?call, Res_TurnID = TCall_TurnID ?call,
                    Res_CallID = TCall_CallID ?call, Res_ObjectDigest = [], Res_ResultEnc = ciphertext, Res_ResultKeyVersion = version,
                    Res_State = state\<rparr>)
                  (\<lambda>completed. case completed of Inl err \<Rightarrow> ret (toolFailure ''action result could not be recorded'') | Inr _ \<Rightarrow> ret result))
        | _ \<Rightarrow> ret result) wA = (Inr r, w1)"
    by (auto simp: Service_Execute_def Let_def and_then_Inr_iff)
  have openA: "?open wA" using open_service [THEN preservesD, of "Route_AppID route" "TCall_ThreadID call" "TCall_TurnID call" "TCall_CallID call" w s cancelled newID route ?call] ex assms(2) by simp
  then have "w1 \<noteq> wA" using assms(3) by blast
  then obtain p item items sealed version res where p: "Protector s = Some p" "Tool_ContentItems result = item # items" "fin"
    and seal: "Result_Seal (use_aead s) rand p (Route_AppID route) (TCall_ThreadID call) (TCall_TurnID call) (TCall_CallID call) (TCall_Tool ?call) (Item_Text item) = Inr (sealed, version)"
    and res: "res = \<lparr>Res_AppID = Route_AppID route, Res_ThreadID = TCall_ThreadID call, Res_TurnID = TCall_TurnID call, Res_CallID = TCall_CallID call,
       Res_ObjectDigest = [], Res_ResultEnc = sealed, Res_ResultKeyVersion = version, Res_State = state\<rparr>"
    and comp: "CompleteAction res wA = (Inr (), w1)" and r: "r = result"
    using rest assms(4) by (auto simp: attempt_Inr_iff split: option.splits list.splits sum.splits prod.splits if_splits) (metis (full_types) sumE unit.exhaust)
  note fin = finalised_row [OF ex [unfolded eqTrueI [OF p(3)]]]
  then obtain y where y: "y \<in> set (feishu_action_calls wA)" "same_action (Route_AppID route) (TCall_ThreadID call) (TCall_TurnID call) (TCall_CallID call) y"
    "x_tool y = canonicalToolName (TCall_Tool call)" "x_arguments_digest y = sha256_hex s (TCall_Arguments call)" by auto
  have open_y: "open_action y" using openA y(1,2) by (simp add: still_open_def)
  have state: "state \<noteq> []" "result = (if state = ActionSucceeded then toolSuccess (Item_Text item) else toolFailure (Item_Text item))"
    using fin(1) p(2) by (auto simp: answer_ok_def ActionState_defs toolSuccess_def toolFailure_def)
  note done_row = complete_action_Inr [OF comp _ y(1) open_y, unfolded res, simplified, OF state(1) y(2)]
  show thesis
    by (rule that [OF p(1) _ _ done_row(1)]) (use state(2) r seal y done_row(2) res in \<open>simp_all add: action_text_stored open_action_def stored_action_open\<close>)
qed

section \<open>Properties\<close>

text \<open>
  C17: An action call reaches the platform at most once. One execution calls the Feishu client at most once. If it did, then
  after any sequence of steps of the ledger no further execution of a call with the same app, thread, turn and call id
  calls the client again, whatever its arguments, and whatever connection faults occurred.
\<close>

theorem action_called_once:
  assumes "att_inv w" and "has_Ledger s" and "att_step\<^sup>*\<^sup>* (snd (Service_Execute s c1 id1 rand1 route call w)) w2"
    and "Route_AppID route' = Route_AppID route" and "TCall_ThreadID call' = TCall_ThreadID call"
    and "TCall_TurnID call' = TCall_TurnID call" and "TCall_CallID call' = TCall_CallID call"
  shows "length (feishu_log (snd (Service_Execute s c1 id1 rand1 route call w))) \<le> length (feishu_log w) + 1
    \<and> (feishu_log (snd (Service_Execute s c1 id1 rand1 route call w)) \<noteq> feishu_log w
       \<longrightarrow> feishu_log (snd (Service_Execute s c2 id2 rand2 route' call' w2)) = feishu_log w2)"
proof (intro conjI impI)
  note one = one_call_Execute [OF assms(2), of route call w c1 id1 rand1]
  show "length (feishu_log (snd (Service_Execute s c1 id1 rand1 route call w))) \<le> length (feishu_log w) + 1"
    using one by (auto simp: one_call_def)
  assume "feishu_log (snd (Service_Execute s c1 id1 rand1 route call w)) \<noteq> feishu_log w"
  then obtain v v' where v: "att_step\<^sup>*\<^sup>* w v" "StartAction (Route_AppID route) (TCall_ThreadID call) (TCall_TurnID call) (TCall_CallID call) v = (Inr True, v')"
    "att_step\<^sup>*\<^sup>* v' (snd (Service_Execute s c1 id1 rand1 route call w))" using one by (auto simp: one_call_def)
  have inv: "att_inv v" using att_steps_rel [OF v(1)] assms(1) by blast
  show "feishu_log (snd (Service_Execute s c2 id2 rand2 route' call' w2)) = feishu_log w2"
  proof (rule ccontr)
    assume "feishu_log (snd (Service_Execute s c2 id2 rand2 route' call' w2)) \<noteq> feishu_log w2"
    then obtain u where u: "att_step\<^sup>*\<^sup>* w2 u" "fst (StartAction (Route_AppID route) (TCall_ThreadID call) (TCall_TurnID call) (TCall_CallID call) u) = Inr True"
      using one_call_Execute [OF assms(2), of route' call' w2 c2 id2 rand2] assms(4-7) by (auto simp: one_call_def)
    have "att_step\<^sup>*\<^sup>* v' u" using v(3) assms(3) u(1) by auto
    then show False using started_once [OF inv v(2)] u(2) by blast
  qed
qed

text \<open>A service whose client accepts everything, for concrete inputs.\<close>

definition ex_ring :: ResultProtector where
  "ex_ring = \<lparr>SP_keys = [1 \<mapsto> replicate 32 CHR ''k''], SP_active = 1\<rparr>"

definition ex_service :: Service where
  "ex_service = \<lparr>Clients = (\<lambda>_. Some \<lparr>SendCurrentText = (\<lambda>_ _. Inr ''om''), UploadAndSend = (\<lambda>_ _ _. Inr ([], [])),
       CreateDocumentAndAnnounce = (\<lambda>_ _ _ _. Inl ErrDriver), ReadDocument = (\<lambda>_. Inr [])\<rparr>),
     MaxFileBytes = 0, MaxMarkdownBytes = 0, has_Ledger = True, has_ResultLedger = True, has_ReplayLedger = True, Protector = Some ex_ring,
     use_aead = ex_aead, sha256_hex = (\<lambda>_. ''digest''), decode_message = Some, decode_file = (\<lambda>_. None), decode_document = (\<lambda>_. None),
     decode_read = (\<lambda>_. None), url_Parse = (\<lambda>_. None), marshal_outcome = (\<lambda>_. Inr []), EvalSymlinks = Inr, os_Open = (\<lambda>_. Inl ErrDriver)\<rparr>"

definition ex_route :: Route where
  "ex_route = \<lparr>Route_AppID = ''app'', Route_ChannelKey = ''k'', Route_ChatGroupID = ''g'', Route_Reply = \<lparr>Reply_ID = ''oc'', Reply_Type = ''chat_id''\<rparr>,
     Route_OwnerOpenID = ''ou'', Route_WorkspaceDir = ''/ws''\<rparr>"

definition ex_call :: ToolCall where
  "ex_call = \<lparr>TCall_ThreadID = ''t'', TCall_TurnID = ''u'', TCall_CallID = ''c'', TCall_Tool = ''message_send_current_channel'', TCall_Arguments = ''hi''\<rparr>"

abbreviation ex_nonce :: nonce_source where
  "ex_nonce \<equiv> Inr (replicate 12 CHR ''n'')"

lemmas ex_eval = Service_Execute_def service_execute_def claim_and_run_def run_tool_def send_message_def external_def startExternal_def
  actionResult_def ClaimAction_def StartAction_def CompleteAction_def GetCompletedAction_def op_defs Let_def call_feishu_def
  insert_action_def update_actions_def claimed_action_def same_action_def open_action_def finished_action_def
  ex_service_def ex_route_def ex_call_def canonicalToolName_def FeishuToolMessageSendCurrentChannel_def

lemma ex_first_call:
  "Service_Execute ex_service False ''x1'' ex_nonce ex_route ex_call ex_files
     = (Inr (toolSuccess sent_text), ex_files\<lparr>
          feishu_action_calls := [\<lparr>x_id = ''x1'', x_app_id = ''app'', x_channel_key = ''k'', x_chat_group_id = ''g'', x_thread_id = ''t'', x_turn_id = ''u'',
            x_call_id = ''c'', x_tool = FeishuToolMessageSendCurrentChannel, x_arguments_digest = ''digest'', x_state = ActSucceeded,
            x_result = Some (replicate 12 CHR ''n'' @ sent_text), x_result_key_version = Some 1, x_object_digest = None, x_completed_at = Some 0\<rparr>],
          feishu_log := [FeishuCall ''x1'' ''SendCurrentText'' ''oc'' ''chat_id'' ''hi'']\<rparr>)"
  by (simp add: ex_eval sql_conflict_def ex_files_def ex_store_def empty_world_def ex_app_def new_group_def toolSuccess_def Result_Seal_def ex_ring_def
      key_of_def NewCipher_def ex_aead_def ActionState_terminal_def stored_action_def nullable_def)

theorem action_called_once_witness:
  "feishu_log (snd (Service_Execute ex_service False ''x2'' ex_nonce ex_route ex_call
     (snd (Service_Execute ex_service False ''x1'' ex_nonce ex_route ex_call ex_files))))
   = feishu_log (snd (Service_Execute ex_service False ''x1'' ex_nonce ex_route ex_call ex_files))"
proof -
  have "has_Ledger ex_service" by (simp add: ex_service_def)
  moreover have "feishu_log (snd (Service_Execute ex_service False ''x1'' ex_nonce ex_route ex_call ex_files)) \<noteq> feishu_log ex_files"
    by (simp add: ex_first_call) (simp add: ex_files_def ex_store_def empty_world_def)
  ultimately show ?thesis using action_called_once [OF ex_files_inv _ rtranclp.rtrancl_refl] by blast
qed

text \<open>
  C18: A repeated call gets the recorded answer. If an execution recorded its result, then after any sequence of steps of
  the ledger a repetition of the call with the same arguments (with a keyring that still has those keys, even if it is cancelled meanwhile)
  answers the same result, success or failure, and leaves the world as it is.
\<close>

theorem recorded_action_replayed:
  assumes "aead_correct (use_aead s)" and "nonce_ok rand" and "NewResultProtector entries = Inr p" and "Protector s = Some p"
    and "att_inv w" and "Service_Execute s cancelled newID rand route call w = (Inr r, w1)"
    and "still_open (Route_AppID route) (TCall_ThreadID call) (TCall_TurnID call) (TCall_CallID call) w"
    and "\<not> still_open (Route_AppID route) (TCall_ThreadID call) (TCall_TurnID call) (TCall_CallID call) w1"
    and "r \<noteq> toolFailure ''action result could not be recorded''"
    and "att_step\<^sup>*\<^sup>* w1 w2" and "faults w2 = []" and "has_Ledger s" and "has_ReplayLedger s"
    and "NewResultProtector entries' = Inr p'" and "set entries \<subseteq> set entries'"
  shows "Service_Execute (s\<lparr>Protector := Some p'\<rparr>) cancelled' newID' rand' route call w2 = (Inr r, w2)"
proof -
  let ?tool = "canonicalToolName (TCall_Tool call)"
  obtain q plain sealed version state y where q: "Protector s = Some q" and r: "r = (if state = ActionSucceeded then toolSuccess plain else toolFailure plain)"
    and seal': "Result_Seal (use_aead s) rand q (Route_AppID route) (TCall_ThreadID call) (TCall_TurnID call) (TCall_CallID call) ?tool plain = Inr (sealed, version)"
    and y1: "y \<in> set (feishu_action_calls w1)" "same_action (Route_AppID route) (TCall_ThreadID call) (TCall_TurnID call) (TCall_CallID call) y" "\<not> open_action y"
    and y': "x_tool y = ?tool" "x_arguments_digest y = sha256_hex s (TCall_Arguments call)"
    and y2: "x_result y = Some sealed" "x_result_key_version y = Some version" and st: "action_text (x_state y) = state"
    by (rule recorded_by [OF assms(6-9)])
  note y = y1 y2(2,1)
  have seal: "Result_Seal (use_aead s) rand p (Route_AppID route) (TCall_ThreadID call) (TCall_TurnID call) (TCall_CallID call) ?tool plain = Inr (sealed, version)"
    using seal' q assms(4) by simp
  have "att_step\<^sup>*\<^sup>* w w1" using one_call_steps [OF one_call_Execute [OF assms(12), of route call w cancelled newID rand]] assms(6) by simp
  then have inv: "att_inv w1" using att_steps_rel assms(5) by blast
  have get: "GetCompletedAction (Route_AppID route) (TCall_ThreadID call) (TCall_TurnID call) (TCall_CallID call) w2
      = (Inr (\<lparr>CA_Tool = ?tool, CA_ArgumentsDigest = sha256_hex s (TCall_Arguments call), CA_ResultEnc = sealed, CA_ResultKeyVersion = version, CA_State = state\<rparr>, True), w2)"
    using completed_action_final [OF inv y assms(10), of "\<lparr>Res_AppID = Route_AppID route, Res_ThreadID = TCall_ThreadID call, Res_TurnID = TCall_TurnID call,
       Res_CallID = TCall_CallID call, Res_ObjectDigest = [], Res_ResultEnc = [], Res_ResultKeyVersion = 0, Res_State = []\<rparr>"] assms(11) y' st by simp
  have opened: "Result_Open (use_aead s) p' (Route_AppID route) (TCall_ThreadID call) (TCall_TurnID call) (TCall_CallID call) ?tool sealed version = Inr plain"
    by (rule result_roundtrip [OF assms(1,2,15,3,14) seal])
  show ?thesis using get opened r assms(13)
    by (simp add: Service_Execute_def Let_def service_execute_def attempt_def and_then_def replay_answer_def actionResult_def ret_def
        toolSuccess_def toolFailure_def)
qed

theorem recorded_action_replayed_witness:
  "fst (Service_Execute ex_service True ''x2'' ex_nonce ex_route ex_call (snd (Service_Execute ex_service False ''x1'' ex_nonce ex_route ex_call ex_files)))
   = Inr (toolSuccess sent_text)"
proof -
  let ?w1 = "snd (Service_Execute ex_service False ''x1'' ex_nonce ex_route ex_call ex_files)"
  have run: "Service_Execute ex_service False ''x1'' ex_nonce ex_route ex_call ex_files = (Inr (toolSuccess sent_text), ?w1)" by (simp add: ex_first_call)
  have ring: "NewResultProtector ex_keys = Inr ex_ring" by (simp add: NewResultProtector_def ex_keys_def ex_ring_def)
  have s: "aead_correct (use_aead ex_service)" "Protector ex_service = Some ex_ring" "has_Ledger ex_service" "has_ReplayLedger ex_service"
    "ex_service\<lparr>Protector := Some ex_ring\<rparr> = ex_service" by (simp_all add: ex_service_def ex_aead_correct)
  have n: "nonce_ok ex_nonce" by (simp add: nonce_ok_def)
  have o: "still_open (Route_AppID ex_route) (TCall_ThreadID ex_call) (TCall_TurnID ex_call) (TCall_CallID ex_call) ex_files" by (simp add: still_open_def)
  have c: "\<not> still_open (Route_AppID ex_route) (TCall_ThreadID ex_call) (TCall_TurnID ex_call) (TCall_CallID ex_call) ?w1"
    by (simp add: ex_first_call still_open_def) (simp add: same_action_def open_action_def ex_route_def ex_call_def)
  have f: "faults ?w1 = []" "toolSuccess sent_text \<noteq> toolFailure ''action result could not be recorded''"
    by (simp_all add: ex_first_call toolSuccess_def toolFailure_def)
  show ?thesis
    using recorded_action_replayed [OF s(1) n ring s(2) ex_files_inv run o c f(2) rtranclp.rtrancl_refl f(1) s(3,4) ring subset_refl, of True "''x2''" ex_nonce] s(5) by simp
qed

lemma isDocumentID_bytes: "isDocumentID v \<Longrightarrow> 8 \<le> length v \<and> length v \<le> 128 \<and> (\<forall>c \<in> set v. alnum_rune (byte_val c))"
proof -
  assume v: "isDocumentID v"
  then have "\<forall>r \<in> set (runes v). r < 128" by (auto simp: isDocumentID_def list_all_iff alnum_rune_def)
  then have "runes v = map byte_val v" by (rule runes_ascii)
  then show ?thesis using v by (simp add: isDocumentID_def list_all_iff)
qed

lemma safeDisplayName_bytes:
  assumes "safeDisplayName name \<noteq> []"
  shows "length (safeDisplayName name) \<le> 255 \<and> (\<forall>c \<in> set (safeDisplayName name). 32 \<le> byte_val c \<and> c \<noteq> slash \<and> c \<noteq> CHR 0x5C)"
proof -
  have bytes: "32 \<le> byte_val c \<and> byte_val c \<noteq> 47 \<and> byte_val c \<noteq> 92" if "c \<in> set (filter_runes kept_rune name)" for c
    using filter_runes_bytes [OF that] by (auto simp: kept_rune_def)
  then have "32 \<le> byte_val c \<and> c \<noteq> slash \<and> c \<noteq> CHR 0x5C" if "c \<in> set (filter_runes kept_rune name)" for c
    using that by (fastforce simp: byte_val_def)
  moreover from this have "Base (filter_runes kept_rune name) = (if filter_runes kept_rune name = [] then ''.'' else filter_runes kept_rune name)"
    by (intro Base_atom) blast
  ultimately show ?thesis using assms by (auto simp: safeDisplayName_def Let_def split: if_splits)
qed

text \<open>
  What an action hands to the client is bounded. A document id that is read has 8 to 128 ASCII letters and digits; a file that is sent
  is an ordinary file of at most the limit, under a non-empty name of at most 255 bytes without control characters or
  path separators; a document's text is valid UTF-8 within the limit.
\<close>

lemma action_inputs_bounded:
  "(documentIDFromReference s reference = Some d \<longrightarrow> 8 \<le> length d \<and> length d \<le> 128 \<and> (\<forall>c \<in> set d. alnum_rune (byte_val c)))
    \<and> (OpenOrdinaryFile s path display limit = Inr (file, name, bytes) \<longrightarrow> file_stat file = Inr (True, bytes) \<and> 0 < bytes \<and> bytes \<le> limit
      \<and> name \<noteq> [] \<and> length name \<le> 255 \<and> (\<forall>c \<in> set name. 32 \<le> byte_val c \<and> c \<noteq> slash \<and> c \<noteq> CHR 0x5C))
    \<and> (ReadMarkdownFile s path limit = Inr contents \<longrightarrow> int (length contents) \<le> limit \<and> valid_string contents)"
proof (intro conjI)
  show "documentIDFromReference s reference = Some d \<longrightarrow> 8 \<le> length d \<and> length d \<le> 128 \<and> (\<forall>c \<in> set d. alnum_rune (byte_val c))"
    using isDocumentID_bytes [of d]
    by (auto simp: documentIDFromReference_def Let_def split: if_splits option.splits prod.splits list.splits)
  show "OpenOrdinaryFile s path display limit = Inr (file, name, bytes) \<longrightarrow> file_stat file = Inr (True, bytes) \<and> 0 < bytes \<and> bytes \<le> limit
      \<and> name \<noteq> [] \<and> length name \<le> 255 \<and> (\<forall>c \<in> set name. 32 \<le> byte_val c \<and> c \<noteq> slash \<and> c \<noteq> CHR 0x5C)"
    using safeDisplayName_bytes by (auto simp: OpenOrdinaryFile_def Let_def split: if_splits sum.splits prod.splits)
  show "ReadMarkdownFile s path limit = Inr contents \<longrightarrow> int (length contents) \<le> limit \<and> valid_string contents"
    by (auto simp: ReadMarkdownFile_def Let_def split: if_splits sum.splits prod.splits)
qed

lemma action_inputs_bounded_witness:
  "documentIDFromReference ex_service ''EYD9dU6nRo'' = Some ''EYD9dU6nRo'' \<and> length ''EYD9dU6nRo'' \<le> 128"
proof -
  have "chunks ''EYD9dU6nRo'' = map (\<lambda>c. (byte_val c, [c])) ''EYD9dU6nRo''" by (rule chunks_ascii) (simp add: byte_val_def)
  then have "isDocumentID ''EYD9dU6nRo''" by (simp add: isDocumentID_def runes_def alnum_rune_def byte_val_def)
  moreover have "trim_space ''EYD9dU6nRo'' = ''EYD9dU6nRo''" by (rule trim_space_ascii) (simp_all add: byte_val_def is_space_def)
  ultimately have "documentIDFromReference ex_service ''EYD9dU6nRo'' = Some ''EYD9dU6nRo''" by (simp add: documentIDFromReference_def)
  then show ?thesis using action_inputs_bounded [of ex_service "''EYD9dU6nRo''" "''EYD9dU6nRo''"] by simp
qed

end
