(* ===== verification/Feishu_Document.thy ===== *)
theory Feishu_Document
  imports Feishu_Action "HOL-Library.Multiset"
begin

text \<open>
  Documents at Feishu (\<open>internal/feishu/feishu.go\<close>): how the blocks of a converted document are divided into requests of
  bounded size, and how a document is created, written, handed to its owner and announced. The calls of the SDK are
  parameters.
\<close>

section \<open>Blocks\<close>

text \<open>
  What the code reads of a block of the SDK: its id, the ids of its children, the merge information of its table; the rest is
  opaque.
\<close>

record Block =
  Block_Id :: "string option"
  Block_Children :: "string list"
  Block_MergeInfo :: "string option"
  Block_Content :: string

definition sanitizeConvertedBlocks :: "Block option list \<Rightarrow> Block option list" where
  "sanitizeConvertedBlocks blocks = map (map_option (\<lambda>b. b\<lparr>Block_MergeInfo := None\<rparr>)) blocks"

record documentBlockDescendantBatch =
  ChildrenID :: "string list"
  Descendants :: "Block list"

text \<open>The map from ids to blocks, in the order of insertion; keys are distinct.\<close>

type_synonym block_map = "(string \<times> Block) list"

fun index_blocks :: "block_map \<Rightarrow> Block option list \<Rightarrow> block_map res" where
  "index_blocks byID [] = Inr byID"
| "index_blocks byID (None # blocks) = Inl (Errorf ''converted document contains block without id'')"
| "index_blocks byID (Some b # blocks) = (case Block_Id b of
     None \<Rightarrow> Inl (Errorf ''converted document contains block without id'')
   | Some i \<Rightarrow> if i = [] then Inl (Errorf ''converted document contains block without id'')
       else if map_of byID i \<noteq> None then Inl (Errorf ''converted document contains duplicate block id'')
       else index_blocks (byID @ [(i, b)]) blocks)"

section \<open>The subtree of a block\<close>

text \<open>How many known blocks are not on the path.\<close>

definition unvisited :: "block_map \<Rightarrow> string set \<Rightarrow> nat" where
  "unvisited byID visiting = card (dom (map_of byID) - visiting)"

lemma unvisited_less: "map_of byID i = Some b \<Longrightarrow> i \<notin> visiting \<Longrightarrow> unvisited byID (insert i visiting) < unvisited byID visiting"
  unfolding unvisited_def by (rule psubset_card_mono) (auto simp: finite_dom_map_of)

text \<open>
  The recursive \<open>walk\<close> and its loop over the children. \<open>visiting\<close> holds the ids on the path from the root, \<open>visited\<close>
  those that are done; the second is threaded through. The path only grows along known blocks, so the walk ends even on a
  cyclic hierarchy.
\<close>

function walk :: "block_map \<Rightarrow> string set \<Rightarrow> string set \<Rightarrow> string \<Rightarrow> (string list \<times> string set) res"
  and walk_children :: "block_map \<Rightarrow> string set \<Rightarrow> string set \<Rightarrow> string list \<Rightarrow> (string list \<times> string set) res" where
  "walk byID visiting visited i =
     (if i \<in> visiting then Inl (Errorf ''converted document contains cyclic block hierarchy'')
      else if i \<in> visited then Inl (Errorf ''converted document block has multiple parents'')
      else case map_of byID i of None \<Rightarrow> Inl (Errorf ''converted document references missing child block'')
        | Some block \<Rightarrow> (case walk_children byID (insert i visiting) visited (Block_Children block) of
            Inl err \<Rightarrow> Inl err | Inr (ids, visited') \<Rightarrow> Inr (i # ids, insert i visited')))"
| "walk_children byID visiting visited [] = Inr ([], visited)"
| "walk_children byID visiting visited (c # cs) = (case walk byID visiting visited c of
     Inl err \<Rightarrow> Inl err
   | Inr (ids, visited1) \<Rightarrow> (case walk_children byID visiting visited1 cs of
       Inl err \<Rightarrow> Inl err | Inr (ids', visited2) \<Rightarrow> Inr (ids @ ids', visited2)))"
  by pat_completeness auto

termination
  by (relation "measures [\<lambda>x. case x of Inl (byID, visiting, _, _) \<Rightarrow> unvisited byID visiting | Inr (byID, visiting, _, _) \<Rightarrow> unvisited byID visiting,
        \<lambda>x. case x of Inl _ \<Rightarrow> 0 | Inr (_, _, _, cs) \<Rightarrow> Suc (length cs)]")
     (auto intro: unvisited_less)

declare walk.simps [simp del]

definition convertedDocumentBlockSubtree :: "string \<Rightarrow> block_map \<Rightarrow> string list res" where
  "convertedDocumentBlockSubtree rootID byID = map_sum id fst (walk byID {} {} rootID)"

section \<open>Planning the requests\<close>

record plan =
  pl_assigned :: "string set"
  pl_batch :: documentBlockDescendantBatch
  pl_batches :: "documentBlockDescendantBatch list"

definition empty_batch :: documentBlockDescendantBatch where
  "empty_batch = \<lparr>ChildrenID = [], Descendants = []\<rparr>"

definition flush_batch :: "plan \<Rightarrow> plan" where
  "flush_batch p = (if ChildrenID (pl_batch p) = [] then p else p\<lparr>pl_batches := pl_batches p @ [pl_batch p], pl_batch := empty_batch\<rparr>)"

fun assign_blocks :: "block_map \<Rightarrow> string list \<Rightarrow> plan \<Rightarrow> plan res" where
  "assign_blocks byID [] p = Inr p"
| "assign_blocks byID (i # ids) p = (if i \<in> pl_assigned p then Inl (Errorf ''converted document block belongs to multiple roots'')
     else assign_blocks byID ids (p\<lparr>pl_assigned := insert i (pl_assigned p),
       pl_batch := (pl_batch p)\<lparr>Descendants := Descendants (pl_batch p) @ [the (map_of byID i)]\<rparr>\<rparr>))"

definition plan_root :: "block_map \<Rightarrow> int \<Rightarrow> string \<Rightarrow> plan \<Rightarrow> plan res" where
  "plan_root byID limit rootID p =
     (if rootID = [] then Inl (Errorf ''converted document contains empty root block id'')
      else case convertedDocumentBlockSubtree rootID byID of Inl err \<Rightarrow> Inl err
      | Inr ids \<Rightarrow> if int (length ids) > limit
          then Inl (Errorf (''converted document root block exceeds descendant batch limit: block_count='' @ sprint_int (int (length ids)) @ '' limit='' @ sprint_int limit))
          else let p1 = (if Descendants (pl_batch p) \<noteq> [] \<and> int (length (Descendants (pl_batch p)) + length ids) > limit then flush_batch p else p) in
            assign_blocks byID ids (p1\<lparr>pl_batch := (pl_batch p1)\<lparr>ChildrenID := ChildrenID (pl_batch p1) @ [rootID]\<rparr>\<rparr>))"

fun plan_roots :: "block_map \<Rightarrow> int \<Rightarrow> string list \<Rightarrow> plan \<Rightarrow> plan res" where
  "plan_roots byID limit [] p = Inr p"
| "plan_roots byID limit (rootID # rootIDs) p = (case plan_root byID limit rootID p of Inl err \<Rightarrow> Inl err | Inr p1 \<Rightarrow> plan_roots byID limit rootIDs p1)"

definition planDocumentBlockDescendantBatches :: "string list \<Rightarrow> Block option list \<Rightarrow> int \<Rightarrow> documentBlockDescendantBatch list res" where
  "planDocumentBlockDescendantBatches rootIDs blocks limit =
     (if limit \<le> 0 then Inl (Errorf ''document descendant batch limit is invalid'')
      else case index_blocks [] blocks of Inl err \<Rightarrow> Inl err
      | Inr byID \<Rightarrow> (case plan_roots byID limit rootIDs \<lparr>pl_assigned = {}, pl_batch = empty_batch, pl_batches = []\<rparr> of Inl err \<Rightarrow> Inl err
        | Inr p \<Rightarrow> let p1 = flush_batch p in
            if card (pl_assigned p1) \<noteq> length byID then Inl (Errorf ''converted document contains descendants outside its root blocks'')
            else Inr (pl_batches p1)))"

section \<open>Creating a document\<close>

text \<open>An answer of the SDK: an error of the transport, or a code with the data, if it has any; a nil answer where the code expects one.\<close>

datatype 'a sdk = Transport go_error | Reply int "'a option" | NoReply

fun sdk_data :: "'a sdk \<Rightarrow> 'a option" where
  "sdk_data (Reply code data) = (if code = 0 then data else None)"
| "sdk_data _ = None"

fun sdk_success :: "'a sdk \<Rightarrow> bool" where
  "sdk_success (Reply code data) = (code = 0)"
| "sdk_success _ = False"

text \<open>The requests for a document; \<open>Announce\<close> is the text that \<open>SendText\<close> sends.\<close>

datatype doc_call =
    DocumentCreate string "string option"
  | DocumentConvert string
  | DescendantCreate string documentBlockDescendantBatch
  | TransferOwner string string
  | Announce string string string

text \<open>
  The answers of the SDK; a request to write blocks also sees the requests before it. The request to create is never answered by nil without an
  error. \<open>doc_say\<close> is the error of \<open>SendText\<close>.
\<close>

record DocumentApi =
  doc_folder :: string
  doc_create :: "string \<Rightarrow> string option \<Rightarrow> (int \<times> string option) res"
  doc_convert :: "string \<Rightarrow> (string list \<times> Block option list) sdk"
  doc_write :: "string \<Rightarrow> documentBlockDescendantBatch list \<Rightarrow> documentBlockDescendantBatch \<Rightarrow> unit sdk"
  doc_transfer :: "string \<Rightarrow> string \<Rightarrow> unit sdk"
  doc_say :: "string \<Rightarrow> string \<Rightarrow> string \<Rightarrow> go_error option"

definition maxDocumentDescendantBlocks :: int where
  "maxDocumentDescendantBlocks = 1000"

definition transferDocumentOwner :: "DocumentApi \<Rightarrow> string \<Rightarrow> string \<Rightarrow> (bool \<times> string) \<times> doc_call list" where
  "transferDocumentOwner api documentID ownerOpenID =
     (if documentID = [] \<or> ownerOpenID = [] then ((False, ''not_attempted''), [])
      else (case doc_transfer api documentID ownerOpenID of
          Reply code _ \<Rightarrow> if code = 0 then (True, ''transferred'') else (False, ''rejected'')
        | _ \<Rightarrow> (False, ''unknown''), [TransferOwner documentID ownerOpenID]))"

definition document_url :: "string \<Rightarrow> string" where
  "document_url documentID = ''https://feishu.cn/docx/'' @ documentID"

text \<open>The end of every created document: the owner, then the announcement. \<open>failure\<close> is the text of the error, unless the content was written.\<close>

definition announce_document :: "DocumentApi \<Rightarrow> ReplyTarget \<Rightarrow> string \<Rightarrow> string \<Rightarrow> string option \<Rightarrow> DocumentOutcome res \<times> doc_call list" where
  "announce_document api target ownerOpenID documentID failure = (let url = document_url documentID in
     case transferDocumentOwner api documentID ownerOpenID of ((transferred, transfer_outcome), acts) \<Rightarrow>
       (case (doc_say api (Reply_ID target) (Reply_Type target) url, failure) of
          (Some err, Some prefix_text) \<Rightarrow> Inl (Wrapf prefix_text err)
        | (said, _) \<Rightarrow> Inr \<lparr>Doc_URL = url, Doc_ContentWritten = (failure = None), Doc_AnnouncementOutcome = (if said = None then ''sent'' else ''unknown''),
            Doc_OwnerTransferred = transferred, Doc_OwnerTransferOutcome = transfer_outcome\<rparr>,
        acts @ [Announce (Reply_ID target) (Reply_Type target) url]))"

text \<open>The requests that write the batches, up to the first that is refused.\<close>

fun write_batches :: "DocumentApi \<Rightarrow> string \<Rightarrow> documentBlockDescendantBatch list \<Rightarrow> documentBlockDescendantBatch list \<Rightarrow> bool \<times> doc_call list" where
  "write_batches api documentID before [] = (True, [])"
| "write_batches api documentID before (b # bs) =
     (if sdk_success (doc_write api documentID before b)
      then apsnd ((#) (DescendantCreate documentID b)) (write_batches api documentID (before @ [b]) bs)
      else (False, [DescendantCreate documentID b]))"

definition write_document :: "DocumentApi \<Rightarrow> string \<Rightarrow> string \<Rightarrow> string option \<times> doc_call list" where
  "write_document api documentID markdown = (case sdk_data (doc_convert api markdown) of
     None \<Rightarrow> (Some ''announce document after markdown conversion failure'', [DocumentConvert markdown])
   | Some (roots, blocks) \<Rightarrow> if roots = [] \<or> blocks = [] then (Some ''announce document after markdown conversion failure'', [DocumentConvert markdown])
       else (case planDocumentBlockDescendantBatches roots (sanitizeConvertedBlocks blocks) maxDocumentDescendantBlocks of
           Inl _ \<Rightarrow> (Some ''announce partially written document'', [DocumentConvert markdown])
         | Inr batches \<Rightarrow> (case write_batches api documentID [] batches of
             (written, acts) \<Rightarrow> (if written then None else Some ''announce partially written document'', DocumentConvert markdown # acts))))"

definition folder_of :: "DocumentApi \<Rightarrow> string option" where
  "folder_of api = (if doc_folder api = [] then None else Some (doc_folder api))"

definition Sender_CreateDocumentAndAnnounce :: "DocumentApi \<Rightarrow> ReplyTarget \<Rightarrow> string \<Rightarrow> string \<Rightarrow> string \<Rightarrow> DocumentOutcome res \<times> doc_call list" where
  "Sender_CreateDocumentAndAnnounce api target ownerOpenID title markdown =
     (if Reply_ID target = [] \<or> Reply_Type target = [] \<or> ownerOpenID = [] \<or> markdown = [] then (Inl (Errorf ''document parameters are invalid''), [])
      else let create = DocumentCreate title (folder_of api) in
        case doc_create api title (folder_of api) of Inl err \<Rightarrow> (Inl (Wrapf ''create document'' err), [create])
        | Inr (code, data) \<Rightarrow> (case (if code = 0 then data else None) of
            Some documentID \<Rightarrow> (case write_document api documentID markdown of
              (failure, acts) \<Rightarrow> (case announce_document api target ownerOpenID documentID failure of
                (out, acts') \<Rightarrow> (out, create # acts @ acts')))
          | None \<Rightarrow> (Inl (Errorf (''create document: code='' @ sprint_int code)), [create])))"

section \<open>What a walk returns\<close>

text \<open>A list of ids is closed when it has the children of all its blocks.\<close>

definition closed_ids :: "block_map \<Rightarrow> string list \<Rightarrow> bool" where
  "closed_ids byID ids \<longleftrightarrow> (\<forall>i\<in>set ids. \<exists>b. map_of byID i = Some b \<and> set (Block_Children b) \<subseteq> set ids)"

lemma walk_closed:
  "walk byID visiting visited i = Inr (ids, visited') \<Longrightarrow> closed_ids byID ids \<and> i \<in> set ids \<and> ids \<noteq> []"
  "walk_children byID visiting visited cs = Inr (ids', visited') \<Longrightarrow> closed_ids byID ids' \<and> set cs \<subseteq> set ids'"
proof (induction byID visiting visited i and byID visiting visited cs arbitrary: ids visited' and ids' visited' rule: walk_walk_children.induct)
  case (1 byID visiting visited i)
  then obtain b rest v where b: "map_of byID i = Some b" and r: "walk_children byID (insert i visiting) visited (Block_Children b) = Inr (rest, v)"
    and ids: "ids = i # rest" and g: "i \<notin> visiting" "i \<notin> visited"
    by (auto simp: walk.simps [of byID visiting visited i] split: if_splits option.splits sum.splits prod.splits)
  have "closed_ids byID rest \<and> set (Block_Children b) \<subseteq> set rest" using 1(1) [OF g b r] .
  then show ?case using b ids by (auto simp: closed_ids_def) blast
next
  case (3 byID visiting visited c cs)
  then obtain l1 v1 l2 v2 where "walk byID visiting visited c = Inr (l1, v1)" "walk_children byID visiting v1 cs = Inr (l2, v2)" "ids' = l1 @ l2"
    by (auto split: sum.splits prod.splits)
  then show ?case using 3(1) [of l1 v1] 3(2) [of "(l1, v1)" l1 v1 l2 v2] by (auto simp: closed_ids_def) blast+
qed (simp add: closed_ids_def)

section \<open>What a plan holds\<close>

definition blocks_ok :: "block_map \<Rightarrow> bool" where
  "blocks_ok byID \<longleftrightarrow> distinct (map fst byID) \<and> (\<forall>(i, b)\<in>set byID. Block_Id b = Some i)"

lemma index_blocks_ok:
  "index_blocks byID blocks = Inr byID' \<Longrightarrow> blocks_ok byID \<Longrightarrow> blocks_ok byID' \<and> map Some (map snd byID') = map Some (map snd byID) @ blocks"
proof (induction byID blocks rule: index_blocks.induct)
  case (3 byID b blocks)
  then obtain i where i: "Block_Id b = Some i" "i \<noteq> []" "map_of byID i = None" and rest: "index_blocks (byID @ [(i, b)]) blocks = Inr byID'"
    by (auto split: option.splits if_splits)
  have "blocks_ok (byID @ [(i, b)])" using 3(3) i by (auto simp: blocks_ok_def map_of_eq_None_iff)
  then show ?case using 3(1) [of i] i rest by simp
qed simp_all

definition block_of :: "block_map \<Rightarrow> string \<Rightarrow> Block" where
  "block_of byID i = the (map_of byID i)"

definition ids_of :: "documentBlockDescendantBatch \<Rightarrow> string list" where
  "ids_of b = map (\<lambda>x. the (Block_Id x)) (Descendants b)"

lemma block_of_id: "blocks_ok byID \<Longrightarrow> map_of byID i = Some b \<Longrightarrow> the (Block_Id (block_of byID i)) = i"
  by (auto simp: blocks_ok_def block_of_def dest!: map_of_SomeD)

definition all_ids :: "plan \<Rightarrow> string list" where
  "all_ids p = concat (map ids_of (pl_batches p)) @ ids_of (pl_batch p)"

definition batch_ok :: "block_map \<Rightarrow> int \<Rightarrow> documentBlockDescendantBatch \<Rightarrow> bool" where
  "batch_ok byID limit b \<longleftrightarrow> closed_ids byID (ids_of b) \<and> Descendants b = map (block_of byID) (ids_of b) \<and> int (length (Descendants b)) \<le> limit
     \<and> (ChildrenID b = [] \<longleftrightarrow> Descendants b = [])"

definition plan_ok :: "block_map \<Rightarrow> int \<Rightarrow> string list \<Rightarrow> plan \<Rightarrow> bool" where
  "plan_ok byID limit rootIDs p \<longleftrightarrow> (\<forall>b\<in>set (pl_batches p). batch_ok byID limit b \<and> Descendants b \<noteq> []) \<and> batch_ok byID limit (pl_batch p)
     \<and> distinct (all_ids p) \<and> pl_assigned p = set (all_ids p) \<and> concat (map ChildrenID (pl_batches p)) @ ChildrenID (pl_batch p) = rootIDs"

lemma closed_ids_Nil [simp]: "closed_ids byID []"
  by (simp add: closed_ids_def)

lemma closed_ids_append: "closed_ids byID xs \<Longrightarrow> closed_ids byID ys \<Longrightarrow> closed_ids byID (xs @ ys)"
  by (auto simp: closed_ids_def) blast+

lemma plan_ok_empty: "0 < limit \<Longrightarrow> plan_ok byID limit [] \<lparr>pl_assigned = {}, pl_batch = empty_batch, pl_batches = []\<rparr>"
  by (simp add: plan_ok_def batch_ok_def all_ids_def ids_of_def empty_batch_def)

lemma plan_ok_flush: "0 < limit \<Longrightarrow> plan_ok byID limit rootIDs p \<Longrightarrow> plan_ok byID limit rootIDs (flush_batch p)"
  by (auto simp: plan_ok_def batch_ok_def all_ids_def ids_of_def empty_batch_def flush_batch_def)

lemma assign_blocks_Inr:
  "assign_blocks byID ids p = Inr p' \<Longrightarrow> distinct ids \<and> set ids \<inter> pl_assigned p = {}
     \<and> p' = p\<lparr>pl_assigned := pl_assigned p \<union> set ids, pl_batch := (pl_batch p)\<lparr>Descendants := Descendants (pl_batch p) @ map (block_of byID) ids\<rparr>\<rparr>"
proof (induction ids arbitrary: p)
  case (Cons i ids)
  let ?p = "p\<lparr>pl_assigned := insert i (pl_assigned p), pl_batch := (pl_batch p)\<lparr>Descendants := Descendants (pl_batch p) @ [the (map_of byID i)]\<rparr>\<rparr>"
  have i: "i \<notin> pl_assigned p" and rest: "assign_blocks byID ids ?p = Inr p'" using Cons.prems by (simp_all split: if_splits)
  show ?case using Cons.IH [OF rest] i by (auto simp: block_of_def)
qed simp

lemma flush_batch_empty: "batch_ok byID limit (pl_batch p) \<Longrightarrow> Descendants (pl_batch (flush_batch p)) = []"
  by (auto simp: flush_batch_def batch_ok_def empty_batch_def)

lemma batch_ok_extend:
  assumes "batch_ok byID limit b" and "closed_ids byID ids" and "ids \<noteq> []" and "int (length (Descendants b) + length ids) \<le> limit"
    and "ids_of b' = ids_of b @ ids" and "Descendants b' = Descendants b @ map (block_of byID) ids" and "ChildrenID b' \<noteq> []"
  shows "batch_ok byID limit b'"
proof -
  have "Descendants b' = map (block_of byID) (ids_of b')" using assms(1,5,6) unfolding batch_ok_def by (metis map_append)
  moreover have "closed_ids byID (ids_of b')" using assms(1,2,5) closed_ids_append unfolding batch_ok_def by metis
  moreover have "int (length (Descendants b')) \<le> limit" "Descendants b' \<noteq> []" using assms(3,4,6) by simp_all
  ultimately show ?thesis using assms(7) unfolding batch_ok_def by blast
qed

lemma batch_ok_bound: "batch_ok byID limit b \<Longrightarrow> int (length (Descendants b)) \<le> limit"
  unfolding batch_ok_def by blast

lemma batch_ok_children:
  assumes "batch_ok byID limit d" and "x \<in> set (Descendants d)"
  shows "set (Block_Children x) \<subseteq> (\<lambda>y. the (Block_Id y)) ` set (Descendants d)"
proof -
  have c: "closed_ids byID (ids_of d)" and e: "Descendants d = map (block_of byID) (ids_of d)" using assms(1) by (simp_all only: batch_ok_def)
  obtain i where i: "i \<in> set (ids_of d)" "x = block_of byID i" using assms(2) e by (metis imageE list.set_map)
  obtain b where "map_of byID i = Some b" "set (Block_Children b) \<subseteq> set (ids_of d)" using c i(1) unfolding closed_ids_def by blast
  then have "set (Block_Children x) \<subseteq> set (ids_of d)" using i(2) by (simp add: block_of_def)
  then show ?thesis by (simp add: ids_of_def)
qed

lemma subtree_Inr: "convertedDocumentBlockSubtree rootID byID = Inr ids \<longleftrightarrow> (\<exists>v. walk byID {} {} rootID = Inr (ids, v))"
  unfolding convertedDocumentBlockSubtree_def by (cases "walk byID {} {} rootID") auto

lemma plan_root_ok:
  assumes b: "blocks_ok byID" and l: "0 < limit" and p: "plan_ok byID limit rootIDs p" and r: "plan_root byID limit rootID p = Inr p'"
  shows "plan_ok byID limit (rootIDs @ [rootID]) p'"
proof -
  obtain ids v where w: "walk byID {} {} rootID = Inr (ids, v)" and len: "int (length ids) \<le> limit"
    using r by (auto simp: plan_root_def subtree_Inr split: if_splits sum.splits)
  define p1 where "p1 = (if Descendants (pl_batch p) \<noteq> [] \<and> int (length (Descendants (pl_batch p)) + length ids) > limit then flush_batch p else p)"
  let ?p2 = "p1\<lparr>pl_batch := (pl_batch p1)\<lparr>ChildrenID := ChildrenID (pl_batch p1) @ [rootID]\<rparr>\<rparr>"
  have a: "assign_blocks byID ids ?p2 = Inr p'"
    using r w len by (auto simp: plan_root_def convertedDocumentBlockSubtree_def Let_def p1_def split: if_splits)
  have p1: "plan_ok byID limit rootIDs p1" using plan_ok_flush [OF l p] p by (simp add: p1_def)
  then have q: "batch_ok byID limit (pl_batch p1)" by (simp only: plan_ok_def)
  have fits: "int (length (Descendants (pl_batch p1)) + length ids) \<le> limit"
    using len flush_batch_empty [of byID limit p] p by (auto simp: plan_ok_def p1_def)
  note closed = walk_closed(1) [OF w]
  have inverse: "map (\<lambda>x. the (Block_Id x)) (map (block_of byID) ids) = ids"
    using closed block_of_id [OF b] by (fastforce simp: closed_ids_def intro: map_idI)
  have ids': "ids_of (pl_batch p') = ids_of (pl_batch p1) @ ids" "Descendants (pl_batch p') = Descendants (pl_batch p1) @ map (block_of byID) ids"
    "ChildrenID (pl_batch p') = ChildrenID (pl_batch p1) @ [rootID]"
    and rest: "pl_batches p' = pl_batches p1" "pl_assigned p' = pl_assigned p1 \<union> set ids" "distinct ids" "set ids \<inter> pl_assigned p1 = {}"
    using assign_blocks_Inr [OF a] inverse by (simp_all add: ids_of_def)
  have "batch_ok byID limit (pl_batch p')"
    using closed by (intro batch_ok_extend [OF q _ _ fits ids'(1,2)]) (simp_all add: ids'(3))
  moreover have "all_ids p' = all_ids p1 @ ids" by (simp add: all_ids_def rest(1) ids'(1))
  ultimately show ?thesis using p1 rest ids'(3) unfolding plan_ok_def by auto
qed

lemma plan_roots_ok:
  "plan_roots byID limit rootIDs p = Inr p' \<Longrightarrow> blocks_ok byID \<Longrightarrow> 0 < limit \<Longrightarrow> plan_ok byID limit before p \<Longrightarrow> plan_ok byID limit (before @ rootIDs) p'"
proof (induction rootIDs arbitrary: before p)
  case (Cons rootID rootIDs)
  then obtain p1 where r: "plan_root byID limit rootID p = Inr p1" and rest: "plan_roots byID limit rootIDs p1 = Inr p'" by (auto split: sum.splits)
  show ?case using Cons.IH [OF rest Cons.prems(2,3) plan_root_ok [OF Cons.prems(2,3,4) r]] by simp
qed simp

lemma all_blocks:
  assumes b: "blocks_ok byID" and d: "distinct ids" and sub: "set ids \<subseteq> dom (map_of byID)" and n: "card (set ids) = length byID"
  shows "mset (map (block_of byID) ids) = mset (map snd byID)"
proof -
  have dom: "dom (map_of byID) = set (map fst byID)" by (simp add: dom_map_of_conv_image_fst)
  have "card (set (map fst byID)) = length byID" using b distinct_card [of "map fst byID"] by (simp add: blocks_ok_def)
  then have "set ids = set (map fst byID)" using sub n dom by (intro card_subset_eq) simp_all
  then have "mset ids = mset (map fst byID)" using d b set_eq_iff_mset_eq_distinct [of ids "map fst byID"] by (simp add: blocks_ok_def)
  then have "mset (map (block_of byID) ids) = mset (map (block_of byID) (map fst byID))" by (simp only: mset_map)
  also have "map (block_of byID) (map fst byID) = map snd byID" using b by (auto simp: blocks_ok_def block_of_def)
  finally show ?thesis .
qed

lemma plan_partitions:
  assumes "planDocumentBlockDescendantBatches rootIDs blocks limit = Inr batches"
  shows "mset (map Some (concat (map Descendants batches))) = mset blocks \<and> concat (map ChildrenID batches) = rootIDs
    \<and> (\<forall>b\<in>set batches. Descendants b \<noteq> [] \<and> int (length (Descendants b)) \<le> limit
      \<and> (\<forall>x\<in>set (Descendants b). set (Block_Children x) \<subseteq> (\<lambda>y. the (Block_Id y)) ` set (Descendants b)))"
proof -
  obtain byID p where l: "0 < limit" and x: "index_blocks [] blocks = Inr byID"
    and r: "plan_roots byID limit rootIDs \<lparr>pl_assigned = {}, pl_batch = empty_batch, pl_batches = []\<rparr> = Inr p"
    and n: "card (pl_assigned (flush_batch p)) = length byID" and out: "batches = pl_batches (flush_batch p)"
    using assms by (auto simp: planDocumentBlockDescendantBatches_def Let_def split: if_splits sum.splits)
  have b: "blocks_ok byID" and blocks: "blocks = map Some (map snd byID)" using index_blocks_ok [OF x] by (simp_all add: blocks_ok_def)
  have ok: "plan_ok byID limit rootIDs (flush_batch p)" using plan_ok_flush [OF l plan_roots_ok [OF r b l plan_ok_empty [OF l]]] by simp
  have empty: "Descendants (pl_batch (flush_batch p)) = []" using plan_roots_ok [OF r b l plan_ok_empty [OF l]] flush_batch_empty [of byID limit p] by (simp add: plan_ok_def)
  have good: "batch_ok byID limit b \<and> Descendants b \<noteq> []" if "b \<in> set batches" for b using ok that out by (simp add: plan_ok_def)
  have ids: "all_ids (flush_batch p) = concat (map ids_of batches)" using empty by (simp add: all_ids_def ids_of_def out)
  have "set (all_ids (flush_batch p)) \<subseteq> dom (map_of byID)" using good unfolding ids by (fastforce simp: batch_ok_def closed_ids_def)
  then have "mset (map (block_of byID) (concat (map ids_of batches))) = mset (map snd byID)"
    using ok n ids by (intro all_blocks [OF b]) (simp_all add: plan_ok_def)
  moreover have "concat (map Descendants batches) = map (block_of byID) (concat (map ids_of batches))"
    using good by (simp add: map_concat o_def batch_ok_def cong: map_cong)
  ultimately have 1: "mset (map Some (concat (map Descendants batches))) = mset blocks" unfolding blocks by (simp only: mset_map)
  have 2: "concat (map ChildrenID batches) = rootIDs" using ok empty out by (auto simp: plan_ok_def batch_ok_def)
  show ?thesis using 1 2 good batch_ok_children batch_ok_bound by blast
qed

section \<open>Properties\<close>

text \<open>
  C38: When the plan for a converted document succeeds, its requests together contain every block exactly once and the given roots in their
  order, no request is empty or larger than the limit, and with a block a request contains all its children.
\<close>

theorem document_plan_partitions:
  assumes "planDocumentBlockDescendantBatches rootIDs blocks limit = Inr batches"
  shows "mset (map Some (concat (map Descendants batches))) = mset blocks \<and> concat (map ChildrenID batches) = rootIDs
    \<and> (\<forall>b\<in>set batches. Descendants b \<noteq> [] \<and> int (length (Descendants b)) \<le> limit
      \<and> (\<forall>x\<in>set (Descendants b). set (Block_Children x) \<subseteq> (\<lambda>y. the (Block_Id y)) ` set (Descendants b)))"
  by (rule plan_partitions [OF assms])

fun final_call :: "doc_call \<Rightarrow> bool" where
  "final_call (TransferOwner documentID owner) = True"
| "final_call (Announce receiveID receiveType url) = True"
| "final_call _ = False"

fun written :: "doc_call list \<Rightarrow> documentBlockDescendantBatch list" where
  "written [] = []"
| "written (DescendantCreate documentID b # acts) = b # written acts"
| "written (_ # acts) = written acts"

lemma written_append: "written (acts @ acts') = written acts @ written acts'"
  by (induction acts rule: written.induct) simp_all

lemma write_batches_calls: "write_batches api documentID before bs = (ok, acts) \<Longrightarrow> list_all (\<lambda>x. \<not> final_call x) acts \<and> (ok \<longrightarrow> written acts = bs)"
  by (induction bs arbitrary: before ok acts) (auto simp: apsnd_def map_prod_def split: if_splits prod.splits)

lemma write_document_calls:
  assumes "write_document api documentID markdown = (failure, acts)"
  shows "list_all (\<lambda>x. \<not> final_call x) acts"
    and "failure = None \<Longrightarrow> \<exists>roots blocks. sdk_data (doc_convert api markdown) = Some (roots, blocks)
      \<and> planDocumentBlockDescendantBatches roots (sanitizeConvertedBlocks blocks) maxDocumentDescendantBlocks = Inr (written acts)"
  using assms by (auto simp: write_document_def split: option.splits if_splits sum.splits prod.splits dest: write_batches_calls)

lemma announce_document_calls:
  assumes "announce_document api target ownerOpenID documentID failure = (out, acts)"
  shows "acts = (if documentID = [] \<or> ownerOpenID = [] then [] else [TransferOwner documentID ownerOpenID])
      @ [Announce (Reply_ID target) (Reply_Type target) (document_url documentID)]"
    and "written acts = []" and "out = Inr outcome \<Longrightarrow> Doc_ContentWritten outcome = (failure = None)"
  using assms by (auto simp: announce_document_def transferDocumentOwner_def Let_def split: option.splits if_splits prod.splits)

text \<open>
  C39: Once a document is created, the last request is its one announcement, at the bound target and with its address, and the only request for a new
  owner comes right before it; a document that was not created is never announced. When the outcome says that the content was written,
  the write requests together hold every converted block exactly once, at most 1000 in each.
\<close>

theorem document_announced_once:
  assumes "Sender_CreateDocumentAndAnnounce api target ownerOpenID title markdown = (out, acts)"
  shows "((\<exists>documentID before. doc_create api title (folder_of api) = Inr (0, Some documentID) \<and> list_all (\<lambda>x. \<not> final_call x) before
        \<and> acts = before @ (if documentID = [] then [] else [TransferOwner documentID ownerOpenID])
            @ [Announce (Reply_ID target) (Reply_Type target) (document_url documentID)])
      \<or> list_all (\<lambda>x. \<not> final_call x) acts \<and> (\<exists>err. out = Inl err)
        \<and> (acts = [] \<or> (\<nexists>documentID. doc_create api title (folder_of api) = Inr (0, Some documentID))))
    \<and> (\<forall>outcome. out = Inr outcome \<and> Doc_ContentWritten outcome \<longrightarrow> (\<exists>roots blocks. sdk_data (doc_convert api markdown) = Some (roots, blocks)
        \<and> mset (map Some (concat (map Descendants (written acts)))) = mset (sanitizeConvertedBlocks blocks)
        \<and> (\<forall>b\<in>set (written acts). int (length (Descendants b)) \<le> 1000)))"
proof (cases "\<exists>documentID. acts \<noteq> [] \<and> doc_create api title (folder_of api) = Inr (0, Some documentID)")
  case False
  then show ?thesis using assms
    by (auto simp: Sender_CreateDocumentAndAnnounce_def Let_def split: if_splits sum.splits prod.splits option.splits)
next
  case True
  then obtain documentID where c: "doc_create api title (folder_of api) = Inr (0, Some documentID)" and ne: "acts \<noteq> []" by blast
  obtain failure wacts where w: "write_document api documentID markdown = (failure, wacts)" by fastforce
  obtain out' aacts where a: "announce_document api target ownerOpenID documentID failure = (out', aacts)" by fastforce
  have o: "ownerOpenID \<noteq> []" and r: "out = out'" "acts = DocumentCreate title (folder_of api) # wacts @ aacts"
    using assms ne c w a by (auto simp: Sender_CreateDocumentAndAnnounce_def Let_def split: if_splits)
  note aa = announce_document_calls(1) [OF a]
  have 1: "list_all (\<lambda>x. \<not> final_call x) (DocumentCreate title (folder_of api) # wacts)"
    "acts = (DocumentCreate title (folder_of api) # wacts) @ (if documentID = [] then [] else [TransferOwner documentID ownerOpenID])
       @ [Announce (Reply_ID target) (Reply_Type target) (document_url documentID)]"
    using write_document_calls(1) [OF w] r(2) aa o by simp_all
  have wr: "written acts = written wacts" using r(2) announce_document_calls(2) [OF a] by (simp add: written_append)
  have "\<exists>roots blocks. sdk_data (doc_convert api markdown) = Some (roots, blocks)
      \<and> mset (map Some (concat (map Descendants (written acts)))) = mset (sanitizeConvertedBlocks blocks)
      \<and> (\<forall>b\<in>set (written acts). int (length (Descendants b)) \<le> 1000)" if "out = Inr outcome" "Doc_ContentWritten outcome" for outcome
  proof -
    have "failure = None" using announce_document_calls(3) [OF a] that r(1) by simp
    then obtain roots blocks where "sdk_data (doc_convert api markdown) = Some (roots, blocks)"
      and "planDocumentBlockDescendantBatches roots (sanitizeConvertedBlocks blocks) maxDocumentDescendantBlocks = Inr (written acts)"
      using write_document_calls(2) [OF w] wr by auto
    then show ?thesis using plan_partitions by (fastforce simp: maxDocumentDescendantBlocks_def)
  qed
  then show ?thesis using 1 c by blast
qed

section \<open>An example\<close>

definition ex_block :: "string \<Rightarrow> string list \<Rightarrow> Block" where
  "ex_block i children = \<lparr>Block_Id = Some i, Block_Children = children, Block_MergeInfo = None, Block_Content = []\<rparr>"

definition ex_blocks :: "Block option list" where
  "ex_blocks = [Some (ex_block ''r'' [''c'']), Some (ex_block ''c'' []), Some (ex_block ''s'' [])]"

definition ex_plan :: "documentBlockDescendantBatch list" where
  "ex_plan = [\<lparr>ChildrenID = [''r'', ''s''], Descendants = [ex_block ''r'' [''c''], ex_block ''c'' [], ex_block ''s'' []]\<rparr>]"

definition ex_plan2 :: "documentBlockDescendantBatch list" where
  "ex_plan2 = [\<lparr>ChildrenID = [''r''], Descendants = [ex_block ''r'' [''c''], ex_block ''c'' []]\<rparr>, \<lparr>ChildrenID = [''s''], Descendants = [ex_block ''s'' []]\<rparr>]"

lemmas plan_eval = planDocumentBlockDescendantBatches_def plan_root_def convertedDocumentBlockSubtree_def walk.simps flush_batch_def empty_batch_def Let_def

lemma ex_plan_ok: "planDocumentBlockDescendantBatches [''r'', ''s''] ex_blocks 1000 = Inr ex_plan"
  "planDocumentBlockDescendantBatches [''r'', ''s''] ex_blocks 2 = Inr ex_plan2"
  by (simp_all add: plan_eval ex_blocks_def ex_block_def ex_plan_def ex_plan2_def)

theorem document_plan_partitions_witness:
  "planDocumentBlockDescendantBatches [''r'', ''s''] ex_blocks 2 = Inr ex_plan2 \<and> mset (map Some (concat (map Descendants ex_plan2))) = mset ex_blocks
    \<and> concat (map ChildrenID ex_plan2) = [''r'', ''s''] \<and> int (length (Descendants (hd ex_plan2))) \<le> 2"
  using document_plan_partitions [OF ex_plan_ok(2)] ex_plan_ok(2) by (simp add: ex_plan2_def)

definition ex_documents :: DocumentApi where
  "ex_documents = \<lparr>doc_folder = [], doc_create = (\<lambda>title folder. Inr (0, Some ''d'')), doc_convert = (\<lambda>markdown. Reply 0 (Some ([''r'', ''s''], ex_blocks))),
     doc_write = (\<lambda>i before b. Reply 0 None), doc_transfer = (\<lambda>i owner. Reply 0 None), doc_say = (\<lambda>i t url. None)\<rparr>"

definition ex_target :: ReplyTarget where
  "ex_target = \<lparr>Reply_ID = ''oc'', Reply_Type = ''chat_id''\<rparr>"

definition ex_outcome :: DocumentOutcome where
  "ex_outcome = \<lparr>Doc_URL = document_url ''d'', Doc_ContentWritten = True, Doc_AnnouncementOutcome = ''sent'', Doc_OwnerTransferred = True,
     Doc_OwnerTransferOutcome = ''transferred''\<rparr>"

lemma ex_sanitized: "sanitizeConvertedBlocks ex_blocks = ex_blocks"
  by (simp add: sanitizeConvertedBlocks_def ex_blocks_def ex_block_def)

lemma ex_document_created:
  "Sender_CreateDocumentAndAnnounce ex_documents ex_target ''ou'' ''t'' ''m'' = (Inr ex_outcome, [DocumentCreate ''t'' None, DocumentConvert ''m'', DescendantCreate ''d'' (hd ex_plan),
     TransferOwner ''d'' ''ou'', Announce ''oc'' ''chat_id'' (document_url ''d'')])"
proof -
  have "write_document ex_documents ''d'' ''m'' = (None, [DocumentConvert ''m'', DescendantCreate ''d'' (hd ex_plan)])"
    using ex_plan_ok(1) by (simp add: write_document_def ex_documents_def ex_sanitized maxDocumentDescendantBlocks_def) (simp add: ex_plan_def ex_blocks_def)
  moreover have "announce_document ex_documents ex_target ''ou'' ''d'' None
      = (Inr ex_outcome, [TransferOwner ''d'' ''ou'', Announce ''oc'' ''chat_id'' (document_url ''d'')])"
    by (simp add: announce_document_def transferDocumentOwner_def ex_target_def ex_outcome_def ex_documents_def Let_def)
  moreover have "doc_create ex_documents ''t'' (folder_of ex_documents) = Inr (0, Some ''d'')" "folder_of ex_documents = None"
    "Reply_ID ex_target = ''oc''" "Reply_Type ex_target = ''chat_id''"
    by (simp_all add: ex_documents_def folder_of_def ex_target_def)
  ultimately show ?thesis by (simp add: Sender_CreateDocumentAndAnnounce_def Let_def)
qed

theorem document_announced_once_witness:
  "\<exists>acts. Sender_CreateDocumentAndAnnounce ex_documents ex_target ''ou'' ''t'' ''m'' = (Inr ex_outcome, acts) \<and> last acts = Announce ''oc'' ''chat_id'' (document_url ''d'')
    \<and> mset (map Some (concat (map Descendants (written acts)))) = mset ex_blocks"
proof -
  have "mset (map Some (concat (map Descendants (written [DocumentCreate ''t'' None, DocumentConvert ''m'', DescendantCreate ''d'' (hd ex_plan),
     TransferOwner ''d'' ''ou'', Announce ''oc'' ''chat_id'' (document_url ''d'')])))) = mset (sanitizeConvertedBlocks ex_blocks)"
    using conjunct2 [OF document_announced_once [OF ex_document_created]] by (simp add: ex_outcome_def ex_documents_def)
  then show ?thesis using ex_document_created unfolding ex_sanitized by fastforce
qed

end
