(* ===== verification/Feishu_Adapter.thy ===== *)
theory Feishu_Adapter
  imports Router Feishu_Document Worker_Process
begin

text \<open>
  The adapter to Feishu (\<open>internal/feishu/feishu.go\<close>): received events become messages of the router, and texts, cards, files and
  images are sent. The SDK, the operating system and the encoding of payloads are parameters; logging is left out.
\<close>

section \<open>Received events\<close>

record RawEvent =
  Raw_HeaderAppID :: string
  Raw_EventID :: string
  Raw_MessageID :: string
  Raw_MessageType :: string
  Raw_ChatType :: string
  Raw_ChatID :: string
  Raw_SenderOpenID :: string
  Raw_Content :: string

text \<open>Decoding of the three kinds of content; \<open>None\<close> is an error.\<close>

record content_json =
  json_text :: "string \<Rightarrow> string option"
  json_image :: "string \<Rightarrow> string option"
  json_file :: "string \<Rightarrow> (string \<times> string) option"

definition no_app :: App where
  "no_app = \<lparr>App_ID = [], App_Name = [], App_WorkspaceDir = [], App_WorkspaceMode = [], App_Model = [], App_Effort = []\<rparr>"

definition raw_incoming :: "RawEvent \<Rightarrow> string \<Rightarrow> AttachmentReference list \<Rightarrow> Incoming" where
  "raw_incoming raw content references = \<lparr>In_App = no_app, In_EventID = Raw_EventID raw, In_MessageID = Raw_MessageID raw, In_ChatType = Raw_ChatType raw,
     In_ChatID = Raw_ChatID raw, In_SenderOpenID = Raw_SenderOpenID raw, In_Text = content, In_ReceivedAt = zero_time, In_Attachments = references\<rparr>"

definition ErrIgnoredEvent :: go_error where
  "ErrIgnoredEvent = Sentinel ''ignored feishu event''"

definition Normalize :: "content_json \<Rightarrow> string \<Rightarrow> RawEvent \<Rightarrow> Incoming res" where
  "Normalize json expectedAppID raw =
     (if Raw_HeaderAppID raw \<noteq> expectedAppID \<or> Raw_EventID raw = [] \<or> Raw_MessageID raw = [] \<or> Raw_ChatType raw = ''topic_group''
        \<or> Raw_ChatType raw \<noteq> ''p2p'' \<and> Raw_ChatType raw \<noteq> ''group'' \<or> Raw_ChatID raw = [] then Inl ErrIgnoredEvent
      else if Raw_ChatType raw = ''p2p'' \<and> Raw_SenderOpenID raw = [] then Inl ErrIgnoredEvent
      else if Raw_MessageType raw = ''text'' then (case json_text json (Raw_Content raw) of None \<Rightarrow> Inl ErrIgnoredEvent
          | Some content \<Rightarrow> if content = [] then Inl ErrIgnoredEvent else Inr (raw_incoming raw content []))
      else if Raw_MessageType raw = ''image'' then (case json_image json (Raw_Content raw) of None \<Rightarrow> Inl ErrIgnoredEvent
          | Some key \<Rightarrow> if key = [] then Inl ErrIgnoredEvent
              else Inr (raw_incoming raw [] [\<lparr>Ref_Kind = AttachmentImage, Ref_ResourceKey = key, Ref_OriginalName = [], Ref_DeclaredMIME = []\<rparr>]))
      else if Raw_MessageType raw = ''file'' then (case json_file json (Raw_Content raw) of None \<Rightarrow> Inl ErrIgnoredEvent
          | Some (key, name) \<Rightarrow> if key = [] then Inl ErrIgnoredEvent
              else Inr (raw_incoming raw [] [\<lparr>Ref_Kind = AttachmentFile, Ref_ResourceKey = key, Ref_OriginalName = name, Ref_DeclaredMIME = []\<rparr>]))
      else Inl ErrIgnoredEvent)"

text \<open>\<open>handleMessage\<close> of a receiver, for an event whose parts are all present; \<open>handle\<close> is the router.\<close>

definition handleMessage :: "content_json \<Rightarrow> string \<Rightarrow> string \<Rightarrow> string \<Rightarrow> (Incoming \<Rightarrow> world \<Rightarrow> outcome) \<Rightarrow> RawEvent \<Rightarrow> world \<Rightarrow> go_error option \<times> world" where
  "handleMessage json feishuAppID appID appName handle raw w = (case Normalize json feishuAppID raw of
     Inl _ \<Rightarrow> (None, w)
   | Inr incoming \<Rightarrow> (case handle (incoming\<lparr>In_App := no_app\<lparr>App_ID := appID, App_Name := appName\<rparr>\<rparr>) w of
       ((Some err, _), w1) \<Rightarrow> (if errors_is err ErrDuplicate then None else Some err, w1)
     | ((None, _), w1) \<Rightarrow> (None, w1)))"

definition AttachmentResourceType :: "string \<Rightarrow> string option" where
  "AttachmentResourceType kind = (if kind = AttachmentImage then Some ''image'' else if kind = AttachmentFile then Some ''file'' else None)"

text \<open>What \<open>Normalize\<close> accepts, the router accepts as well.\<close>

lemma normalized_valid:
  assumes "Normalize json feishuAppID raw = Inr incoming" and "App_ID app \<noteq> []" and "App_Name app \<noteq> []"
  shows "validate (incoming\<lparr>In_App := app\<rparr>) = None"
  using assms by (auto simp: Normalize_def raw_incoming_def validate_def split: if_splits option.splits prod.splits)

section \<open>The sender\<close>

datatype body =
    TextBody string
  | StaticCard string
  | WorkCard string string bool
  | CardReference string
  | FileBody string
  | ImageBody string

record message =
  msg_ReceiveType :: string
  msg_ReceiveID :: string
  msg_Body :: body

text \<open>Requests to Feishu; a card is its final text, its progress and whether it is closed.\<close>

datatype feishu_call =
    MessageCreate message
  | MessagePatch string body
  | CardCreate body
  | CardUpdate string body string int
  | ImageUpload string
  | FileUpload string string
  | ResourceGet string string string
  | RawContent string

record cardSession =
  cs_cardID :: string
  cs_sequence :: int
  cs_nextOperation :: go_time

record Sender =
  sd_cards :: "string \<rightharpoonup> cardSession"
  sd_imageKeys :: "string \<rightharpoonup> string"
  sd_calls :: "feishu_call list"

type_synonym 'a sending = "Sender \<Rightarrow> 'a \<times> Sender"

text \<open>
  The answers of the SDK to a request after the ones made so far, with the one string that the code reads of the data; the file system; the path of a parsed URL; the encoded size
  of a payload. A request is only left without answer and error (\<open>NoReply\<close>) where the code looks for that. An error made with \<open>%w: %v\<close> keeps the
  detail as the prefix of the wrapped sentinel.
\<close>

record FeishuSDK =
  sdk_answer :: "feishu_call list \<Rightarrow> feishu_call \<Rightarrow> string sdk"
  sdk_stat :: "string \<Rightarrow> (bool \<times> int) option"
  sdk_open :: "string \<Rightarrow> string option"
  sdk_url_path :: "string \<Rightarrow> string option"
  sdk_size :: "body \<Rightarrow> int"

definition request :: "FeishuSDK \<Rightarrow> feishu_call \<Rightarrow> string sdk sending" where
  "request sdk c s = (sdk_answer sdk (sd_calls s) c, s\<lparr>sd_calls := sd_calls s @ [c]\<rparr>)"

abbreviation to :: "string \<Rightarrow> string \<Rightarrow> body \<Rightarrow> feishu_call" where
  "to receiveID receiveType b \<equiv> MessageCreate \<lparr>msg_ReceiveType = receiveType, msg_ReceiveID = receiveID, msg_Body = b\<rparr>"

text \<open>
  A request whose answer must have data: the text of the error is the prefix with the error or the code. A nil answer without an error
  does not occur here.
\<close>

definition expect :: "string \<Rightarrow> string sdk \<Rightarrow> string res" where
  "expect what answer = (case answer of Transport err \<Rightarrow> Inl (Wrapf what err)
     | Reply code data \<Rightarrow> (case (if code = 0 then data else None) of Some x \<Rightarrow> Inr x | None \<Rightarrow> Inl (Errorf (what @ '': code='' @ sprint_int code)))
     | NoReply \<Rightarrow> Inl (Errorf what))"

subsection \<open>Images\<close>

definition maxFeishuMessageImageBytes :: int where
  "maxFeishuMessageImageBytes = 10000000"

definition bytes :: "nat list \<Rightarrow> string" where
  "bytes = map mk_byte"

definition hasFeishuImageSignature :: "string \<Rightarrow> bool" where
  "hasFeishuImageSignature header \<longleftrightarrow> has_prefix header (bytes [255, 216, 255]) \<or> has_prefix header (bytes [137, 80, 78, 71, 13, 10, 26, 10])
     \<or> has_prefix header ''GIF87a'' \<or> has_prefix header ''GIF89a'' \<or> length header \<ge> 12 \<and> take 4 header = ''RIFF'' \<and> take 4 (drop 8 header) = ''WEBP''
     \<or> has_prefix header (''II*'' @ bytes [0]) \<or> has_prefix header (''MM'' @ bytes [0] @ ''*'') \<or> has_prefix header ''BM'' \<or> has_prefix header (bytes [0, 0, 1, 0])"

text \<open>The size and the content of an open file.\<close>

definition isFeishuMessageImage :: "int \<Rightarrow> string \<Rightarrow> bool" where
  "isFeishuMessageImage file_size content = (if file_size > maxFeishuMessageImageBytes then False else hasFeishuImageSignature (take 12 content))"

definition uploadImageKey :: "FeishuSDK \<Rightarrow> string \<Rightarrow> string res sending" where
  "uploadImageKey sdk content s = apfst (expect ''upload feishu image'') (request sdk (ImageUpload content) s)"

definition sendImageKey :: "FeishuSDK \<Rightarrow> string \<Rightarrow> string \<Rightarrow> string \<Rightarrow> string res sending" where
  "sendImageKey sdk receiveID receiveType imageKey s = apfst (expect ''send feishu image'') (request sdk (to receiveID receiveType (ImageBody imageKey)) s)"

definition localImagePath :: "FeishuSDK \<Rightarrow> string \<Rightarrow> string option" where
  "localImagePath sdk reference = (case (if has_prefix reference ''file://'' then sdk_url_path sdk reference else Some reference) of
     None \<Rightarrow> None
   | Some path \<Rightarrow> if \<not> has_prefix path ''/'' then None else PathUnescape path)"

definition localImageKey :: "FeishuSDK \<Rightarrow> string \<Rightarrow> string option sending" where
  "localImageKey sdk path s = (case sd_imageKeys s path of
     Some (c # key) \<Rightarrow> (Some (c # key), s)
   | _ \<Rightarrow> (case sdk_stat sdk path of None \<Rightarrow> (None, s)
     | Some (regular, file_size) \<Rightarrow> if \<not> regular \<or> file_size = 0 \<or> file_size > maxFeishuMessageImageBytes then (None, s)
         else (case sdk_open sdk path of None \<Rightarrow> (None, s)
           | Some content \<Rightarrow> if \<not> isFeishuMessageImage file_size content then (None, s)
               else (case uploadImageKey sdk content s of (Inl _, s1) \<Rightarrow> (None, s1)
                 | (Inr key, s1) \<Rightarrow> (Some key, s1\<lparr>sd_imageKeys := (sd_imageKeys s1)(path \<mapsto> key)\<rparr>)))))"

text \<open>The pattern of an image in markdown at the start of a text: its two groups and the rest.\<close>

definition image_match :: "string \<Rightarrow> (string \<times> string \<times> string) option" where
  "image_match s = (if \<not> has_prefix s ''!['' then None
     else let t = drop 2 s; alt = takeWhile (\<lambda>c. c \<noteq> CHR '']'') t; u = drop (length alt) t in
       if \<not> has_prefix u ''](''  then None
       else let v = drop 2 u; target = takeWhile (\<lambda>c. c \<noteq> CHR '')'') v; rest = drop (length target) v in
         if target = [] \<or> rest = [] then None else Some (alt, target, tl rest))"

lemma image_match_shorter: "image_match s = Some (alt, target, rest) \<Longrightarrow> length rest < length s"
  by (auto simp: image_match_def Let_def has_prefix_iff split: if_splits)

text \<open>\<open>ReplaceAllStringFunc\<close> with that pattern.\<close>

function replace_images :: "(string \<Rightarrow> string \<Rightarrow> 's \<Rightarrow> string \<times> 's) \<Rightarrow> string \<Rightarrow> 's \<Rightarrow> string \<times> 's" where
  "replace_images f [] x = ([], x)"
| "replace_images f (c # s) x = (case image_match (c # s) of
     None \<Rightarrow> apfst ((#) c) (replace_images f s x)
   | Some (alt, target, rest) \<Rightarrow> (case f alt target x of (piece, x1) \<Rightarrow> apfst ((@) piece) (replace_images f rest x1)))"
  by pat_completeness auto

termination
  by (relation "measure (\<lambda>(_, s, _). length s)") (auto dest: image_match_shorter)

definition image_markdown :: "string \<Rightarrow> string \<Rightarrow> string" where
  "image_markdown alt target = ''!['' @ alt @ '']('' @ target @ '')''"

definition prepare_image :: "FeishuSDK \<Rightarrow> string \<Rightarrow> string \<Rightarrow> string list \<times> Sender \<Rightarrow> string \<times> string list \<times> Sender" where
  "prepare_image sdk alt target = (\<lambda>(keys, s). case localImagePath sdk target of
     None \<Rightarrow> (image_markdown alt target, keys, s)
   | Some path \<Rightarrow> (case localImageKey sdk path s of
       (None, s1) \<Rightarrow> (''*'' @ alt @ utf8 [65288, 22270, 29255, 19981, 21487, 29992, 65289] @ ''*'', keys, s1)
     | (Some key, s1) \<Rightarrow> (image_markdown alt key, if key \<in> set keys then keys else keys @ [key], s1)))"

definition prepareLocalImages :: "FeishuSDK \<Rightarrow> string \<Rightarrow> (string \<times> string list) sending" where
  "prepareLocalImages sdk markdown s = (if \<not> contains markdown ''!['' then ((markdown, []), s)
     else case replace_images (prepare_image sdk) markdown ([], s) of (prepared, keys, s1) \<Rightarrow> ((prepared, keys), s1))"

definition stripUploadedImagesForText :: "string \<Rightarrow> string list \<Rightarrow> string" where
  "stripUploadedImagesForText content imageKeys = (if imageKeys = [] then content
     else fst (replace_images (\<lambda>alt target x. (if target \<in> set imageKeys then (if alt \<noteq> [] then ''['' @ alt @ '']'' else ''['' @ utf8 [22270, 29255] @ '']'')
       else image_markdown alt target, x)) content ()))"

subsection \<open>Texts\<close>

fun send_images :: "FeishuSDK \<Rightarrow> string \<Rightarrow> string \<Rightarrow> string list \<Rightarrow> Sender \<Rightarrow> Sender" where
  "send_images sdk receiveID receiveType [] s = s"
| "send_images sdk receiveID receiveType (key # keys) s = send_images sdk receiveID receiveType keys (snd (sendImageKey sdk receiveID receiveType key s))"

definition SendText :: "FeishuSDK \<Rightarrow> string \<Rightarrow> string \<Rightarrow> string \<Rightarrow> string res sending" where
  "SendText sdk receiveID receiveType content s = (case prepareLocalImages sdk content s of ((prepared, imageKeys), s1) \<Rightarrow>
     (case request sdk (to receiveID receiveType (TextBody (stripUploadedImagesForText prepared imageKeys))) s1 of
        (Transport err, s2) \<Rightarrow> (Inl (Wrapf ''create feishu message'' err), s2)
      | (Reply code data, s2) \<Rightarrow> if code \<noteq> 0 then (Inl (Errorf (''create feishu message: code='' @ sprint_int code)), s2)
          else (case data of None \<Rightarrow> (Inl (Errorf ''create feishu message: missing message id''), s2)
            | Some messageID \<Rightarrow> (Inr messageID, send_images sdk receiveID receiveType imageKeys s2))
      | (NoReply, s2) \<Rightarrow> (Inl (Errorf ''create feishu message''), s2)))"

definition maxCardPayloadBytes :: int where
  "maxCardPayloadBytes = 28 * 1024"

definition SendStaticCard :: "FeishuSDK \<Rightarrow> string \<Rightarrow> string \<Rightarrow> string \<Rightarrow> string res sending" where
  "SendStaticCard sdk receiveID receiveType content s =
     (if sdk_size sdk (StaticCard content) > maxCardPayloadBytes then (Inl (Errorf (''static card exceeds '' @ sprint_int maxCardPayloadBytes @ '' bytes'')), s)
      else case request sdk (to receiveID receiveType (StaticCard content)) s of
        (Transport err, s1) \<Rightarrow> (Inl (Wrapf (error_text err) ErrCommandDeliveryUnknown), s1)
      | (NoReply, s1) \<Rightarrow> (Inl (Wrapf ''empty response'' ErrCommandDeliveryUnknown), s1)
      | (Reply code data, s1) \<Rightarrow> (case (if code = 0 then data else None) of Some messageID \<Rightarrow> (Inr messageID, s1)
          | None \<Rightarrow> (Inl (Wrapf (''code='' @ sprint_int code) ErrCommandDeliveryRejected), s1)))"

definition SendCommandText :: "FeishuSDK \<Rightarrow> string \<Rightarrow> string \<Rightarrow> string \<Rightarrow> string res sending" where
  "SendCommandText sdk receiveID receiveType content s = (case request sdk (to receiveID receiveType (TextBody content)) s of
     (Transport err, s1) \<Rightarrow> (Inl (Wrapf (error_text err) ErrCommandDeliveryUnknown), s1)
   | (NoReply, s1) \<Rightarrow> (Inl (Wrapf ''empty response'' ErrCommandDeliveryUnknown), s1)
   | (Reply code data, s1) \<Rightarrow> if code \<noteq> 0 then (Inl (Wrapf (''code='' @ sprint_int code) ErrCommandDeliveryRejected), s1)
       else (case data of None \<Rightarrow> (Inl (Wrapf ''missing message id'' ErrCommandDeliveryUnknown), s1) | Some messageID \<Rightarrow> (Inr messageID, s1)))"

definition SendCompanionSegment :: "FeishuSDK \<Rightarrow> ReplyTarget \<Rightarrow> string \<Rightarrow> CompanionSendResult sending" where
  "SendCompanionSegment sdk target content s = (let result = (\<lambda>i out reason. \<lparr>Send_MessageID = i, Send_Outcome = out, Send_Reason = reason\<rparr>) in
     case request sdk (to (Reply_ID target) (Reply_Type target) (TextBody content)) s of
       (Transport err, s1) \<Rightarrow> (if errors_is err ErrCanceled then result [] CompanionCancelled ''cancelled'' else result [] CompanionUnknown ''request_unknown'', s1)
     | (NoReply, s1) \<Rightarrow> (result [] CompanionUnknown ''request_unknown'', s1)
     | (Reply code data, s1) \<Rightarrow> (if code \<noteq> 0 then (if code = 429 \<or> code = 99991663 then result [] CompanionRejected ''rate_limited'' else result [] CompanionRejected ''rejected'')
         else (case data of None \<Rightarrow> result [] CompanionUnknown ''missing_message_id'' | Some messageID \<Rightarrow> result messageID CompanionSent []), s1))"

subsection \<open>Files and documents\<close>

definition UploadAndSend :: "FeishuSDK \<Rightarrow> ReplyTarget \<Rightarrow> int \<Rightarrow> string \<Rightarrow> string \<Rightarrow> (string \<times> string) res sending" where
  "UploadAndSend sdk target file_size content fileName s =
     (if fileName = [] \<or> Reply_ID target = [] \<or> Reply_Type target = [] then (Inl (Errorf ''file send parameters are invalid''), s)
      else let image = isFeishuMessageImage file_size content in
        case (if image then uploadImageKey sdk content s else apfst (expect ''upload feishu file'') (request sdk (FileUpload fileName content) s)) of
          (Inl err, s1) \<Rightarrow> (Inl err, s1)
        | (Inr key, s1) \<Rightarrow> (case (if image then sendImageKey sdk (Reply_ID target) (Reply_Type target) key s1
              else apfst (expect ''send feishu file'') (request sdk (to (Reply_ID target) (Reply_Type target) (FileBody key)) s1)) of
            (Inl err, s2) \<Rightarrow> (Inl err, s2) | (Inr messageID, s2) \<Rightarrow> (Inr (key, messageID), s2)))"

definition Sender_Download :: "FeishuSDK \<Rightarrow> string \<Rightarrow> string \<Rightarrow> string \<Rightarrow> string res sending" where
  "Sender_Download sdk messageID resourceKey kind s = (case AttachmentResourceType kind of
     None \<Rightarrow> (Inl (Errorf ''attachment resource is invalid''), s)
   | Some resourceType \<Rightarrow> if messageID = [] \<or> resourceKey = [] then (Inl (Errorf ''attachment resource is invalid''), s)
       else apfst (expect ''download message resource'') (request sdk (ResourceGet messageID resourceKey resourceType) s))"

definition Sender_ReadDocument :: "FeishuSDK \<Rightarrow> string \<Rightarrow> string res sending" where
  "Sender_ReadDocument sdk documentID s =
     (if documentID = [] then (Inl (Errorf ''document id is invalid''), s)
      else case request sdk (RawContent documentID) s of
        (NoReply, s1) \<Rightarrow> (Inl (Errorf ''read document: empty response''), s1)
      | (answer, s1) \<Rightarrow> (expect ''read document'' answer, s1))"

subsection \<open>Cards\<close>

definition initialWorkCardProgress :: "bool \<Rightarrow> string" where
  "initialWorkCardProgress goal = (if goal then utf8 [30446, 26631, 24050, 21463, 29702, 65292, 27491, 22312, 21551, 21160, 32] @ ''Codex'' @ utf8 [8230]
     else utf8 [31561, 24453, 32] @ ''Codex '' @ utf8 [36827, 23637, 8230])"

definition progressMarkdown :: "string \<Rightarrow> string" where
  "progressMarkdown s = ''*'' @ s @ ''*''"

definition thinking :: string where
  "thinking = ''*'' @ utf8 [24605, 32771, 20013, 8230] @ ''*''"

text \<open>The content of a work card: its final text, its progress, and whether it is closed; empty zones have a default.\<close>

definition RenderWorkCard :: "string \<Rightarrow> string \<Rightarrow> bool \<Rightarrow> body" where
  "RenderWorkCard final_text progress_text closed = WorkCard (if final_text = [] then thinking else final_text)
     (progressMarkdown (if progress_text = [] then initialWorkCardProgress False else progress_text)) closed"

definition CreateBatchCard :: "FeishuSDK \<Rightarrow> Batch \<Rightarrow> string res sending" where
  "CreateBatchCard sdk batch s = (let content = RenderWorkCard thinking (initialWorkCardProgress (Batch_Goal batch)) False;
       reply = Msg_Reply (hd (Batch_Messages batch)) in
     if sdk_size sdk content > maxCardPayloadBytes then (Inl (Errorf (''batch card payload exceeds '' @ sprint_int maxCardPayloadBytes @ '' bytes'')), s)
     else case request sdk (CardCreate content) s of (answer, s1) \<Rightarrow>
       (let cardID = sdk_data answer in
        case request sdk (to (Reply_ID reply) (Reply_Type reply) (case cardID of Some i \<Rightarrow> CardReference i | None \<Rightarrow> content)) s1 of
          (answer', s2) \<Rightarrow> (case expect ''create batch card'' answer' of
            Inl err \<Rightarrow> (Inl err, s2)
          | Inr messageID \<Rightarrow> (Inr messageID, case cardID of None \<Rightarrow> s2
              | Some i \<Rightarrow> s2\<lparr>sd_cards := (sd_cards s2)(messageID \<mapsto> \<lparr>cs_cardID = i, cs_sequence = 0, cs_nextOperation = zero_time\<rparr>)\<rparr>))))"

definition patchCard :: "FeishuSDK \<Rightarrow> string \<Rightarrow> body \<Rightarrow> go_error option sending" where
  "patchCard sdk messageID card_body s =
     (if sdk_size sdk card_body > maxCardPayloadBytes then (Some (Errorf (''patch payload exceeds '' @ sprint_int maxCardPayloadBytes @ '' bytes'')), s)
      else case request sdk (MessagePatch messageID card_body) s of
        (Transport err, s1) \<Rightarrow> (Some (Wrapf ''update batch card'' err), s1)
      | (Reply code _, s1) \<Rightarrow> (if code = 0 then None else Some (Errorf (''update batch card: code='' @ sprint_int code)), s1)
      | (NoReply, s1) \<Rightarrow> (Some (Errorf ''update batch card''), s1))"

definition nextCardKitOperation :: "go_time \<Rightarrow> string \<Rightarrow> (int \<times> int) sending" where
  "nextCardKitOperation now messageID s = (case sd_cards s messageID of None \<Rightarrow> ((0, 0), s)
     | Some session \<Rightarrow>
         if is_zero_time (cs_nextOperation session) \<or> now \<ge> cs_nextOperation session
         then ((cs_sequence session + 1, 0), s\<lparr>sd_cards := (sd_cards s)(messageID \<mapsto> session\<lparr>cs_nextOperation := now + 100, cs_sequence := cs_sequence session + 1\<rparr>)\<rparr>)
         else ((cs_sequence session + 1, cs_nextOperation session - now),
           s\<lparr>sd_cards := (sd_cards s)(messageID \<mapsto> session\<lparr>cs_nextOperation := cs_nextOperation session + 100, cs_sequence := cs_sequence session + 1\<rparr>)\<rparr>))"

text \<open>\<open>cancelled\<close> is the error of the context when it ends before the wait does.\<close>

definition updateCardKitEntity :: "FeishuSDK \<Rightarrow> go_time \<Rightarrow> go_error option \<Rightarrow> string \<Rightarrow> string \<Rightarrow> string \<Rightarrow> bool \<Rightarrow> go_error option sending" where
  "updateCardKitEntity sdk now cancelled messageID final_text progress_text closed s = (let card_body = RenderWorkCard final_text progress_text closed in
     if sdk_size sdk card_body > maxCardPayloadBytes then (Some (Errorf (''cardkit payload exceeds '' @ sprint_int maxCardPayloadBytes @ '' bytes'')), s)
     else case sd_cards s messageID of None \<Rightarrow> (Some (Errorf ''cardkit session unavailable''), s)
     | Some session \<Rightarrow> (case nextCardKitOperation now messageID s of ((sequence, wait), s1) \<Rightarrow>
         if wait > 0 \<and> cancelled \<noteq> None then (cancelled, s1)
         else (case request sdk (CardUpdate (cs_cardID session) card_body (messageID @ ''-'' @ sprint_int sequence) sequence) s1 of
             (Transport err, s2) \<Rightarrow> (Some err, s2)
           | (NoReply, s2) \<Rightarrow> (Some (Errorf ''cardkit full_update returned an empty response''), s2)
           | (Reply code _, s2) \<Rightarrow> (if code = 0 then None else Some (Errorf (''cardkit full_update code='' @ sprint_int code)), s2))))"

definition UpdateBatchCardZones :: "FeishuSDK \<Rightarrow> go_time \<Rightarrow> go_error option \<Rightarrow> string \<Rightarrow> string \<Rightarrow> string \<Rightarrow> bool \<Rightarrow> go_error option sending" where
  "UpdateBatchCardZones sdk now cancelled messageID final_text progress_text closed s =
     (case prepareLocalImages sdk final_text s of ((final', _), s1) \<Rightarrow> (case prepareLocalImages sdk progress_text s1 of ((progress', _), s2) \<Rightarrow>
        (case updateCardKitEntity sdk now cancelled messageID final' progress' closed s2 of
          (None, s3) \<Rightarrow> (None, s3)
        | (Some _, s3) \<Rightarrow> patchCard sdk messageID (RenderWorkCard final' progress' closed) s3)))"

definition UpdateBatchCard :: "FeishuSDK \<Rightarrow> string \<Rightarrow> string \<Rightarrow> go_error option sending" where
  "UpdateBatchCard sdk messageID content s = (case prepareLocalImages sdk content s of ((prepared, _), s1) \<Rightarrow>
     patchCard sdk messageID (RenderWorkCard prepared [] True) s1)"

section \<open>What the sender does\<close>

text \<open>Card updates of one session have increasing numbers, and each is due at least 100 ms after the one before.\<close>

lemma card_operations_spaced:
  assumes "nextCardKitOperation now messageID s = ((sequence, wait), s1)" and "sd_cards s messageID = Some session"
    and "nextCardKitOperation now' messageID s1 = ((sequence', wait'), s2)" and "zero_time < now" and "now \<le> now'"
    and "cs_nextOperation session = zero_time \<or> zero_time < cs_nextOperation session"
  shows "sequence = cs_sequence session + 1 \<and> sequence' = sequence + 1 \<and> 0 \<le> wait \<and> now + wait + 100 \<le> now' + wait'"
  using assms by (auto simp: nextCardKitOperation_def is_zero_time_def split: if_splits)

text \<open>
  A static card that Feishu accepted without naming the message counts as rejected, so that the caller sends the text again; for a command text
  the same answer counts as unknown.
\<close>

lemma accepted_card_counts_as_rejected:
  assumes "sdk_size sdk (StaticCard content) \<le> maxCardPayloadBytes" and "sdk_answer sdk (sd_calls s) (to i t (StaticCard content)) = Reply 0 None"
    and "sdk_answer sdk (sd_calls s) (to i t (TextBody content)) = Reply 0 None"
  shows "\<exists>err. fst (SendStaticCard sdk i t content s) = Inl err \<and> errors_is err ErrCommandDeliveryRejected"
    and "\<exists>err. fst (SendCommandText sdk i t content s) = Inl err \<and> errors_is err ErrCommandDeliveryUnknown"
  using assms by (simp_all add: SendStaticCard_def SendCommandText_def request_def ErrCommandDeliveryRejected_def ErrCommandDeliveryUnknown_def)

text \<open>A text is one message to its target and never more; only images follow it.\<close>

lemma request_calls [simp]: "sd_calls (snd (request sdk c s)) = sd_calls s @ [c]"
  by (simp add: request_def)

fun is_upload :: "feishu_call \<Rightarrow> bool" where
  "is_upload (ImageUpload content) = True"
| "is_upload _ = False"

definition uploads_only :: "Sender \<Rightarrow> Sender \<Rightarrow> bool" where
  "uploads_only s s' \<longleftrightarrow> (\<exists>l. sd_calls s' = sd_calls s @ l \<and> list_all is_upload l)"

lemma uploads_only_refl: "uploads_only s s"
  by (simp add: uploads_only_def)

lemma uploads_only_trans: "uploads_only s s1 \<Longrightarrow> uploads_only s1 s2 \<Longrightarrow> uploads_only s s2"
  unfolding uploads_only_def by (metis append_assoc list_all_append)

lemma localImageKey_uploads: "uploads_only s (snd (localImageKey sdk path s))"
proof -
  have "uploads_only s (snd (request sdk (ImageUpload content) s))" for content by (simp add: uploads_only_def)
  moreover have "uploads_only s (snd (request sdk (ImageUpload content) s)\<lparr>sd_imageKeys := m\<rparr>)" for content m by (simp add: uploads_only_def)
  ultimately show ?thesis
    by (auto simp: localImageKey_def uploadImageKey_def apfst_def map_prod_def uploads_only_refl split: option.split list.split prod.split sum.split) (metis snd_conv)+
qed

lemma replace_images_uploads:
  assumes "\<And>alt target x. uploads_only (snd x) (snd (snd (f alt target x)))"
  shows "uploads_only (snd x) (snd (snd (replace_images f s x)))"
  using assms
proof (induction f s x rule: replace_images.induct)
  case (1 f x)
  then show ?case by (simp add: uploads_only_refl)
next
  case (2 f c s x)
  show ?case
  proof (cases "image_match (c # s)")
    case None
    then show ?thesis using 2(1) [OF None 2(3)] by simp
  next
    case (Some m)
    obtain alt target rest where m: "m = (alt, target, rest)" by (cases m)
    obtain piece x1 where x1: "f alt target x = (piece, x1)" by (rule prod.exhaust)
    have "uploads_only (snd x) (snd x1)" using 2(3) [of x alt target] x1 by simp
    moreover have "uploads_only (snd x1) (snd (snd (replace_images f rest x1)))"
      by (rule 2(2) [OF Some m [symmetric] refl x1 [symmetric] 2(3)])
    ultimately show ?thesis using Some m x1 by (simp add: uploads_only_trans)
  qed
qed

lemma prepareLocalImages_uploads: "uploads_only s (snd (prepareLocalImages sdk markdown s))"
proof -
  have "uploads_only (snd x) (snd (snd (prepare_image sdk alt target x)))" for alt target x
    using localImageKey_uploads [of "snd x" sdk] by (auto simp: prepare_image_def uploads_only_refl split: prod.split option.split) (metis snd_conv)+
  from replace_images_uploads [OF this, where x = "([], s)"]
  have "uploads_only s (snd (snd (replace_images (prepare_image sdk) markdown ([], s))))" by simp
  moreover obtain prepared keys s1 where "replace_images (prepare_image sdk) markdown ([], s) = (prepared, keys, s1)" by (metis prod.exhaust)
  ultimately show ?thesis by (simp add: prepareLocalImages_def uploads_only_refl)
qed

lemma send_images_calls: "\<exists>keys'. sd_calls (send_images sdk i t keys s) = sd_calls s @ map (\<lambda>k. to i t (ImageBody k)) keys'"
proof (induction keys arbitrary: s)
  case (Cons k keys)
  from Cons [of "snd (sendImageKey sdk i t k s)"] obtain keys' where
    "sd_calls (send_images sdk i t keys (snd (sendImageKey sdk i t k s))) = sd_calls (snd (sendImageKey sdk i t k s)) @ map (\<lambda>k. to i t (ImageBody k)) keys'" ..
  then show ?case by (intro exI [of _ "k # keys'"]) (simp add: sendImageKey_def)
qed (rule exI [of _ "[]"], simp)

lemma text_sent_once:
  "\<exists>uploads content keys. sd_calls (snd (SendText sdk i t markdown s)) = sd_calls s @ uploads @ to i t (TextBody content) # map (\<lambda>k. to i t (ImageBody k)) keys
     \<and> list_all is_upload uploads"
proof -
  obtain prepared ks s1 where p: "prepareLocalImages sdk markdown s = ((prepared, ks), s1)" by (metis prod.exhaust)
  obtain uploads where u: "sd_calls s1 = sd_calls s @ uploads" "list_all is_upload uploads"
    using prepareLocalImages_uploads [of s sdk markdown] p by (auto simp: uploads_only_def)
  let ?c = "to i t (TextBody (stripUploadedImagesForText prepared ks))"
  obtain answer s2 where r: "request sdk ?c s1 = (answer, s2)" by fastforce
  have s2: "sd_calls s2 = sd_calls s @ uploads @ [?c]" using u r request_calls [of sdk ?c s1] by simp
  obtain keys where k: "sd_calls (send_images sdk i t ks s2) = sd_calls s2 @ map (\<lambda>k. to i t (ImageBody k)) keys" using send_images_calls by blast
  have "\<exists>keys. sd_calls (snd (SendText sdk i t markdown s)) = sd_calls s2 @ map (\<lambda>k. to i t (ImageBody k)) keys"
    using k by (auto simp: SendText_def p r split: sdk.split option.split intro: exI [of _ keys] exI [of _ "[]"])
  then show ?thesis using s2 u(2) by fastforce
qed

end
