(* ===== verification/Fleetq_Bridge.thy ===== *)
theory Fleetq_Bridge
  imports Go_Filepath Tool_Types Worker_Types
begin

text \<open>
  Tasks between machines (\<open>internal/fleetq\<close>, \<open>internal/fleetqbridge\<close>, \<open>internal/fleetqaction\<close>, \<open>storage/fleetq_results.go\<close>): publishing of
  messages, the tool that queues a task, the bridge that executes requests and delivers results, and the ledger of deliveries. The streams of NATS,
  the processor of Codex and the sending of texts are parameters; times of creation are left out.
\<close>

section \<open>Messages\<close>

record ReplyRoute =
  RR_AppID :: string
  RR_ReceiveID :: string
  RR_ReceiveType :: string
  RR_ChatType :: string
  RR_ChatID :: string

record NotifyRoute =
  NR_Machine :: string
  NR_Reply :: ReplyRoute

text \<open>The values of the metadata.\<close>

datatype meta = MetaText string | MetaNumber int | MetaReply ReplyRoute | MetaNotify NotifyRoute | MetaJSON string

record FleetMessage =
  FM_Schema :: int
  FM_ID :: string
  FM_From :: string
  FM_To :: "string list"
  FM_Kind :: string
  FM_Text :: string
  FM_Meta :: "string \<rightharpoonup> meta"

record StatusEvent =
  SE_Schema :: int
  SE_Event :: string
  SE_RequestID :: string
  SE_MessageID :: string
  SE_Machine :: string
  SE_Status :: string
  SE_Error :: string

definition Schema :: int where
  "Schema = 1"

definition KindJobRequest :: string where
  "KindJobRequest = ''job.request''"

definition KindJobResult :: string where
  "KindJobResult = ''job.result''"

definition KindJobNotice :: string where
  "KindJobNotice = ''job.notice''"

definition StatusAccepted :: string where
  "StatusAccepted = ''accepted''"

definition StatusClaimed :: string where
  "StatusClaimed = ''claimed''"

definition StatusRunning :: string where
  "StatusRunning = ''running''"

definition StatusCompleted :: string where
  "StatusCompleted = ''completed''"

definition StatusFailed :: string where
  "StatusFailed = ''failed''"

definition StatusDelivered :: string where
  "StatusDelivered = ''delivered''"

definition NewStatusEvent :: "string \<Rightarrow> string \<Rightarrow> string \<Rightarrow> string \<Rightarrow> go_error option \<Rightarrow> StatusEvent" where
  "NewStatusEvent requestID messageID machine status cause = \<lparr>SE_Schema = Schema, SE_Event = ''job.status'', SE_RequestID = requestID,
     SE_MessageID = messageID, SE_Machine = machine, SE_Status = status, SE_Error = (case cause of None \<Rightarrow> [] | Some err \<Rightarrow> error_text err)\<rparr>"

definition stringValue :: "(string \<rightharpoonup> meta) \<Rightarrow> string \<Rightarrow> string" where
  "stringValue values key = (case values key of Some (MetaText s) \<Rightarrow> s | _ \<Rightarrow> [])"

definition requestID :: "FleetMessage \<Rightarrow> string" where
  "requestID message = (let i = stringValue (FM_Meta message) ''request_id'' in if i \<noteq> [] then i else FM_ID message)"

section \<open>The bridge and its state\<close>

text \<open>
  What the bridge does; the first component of a text to Feishu names the delivery it belongs to, which only the specification reads.
\<close>

datatype fleet_call =
    PublishEvent FleetMessage
  | PublishJob string FleetMessage
  | PublishStatusEvent StatusEvent
  | Flush
  | SendFeishu string string string string string
  | RunBatch Batch
  | Acknowledge FleetMessage
  | Refuse FleetMessage

record fleet_row =
  fr_request_id :: string
  fr_result_id :: string
  fr_app_id :: string
  fr_receive_id :: string
  fr_receive_type :: string
  fr_content :: string
  fr_status :: string
  fr_error_reason :: "string option"

record fleet =
  fl_rows :: "fleet_row list"
  fl_faults :: "fault list"
  fl_seen :: "string set"
  fl_calls :: "fleet_call list"

text \<open>
  The parameters: whether there is a client, its machine and the other machines; whether there is a ledger; the applications with a sender. Answers depend
  on the calls made so far: \<open>br_answer\<close> is the error of a call, \<open>br_process\<close> the final text of the processor for a batch, \<open>br_in_progress\<close> the first error of
  renewing the lease during the execution, \<open>br_ctx_err\<close> the error of the context. \<open>br_expand_env\<close> and \<open>br_home\<close> are the environment; \<open>br_reply\<close> and \<open>br_notify\<close> encode
  a value as JSON and decode it as a route.
\<close>

record Bridge =
  br_client :: bool
  br_machine :: string
  br_machines :: "string list"
  br_ledger :: bool
  br_sender :: "string \<Rightarrow> bool"
  br_answer :: "fleet_call list \<Rightarrow> fleet_call \<Rightarrow> go_error option"
  br_process :: "fleet_call list \<Rightarrow> Batch \<Rightarrow> string res"
  br_in_progress :: "fleet_call list \<Rightarrow> FleetMessage \<Rightarrow> go_error option"
  br_ctx_err :: "fleet_call list \<Rightarrow> go_error option"
  br_expand_env :: "string \<Rightarrow> string"
  br_home :: "string option"
  br_reply :: "meta option \<Rightarrow> ReplyRoute option"
  br_notify :: "meta option \<Rightarrow> NotifyRoute option"

type_synonym 'a fop = "fleet \<Rightarrow> 'a \<times> fleet"

definition fcall :: "Bridge \<Rightarrow> fleet_call \<Rightarrow> go_error option fop" where
  "fcall b c f = (br_answer b (fl_calls f) c, f\<lparr>fl_calls := fl_calls f @ [c]\<rparr>)"

text \<open>A statement that updates the table.\<close>

definition fexec :: "(fleet_row list \<Rightarrow> fleet_row list) \<Rightarrow> go_error option fop" where
  "fexec g f = (case fl_faults f of
     Lost_Before # fs \<Rightarrow> (Some ErrDriver, f\<lparr>fl_faults := fs\<rparr>)
   | Lost_After # fs \<Rightarrow> (Some ErrDriver, f\<lparr>fl_faults := fs, fl_rows := g (fl_rows f)\<rparr>)
   | Fine # fs \<Rightarrow> (None, f\<lparr>fl_faults := fs, fl_rows := g (fl_rows f)\<rparr>)
   | [] \<Rightarrow> (None, f\<lparr>fl_rows := g (fl_rows f)\<rparr>))"

section \<open>The ledger of deliveries\<close>

definition insert_delivery :: "fleet_row \<Rightarrow> fleet_row list \<Rightarrow> fleet_row list" where
  "insert_delivery r rows = (if fr_request_id r \<in> fr_request_id ` set rows then rows else rows @ [r])"

definition BeginFleetQResult :: "string \<Rightarrow> string \<Rightarrow> string \<Rightarrow> string \<Rightarrow> string \<Rightarrow> string \<Rightarrow> bool res fop" where
  "BeginFleetQResult request resultID appID receiveID receiveType content f =
     (if request = [] \<or> resultID = [] \<or> appID = [] \<or> receiveID = [] \<or> receiveType = [] then (Inl (Errorf ''fleetq result identity is required''), f)
      else case fexec (insert_delivery \<lparr>fr_request_id = request, fr_result_id = resultID, fr_app_id = appID, fr_receive_id = receiveID,
          fr_receive_type = receiveType, fr_content = content, fr_status = ''pending'', fr_error_reason = None\<rparr>) f of
        (Some err, f1) \<Rightarrow> (Inl (Wrapf ''begin fleetq result'' err), f1)
      | (None, f1) \<Rightarrow> (case fexec id f1 of
          (Some err, f2) \<Rightarrow> (Inl (Wrapf ''read fleetq result status'' err), f2)
        | (None, f2) \<Rightarrow> (case sql_first (\<lambda>r. fr_request_id r = request) (fl_rows f2) of
            None \<Rightarrow> (Inl (Wrapf ''read fleetq result status'' ErrNoRows), f2)
          | Some r \<Rightarrow> (Inr (fr_status r = ''pending''), f2))))"

definition settle_delivery :: "string \<Rightarrow> string \<Rightarrow> string option \<Rightarrow> fleet_row list \<Rightarrow> fleet_row list" where
  "settle_delivery request status reason = map (\<lambda>r. if fr_request_id r = request \<and> fr_status r = ''pending'' then r\<lparr>fr_status := status, fr_error_reason := reason\<rparr> else r)"

definition MarkFleetQResultSent :: "string \<Rightarrow> go_error option fop" where
  "MarkFleetQResultSent request f = apfst (map_option (Wrapf ''mark fleetq result sent'')) (fexec (settle_delivery request ''delivered'' None) f)"

definition MarkFleetQResultUnknown :: "string \<Rightarrow> string \<Rightarrow> go_error option fop" where
  "MarkFleetQResultUnknown request reason f = apfst (map_option (Wrapf ''mark fleetq result unknown'')) (fexec (settle_delivery request ''unknown'' (Some reason)) f)"

section \<open>Publishing\<close>

fun unique_loop :: "string list \<Rightarrow> string list \<Rightarrow> string list" where
  "unique_loop result [] = result"
| "unique_loop result (t # ts) = unique_loop (if t \<noteq> [] \<and> t \<notin> set result then result @ [t] else result) ts"

definition uniqueTargets :: "string list \<Rightarrow> string list" where
  "uniqueTargets = unique_loop []"

fun publish_jobs :: "Bridge \<Rightarrow> FleetMessage \<Rightarrow> string list \<Rightarrow> go_error option fop" where
  "publish_jobs b message [] f = (None, f)"
| "publish_jobs b message (t # ts) f = (if t = [] then publish_jobs b message ts f
     else case fcall b (PublishJob t message) f of
       (Some err, f1) \<Rightarrow> (Some (Wrapf (''publish fleetq message to '' @ t) err), f1)
     | (None, f1) \<Rightarrow> publish_jobs b message ts f1)"

definition publish_to :: "Bridge \<Rightarrow> FleetMessage \<Rightarrow> string list \<Rightarrow> go_error option fop" where
  "publish_to b message targets f = (case fcall b (PublishEvent message) f of
     (Some err, f1) \<Rightarrow> (Some (Wrapf ''publish fleetq event'' err), f1)
   | (None, f1) \<Rightarrow> (case publish_jobs b message targets f1 of
       (Some err, f2) \<Rightarrow> (Some err, f2)
     | (None, f2) \<Rightarrow> (case fcall b Flush f2 of (Some err, f3) \<Rightarrow> (Some (Wrapf ''flush fleetq publish'' err), f3) | (None, f3) \<Rightarrow> (None, f3))))"

definition stamped :: "Bridge \<Rightarrow> FleetMessage \<Rightarrow> FleetMessage" where
  "stamped b message = message\<lparr>FM_Schema := (if FM_Schema message = 0 then Schema else FM_Schema message),
     FM_From := (if FM_From message = [] then br_machine b else FM_From message)\<rparr>"

definition message_targets :: "Bridge \<Rightarrow> FleetMessage \<Rightarrow> string list" where
  "message_targets b message = uniqueTargets (if FM_To message = [] \<or> ''*'' \<in> set (FM_To message) then br_machines b else FM_To message)"

definition Publish :: "Bridge \<Rightarrow> FleetMessage \<Rightarrow> go_error option fop" where
  "Publish b message f = (case br_ctx_err b (fl_calls f) of Some err \<Rightarrow> (Some err, f)
   | None \<Rightarrow> (if FM_ID message = [] then (Some (Errorf ''fleetq message id is required''), f)
       else if message_targets b message = [] then (Some (Errorf ''fleetq message has no targets''), f)
       else publish_to b (stamped b message) (message_targets b message) f))"

definition PublishStatus :: "Bridge \<Rightarrow> StatusEvent \<Rightarrow> go_error option fop" where
  "PublishStatus b event f =
     (if SE_RequestID event = [] \<or> SE_MessageID event = [] \<or> SE_Machine event = [] \<or> SE_Status event = [] then (Some (Errorf ''fleetq status event identity is required''), f)
      else case fcall b (PublishStatusEvent event) f of
        (Some err, f1) \<Rightarrow> (Some (Wrapf ''publish fleetq status event'' err), f1)
      | (None, f1) \<Rightarrow> (case fcall b Flush f1 of (Some err, f2) \<Rightarrow> (Some (Wrapf ''flush fleetq status event'' err), f2) | (None, f2) \<Rightarrow> (None, f2)))"

definition publishStatusByID :: "Bridge \<Rightarrow> string \<Rightarrow> string \<Rightarrow> string \<Rightarrow> go_error option \<Rightarrow> fleet \<Rightarrow> fleet" where
  "publishStatusByID b request messageID status cause f =
     (if \<not> br_client b \<or> request = [] \<or> messageID = [] \<or> br_machine b = [] then f
      else snd (PublishStatus b (NewStatusEvent request messageID (br_machine b) status cause) f))"

definition publishStatus :: "Bridge \<Rightarrow> FleetMessage \<Rightarrow> string \<Rightarrow> go_error option \<Rightarrow> fleet \<Rightarrow> fleet" where
  "publishStatus b message status cause = publishStatusByID b (requestID message) (FM_ID message) status cause"

record TaskSpec =
  TS_To :: "string list"
  TS_Text :: string
  TS_CWD :: string
  TS_Model :: string
  TS_Timeout :: int
  TS_Sandbox :: string
  TS_Reply :: ReplyRoute
  TS_Notify :: "NotifyRoute option"

text \<open>\<open>new_id\<close> is the answer of \<open>newID\<close>.\<close>

definition task_message :: "Bridge \<Rightarrow> string \<Rightarrow> TaskSpec \<Rightarrow> FleetMessage" where
  "task_message b new_id spec = (let meta = [''action'' \<mapsto> MetaText ''codex.prompt'', ''cwd'' \<mapsto> MetaText (TS_CWD spec),
       ''sandbox'' \<mapsto> MetaText (if TS_Sandbox spec = [] then ''danger-full-access'' else TS_Sandbox spec),
       ''timeout_s'' \<mapsto> MetaNumber (if TS_Timeout spec \<le> 0 then 3600 else TS_Timeout spec), ''request_id'' \<mapsto> MetaText new_id,
       ''status'' \<mapsto> MetaText StatusAccepted, ''reply'' \<mapsto> MetaReply (TS_Reply spec)];
     meta1 = (case TS_Notify spec of None \<Rightarrow> meta | Some n \<Rightarrow> meta(''notify'' \<mapsto> MetaNotify n));
     meta2 = (if TS_Model spec \<noteq> [] then meta1(''model'' \<mapsto> MetaText (TS_Model spec)) else meta1) in
     \<lparr>FM_Schema = Schema, FM_ID = new_id, FM_From = br_machine b, FM_To = TS_To spec, FM_Kind = KindJobRequest, FM_Text = TS_Text spec, FM_Meta = meta2\<rparr>)"

definition PublishTask :: "Bridge \<Rightarrow> string res \<Rightarrow> TaskSpec \<Rightarrow> FleetMessage res fop" where
  "PublishTask b new_id spec f =
     (if trim_space (TS_Text spec) = [] then (Inl (Errorf ''fleetq task text is required''), f)
      else if trim_space (TS_CWD spec) = [] then (Inl (Errorf ''fleetq task cwd is required''), f)
      else case new_id of Inl err \<Rightarrow> (Inl err, f)
      | Inr i \<Rightarrow> (case Publish b (task_message b i spec) f of (Some err, f1) \<Rightarrow> (Inl err, f1) | (None, f1) \<Rightarrow> (Inr (task_message b i spec), f1)))"

section \<open>Execution on this machine\<close>

text \<open>The threads of \<open>threadStore\<close>, kept in memory.\<close>

type_synonym thread_store = "string \<rightharpoonup> string"

definition Fleet_GetChatGroupThread :: "thread_store \<Rightarrow> string \<Rightarrow> string" where
  "Fleet_GetChatGroupThread s i = (case s i of None \<Rightarrow> [] | Some t \<Rightarrow> t)"

definition Fleet_SetThreadIfExpected :: "string \<Rightarrow> string \<Rightarrow> string \<Rightarrow> thread_store \<Rightarrow> bool \<times> thread_store" where
  "Fleet_SetThreadIfExpected i expected replacement s = (if Fleet_GetChatGroupThread s i \<noteq> expected then (False, s) else (True, s(i \<mapsto> replacement)))"

definition expandWorkspacePath :: "Bridge \<Rightarrow> string \<Rightarrow> string" where
  "expandWorkspacePath b value0 = (let value = br_expand_env b value0 in
     Clean (if value = ''~'' \<or> has_prefix value ''~/'' then (case br_home b of Some home \<Rightarrow> Join [home, trim_prefix value ''~/''] | None \<Rightarrow> value) else value))"

definition no_runtime :: AppRuntime where
  "no_runtime = \<lparr>Runtime_ID = [], Runtime_WorkspaceDir = [], Runtime_WorkspaceMode = [], Runtime_Model = [], Runtime_Effort = []\<rparr>"

definition fleet_batch :: "FleetMessage \<Rightarrow> string \<Rightarrow> Batch" where
  "fleet_batch message cwd = (let chatGroupID = ''fleetq:'' @ FM_ID message; key = P2PKey chatGroupID ''fleetq'' in
     \<lparr>Batch_ID = FM_ID message, Batch_Key = key,
      Batch_Runtime = \<lparr>Runtime_ID = ''fleetq'', Runtime_WorkspaceDir = cwd, Runtime_WorkspaceMode = ''work'', Runtime_Model = stringValue (FM_Meta message) ''model'', Runtime_Effort = []\<rparr>,
      Batch_Messages = [\<lparr>Msg_ID = FM_ID message, Msg_TraceID = [], Msg_ChatGroupID = chatGroupID, Msg_ChatType = ''fleetq'', Msg_ChatID = chatGroupID, Msg_Key = key,
        Msg_Runtime = no_runtime, Msg_Reply = \<lparr>Reply_ID = [], Reply_Type = []\<rparr>, Msg_ActorOpenID = [], Msg_Query = FM_Text message, Msg_ReceivedAt = zero_time,
        Msg_HasRequiredAttachment = False, Msg_AttachmentIDs = [], Msg_AttachmentOutboxDir = [], Msg_Goal = False,
        Msg_ScheduledTaskID = [], Msg_ScheduledTaskRunID = [], Msg_ScheduledClaimToken = []\<rparr>],
      Batch_Goal = False, Batch_ScheduledTaskID = [], Batch_ScheduledTaskRunID = [], Batch_ScheduledClaimToken = []\<rparr>)"

definition Executor_Execute :: "Bridge \<Rightarrow> FleetMessage \<Rightarrow> string res fop" where
  "Executor_Execute b message f = (let cwd = expandWorkspacePath b (stringValue (FM_Meta message) ''cwd'') in
     if trim_space cwd = [] then (Inl (Errorf (''fleetq task '' @ FM_ID message @ '' has no cwd'')), f)
     else let batch = fleet_batch message cwd in (br_process b (fl_calls f) batch, f\<lparr>fl_calls := fl_calls f @ [RunBatch batch]\<rparr>))"

definition ErrNoReplyRoute :: go_error where
  "ErrNoReplyRoute = Sentinel ''fleetq result has no Feishu reply route''"

definition ErrLeaseLost :: go_error where
  "ErrLeaseLost = Sentinel ''fleetq lease lost''"

definition executeWithLease :: "Bridge \<Rightarrow> FleetMessage \<Rightarrow> string res fop" where
  "executeWithLease b message f = (case Executor_Execute b message f of (result, f1) \<Rightarrow>
     (case br_in_progress b (fl_calls f1) message of Some err \<Rightarrow> (Inl (Wrapf (error_text err) ErrLeaseLost), f1) | None \<Rightarrow> (result, f1)))"

section \<open>Results and notices\<close>

definition outcome_status :: "go_error option \<Rightarrow> string" where
  "outcome_status executeErr = (if executeErr \<noteq> None then StatusFailed else StatusCompleted)"

definition executor_name :: "Bridge \<Rightarrow> FleetMessage \<Rightarrow> string" where
  "executor_name b request = (if br_machine b = [] then FM_From request else br_machine b)"

definition resultMessage :: "Bridge \<Rightarrow> FleetMessage \<Rightarrow> string \<Rightarrow> go_error option \<Rightarrow> FleetMessage res" where
  "resultMessage b request result executeErr =
     (if trim_space (FM_From request) = [] then Inl (Errorf ''fleetq request has no source machine'')
      else Inr \<lparr>FM_Schema = Schema, FM_ID = requestID request @ '':result'', FM_From = executor_name b request, FM_To = [FM_From request], FM_Kind = KindJobResult, FM_Text = result,
        FM_Meta = [''request_id'' \<mapsto> MetaText (requestID request), ''status'' \<mapsto> MetaText (outcome_status executeErr), ''executor'' \<mapsto> MetaText (executor_name b request)]
          (''reply'' := FM_Meta request ''reply'')\<rparr>)"

definition publishResult :: "Bridge \<Rightarrow> FleetMessage \<Rightarrow> string \<Rightarrow> go_error option \<Rightarrow> go_error option fop" where
  "publishResult b request result executeErr f = (case resultMessage b request result executeErr of Inl err \<Rightarrow> (Some err, f) | Inr message \<Rightarrow> Publish b message f)"

definition routable :: "ReplyRoute \<Rightarrow> bool" where
  "routable r \<longleftrightarrow> RR_AppID r \<noteq> [] \<and> RR_ReceiveID r \<noteq> [] \<and> RR_ReceiveType r \<noteq> []"

definition replyRoute :: "Bridge \<Rightarrow> meta option \<Rightarrow> ReplyRoute option" where
  "replyRoute b value = (case br_reply b value of None \<Rightarrow> None | Some route \<Rightarrow> if routable route then Some route else None)"

definition notifyRoute :: "Bridge \<Rightarrow> meta option \<Rightarrow> NotifyRoute option" where
  "notifyRoute b value = (case br_notify b value of None \<Rightarrow> None
     | Some route \<Rightarrow> if NR_Machine route = [] \<or> \<not> routable (NR_Reply route) then None else Some route)"

definition notice_text :: "string \<Rightarrow> string \<Rightarrow> string \<Rightarrow> string" where
  "notice_text request status result = ''[FleetQ '' @ utf8 [20219, 21153, 36890, 30693] @ '']'' @ CHR 0x0A # utf8 [20219, 21153] @ '' ID'' @ utf8 [65306] @ request
     @ CHR 0x0A # utf8 [29366, 24577, 65306] @ status @ CHR 0x0A # result"

definition publishTargetNotice :: "Bridge \<Rightarrow> FleetMessage \<Rightarrow> string \<Rightarrow> go_error option \<Rightarrow> go_error option fop" where
  "publishTargetNotice b request result executeErr f = (case notifyRoute b (FM_Meta request ''notify'') of None \<Rightarrow> (None, f)
     | Some notify \<Rightarrow> (let status = outcome_status executeErr in
         Publish b \<lparr>FM_Schema = Schema, FM_ID = requestID request @ '':notice:'' @ NR_Machine notify, FM_From = executor_name b request, FM_To = [NR_Machine notify],
           FM_Kind = KindJobNotice, FM_Text = notice_text (requestID request) status result,
           FM_Meta = [''request_id'' \<mapsto> MetaText (requestID request), ''status'' \<mapsto> MetaText status, ''executor'' \<mapsto> MetaText (executor_name b request),
             ''reply'' \<mapsto> MetaReply (NR_Reply notify)]\<rparr> f))"

section \<open>Delivery to Feishu\<close>

text \<open>\<open>dedupe_ok\<close> asks the ledger, or without one the set \<open>seen\<close>, whether the text is to be sent.\<close>

definition dedupe_ok :: "Bridge \<Rightarrow> string \<Rightarrow> string \<Rightarrow> ReplyRoute \<Rightarrow> string \<Rightarrow> bool res fop" where
  "dedupe_ok b dedupeID resultID reply content f =
     (if br_ledger b then BeginFleetQResult dedupeID resultID (RR_AppID reply) (RR_ReceiveID reply) (RR_ReceiveType reply) content f
      else (Inr (dedupeID \<notin> fl_seen f), f\<lparr>fl_seen := insert dedupeID (fl_seen f)\<rparr>))"

definition send_failed :: "Bridge \<Rightarrow> string \<Rightarrow> go_error \<Rightarrow> fleet \<Rightarrow> fleet" where
  "send_failed b dedupeID err f = (if br_ledger b then snd (MarkFleetQResultUnknown dedupeID (error_text err) f) else f\<lparr>fl_seen := fl_seen f - {dedupeID}\<rparr>)"

definition send_succeeded :: "Bridge \<Rightarrow> string \<Rightarrow> string \<Rightarrow> string \<Rightarrow> go_error option fop" where
  "send_succeeded b request dedupeID resultID f =
     (if \<not> br_ledger b then (None, publishStatusByID b request resultID StatusDelivered None f)
      else case MarkFleetQResultSent dedupeID f of
        (Some err, f1) \<Rightarrow> (Some err, snd (MarkFleetQResultUnknown dedupeID (error_text err) f1))
      | (None, f1) \<Rightarrow> (None, publishStatusByID b request resultID StatusDelivered None f1))"

definition deliverToRoute :: "Bridge \<Rightarrow> string \<Rightarrow> string \<Rightarrow> string \<Rightarrow> ReplyRoute \<Rightarrow> string \<Rightarrow> go_error option fop" where
  "deliverToRoute b request dedupeID resultID reply content f =
     (if \<not> br_sender b (RR_AppID reply) then (Some (Errorf (''fleetq result app sender unavailable: '' @ RR_AppID reply)), f\<lparr>fl_seen := fl_seen f - {dedupeID}\<rparr>)
      else if RR_ReceiveID reply = [] \<or> RR_ReceiveType reply = [] then (Some ErrNoReplyRoute, f\<lparr>fl_seen := fl_seen f - {dedupeID}\<rparr>)
      else case dedupe_ok b dedupeID resultID reply content f of
        (Inl err, f1) \<Rightarrow> (Some err, f1)
      | (Inr send, f1) \<Rightarrow> if \<not> send then (None, f1)
          else (case fcall b (SendFeishu dedupeID (RR_AppID reply) (RR_ReceiveID reply) (RR_ReceiveType reply) content) f1 of
            (Some err, f2) \<Rightarrow> (Some err, send_failed b dedupeID err f2)
          | (None, f2) \<Rightarrow> send_succeeded b request dedupeID resultID f2))"

definition result_text :: "string \<Rightarrow> string \<Rightarrow> string" where
  "result_text request result = ''[FleetQ '' @ utf8 [20219, 21153, 32467, 26524] @ '']'' @ CHR 0x0A # utf8 [20219, 21153] @ '' ID'' @ utf8 [65306] @ request @ CHR 0x0A # result"

definition deliverResult :: "Bridge \<Rightarrow> FleetMessage \<Rightarrow> go_error option fop" where
  "deliverResult b result f = (case replyRoute b (FM_Meta result ''reply'') of None \<Rightarrow> (Some ErrNoReplyRoute, f)
     | Some reply \<Rightarrow> deliverToRoute b (requestID result) (requestID result) (FM_ID result) reply (result_text (requestID result) (FM_Text result)) f)"

definition deliverNotice :: "Bridge \<Rightarrow> FleetMessage \<Rightarrow> go_error option fop" where
  "deliverNotice b notice f = (case replyRoute b (FM_Meta notice ''reply'') of None \<Rightarrow> (Some ErrNoReplyRoute, f)
     | Some reply \<Rightarrow> deliverToRoute b (requestID notice) (requestID notice @ '':notice:'' @ br_machine b) (FM_ID notice) reply (FM_Text notice) f)"

section \<open>The consumer\<close>

definition answer_request :: "Bridge \<Rightarrow> FleetMessage \<Rightarrow> string \<Rightarrow> go_error option \<Rightarrow> go_error option fop" where
  "answer_request b message result executeErr f = (case publishResult b message result executeErr f of
     (Some err, f1) \<Rightarrow> (Some err, f1)
   | (None, f1) \<Rightarrow> (let f2 = publishStatus b message (outcome_status executeErr) executeErr f1;
                      f3 = snd (publishTargetNotice b message result executeErr f2) in fcall b (Acknowledge message) f3))"

definition handle_request :: "Bridge \<Rightarrow> FleetMessage \<Rightarrow> go_error option fop" where
  "handle_request b message f =
     (case executeWithLease b message (publishStatus b message StatusRunning None (publishStatus b message StatusClaimed None f)) of
        (Inr result, f1) \<Rightarrow> answer_request b message result None f1
      | (Inl err, f1) \<Rightarrow> (case br_ctx_err b (fl_calls f1) of Some cancelled \<Rightarrow> (Some cancelled, f1)
        | None \<Rightarrow> if errors_is err ErrLeaseLost then (Some err, f1)
            else answer_request b message (CHR 0x5B # utf8 [25191, 34892, 22833, 36133] @ ''] '' @ error_text err) (Some err) f1))"

definition acknowledge_delivery :: "Bridge \<Rightarrow> FleetMessage \<Rightarrow> go_error option \<times> fleet \<Rightarrow> go_error option \<times> fleet" where
  "acknowledge_delivery b message r = (case r of
     (Some err, f1) \<Rightarrow> if errors_is err ErrNoReplyRoute then fcall b (Acknowledge message) f1 else (Some err, f1)
   | (None, f1) \<Rightarrow> fcall b (Acknowledge message) f1)"

definition handle :: "Bridge \<Rightarrow> FleetMessage \<Rightarrow> go_error option fop" where
  "handle b message f =
     (if FM_Kind message = KindJobRequest then handle_request b message f
      else if FM_Kind message = KindJobResult then acknowledge_delivery b message (deliverResult b message f)
      else if FM_Kind message = KindJobNotice then acknowledge_delivery b message (deliverNotice b message f)
      else fcall b (Acknowledge message) f)"

definition run_delivery :: "Bridge \<Rightarrow> FleetMessage \<Rightarrow> fleet \<Rightarrow> fleet" where
  "run_delivery b message f = (case handle b message f of (None, f1) \<Rightarrow> f1 | (Some err, f1) \<Rightarrow> snd (fcall b (Refuse message) f1))"

text \<open>The messages the consumer takes, redeliveries included.\<close>

definition run_deliveries :: "Bridge \<Rightarrow> FleetMessage list \<Rightarrow> fleet \<Rightarrow> fleet" where
  "run_deliveries b = fold (run_delivery b)"

section \<open>The tool\<close>

record task_args =
  ta_To :: string
  ta_CWD :: string
  ta_Text :: string
  ta_Model :: string
  ta_Timeout :: int
  ta_NotifyTarget :: bool

record FleetRoute =
  FR_AppID :: string
  FR_ChatType :: string
  FR_ChatID :: string
  FR_Reply :: ReplyTarget

definition task_spec :: "FleetRoute \<Rightarrow> task_args \<Rightarrow> TaskSpec" where
  "task_spec route args = (let reply = \<lparr>RR_AppID = FR_AppID route, RR_ReceiveID = Reply_ID (FR_Reply route), RR_ReceiveType = Reply_Type (FR_Reply route),
       RR_ChatType = FR_ChatType route, RR_ChatID = FR_ChatID route\<rparr> in
     \<lparr>TS_To = [ta_To args], TS_Text = ta_Text args, TS_CWD = ta_CWD args, TS_Model = ta_Model args, TS_Timeout = ta_Timeout args,
      TS_Sandbox = ''danger-full-access'', TS_Reply = reply, TS_Notify = (if ta_NotifyTarget args then Some \<lparr>NR_Machine = ta_To args, NR_Reply = reply\<rparr> else None)\<rparr>)"

text \<open>\<open>decode\<close> reads the arguments, \<open>accepted\<close> encodes the result.\<close>

definition Fleet_Execute :: "Bridge option \<Rightarrow> (string \<Rightarrow> task_args res) \<Rightarrow> (FleetMessage \<Rightarrow> string) \<Rightarrow> string res \<Rightarrow> FleetRoute \<Rightarrow> ToolCall \<Rightarrow> (ToolResult \<times> go_error option) fop" where
  "Fleet_Execute publisher decode accepted new_id route request f = (let refused = \<lparr>Tool_Success = False, Tool_ContentItems = []\<rparr> in
     case publisher of None \<Rightarrow> ((refused, Some (Errorf ''fleetq is unavailable'')), f)
     | Some b \<Rightarrow> (case decode (TCall_Arguments request) of Inl err \<Rightarrow> ((refused, Some (Wrapf ''decode fleetq.task arguments'' err)), f)
       | Inr args \<Rightarrow> if trim_space (ta_To args) = [] \<or> trim_space (ta_CWD args) = [] \<or> trim_space (ta_Text args) = []
           then ((refused, Some (Errorf ''fleetq.task requires to, cwd, and text'')), f)
           else (case PublishTask b new_id (task_spec route args) f of
             (Inl err, f1) \<Rightarrow> ((refused, Some err), f1)
           | (Inr message, f1) \<Rightarrow> ((toolSuccess (accepted message), None), f1))))"

section \<open>Calls that send nothing\<close>

definition is_send :: "string \<Rightarrow> fleet_call \<Rightarrow> bool" where
  "is_send i c \<longleftrightarrow> (case c of SendFeishu d _ _ _ _ \<Rightarrow> d = i | _ \<Rightarrow> False)"

definition sends :: "string \<Rightarrow> fleet_call list \<Rightarrow> nat" where
  "sends i cs = length (filter (is_send i) cs)"

lemma sends_simps [simp]: "sends i [] = 0" "sends i (cs @ ds) = sends i cs + sends i ds" "sends i (c # cs) = (if is_send i c then 1 else 0) + sends i cs"
  by (simp_all add: sends_def)

definition silent :: "fleet \<Rightarrow> fleet \<Rightarrow> bool" where
  "silent f f' \<longleftrightarrow> (\<exists>cs. f' = f\<lparr>fl_calls := fl_calls f @ cs\<rparr> \<and> (\<forall>i. sends i cs = 0))"

lemma silent_refl [simp]: "silent f f"
  by (auto simp: silent_def intro: exI [of _ "[]"])

lemma silent_trans: "silent f g \<Longrightarrow> silent g h \<Longrightarrow> silent f h"
  by (fastforce simp: silent_def)

lemma fcall_silent: "\<forall>i. \<not> is_send i c \<Longrightarrow> silent f (snd (fcall b c f))"
  by (auto simp: silent_def fcall_def)

lemma not_send [simp]:
  "\<not> is_send i (PublishEvent m)" "\<not> is_send i (PublishJob t m)" "\<not> is_send i (PublishStatusEvent e)" "\<not> is_send i Flush"
  "\<not> is_send i (Acknowledge m)" "\<not> is_send i (Refuse m)" "\<not> is_send i (RunBatch x)" "is_send i (SendFeishu d a r t c) \<longleftrightarrow> d = i"
  by (simp_all add: is_send_def)

lemma fcall_silentD:
  "fcall b c f = (x, f') \<Longrightarrow> \<forall>i. \<not> is_send i c \<Longrightarrow> silent f f'"
  using fcall_silent [of c f b] by simp

lemma publish_jobs_silent: "silent f (snd (publish_jobs b message ts f))"
proof (induction ts arbitrary: f)
  case (Cons t ts)
  obtain x f1 where c: "fcall b (PublishJob t message) f = (x, f1)" by fastforce
  have "silent f f1" by (rule fcall_silentD [OF c]) simp
  then show ?case using Cons.IH [of f] Cons.IH [of f1] c by (auto split: option.split intro: silent_trans)
qed simp

text \<open>A step, then the next one unless it failed.\<close>

lemma silent_bind:
  assumes "silent f (snd m)" and "\<And>g. silent g (snd (k g))"
  shows "silent f (snd (case m of (Some err, f1) \<Rightarrow> (Some (e err), f1) | (None, f1) \<Rightarrow> k f1))"
  using assms by (auto split: prod.split option.split intro: silent_trans)

lemma flush_silent: "silent f (snd (case fcall b Flush f of (Some err, g) \<Rightarrow> (Some (Wrapf t err), g) | (None, g) \<Rightarrow> (None, g)))"
  by (rule silent_bind [OF fcall_silent]) simp_all

lemma publish_to_silent: "silent f (snd (publish_to b message targets f))"
  unfolding publish_to_def by (intro silent_bind fcall_silent publish_jobs_silent flush_silent allI not_send)

lemma Publish_silent: "silent f (snd (Publish b message f))"
  by (simp add: Publish_def publish_to_silent split: option.split)

lemma PublishStatus_silent: "silent f (snd (PublishStatus b event f))"
proof -
  have "silent f (snd (case fcall b (PublishStatusEvent event) f of (Some err, f1) \<Rightarrow> (Some (Wrapf t err), f1)
     | (None, f1) \<Rightarrow> (case fcall b Flush f1 of (Some err, f2) \<Rightarrow> (Some (Wrapf u err), f2) | (None, f2) \<Rightarrow> (None, f2))))" for t u
    by (intro silent_bind fcall_silent flush_silent allI not_send)
  then show ?thesis by (simp add: PublishStatus_def)
qed

lemma publishStatusByID_silent: "silent f (publishStatusByID b request i status cause f)"
  by (simp add: publishStatusByID_def PublishStatus_silent)

lemma publishStatus_silent: "silent f (publishStatus b message status cause f)"
  by (simp add: publishStatus_def publishStatusByID_silent)

lemma publishTargetNotice_silent: "silent f (snd (publishTargetNotice b request result cause f))"
  by (simp add: publishTargetNotice_def Publish_silent Let_def split: option.split)

lemma publishResult_silent: "silent f (snd (publishResult b request result cause f))"
  by (simp add: publishResult_def Publish_silent split: sum.split)

lemma Executor_Execute_silent: "silent f (snd (Executor_Execute b message f))"
proof -
  have "silent f (f\<lparr>fl_calls := fl_calls f @ [RunBatch x]\<rparr>)" for x by (auto simp: silent_def)
  then show ?thesis by (simp add: Executor_Execute_def Let_def)
qed

lemma executeWithLease_silent: "silent f (snd (executeWithLease b message f))"
  using Executor_Execute_silent [of f b message] by (auto simp: executeWithLease_def split: prod.split option.split)

lemma answer_request_silent: "silent f (snd (answer_request b message result cause f))"
proof -
  have "silent g (snd (let f2 = publishStatus b message (outcome_status cause) cause g; f3 = snd (publishTargetNotice b message result cause f2)
      in fcall b (Acknowledge message) f3))" for g
    unfolding Let_def
    by (rule silent_trans [OF publishStatus_silent silent_trans [OF publishTargetNotice_silent fcall_silent]]) simp
  then show ?thesis unfolding answer_request_def by (intro silent_bind publishResult_silent)
qed

lemma handle_request_silent: "silent f (snd (handle_request b message f))"
proof -
  define f0 where "f0 = publishStatus b message StatusRunning None (publishStatus b message StatusClaimed None f)"
  obtain r f1 where x: "executeWithLease b message f0 = (r, f1)" by fastforce
  have "silent f f0" unfolding f0_def by (rule silent_trans [OF publishStatus_silent publishStatus_silent])
  moreover have "silent f0 f1" using executeWithLease_silent [of f0 b message] x by simp
  ultimately have "silent f f1" by (rule silent_trans)
  moreover have "silent f1 (snd (handle_request b message f))"
    using x by (simp add: handle_request_def f0_def [symmetric] answer_request_silent split: sum.split option.split)
  ultimately show ?thesis by (rule silent_trans)
qed

section \<open>A result is sent once\<close>

lemma fexec_fine: "fl_faults f = [] \<Longrightarrow> fexec g f = (None, f\<lparr>fl_rows := g (fl_rows f)\<rparr>)"
  by (simp add: fexec_def)

definition delivery_ids :: "fleet \<Rightarrow> string set" where
  "delivery_ids f = fr_request_id ` set (fl_rows f)"

text \<open>Without faults a row is there exactly when its text was sent, and none is left pending.\<close>

definition sent_once :: "fleet \<Rightarrow> bool" where
  "sent_once f \<longleftrightarrow> fl_faults f = [] \<and> (\<forall>i. sends i (fl_calls f) = (if i \<in> delivery_ids f then 1 else 0)) \<and> (\<forall>r \<in> set (fl_rows f). fr_status r \<noteq> ''pending'')"

lemma sent_once_silent: "silent f f' \<Longrightarrow> sent_once f \<Longrightarrow> sent_once f' \<and> delivery_ids f' = delivery_ids f"
  by (auto simp: silent_def sent_once_def delivery_ids_def)

lemma begin_known:
  assumes "sent_once f" and "i \<in> delivery_ids f" and "resultID \<noteq> []" "a \<noteq> []" "r \<noteq> []" "t \<noteq> []" "i \<noteq> []"
  shows "BeginFleetQResult i resultID a r t content f = (Inr False, f)"
proof -
  have fine: "fl_faults f = []" using assms(1) by (simp add: sent_once_def)
  have known: "i \<in> fr_request_id ` set (fl_rows f)" using assms(2) by (simp add: delivery_ids_def)
  obtain row where row: "sql_first (\<lambda>r. fr_request_id r = i) (fl_rows f) = Some row"
    using known by (cases "sql_first (\<lambda>r. fr_request_id r = i) (fl_rows f)") (auto simp: sql_first_None)
  then have "fr_status row \<noteq> ''pending''" using assms(1) sql_first_SomeD [OF row] by (auto simp: sent_once_def)
  then show ?thesis using assms(3-) fine known row by (simp add: BeginFleetQResult_def fexec_fine insert_delivery_def)
qed

lemma sql_first_append: "sql_first p xs = None \<Longrightarrow> sql_first p (xs @ ys) = sql_first p ys"
  by (induction xs) (auto split: if_splits)

lemma begin_new:
  assumes "sent_once f" and "i \<notin> delivery_ids f" and "resultID \<noteq> []" "a \<noteq> []" "r \<noteq> []" "t \<noteq> []" "i \<noteq> []"
  shows "BeginFleetQResult i resultID a r t content f = (Inr True, f\<lparr>fl_rows := fl_rows f @ [\<lparr>fr_request_id = i, fr_result_id = resultID, fr_app_id = a,
      fr_receive_id = r, fr_receive_type = t, fr_content = content, fr_status = ''pending'', fr_error_reason = None\<rparr>]\<rparr>)"
proof -
  have fine: "fl_faults f = []" using assms(1) by (simp add: sent_once_def)
  have new: "i \<notin> fr_request_id ` set (fl_rows f)" using assms(2) by (simp add: delivery_ids_def)
  then have "sql_first (\<lambda>r. fr_request_id r = i) (fl_rows f) = None" by (auto simp: sql_first_None)
  then show ?thesis using assms(3-) fine new by (simp add: BeginFleetQResult_def fexec_fine insert_delivery_def sql_first_append)
qed

text \<open>The pending row of a text that was just sent is settled.\<close>

definition sending :: "string \<Rightarrow> fleet \<Rightarrow> bool" where
  "sending i f \<longleftrightarrow> fl_faults f = [] \<and> i \<in> delivery_ids f \<and> (\<forall>j. sends j (fl_calls f) = (if j \<in> delivery_ids f then 1 else 0))
     \<and> (\<forall>r \<in> set (fl_rows f). fr_status r = ''pending'' \<longrightarrow> fr_request_id r = i)"

lemma settle_ids: "fr_request_id ` set (settle_delivery i status reason rows) = fr_request_id ` set rows"
proof -
  have "map fr_request_id (settle_delivery i status reason rows) = map fr_request_id rows" by (simp add: settle_delivery_def)
  then show ?thesis by (metis list.set_map)
qed

lemma settle_sent:
  assumes "sending i f" and "status \<noteq> ''pending''"
  shows "sent_once (f\<lparr>fl_rows := settle_delivery i status reason (fl_rows f)\<rparr>)"
  using assms by (auto simp: sending_def sent_once_def delivery_ids_def settle_ids) (auto simp: settle_delivery_def)

lemma settled:
  assumes "sending i f"
  shows "MarkFleetQResultSent i f = (None, f\<lparr>fl_rows := settle_delivery i ''delivered'' None (fl_rows f)\<rparr>)"
    and "MarkFleetQResultUnknown i reason f = (None, f\<lparr>fl_rows := settle_delivery i ''unknown'' (Some reason) (fl_rows f)\<rparr>)"
  using assms by (simp_all add: MarkFleetQResultSent_def MarkFleetQResultUnknown_def fexec_fine sending_def)

lemma sent_settled:
  assumes "br_ledger b" and "sending i f"
  shows "sent_once (send_failed b i err f) \<and> delivery_ids (send_failed b i err f) = delivery_ids f"
    and "sent_once (snd (send_succeeded b request i resultID f)) \<and> delivery_ids (snd (send_succeeded b request i resultID f)) = delivery_ids f"
proof -
  have sent: "sent_once (f\<lparr>fl_rows := settle_delivery i status reason (fl_rows f)\<rparr>) \<and> delivery_ids (f\<lparr>fl_rows := settle_delivery i status reason (fl_rows f)\<rparr>) = delivery_ids f"
    if "status \<noteq> ''pending''" for status reason
    using settle_sent [OF assms(2) that] by (simp add: delivery_ids_def settle_ids)
  show "sent_once (send_failed b i err f) \<and> delivery_ids (send_failed b i err f) = delivery_ids f"
    using assms sent by (simp add: send_failed_def settled [OF assms(2)])
  show "sent_once (snd (send_succeeded b request i resultID f)) \<and> delivery_ids (snd (send_succeeded b request i resultID f)) = delivery_ids f"
    using assms(1) sent_once_silent [OF publishStatusByID_silent] sent [of "''delivered''" None]
    by (simp add: send_succeeded_def settled [OF assms(2)])
qed

lemma sending_new:
  assumes "sent_once f" and "fr_request_id row \<notin> delivery_ids f"
  shows "sending (fr_request_id row) (f\<lparr>fl_rows := fl_rows f @ [row], fl_calls := fl_calls f @ [SendFeishu (fr_request_id row) a r t c]\<rparr>)"
  using assms by (auto simp: sent_once_def sending_def delivery_ids_def)

text \<open>The cases of a delivery: no identity, a row that is there, a new row.\<close>

lemma deliver_unnamed:
  assumes "br_ledger b" and "i = [] \<or> resultID = [] \<or> RR_AppID reply = []" and "br_sender b (RR_AppID reply)" "RR_ReceiveID reply \<noteq> []" "RR_ReceiveType reply \<noteq> []"
  shows "snd (deliverToRoute b request i resultID reply content f) = f"
proof -
  have "BeginFleetQResult i resultID (RR_AppID reply) (RR_ReceiveID reply) (RR_ReceiveType reply) content f = (Inl (Errorf ''fleetq result identity is required''), f)"
    using assms(2) by (auto simp: BeginFleetQResult_def)
  then show ?thesis using assms by (simp add: deliverToRoute_def dedupe_ok_def)
qed

lemma deliver_known:
  assumes "br_ledger b" and "sent_once f" and "i \<in> delivery_ids f" and "i \<noteq> []" "resultID \<noteq> []" "routable reply" "br_sender b (RR_AppID reply)"
  shows "snd (deliverToRoute b request i resultID reply content f) = f"
proof -
  have "BeginFleetQResult i resultID (RR_AppID reply) (RR_ReceiveID reply) (RR_ReceiveType reply) content f = (Inr False, f)"
    by (rule begin_known [OF assms(2,3)]) (use assms in \<open>auto simp: routable_def\<close>)
  then show ?thesis using assms by (simp add: deliverToRoute_def dedupe_ok_def routable_def)
qed

lemma deliver_new:
  assumes ledger: "br_ledger b" and f: "sent_once f" and new: "i \<notin> delivery_ids f" and ids: "i \<noteq> []" "resultID \<noteq> []" "routable reply" "br_sender b (RR_AppID reply)"
    and f': "f' = snd (deliverToRoute b request i resultID reply content f)"
  shows "sent_once f' \<and> delivery_ids f' = insert i (delivery_ids f)"
proof -
  let ?row = "\<lparr>fr_request_id = i, fr_result_id = resultID, fr_app_id = RR_AppID reply, fr_receive_id = RR_ReceiveID reply, fr_receive_type = RR_ReceiveType reply,
    fr_content = content, fr_status = ''pending'', fr_error_reason = None\<rparr>"
  let ?send = "SendFeishu i (RR_AppID reply) (RR_ReceiveID reply) (RR_ReceiveType reply) content"
  let ?g = "f\<lparr>fl_rows := fl_rows f @ [?row], fl_calls := fl_calls f @ [?send]\<rparr>"
  have begun: "BeginFleetQResult i resultID (RR_AppID reply) (RR_ReceiveID reply) (RR_ReceiveType reply) content f = (Inr True, f\<lparr>fl_rows := fl_rows f @ [?row]\<rparr>)"
    by (rule begin_new [OF f new]) (use ids in \<open>auto simp: routable_def\<close>)
  have sending: "sending i ?g" using sending_new [OF f, of ?row] new by simp
  have rows: "delivery_ids ?g = insert i (delivery_ids f)" by (simp add: delivery_ids_def)
  have "f' = (case br_answer b (fl_calls f) ?send of Some err \<Rightarrow> send_failed b i err ?g | None \<Rightarrow> snd (send_succeeded b request i resultID ?g))"
    using ids ledger begun by (simp add: f' deliverToRoute_def dedupe_ok_def fcall_def routable_def split: option.split)
  then show ?thesis using sent_settled [OF ledger sending] rows by (simp split: option.splits)
qed

lemma deliver_refused:
  assumes "\<not> (br_sender b (RR_AppID reply) \<and> RR_ReceiveID reply \<noteq> [] \<and> RR_ReceiveType reply \<noteq> [])"
  shows "\<exists>S. snd (deliverToRoute b request i resultID reply content f) = f\<lparr>fl_seen := S\<rparr>"
  using assms by (auto simp: deliverToRoute_def)

definition routed :: "Bridge \<Rightarrow> string \<Rightarrow> string \<Rightarrow> ReplyRoute \<Rightarrow> bool" where
  "routed b i resultID reply \<longleftrightarrow> br_sender b (RR_AppID reply) \<and> routable reply \<and> i \<noteq> [] \<and> resultID \<noteq> []"

lemma deliverToRoute_keeps:
  assumes ledger: "br_ledger b" and f: "sent_once f" and f': "f' = snd (deliverToRoute b request i resultID reply content f)"
  shows "sent_once f'" "delivery_ids f \<subseteq> delivery_ids f'" "routed b i resultID reply \<Longrightarrow> i \<in> delivery_ids f'"
proof -
  consider "\<not> (br_sender b (RR_AppID reply) \<and> RR_ReceiveID reply \<noteq> [] \<and> RR_ReceiveType reply \<noteq> [])"
    | "br_sender b (RR_AppID reply)" "RR_ReceiveID reply \<noteq> []" "RR_ReceiveType reply \<noteq> []" "i = [] \<or> resultID = [] \<or> RR_AppID reply = []"
    | "routed b i resultID reply" by (auto simp: routed_def routable_def)
  then have "sent_once f' \<and> delivery_ids f \<subseteq> delivery_ids f' \<and> (routed b i resultID reply \<longrightarrow> i \<in> delivery_ids f')"
  proof cases
    case 1
    obtain S where "f' = f\<lparr>fl_seen := S\<rparr>" using deliver_refused [OF 1] f' by metis
    then show ?thesis using f 1 by (auto simp: sent_once_def delivery_ids_def routed_def routable_def)
  next
    case 2
    then show ?thesis using deliver_unnamed [OF ledger 2(4,1,2,3)] f f' by (auto simp: routed_def routable_def)
  next
    case 3
    note r = 3 [unfolded routed_def]
    show ?thesis
    proof (cases "i \<in> delivery_ids f")
      case True
      then show ?thesis using deliver_known [OF ledger f True] r f f' by simp
    next
      case False
      then show ?thesis using deliver_new [OF ledger f False _ _ _ _ f'] r by auto
    qed
  qed
  then show "sent_once f'" "delivery_ids f \<subseteq> delivery_ids f'" "routed b i resultID reply \<Longrightarrow> i \<in> delivery_ids f'" by simp_all
qed

definition deliverable :: "Bridge \<Rightarrow> FleetMessage \<Rightarrow> bool" where
  "deliverable b m \<longleftrightarrow> FM_Kind m = KindJobResult \<and> (case replyRoute b (FM_Meta m ''reply'') of None \<Rightarrow> False | Some reply \<Rightarrow> routed b (requestID m) (FM_ID m) reply)"

lemma acknowledge_silent: "silent (snd r) (snd (acknowledge_delivery b message r))"
  by (auto simp: acknowledge_delivery_def fcall_silent split: prod.split option.split)

lemma deliverResult_keeps:
  assumes "br_ledger b" and "sent_once f"
  shows "sent_once (snd (deliverResult b m f))" "delivery_ids f \<subseteq> delivery_ids (snd (deliverResult b m f))"
    "deliverable b m \<Longrightarrow> requestID m \<in> delivery_ids (snd (deliverResult b m f))"
  using assms deliverToRoute_keeps [OF assms refl] by (auto simp: deliverResult_def deliverable_def split: option.split)

lemma deliverNotice_keeps:
  assumes "br_ledger b" and "sent_once f"
  shows "sent_once (snd (deliverNotice b m f))" "delivery_ids f \<subseteq> delivery_ids (snd (deliverNotice b m f))"
  using assms deliverToRoute_keeps [OF assms refl] by (auto simp: deliverNotice_def split: option.split)

lemma run_delivery_silent: "silent (snd (handle b m f)) (run_delivery b m f)"
  by (auto simp: run_delivery_def fcall_silent split: prod.split option.split)

lemma handle_keeps:
  assumes "br_ledger b" and "sent_once f"
  shows "sent_once (snd (handle b m f)) \<and> delivery_ids f \<subseteq> delivery_ids (snd (handle b m f)) \<and> (deliverable b m \<longrightarrow> requestID m \<in> delivery_ids (snd (handle b m f)))"
proof -
  have kinds: "KindJobRequest \<noteq> KindJobResult" "KindJobNotice \<noteq> KindJobResult" by (simp_all add: KindJobRequest_def KindJobResult_def KindJobNotice_def)
  have other: "silent f (snd (handle b m f)) \<and> \<not> deliverable b m" if "FM_Kind m \<noteq> KindJobResult" "FM_Kind m \<noteq> KindJobNotice"
    using that handle_request_silent [of f b m] fcall_silent [of "Acknowledge m" f b] by (simp add: handle_def deliverable_def)
  consider "FM_Kind m = KindJobResult" | "FM_Kind m = KindJobNotice" | "silent f (snd (handle b m f))" "\<not> deliverable b m" using other by blast
  then show ?thesis
  proof cases
    case 1
    have h: "handle b m f = acknowledge_delivery b m (deliverResult b m f)" using 1 kinds by (simp add: handle_def)
    show ?thesis using deliverResult_keeps [OF assms, of m] sent_once_silent [OF acknowledge_silent [of "deliverResult b m f" b m]] h by auto
  next
    case 2
    have h: "handle b m f = acknowledge_delivery b m (deliverNotice b m f)" using 2 kinds by (simp add: handle_def KindJobRequest_def KindJobNotice_def)
    show ?thesis using deliverNotice_keeps [OF assms, of m] sent_once_silent [OF acknowledge_silent [of "deliverNotice b m f" b m]] h 2 kinds by (auto simp: deliverable_def)
  next
    case 3
    then show ?thesis using sent_once_silent [OF 3(1) assms(2)] by auto
  qed
qed

lemma run_deliveries_keeps:
  assumes "br_ledger b" and "sent_once f"
  shows "sent_once (run_deliveries b ms f) \<and> delivery_ids f \<subseteq> delivery_ids (run_deliveries b ms f)
    \<and> (\<forall>m \<in> set ms. deliverable b m \<longrightarrow> requestID m \<in> delivery_ids (run_deliveries b ms f))"
  using assms(2)
proof (induction ms arbitrary: f)
  case (Cons m ms)
  note h = handle_keeps [OF assms(1) Cons.prems, of m]
  have s: "sent_once (run_delivery b m f)" "delivery_ids (run_delivery b m f) = delivery_ids (snd (handle b m f))"
    using sent_once_silent [OF run_delivery_silent] h by blast+
  show ?case using Cons.IH [OF s(1)] s(2) h by (auto simp: run_deliveries_def)
qed (simp add: run_deliveries_def)

definition fleet_start :: fleet where
  "fleet_start = \<lparr>fl_rows = [], fl_faults = [], fl_seen = {}, fl_calls = []\<rparr>"

lemma fleet_start_sent: "sent_once fleet_start"
  by (simp add: fleet_start_def sent_once_def delivery_ids_def)


section \<open>A request is acknowledged after its result was published\<close>

lemma fcall_calls: "fcall b c f = (None, f') \<Longrightarrow> fl_calls f' = fl_calls f @ [c] \<and> br_answer b (fl_calls f) c = None"
  by (auto simp: fcall_def)

lemma publish_one:
  assumes "publish_to b r [t] f = (None, f')" and "t \<noteq> []"
  shows "fl_calls f' = fl_calls f @ [PublishEvent r, PublishJob t r, Flush] \<and> br_answer b (fl_calls f @ [PublishEvent r]) (PublishJob t r) = None"
  using assms by (auto simp: publish_to_def split: prod.splits option.splits dest!: fcall_calls)

lemma result_message:
  assumes "resultMessage b m result cause = Inr r" and "FM_From m \<noteq> ''*''"
  shows "stamped b r = r" "message_targets b r = [FM_From m]" "FM_From m \<noteq> []"
proof -
  have source: "FM_From m \<noteq> []" using assms(1) by (auto simp: resultMessage_def split: if_splits)
  then show "FM_From m \<noteq> []" .
  show "stamped b r = r" using assms(1) source by (auto simp: resultMessage_def stamped_def Schema_def executor_name_def split: if_splits)
  show "message_targets b r = [FM_From m]" using assms source by (auto simp: resultMessage_def message_targets_def uniqueTargets_def split: if_splits)
qed

lemma silent_calls: "silent f f' \<Longrightarrow> \<exists>cs. fl_calls f' = fl_calls f @ cs"
  by (auto simp: silent_def)

lemma answer_published:
  assumes "answer_request b m result cause f = (None, f')" and "FM_From m \<noteq> ''*''"
  shows "\<exists>r post. resultMessage b m result cause = Inr r \<and> fl_calls f' = fl_calls f @ [PublishEvent r, PublishJob (FM_From m) r, Flush] @ post @ [Acknowledge m]
    \<and> br_answer b (fl_calls f @ [PublishEvent r]) (PublishJob (FM_From m) r) = None"
proof -
  obtain f1 where p: "publishResult b m result cause f = (None, f1)"
    using assms(1) by (auto simp: answer_request_def split: prod.splits option.splits)
  then obtain r where r: "resultMessage b m result cause = Inr r" and P: "Publish b r f = (None, f1)"
    by (auto simp: publishResult_def split: sum.splits)
  note rm = result_message [OF r assms(2)]
  have "publish_to b r [FM_From m] f = (None, f1)" using P rm by (auto simp: Publish_def split: option.splits if_splits)
  note published = publish_one [OF this rm(3)]
  define f3 where "f3 = snd (publishTargetNotice b m result cause (publishStatus b m (outcome_status cause) cause f1))"
  have "fcall b (Acknowledge m) f3 = (None, f')" using assms(1) p by (simp add: answer_request_def f3_def Let_def)
  then have ack: "fl_calls f' = fl_calls f3 @ [Acknowledge m]" using fcall_calls by blast
  have "silent f1 f3" unfolding f3_def by (rule silent_trans [OF publishStatus_silent publishTargetNotice_silent])
  then obtain post where "fl_calls f3 = fl_calls f1 @ post" using silent_calls by blast
  then show ?thesis using published ack r by auto
qed

lemma executed_batch:
  assumes "executeWithLease b m f = (Inr result, f')"
  shows "\<exists>batch. fl_calls f' = fl_calls f @ [RunBatch batch] \<and> br_process b (fl_calls f) batch = Inr result"
  using assms by (auto simp: executeWithLease_def Executor_Execute_def Let_def split: prod.splits option.splits if_splits)

text \<open>
  A request of another machine is acknowledged only after a result for it was published to that machine: the text of its execution, or the error.
\<close>

lemma fleet_request_answered:
  assumes "handle b m f = (None, f')" and "FM_Kind m = KindJobRequest" and "FM_From m \<noteq> ''*''"
  shows "\<exists>result cause r pre post. resultMessage b m result cause = Inr r
    \<and> fl_calls f' = fl_calls f @ pre @ [PublishEvent r, PublishJob (FM_From m) r, Flush] @ post @ [Acknowledge m]
    \<and> br_answer b (fl_calls f @ pre @ [PublishEvent r]) (PublishJob (FM_From m) r) = None
    \<and> (case cause of None \<Rightarrow> \<exists>before batch. pre = before @ [RunBatch batch] \<and> br_process b (fl_calls f @ before) batch = Inr result
       | Some err \<Rightarrow> result = CHR 0x5B # utf8 [25191, 34892, 22833, 36133] @ ''] '' @ error_text err \<and> \<not> errors_is err ErrLeaseLost)"
proof -
  define f0 where "f0 = publishStatus b m StatusRunning None (publishStatus b m StatusClaimed None f)"
  have "silent f f0" unfolding f0_def by (rule silent_trans [OF publishStatus_silent publishStatus_silent])
  then obtain before where before: "fl_calls f0 = fl_calls f @ before" using silent_calls by blast
  obtain x f1 where run: "executeWithLease b m f0 = (x, f1)" by fastforce
  have handled: "handle_request b m f = (None, f')" using assms(1,2) by (simp add: handle_def)
  show ?thesis
  proof (cases x)
    case (Inr result)
    have "answer_request b m result None f1 = (None, f')" using handled run Inr by (simp add: handle_request_def f0_def)
    then obtain r post where r: "resultMessage b m result None = Inr r"
        "fl_calls f' = fl_calls f1 @ [PublishEvent r, PublishJob (FM_From m) r, Flush] @ post @ [Acknowledge m]"
        "br_answer b (fl_calls f1 @ [PublishEvent r]) (PublishJob (FM_From m) r) = None"
      using answer_published [OF _ assms(3)] by blast
    obtain batch where "fl_calls f1 = fl_calls f0 @ [RunBatch batch]" "br_process b (fl_calls f0) batch = Inr result"
      using executed_batch [of b m f0 result f1] run Inr by auto
    then show ?thesis using r before
      by (intro exI [of _ result] exI [of _ None] exI [of _ r] exI [of _ "before @ [RunBatch batch]"] exI [of _ post]) simp
  next
    case (Inl err)
    let ?text = "CHR 0x5B # utf8 [25191, 34892, 22833, 36133] @ ''] '' @ error_text err"
    have answer: "answer_request b m ?text (Some err) f1 = (None, f')" and lease: "\<not> errors_is err ErrLeaseLost"
      using handled run Inl by (auto simp: handle_request_def f0_def split: option.splits if_splits)
    obtain r post where r: "resultMessage b m ?text (Some err) = Inr r"
        "fl_calls f' = fl_calls f1 @ [PublishEvent r, PublishJob (FM_From m) r, Flush] @ post @ [Acknowledge m]"
        "br_answer b (fl_calls f1 @ [PublishEvent r]) (PublishJob (FM_From m) r) = None"
      using answer_published [OF answer assms(3)] by blast
    obtain ran where "fl_calls f1 = fl_calls f0 @ ran" using silent_calls [of f0 f1] executeWithLease_silent [of f0 b m] run by auto
    then show ?thesis using r before lease
      by (intro exI [of _ ?text] exI [of _ "Some err"] exI [of _ r] exI [of _ "before @ ran"] exI [of _ post]) simp
  qed
qed

section \<open>Findings\<close>

text \<open>The path of a task without a working directory is the one of the server, so the check for an empty one never sees it.\<close>

lemma missing_cwd_runs_here:
  assumes "br_expand_env b [] = []"
  shows "expandWorkspacePath b [] = ''.'' \<and> trim_space (expandWorkspacePath b []) \<noteq> []"
proof -
  have "expandWorkspacePath b [] = ''.''" using assms by (simp add: expandWorkspacePath_def has_prefix_def) code_simp
  moreover have "trim_space ''.'' \<noteq> []" by code_simp
  ultimately show ?thesis by simp
qed

definition ex_reply :: ReplyRoute where
  "ex_reply = \<lparr>RR_AppID = ''app'', RR_ReceiveID = ''ou'', RR_ReceiveType = ''open_id'', RR_ChatType = ''p2p'', RR_ChatID = []\<rparr>"

definition ex_bridge :: Bridge where
  "ex_bridge = \<lparr>br_client = True, br_machine = ''b'', br_machines = [''a'', ''b''], br_ledger = True, br_sender = (\<lambda>i. i = ''app''),
     br_answer = (\<lambda>cs c. None), br_process = (\<lambda>cs x. Inr ''ok''), br_in_progress = (\<lambda>cs m. None), br_ctx_err = (\<lambda>cs. None),
     br_expand_env = (\<lambda>s. s), br_home = None,
     br_reply = (\<lambda>v. case v of Some (MetaReply r) \<Rightarrow> Some r | _ \<Rightarrow> None), br_notify = (\<lambda>v. case v of Some (MetaNotify n) \<Rightarrow> Some n | _ \<Rightarrow> None)\<rparr>"

definition ex_result :: FleetMessage where
  "ex_result = \<lparr>FM_Schema = 1, FM_ID = ''r1:result'', FM_From = ''b'', FM_To = [''a''], FM_Kind = KindJobResult, FM_Text = ''ok'',
     FM_Meta = [''request_id'' \<mapsto> MetaText ''r1'', ''reply'' \<mapsto> MetaReply ex_reply]\<rparr>"

text \<open>When both statements that settle the row are lost, or refused because the reason is too long for its column, the result is sent again.\<close>

lemmas ex_fleet_defs = ex_bridge_def ex_result_def ex_reply_def KindJobRequest_def KindJobResult_def KindJobNotice_def stringValue_def requestID_def replyRoute_def
  routable_def

lemma ex_result_simps: "requestID ex_result = ''r1''" "FM_ID ex_result = ''r1:result''" "FM_Kind ex_result = KindJobResult" "replyRoute ex_bridge (FM_Meta ex_result ''reply'') = Some ex_reply"
  by (simp_all add: ex_fleet_defs)

lemma ex_result_handled:
  "handle ex_bridge ex_result f = acknowledge_delivery ex_bridge ex_result (deliverToRoute ex_bridge ''r1'' ''r1'' ''r1:result'' ex_reply (result_text ''r1'' (FM_Text ex_result)) f)"
  by (simp add: handle_def deliverResult_def ex_result_simps) (simp add: KindJobRequest_def KindJobResult_def)

lemma unsettled_result_sent_twice:
  "sends ''r1'' (fl_calls (run_deliveries ex_bridge [ex_result, ex_result] (fleet_start\<lparr>fl_faults := [Fine, Fine, Lost_Before, Lost_Before]\<rparr>))) = 2"
proof -
  note steps = run_delivery_def ex_result_handled deliverToRoute_def dedupe_ok_def BeginFleetQResult_def fexec_def insert_delivery_def send_succeeded_def
    MarkFleetQResultSent_def MarkFleetQResultUnknown_def acknowledge_delivery_def fcall_def
  have b: "br_sender ex_bridge ''app''" "br_ledger ex_bridge" "br_answer ex_bridge cs c = None" for cs c by (simp_all add: ex_bridge_def)
  have r: "RR_AppID ex_reply = ''app''" "RR_ReceiveID ex_reply = ''ou''" "RR_ReceiveType ex_reply = ''open_id''" by (simp_all add: ex_reply_def)
  have silent: "sends i (fl_calls (publishStatusByID b' q j s c f)) = sends i (fl_calls f)" for i b' q j s c f
    using publishStatusByID_silent [of f b' q j s c] by (auto simp: silent_def)
  show ?thesis by (simp add: run_deliveries_def fleet_start_def steps b r silent)
qed

section \<open>Examples\<close>


definition ex_request :: FleetMessage where
  "ex_request = \<lparr>FM_Schema = 1, FM_ID = ''r1'', FM_From = ''a'', FM_To = [''b''], FM_Kind = KindJobRequest, FM_Text = ''do'',
     FM_Meta = [''cwd'' \<mapsto> MetaText ''/w'', ''reply'' \<mapsto> MetaReply ex_reply]\<rparr>"

lemma ex_answers [simp]: "fcall ex_bridge c f = (None, f\<lparr>fl_calls := fl_calls f @ [c]\<rparr>)" "br_ctx_err ex_bridge cs = None" "br_in_progress ex_bridge cs m = None"
  "br_process ex_bridge cs x = Inr ''ok''"
  by (simp_all add: fcall_def ex_bridge_def)

lemma ex_request_handled: "fst (handle ex_bridge ex_request f) = None"
proof -
  have cwd: "trim_space (expandWorkspacePath ex_bridge ''/w'') \<noteq> []" by code_simp
  have "stringValue (FM_Meta ex_request) ''cwd'' = ''/w''" by (simp add: ex_request_def stringValue_def)
  then have run: "fst (executeWithLease ex_bridge ex_request g) = Inr ''ok''" for g
    using cwd by (simp add: executeWithLease_def Executor_Execute_def Let_def)
  have "trim_space ''a'' \<noteq> []" by code_simp
  then have "fst (publishResult ex_bridge ex_request result cause g) = None" for result cause g
    by (simp add: publishResult_def resultMessage_def Publish_def publish_to_def message_targets_def uniqueTargets_def ex_request_def requestID_def stringValue_def)
  then have answered: "fst (answer_request ex_bridge ex_request result cause g) = None" for result cause g
    by (simp add: answer_request_def Let_def split_beta)
  show ?thesis using run [of "publishStatus ex_bridge ex_request StatusRunning None (publishStatus ex_bridge ex_request StatusClaimed None f)"] answered
    by (auto simp: handle_def handle_request_def split: prod.split sum.split) (simp_all add: ex_request_def)
qed

lemma fleet_request_answered_witness:
  "fst (handle ex_bridge ex_request fleet_start) = None \<and>
   (\<exists>r pre post. fl_calls (snd (handle ex_bridge ex_request fleet_start)) = pre @ [PublishEvent r, PublishJob ''a'' r, Flush] @ post @ [Acknowledge ex_request])"
proof -
  have h: "handle ex_bridge ex_request fleet_start = (None, snd (handle ex_bridge ex_request fleet_start))"
    using ex_request_handled [of fleet_start] by (metis prod.collapse)
  have m: "FM_Kind ex_request = KindJobRequest" "FM_From ex_request \<noteq> ''*''" "FM_From ex_request = ''a''" by (simp_all add: ex_request_def)
  have start: "fl_calls fleet_start = []" by (simp add: fleet_start_def)
  obtain r pre post where "fl_calls (snd (handle ex_bridge ex_request fleet_start)) = pre @ [PublishEvent r, PublishJob ''a'' r, Flush] @ post @ [Acknowledge ex_request]"
    using fleet_request_answered [OF h m(1,2)] unfolding m(3) start append_Nil by blast
  then show ?thesis using ex_request_handled by blast
qed

end
