(* ===== verification/Spec2Isabelle.thy ===== *)
theory Spec2Isabelle
  imports Server_Start Schedule_Action Router Codex_Runtime Feishu_Adapter Fleetq_Bridge
begin

text \<open>
  Verification library of the workspace bot: a server that receives Feishu messages, runs them through Codex in one
  worker per channel, answers with cards and texts, offers tools to the running turn and runs scheduled prompts and
  scripts. All code is under \<open>src/internal\<close>, the entry point under \<open>src/cmd/server\<close>.

  \<^bold>\<open>How the parts interact.\<close> The router (\<open>router/router.go\<close>) maps an event to a channel, stores the message and its
  attachments (\<open>storage/messages.go\<close>) and hands it to the worker of its channel (\<open>worker/manager.go\<close>) or carries out a
  command. The worker forms batches, runs the processor and reports the result through a lifecycle that updates the
  stored messages; a companion's answer is split into several messages (\<open>output/companion.go\<close>). The processor
  (\<open>codexapp/processor.go\<close>) prepares attachment files (\<open>attachment/\<close>), keeps the thread of a channel and its tool
  catalog, runs the turn and books its tokens (\<open>storage/usage.go\<close>). During a turn the tool services
  (\<open>feishuaction/service.go\<close>, \<open>scheduleaction/service.go\<close>) check the arguments of a call and perform it, recorded in a
  ledger. The scheduler (\<open>schedule/\<close>) claims due slots of stored tasks, hands prompts to the workers and scripts to an
  executor, and delivers results through an outbox. At start the server reconciles what a crash left behind.

  \<^bold>\<open>Theories.\<close>
  \<^item> \<open>Bot_Prelude\<close>: Go errors, times, SQL updates on tables kept as lists. \<open>Go_Strings\<close>, \<open>Go_Filepath\<close>: the parts of
    Go's string, UTF-8 and path packages the program uses. \<open>Bot_World\<close>: the tables, the operations on them with faults
    of the connection, transactions, triples and preservation lemmas.
  \<^item> \<open>Schedule_Base\<close>, \<open>Schedule_Tasks\<close>: owners, keyring, cron guards, the task store (\<open>store.go\<close>). Patches are
    compare-and-swap and atomic, owners are isolated, pages enumerate each task once.
  \<^item> \<open>Schedule_Runs\<close>: due claims, misfires, revoked routes and run transitions (\<open>run_state.go\<close>, \<open>reconcile.go\<close>).
  \<^item> \<open>Schedule_Delivery\<close>: the outbox and its dispatcher. \<open>Schedule_Tools\<close>: the ledger of schedule tool calls.
    \<open>Script_Executor\<close>: capture, completion and console of scripts. \<open>Scheduler_Tick\<close>: the tick and the dispatchers.
  \<^item> \<open>Schedule_System\<close>: the steps of all schedule operations as one relation, with the invariants of its reachable
    states: terminal runs are final, slots are consumed once, results are announced at most once, tool answers are
    stable.
  \<^item> \<open>Schedule_Crypto\<close>: sealed prompts and scripts, hashes of owners and the cursor of a listing, which only its owner
    can use. \<open>Schedule_Action\<close>: the schedule tools; every call acts for the owner of its turn, and no argument that
    breaks a rule reaches the store.
  \<^item> \<open>Message_Store\<close>, \<open>Attachment_Store\<close>: messages, attachments and actions; batch transitions are all or nothing,
    terminal rows are final, redelivered events change nothing, an attachment has one owner.
  \<^item> \<open>Attachment_Files\<close>: claim, download, publication and cleaning of attachment files over a file system; a file is
    published whole or not at all, and only expired files are removed.
  \<^item> \<open>Key_Protectors\<close>: sealed references and results; the locale \<open>keyring\<close> is interpreted for both protectors.
    \<open>Tool_Types\<close>: the catalog and the calls of the tools. \<open>Feishu_Action\<close>: the tool service; a call reaches Feishu at
    most once and is replayed from the ledger.
  \<^item> \<open>Feishu_Document\<close>: creation of documents; the plan of the write requests partitions the blocks, and a document is announced once.
    \<open>Feishu_Adapter\<close>: received events, texts, cards, images and files; what the adapter accepts the router accepts.
  \<^item> \<open>Fleetq_Bridge\<close> (\<open>internal/fleetqbridge\<close>, \<open>fleetq\<close>, \<open>fleetqaction\<close>, \<open>storage/fleetq_results.go\<close>): tasks between machines; a result is
    sent to Feishu once, a request is acknowledged after its result was published.
  \<^item> \<open>Worker_Types\<close>, \<open>Worker_Queue\<close>: keys, messages, queues, batches, controls, the pool. \<open>Companion_Output\<close>: the
    projection of items, the companion lexer and splitter. \<open>Worker_Process\<close>: how a batch is carried out and ends, the
    pump, the delivery slot and the loop of a worker.
  \<^item> \<open>Router\<close>: events, commands and controls; a handled event is settled, dispatched once, and its job agrees with the
    stored message.
  \<^item> \<open>Usage_Ledger\<close>: snapshots and totals of tokens per session. \<open>Codex_Session\<close>, \<open>Catalog_Store\<close>,
    \<open>Codex_Processor\<close>: threads of a channel, the upgrade of a tool catalog and the processor; a turn runs only on a
    thread that was started with the catalog recorded for it.
  \<^item> \<open>Codex_Runtime\<close>: the attempts of the runtime, the routing of its events and its tool calls.
  \<^item> \<open>Server_Start\<close>: the reconciliation at start, after which nothing is in flight.

  \<^bold>\<open>Conventions.\<close> A Go string is a list of bytes. An operation on the database is a function of the world that
    answers a value or an error together with the world after it; each statement may lose its connection before or after
    it took effect, as a list of faults in the world says. A repository method is one step; so are a delivery, a tick, a
    script's goroutine and a tool call. Sections that a worker or the runtime runs under its lock are steps of a relation;
    what a batch or a turn meets while it runs (answers of the output and of the lifecycle, cancellations, replies of the
    app server) is an argument of its definition. Versions are 64-bit words. Identifiers, HMACs, digests, JSON, cron
    schedules, URLs, the file system, AES-GCM and the clock are parameters, with their documented behaviour as named
    hypotheses where a property needs it.

  \<^bold>\<open>Termination and bounds.\<close> All definitions are total: loops over runes, segments and queues end by a measure, the
    loop of a worker by the number of pending controls and messages. Following page cursors uses the number of rows as
    fuel, which is shown to be enough.

  \<^bold>\<open>Not modelled.\<close> The JSON-RPC client and the control of the app server's process, the SDK of Feishu and its
    websocket, configuration files, logging, tracing and the recorder, the streams of NATS, the provider proxy, migrations
    and the remaining command line tools: they are input and output around the logic above.
\<close>

end
